(* ===== verification/Prelude.thy ===== *)
theory Prelude
  imports Main "HOL-Library.Word" "HOL-Library.Char_ord" "HOL-Library.List_Lexorder"
    "HOL-Library.Product_Lexorder"
begin

text \<open>
  Shared ground of the development: the names of the machine types, the saturating and
  checked arithmetic of Rust's standard library, checked indexing of slices, little-endian
  encoding, and the state-and-fault monad in which the system-call handlers are written,
  with its invariant rules.  Nothing here is specific to a component.

  Conventions.  \<open>u8\<close>, \<open>u16\<close>, \<open>u32\<close> and \<open>u64\<close> values whose bits matter are words of that
  width.  A \<open>usize\<close> that is a length or an index of a live buffer, and a counter that is
  only ever compared and adjusted by saturating arithmetic, is a \<open>nat\<close>, with the
  saturation bound written out.  An \<open>i32\<close> or \<open>i64\<close> is an \<open>int\<close>; each \<open>as\<close> cast is a
  function.  A \<open>Result\<close> is a sum, with the error on the left.  A \<open>String\<close> is its UTF-8
  bytes as a \<open>char list\<close>; a byte buffer is a list of 8-bit words.
\<close>

unbundle bit_operations_syntax

section \<open>Machine types\<close>

type_synonym u8 = "8 word"
type_synonym u16 = "16 word"
type_synonym u32 = "32 word"
type_synonym u64 = "64 word"
type_synonym bytes = "u8 list"

abbreviation U32_MAX :: nat where "U32_MAX \<equiv> 4294967295"
abbreviation U64_MAX :: nat where "U64_MAX \<equiv> 18446744073709551615"
abbreviation I32_MAX :: int where "I32_MAX \<equiv> 2147483647"
abbreviation I32_MIN :: int where "I32_MIN \<equiv> - 2147483648"
abbreviation I64_MAX :: int where "I64_MAX \<equiv> 9223372036854775807"
abbreviation I64_MIN :: int where "I64_MIN \<equiv> - 9223372036854775808"

text \<open>Casts: \<open>x as i32\<close>, \<open>x as i64\<close>, \<open>x as u32\<close>, \<open>x as u16\<close>, \<open>x as u64\<close>.\<close>

definition as_i32 :: "int \<Rightarrow> int" where
  "as_i32 i = (i + 2147483648) mod 4294967296 - 2147483648"

definition as_i64 :: "int \<Rightarrow> int" where
  "as_i64 i = (i + 9223372036854775808) mod 18446744073709551616 - 9223372036854775808"

definition as_u32 :: "int \<Rightarrow> u32" where "as_u32 i = word_of_int i"
definition as_u64 :: "int \<Rightarrow> u64" where "as_u64 i = word_of_int i"
definition as_u16 :: "int \<Rightarrow> u16" where "as_u16 i = word_of_int i"

text \<open>A \<open>u32\<close> register read as \<open>i32\<close>.\<close>

abbreviation i32_of :: "u32 \<Rightarrow> int" where "i32_of w \<equiv> sint w"

lemma as_i32_id: "I32_MIN \<le> i \<Longrightarrow> i \<le> I32_MAX \<Longrightarrow> as_i32 i = i"
  by (simp add: as_i32_def)

lemma as_i32_range: "I32_MIN \<le> as_i32 i" "as_i32 i \<le> I32_MAX"
  by (simp_all add: as_i32_def)

text \<open>Bounds of the unsigned readings.\<close>

lemma unat_u8: "unat (w :: u8) < 256"
proof -
  have "unat w < 2 ^ LENGTH(8)" by (rule unsigned_less)
  then show ?thesis by simp
qed

lemma unat_u16: "unat (w :: u16) < 65536"
proof -
  have "unat w < 2 ^ LENGTH(16)" by (rule unsigned_less)
  then show ?thesis by simp
qed

lemma unat_u32: "unat (w :: u32) < 4294967296"
proof -
  have "unat w < 2 ^ LENGTH(32)" by (rule unsigned_less)
  then show ?thesis by simp
qed

lemma unat_u64: "unat (w :: u64) < 18446744073709551616"
proof -
  have "unat w < 2 ^ LENGTH(64)" by (rule unsigned_less)
  then show ?thesis by simp
qed

text \<open>Saturating arithmetic.\<close>

definition sat_add_u32 :: "nat \<Rightarrow> nat \<Rightarrow> nat" where
  "sat_add_u32 a b = min (a + b) U32_MAX"

definition sat_add_u64 :: "nat \<Rightarrow> nat \<Rightarrow> nat" where
  "sat_add_u64 a b = min (a + b) U64_MAX"

definition sat_mul_u64 :: "nat \<Rightarrow> nat \<Rightarrow> nat" where
  "sat_mul_u64 a b = min (a * b) U64_MAX"

definition sat_add_i32 :: "int \<Rightarrow> int \<Rightarrow> int" where
  "sat_add_i32 a b = max I32_MIN (min I32_MAX (a + b))"

definition sat_add_i64 :: "int \<Rightarrow> int \<Rightarrow> int" where
  "sat_add_i64 a b = max I64_MIN (min I64_MAX (a + b))"

text \<open>\<open>saturating_sub\<close> on unsigned values is subtraction on \<open>nat\<close>.\<close>

definition div_ceil :: "nat \<Rightarrow> nat \<Rightarrow> nat" where
  "div_ceil a b = (a + b - 1) div b"

definition next_multiple_of :: "nat \<Rightarrow> nat \<Rightarrow> nat" where
  "next_multiple_of a b = div_ceil a b * b"

definition checked_add_u32 :: "u32 \<Rightarrow> u32 \<Rightarrow> u32 option" where
  "checked_add_u32 a b = (if unat a + unat b \<le> U32_MAX then Some (a + b) else None)"

section \<open>Slices\<close>

text \<open>\<open>xs.get(i)\<close> and \<open>xs.get(a..b)\<close>.\<close>

definition get_at :: "'a list \<Rightarrow> nat \<Rightarrow> 'a option" where
  "get_at xs i = (if i < length xs then Some (xs ! i) else None)"

definition get_range :: "'a list \<Rightarrow> nat \<Rightarrow> nat \<Rightarrow> 'a list option" where
  "get_range xs a b = (if a \<le> b \<and> b \<le> length xs then Some (take (b - a) (drop a xs)) else None)"

text \<open>\<open>xs.get(i).and_then(|s| *s)\<close> for a list of options.\<close>

definition get_slot :: "'a option list \<Rightarrow> nat \<Rightarrow> 'a option" where
  "get_slot xs i = (case get_at xs i of Some (Some x) \<Rightarrow> Some x | _ \<Rightarrow> None)"

text \<open>\<open>v.resize(n, x)\<close>: truncates or pads.\<close>

definition resize :: "nat \<Rightarrow> 'a \<Rightarrow> 'a list \<Rightarrow> 'a list" where
  "resize n x xs = take n xs @ replicate (n - length xs) x"

text \<open>Overwriting a window of a buffer: \<open>buf[at..at+len].copy_from_slice(data)\<close>.\<close>

definition overwrite :: "nat \<Rightarrow> 'a list \<Rightarrow> 'a list \<Rightarrow> 'a list" where
  "overwrite at data xs = take at xs @ data @ drop (at + length data) xs"

lemma get_at_simps [simp]:
  "get_at [] i = None" "get_at (x # xs) 0 = Some x" "get_at (x # xs) (Suc i) = get_at xs i"
  by (auto simp: get_at_def)

lemma get_at_Some_iff: "get_at xs i = Some x \<longleftrightarrow> i < length xs \<and> xs ! i = x"
  by (auto simp: get_at_def)

lemma get_at_None_iff: "get_at xs i = None \<longleftrightarrow> length xs \<le> i"
  by (auto simp: get_at_def)

lemma get_slot_Some_iff: "get_slot xs i = Some x \<longleftrightarrow> i < length xs \<and> xs ! i = Some x"
  by (auto simp: get_slot_def get_at_def split: option.splits)

lemma get_slot_update:
  "get_slot (xs[i := v]) j = (if i = j \<and> i < length xs then v else get_slot xs j)"
  by (auto simp: get_slot_def get_at_def nth_list_update split: option.splits)

lemma get_slot_append_None: "get_slot (xs @ replicate n None) j = get_slot xs j"
  by (auto simp: get_slot_def get_at_def nth_append split: option.splits)

lemma length_resize [simp]: "length (resize n x xs) = n"
  by (simp add: resize_def)

lemma resize_grow: "length xs \<le> n \<Longrightarrow> resize n x xs = xs @ replicate (n - length xs) x"
  by (simp add: resize_def)

lemma length_overwrite [simp]: "at + length data \<le> length xs \<Longrightarrow> length (overwrite at data xs) = length xs"
  by (simp add: overwrite_def)

lemma overwrite_same: "at + length data \<le> length xs \<Longrightarrow> take (length data) (drop at (overwrite at data xs)) = data"
  by (simp add: overwrite_def)

lemma nth_overwrite:
  assumes "at + length data \<le> length xs" "i < length xs"
  shows "overwrite at data xs ! i = (if at \<le> i \<and> i < at + length data then data ! (i - at) else xs ! i)"
  using assms by (auto simp: overwrite_def nth_append min_def)

lemma take_drop_overwrite_disjoint:
  assumes "at + length data \<le> length xs" "a + n \<le> length xs" "a + n \<le> at \<or> at + length data \<le> a"
  shows "take n (drop a (overwrite at data xs)) = take n (drop a xs)"
proof (rule nth_equalityI)
  show "length (take n (drop a (overwrite at data xs))) = length (take n (drop a xs))"
    using assms by simp
next
  fix i assume "i < length (take n (drop a (overwrite at data xs)))"
  then have "i < n" by simp
  then show "take n (drop a (overwrite at data xs)) ! i = take n (drop a xs) ! i"
    using assms by (auto simp: nth_overwrite)
qed

section \<open>Little-endian encoding\<close>

text \<open>\<open>to_le_bytes\<close> and \<open>from_le_bytes\<close> for an \<open>n\<close>-byte integer.\<close>

primrec le_bytes :: "nat \<Rightarrow> nat \<Rightarrow> bytes" where
  "le_bytes 0 k = []"
| "le_bytes (Suc n) k = of_nat (k mod 256) # le_bytes n (k div 256)"

primrec le_nat :: "bytes \<Rightarrow> nat" where
  "le_nat [] = 0"
| "le_nat (b # bs) = unat b + 256 * le_nat bs"

lemma length_le_bytes [simp]: "length (le_bytes n k) = n"
  by (induction n arbitrary: k) auto

lemma unat_of_nat_byte: "unat (of_nat (k mod 256) :: u8) = k mod 256"
  by (simp add: unat_of_nat)

lemma le_nat_le_bytes: "le_nat (le_bytes n k) = k mod 256 ^ n"
proof (induction n arbitrary: k)
  case 0
  then show ?case by simp
next
  case (Suc n)
  have "le_nat (le_bytes (Suc n) k) = k mod 256 + 256 * (k div 256 mod 256 ^ n)"
    by (simp add: Suc.IH unat_of_nat_byte)
  also have "\<dots> = k mod (256 * 256 ^ n)"
    by (simp add: mod_mult2_eq)
  finally show ?case by simp
qed

lemma le_nat_bound: "le_nat bs < 256 ^ length bs"
proof (induction bs)
  case Nil
  then show ?case by simp
next
  case (Cons b bs)
  have "unat b < 256"
    by (rule unat_u8)
  with Cons show ?case by simp
qed

lemma le_bytes_le_nat: "length bs = n \<Longrightarrow> le_bytes n (le_nat bs) = bs"
proof (induction bs arbitrary: n)
  case Nil
  then show ?case by simp
next
  case (Cons b bs)
  have b: "unat b < 256"
    by (rule unat_u8)
  then have "(unat b + 256 * le_nat bs) mod 256 = unat b" "(unat b + 256 * le_nat bs) div 256 = le_nat bs"
    by simp_all
  with Cons show ?case by auto
qed

definition le32 :: "u32 \<Rightarrow> bytes" where "le32 w = le_bytes 4 (unat w)"
definition le64 :: "u64 \<Rightarrow> bytes" where "le64 w = le_bytes 8 (unat w)"
definition le16 :: "u16 \<Rightarrow> bytes" where "le16 w = le_bytes 2 (unat w)"
definition u32_le :: "bytes \<Rightarrow> u32" where "u32_le bs = of_nat (le_nat bs)"
definition u64_le :: "bytes \<Rightarrow> u64" where "u64_le bs = of_nat (le_nat bs)"

lemma length_le32 [simp]: "length (le32 w) = 4" by (simp add: le32_def)
lemma length_le64 [simp]: "length (le64 w) = 8" by (simp add: le64_def)
lemma length_le16 [simp]: "length (le16 w) = 2" by (simp add: le16_def)

lemma u32_le_le32 [simp]: "u32_le (le32 w) = w"
proof -
  have "unat w < 4294967296" by (rule unat_u32)
  then show ?thesis by (simp add: u32_le_def le32_def le_nat_le_bytes)
qed

lemma u64_le_le64 [simp]: "u64_le (le64 w) = w"
proof -
  have "unat w < 18446744073709551616" by (rule unat_u64)
  then show ?thesis by (simp add: u64_le_def le64_def le_nat_le_bytes)
qed

lemma le32_u32_le: "length bs = 4 \<Longrightarrow> le32 (u32_le bs) = bs"
proof -
  assume l: "length bs = 4"
  have "le_nat bs < 4294967296" using le_nat_bound [of bs] l by simp
  then show ?thesis using l by (simp add: le32_def u32_le_def unat_of_nat le_bytes_le_nat)
qed

end
