(* ===== verification/Slab.thy ===== *)
theory Slab
  imports Prelude
begin

text \<open>
  The slab of \<open>slab.rs\<close>: a vector of slots and a stack of freed keys.  The locale
  \<open>key_store\<close> is the contract its clients (the description table and the pipe table) rely
  on, stated on lookups only; the interpretation at the end discharges it for the code.
\<close>

section \<open>The contract of a store addressed by key\<close>

locale key_store =
  fixes get :: "'s \<Rightarrow> nat \<Rightarrow> 'v option"
    and ins :: "'v \<Rightarrow> nat \<Rightarrow> 's \<Rightarrow> nat option \<times> 's"
    and upd :: "nat \<Rightarrow> ('v \<Rightarrow> 'v) \<Rightarrow> 's \<Rightarrow> 's"
    and rem :: "nat \<Rightarrow> 's \<Rightarrow> 'v option \<times> 's"
    and wf :: "'s \<Rightarrow> bool"
  assumes wf_ins: "wf s \<Longrightarrow> wf (snd (ins v c s))"
    and wf_upd: "wf s \<Longrightarrow> wf (upd k f s)"
    and wf_rem: "wf s \<Longrightarrow> wf (snd (rem k s))"
    and ins_Some: "wf s \<Longrightarrow> ins v c s = (Some k, s') \<Longrightarrow>
      get s k = None \<and> get s' = (get s)(k := Some v)"
    and ins_None: "wf s \<Longrightarrow> ins v c s = (None, s') \<Longrightarrow> get s' = get s"
    and get_upd: "get (upd k f s) = (get s)(k := map_option f (get s k))"
    and get_rem: "get (snd (rem k s)) = (get s)(k := None)"
    and fst_rem: "fst (rem k s) = get s k"
begin

lemma ins_fresh: "wf s \<Longrightarrow> ins v c s = (Some k, s') \<Longrightarrow> get s j = Some w \<Longrightarrow> j \<noteq> k \<and> get s' j = Some w"
  using ins_Some [of s v c k s'] by auto

lemma ins_twice_distinct:
  assumes "wf s" "ins v c s = (Some k, s')" "ins w d s' = (Some j, s'')"
  shows "j \<noteq> k" "get s'' k = Some v" "get s'' j = Some w"
proof -
  have wf': "wf s'" using wf_ins [OF assms(1), of v c] assms(2) by simp
  have k: "get s' k = Some v" using ins_Some [OF assms(1,2)] by simp
  note j = ins_Some [OF wf' assms(3)]
  show "j \<noteq> k" using j k by auto
  then show "get s'' k = Some v" "get s'' j = Some w" using j k by auto
qed

lemma rem_ins:
  assumes "wf s" "ins v c s = (Some k, s')"
  shows "fst (rem k s') = Some v" "get (snd (rem k s')) = get s"
  using ins_Some [OF assms] by (auto simp: fst_rem get_rem)

lemma rem_twice: "fst (rem k (snd (rem k s))) = None"
  by (simp add: fst_rem get_rem)

lemma upd_live: "get (upd k f s) j = None \<longleftrightarrow> get s j = None"
  by (simp add: get_upd)

end

section \<open>The slab\<close>

record 'a slab =
  slots :: "'a option list"
  free :: "nat list"

definition slab_new :: "'a slab" where
  "slab_new = \<lparr>slots = [], free = []\<rparr>"

text \<open>\<open>Vec::pop\<close> takes from the end, \<open>Vec::push\<close> adds there.\<close>

definition slab_insert :: "'a \<Rightarrow> nat \<Rightarrow> 'a slab \<Rightarrow> nat option \<times> 'a slab" where
  "slab_insert value cap s =
     (if free s \<noteq> [] then
        let k = last (free s); s1 = s\<lparr>free := butlast (free s)\<rparr> in
        if k < length (slots s1) then (Some k, s1\<lparr>slots := (slots s1)[k := Some value]\<rparr>)
        else (None, s1)
      else if cap \<le> length (slots s) \<or> U32_MAX \<le> length (slots s) then (None, s)
      else (Some (length (slots s)), s\<lparr>slots := slots s @ [Some value]\<rparr>))"

definition slab_get :: "'a slab \<Rightarrow> nat \<Rightarrow> 'a option" where
  "slab_get s k = get_slot (slots s) k"

text \<open>Writing through \<open>get_mut\<close>, when the key is live.\<close>

definition slab_modify :: "nat \<Rightarrow> ('a \<Rightarrow> 'a) \<Rightarrow> 'a slab \<Rightarrow> 'a slab" where
  "slab_modify k f s =
     (case slab_get s k of Some v \<Rightarrow> s\<lparr>slots := (slots s)[k := Some (f v)]\<rparr> | None \<Rightarrow> s)"

definition slab_remove :: "nat \<Rightarrow> 'a slab \<Rightarrow> 'a option \<times> 'a slab" where
  "slab_remove k s =
     (case slab_get s k of
        Some v \<Rightarrow> (Some v, s\<lparr>slots := (slots s)[k := None], free := free s @ [k]\<rparr>)
      | None \<Rightarrow> (None, s))"

definition slab_len :: "'a slab \<Rightarrow> nat" where
  "slab_len s = length (slots s) - length (free s)"

text \<open>The free list holds exactly the empty slots, each once.\<close>

definition slab_wf :: "'a slab \<Rightarrow> bool" where
  "slab_wf s \<longleftrightarrow> distinct (free s) \<and> set (free s) = {k. k < length (slots s) \<and> slots s ! k = None}"

lemma slab_get_Some_iff: "slab_get s k = Some v \<longleftrightarrow> k < length (slots s) \<and> slots s ! k = Some v"
  by (simp add: slab_get_def get_slot_Some_iff)

lemma slab_wf_new: "slab_wf slab_new"
  by (simp add: slab_wf_def slab_new_def)

lemma slab_get_new [simp]: "slab_get slab_new k = None"
  by (simp add: slab_get_def slab_new_def get_slot_def)

lemma slab_wfI:
  "distinct (free s) \<Longrightarrow> (\<And>k. k \<in> set (free s) \<longleftrightarrow> k < length (slots s) \<and> slots s ! k = None) \<Longrightarrow> slab_wf s"
  unfolding slab_wf_def by blast

lemma slab_wfD:
  assumes "slab_wf s"
  shows "distinct (free s)" "k \<in> set (free s) \<longleftrightarrow> k < length (slots s) \<and> slots s ! k = None"
  using assms unfolding slab_wf_def by blast+

lemma slab_wf_popD:
  assumes "slab_wf s" "free s \<noteq> []"
  shows "last (free s) < length (slots s)" "slots s ! last (free s) = None"
    "distinct (butlast (free s))"
    "k \<in> set (butlast (free s)) \<longleftrightarrow> k \<in> set (free s) \<and> k \<noteq> last (free s)"
proof -
  have "last (free s) \<in> set (free s)" using assms(2) by simp
  then show "last (free s) < length (slots s)" "slots s ! last (free s) = None"
    using slab_wfD(2) [OF assms(1)] by blast+
  obtain xs x where x: "free s = xs @ [x]" using assms(2) by (metis rev_exhaust)
  have d: "distinct (xs @ [x])" using slab_wfD(1) [OF assms(1)] x by simp
  show "distinct (butlast (free s))" using d by (simp add: x)
  show "k \<in> set (butlast (free s)) \<longleftrightarrow> k \<in> set (free s) \<and> k \<noteq> last (free s)"
    using d by (auto simp: x)
qed

lemma slab_wf_insert:
  assumes wf: "slab_wf s"
  shows "slab_wf (snd (slab_insert v c s))"
proof (cases "free s = []")
  case True
  have "slab_wf (s\<lparr>slots := slots s @ [Some v]\<rparr>)"
    using slab_wfD(2) [OF wf] True by (intro slab_wfI) (auto simp: nth_append less_Suc_eq)
  with wf True show ?thesis by (simp add: slab_insert_def)
next
  case False
  note p = slab_wf_popD [OF wf False]
  have "slab_wf (s\<lparr>free := butlast (free s), slots := (slots s)[last (free s) := Some v]\<rparr>)"
  proof (rule slab_wfI, goal_cases)
    case 1
    then show ?case using p(3) by simp
  next
    case (2 k)
    then show ?case using p(1,2,4) slab_wfD(2) [OF wf, of k] by (simp add: nth_list_update)
  qed
  with False p(1) show ?thesis by (simp add: slab_insert_def Let_def)
qed

lemma slab_insert_SomeD:
  assumes "slab_wf s" "slab_insert v c s = (Some k, s')"
  shows "slab_get s k = None \<and> slab_get s' = (slab_get s)(k := Some v)"
proof (cases "free s = []")
  case True
  with assms(2) have k: "k = length (slots s)" and s': "s' = s\<lparr>slots := slots s @ [Some v]\<rparr>"
    by (auto simp: slab_insert_def split: if_splits)
  show ?thesis
    by (auto simp: k s' slab_get_def get_slot_def get_at_def nth_append fun_eq_iff)
next
  case False
  note p = slab_wf_popD [OF assms(1) False]
  have i: "slab_insert v c s = (Some (last (free s)),
      s\<lparr>free := butlast (free s), slots := (slots s)[last (free s) := Some v]\<rparr>)"
    using False p(1) by (simp add: slab_insert_def Let_def)
  have k: "k = last (free s)" and s': "slots s' = (slots s)[last (free s) := Some v]"
    using assms(2) by (auto simp: i)
  have n: "slab_get s (last (free s)) = None"
    using p(1,2) by (simp add: slab_get_def get_slot_def get_at_def)
  show ?thesis
    using p(1) n by (simp add: k s' slab_get_def get_slot_update fun_eq_iff)
qed

lemma slab_insert_NoneD:
  assumes "slab_wf s" "slab_insert v c s = (None, s')"
  shows "s' = s"
  using assms(2) slab_wf_popD(1) [OF assms(1)]
  by (auto simp: slab_insert_def Let_def split: if_splits)

lemma slab_get_modify: "slab_get (slab_modify k f s) = (slab_get s)(k := map_option f (slab_get s k))"
proof (cases "slab_get s k")
  case None
  then show ?thesis by (auto simp: slab_modify_def fun_eq_iff)
next
  case (Some v)
  then have "k < length (slots s)" by (simp add: slab_get_Some_iff)
  with Some show ?thesis
    by (auto simp: slab_modify_def fun_eq_iff slab_get_def get_slot_update)
qed

lemma slab_wf_modify: "slab_wf s \<Longrightarrow> slab_wf (slab_modify k f s)"
proof (cases "slab_get s k")
  case None
  assume "slab_wf s"
  with None show ?thesis by (simp add: slab_modify_def)
next
  case (Some v)
  assume wf: "slab_wf s"
  have "k < length (slots s)" "slots s ! k = Some v" using Some by (auto simp: slab_get_Some_iff)
  then have "{j. j < length (slots s) \<and> (slots s)[k := Some (f v)] ! j = None} =
      {j. j < length (slots s) \<and> slots s ! j = None}"
    by (auto simp: nth_list_update)
  with wf Some show ?thesis by (simp add: slab_modify_def slab_wf_def)
qed

lemma slab_remove_get: "slab_get (snd (slab_remove k s)) = (slab_get s)(k := None)"
proof (cases "slab_get s k")
  case None
  then show ?thesis by (auto simp: slab_remove_def fun_eq_iff)
next
  case (Some v)
  then have "k < length (slots s)" by (simp add: slab_get_Some_iff)
  with Some show ?thesis
    by (simp add: slab_remove_def fun_eq_iff) (simp add: slab_get_def get_slot_update)
qed

lemma slab_remove_fst: "fst (slab_remove k s) = slab_get s k"
  by (auto simp: slab_remove_def split: option.splits)

lemma slab_wf_remove:
  assumes wf: "slab_wf s"
  shows "slab_wf (snd (slab_remove k s))"
proof (cases "slab_get s k")
  case None
  with wf show ?thesis by (simp add: slab_remove_def)
next
  case (Some v)
  then have k: "k < length (slots s)" "slots s ! k = Some v" by (auto simp: slab_get_Some_iff)
  then have nk: "k \<notin> set (free s)" using slab_wfD(2) [OF wf, of k] by simp
  have "slab_wf (s\<lparr>slots := (slots s)[k := None], free := free s @ [k]\<rparr>)"
  proof (rule slab_wfI, goal_cases)
    case 1
    then show ?case using slab_wfD(1) [OF wf] nk by simp
  next
    case (2 j)
    then show ?case using k slab_wfD(2) [OF wf, of j] by (auto simp: nth_list_update)
  qed
  with Some show ?thesis by (simp add: slab_remove_def)
qed

interpretation ks: key_store slab_get slab_insert slab_modify slab_remove slab_wf
  by unfold_locales
    (auto simp add: slab_wf_insert slab_wf_modify slab_wf_remove slab_insert_SomeD
      slab_get_modify slab_remove_get slab_remove_fst dest: slab_insert_NoneD)

text \<open>The counter of live entries counts the live keys.\<close>

lemma slab_len_live:
  assumes "slab_wf s"
  shows "slab_len s = card {k. slab_get s k \<noteq> None}"
proof -
  have live: "{k. slab_get s k \<noteq> None} = {k. k < length (slots s)} - set (free s)"
  proof (rule set_eqI)
    fix k
    show "k \<in> {k. slab_get s k \<noteq> None} \<longleftrightarrow> k \<in> {k. k < length (slots s)} - set (free s)"
      using slab_wfD(2) [OF assms, of k]
      by (cases "slab_get s k") (auto simp: slab_get_def get_slot_def get_at_def split: option.splits if_splits)
  qed
  have sub: "set (free s) \<subseteq> {k. k < length (slots s)}"
    using slab_wfD(2) [OF assms] by blast
  have "card ({k. k < length (slots s)} - set (free s)) = card {k. k < length (slots s)} - card (set (free s))"
    by (rule card_Diff_subset) (simp_all add: sub)
  then show ?thesis
    unfolding live slab_len_def using distinct_card [OF slab_wfD(1) [OF assms]] by simp
qed

text \<open>A full slab refuses: a fresh slot is only made below \<open>cap\<close>.\<close>

lemma slab_insert_cap:
  assumes "slab_wf s" "length (slots s) \<le> c" "slab_insert v c s = (Some k, s')"
  shows "length (slots s') \<le> c"
  using assms(2,3) slab_wf_popD(1) [OF assms(1)]
  by (auto simp: slab_insert_def Let_def split: if_splits)

end
