(* ===== verification/Abi.thy ===== *)
theory Abi
  imports Prelude
begin

text \<open>
  The numbers of the Linux ABI the guests are compiled against: \<open>abi.rs\<close>, the error
  numbers of \<open>errno.rs\<close>, and the syscall numbers of \<open>nr.rs\<close> that the dispatcher
  matches on.  Flag constants are words, since the code only uses them bitwise; numbers the
  code compares are integers.
\<close>

section \<open>Error numbers\<close>

text \<open>\<open>pub struct Errno(pub i32)\<close>, its constants and \<open>as_neg\<close>.\<close>

datatype errno = Errno int

abbreviation (input) EPERM :: errno where "EPERM \<equiv> Errno 1"
abbreviation (input) ENOENT :: errno where "ENOENT \<equiv> Errno 2"
abbreviation (input) ESRCH :: errno where "ESRCH \<equiv> Errno 3"
abbreviation (input) EINTR :: errno where "EINTR \<equiv> Errno 4"
abbreviation (input) EIO :: errno where "EIO \<equiv> Errno 5"
abbreviation (input) ENXIO :: errno where "ENXIO \<equiv> Errno 6"
abbreviation (input) E2BIG :: errno where "E2BIG \<equiv> Errno 7"
abbreviation (input) ENOEXEC :: errno where "ENOEXEC \<equiv> Errno 8"
abbreviation (input) EBADF :: errno where "EBADF \<equiv> Errno 9"
abbreviation (input) ECHILD :: errno where "ECHILD \<equiv> Errno 10"
abbreviation (input) EAGAIN :: errno where "EAGAIN \<equiv> Errno 11"
abbreviation (input) ENOMEM :: errno where "ENOMEM \<equiv> Errno 12"
abbreviation (input) EACCES :: errno where "EACCES \<equiv> Errno 13"
abbreviation (input) EFAULT :: errno where "EFAULT \<equiv> Errno 14"
abbreviation (input) EBUSY :: errno where "EBUSY \<equiv> Errno 16"
abbreviation (input) EEXIST :: errno where "EEXIST \<equiv> Errno 17"
abbreviation (input) EXDEV :: errno where "EXDEV \<equiv> Errno 18"
abbreviation (input) ENODEV :: errno where "ENODEV \<equiv> Errno 19"
abbreviation (input) ENOTDIR :: errno where "ENOTDIR \<equiv> Errno 20"
abbreviation (input) EISDIR :: errno where "EISDIR \<equiv> Errno 21"
abbreviation (input) EINVAL :: errno where "EINVAL \<equiv> Errno 22"
abbreviation (input) ENFILE :: errno where "ENFILE \<equiv> Errno 23"
abbreviation (input) EMFILE :: errno where "EMFILE \<equiv> Errno 24"
abbreviation (input) ENOTTY :: errno where "ENOTTY \<equiv> Errno 25"
abbreviation (input) EFBIG :: errno where "EFBIG \<equiv> Errno 27"
abbreviation (input) ENOSPC :: errno where "ENOSPC \<equiv> Errno 28"
abbreviation (input) ESPIPE :: errno where "ESPIPE \<equiv> Errno 29"
abbreviation (input) EROFS :: errno where "EROFS \<equiv> Errno 30"
abbreviation (input) EMLINK :: errno where "EMLINK \<equiv> Errno 31"
abbreviation (input) EPIPE :: errno where "EPIPE \<equiv> Errno 32"
abbreviation (input) ERANGE :: errno where "ERANGE \<equiv> Errno 34"
abbreviation (input) ENAMETOOLONG :: errno where "ENAMETOOLONG \<equiv> Errno 36"
abbreviation (input) ENOSYS :: errno where "ENOSYS \<equiv> Errno 38"
abbreviation (input) ENOTEMPTY :: errno where "ENOTEMPTY \<equiv> Errno 39"
abbreviation (input) ELOOP :: errno where "ELOOP \<equiv> Errno 40"
abbreviation (input) EOVERFLOW :: errno where "EOVERFLOW \<equiv> Errno 75"
abbreviation (input) ENOTSOCK :: errno where "ENOTSOCK \<equiv> Errno 88"
abbreviation (input) ENOTSUP :: errno where "ENOTSUP \<equiv> Errno 95"
abbreviation (input) ETIMEDOUT :: errno where "ETIMEDOUT \<equiv> Errno 110"

fun as_neg :: "errno \<Rightarrow> int" where
  "as_neg (Errno n) = as_i32 (- n)"

type_synonym 'a vfs_result = "errno + 'a"

text \<open>The short name, for diagnostics: the macro prefixes an \<open>E\<close> to the constant's name.\<close>

definition errno_name :: "errno \<Rightarrow> string" where
  "errno_name e =
     (case map_of [(1, ''EPERM''), (2, ''ENOENT''), (3, ''ESRCH''), (4, ''EINTR''), (5, ''EIO''), (6, ''ENXIO''), (7, ''ETOOBIG''), (8, ''ENOEXEC''), (9, ''EBADF''), (10, ''ECHILD''), (11, ''EAGAIN''), (12, ''ENOMEM''), (13, ''EACCES''), (14, ''EFAULT''), (16, ''EBUSY''), (17, ''EEXIST''), (18, ''EXDEV''), (19, ''ENODEV''), (20, ''ENOTDIR''), (21, ''EISDIR''), (22, ''EINVAL''), (23, ''ENFILE''), (24, ''EMFILE''), (25, ''ENOTTY''), (27, ''EFBIG''), (28, ''ENOSPC''), (29, ''ESPIPE''), (30, ''EROFS''), (31, ''EMLINK''), (32, ''EPIPE''), (34, ''ERANGE''), (36, ''ENAMETOOLONG''), (38, ''ENOSYS''), (39, ''ENOTEMPTY''), (40, ''ELOOP''), (75, ''EOVERFLOW''), (88, ''ENOTSOCK''), (95, ''ENOTSUP''), (110, ''ETIMEDOUT'')] (case e of Errno n \<Rightarrow> n) of Some s \<Rightarrow> s | None \<Rightarrow> ''E?'')"

section \<open>ABI constants\<close>

text \<open>open(2)\<close>

abbreviation (input) O_ACCMODE :: u32 where "O_ACCMODE \<equiv> 3"
abbreviation (input) O_RDONLY :: u32 where "O_RDONLY \<equiv> 0"
abbreviation (input) O_WRONLY :: u32 where "O_WRONLY \<equiv> 1"
abbreviation (input) O_RDWR :: u32 where "O_RDWR \<equiv> 2"
abbreviation (input) O_CREAT :: u32 where "O_CREAT \<equiv> 64"
abbreviation (input) O_EXCL :: u32 where "O_EXCL \<equiv> 128"
abbreviation (input) O_TRUNC :: u32 where "O_TRUNC \<equiv> 512"
abbreviation (input) O_APPEND :: u32 where "O_APPEND \<equiv> 1024"
abbreviation (input) O_NONBLOCK :: u32 where "O_NONBLOCK \<equiv> 2048"
abbreviation (input) O_DIRECTORY :: u32 where "O_DIRECTORY \<equiv> 65536"
abbreviation (input) O_NOFOLLOW :: u32 where "O_NOFOLLOW \<equiv> 131072"
abbreviation (input) O_CLOEXEC :: u32 where "O_CLOEXEC \<equiv> 524288"
abbreviation (input) AT_FDCWD :: int where "AT_FDCWD \<equiv> - 100"
abbreviation (input) AT_SYMLINK_NOFOLLOW :: u32 where "AT_SYMLINK_NOFOLLOW \<equiv> 256"
abbreviation (input) AT_REMOVEDIR :: u32 where "AT_REMOVEDIR \<equiv> 512"
abbreviation (input) AT_EMPTY_PATH :: u32 where "AT_EMPTY_PATH \<equiv> 4096"

text \<open>fcntl\<close>

abbreviation (input) F_DUPFD :: int where "F_DUPFD \<equiv> 0"
abbreviation (input) F_GETFD :: int where "F_GETFD \<equiv> 1"
abbreviation (input) F_SETFD :: int where "F_SETFD \<equiv> 2"
abbreviation (input) F_GETFL :: int where "F_GETFL \<equiv> 3"
abbreviation (input) F_SETFL :: int where "F_SETFL \<equiv> 4"
abbreviation (input) F_GETLK :: int where "F_GETLK \<equiv> 5"
abbreviation (input) F_SETLK :: int where "F_SETLK \<equiv> 6"
abbreviation (input) F_SETLKW :: int where "F_SETLKW \<equiv> 7"
abbreviation (input) F_DUPFD_CLOEXEC :: int where "F_DUPFD_CLOEXEC \<equiv> 1030"
abbreviation (input) FD_CLOEXEC :: u32 where "FD_CLOEXEC \<equiv> 1"

text \<open>lseek\<close>

abbreviation (input) SEEK_SET :: int where "SEEK_SET \<equiv> 0"
abbreviation (input) SEEK_CUR :: int where "SEEK_CUR \<equiv> 1"
abbreviation (input) SEEK_END :: int where "SEEK_END \<equiv> 2"

text \<open>mmap\<close>

abbreviation (input) MAP_FIXED :: u32 where "MAP_FIXED \<equiv> 16"
abbreviation (input) MAP_ANONYMOUS :: u32 where "MAP_ANONYMOUS \<equiv> 32"

text \<open>clone\<close>

abbreviation (input) CLONE_VM :: u32 where "CLONE_VM \<equiv> 256"
abbreviation (input) CLONE_VFORK :: u32 where "CLONE_VFORK \<equiv> 16384"
abbreviation (input) CLONE_THREAD :: u32 where "CLONE_THREAD \<equiv> 65536"

text \<open>wait4\<close>

abbreviation (input) WNOHANG :: u32 where "WNOHANG \<equiv> 1"

text \<open>signals\<close>

abbreviation (input) SIGINT :: int where "SIGINT \<equiv> 2"
abbreviation (input) SIGKILL :: int where "SIGKILL \<equiv> 9"
abbreviation (input) SIGSEGV :: int where "SIGSEGV \<equiv> 11"
abbreviation (input) SIGPIPE :: int where "SIGPIPE \<equiv> 13"
abbreviation (input) SIGTERM :: int where "SIGTERM \<equiv> 15"
abbreviation (input) SIGCHLD :: int where "SIGCHLD \<equiv> 17"
abbreviation (input) SIGCONT :: int where "SIGCONT \<equiv> 18"
abbreviation (input) SIGSTOP :: int where "SIGSTOP \<equiv> 19"
abbreviation (input) SIGTSTP :: int where "SIGTSTP \<equiv> 20"
abbreviation (input) SIGTTIN :: int where "SIGTTIN \<equiv> 21"
abbreviation (input) SIGTTOU :: int where "SIGTTOU \<equiv> 22"
abbreviation (input) SIGURG :: int where "SIGURG \<equiv> 23"
abbreviation (input) SIGWINCH :: int where "SIGWINCH \<equiv> 28"
abbreviation (input) SIG_DFL :: u32 where "SIG_DFL \<equiv> 0"
abbreviation (input) SIG_IGN :: u32 where "SIG_IGN \<equiv> 1"
abbreviation (input) SA_RESETHAND :: u32 where "SA_RESETHAND \<equiv> 2147483648"
abbreviation (input) SIG_BLOCK :: int where "SIG_BLOCK \<equiv> 0"
abbreviation (input) SIG_UNBLOCK :: int where "SIG_UNBLOCK \<equiv> 1"
abbreviation (input) SIG_SETMASK :: int where "SIG_SETMASK \<equiv> 2"

text \<open>ioctl\<close>

abbreviation (input) TCGETS :: u32 where "TCGETS \<equiv> 21505"
abbreviation (input) TCSETS :: u32 where "TCSETS \<equiv> 21506"
abbreviation (input) TCSETSW :: u32 where "TCSETSW \<equiv> 21507"
abbreviation (input) TCSETSF :: u32 where "TCSETSF \<equiv> 21508"
abbreviation (input) TIOCGPGRP :: u32 where "TIOCGPGRP \<equiv> 21519"
abbreviation (input) TIOCSPGRP :: u32 where "TIOCSPGRP \<equiv> 21520"
abbreviation (input) TIOCGWINSZ :: u32 where "TIOCGWINSZ \<equiv> 21523"
abbreviation (input) TIOCSWINSZ :: u32 where "TIOCSWINSZ \<equiv> 21524"
abbreviation (input) FIONREAD :: u32 where "FIONREAD \<equiv> 21531"
abbreviation (input) TIOCSCTTY :: u32 where "TIOCSCTTY \<equiv> 21518"
abbreviation (input) TIOCNOTTY :: u32 where "TIOCNOTTY \<equiv> 21538"
abbreviation (input) FIONBIO :: u32 where "FIONBIO \<equiv> 21537"
abbreviation (input) FIOCLEX :: u32 where "FIOCLEX \<equiv> 21585"
abbreviation (input) FIONCLEX :: u32 where "FIONCLEX \<equiv> 21584"

text \<open>termios flags\<close>

abbreviation (input) ICRNL :: u32 where "ICRNL \<equiv> 256"
abbreviation (input) IXON :: u32 where "IXON \<equiv> 1024"
abbreviation (input) OPOST :: u32 where "OPOST \<equiv> 1"
abbreviation (input) ONLCR :: u32 where "ONLCR \<equiv> 4"
abbreviation (input) ISIG :: u32 where "ISIG \<equiv> 1"
abbreviation (input) ICANON :: u32 where "ICANON \<equiv> 2"
abbreviation (input) ECHO :: u32 where "ECHO \<equiv> 8"
abbreviation (input) ECHOE :: u32 where "ECHOE \<equiv> 16"
abbreviation (input) ECHOK :: u32 where "ECHOK \<equiv> 32"
abbreviation (input) IEXTEN :: u32 where "IEXTEN \<equiv> 32768"
abbreviation (input) VINTR :: nat where "VINTR \<equiv> 0"
abbreviation (input) VQUIT :: nat where "VQUIT \<equiv> 1"
abbreviation (input) VERASE :: nat where "VERASE \<equiv> 2"
abbreviation (input) VKILL :: nat where "VKILL \<equiv> 3"
abbreviation (input) VEOF :: nat where "VEOF \<equiv> 4"
abbreviation (input) VTIME :: nat where "VTIME \<equiv> 5"
abbreviation (input) VMIN :: nat where "VMIN \<equiv> 6"
abbreviation (input) VSUSP :: nat where "VSUSP \<equiv> 10"
abbreviation (input) VEOL :: nat where "VEOL \<equiv> 11"
abbreviation (input) VWERASE :: nat where "VWERASE \<equiv> 14"
abbreviation (input) NCCS_KERNEL :: nat where "NCCS_KERNEL \<equiv> 19"
abbreviation (input) CS8 :: u32 where "CS8 \<equiv> 48"
abbreviation (input) CREAD :: u32 where "CREAD \<equiv> 128"
abbreviation (input) B38400 :: u32 where "B38400 \<equiv> 15"

text \<open>poll\<close>

abbreviation (input) POLLIN :: u16 where "POLLIN \<equiv> 1"
abbreviation (input) POLLOUT :: u16 where "POLLOUT \<equiv> 4"
abbreviation (input) POLLERR :: u16 where "POLLERR \<equiv> 8"
abbreviation (input) POLLHUP :: u16 where "POLLHUP \<equiv> 16"
abbreviation (input) POLLNVAL :: u16 where "POLLNVAL \<equiv> 32"

text \<open>auxv\<close>

abbreviation (input) AT_NULL :: u32 where "AT_NULL \<equiv> 0"
abbreviation (input) AT_PAGESZ :: u32 where "AT_PAGESZ \<equiv> 6"
abbreviation (input) AT_UID :: u32 where "AT_UID \<equiv> 11"
abbreviation (input) AT_EUID :: u32 where "AT_EUID \<equiv> 12"
abbreviation (input) AT_GID :: u32 where "AT_GID \<equiv> 13"
abbreviation (input) AT_EGID :: u32 where "AT_EGID \<equiv> 14"
abbreviation (input) AT_CLKTCK :: u32 where "AT_CLKTCK \<equiv> 17"
abbreviation (input) AT_SECURE :: u32 where "AT_SECURE \<equiv> 23"
abbreviation (input) AT_RANDOM :: u32 where "AT_RANDOM \<equiv> 25"
abbreviation (input) AT_EXECFN :: u32 where "AT_EXECFN \<equiv> 31"

text \<open>stat mode bits\<close>

abbreviation (input) S_IFDIR :: u32 where "S_IFDIR \<equiv> 16384"
abbreviation (input) S_IFCHR :: u32 where "S_IFCHR \<equiv> 8192"
abbreviation (input) S_IFREG :: u32 where "S_IFREG \<equiv> 32768"
abbreviation (input) S_IFLNK :: u32 where "S_IFLNK \<equiv> 40960"

text \<open>dirent d_type\<close>

abbreviation (input) DT_UNKNOWN :: u8 where "DT_UNKNOWN \<equiv> 0"
abbreviation (input) DT_DIR :: u8 where "DT_DIR \<equiv> 4"
abbreviation (input) DT_REG :: u8 where "DT_REG \<equiv> 8"
abbreviation (input) DT_LNK :: u8 where "DT_LNK \<equiv> 10"

text \<open>clocks\<close>

abbreviation (input) CLOCK_REALTIME :: int where "CLOCK_REALTIME \<equiv> 0"
abbreviation (input) CLOCK_MONOTONIC :: int where "CLOCK_MONOTONIC \<equiv> 1"
abbreviation (input) CLOCK_PROCESS_CPUTIME_ID :: int where "CLOCK_PROCESS_CPUTIME_ID \<equiv> 2"
abbreviation (input) CLOCK_THREAD_CPUTIME_ID :: int where "CLOCK_THREAD_CPUTIME_ID \<equiv> 3"
abbreviation (input) CLOCK_BOOTTIME :: int where "CLOCK_BOOTTIME \<equiv> 7"

text \<open>rlimits\<close>

abbreviation (input) RLIMIT_DATA :: int where "RLIMIT_DATA \<equiv> 2"
abbreviation (input) RLIMIT_STACK :: int where "RLIMIT_STACK \<equiv> 3"
abbreviation (input) RLIMIT_CORE :: int where "RLIMIT_CORE \<equiv> 4"
abbreviation (input) RLIMIT_NOFILE :: int where "RLIMIT_NOFILE \<equiv> 7"
abbreviation (input) RLIM_INFINITY :: u64 where "RLIM_INFINITY \<equiv> - 1"

text \<open>statx\<close>

abbreviation (input) STATX_BASIC_STATS :: u32 where "STATX_BASIC_STATS \<equiv> 2047"

text \<open>clock_nanosleep\<close>

abbreviation (input) TIMER_ABSTIME :: u32 where "TIMER_ABSTIME \<equiv> 1"
abbreviation (input) SA_RESTART :: u32 where "SA_RESTART \<equiv> 268435456"

section \<open>Syscall numbers\<close>

abbreviation (input) NR_ACCEPT :: int where "NR_ACCEPT \<equiv> 202"
abbreviation (input) NR_ACCEPT4 :: int where "NR_ACCEPT4 \<equiv> 242"
abbreviation (input) NR_BIND :: int where "NR_BIND \<equiv> 200"
abbreviation (input) NR_BRK :: int where "NR_BRK \<equiv> 214"
abbreviation (input) NR_CHDIR :: int where "NR_CHDIR \<equiv> 49"
abbreviation (input) NR_CLOCK_GETRES_TIME64 :: int where "NR_CLOCK_GETRES_TIME64 \<equiv> 406"
abbreviation (input) NR_CLOCK_GETTIME64 :: int where "NR_CLOCK_GETTIME64 \<equiv> 403"
abbreviation (input) NR_CLOCK_NANOSLEEP_TIME64 :: int where "NR_CLOCK_NANOSLEEP_TIME64 \<equiv> 407"
abbreviation (input) NR_CLONE :: int where "NR_CLONE \<equiv> 220"
abbreviation (input) NR_CLOSE :: int where "NR_CLOSE \<equiv> 57"
abbreviation (input) NR_CONNECT :: int where "NR_CONNECT \<equiv> 203"
abbreviation (input) NR_DUP :: int where "NR_DUP \<equiv> 23"
abbreviation (input) NR_DUP3 :: int where "NR_DUP3 \<equiv> 24"
abbreviation (input) NR_EXECVE :: int where "NR_EXECVE \<equiv> 221"
abbreviation (input) NR_EXIT :: int where "NR_EXIT \<equiv> 93"
abbreviation (input) NR_EXIT_GROUP :: int where "NR_EXIT_GROUP \<equiv> 94"
abbreviation (input) NR_FACCESSAT :: int where "NR_FACCESSAT \<equiv> 48"
abbreviation (input) NR_FACCESSAT2 :: int where "NR_FACCESSAT2 \<equiv> 439"
abbreviation (input) NR_FADVISE64 :: int where "NR_FADVISE64 \<equiv> 223"
abbreviation (input) NR_FCHDIR :: int where "NR_FCHDIR \<equiv> 50"
abbreviation (input) NR_FCHMOD :: int where "NR_FCHMOD \<equiv> 52"
abbreviation (input) NR_FCHMODAT :: int where "NR_FCHMODAT \<equiv> 53"
abbreviation (input) NR_FCHOWN :: int where "NR_FCHOWN \<equiv> 55"
abbreviation (input) NR_FCHOWNAT :: int where "NR_FCHOWNAT \<equiv> 54"
abbreviation (input) NR_FCNTL :: int where "NR_FCNTL \<equiv> 25"
abbreviation (input) NR_FDATASYNC :: int where "NR_FDATASYNC \<equiv> 83"
abbreviation (input) NR_FLOCK :: int where "NR_FLOCK \<equiv> 32"
abbreviation (input) NR_FSTAT :: int where "NR_FSTAT \<equiv> 80"
abbreviation (input) NR_FSTATFS :: int where "NR_FSTATFS \<equiv> 44"
abbreviation (input) NR_FSYNC :: int where "NR_FSYNC \<equiv> 82"
abbreviation (input) NR_FTRUNCATE :: int where "NR_FTRUNCATE \<equiv> 46"
abbreviation (input) NR_GETCWD :: int where "NR_GETCWD \<equiv> 17"
abbreviation (input) NR_GETDENTS64 :: int where "NR_GETDENTS64 \<equiv> 61"
abbreviation (input) NR_GETEGID :: int where "NR_GETEGID \<equiv> 177"
abbreviation (input) NR_GETEUID :: int where "NR_GETEUID \<equiv> 175"
abbreviation (input) NR_GETGID :: int where "NR_GETGID \<equiv> 176"
abbreviation (input) NR_GETGROUPS :: int where "NR_GETGROUPS \<equiv> 158"
abbreviation (input) NR_GETPEERNAME :: int where "NR_GETPEERNAME \<equiv> 205"
abbreviation (input) NR_GETPGID :: int where "NR_GETPGID \<equiv> 155"
abbreviation (input) NR_GETPID :: int where "NR_GETPID \<equiv> 172"
abbreviation (input) NR_GETPPID :: int where "NR_GETPPID \<equiv> 173"
abbreviation (input) NR_GETRANDOM :: int where "NR_GETRANDOM \<equiv> 278"
abbreviation (input) NR_GETRUSAGE :: int where "NR_GETRUSAGE \<equiv> 165"
abbreviation (input) NR_GETSID :: int where "NR_GETSID \<equiv> 156"
abbreviation (input) NR_GETSOCKNAME :: int where "NR_GETSOCKNAME \<equiv> 204"
abbreviation (input) NR_GETSOCKOPT :: int where "NR_GETSOCKOPT \<equiv> 209"
abbreviation (input) NR_GETTID :: int where "NR_GETTID \<equiv> 178"
abbreviation (input) NR_GETTIMEOFDAY :: int where "NR_GETTIMEOFDAY \<equiv> 169"
abbreviation (input) NR_GETUID :: int where "NR_GETUID \<equiv> 174"
abbreviation (input) NR_IOCTL :: int where "NR_IOCTL \<equiv> 29"
abbreviation (input) NR_KILL :: int where "NR_KILL \<equiv> 129"
abbreviation (input) NR_LINKAT :: int where "NR_LINKAT \<equiv> 37"
abbreviation (input) NR_LISTEN :: int where "NR_LISTEN \<equiv> 201"
abbreviation (input) NR_LSEEK :: int where "NR_LSEEK \<equiv> 62"
abbreviation (input) NR_MADVISE :: int where "NR_MADVISE \<equiv> 233"
abbreviation (input) NR_MEMBARRIER :: int where "NR_MEMBARRIER \<equiv> 283"
abbreviation (input) NR_MKDIRAT :: int where "NR_MKDIRAT \<equiv> 34"
abbreviation (input) NR_MLOCK :: int where "NR_MLOCK \<equiv> 228"
abbreviation (input) NR_MMAP :: int where "NR_MMAP \<equiv> 222"
abbreviation (input) NR_MPROTECT :: int where "NR_MPROTECT \<equiv> 226"
abbreviation (input) NR_MREMAP :: int where "NR_MREMAP \<equiv> 216"
abbreviation (input) NR_MSYNC :: int where "NR_MSYNC \<equiv> 227"
abbreviation (input) NR_MUNLOCK :: int where "NR_MUNLOCK \<equiv> 229"
abbreviation (input) NR_MUNMAP :: int where "NR_MUNMAP \<equiv> 215"
abbreviation (input) NR_NANOSLEEP :: int where "NR_NANOSLEEP \<equiv> 101"
abbreviation (input) NR_NEWFSTATAT :: int where "NR_NEWFSTATAT \<equiv> 79"
abbreviation (input) NR_OPENAT :: int where "NR_OPENAT \<equiv> 56"
abbreviation (input) NR_PIPE2 :: int where "NR_PIPE2 \<equiv> 59"
abbreviation (input) NR_PPOLL_TIME64 :: int where "NR_PPOLL_TIME64 \<equiv> 414"
abbreviation (input) NR_PRCTL :: int where "NR_PRCTL \<equiv> 167"
abbreviation (input) NR_PRLIMIT64 :: int where "NR_PRLIMIT64 \<equiv> 261"
abbreviation (input) NR_PSELECT6_TIME64 :: int where "NR_PSELECT6_TIME64 \<equiv> 413"
abbreviation (input) NR_READ :: int where "NR_READ \<equiv> 63"
abbreviation (input) NR_READLINKAT :: int where "NR_READLINKAT \<equiv> 78"
abbreviation (input) NR_READV :: int where "NR_READV \<equiv> 65"
abbreviation (input) NR_RECVFROM :: int where "NR_RECVFROM \<equiv> 207"
abbreviation (input) NR_RECVMSG :: int where "NR_RECVMSG \<equiv> 212"
abbreviation (input) NR_RENAMEAT :: int where "NR_RENAMEAT \<equiv> 38"
abbreviation (input) NR_RENAMEAT2 :: int where "NR_RENAMEAT2 \<equiv> 276"
abbreviation (input) NR_RSEQ :: int where "NR_RSEQ \<equiv> 293"
abbreviation (input) NR_RT_SIGACTION :: int where "NR_RT_SIGACTION \<equiv> 134"
abbreviation (input) NR_RT_SIGPENDING :: int where "NR_RT_SIGPENDING \<equiv> 136"
abbreviation (input) NR_RT_SIGPROCMASK :: int where "NR_RT_SIGPROCMASK \<equiv> 135"
abbreviation (input) NR_RT_SIGRETURN :: int where "NR_RT_SIGRETURN \<equiv> 139"
abbreviation (input) NR_RT_SIGSUSPEND :: int where "NR_RT_SIGSUSPEND \<equiv> 133"
abbreviation (input) NR_SCHED_GETAFFINITY :: int where "NR_SCHED_GETAFFINITY \<equiv> 123"
abbreviation (input) NR_SCHED_YIELD :: int where "NR_SCHED_YIELD \<equiv> 124"
abbreviation (input) NR_SENDMSG :: int where "NR_SENDMSG \<equiv> 211"
abbreviation (input) NR_SENDTO :: int where "NR_SENDTO \<equiv> 206"
abbreviation (input) NR_SET_ROBUST_LIST :: int where "NR_SET_ROBUST_LIST \<equiv> 99"
abbreviation (input) NR_SET_TID_ADDRESS :: int where "NR_SET_TID_ADDRESS \<equiv> 96"
abbreviation (input) NR_SETGID :: int where "NR_SETGID \<equiv> 144"
abbreviation (input) NR_SETGROUPS :: int where "NR_SETGROUPS \<equiv> 159"
abbreviation (input) NR_SETPGID :: int where "NR_SETPGID \<equiv> 154"
abbreviation (input) NR_SETREGID :: int where "NR_SETREGID \<equiv> 143"
abbreviation (input) NR_SETRESGID :: int where "NR_SETRESGID \<equiv> 149"
abbreviation (input) NR_SETRESUID :: int where "NR_SETRESUID \<equiv> 147"
abbreviation (input) NR_SETREUID :: int where "NR_SETREUID \<equiv> 145"
abbreviation (input) NR_SETSID :: int where "NR_SETSID \<equiv> 157"
abbreviation (input) NR_SETSOCKOPT :: int where "NR_SETSOCKOPT \<equiv> 208"
abbreviation (input) NR_SETUID :: int where "NR_SETUID \<equiv> 146"
abbreviation (input) NR_SHUTDOWN :: int where "NR_SHUTDOWN \<equiv> 210"
abbreviation (input) NR_SIGALTSTACK :: int where "NR_SIGALTSTACK \<equiv> 132"
abbreviation (input) NR_SOCKET :: int where "NR_SOCKET \<equiv> 198"
abbreviation (input) NR_SOCKETPAIR :: int where "NR_SOCKETPAIR \<equiv> 199"
abbreviation (input) NR_STATFS :: int where "NR_STATFS \<equiv> 43"
abbreviation (input) NR_STATX :: int where "NR_STATX \<equiv> 291"
abbreviation (input) NR_SYMLINKAT :: int where "NR_SYMLINKAT \<equiv> 36"
abbreviation (input) NR_SYNC :: int where "NR_SYNC \<equiv> 81"
abbreviation (input) NR_SYNCFS :: int where "NR_SYNCFS \<equiv> 267"
abbreviation (input) NR_SYSINFO :: int where "NR_SYSINFO \<equiv> 179"
abbreviation (input) NR_TGKILL :: int where "NR_TGKILL \<equiv> 131"
abbreviation (input) NR_TIMES :: int where "NR_TIMES \<equiv> 153"
abbreviation (input) NR_TKILL :: int where "NR_TKILL \<equiv> 130"
abbreviation (input) NR_TRUNCATE :: int where "NR_TRUNCATE \<equiv> 45"
abbreviation (input) NR_UMASK :: int where "NR_UMASK \<equiv> 166"
abbreviation (input) NR_UNAME :: int where "NR_UNAME \<equiv> 160"
abbreviation (input) NR_UNLINKAT :: int where "NR_UNLINKAT \<equiv> 35"
abbreviation (input) NR_UTIMENSAT_TIME64 :: int where "NR_UTIMENSAT_TIME64 \<equiv> 412"
abbreviation (input) NR_WAIT4 :: int where "NR_WAIT4 \<equiv> 260"
abbreviation (input) NR_WRITE :: int where "NR_WRITE \<equiv> 64"
abbreviation (input) NR_WRITEV :: int where "NR_WRITEV \<equiv> 66"

end
