(* ===== verification/Fds.thy ===== *)
theory Fds
  imports Slab Abi
begin

text \<open>
  Open file descriptions, pipes and descriptor tables (\<open>kernel/fd.rs\<close>).  A descriptor table
  is its vector of slots; \<open>fd_refs t k\<close> counts the descriptors of \<open>t\<close> that point at
  description \<open>k\<close>, the number the description's reference count has to cover.
\<close>

section \<open>Descriptions\<close>

abbreviation PIPE_CAPACITY :: nat where "PIPE_CAPACITY \<equiv> 65536"

datatype file_type = File | Dir | Symlink

text \<open>The derived order of the enumeration.\<close>

instantiation file_type :: linorder
begin

fun rank_file_type :: "file_type \<Rightarrow> nat" where
  "rank_file_type File = 0"
| "rank_file_type Dir = 1"
| "rank_file_type Symlink = 2"

definition less_eq_file_type :: "file_type \<Rightarrow> file_type \<Rightarrow> bool" where
  "less_eq_file_type a b \<longleftrightarrow> rank_file_type a \<le> rank_file_type b"

definition less_file_type :: "file_type \<Rightarrow> file_type \<Rightarrow> bool" where
  "less_file_type a b \<longleftrightarrow> rank_file_type a < rank_file_type b"

instance
proof
  fix a b :: file_type
  show "a \<le> b \<Longrightarrow> b \<le> a \<Longrightarrow> a = b"
    by (cases a; cases b) (simp_all add: less_eq_file_type_def)
qed (auto simp: less_eq_file_type_def less_file_type_def)

end

record dir_ent =
  dent_ino :: u64
  dent_kind :: u8
  dent_name :: string

datatype 'f desc_kind =
    KFile 'f nat bool
  | KDir "dir_ent list" nat
  | KMemory bytes nat
  | KPipeRead nat
  | KPipeWrite nat
  | KStdin
  | KStdout nat
  | KNull
  | KZero
  | KRandom

record 'f desc =
  d_kind :: "'f desc_kind"
  d_path :: string
  d_flags :: u32
  d_refs :: nat

definition desc_new :: "'f desc_kind \<Rightarrow> string \<Rightarrow> u32 \<Rightarrow> 'f desc" where
  "desc_new kind path flags = \<lparr>d_kind = kind, d_path = path, d_flags = flags, d_refs = 1\<rparr>"

definition is_nonblocking :: "'f desc \<Rightarrow> bool" where
  "is_nonblocking d \<longleftrightarrow> d_flags d AND O_NONBLOCK \<noteq> 0"

definition writable :: "'f desc \<Rightarrow> bool" where
  "writable d \<longleftrightarrow> (let m = d_flags d AND O_ACCMODE in m = O_WRONLY \<or> m = O_RDWR)"

definition readable :: "'f desc \<Rightarrow> bool" where
  "readable d \<longleftrightarrow> (let m = d_flags d AND O_ACCMODE in m = O_RDONLY \<or> m = O_RDWR)"

definition is_std_stream :: "'f desc \<Rightarrow> bool" where
  "is_std_stream d \<longleftrightarrow> (case d_kind d of KStdin \<Rightarrow> True | KStdout _ \<Rightarrow> True | _ \<Rightarrow> False)"

definition dirent_kind :: "file_type option \<Rightarrow> u8" where
  "dirent_kind t =
     (case t of Some Dir \<Rightarrow> DT_DIR | Some File \<Rightarrow> DT_REG | Some Symlink \<Rightarrow> DT_LNK | None \<Rightarrow> DT_UNKNOWN)"

section \<open>Pipes\<close>

record pipe =
  p_data :: bytes
  p_readers :: nat
  p_writers :: nat

definition pipe_new :: pipe where
  "pipe_new = \<lparr>p_data = [], p_readers = 1, p_writers = 1\<rparr>"

definition pipe_room :: "pipe \<Rightarrow> nat" where
  "pipe_room p = PIPE_CAPACITY - length (p_data p)"

section \<open>Descriptor tables\<close>

record fd =
  fd_desc :: nat
  fd_cloexec :: bool

type_synonym fd_table = "fd option list"

definition fdt_new :: fd_table where "fdt_new = []"

definition fdt_get :: "fd_table \<Rightarrow> int \<Rightarrow> fd vfs_result" where
  "fdt_get t fd =
     (if fd < 0 then Inl EBADF
      else (case get_slot t (nat fd) of Some e \<Rightarrow> Inr e | None \<Rightarrow> Inl EBADF))"

definition fdt_set_cloexec :: "int \<Rightarrow> bool \<Rightarrow> fd_table \<Rightarrow> unit vfs_result \<times> fd_table" where
  "fdt_set_cloexec fd on t =
     (if fd < 0 then (Inl EBADF, t)
      else (case get_slot t (nat fd) of
          Some e \<Rightarrow> (Inr (), t[nat fd := Some (e\<lparr>fd_cloexec := on\<rparr>)])
        | None \<Rightarrow> (Inl EBADF, t)))"

function fdt_alloc_from :: "fd \<Rightarrow> nat \<Rightarrow> nat \<Rightarrow> fd_table \<Rightarrow> int vfs_result \<times> fd_table" where
  "fdt_alloc_from entry i lim t =
     (if lim \<le> i then (Inl EMFILE, t)
      else let t1 = (if length t \<le> i then resize (i + 1) None t else t) in
        case get_at t1 i of
          Some None \<Rightarrow> (Inr (as_i32 (int i)), t1[i := Some entry])
        | Some (Some _) \<Rightarrow> fdt_alloc_from entry (i + 1) lim t1
        | None \<Rightarrow> (Inl EMFILE, t1))"
  by pat_completeness auto
termination by (relation "measure (\<lambda>(e, i, mx, t). mx - i)") auto

declare fdt_alloc_from.simps [simp del]

definition fdt_alloc :: "fd \<Rightarrow> nat \<Rightarrow> nat \<Rightarrow> fd_table \<Rightarrow> int vfs_result \<times> fd_table" where
  "fdt_alloc entry lo lim t = fdt_alloc_from entry lo lim t"

definition fdt_replace :: "int \<Rightarrow> fd \<Rightarrow> nat \<Rightarrow> fd_table \<Rightarrow> fd option vfs_result \<times> fd_table" where
  "fdt_replace fd entry lim t =
     (if fd < 0 \<or> lim \<le> nat fd then (Inl EBADF, t)
      else let i = nat fd;
               t1 = (if length t \<le> i then resize (i + 1) None t else t) in
        case get_at t1 i of
          Some old \<Rightarrow> (Inr old, t1[i := Some entry])
        | None \<Rightarrow> (Inl EBADF, t1))"

definition fdt_take :: "int \<Rightarrow> fd_table \<Rightarrow> fd vfs_result \<times> fd_table" where
  "fdt_take fd t =
     (if fd < 0 then (Inl EBADF, t)
      else (case get_slot t (nat fd) of
          Some e \<Rightarrow> (Inr e, t[nat fd := None])
        | None \<Rightarrow> (Inl EBADF, t)))"

definition fdt_entries :: "fd_table \<Rightarrow> (int \<times> fd) list" where
  "fdt_entries t =
     concat (map (\<lambda>(i, s). case s of Some e \<Rightarrow> [(as_i32 (int i), e)] | None \<Rightarrow> []) (enumerate 0 t))"

fun fdt_drain_cloexec :: "fd_table \<Rightarrow> nat list \<times> fd_table" where
  "fdt_drain_cloexec [] = ([], [])"
| "fdt_drain_cloexec (s # t) =
     (let (released, t') = fdt_drain_cloexec t in
      case s of
        Some e \<Rightarrow> if fd_cloexec e then (fd_desc e # released, None # t') else (released, s # t')
      | None \<Rightarrow> (released, s # t'))"

fun fdt_drain_all :: "fd_table \<Rightarrow> nat list" where
  "fdt_drain_all [] = []"
| "fdt_drain_all (s # t) = (case s of Some e \<Rightarrow> [fd_desc e] | None \<Rightarrow> []) @ fdt_drain_all t"

text \<open>Every description shared with the copy gains a reference; the copy is the same table.\<close>

definition desc_incref :: "nat \<Rightarrow> 'f desc slab \<Rightarrow> 'f desc slab" where
  "desc_incref k descs = slab_modify k (\<lambda>d. d\<lparr>d_refs := sat_add_u32 (d_refs d) 1\<rparr>) descs"

definition fdt_duplicate :: "fd_table \<Rightarrow> 'f desc slab \<Rightarrow> fd_table \<times> 'f desc slab" where
  "fdt_duplicate t descs = (t, fold (\<lambda>(_, e) ds. desc_incref (fd_desc e) ds) (fdt_entries t) descs)"

definition fdt_count :: "fd_table \<Rightarrow> nat" where
  "fdt_count t = length (filter (\<lambda>s. s \<noteq> None) t)"

section \<open>Allocation takes the lowest free descriptor\<close>

lemma fdt_alloc_from_spec:
  assumes "fdt_alloc_from entry i lim t = (r, t')"
  shows "case r of
      Inr n \<Rightarrow> (\<exists>j. n = as_i32 (int j) \<and> i \<le> j \<and> j < lim \<and> get_slot t j = None
                 \<and> (\<forall>h. i \<le> h \<and> h < j \<longrightarrow> get_slot t h \<noteq> None)
                 \<and> get_slot t' = (get_slot t)(j := Some entry))
    | Inl e \<Rightarrow> e = EMFILE \<and> (\<forall>h. i \<le> h \<and> h < lim \<longrightarrow> get_slot t h \<noteq> None) \<and> get_slot t' = get_slot t"
  using assms
proof (induction entry i lim t rule: fdt_alloc_from.induct)
  case (1 entry i lim t)
  define t1 where "t1 = (if length t \<le> i then resize (i + 1) None t else t)"
  have g: "get_slot t1 = get_slot t"
    by (auto simp: t1_def resize_grow get_slot_append_None)
  have l: "i < length t1" by (auto simp: t1_def)
  show ?case
  proof (cases "lim \<le> i")
    case True
    with "1.prems" show ?thesis by (auto simp: fdt_alloc_from.simps [of entry i lim t])
  next
    case False
    obtain s where s: "get_at t1 i = Some s" using l by (simp add: get_at_def)
    show ?thesis
    proof (cases s)
      case None
      have "get_slot t i = None" using s None by (simp add: g [symmetric] get_slot_def)
      moreover have "get_slot (t1[i := Some entry]) = (get_slot t)(i := Some entry)"
        using l by (auto simp: get_slot_update g fun_eq_iff)
      moreover have "r = Inr (as_i32 (int i))" "t' = t1[i := Some entry]"
        using "1.prems" False s None
        by (auto simp: fdt_alloc_from.simps [of entry i lim t] t1_def [symmetric] Let_def)
      ultimately show ?thesis using False
        by (simp only: sum.case) (rule exI [of _ i], auto)
    next
      case (Some e)
      have occ: "get_slot t i \<noteq> None" using s Some by (simp add: g [symmetric] get_slot_def)
      have rec: "fdt_alloc_from entry (i + 1) lim t1 = (r, t')"
        using "1.prems" False s Some
        by (simp add: fdt_alloc_from.simps [of entry i lim t] t1_def [symmetric] Let_def)
      note IH = "1.IH" [OF False t1_def s Some rec]
      have step: "\<And>h. i \<le> h \<Longrightarrow> h = i \<or> i + 1 \<le> h" by auto
      show ?thesis
      proof (cases r)
        case (Inl e)
        with IH occ step show ?thesis by (simp add: g) metis
      next
        case (Inr n)
        with IH obtain j where "n = as_i32 (int j)" "i + 1 \<le> j" "j < lim" "get_slot t j = None"
          "\<forall>h. i + 1 \<le> h \<and> h < j \<longrightarrow> get_slot t h \<noteq> None" "get_slot t' = (get_slot t)(j := Some entry)"
          by (auto simp: g)
        moreover have "\<forall>h. i \<le> h \<and> h < j \<longrightarrow> get_slot t h \<noteq> None"
          using step occ calculation(5) by metis
        ultimately show ?thesis using Inr by auto
      qed
    qed
  qed
qed

lemmas fdt_alloc_spec = fdt_alloc_from_spec [folded fdt_alloc_def]

lemma fdt_alloc_InrD:
  assumes "fdt_alloc entry lo lim t = (Inr n, t')"
  obtains j where "n = as_i32 (int j)" "lo \<le> j" "j < lim" "get_slot t j = None"
    "\<And>h. lo \<le> h \<Longrightarrow> h < j \<Longrightarrow> get_slot t h \<noteq> None" "get_slot t' = (get_slot t)(j := Some entry)"
  using fdt_alloc_spec [OF assms] by auto

lemma fdt_alloc_InlD:
  assumes "fdt_alloc entry lo lim t = (Inl e, t')"
  shows "e = EMFILE" "\<And>h. lo \<le> h \<Longrightarrow> h < lim \<Longrightarrow> get_slot t h \<noteq> None" "get_slot t' = get_slot t"
  using fdt_alloc_spec [OF assms] by auto

section \<open>Counting references\<close>

definition ref_of :: "nat \<Rightarrow> fd option \<Rightarrow> nat" where
  "ref_of k s = (case s of Some e \<Rightarrow> if fd_desc e = k then 1 else 0 | None \<Rightarrow> 0)"

definition fd_refs :: "fd_table \<Rightarrow> nat \<Rightarrow> nat" where
  "fd_refs t k = sum_list (map (ref_of k) t)"

lemma ref_of_simps [simp]:
  "ref_of k None = 0" "ref_of k (Some e) = (if fd_desc e = k then 1 else 0)"
  by (simp_all add: ref_of_def)

lemma fd_refs_Nil [simp]: "fd_refs [] k = 0"
  by (simp add: fd_refs_def)

lemma ref_of_le_fd_refs:
  assumes "i < length t"
  shows "ref_of k (t ! i) \<le> fd_refs t k"
proof -
  have "ref_of k (t ! i) \<in> set (map (ref_of k) t)"
    using nth_mem [OF assms] by simp
  then show ?thesis unfolding fd_refs_def by (rule member_le_sum_list) simp
qed

lemma fd_refs_update:
  assumes "i < length t"
  shows "fd_refs (t[i := v]) k + ref_of k (t ! i) = fd_refs t k + ref_of k v"
proof -
  have le: "ref_of k (t ! i) \<le> sum_list (map (ref_of k) t)"
    using ref_of_le_fd_refs [OF assms] by (simp add: fd_refs_def)
  have "sum_list ((map (ref_of k) t)[i := ref_of k v]) =
      sum_list (map (ref_of k) t) + ref_of k v - map (ref_of k) t ! i"
    by (rule sum_list_update) (use assms in simp)
  then show ?thesis using le assms by (simp add: fd_refs_def map_update)
qed

lemma fd_refs_pad [simp]: "fd_refs (t @ replicate n None) k = fd_refs t k"
  by (simp add: fd_refs_def sum_list_replicate)

lemma fd_refs_resize: "length t \<le> n \<Longrightarrow> fd_refs (resize n None t) k = fd_refs t k"
  by (simp add: resize_grow)

lemma fd_refs_alloc_from:
  assumes "fdt_alloc_from entry i lim t = (r, t')"
  shows "fd_refs t' k = fd_refs t k + (case r of Inr _ \<Rightarrow> ref_of k (Some entry) | Inl _ \<Rightarrow> 0)"
  using assms
proof (induction entry i lim t rule: fdt_alloc_from.induct)
  case (1 entry i lim t)
  define t1 where "t1 = (if length t \<le> i then resize (i + 1) None t else t)"
  have g: "fd_refs t1 k = fd_refs t k" by (auto simp: t1_def fd_refs_resize)
  have l: "i < length t1" by (auto simp: t1_def)
  show ?case
  proof (cases "lim \<le> i")
    case True
    with "1.prems" show ?thesis by (auto simp: fdt_alloc_from.simps [of entry i lim t])
  next
    case False
    obtain s where s: "get_at t1 i = Some s" using l by (simp add: get_at_def)
    show ?thesis
    proof (cases s)
      case None
      then have "t1 ! i = None" using s by (simp add: get_at_Some_iff)
      then have "fd_refs (t1[i := Some entry]) k = fd_refs t k + ref_of k (Some entry)"
        using fd_refs_update [OF l, of "Some entry" k] g by simp
      then show ?thesis using "1.prems" False s None
        by (auto simp: fdt_alloc_from.simps [of entry i lim t] t1_def [symmetric] Let_def)
    next
      case (Some e)
      have rec: "fdt_alloc_from entry (i + 1) lim t1 = (r, t')"
        using "1.prems" False s Some
        by (simp add: fdt_alloc_from.simps [of entry i lim t] t1_def [symmetric] Let_def)
      show ?thesis using "1.IH" [OF False t1_def s Some rec] g by simp
    qed
  qed
qed

lemma fd_refs_alloc_Inr:
  "fdt_alloc entry lo lim t = (Inr n, t') \<Longrightarrow> fd_refs t' k = fd_refs t k + (if fd_desc entry = k then 1 else 0)"
  using fd_refs_alloc_from [of entry lo lim t "Inr n" t' k] by (simp add: fdt_alloc_def)

lemma fd_refs_alloc_Inl:
  "fdt_alloc entry lo lim t = (Inl e, t') \<Longrightarrow> fd_refs t' k = fd_refs t k"
  using fd_refs_alloc_from [of entry lo lim t "Inl e" t' k] by (simp add: fdt_alloc_def)

lemma fd_refs_take:
  assumes "fdt_take fd t = (r, t')"
  shows "case r of Inr e \<Rightarrow> fdt_get t fd = Inr e \<and> fd_refs t k = fd_refs t' k + (if fd_desc e = k then 1 else 0)
                 | Inl e \<Rightarrow> e = EBADF \<and> t' = t"
proof (cases "fd < 0 \<or> get_slot t (nat fd) = None")
  case True
  with assms show ?thesis by (auto simp: fdt_take_def split: if_splits option.splits)
next
  case False
  then obtain e where e: "get_slot t (nat fd) = Some e" "0 \<le> fd" by auto
  then have "nat fd < length t" "t ! nat fd = Some e" by (auto simp: get_slot_Some_iff)
  then have "fd_refs (t[nat fd := None]) k + (if fd_desc e = k then 1 else 0) = fd_refs t k"
    using fd_refs_update [of "nat fd" t None k] by simp
  with assms e show ?thesis by (auto simp: fdt_take_def fdt_get_def)
qed

lemma fd_refs_replace:
  assumes "fdt_replace fd entry lim t = (r, t')"
  shows "case r of
      Inr old \<Rightarrow> fd_refs t' k + ref_of k old = fd_refs t k + ref_of k (Some entry)
    | Inl e \<Rightarrow> e = EBADF \<and> fd_refs t' k = fd_refs t k"
proof (cases "fd < 0 \<or> lim \<le> nat fd")
  case True
  with assms show ?thesis by (auto simp: fdt_replace_def)
next
  case False
  define t1 where "t1 = (if length t \<le> nat fd then resize (nat fd + 1) None t else t)"
  have l: "nat fd < length t1" by (auto simp: t1_def)
  have g: "fd_refs t1 k = fd_refs t k" by (auto simp: t1_def fd_refs_resize)
  have "get_at t1 (nat fd) = Some (t1 ! nat fd)" using l by (simp add: get_at_def)
  with assms False have "r = Inr (t1 ! nat fd)" "t' = t1[nat fd := Some entry]"
    by (auto simp: fdt_replace_def Let_def t1_def [symmetric])
  then show ?thesis using fd_refs_update [OF l, of "Some entry" k] g by simp
qed

lemma fd_refs_set_cloexec: "fd_refs (snd (fdt_set_cloexec fd on t)) k = fd_refs t k"
proof (cases "fd < 0 \<or> get_slot t (nat fd) = None")
  case True
  then show ?thesis by (auto simp: fdt_set_cloexec_def split: option.splits)
next
  case False
  then obtain e where e: "get_slot t (nat fd) = Some e" by auto
  then have "nat fd < length t" "t ! nat fd = Some e" by (auto simp: get_slot_Some_iff)
  with False e show ?thesis
    using fd_refs_update [of "nat fd" t "Some (e\<lparr>fd_cloexec := on\<rparr>)" k]
    by (simp add: fdt_set_cloexec_def split: if_splits)
qed

lemma fd_refs_drain_cloexec:
  "fdt_drain_cloexec t = (released, t') \<Longrightarrow> fd_refs t k = fd_refs t' k + count_list released k"
proof (induction t arbitrary: released t')
  case Nil
  then show ?case by simp
next
  case (Cons s t)
  obtain rel t1 where d: "fdt_drain_cloexec t = (rel, t1)" by (cases "fdt_drain_cloexec t")
  show ?case using Cons.IH [OF d] Cons.prems
    by (auto simp: d fd_refs_def split: option.splits if_splits)
qed

lemma fdt_drain_cloexec_none: "\<forall>s \<in> set (snd (fdt_drain_cloexec t)). case s of Some e \<Rightarrow> \<not> fd_cloexec e | None \<Rightarrow> True"
  by (induction t) (auto split: prod.splits option.splits)

lemma count_drain_all: "count_list (fdt_drain_all t) k = fd_refs t k"
  by (induction t) (auto simp: fd_refs_def split: option.splits)

lemma fd_refs_pos: "fdt_get t fd = Inr e \<Longrightarrow> 0 < fd_refs t (fd_desc e)"
proof -
  assume "fdt_get t fd = Inr e"
  then have i: "nat fd < length t" "t ! nat fd = Some e"
    by (auto simp: fdt_get_def get_slot_Some_iff split: if_splits option.splits)
  then show ?thesis
    using ref_of_le_fd_refs [of "nat fd" t "fd_desc e"] by simp
qed

text \<open>The keys of the entries, with multiplicity.\<close>

lemma map_desc_entries:
  "map (\<lambda>(_, e). fd_desc e) (concat (map (\<lambda>(i, s). case s of Some e \<Rightarrow> [(as_i32 (int i), e)] | None \<Rightarrow> []) (enumerate n t)))
     = fdt_drain_all t"
  by (induction t arbitrary: n) (auto split: option.splits)

lemma map_desc_fdt_entries: "map (\<lambda>(_, e). fd_desc e) (fdt_entries t) = fdt_drain_all t"
  by (simp add: fdt_entries_def map_desc_entries)

lemma fold_entries_incref:
  "fold (\<lambda>(_, e) ds. desc_incref (fd_desc e) ds) es descs = fold desc_incref (map (\<lambda>(_, e). fd_desc e) es) descs"
  by (induction es arbitrary: descs) auto

lemma fdt_duplicate_eq: "fdt_duplicate t descs = (t, fold desc_incref (fdt_drain_all t) descs)"
  by (simp add: fdt_duplicate_def fold_entries_incref map_desc_fdt_entries)

end
