(* ===== verification/Vfs.thy ===== *)
theory Vfs
  imports Fds
begin

text \<open>
  The filesystem interface of \<open>vfs/mod.rs\<close>.  A trait object with interior mutability is a
  record of operations that pass a world state \<open>'w\<close>; an open file (\<open>Box<dyn VfsFile>\<close>) is a
  handle \<open>'f\<close> with its operations in \<open>file_ops\<close>.  A read is given the caller's buffer and
  returns the count the implementation reports and the buffer it leaves.  \<open>quiet_vfs\<close> is
  the part of the contract a read-only mount needs: the operations that only look do not
  change what the filesystem holds.
\<close>

section \<open>Data\<close>

record stat =
  st_type :: file_type
  st_size :: u64
  st_mode :: u32
  st_ino :: u64
  st_mtime :: "int \<times> u32"
  st_nlink :: u32

definition stat_file :: "u64 \<Rightarrow> stat" where
  "stat_file sz = \<lparr>st_type = File, st_size = sz, st_mode = 0, st_ino = 0, st_mtime = (0, 0), st_nlink = 1\<rparr>"

definition stat_dir :: stat where
  "stat_dir = \<lparr>st_type = Dir, st_size = 0, st_mode = 0, st_ino = 0, st_mtime = (0, 0), st_nlink = 1\<rparr>"

definition stat_symlink :: "u64 \<Rightarrow> stat" where
  "stat_symlink len = \<lparr>st_type = Symlink, st_size = len, st_mode = 0, st_ino = 0, st_mtime = (0, 0), st_nlink = 1\<rparr>"

record dir_entry =
  de_name :: string
  de_type :: "file_type option"
  de_ino :: u64

datatype seek_from = SeekStart u64 | SeekEnd int | SeekCurrent int

record open_options =
  oo_read :: bool
  oo_write :: bool
  oo_append :: bool
  oo_create :: bool
  oo_create_new :: bool
  oo_truncate :: bool
  oo_mode :: u32

definition open_options_new :: open_options where
  "open_options_new = \<lparr>oo_read = False, oo_write = False, oo_append = False, oo_create = False,
     oo_create_new = False, oo_truncate = False, oo_mode = 420\<rparr>"

definition open_options_read :: open_options where
  "open_options_read = open_options_new\<lparr>oo_read := True\<rparr>"

section \<open>The traits\<close>

record ('w, 'f) file_ops =
  fo_read :: "bytes \<Rightarrow> 'f \<Rightarrow> 'w \<Rightarrow> nat vfs_result \<times> bytes \<times> 'f \<times> 'w"
  fo_write :: "bytes \<Rightarrow> 'f \<Rightarrow> 'w \<Rightarrow> nat vfs_result \<times> 'f \<times> 'w"
  fo_seek :: "seek_from \<Rightarrow> 'f \<Rightarrow> 'w \<Rightarrow> u64 vfs_result \<times> 'f \<times> 'w"
  fo_stat :: "'f \<Rightarrow> 'w \<Rightarrow> stat vfs_result \<times> 'w"
  fo_set_len :: "u64 \<Rightarrow> 'f \<Rightarrow> 'w \<Rightarrow> unit vfs_result \<times> 'f \<times> 'w"
  fo_close :: "'f \<Rightarrow> 'w \<Rightarrow> unit vfs_result \<times> 'f \<times> 'w"

record ('w, 'f) vfs =
  v_open :: "string \<Rightarrow> open_options \<Rightarrow> 'w \<Rightarrow> 'f vfs_result \<times> 'w"
  v_stat :: "string \<Rightarrow> bool \<Rightarrow> 'w \<Rightarrow> stat vfs_result \<times> 'w"
  v_readdir :: "string \<Rightarrow> 'w \<Rightarrow> dir_entry list vfs_result \<times> 'w"
  v_mkdir :: "string \<Rightarrow> u32 \<Rightarrow> 'w \<Rightarrow> unit vfs_result \<times> 'w"
  v_unlink :: "string \<Rightarrow> 'w \<Rightarrow> unit vfs_result \<times> 'w"
  v_rmdir :: "string \<Rightarrow> 'w \<Rightarrow> unit vfs_result \<times> 'w"
  v_rename :: "string \<Rightarrow> string \<Rightarrow> 'w \<Rightarrow> unit vfs_result \<times> 'w"
  v_symlink :: "string \<Rightarrow> string \<Rightarrow> 'w \<Rightarrow> unit vfs_result \<times> 'w"
  v_readlink :: "string \<Rightarrow> 'w \<Rightarrow> string vfs_result \<times> 'w"
  v_truncate :: "string \<Rightarrow> u64 \<Rightarrow> 'w \<Rightarrow> unit vfs_result \<times> 'w"
  v_has_symlinks :: bool
  v_set_mode :: "string \<Rightarrow> u32 \<Rightarrow> 'w \<Rightarrow> unit vfs_result \<times> 'w"

text \<open>
  A read fills a slice of the caller: whatever the implementation leaves in it, its length
  does not change.
\<close>

definition fit :: "'a list \<Rightarrow> 'a list \<Rightarrow> 'a list" where
  "fit old nxt = take (length old) nxt @ drop (length nxt) old"

lemma length_fit [simp]: "length (fit old nxt) = length old"
  by (simp add: fit_def)

lemma fit_same: "length nxt = length old \<Longrightarrow> fit old nxt = nxt"
  by (simp add: fit_def)

definition read_into ::
  "('w, 'f) file_ops \<Rightarrow> bytes \<Rightarrow> 'f \<Rightarrow> 'w \<Rightarrow> nat vfs_result \<times> bytes \<times> 'f \<times> 'w" where
  "read_into fo buf f w = (let (r, b, f', w') = fo_read fo buf f w in (r, fit buf b, f', w'))"

text \<open>The default of \<open>truncate\<close>: open for writing, set the length, close.\<close>

definition default_truncate ::
  "('w, 'f) file_ops \<Rightarrow> (string \<Rightarrow> open_options \<Rightarrow> 'w \<Rightarrow> 'f vfs_result \<times> 'w) \<Rightarrow>
   string \<Rightarrow> u64 \<Rightarrow> 'w \<Rightarrow> unit vfs_result \<times> 'w" where
  "default_truncate fo opn path len w =
     (case opn path (open_options_new\<lparr>oo_write := True\<rparr>) w of
        (Inl e, w1) \<Rightarrow> (Inl e, w1)
      | (Inr f, w1) \<Rightarrow>
          (case fo_set_len fo len f w1 of
             (Inl e, f1, w2) \<Rightarrow> (Inl e, w2)
           | (Inr _, f1, w2) \<Rightarrow>
               (case fo_close fo f1 w2 of (r, f2, w3) \<Rightarrow> (r, w3))))"

text \<open>A filesystem that implements the three required methods only.\<close>

definition vfs_defaults ::
  "('w, 'f) file_ops \<Rightarrow> (string \<Rightarrow> open_options \<Rightarrow> 'w \<Rightarrow> 'f vfs_result \<times> 'w) \<Rightarrow>
   (string \<Rightarrow> bool \<Rightarrow> 'w \<Rightarrow> stat vfs_result \<times> 'w) \<Rightarrow>
   (string \<Rightarrow> 'w \<Rightarrow> dir_entry list vfs_result \<times> 'w) \<Rightarrow> ('w, 'f) vfs" where
  "vfs_defaults fo opn sta rdd =
     \<lparr>v_open = opn, v_stat = sta, v_readdir = rdd,
      v_mkdir = (\<lambda>_ _ w. (Inl EROFS, w)),
      v_unlink = (\<lambda>_ w. (Inl EROFS, w)),
      v_rmdir = (\<lambda>_ w. (Inl EROFS, w)),
      v_rename = (\<lambda>_ _ w. (Inl EROFS, w)),
      v_symlink = (\<lambda>_ _ w. (Inl EPERM, w)),
      v_readlink = (\<lambda>_ w. (Inl EINVAL, w)),
      v_truncate = default_truncate fo opn,
      v_has_symlinks = False,
      v_set_mode = (\<lambda>_ _ w. (Inr (), w))\<rparr>"

definition empty_vfs :: "('w, 'f) file_ops \<Rightarrow> ('w, 'f) vfs" where
  "empty_vfs fo =
     vfs_defaults fo
       (\<lambda>_ _ w. (Inl ENOENT, w))
       (\<lambda>path _ w. (if path = ''/'' then Inr stat_dir else Inl ENOENT, w))
       (\<lambda>path w. (if path = ''/'' then Inr [] else Inl ENOENT, w))"

section \<open>Looking does not change\<close>

definition opens_for_reading :: "open_options \<Rightarrow> bool" where
  "opens_for_reading o' \<longleftrightarrow>
     \<not> oo_write o' \<and> \<not> oo_create o' \<and> \<not> oo_create_new o' \<and> \<not> oo_truncate o'"

definition quiet_vfs :: "('w \<Rightarrow> 'c) \<Rightarrow> ('w, 'f) vfs \<Rightarrow> bool" where
  "quiet_vfs view v \<longleftrightarrow>
     (\<forall>p b w. view (snd (v_stat v p b w)) = view w) \<and>
     (\<forall>p w. view (snd (v_readdir v p w)) = view w) \<and>
     (\<forall>p w. view (snd (v_readlink v p w)) = view w) \<and>
     (\<forall>p o' w. opens_for_reading o' \<longrightarrow> view (snd (v_open v p o' w)) = view w)"

definition quiet_files :: "('w \<Rightarrow> 'c) \<Rightarrow> ('w, 'f) file_ops \<Rightarrow> bool" where
  "quiet_files view fo \<longleftrightarrow>
     (\<forall>b f w. view (snd (snd (snd (fo_read fo b f w)))) = view w) \<and>
     (\<forall>p f w. view (snd (snd (fo_seek fo p f w))) = view w) \<and>
     (\<forall>f w. view (snd (fo_stat fo f w)) = view w) \<and>
     (\<forall>f w. view (snd (snd (fo_close fo f w))) = view w)"

locale quiet_fs =
  fixes view :: "'w \<Rightarrow> 'c" and v :: "('w, 'f) vfs" and fo :: "('w, 'f) file_ops"
  assumes quiet_v: "quiet_vfs view v" and quiet_fo: "quiet_files view fo"
begin

lemma view_stat: "v_stat v p b w = (r, w') \<Longrightarrow> view w' = view w"
  using quiet_v by (metis quiet_vfs_def snd_conv)

lemma view_readdir: "v_readdir v p w = (r, w') \<Longrightarrow> view w' = view w"
  using quiet_v by (metis quiet_vfs_def snd_conv)

lemma view_readlink: "v_readlink v p w = (r, w') \<Longrightarrow> view w' = view w"
  using quiet_v by (metis quiet_vfs_def snd_conv)

lemma view_open: "opens_for_reading o' \<Longrightarrow> v_open v p o' w = (r, w') \<Longrightarrow> view w' = view w"
  using quiet_v by (metis quiet_vfs_def snd_conv)

lemma view_read: "fo_read fo b f w = (r, b', f', w') \<Longrightarrow> view w' = view w"
  using quiet_fo by (metis quiet_files_def snd_conv)

lemma view_close: "fo_close fo f w = (r, f', w') \<Longrightarrow> view w' = view w"
  using quiet_fo by (metis quiet_files_def snd_conv)

text \<open>Opening, reading a buffer and closing, as \<open>execve\<close> does for a script's first line.\<close>

lemma view_open_read_close:
  assumes "v_open v p open_options_read w = (Inr f, w1)" "fo_read fo b f w1 = (r, b', f1, w2)"
    "fo_close fo f1 w2 = (r', f2, w3)"
  shows "view w3 = view w"
proof -
  have "opens_for_reading open_options_read"
    by (simp add: opens_for_reading_def open_options_read_def open_options_new_def)
  with assms show ?thesis by (metis view_open view_read view_close)
qed

end

end
