(* ===== verification/Rust_Str.thy ===== *)
theory Rust_Str
  imports Prelude
begin

text \<open>
  The methods of Rust's \<open>str\<close> and \<open>[u8]\<close> the kernel uses, on a \<open>String\<close> represented by its
  UTF-8 bytes as characters: splitting, prefixes, the last occurrence of a character,
  trimming of Unicode white space, decimal printing and parsing, and
  \<open>String::from_utf8_lossy\<close>.  These are standard-library functions; the properties of the
  components rest on the lemmas proved here.
\<close>

section \<open>Splitting and prefixes\<close>

fun split_on :: "'a \<Rightarrow> 'a list \<Rightarrow> 'a list list" where
  "split_on c [] = [[]]"
| "split_on c (x # xs) =
     (if x = c then [] # split_on c xs
      else (case split_on c xs of [] \<Rightarrow> [[x]] | y # ys \<Rightarrow> (x # y) # ys))"

fun strip_prefix :: "'a list \<Rightarrow> 'a list \<Rightarrow> 'a list option" where
  "strip_prefix [] ys = Some ys"
| "strip_prefix (x # xs) (y # ys) = (if x = y then strip_prefix xs ys else None)"
| "strip_prefix (x # xs) [] = None"

fun starts_with :: "'a list \<Rightarrow> 'a list \<Rightarrow> bool" where
  "starts_with p s = (strip_prefix p s \<noteq> None)"

fun rfind :: "'a \<Rightarrow> 'a list \<Rightarrow> nat option" where
  "rfind c [] = None"
| "rfind c (x # xs) =
     (case rfind c xs of Some i \<Rightarrow> Some (Suc i) | None \<Rightarrow> if x = c then Some 0 else None)"

text \<open>\<open>s.rsplit(c).next()\<close>: what follows the last \<open>c\<close>, or all of \<open>s\<close>.\<close>

definition rsplit_first :: "'a \<Rightarrow> 'a list \<Rightarrow> 'a list" where
  "rsplit_first c s = (case rfind c s of Some i \<Rightarrow> drop (Suc i) s | None \<Rightarrow> s)"

lemma split_on_not_Nil [simp]: "split_on c xs \<noteq> []"
  by (cases xs) (auto split: list.splits)

lemma split_on_no_sep: "y \<in> set (split_on c xs) \<Longrightarrow> c \<notin> set y"
proof (induction xs arbitrary: y)
  case Nil
  then show ?case by simp
next
  case (Cons x xs)
  then show ?case by (auto split: if_splits list.splits)
qed

lemma split_on_single: "c \<notin> set xs \<Longrightarrow> split_on c xs = [xs]"
  by (induction xs) auto

lemma split_on_append_sep: "c \<notin> set xs \<Longrightarrow> split_on c (xs @ c # ys) = xs # split_on c ys"
  by (induction xs) auto

lemma strip_prefix_Some_iff: "strip_prefix p s = Some r \<longleftrightarrow> s = p @ r"
  by (induction p s rule: strip_prefix.induct) auto

lemma strip_prefix_append [simp]: "strip_prefix p (p @ r) = Some r"
  by (simp add: strip_prefix_Some_iff)

lemma rfind_None_iff: "rfind c xs = None \<longleftrightarrow> c \<notin> set xs"
  by (induction xs) (auto split: option.splits)

lemma rfind_SomeD:
  "rfind c xs = Some i \<Longrightarrow> i < length xs \<and> xs ! i = c \<and> c \<notin> set (drop (Suc i) xs)"
proof (induction xs arbitrary: i)
  case Nil
  then show ?case by simp
next
  case (Cons x xs)
  then show ?case
    by (cases "rfind c xs") (auto simp: rfind_None_iff split: if_splits)
qed

lemma rfind_append_sep: "c \<notin> set ys \<Longrightarrow> rfind c (xs @ c # ys) = Some (length xs)"
proof (induction xs)
  case Nil
  then show ?case by (simp add: rfind_None_iff [THEN iffD2])
next
  case (Cons x xs)
  then show ?case by simp
qed

section \<open>Bytes of a string\<close>

definition as_bytes :: "string \<Rightarrow> bytes" where "as_bytes s = map of_char s"

definition str_of_bytes :: "bytes \<Rightarrow> string" where "str_of_bytes bs = map (\<lambda>b. char_of (unat b)) bs"

lemma length_as_bytes [simp]: "length (as_bytes s) = length s"
  by (simp add: as_bytes_def)

lemma unat_of_char [simp]: "unat (of_char c :: u8) = of_char c"
proof -
  have "(of_char c :: u8) = of_nat (of_char c)" by (simp add: of_nat_of_char)
  moreover have "(of_char c :: nat) < 256" by (rule nat_of_char_less_256)
  ultimately show ?thesis by (simp add: unat_of_nat)
qed

lemma str_of_bytes_as_bytes [simp]: "str_of_bytes (as_bytes s) = s"
  by (simp add: str_of_bytes_def as_bytes_def comp_def)

lemma as_bytes_str_of_bytes [simp]: "as_bytes (str_of_bytes bs) = bs"
proof -
  have "(of_char (char_of (unat b)) :: u8) = b" for b :: u8
  proof -
    have c: "(of_char (char_of (unat b)) :: nat) = unat b"
      using unat_u8 [of b] by simp
    have "(of_char (char_of (unat b)) :: u8) = of_nat (of_char (char_of (unat b)))"
      by (simp only: of_nat_of_char)
    also have "\<dots> = b" by (simp only: c) simp
    finally show ?thesis .
  qed
  then show ?thesis by (simp add: str_of_bytes_def as_bytes_def comp_def)
qed

section \<open>\<open>from_utf8_lossy\<close>\<close>

text \<open>
  The decoder's view of the next character: whether it is well formed, and how many bytes
  the character, or the maximal ill-formed part, takes.
\<close>

definition is_cont :: "bytes \<Rightarrow> nat \<Rightarrow> bool" where
  "is_cont bs i = (case get_at bs i of Some b \<Rightarrow> 128 \<le> b \<and> b \<le> 191 | None \<Rightarrow> False)"

definition second_in :: "bytes \<Rightarrow> u8 \<Rightarrow> u8 \<Rightarrow> bool" where
  "second_in bs lo hi = (case get_at bs 1 of Some b \<Rightarrow> lo \<le> b \<and> b \<le> hi | None \<Rightarrow> False)"

definition utf8_next :: "bytes \<Rightarrow> bool \<times> nat" where
  "utf8_next bs =
     (let b = hd bs in
      if b < 128 then (True, 1)
      else if 194 \<le> b \<and> b \<le> 223 then (if is_cont bs 1 then (True, 2) else (False, 1))
      else if 224 \<le> b \<and> b \<le> 239 then
        (if second_in bs (if b = 224 then 160 else 128) (if b = 237 then 159 else 191) then
           (if is_cont bs 2 then (True, 3) else (False, 2))
         else (False, 1))
      else if 240 \<le> b \<and> b \<le> 244 then
        (if second_in bs (if b = 240 then 144 else 128) (if b = 244 then 143 else 191) then
           (if is_cont bs 2 then (if is_cont bs 3 then (True, 4) else (False, 3)) else (False, 2))
         else (False, 1))
      else (False, 1))"

lemma utf8_next_pos: "0 < snd (utf8_next bs)"
  by (simp add: utf8_next_def Let_def)

function utf8_lossy :: "bytes \<Rightarrow> bytes" where
  "utf8_lossy bs =
     (if bs = [] then []
      else let (ok, n) = utf8_next bs in
        (if ok then take n bs else [239, 191, 189]) @ utf8_lossy (drop n bs))"
  by pat_completeness auto
termination
proof (relation "measure length", simp, goal_cases)
  case (1 bs p ok n)
  then have "n = snd (utf8_next bs)" by (metis snd_conv)
  then have "0 < n" using utf8_next_pos [of bs] by simp
  with 1 show ?case by simp
qed

declare utf8_lossy.simps [simp del]

definition from_utf8_lossy :: "bytes \<Rightarrow> string" where
  "from_utf8_lossy bs = str_of_bytes (utf8_lossy bs)"

lemma utf8_lossy_ascii: "\<forall>b \<in> set bs. b < 128 \<Longrightarrow> utf8_lossy bs = bs"
proof (induction bs)
  case Nil
  then show ?case by (simp add: utf8_lossy.simps)
next
  case (Cons b bs)
  then have "utf8_next (b # bs) = (True, 1)" by (simp add: utf8_next_def)
  with Cons show ?case by (simp add: utf8_lossy.simps [of "b # bs"])
qed

section \<open>White space\<close>

text \<open>Length of the Unicode white-space character at the front, zero when there is none.\<close>

definition ws_len :: "string \<Rightarrow> nat" where
  "ws_len s =
     (case map (of_char :: char \<Rightarrow> nat) (take 3 s) of
        [] \<Rightarrow> 0
      | b # bs \<Rightarrow>
          if 9 \<le> b \<and> b \<le> 13 \<or> b = 32 then 1
          else (case bs of
              [] \<Rightarrow> 0
            | c # cs \<Rightarrow>
                if b = 194 \<and> (c = 133 \<or> c = 160) then 2
                else (case cs of
                    [] \<Rightarrow> 0
                  | d # _ \<Rightarrow>
                      if b = 225 \<and> c = 154 \<and> d = 128
                        \<or> b = 226 \<and> c = 128 \<and> (128 \<le> d \<and> d \<le> 138 \<or> d = 168 \<or> d = 169 \<or> d = 175)
                        \<or> b = 226 \<and> c = 129 \<and> d = 159
                        \<or> b = 227 \<and> c = 128 \<and> d = 128 then 3 else 0)))"

function trim_start :: "string \<Rightarrow> string" where
  "trim_start s = (if s = [] \<or> ws_len s = 0 then s else trim_start (drop (ws_len s) s))"
  by pat_completeness auto
termination by (relation "measure length") auto

declare trim_start.simps [simp del]

text \<open>Length of the white-space character at the end.\<close>

definition ws_len_end :: "string \<Rightarrow> nat" where
  "ws_len_end s =
     (let n = length s in
      if 1 \<le> n \<and> ws_len (drop (n - 1) s) = 1 then 1
      else if 2 \<le> n \<and> ws_len (drop (n - 2) s) = 2 then 2
      else if 3 \<le> n \<and> ws_len (drop (n - 3) s) = 3 then 3 else 0)"

function trim_end :: "string \<Rightarrow> string" where
  "trim_end s = (if s = [] \<or> ws_len_end s = 0 then s else trim_end (take (length s - ws_len_end s) s))"
  by pat_completeness auto
termination by (relation "measure length") auto

declare trim_end.simps [simp del]

definition trim :: "string \<Rightarrow> string" where "trim s = trim_end (trim_start s)"

text \<open>\<open>s.splitn(2, char::is_whitespace)\<close>: the first part, and the rest if there was a split.\<close>

fun splitn2_ws :: "string \<Rightarrow> string \<times> string option" where
  "splitn2_ws [] = ([], None)"
| "splitn2_ws (c # cs) =
     (if ws_len (c # cs) > 0 then ([], Some (drop (ws_len (c # cs)) (c # cs)))
      else (let (a, b) = splitn2_ws cs in (c # a, b)))"

section \<open>Decimal numbers\<close>

fun show_nat :: "nat \<Rightarrow> string" where
  "show_nat n = (if n < 10 then [char_of (48 + n)] else show_nat (n div 10) @ [char_of (48 + n mod 10)])"

declare show_nat.simps [simp del]

definition show_int :: "int \<Rightarrow> string" where
  "show_int i = (if i < 0 then CHR ''-'' # show_nat (nat (- i)) else show_nat (nat i))"

text \<open>\<open>{:8}\<close> for a number: right-aligned in eight columns.\<close>

definition show_pad8 :: "nat \<Rightarrow> string" where
  "show_pad8 n = (let s = show_nat n in replicate (8 - length s) (CHR '' '') @ s)"

definition digit_val :: "char \<Rightarrow> nat option" where
  "digit_val c = (let n = of_char c in if 48 \<le> n \<and> n \<le> 57 then Some (n - 48) else None)"

fun parse_digits :: "nat \<Rightarrow> string \<Rightarrow> nat option" where
  "parse_digits acc [] = Some acc"
| "parse_digits acc (c # cs) =
     (case digit_val c of Some d \<Rightarrow> parse_digits (acc * 10 + d) cs | None \<Rightarrow> None)"

definition parse_nat :: "string \<Rightarrow> nat option" where
  "parse_nat s = (if s = [] then None else parse_digits 0 s)"

text \<open>\<open>s.parse::<i32>()\<close>: an optional sign, at least one digit, and a value in range.\<close>

definition parse_i32 :: "string \<Rightarrow> int option" where
  "parse_i32 s =
     (case (case s of
              c # cs \<Rightarrow> if c = CHR ''-'' then map_option (\<lambda>n. - int n) (parse_nat cs)
                         else if c = CHR ''+'' then map_option int (parse_nat cs)
                         else map_option int (parse_nat s)
            | [] \<Rightarrow> None) of
        Some i \<Rightarrow> if I32_MIN \<le> i \<and> i \<le> I32_MAX then Some i else None
      | None \<Rightarrow> None)"

lemma digit_val_char_of: "d < 10 \<Longrightarrow> digit_val (char_of (48 + d)) = Some d"
  by (simp add: digit_val_def)

lemma parse_digits_append:
  "parse_digits acc (xs @ [c]) =
     (case parse_digits acc xs of Some n \<Rightarrow> map_option (\<lambda>d. n * 10 + d) (digit_val c) | None \<Rightarrow> None)"
  by (induction xs arbitrary: acc) (auto split: option.splits)

lemma parse_digits_show_nat: "parse_digits 0 (show_nat n) = Some n"
proof (induction n rule: show_nat.induct)
  case (1 n)
  show ?case
  proof (cases "n < 10")
    case True
    then show ?thesis by (simp add: show_nat.simps [of n] digit_val_char_of)
  next
    case False
    with 1 have "parse_digits 0 (show_nat (n div 10)) = Some (n div 10)" by simp
    with False show ?thesis
      by (simp add: show_nat.simps [of n] parse_digits_append digit_val_char_of)
  qed
qed

lemma show_nat_not_Nil [simp]: "show_nat n \<noteq> []"
  by (simp add: show_nat.simps)

lemma show_nat_digits: "c \<in> set (show_nat n) \<Longrightarrow> digit_val c \<noteq> None"
proof (induction n rule: show_nat.induct)
  case (1 n)
  then show ?case
    by (cases "n < 10") (auto simp: show_nat.simps [of n] digit_val_char_of)
qed

lemma parse_i32_show_int:
  assumes "I32_MIN \<le> i" "i \<le> I32_MAX"
  shows "parse_i32 (show_int i) = Some i"
proof -
  have pn: "parse_nat (show_nat n) = Some n" for n
    by (simp add: parse_nat_def parse_digits_show_nat)
  show ?thesis
  proof (cases "i < 0")
    case True
    with assms show ?thesis by (simp add: parse_i32_def show_int_def pn)
  next
    case False
    obtain c cs where c: "show_nat (nat i) = c # cs"
      by (cases "show_nat (nat i)") auto
    have "digit_val c \<noteq> None" using show_nat_digits [of c "nat i"] c by simp
    then have "c \<noteq> CHR ''-''" "c \<noteq> CHR ''+''" by (auto simp: digit_val_def)
    with False assms c pn [of "nat i"] show ?thesis by (simp add: parse_i32_def show_int_def)
  qed
qed

section \<open>Ordered maps\<close>

text \<open>A \<open>BTreeMap<String, _>\<close> is its entries in key order.\<close>

fun bt_insert :: "string \<Rightarrow> 'v \<Rightarrow> (string \<times> 'v) list \<Rightarrow> (string \<times> 'v) list" where
  "bt_insert k v [] = [(k, v)]"
| "bt_insert k v ((k', v') # r) =
     (if k = k' then (k, v) # r
      else if k < k' then (k, v) # (k', v') # r
      else (k', v') # bt_insert k v r)"

definition bt_remove :: "string \<Rightarrow> (string \<times> 'v) list \<Rightarrow> (string \<times> 'v) list" where
  "bt_remove k es = filter (\<lambda>(k', _). k' \<noteq> k) es"

lemma bt_insert_map_of: "map_of (bt_insert k v es) = (map_of es)(k \<mapsto> v)"
  by (induction k v es rule: bt_insert.induct) (auto simp: fun_eq_iff)

lemma bt_remove_map_of: "map_of (bt_remove k es) = (map_of es)(k := None)"
  by (induction es) (auto simp: bt_remove_def fun_eq_iff)

lemma bt_insert_keys: "set (map fst (bt_insert k v es)) = insert k (set (map fst es))"
  by (induction k v es rule: bt_insert.induct) auto

lemma bt_insert_sorted: "sorted_wrt (<) (map fst es) \<Longrightarrow> sorted_wrt (<) (map fst (bt_insert k v es))"
proof (induction k v es rule: bt_insert.induct)
  case (1 k v)
  then show ?case by simp
next
  case (2 k v k' v' r)
  have "set (map fst (bt_insert k v r)) = insert k (set (map fst r))" by (rule bt_insert_keys)
  with 2 show ?case by (auto simp flip: set_map)
qed

lemma bt_remove_sorted: "sorted_wrt (<) (map fst es) \<Longrightarrow> sorted_wrt (<) (map fst (bt_remove k es))"
  by (induction es) (auto simp: bt_remove_def)

end
