(* ===== verification/Sys_Monad.thy ===== *)
theory Sys_Monad
  imports Abi
begin

text \<open>
  The error channel of the handlers (\<open>Fault\<close> in \<open>kernel/syscall.rs\<close>) and the monad a handler
  is written in: a function from the state to a fault or a value, and the state it leaves.
  \<open>keeps P m\<close> says that \<open>m\<close> preserves \<open>P\<close> however it ends, \<open>on_block R m\<close> that a run of \<open>m\<close>
  that asks to be retried relates the states before and after by \<open>R\<close>; both come with one
  rule per combinator, collected for automation.
\<close>

datatype fault = FErrno errno | FBlock | FExit int | FExec

datatype outcome = OValue int | OBlocked | OExit int | OExec

type_synonym ('s, 'a) sysm = "'s \<Rightarrow> (fault + 'a) \<times> 's"

definition ret :: "'a \<Rightarrow> ('s, 'a) sysm" where
  "ret a = (\<lambda>s. (Inr a, s))"

definition fault :: "fault \<Rightarrow> ('s, 'a) sysm" where
  "fault f = (\<lambda>s. (Inl f, s))"

abbreviation err :: "errno \<Rightarrow> ('s, 'a) sysm" where
  "err e \<equiv> fault (FErrno e)"

definition bnd :: "('s, 'a) sysm \<Rightarrow> ('a \<Rightarrow> ('s, 'b) sysm) \<Rightarrow> ('s, 'b) sysm" where
  "bnd m f = (\<lambda>s. case m s of (Inl e, s') \<Rightarrow> (Inl e, s') | (Inr a, s') \<Rightarrow> f a s')"

definition gets :: "('s \<Rightarrow> 'a) \<Rightarrow> ('s, 'a) sysm" where
  "gets f = (\<lambda>s. (Inr (f s), s))"

definition modify :: "('s \<Rightarrow> 's) \<Rightarrow> ('s, unit) sysm" where
  "modify f = (\<lambda>s. (Inr (), f s))"

text \<open>A sub-computation that returns a value with the new state, and cannot fail.\<close>

definition run :: "('s \<Rightarrow> 'a \<times> 's) \<Rightarrow> ('s, 'a) sysm" where
  "run f = (\<lambda>s. let (a, s') = f s in (Inr a, s'))"

text \<open>The \<open>?\<close> operator on a \<open>Result<_, Errno>\<close>, and \<open>ok_or(e)?\<close> on an \<open>Option\<close>.\<close>

definition of_result :: "errno + 'a \<Rightarrow> ('s, 'a) sysm" where
  "of_result r = (case r of Inl e \<Rightarrow> err e | Inr a \<Rightarrow> ret a)"

definition ok_or :: "errno \<Rightarrow> 'a option \<Rightarrow> ('s, 'a) sysm" where
  "ok_or e x = (case x of None \<Rightarrow> err e | Some a \<Rightarrow> ret a)"

text \<open>Handling the result of a sub-computation: \<open>match m { ... }\<close>.\<close>

definition catching :: "('s, 'a) sysm \<Rightarrow> (fault + 'a \<Rightarrow> ('s, 'b) sysm) \<Rightarrow> ('s, 'b) sysm" where
  "catching m f = (\<lambda>s. let (r, s') = m s in f r s')"

lemmas monad_simps =
  ret_def fault_def bnd_def gets_def modify_def run_def of_result_def ok_or_def catching_def

section \<open>Invariants\<close>

definition keeps :: "('s \<Rightarrow> bool) \<Rightarrow> ('s, 'a) sysm \<Rightarrow> bool" where
  "keeps P m \<longleftrightarrow> (\<forall>s. P s \<longrightarrow> P (snd (m s)))"

named_theorems keeps_rules

lemma keepsI: "(\<And>s. P s \<Longrightarrow> P (snd (m s))) \<Longrightarrow> keeps P m"
  by (simp add: keeps_def)

lemma keepsD: "keeps P m \<Longrightarrow> P s \<Longrightarrow> P (snd (m s))"
  by (simp add: keeps_def)

lemma keeps_ret [keeps_rules]: "keeps P (ret a)"
  by (simp add: keeps_def ret_def)

lemma keeps_fault [keeps_rules]: "keeps P (fault f)"
  by (simp add: keeps_def fault_def)

lemma keeps_bnd [keeps_rules]:
  assumes "keeps P m" "\<And>a. keeps P (f a)"
  shows "keeps P (bnd m f)"
proof (rule keepsI)
  fix s assume s: "P s"
  obtain r s' where m: "m s = (r, s')" by (cases "m s")
  have "P s'" using keepsD [OF assms(1) s] m by simp
  then show "P (snd (bnd m f s))"
    using m keepsD [OF assms(2)] by (cases r) (simp_all add: bnd_def)
qed

lemma keeps_gets [keeps_rules]: "keeps P (gets f)"
  by (simp add: keeps_def gets_def)

lemma keeps_modify [keeps_rules]: "(\<And>s. P s \<Longrightarrow> P (f s)) \<Longrightarrow> keeps P (modify f)"
  by (simp add: keeps_def modify_def)

lemma keeps_run [keeps_rules]: "(\<And>s. P s \<Longrightarrow> P (snd (f s))) \<Longrightarrow> keeps P (run f)"
  by (simp add: keeps_def run_def Let_def split: prod.splits) (metis snd_conv)

lemma keeps_of_result [keeps_rules]: "keeps P (of_result r)"
  by (cases r) (simp_all add: of_result_def keeps_ret keeps_fault)

lemma keeps_ok_or [keeps_rules]: "keeps P (ok_or e x)"
  by (cases x) (simp_all add: ok_or_def keeps_ret keeps_fault)

lemma keeps_catching [keeps_rules]:
  assumes "keeps P m" "\<And>r. keeps P (f r)"
  shows "keeps P (catching m f)"
proof (rule keepsI)
  fix s assume s: "P s"
  obtain r s' where m: "m s = (r, s')" by (cases "m s")
  have "P s'" using keepsD [OF assms(1) s] m by simp
  then show "P (snd (catching m f s))"
    using m keepsD [OF assms(2)] by (simp add: catching_def)
qed

lemma keeps_if [keeps_rules]:
  "(c \<Longrightarrow> keeps P m) \<Longrightarrow> (\<not> c \<Longrightarrow> keeps P n) \<Longrightarrow> keeps P (if c then m else n)"
  by simp

lemma keeps_option [keeps_rules]:
  "keeps P m \<Longrightarrow> (\<And>a. keeps P (f a)) \<Longrightarrow> keeps P (case x of None \<Rightarrow> m | Some a \<Rightarrow> f a)"
  by (cases x) simp_all

lemma keeps_sum [keeps_rules]:
  "(\<And>e. keeps P (f e)) \<Longrightarrow> (\<And>a. keeps P (g a)) \<Longrightarrow> keeps P (case x of Inl e \<Rightarrow> f e | Inr a \<Rightarrow> g a)"
  by (cases x) simp_all

lemma keeps_prod [keeps_rules]:
  "(\<And>a b. keeps P (f a b)) \<Longrightarrow> keeps P (case x of (a, b) \<Rightarrow> f a b)"
  by (cases x) simp

lemma keeps_Let [keeps_rules]: "keeps P (f x) \<Longrightarrow> keeps P (let a = x in f a)"
  by simp

lemma keeps_list [keeps_rules]:
  "keeps P m \<Longrightarrow> (\<And>a as. keeps P (f a as)) \<Longrightarrow> keeps P (case x of [] \<Rightarrow> m | a # as \<Rightarrow> f a as)"
  by (cases x) simp_all

text \<open>
  A computation that only looks: what follows it runs in the same state and knows what was
  seen.  \<open>keeps_at s P m\<close> is \<open>keeps\<close> for the run from \<open>s\<close>.
\<close>

definition keeps_at :: "'s \<Rightarrow> ('s \<Rightarrow> bool) \<Rightarrow> ('s, 'a) sysm \<Rightarrow> bool" where
  "keeps_at s P m \<longleftrightarrow> (P s \<longrightarrow> P (snd (m s)))"

definition reads :: "('s, 'a) sysm \<Rightarrow> bool" where
  "reads m \<longleftrightarrow> (\<forall>s. snd (m s) = s)"

named_theorems reads_rules

lemma reads_simple [reads_rules]:
  "reads (ret a)" "reads (fault e)" "reads (gets f)" "reads (of_result r)" "reads (ok_or e' x)"
  by (auto simp: reads_def monad_simps split: sum.splits option.splits)

lemma reads_bnd [reads_rules]: "reads m \<Longrightarrow> (\<And>a. reads (f a)) \<Longrightarrow> reads (bnd m f)"
  by (auto simp: reads_def bnd_def split: prod.splits sum.splits) (metis snd_conv)+

lemma keeps_reads: "reads m \<Longrightarrow> keeps P m"
  by (simp add: reads_def keeps_def)

lemma keeps_of_at: "(\<And>s. keeps_at s P m) \<Longrightarrow> keeps P m"
  by (simp add: keeps_at_def keeps_def)

lemma keeps_at_keeps: "keeps P m \<Longrightarrow> keeps_at s P m"
  by (simp add: keeps_at_def keeps_def)

lemma keeps_at_simple [simp]: "keeps_at s P (ret a)" "keeps_at s P (fault e)"
  by (simp_all add: keeps_at_def ret_def fault_def)

lemma keeps_at_reads:
  assumes "reads m" "\<And>a. m s = (Inr a, s) \<Longrightarrow> keeps_at s P (f a)"
  shows "keeps_at s P (bnd m f)"
proof -
  obtain r where "m s = (r, s)" using assms(1) by (metis prod.collapse reads_def)
  then show ?thesis using assms(2) by (cases r) (auto simp: keeps_at_def bnd_def)
qed

lemma keeps_at_bnd:
  assumes "P s \<Longrightarrow> P (snd (m s))" "\<And>a. keeps P (f a)"
  shows "keeps_at s P (bnd m f)"
proof -
  obtain r s1 where "m s = (r, s1)" by fastforce
  then show ?thesis using assms by (cases r) (auto simp: keeps_at_def keeps_def bnd_def)
qed

text \<open>\<open>leads P Q m\<close>: a run of \<open>m\<close> from \<open>P\<close> ends in \<open>Q\<close>, however it ends.\<close>

definition leads :: "('s \<Rightarrow> bool) \<Rightarrow> ('s \<Rightarrow> bool) \<Rightarrow> ('s, 'a) sysm \<Rightarrow> bool" where
  "leads P Q m \<longleftrightarrow> (\<forall>s. P s \<longrightarrow> Q (snd (m s)))"

lemma leads_keeps: "(\<And>s. P s \<Longrightarrow> Q s) \<Longrightarrow> keeps P m \<Longrightarrow> leads P Q m"
  by (simp add: leads_def keeps_def)

lemma keeps_leads: "keeps P m \<longleftrightarrow> leads P P m"
  by (simp add: leads_def keeps_def)

lemma leads_bnd:
  assumes "\<And>s. P s \<Longrightarrow> Q s" "keeps P m" "\<And>a. leads P Q (f a)"
  shows "leads P Q (bnd m f)"
  unfolding leads_def
proof (intro allI impI)
  fix s assume s: "P s"
  obtain r s1 where m: "m s = (r, s1)" by fastforce
  have "P s1" using keepsD [OF assms(2) s] m by simp
  then show "Q (snd (bnd m f s))" using m assms(1,3) by (cases r) (auto simp: bnd_def leads_def)
qed

text \<open>
  \<open>triple P m Q E\<close>: from \<open>P\<close>, a run of \<open>m\<close> that reports \<open>a\<close> ends in \<open>Q a\<close>, and one that
  fails ends in \<open>E\<close>.
\<close>

definition triple ::
  "('s \<Rightarrow> bool) \<Rightarrow> ('s, 'a) sysm \<Rightarrow> ('a \<Rightarrow> 's \<Rightarrow> bool) \<Rightarrow> ('s \<Rightarrow> bool) \<Rightarrow> bool" where
  "triple P m Q E \<longleftrightarrow>
     (\<forall>s. P s \<longrightarrow> (case m s of (Inr a, s') \<Rightarrow> Q a s' | (Inl f, s') \<Rightarrow> E s'))"

lemma tripleI:
  assumes "\<And>s a s'. P s \<Longrightarrow> m s = (Inr a, s') \<Longrightarrow> Q a s'" "\<And>s f s'. P s \<Longrightarrow> m s = (Inl f, s') \<Longrightarrow> E s'"
  shows "triple P m Q E"
  using assms by (auto simp: triple_def split: prod.splits sum.splits)

lemma triple_at:
  assumes "triple P m Q E" "P s" "m s = (r, s1)"
  shows "case r of Inr a \<Rightarrow> Q a s1 | Inl f \<Rightarrow> E s1"
proof -
  have "case m s of (Inr a, s') \<Rightarrow> Q a s' | (Inl f, s') \<Rightarrow> E s'" using assms(1,2) by (simp add: triple_def)
  then show ?thesis using assms(3) by (cases r) simp_all
qed

lemma triple_bnd:
  assumes "triple P m R E" "\<And>a. triple (R a) (f a) Q E"
  shows "triple P (bnd m f) Q E"
  unfolding triple_def
proof (intro allI impI)
  fix s assume s: "P s"
  obtain r s1 where m: "m s = (r, s1)" by fastforce
  show "case bnd m f s of (Inr a, s') \<Rightarrow> Q a s' | (Inl f, s') \<Rightarrow> E s'"
    using triple_at [OF assms(1) s m] assms(2-) by (cases r) (auto simp: bnd_def m triple_def dest: spec [of _ s1])
qed

lemma triple_catching:
  assumes "triple P m R F" "\<And>a. triple (R a) (f (Inr a)) Q E" "\<And>e. triple F (f (Inl e)) Q E"
  shows "triple P (catching m f) Q E"
  unfolding triple_def
proof (intro allI impI)
  fix s assume s: "P s"
  obtain r s1 where m: "m s = (r, s1)" by fastforce
  show "case catching m f s of (Inr a, s') \<Rightarrow> Q a s' | (Inl f, s') \<Rightarrow> E s'"
    using triple_at [OF assms(1) s m] assms(2-) by (cases r) (auto simp: catching_def m triple_def dest: spec [of _ s1])
qed

lemma triple_ret: "(\<And>s. P s \<Longrightarrow> Q a s) \<Longrightarrow> triple P (ret a) Q E"
  by (simp add: triple_def ret_def)

lemma triple_fault: "(\<And>s. P s \<Longrightarrow> E s) \<Longrightarrow> triple P (fault e) Q E"
  by (simp add: triple_def fault_def)

lemma triple_gets: "(\<And>s. P s \<Longrightarrow> Q (g s) s) \<Longrightarrow> triple P (gets g) Q E"
  by (simp add: triple_def gets_def)

lemma triple_modify: "(\<And>s. P s \<Longrightarrow> Q () (h s)) \<Longrightarrow> triple P (modify h) Q E"
  by (simp add: triple_def modify_def)

lemmas triple_simple = triple_ret triple_fault triple_gets triple_modify

lemma leads_triple: "leads P Q m \<longleftrightarrow> triple P m (\<lambda>_. Q) Q"
proof -
  have "Q (snd (m s)) \<longleftrightarrow> (case m s of (Inr a, s') \<Rightarrow> Q s' | (Inl f, s') \<Rightarrow> Q s')" for s
    by (simp split: prod.splits sum.splits)
  then show ?thesis by (simp only: leads_def triple_def)
qed

lemma triple_keeps: "keeps P m \<Longrightarrow> (\<And>s. P s \<Longrightarrow> E s) \<Longrightarrow> triple P m (\<lambda>_. P) E"
  by (rule tripleI) (auto dest: keepsD)

lemma triple_weaken:
  assumes "triple P m Q E" "\<And>s. P' s \<Longrightarrow> P s" "\<And>a s. Q a s \<Longrightarrow> Q' a s" "\<And>s. E s \<Longrightarrow> E' s"
  shows "triple P' m Q' E'"
  unfolding triple_def
proof (intro allI impI)
  fix s assume "P' s"
  then have "P s" by (rule assms(2))
  obtain r s1 where m: "m s = (r, s1)" by fastforce
  with assms(1) \<open>P s\<close> show "case m s of (Inr a, s') \<Rightarrow> Q' a s' | (Inl f, s') \<Rightarrow> E' s'"
    using assms(3,4) by (cases r) (auto simp: triple_def dest: spec [of _ s])
qed

text \<open>What a run that reports \<open>r\<close> and leaves \<open>s'\<close> went through.\<close>

lemma bnd_Inr_iff:
  "bnd m f s = (Inr b, s') \<longleftrightarrow> (\<exists>a s1. m s = (Inr a, s1) \<and> f a s1 = (Inr b, s'))"
  by (auto simp: bnd_def split: prod.splits sum.splits)

lemma bnd_Inl_iff:
  "bnd m f s = (Inl e, s') \<longleftrightarrow>
     m s = (Inl e, s') \<or> (\<exists>a s1. m s = (Inr a, s1) \<and> f a s1 = (Inl e, s'))"
  by (auto simp: bnd_def split: prod.splits sum.splits)

lemma bnd_assoc: "bnd (bnd m f) g = bnd m (\<lambda>a. bnd (f a) g)"
  by (auto simp: bnd_def fun_eq_iff split: prod.splits sum.splits)

lemma bnd_ret [simp]: "bnd (ret a) f = f a"
  by (simp add: bnd_def ret_def)

lemma bnd_fault [simp]: "bnd (fault e) f = fault e"
  by (simp add: bnd_def fault_def)

section \<open>Blocking\<close>

text \<open>
  \<open>related R m\<close>: every run of \<open>m\<close> relates its two states by \<open>R\<close>.  \<open>on_block R m\<close>: every run
  that ends in \<open>FBlock\<close> does.
\<close>

definition related :: "('s \<Rightarrow> 's \<Rightarrow> bool) \<Rightarrow> ('s, 'a) sysm \<Rightarrow> bool" where
  "related R m \<longleftrightarrow> (\<forall>s. R s (snd (m s)))"

definition on_block :: "('s \<Rightarrow> 's \<Rightarrow> bool) \<Rightarrow> ('s, 'a) sysm \<Rightarrow> bool" where
  "on_block R m \<longleftrightarrow> (\<forall>s s'. m s = (Inl FBlock, s') \<longrightarrow> R s s')"

named_theorems block_rules

lemma relatedI: "(\<And>s. R s (snd (m s))) \<Longrightarrow> related R m"
  by (simp add: related_def)

lemma related_on_block: "related R m \<Longrightarrow> on_block R m"
  unfolding related_def on_block_def by (metis snd_conv)

lemma related_bnd:
  assumes "transp R" "related R m" "\<And>a. related R (f a)"
  shows "related R (bnd m f)"
proof (rule relatedI)
  fix s
  obtain r s' where m: "m s = (r, s')" by (cases "m s")
  have "R s s'" using assms(2) m by (metis related_def snd_conv)
  then show "R s (snd (bnd m f s))"
    using m assms(1,3) by (cases r) (auto simp: bnd_def related_def dest: transpD)
qed

lemma on_block_bnd:
  assumes "transp R" "related R m" "\<And>a. on_block R (f a)"
  shows "on_block R (bnd m f)"
  unfolding on_block_def
proof (intro allI impI)
  fix s s' assume b: "bnd m f s = (Inl FBlock, s')"
  obtain r s1 where m: "m s = (r, s1)" by (cases "m s")
  have r1: "R s s1" using assms(2) m by (metis related_def snd_conv)
  show "R s s'"
  proof (cases r)
    case (Inl e)
    then show ?thesis using b m r1 by (simp add: bnd_def)
  next
    case (Inr a)
    then have "f a s1 = (Inl FBlock, s')" using b m by (simp add: bnd_def)
    then have "R s1 s'" using assms(3) by (simp add: on_block_def)
    with r1 assms(1) show ?thesis by (blast dest: transpD)
  qed
qed

end
