(* ===== verification/Guest_Mem.thy ===== *)
theory Guest_Mem
  imports Sys_Monad Rust_Str
begin

text \<open>
  Checked access to a guest's linear memory (\<open>kernel/mem.rs\<close>).  The memory is its list of
  bytes.  Readers are functions of it; writers are runs of the monad over it, so that the
  part of a multi-word write done before a fault stays done.
\<close>

section \<open>Reading\<close>

definition mem_slice :: "bytes \<Rightarrow> u32 \<Rightarrow> nat \<Rightarrow> bytes vfs_result" where
  "mem_slice m at len =
     (let start = unat at; stop = start + len in
      case get_range m start stop of Some bs \<Rightarrow> Inr bs | None \<Rightarrow> Inl EFAULT)"

definition mem_bytes :: "bytes \<Rightarrow> u32 \<Rightarrow> u32 \<Rightarrow> bytes vfs_result" where
  "mem_bytes m at len = mem_slice m at (unat len)"

definition mem_u32 :: "bytes \<Rightarrow> u32 \<Rightarrow> u32 vfs_result" where
  "mem_u32 m at = (case mem_slice m at 4 of Inl e \<Rightarrow> Inl e | Inr bs \<Rightarrow> Inr (u32_le bs))"

definition mem_u64 :: "bytes \<Rightarrow> u32 \<Rightarrow> u64 vfs_result" where
  "mem_u64 m at = (case mem_slice m at 8 of Inl e \<Rightarrow> Inl e | Inr bs \<Rightarrow> Inr (u64_le bs))"

definition mem_i32_at :: "bytes \<Rightarrow> u32 \<Rightarrow> int vfs_result" where
  "mem_i32_at m at = (case mem_u32 m at of Inl e \<Rightarrow> Inl e | Inr w \<Rightarrow> Inr (sint w))"

section \<open>Writing\<close>

definition mem_put :: "u32 \<Rightarrow> bytes \<Rightarrow> (bytes, unit) sysm" where
  "mem_put at data = (\<lambda>m.
     case mem_slice m at (length data) of
       Inl e \<Rightarrow> (Inl (FErrno e), m)
     | Inr _ \<Rightarrow> (Inr (), overwrite (unat at) data m))"

definition mem_put_u8 :: "u32 \<Rightarrow> u8 \<Rightarrow> (bytes, unit) sysm" where
  "mem_put_u8 at v = mem_put at [v]"

definition mem_put_u16 :: "u32 \<Rightarrow> u16 \<Rightarrow> (bytes, unit) sysm" where
  "mem_put_u16 at v = mem_put at (le16 v)"

definition mem_put_u32 :: "u32 \<Rightarrow> u32 \<Rightarrow> (bytes, unit) sysm" where
  "mem_put_u32 at v = mem_put at (le32 v)"

definition mem_put_u64 :: "u32 \<Rightarrow> u64 \<Rightarrow> (bytes, unit) sysm" where
  "mem_put_u64 at v = mem_put at (le64 v)"

definition mem_zero :: "u32 \<Rightarrow> u32 \<Rightarrow> (bytes, unit) sysm" where
  "mem_zero at len = mem_put at (replicate (unat len) 0)"

section \<open>Strings\<close>

abbreviation MAX_STR :: nat where "MAX_STR \<equiv> 4096"
abbreviation MAX_ARGS :: nat where "MAX_ARGS \<equiv> 4096"
abbreviation MAX_ARG_STRLEN :: nat where "MAX_ARG_STRLEN \<equiv> 131072"
abbreviation MAX_ARG_TOTAL :: nat where "MAX_ARG_TOTAL \<equiv> 2097152"

text \<open>\<open>iter().position(|b| b == 0)\<close>.\<close>

fun position_zero :: "bytes \<Rightarrow> nat option" where
  "position_zero [] = None"
| "position_zero (b # bs) = (if b = 0 then Some 0 else map_option Suc (position_zero bs))"

definition mem_cstr_bytes_upto :: "bytes \<Rightarrow> u32 \<Rightarrow> nat \<Rightarrow> bytes vfs_result" where
  "mem_cstr_bytes_upto m at cap =
     (if length m < unat at then Inl EFAULT
      else let capped = take cap (drop (unat at) m) in
        case position_zero capped of
          None \<Rightarrow> Inl ENAMETOOLONG
        | Some n \<Rightarrow> Inr (take n capped))"

definition mem_cstr_bytes :: "bytes \<Rightarrow> u32 \<Rightarrow> bytes vfs_result" where
  "mem_cstr_bytes m at = mem_cstr_bytes_upto m at MAX_STR"

definition mem_cstr :: "bytes \<Rightarrow> u32 \<Rightarrow> string vfs_result" where
  "mem_cstr m at = (case mem_cstr_bytes m at of Inl e \<Rightarrow> Inl e | Inr bs \<Rightarrow> Inr (from_utf8_lossy bs))"

function cstr_array_from :: "bytes \<Rightarrow> u32 \<Rightarrow> nat \<Rightarrow> bytes list \<Rightarrow> bytes list vfs_result" where
  "cstr_array_from m p used out =
     (case mem_u32 m p of
        Inl e \<Rightarrow> Inl e
      | Inr item \<Rightarrow>
          if item = 0 then Inr out
          else (case mem_cstr_bytes_upto m item MAX_ARG_STRLEN of
              Inl e \<Rightarrow> Inl (if e = ENAMETOOLONG then E2BIG else e)
            | Inr s \<Rightarrow>
                if MAX_ARG_TOTAL < used + length s + 1 then Inl E2BIG
                else if MAX_ARGS \<le> length (out @ [s]) then Inl E2BIG
                else (case checked_add_u32 p 4 of
                    None \<Rightarrow> Inl EFAULT
                  | Some p' \<Rightarrow> cstr_array_from m p' (used + length s + 1) (out @ [s]))))"
  by pat_completeness auto
termination by (relation "measure (\<lambda>(m, p, used, out). MAX_ARGS - length out)") auto

declare cstr_array_from.simps [simp del]

definition mem_cstr_array :: "bytes \<Rightarrow> u32 \<Rightarrow> bytes list vfs_result" where
  "mem_cstr_array m at = (if at = 0 then Inr [] else cstr_array_from m at 0 [])"

section \<open>Times\<close>

text \<open>A \<open>Duration\<close> is its number of nanoseconds.\<close>

abbreviation NANOS :: nat where "NANOS \<equiv> 1000000000"

definition mem_timespec :: "bytes \<Rightarrow> u32 \<Rightarrow> nat vfs_result" where
  "mem_timespec m at =
     (case mem_u64 m at of Inl e \<Rightarrow> Inl e | Inr secs \<Rightarrow>
      case checked_add_u32 at 8 of None \<Rightarrow> Inl EFAULT | Some at8 \<Rightarrow>
      case mem_u32 m at8 of Inl e \<Rightarrow> Inl e | Inr nanos \<Rightarrow>
        if sint secs < 0 \<or> NANOS \<le> unat nanos then Inl EINVAL
        else Inr (unat secs * NANOS + unat nanos))"

definition mem_put_timespec :: "u32 \<Rightarrow> nat \<Rightarrow> (bytes, unit) sysm" where
  "mem_put_timespec at d =
     bnd (mem_put_u64 at (of_nat (d div NANOS))) (\<lambda>_.
     bnd (ok_or EFAULT (checked_add_u32 at 8)) (\<lambda>at8.
     bnd (mem_put_u32 at8 (of_nat (d mod NANOS))) (\<lambda>_.
     bnd (ok_or EFAULT (checked_add_u32 at 12)) (\<lambda>at12.
     mem_put_u32 at12 0))))"

section \<open>Facts\<close>

lemma mem_slice_Inr_iff:
  "mem_slice m at n = Inr bs \<longleftrightarrow> unat at + n \<le> length m \<and> bs = take n (drop (unat at) m)"
  by (auto simp: mem_slice_def get_range_def Let_def split: if_splits)

lemma mem_slice_Inl_iff:
  "mem_slice m at n = Inl e \<longleftrightarrow> length m < unat at + n \<and> e = EFAULT"
  by (auto simp: mem_slice_def get_range_def Let_def split: if_splits)

lemma mem_slice_if:
  "mem_slice m at n = (if unat at + n \<le> length m then Inr (take n (drop (unat at) m)) else Inl EFAULT)"
  by (auto simp: mem_slice_def get_range_def Let_def split: if_splits)

lemma mem_put_if:
  "mem_put at data m =
     (if unat at + length data \<le> length m then (Inr (), overwrite (unat at) data m)
      else (Inl (FErrno EFAULT), m))"
  by (simp add: mem_put_def mem_slice_if)

text \<open>A write never changes the size of the memory, and never asks to be retried.\<close>

lemma mem_put_length [simp]: "length (snd (mem_put at data m)) = length m"
  by (simp add: mem_put_if)

lemma mem_put_not_block: "fst (mem_put at data m) \<noteq> Inl FBlock"
  by (simp add: mem_put_if)

lemma mem_put_frame:
  assumes "n + k \<le> unat at \<or> unat at + length data \<le> n" "n + k \<le> length m"
  shows "take k (drop n (snd (mem_put at data m))) = take k (drop n m)"
  using assms by (auto simp: mem_put_if intro!: take_drop_overwrite_disjoint)

lemma mem_slice_put:
  "fst (mem_put at data m) = Inr () \<Longrightarrow> mem_slice (snd (mem_put at data m)) at (length data) = Inr data"
  by (auto simp: mem_put_if mem_slice_if overwrite_same split: if_splits)

lemma mem_u32_put: "fst (mem_put_u32 at v m) = Inr () \<Longrightarrow> mem_u32 (snd (mem_put_u32 at v m)) at = Inr v"
  using mem_slice_put [of at "le32 v" m] by (simp add: mem_put_u32_def mem_u32_def)

lemma mem_u64_put: "fst (mem_put_u64 at v m) = Inr () \<Longrightarrow> mem_u64 (snd (mem_put_u64 at v m)) at = Inr v"
  using mem_slice_put [of at "le64 v" m] by (simp add: mem_put_u64_def mem_u64_def)

lemma position_zero_append: "0 \<notin> set s \<Longrightarrow> position_zero (s @ 0 # r) = Some (length s)"
  by (induction s) auto

lemma position_zero_SomeD: "position_zero s = Some n \<Longrightarrow> n < length s \<and> s ! n = 0 \<and> 0 \<notin> set (take n s)"
  by (induction s arbitrary: n) (auto split: if_splits)

text \<open>A NUL-terminated string in memory is what the reader returns.\<close>

lemma mem_cstr_bytes_upto_eq:
  assumes "unat at + length s < length m" "take (Suc (length s)) (drop (unat at) m) = s @ [0]"
    "0 \<notin> set s" "length s < cap"
  shows "mem_cstr_bytes_upto m at cap = Inr s"
proof -
  define r where "r = drop (Suc (length s)) (drop (unat at) m)"
  have d: "drop (unat at) m = s @ 0 # r"
    using append_take_drop_id [of "Suc (length s)" "drop (unat at) m"] assms(2) by (simp add: r_def)
  have c: "take cap (drop (unat at) m) = s @ 0 # take (cap - Suc (length s)) r"
  proof -
    obtain n where n: "cap = length s + Suc n"
      using assms(4) by (metis less_imp_Suc_add add_Suc_right)
    show ?thesis by (simp add: d n)
  qed
  show ?thesis
    using assms(1,3) by (simp add: mem_cstr_bytes_upto_def c position_zero_append)
qed

lemma mem_cstr_bytes_upto_bound:
  "mem_cstr_bytes_upto m at cap = Inr s \<Longrightarrow> length s < cap \<and> 0 \<notin> set s \<and> unat at + length s < length m"
  by (auto simp: mem_cstr_bytes_upto_def Let_def min_def dest!: position_zero_SomeD
      split: if_splits option.splits)

end
