(* ===== verification/Paths.thy ===== *)
theory Paths
  imports Vfs Rust_Str Guest_Mem
begin

text \<open>
  Name resolution of \<open>kernel/path.rs\<close>: the mount table, the overlay of programs, devices and
  \<open>/proc\<close>, and the resolver, which folds \<open>.\<close> and \<open>..\<close> away, follows symbolic links from left to
  right up to \<open>MAX_HOPS\<close>, and classifies what is left.  A resolution asks the mounts, so it
  passes the world \<open>'w\<close> their implementations live in.
\<close>

abbreviation MAX_HOPS :: nat where "MAX_HOPS \<equiv> 40"

declare starts_with.simps [simp del]

lemma starts_with_slash [simp]: "starts_with ''/'' s \<longleftrightarrow> (\<exists>r. s = CHR ''/'' # r)"
  by (cases s) (auto simp: starts_with.simps)

section \<open>Mounts\<close>

record ('w, 'f) mount =
  mnt_at :: string
  mnt_vfs :: "('w, 'f) vfs"
  mnt_read_only :: bool

type_synonym ('w, 'f) mounts = "('w, 'f) mount list"

text \<open>A stable sort, longest mount point first.\<close>

definition mounts_new :: "('w, 'f) mount list \<Rightarrow> ('w, 'f) mounts" where
  "mounts_new l = sort_key (\<lambda>m. - int (length (mnt_at m))) l"

definition mounts_get :: "('w, 'f) mounts \<Rightarrow> nat \<Rightarrow> ('w, 'f) mount option" where
  "mounts_get ms i = get_at ms i"

fun mounts_find_from :: "nat \<Rightarrow> ('w, 'f) mounts \<Rightarrow> string \<Rightarrow> (nat \<times> string) option" where
  "mounts_find_from i [] guest = None"
| "mounts_find_from i (m # ms) guest =
     (if mnt_at m = ''/'' then Some (i, guest)
      else (case strip_prefix (mnt_at m) guest of
          Some rest \<Rightarrow>
            if rest = [] then Some (i, ''/'')
            else if starts_with ''/'' rest then Some (i, rest)
            else mounts_find_from (i + 1) ms guest
        | None \<Rightarrow> mounts_find_from (i + 1) ms guest))"

definition mounts_find :: "('w, 'f) mounts \<Rightarrow> string \<Rightarrow> (nat \<times> string) option" where
  "mounts_find ms guest = mounts_find_from 0 ms guest"

definition dir_prefix :: "string \<Rightarrow> string" where
  "dir_prefix guest = (if guest = ''/'' then ''/'' else guest @ ''/'')"

text \<open>The name a path has directly below a directory, if it lies there.\<close>

definition child_name :: "string \<Rightarrow> string \<Rightarrow> string option" where
  "child_name guest path =
     (case strip_prefix (dir_prefix guest) path of
        Some rest \<Rightarrow> if rest \<noteq> [] \<and> CHR ''/'' \<notin> set rest then Some rest else None
      | None \<Rightarrow> None)"

definition children_of :: "('w, 'f) mounts \<Rightarrow> string \<Rightarrow> string list" where
  "children_of ms guest = List.map_filter (\<lambda>m. child_name guest (mnt_at m)) ms"

section \<open>The overlay\<close>

datatype device = DevNull | DevZero | DevRandom | DevTty | DevFd int

datatype node =
    Program nat string
  | Device device
  | Synth string
  | Mounted nat string string
  | VirtualDir string
  | VirtualLink string

record overlay =
  ov_programs :: "(string \<times> nat) list"
  ov_dirs :: "string list"

function insert_parents :: "string \<Rightarrow> string list \<Rightarrow> string list" where
  "insert_parents cursor dirs =
     (case rfind (CHR ''/'') cursor of
        None \<Rightarrow> dirs
      | Some i \<Rightarrow>
          let parent = take i cursor;
              dirs1 = insort_insert (if parent = [] then ''/'' else parent) dirs
          in if parent = [] then dirs1 else insert_parents parent dirs1)"
  by pat_completeness auto
termination
  by (relation "measure (\<lambda>(c, d). length c)") (auto dest: rfind_SomeD)

declare insert_parents.simps [simp del]

definition overlay_new :: "(string \<times> nat) list \<Rightarrow> overlay" where
  "overlay_new programs =
     \<lparr>ov_programs = programs,
      ov_dirs = fold (\<lambda>(path, _). insert_parents path) programs
        (fold insort_insert [''/'', ''/dev'', ''/proc'', ''/proc/self''] [])\<rparr>"

definition overlay_program :: "overlay \<Rightarrow> string \<Rightarrow> nat option" where
  "overlay_program ov guest = map_of (ov_programs ov) guest"

definition PROC_FILES :: "string list" where
  "PROC_FILES = [''cpuinfo'', ''meminfo'', ''uptime'', ''version'', ''mounts'', ''filesystems'',
     ''loadavg'', ''stat'']"

definition entries_in :: "overlay \<Rightarrow> string \<Rightarrow> (string \<times> file_type) list" where
  "entries_in ov guest =
     remdups_adj (sort (
       List.map_filter (\<lambda>(path, _). map_option (\<lambda>n. (n, File)) (child_name guest path)) (ov_programs ov) @
       List.map_filter (\<lambda>dir. map_option (\<lambda>n. (n, Dir)) (child_name guest dir)) (ov_dirs ov) @
       (if guest = ''/dev'' then
          map (\<lambda>n. (n, File)) [''null'', ''zero'', ''urandom'', ''random'', ''tty'', ''console'',
            ''stdin'', ''stdout'', ''stderr'']
        else if guest = ''/proc'' then map (\<lambda>n. (n, File)) PROC_FILES @ [(''self'', Dir)]
        else if guest = ''/proc/self'' then
          map (\<lambda>n. (n, File)) [''exe'', ''cwd'', ''cmdline'', ''comm'', ''stat'', ''fd'']
        else [])))"

definition overlay_is_dir :: "overlay \<Rightarrow> string \<Rightarrow> bool" where
  "overlay_is_dir ov guest \<longleftrightarrow> guest \<in> set (ov_dirs ov) \<or> guest = ''/proc/self/fd''"

section \<open>Normalizing\<close>

text \<open>One component of a path, folded into the components so far.\<close>

definition fold_part :: "string \<Rightarrow> string list \<Rightarrow> string list" where
  "fold_part c parts =
     (if c = [] \<or> c = ''.'' then parts
      else if c = ''..'' then butlast parts
      else parts @ [c])"

definition normalize :: "string \<Rightarrow> string \<Rightarrow> string list" where
  "normalize base path =
     fold fold_part (split_on (CHR ''/'') path)
       (if starts_with ''/'' path then [] else fold fold_part (split_on (CHR ''/'') base) [])"

definition join :: "string list \<Rightarrow> string" where
  "join parts = (if parts = [] then ''/'' else concat (map (\<lambda>p. CHR ''/'' # p) parts))"

section \<open>Resolving\<close>

record who =
  w_cwd :: string
  w_exe :: string
  w_pid :: int

record ('w, 'f) resolver =
  r_overlay :: overlay
  r_mounts :: "('w, 'f) mounts"

definition device_of :: "string \<Rightarrow> device option" where
  "device_of guest =
     (if guest = ''/dev/null'' then Some DevNull
      else if guest = ''/dev/zero'' then Some DevZero
      else if guest = ''/dev/urandom'' \<or> guest = ''/dev/random'' then Some DevRandom
      else if guest = ''/dev/tty'' \<or> guest = ''/dev/console'' then Some DevTty
      else None)"

definition is_mount_parent :: "('w, 'f) resolver \<Rightarrow> string \<Rightarrow> bool" where
  "is_mount_parent r guest \<longleftrightarrow> children_of (r_mounts r) guest \<noteq> []"

definition proc_node :: "who \<Rightarrow> string \<Rightarrow> node option" where
  "proc_node who guest =
     (case strip_prefix ''/proc/'' guest of
        None \<Rightarrow> None
      | Some rest0 \<Rightarrow>
          let rest1 = (case strip_prefix (show_int (w_pid who)) rest0 of
                         Some r \<Rightarrow> (case strip_prefix ''/'' r of Some r' \<Rightarrow> r' | None \<Rightarrow> rest0)
                       | None \<Rightarrow> rest0);
              rest = (case strip_prefix ''self/'' rest1 of Some r \<Rightarrow> r | None \<Rightarrow> rest1)
          in
          if rest = ''fd'' then Some (VirtualDir guest)
          else (case strip_prefix ''fd/'' rest of
              Some number \<Rightarrow> map_option (\<lambda>fd. Device (DevFd fd)) (parse_i32 number)
            | None \<Rightarrow>
                if rest \<in> set PROC_FILES \<or> rest \<in> set [''cmdline'', ''comm'', ''stat'', ''status''] then
                  Some (Synth guest)
                else if rest = [] \<or> rest = ''self'' then Some (VirtualDir guest)
                else None))"

definition virtual_link :: "who \<Rightarrow> string \<Rightarrow> string option" where
  "virtual_link who guest =
     (let own = ''/proc/'' @ show_int (w_pid who);
          tail = (case strip_prefix ''/proc/self'' guest of
                    Some r \<Rightarrow> Some r
                  | None \<Rightarrow> strip_prefix own guest)
      in
      if tail = Some ''/exe'' then Some (w_exe who)
      else if tail = Some ''/cwd'' then Some (w_cwd who)
      else if guest = ''/dev/stdin'' then Some ''/proc/self/fd/0''
      else if guest = ''/dev/stdout'' then Some ''/proc/self/fd/1''
      else if guest = ''/dev/stderr'' then Some ''/proc/self/fd/2''
      else None)"

definition symlink_target ::
  "('w, 'f) resolver \<Rightarrow> who \<Rightarrow> string \<Rightarrow> 'w \<Rightarrow> string option vfs_result \<times> 'w" where
  "symlink_target r who guest w =
     (case virtual_link who guest of
        Some target \<Rightarrow> (Inr (Some target), w)
      | None \<Rightarrow>
          if overlay_program (r_overlay r) guest \<noteq> None \<or> device_of guest \<noteq> None then (Inr None, w)
          else (case mounts_find (r_mounts r) guest of
              None \<Rightarrow> (Inr None, w)
            | Some (i, rel) \<Rightarrow>
                (case mounts_get (r_mounts r) i of
                   None \<Rightarrow> (Inr None, w)
                 | Some m \<Rightarrow>
                     if \<not> v_has_symlinks (mnt_vfs m) then (Inr None, w)
                     else (case v_stat (mnt_vfs m) rel False w of
                         (Inr st, w1) \<Rightarrow>
                           if st_type st = Symlink then
                             (case v_readlink (mnt_vfs m) rel w1 of
                                (Inr target, w2) \<Rightarrow> (Inr (Some target), w2)
                              | (Inl e, w2) \<Rightarrow> (if e = EAGAIN then Inl EAGAIN else Inr None, w2))
                           else (Inr None, w1)
                       | (Inl e, w1) \<Rightarrow> (if e = EAGAIN then Inl EAGAIN else Inr None, w1)))))"

definition classify_final ::
  "('w, 'f) resolver \<Rightarrow> who \<Rightarrow> string \<Rightarrow> 'w \<Rightarrow> node vfs_result \<times> 'w" where
  "classify_final r who guest w =
     (case overlay_program (r_overlay r) guest of
        Some i \<Rightarrow> (Inr (Program i guest), w)
      | None \<Rightarrow>
     (case device_of guest of
        Some d \<Rightarrow> (Inr (Device d), w)
      | None \<Rightarrow>
     (case proc_node who guest of
        Some n \<Rightarrow> (Inr n, w)
      | None \<Rightarrow>
     (case mounts_find (r_mounts r) guest of
        Some (i, rel) \<Rightarrow>
          if guest \<noteq> ''/'' \<and> overlay_is_dir (r_overlay r) guest then
            (case mounts_get (r_mounts r) i of
               Some m \<Rightarrow>
                 (case v_stat (mnt_vfs m) rel True w of
                    (Inr st, w1) \<Rightarrow>
                      (if st_type st = Dir then Inr (Mounted i rel guest) else Inr (VirtualDir guest), w1)
                  | (Inl e, w1) \<Rightarrow> (if e = EAGAIN then Inl EAGAIN else Inr (VirtualDir guest), w1))
             | None \<Rightarrow> (Inr (VirtualDir guest), w))
          else (Inr (Mounted i rel guest), w)
      | None \<Rightarrow>
          if overlay_is_dir (r_overlay r) guest \<or> is_mount_parent r guest then (Inr (VirtualDir guest), w)
          else (Inl ENOENT, w)))))"

function resolve_from ::
  "('w, 'f) resolver \<Rightarrow> who \<Rightarrow> bool \<Rightarrow> string list \<Rightarrow> nat \<Rightarrow> nat \<Rightarrow> 'w \<Rightarrow> node vfs_result \<times> 'w" where
  "resolve_from r who follow_last parts index hops w =
     (if length parts \<le> index then classify_final r who (join parts) w
      else
        let nxt = index + 1;
            here = join (take nxt parts);
            is_final = (length parts \<le> nxt)
        in
        if \<not> is_final \<or> follow_last then
          (case symlink_target r who here w of
             (Inl e, w1) \<Rightarrow> (Inl e, w1)
           | (Inr (Some target), w1) \<Rightarrow>
               if MAX_HOPS < hops + 1 then (Inl ELOOP, w1)
               else let tl' = drop nxt parts;
                        parent = join (take index parts);
                        rebuilt = (if starts_with ''/'' target then normalize ''/'' target
                                   else normalize parent target)
                    in resolve_from r who follow_last (rebuilt @ tl') 0 (hops + 1) w1
           | (Inr None, w1) \<Rightarrow> resolve_from r who follow_last parts nxt hops w1)
        else (case virtual_link who here of
            Some target \<Rightarrow> (Inr (VirtualLink target), w)
          | None \<Rightarrow> resolve_from r who follow_last parts nxt hops w))"
  by pat_completeness auto
termination
  by (relation "measures [\<lambda>(r, who, f, parts, i, hops, w). 41 - hops, \<lambda>(r, who, f, parts, i, hops, w). length parts - i]")
    auto

declare resolve_from.simps [simp del]

definition resolve ::
  "('w, 'f) resolver \<Rightarrow> who \<Rightarrow> string \<Rightarrow> string \<Rightarrow> bool \<Rightarrow> 'w \<Rightarrow> node vfs_result \<times> 'w" where
  "resolve r who base path follow_last w =
     (if MAX_STR < length path then (Inl ENAMETOOLONG, w)
      else resolve_from r who follow_last (normalize base path) 0 0 w)"

definition virtual_entries :: "('w, 'f) resolver \<Rightarrow> string \<Rightarrow> (string \<times> file_type) list" where
  "virtual_entries r guest =
     remdups_adj (sort (entries_in (r_overlay r) guest @
       map (\<lambda>n. (n, Dir)) (children_of (r_mounts r) guest)))"

section \<open>Normal paths\<close>

definition clean :: "string \<Rightarrow> bool" where
  "clean c \<longleftrightarrow> c \<noteq> [] \<and> c \<noteq> ''.'' \<and> c \<noteq> ''..'' \<and> CHR ''/'' \<notin> set c"

lemma fold_part_clean:
  assumes "\<forall>c \<in> set cs. CHR ''/'' \<notin> set c" "\<forall>c \<in> set ps. clean c"
  shows "\<forall>c \<in> set (fold fold_part cs ps). clean c"
  using assms
proof (induction cs arbitrary: ps)
  case Nil
  then show ?case by simp
next
  case (Cons c cs)
  have "\<forall>d \<in> set (fold_part c ps). clean d"
    using Cons.prems by (auto simp: fold_part_def clean_def dest: in_set_butlastD)
  with Cons show ?case by simp
qed

lemma fold_part_split_clean:
  assumes "\<forall>c \<in> set ps. clean c"
  shows "\<forall>c \<in> set (fold fold_part (split_on (CHR ''/'') s) ps). clean c"
  using assms by (intro fold_part_clean) (auto dest: split_on_no_sep)

lemma normalize_all_clean: "\<forall>c \<in> set (normalize base path). clean c"
  unfolding normalize_def using fold_part_split_clean [of "[]" base]
  by (intro fold_part_split_clean) (simp split: if_split)

lemma normalize_clean: "c \<in> set (normalize base path) \<Longrightarrow> clean c"
  using normalize_all_clean by blast

lemma fold_part_id: "\<forall>c \<in> set cs. clean c \<Longrightarrow> fold fold_part cs ps = ps @ cs"
  by (induction cs arbitrary: ps) (auto simp: fold_part_def clean_def)

lemma split_on_join_tail:
  "\<forall>c \<in> set ps. CHR ''/'' \<notin> set c \<Longrightarrow> CHR ''/'' \<notin> set p \<Longrightarrow>
   split_on (CHR ''/'') (p @ concat (map (\<lambda>p. CHR ''/'' # p) ps)) = p # ps"
  by (induction ps arbitrary: p) (auto simp: split_on_single split_on_append_sep)

lemma split_on_join:
  "\<forall>c \<in> set ps. CHR ''/'' \<notin> set c \<Longrightarrow> ps \<noteq> [] \<Longrightarrow> split_on (CHR ''/'') (join ps) = [] # ps"
  using split_on_join_tail [of ps "[]"] by (simp add: join_def)

lemma join_Nil [simp]: "join [] = ''/''"
  by (simp add: join_def)

lemma join_starts: "\<exists>r. join ps = CHR ''/'' # r"
  by (cases ps) (auto simp: join_def)

lemma normalize_join:
  assumes "\<forall>c \<in> set ps. clean c"
  shows "normalize base (join ps) = ps"
proof (cases "ps = []")
  case True
  then show ?thesis by (simp add: normalize_def fold_part_def)
next
  case False
  have "\<forall>c \<in> set ps. CHR ''/'' \<notin> set c" using assms by (auto simp: clean_def)
  then have "split_on (CHR ''/'') (join ps) = [] # ps" using False by (rule split_on_join)
  moreover have "fold_part [] qs = qs" for qs by (simp add: fold_part_def)
  ultimately show ?thesis
    using join_starts [of ps] fold_part_id [OF assms, of "[]"] by (simp add: normalize_def)
qed

lemma join_inj: "\<forall>c \<in> set ps. clean c \<Longrightarrow> \<forall>c \<in> set qs. clean c \<Longrightarrow> join ps = join qs \<Longrightarrow> ps = qs"
  by (metis normalize_join)

text \<open>
  What follows a normalized mount point in a normalized path is the normalized path of the
  remaining components.
\<close>

lemma join_append: "ps \<noteq> [] \<Longrightarrow> qs \<noteq> [] \<Longrightarrow> join (ps @ qs) = join ps @ join qs"
  by (simp add: join_def)

lemma split_on_append: "split_on c (xs @ c # ys) = split_on c xs @ split_on c ys"
proof (induction xs)
  case Nil
  then show ?case by simp
next
  case (Cons x xs)
  obtain y zs where "split_on c xs = y # zs" by (cases "split_on c xs") simp_all
  with Cons show ?case by simp
qed

lemma join_split:
  assumes "\<forall>c \<in> set ps. clean c" "\<forall>c \<in> set qs. clean c" "ps \<noteq> []" "join qs = join ps @ CHR ''/'' # rest"
  shows "\<exists>rs. qs = ps @ rs \<and> rs \<noteq> [] \<and> CHR ''/'' # rest = join rs"
proof -
  have ns: "\<forall>c \<in> set ps. CHR ''/'' \<notin> set c" "\<forall>c \<in> set qs. CHR ''/'' \<notin> set c"
    using assms(1,2) by (auto simp: clean_def)
  have "length (join qs) \<noteq> 1"
    using assms(4) join_starts [of ps] by auto
  then have q: "qs \<noteq> []" by (auto simp: join_def)
  have "[] # qs = ([] # ps) @ split_on (CHR ''/'') rest"
    using split_on_join [OF ns(2) q] split_on_join [OF ns(1) assms(3)] assms(4)
    by (simp add: split_on_append)
  then obtain rs where rs: "qs = ps @ rs" "rs = split_on (CHR ''/'') rest" by simp
  then have "rs \<noteq> []" by simp
  then have "join qs = join ps @ join rs" using rs assms(3) by (simp add: join_append)
  then show ?thesis using rs \<open>rs \<noteq> []\<close> assms(4) by auto
qed

section \<open>Which mount owns a path\<close>

definition covers :: "string \<Rightarrow> string \<Rightarrow> bool" where
  "covers at guest \<longleftrightarrow> at = ''/'' \<or> guest = at \<or> (\<exists>r. guest = at @ CHR ''/'' # r)"

lemma mounts_find_from_spec:
  "case mounts_find_from k ms guest of
     Some (i, rel) \<Rightarrow> k \<le> i \<and> i < k + length ms \<and> covers (mnt_at (ms ! (i - k))) guest
        \<and> (\<forall>j < i - k. \<not> covers (mnt_at (ms ! j)) guest)
        \<and> (if mnt_at (ms ! (i - k)) = ''/'' then rel = guest
           else if guest = mnt_at (ms ! (i - k)) then rel = ''/''
           else guest = mnt_at (ms ! (i - k)) @ rel \<and> (\<exists>r. rel = CHR ''/'' # r))
   | None \<Rightarrow> \<forall>m \<in> set ms. \<not> covers (mnt_at m) guest"
proof (induction ms arbitrary: k)
  case Nil
  then show ?case by simp
next
  case (Cons m ms)
  show ?case
  proof (cases "covers (mnt_at m) guest")
    case True
    have "mounts_find_from k (m # ms) guest = Some (k,
        if mnt_at m = ''/'' then guest else if guest = mnt_at m then ''/'' else drop (length (mnt_at m)) guest)"
      using True strip_prefix_append [of "mnt_at m" "[]"] by (auto simp: covers_def)
    with True show ?thesis by (auto simp: covers_def)
  next
    case False
    then have rec: "mounts_find_from k (m # ms) guest = mounts_find_from (k + 1) ms guest"
      by (auto simp: covers_def strip_prefix_Some_iff split: option.splits)
    show ?thesis
    proof (cases "mounts_find_from (k + 1) ms guest")
      case None
      with Cons [of "k + 1"] False rec show ?thesis by simp
    next
      case (Some p)
      obtain i rel where p: "p = (i, rel)" by (cases p)
      have IH: "k + 1 \<le> i \<and> i < k + 1 + length ms \<and> covers (mnt_at (ms ! (i - (k + 1)))) guest
        \<and> (\<forall>j < i - (k + 1). \<not> covers (mnt_at (ms ! j)) guest)
        \<and> (if mnt_at (ms ! (i - (k + 1))) = ''/'' then rel = guest
           else if guest = mnt_at (ms ! (i - (k + 1))) then rel = ''/''
           else guest = mnt_at (ms ! (i - (k + 1))) @ rel \<and> (\<exists>r. rel = CHR ''/'' # r))"
        using Cons [of "k + 1"] unfolding Some p option.case prod.case .
      then have e: "(m # ms) ! (i - k) = ms ! (i - (k + 1))" by (simp add: nth_Cons')
      have "\<not> covers (mnt_at ((m # ms) ! j)) guest" if "j < i - k" for j
        using that IH False by (cases j) auto
      moreover have "k \<le> i" "i < k + length (m # ms)" using IH by auto
      ultimately show ?thesis unfolding rec Some p option.case prod.case e
        by (intro conjI) (use IH in \<open>(elim conjE, assumption | blast)+\<close>)
    qed
  qed
qed

lemma mounts_find_SomeD:
  assumes "mounts_find ms guest = Some (i, rel)"
  shows "i < length ms" "covers (mnt_at (ms ! i)) guest" "\<And>j. j < i \<Longrightarrow> \<not> covers (mnt_at (ms ! j)) guest"
    "mnt_at (ms ! i) = ''/'' \<Longrightarrow> rel = guest"
    "mnt_at (ms ! i) \<noteq> ''/'' \<Longrightarrow> guest = mnt_at (ms ! i) \<Longrightarrow> rel = ''/''"
    "mnt_at (ms ! i) \<noteq> ''/'' \<Longrightarrow> guest \<noteq> mnt_at (ms ! i) \<Longrightarrow>
       guest = mnt_at (ms ! i) @ rel \<and> (\<exists>r. rel = CHR ''/'' # r)"
  using mounts_find_from_spec [where k = 0 and ms = ms and guest = guest] assms by (auto simp: mounts_find_def split: if_splits)

lemma mounts_find_None_iff: "mounts_find ms guest = None \<longleftrightarrow> (\<forall>m \<in> set ms. \<not> covers (mnt_at m) guest)"
proof (cases "mounts_find ms guest")
  case None
  then show ?thesis
    using mounts_find_from_spec [where k = 0 and ms = ms and guest = guest] by (simp add: mounts_find_def)
next
  case (Some p)
  obtain i rel where p: "p = (i, rel)" by (cases p)
  have "ms ! i \<in> set ms" "covers (mnt_at (ms ! i)) guest"
    using mounts_find_SomeD(1,2) [of ms guest i rel] Some p by simp_all
  then show ?thesis using Some by auto
qed

text \<open>The table is ordered, so the first match is a longest one.\<close>

lemma mounts_new_set [simp]: "set (mounts_new l) = set l"
  by (simp add: mounts_new_def)

lemma mounts_find_longest:
  assumes "mounts_find (mounts_new l) guest = Some (i, rel)" "m \<in> set l" "covers (mnt_at m) guest"
  shows "length (mnt_at m) \<le> length (mnt_at (mounts_new l ! i))"
proof -
  obtain j where j: "j < length (mounts_new l)" "mounts_new l ! j = m"
    using assms(2) by (metis in_set_conv_nth mounts_new_set)
  have ij: "i \<le> j" using mounts_find_SomeD(3) [OF assms(1), of j] j assms(3) by fastforce
  have "sorted (map (\<lambda>m. - int (length (mnt_at m))) (mounts_new l))"
    by (simp add: mounts_new_def)
  then have "map (\<lambda>m. - int (length (mnt_at m))) (mounts_new l) ! i
      \<le> map (\<lambda>m. - int (length (mnt_at m))) (mounts_new l) ! j"
    using ij j by (intro sorted_nth_mono) simp_all
  then show ?thesis using ij j by simp
qed

section \<open>What a resolution returns\<close>

lemma proc_cases:
  assumes "(case y of None \<Rightarrow> None | Some r \<Rightarrow>
      if A r then Some (VirtualDir g)
      else (case X r of Some k \<Rightarrow> map_option (\<lambda>fd. Device (DevFd fd)) (F k)
        | None \<Rightarrow> if B r then Some (Synth g) else if C r then Some (VirtualDir g) else None)) = Some n"
  shows "n = Synth g \<or> n = VirtualDir g \<or> (\<exists>fd. n = Device (DevFd fd))"
  using assms by (auto split: option.splits if_splits)

lemma proc_node_cases:
  assumes "proc_node who guest = Some n"
  shows "n = Synth guest \<or> n = VirtualDir guest \<or> (\<exists>fd. n = Device (DevFd fd))"
  using assms unfolding proc_node_def Let_def by (rule proc_cases)

lemma classify_final_cases:
  "case fst (classify_final r who guest w) of
     Inl e \<Rightarrow> e = EAGAIN \<or> e = ENOENT
   | Inr n \<Rightarrow> (\<exists>i. n = Program i guest) \<or> (\<exists>d. n = Device d) \<or> n = Synth guest \<or> n = VirtualDir guest
       \<or> (\<exists>i rel. n = Mounted i rel guest \<and> mounts_find (r_mounts r) guest = Some (i, rel))"
  by (auto simp: classify_final_def dest!: proc_node_cases split: option.splits prod.splits sum.splits)

lemma classify_final_Mounted:
  assumes "classify_final r who guest w = (Inr (Mounted i rel g), w')"
  shows "g = guest \<and> mounts_find (r_mounts r) guest = Some (i, rel)"
  using classify_final_cases [where r = r and who = who and guest = guest and w = w] assms by auto

lemma classify_final_not_link: "classify_final r who guest w \<noteq> (Inr (VirtualLink t), w')"
  using classify_final_cases [where r = r and who = who and guest = guest and w = w] by auto

text \<open>
  One induction over the walk: a property \<open>Q\<close> of the outcome that the five ways out of the
  loop establish, under an invariant \<open>I\<close> of the world that reading links preserves.
\<close>

lemma resolve_from_rule:
  assumes final: "\<And>ps w. \<forall>c \<in> set ps. clean c \<Longrightarrow> I w \<Longrightarrow> Q (classify_final r who (join ps) w)"
    and link: "\<And>here w x w1. I w \<Longrightarrow> symlink_target r who here w = (x, w1) \<Longrightarrow>
      I w1 \<and> (\<forall>e. x = Inl e \<longrightarrow> Q (Inl e, w1))"
    and loop: "\<And>w. I w \<Longrightarrow> Q (Inl ELOOP, w)"
    and virt: "\<And>here t w. I w \<Longrightarrow> \<not> f \<Longrightarrow> virtual_link who here = Some t \<Longrightarrow> Q (Inr (VirtualLink t), w)"
    and "I w" "\<forall>c \<in> set parts. clean c"
  shows "Q (resolve_from r who f parts index hops w)"
  using assms
proof (induction r who f parts index hops w rule: resolve_from.induct)
  case (1 r who f parts index hops w)
  note eq = resolve_from.simps [of r who f parts index hops w]
  note final = "1.prems"(1) and link = "1.prems"(2) and loop = "1.prems"(3) and virt = "1.prems"(4)
  note I = "1.prems"(5) and cl = "1.prems"(6)
  show ?case
  proof (cases "length parts \<le> index")
    case True
    then have "resolve_from r who f parts index hops w = classify_final r who (join parts) w"
      by (simp add: eq)
    with final [OF cl I] show ?thesis by simp
  next
    case False
    show ?thesis
    proof (cases "\<not> length parts \<le> index + 1 \<or> f")
      case True
      obtain x w1 where st: "symlink_target r who (join (take (index + 1) parts)) w = (x, w1)" by fastforce
      note L = link [OF I st]
      show ?thesis
      proof (cases x)
        case (Inl e)
        then have "resolve_from r who f parts index hops w = (Inl e, w1)"
          using False True st by (auto simp: eq Let_def)
        with L Inl show ?thesis by simp
      next
        case (Inr y)
        show ?thesis
        proof (cases y)
          case None
          have rec: "resolve_from r who f parts index hops w = resolve_from r who f parts (index + 1) hops w1"
            using False True st Inr None by (auto simp: eq Let_def)
          show ?thesis unfolding rec
            by (rule "1.IH"(1) [OF False refl refl refl True st [symmetric] Inr None final link loop virt])
              (use L cl in simp_all)
        next
          case (Some t)
          show ?thesis
          proof (cases "MAX_HOPS < hops + 1")
            case h: True
            then have "resolve_from r who f parts index hops w = (Inl ELOOP, w1)"
              using False True st Inr Some by (auto simp: eq Let_def)
            with L loop show ?thesis by simp
          next
            case h: False
            define rb where "rb = (if starts_with ''/'' t then normalize ''/'' t
              else normalize (join (take index parts)) t)"
            have rec: "resolve_from r who f parts index hops w =
                resolve_from r who f (rb @ drop (index + 1) parts) 0 (hops + 1) w1"
              using False True st Inr Some h by (auto simp: eq Let_def rb_def)
            have "\<forall>c \<in> set (rb @ drop (index + 1) parts). clean c"
              using cl by (auto simp: rb_def dest: normalize_clean in_set_dropD split: if_splits)
            then show ?thesis unfolding rec
              by (intro "1.IH"(2) [OF False refl refl refl True st [symmetric] Inr Some h refl refl rb_def
                    final link loop virt]) (use L in simp_all)
          qed
        qed
      qed
    next
      case nf: False
      show ?thesis
      proof (cases "virtual_link who (join (take (index + 1) parts))")
        case None
        have rec: "resolve_from r who f parts index hops w = resolve_from r who f parts (index + 1) hops w"
          unfolding eq using False nf None by simp
        show ?thesis unfolding rec
          by (rule "1.IH"(3) [OF False refl refl refl nf None final link loop virt]) (use I cl in simp_all)
      next
        case (Some t)
        then have "resolve_from r who f parts index hops w = (Inr (VirtualLink t), w)"
          unfolding eq using False nf by simp
        with virt I nf Some show ?thesis by simp
      qed
    qed
  qed
qed

lemma resolve_rule:
  assumes "\<And>ps w. \<forall>c \<in> set ps. clean c \<Longrightarrow> I w \<Longrightarrow> Q (classify_final r who (join ps) w)"
    and "\<And>here w x w1. I w \<Longrightarrow> symlink_target r who here w = (x, w1) \<Longrightarrow>
      I w1 \<and> (\<forall>e. x = Inl e \<longrightarrow> Q (Inl e, w1))"
    and "\<And>w. I w \<Longrightarrow> Q (Inl ELOOP, w)" "\<And>w. I w \<Longrightarrow> Q (Inl ENAMETOOLONG, w)"
    and "\<And>here t w. I w \<Longrightarrow> \<not> f \<Longrightarrow> virtual_link who here = Some t \<Longrightarrow> Q (Inr (VirtualLink t), w)"
    and "I w"
  shows "Q (resolve r who base path f w)"
proof (cases "MAX_STR < length path")
  case True
  then show ?thesis using assms(4,6) by (simp add: resolve_def)
next
  case False
  have "Q (resolve_from r who f (normalize base path) 0 0 w)"
    by (rule resolve_from_rule [where I = I]) (use assms normalize_clean in auto)
  then show ?thesis using False by (simp add: resolve_def)
qed

lemma resolve_Mounted:
  assumes "resolve r who base path f w = (Inr (Mounted i rel g), w')"
  shows "\<exists>ps. (\<forall>c \<in> set ps. clean c) \<and> g = join ps \<and> mounts_find (r_mounts r) g = Some (i, rel)"
proof -
  let ?Q = "\<lambda>(x, w'). \<forall>i rel g. x = Inr (Mounted i rel g) \<longrightarrow>
    (\<exists>ps. (\<forall>c \<in> set ps. clean c) \<and> g = join ps \<and> mounts_find (r_mounts r) g = Some (i, rel))"
  have "?Q (resolve r who base path f w)"
    by (rule resolve_rule [where I = "\<lambda>_. True"]) (auto dest!: classify_final_Mounted)
  with assms show ?thesis by auto
qed

lemma resolve_follow_not_link: "resolve r who base path True w \<noteq> (Inr (VirtualLink t), w')"
proof -
  let ?Q = "\<lambda>(x, w'). x \<noteq> Inr (VirtualLink t)"
  have "?Q (resolve r who base path True w)"
  proof (rule resolve_rule [where I = "\<lambda>_. True"])
    show "case classify_final r who (join ps) w of (x, w') \<Rightarrow> x \<noteq> Inr (VirtualLink t)" for ps w
      using classify_final_not_link [of r who "join ps" w t] by (cases "classify_final r who (join ps) w") auto
  qed simp_all
  then show ?thesis by auto
qed

section \<open>Resolving only looks\<close>

text \<open>
  A resolution touches the world only through \<open>stat\<close> and \<open>readlink\<close> of the mounts, so any
  reflexive and transitive relation these respect relates the worlds before and after it.
\<close>

definition looks :: "('w \<Rightarrow> 'w \<Rightarrow> bool) \<Rightarrow> ('w, 'f) mounts \<Rightarrow> bool" where
  "looks R ms \<longleftrightarrow> (\<forall>i m p b w. mounts_get ms i = Some m \<longrightarrow>
     R w (snd (v_stat (mnt_vfs m) p b w)) \<and> R w (snd (v_readlink (mnt_vfs m) p w)))"

lemma looksD:
  assumes "looks R ms" "mounts_get ms i = Some m"
  shows "v_stat (mnt_vfs m) p b w = (x, w1) \<Longrightarrow> R w w1" "v_readlink (mnt_vfs m) p w = (y, w1) \<Longrightarrow> R w w1"
  using assms unfolding looks_def by (metis snd_conv)+

lemma symlink_target_rel:
  assumes "reflp R" "transp R" "looks R (r_mounts r)" "symlink_target r who here w = (x, w1)"
  shows "R w w1"
  using assms(4) reflpD [OF assms(1)]
  by (auto simp: symlink_target_def split: option.splits prod.splits sum.splits if_splits
      dest: looksD [OF assms(3)] intro: transpD [OF assms(2)])

lemma classify_final_rel:
  assumes "reflp R" "looks R (r_mounts r)"
  shows "R w (snd (classify_final r who g w))"
  using reflpD [OF assms(1)]
  by (auto simp: classify_final_def split: option.splits prod.splits sum.splits if_splits
      dest: looksD [OF assms(2)])

lemma resolve_rel:
  assumes "reflp R" "transp R" "looks R (r_mounts r)"
  shows "R w (snd (resolve r who base path f w))"
proof (rule resolve_rule [where I = "R w" and Q = "\<lambda>p. R w (snd p)"])
  show "R w (snd (classify_final r who (join ps) w'))" if "R w w'" for ps w'
    using classify_final_rel [OF assms(1,3)] that by (blast intro: transpD [OF assms(2)])
  show "R w w1 \<and> (\<forall>e. x = Inl e \<longrightarrow> R w (snd (Inl e, w1)))"
    if "R w w'" "symlink_target r who here w' = (x, w1)" for here w' x w1
    using symlink_target_rel [OF assms that(2)] that(1) by (auto intro: transpD [OF assms(2)])
qed (use reflpD [OF assms(1)] in simp_all)

section \<open>Symbolic links terminate\<close>

text \<open>
  Following links, one at a time.  The first link along a path is replaced by its target, from the root or
  from the directory the link is in; the components before it are none, and what is left of the path stays.
  Looking at a link must not change the world for the steps to be a relation on paths.
\<close>

definition no_link :: "('w, 'f) resolver \<Rightarrow> who \<Rightarrow> 'w \<Rightarrow> string list \<Rightarrow> bool" where
  "no_link r who w ps \<longleftrightarrow> symlink_target r who (join ps) w = (Inr None, w)"

definition link_step :: "('w, 'f) resolver \<Rightarrow> who \<Rightarrow> 'w \<Rightarrow> string list \<Rightarrow> string list \<Rightarrow> bool" where
  "link_step r who w ps qs \<longleftrightarrow>
     (\<exists>k target. k < length ps \<and> (\<forall>n. 0 < n \<and> n \<le> k \<longrightarrow> no_link r who w (take n ps)) \<and>
        symlink_target r who (join (take (Suc k) ps)) w = (Inr (Some target), w) \<and>
        qs = normalize (if starts_with ''/'' target then ''/'' else join (take k ps)) target @ drop (Suc k) ps)"

definition link_free :: "('w, 'f) resolver \<Rightarrow> who \<Rightarrow> 'w \<Rightarrow> string list \<Rightarrow> bool" where
  "link_free r who w ps \<longleftrightarrow> (\<forall>n. 0 < n \<and> n \<le> length ps \<longrightarrow> no_link r who w (take n ps))"

lemma resolve_from_skip:
  assumes "\<forall>n. 0 < n \<and> n \<le> k \<longrightarrow> no_link r who w (take n ps)" "k \<le> length ps" "index \<le> k"
  shows "resolve_from r who True ps index hops w = resolve_from r who True ps k hops w"
  using assms(3)
proof (induction "k - index" arbitrary: index)
  case (Suc n)
  then have "symlink_target r who (join (take (index + 1) ps)) w = (Inr None, w)"
    using assms(1) by (simp add: no_link_def)
  moreover have "\<not> length ps \<le> index" using Suc(2) assms(2) by linarith
  ultimately have "resolve_from r who True ps index hops w = resolve_from r who True ps (index + 1) hops w"
    by (subst resolve_from.simps) (simp only: Let_def if_False simp_thms if_True prod.case sum.case option.case)
  also have "\<dots> = resolve_from r who True ps k hops w" using Suc(2) by (intro Suc(1)) simp_all
  finally show ?case .
qed simp

lemma resolve_from_link_free:
  assumes "link_free r who w ps"
  shows "resolve_from r who True ps 0 hops w = classify_final r who (join ps) w"
  using resolve_from_skip [of "length ps" r who w ps 0 hops] assms
  by (simp add: link_free_def resolve_from.simps [of r who True ps "length ps" hops w])

lemma resolve_from_link_step:
  assumes "link_step r who w ps qs"
  shows "resolve_from r who True ps 0 hops w =
    (if MAX_HOPS < hops + 1 then (Inl ELOOP, w) else resolve_from r who True qs 0 (hops + 1) w)"
proof -
  obtain k target where k: "k < length ps" "\<forall>n. 0 < n \<and> n \<le> k \<longrightarrow> no_link r who w (take n ps)"
    and t: "symlink_target r who (join (take (Suc k) ps)) w = (Inr (Some target), w)"
    and qs: "qs = normalize (if starts_with ''/'' target then ''/'' else join (take k ps)) target @ drop (Suc k) ps"
    using assms unfolding link_step_def by blast
  have "resolve_from r who True ps 0 hops w = resolve_from r who True ps k hops w"
    by (rule resolve_from_skip [OF k(2)]) (use k(1) in simp_all)
  also have "\<dots> = (if MAX_HOPS < hops + 1 then (Inl ELOOP, w) else resolve_from r who True qs 0 (hops + 1) w)"
  proof -
    have "\<not> length ps \<le> k" "symlink_target r who (join (take (k + 1) ps)) w = (Inr (Some target), w)" using k(1) t by simp_all
    moreover have "qs = (if starts_with ''/'' target then normalize ''/'' target else normalize (join (take k ps)) target) @
        drop (k + 1) ps"
      by (simp only: qs Suc_eq_plus1 split: if_split) simp
    ultimately show ?thesis
      by (subst resolve_from.simps) (simp only: Let_def if_False simp_thms if_True prod.case sum.case option.case)
  qed
  finally show ?thesis .
qed

lemma resolve_from_link_steps:
  assumes "(link_step r who w ^^ n) ps qs" "hops \<le> MAX_HOPS"
  shows "resolve_from r who True ps 0 hops w =
    (if MAX_HOPS < hops + n then (Inl ELOOP, w) else resolve_from r who True qs 0 (hops + n) w)"
  using assms
proof (induction n arbitrary: ps hops)
  case (Suc n)
  then obtain ms where m: "link_step r who w ps ms" "(link_step r who w ^^ n) ms qs"
    by (metis relpowp_Suc_D2)
  show ?case
  proof (cases "hops + 1 \<le> MAX_HOPS")
    case True
    then show ?thesis using Suc.IH [OF m(2) True] resolve_from_link_step [OF m(1), of hops] by simp
  next
    case False
    then show ?thesis using resolve_from_link_step [OF m(1), of hops] by simp
  qed
qed simp

section \<open>Properties\<close>

text \<open>The path below a normalized mount point that owns it.\<close>

lemma mounts_find_relative:
  assumes "mounts_find ms (join qs) = Some (i, rel)" "\<forall>c \<in> set qs. clean c"
    "mnt_at (ms ! i) = join ps" "\<forall>c \<in> set ps. clean c"
  shows "\<exists>rs. qs = ps @ rs \<and> rel = join rs"
proof -
  note f = mounts_find_SomeD [OF assms(1)]
  consider "ps = []" | "ps \<noteq> []" "join qs = join ps" | "ps \<noteq> []" "join qs \<noteq> join ps" by blast
  then show ?thesis
  proof cases
    case 1
    then show ?thesis using f(4) assms(3) by simp
  next
    case 2
    then have "qs = ps" using join_inj [OF assms(2,4)] by simp
    moreover have "join ps \<noteq> ''/''" using 2(1) assms(4) join_inj [of ps "[]"] by auto
    ultimately show ?thesis using f(5) 2 assms(3) by (intro exI [of _ "[]"]) simp
  next
    case 3
    have "join ps \<noteq> ''/''" using 3(1) assms(4) join_inj [of ps "[]"] by auto
    then obtain r where "join qs = join ps @ rel" "rel = CHR ''/'' # r" using f(6) 3 assms(3) by auto
    then show ?thesis using join_split [OF assms(4,2) 3(1)] by auto
  qed
qed

text \<open>
  C8: a guest cannot name anything outside its mounts.  Whatever path a process gives, with
  whatever dots and symbolic links, a resolution that ends in a mount ends below that mount's
  point: the guest path is the mount point followed by the components handed to the
  filesystem, none of them is empty, \<open>.\<close> or \<open>..\<close> or holds a slash, and no other mount point
  that covers the path is longer.  The mount points are normalized, which the builder sees to.
\<close>

theorem resolve_isolated:
  assumes "\<forall>m \<in> set l. \<exists>ps. (\<forall>c \<in> set ps. clean c) \<and> mnt_at m = join ps"
    and "r_mounts r = mounts_new l"
    and "resolve r who base path follow w = (Inr (Mounted i rel guest), w')"
  shows "\<exists>m ps rs. mounts_get (r_mounts r) i = Some m \<and> m \<in> set l \<and>
    (\<forall>c \<in> set (ps @ rs). clean c) \<and> mnt_at m = join ps \<and> rel = join rs \<and> guest = join (ps @ rs) \<and>
    (\<forall>m' \<in> set l. covers (mnt_at m') guest \<longrightarrow> length (mnt_at m') \<le> length (mnt_at m))"
proof -
  obtain qs where qs: "\<forall>c \<in> set qs. clean c" "guest = join qs" "mounts_find (r_mounts r) (join qs) = Some (i, rel)"
    using resolve_Mounted [OF assms(3)] by auto
  define m where "m = r_mounts r ! i"
  have i: "i < length (r_mounts r)" using mounts_find_SomeD(1) [OF qs(3)] .
  then have m: "m \<in> set l" using assms(2) by (metis m_def mounts_new_set nth_mem)
  obtain ps where ps: "\<forall>c \<in> set ps. clean c" "mnt_at m = join ps" using assms(1) m by blast
  obtain rs where rs: "qs = ps @ rs" "rel = join rs"
    using mounts_find_relative [OF qs(3,1)] ps by (auto simp: m_def)
  have "length (mnt_at m') \<le> length (mnt_at m)" if "m' \<in> set l" "covers (mnt_at m') guest" for m'
    using mounts_find_longest [of l guest i rel m'] that qs assms(2) by (simp add: m_def)
  then show ?thesis using i m ps rs qs
    by (intro exI [of _ m] exI [of _ ps] exI [of _ rs]) (auto simp: mounts_get_def get_at_def m_def)
qed

definition no_files :: "(unit, unit) file_ops" where
  "no_files = \<lparr>fo_read = (\<lambda>b f w. (Inr 0, b, f, w)), fo_write = (\<lambda>b f w. (Inr 0, f, w)),
     fo_seek = (\<lambda>p f w. (Inr 0, f, w)), fo_stat = (\<lambda>f w. (Inr (stat_file 0), w)),
     fo_set_len = (\<lambda>n f w. (Inr (), f, w)), fo_close = (\<lambda>f w. (Inr (), f, w))\<rparr>"

definition example_mounts :: "(unit, unit) mount list" where
  "example_mounts =
     [\<lparr>mnt_at = ''/'', mnt_vfs = empty_vfs no_files, mnt_read_only = True\<rparr>,
      \<lparr>mnt_at = ''/work'', mnt_vfs = empty_vfs no_files, mnt_read_only = False\<rparr>]"

definition example_resolver :: "(unit, unit) resolver" where
  "example_resolver = \<lparr>r_overlay = overlay_new [(''/bin/sh'', 0)], r_mounts = mounts_new example_mounts\<rparr>"

definition example_who :: who where
  "example_who = \<lparr>w_cwd = ''/work/src'', w_exe = ''/bin/sh'', w_pid = 7\<rparr>"

lemma resolve_isolated_witness:
  "resolve example_resolver example_who ''/work/src'' ''../../../work/./a//b'' True () =
     (Inr (Mounted 0 ''/a/b'' ''/work/a/b''), ()) \<and>
   (\<exists>m ps rs. mounts_get (r_mounts example_resolver) 0 = Some m \<and> m \<in> set example_mounts \<and>
    (\<forall>c \<in> set (ps @ rs). clean c) \<and> mnt_at m = join ps \<and> ''/a/b'' = join rs \<and> ''/work/a/b'' = join (ps @ rs) \<and>
    (\<forall>m' \<in> set example_mounts. covers (mnt_at m') ''/work/a/b'' \<longrightarrow> length (mnt_at m') \<le> length (mnt_at m)))"
proof -
  have r: "resolve example_resolver example_who ''/work/src'' ''../../../work/./a//b'' True () =
     (Inr (Mounted 0 ''/a/b'' ''/work/a/b''), ())" by code_simp
  have m: "\<forall>m \<in> set example_mounts. \<exists>ps. (\<forall>c \<in> set ps. clean c) \<and> mnt_at m = join ps"
  proof -
    have "''/'' = join [] \<and> ''/work'' = join [''work''] \<and> clean ''work''" by code_simp
    then show ?thesis unfolding example_mounts_def by (auto intro: exI [of _ "[]"] exI [of _ "[''work'']"])
  qed
  show ?thesis
    using r resolve_isolated [OF m _ r] by (simp add: example_resolver_def)
qed

text \<open>
  C29: symbolic links are followed to their end, and a walk through too many of them is given up.  A path
  that leads in \<open>n\<close> steps (each replaces the first link along it by its target, relative or absolute, and keeps
  the rest) to one without links resolves to what that one names when \<open>n\<close> is at most 40; from the forty-first
  link on it ends in \<open>ELOOP\<close>, whether the chain would end or links lead in a circle.
\<close>

theorem resolve_chain:
  assumes "length path \<le> MAX_STR" "(link_step r who w ^^ n) (normalize base path) ps"
  shows "(n \<le> 40 \<and> link_free r who w ps \<longrightarrow> resolve r who base path True w = classify_final r who (join ps) w) \<and>
    (40 < n \<longrightarrow> resolve r who base path True w = (Inl ELOOP, w))"
  using resolve_from_link_steps [OF assms(2), of 0] resolve_from_link_free [of r who w ps n] assms(1)
  by (auto simp: resolve_def)

text \<open>Links \<open>/a\<close> to \<open>/aa\<close>, \<open>/aa\<close> to \<open>/aaa\<close> and so on, \<open>m\<close> of them, and a file after the last.\<close>

definition chain_name :: "nat \<Rightarrow> string" where
  "chain_name k = replicate (Suc k) (CHR ''a'')"

definition chain_fs :: "nat \<Rightarrow> (unit, unit) vfs" where
  "chain_fs m = (empty_vfs no_files)\<lparr>v_has_symlinks := True,
     v_stat := (\<lambda>p b w. (if \<exists>k < m. p = join [chain_name k] then Inr (stat_symlink 1) else Inr (stat_file 1), w)),
     v_readlink := (\<lambda>p w. (Inr (tl p @ ''a''), w))\<rparr>"

definition chain_resolver :: "nat \<Rightarrow> (unit, unit) resolver" where
  "chain_resolver m = \<lparr>r_overlay = overlay_new [],
     r_mounts = [\<lparr>mnt_at = ''/'', mnt_vfs = chain_fs m, mnt_read_only = True\<rparr>]\<rparr>"

lemma chain_name_clean [simp]: "clean (chain_name k)"
  by (auto simp: clean_def chain_name_def)

lemma chain_name_inj [simp]: "chain_name j = chain_name k \<longleftrightarrow> j = k"
  by (metis Suc_inject chain_name_def length_replicate)

lemma chain_name_join: "join [chain_name k] = CHR ''/'' # CHR ''a'' # replicate k (CHR ''a'')"
  by (simp add: join_def chain_name_def)

lemma chain_plain:
  "virtual_link example_who (join [chain_name k]) = None" "device_of (join [chain_name k]) = None"
  "overlay_program (overlay_new []) (join [chain_name k]) = None"
  "mounts_find (r_mounts (chain_resolver m)) (join [chain_name k]) = Some (0, join [chain_name k])"
  unfolding chain_name_join
  by (simp_all add: virtual_link_def device_of_def example_who_def overlay_new_def overlay_program_def Let_def
      show_int_def chain_resolver_def mounts_find_def)

lemma chain_target:
  "symlink_target (chain_resolver m) example_who (join [chain_name k]) () =
     (Inr (if k < m then Some (chain_name (Suc k)) else None), ())"
proof -
  have same: "join [chain_name k] = join [chain_name j] \<longleftrightarrow> k = j" for j by (auto simp: join_def)
  have grow: "tl (join [chain_name k]) @ ''a'' = chain_name (Suc k)"
    by (simp add: join_def chain_name_def flip: replicate_append_same)
  have "mounts_get (r_mounts (chain_resolver m)) 0 = Some \<lparr>mnt_at = ''/'', mnt_vfs = chain_fs m, mnt_read_only = True\<rparr>"
    "r_overlay (chain_resolver m) = overlay_new []"
    by (simp_all add: chain_resolver_def mounts_get_def get_at_def)
  moreover have "v_has_symlinks (chain_fs m)"
    "v_stat (chain_fs m) (join [chain_name k]) False () = (Inr (if k < m then stat_symlink 1 else stat_file 1), ())"
    "v_readlink (chain_fs m) (join [chain_name k]) () = (Inr (chain_name (Suc k)), ())"
    by (simp_all add: chain_fs_def same grow)
  ultimately show ?thesis
    by (simp add: symlink_target_def chain_plain stat_symlink_def stat_file_def)
qed

lemma chain_steps: "k \<le> m \<Longrightarrow> (link_step (chain_resolver m) example_who () ^^ k) [chain_name 0] [chain_name k]"
proof (induction k)
  case (Suc k)
  have "normalize ''/'' (chain_name (Suc k)) = [chain_name (Suc k)]"
    by (auto simp: normalize_def chain_name_def split_on_single fold_part_def)
  then have "link_step (chain_resolver m) example_who () [chain_name k] [chain_name (Suc k)]"
    using Suc.prems chain_target [of m k] unfolding link_step_def
    by (intro exI [of _ 0] exI [of _ "chain_name (Suc k)"]) (auto simp: chain_name_def)
  then show ?case using Suc by (auto intro: relpowp_Suc_I)
qed simp

lemma resolve_chain_witness:
  "resolve (chain_resolver 40) example_who ''/'' ''a'' True () = (Inr (Mounted 0 (join [chain_name 40]) (join [chain_name 40])), ()) \<and>
   resolve (chain_resolver 41) example_who ''/'' ''a'' True () = (Inl ELOOP, ())"
proof -
  have start: "normalize ''/'' ''a'' = [chain_name 0]" by code_simp
  have "link_free (chain_resolver 40) example_who () [chain_name 40]"
    using chain_target [of 40 40] by (simp add: link_free_def no_link_def le_Suc_eq)
  moreover have "classify_final (chain_resolver 40) example_who (join [chain_name 40]) () =
      (Inr (Mounted 0 (join [chain_name 40]) (join [chain_name 40])), ())"
    by code_simp
  ultimately show ?thesis
    using resolve_chain [where path = "''a''" and base = "''/''" and r = "chain_resolver 40" and n = 40]
      resolve_chain [where path = "''a''" and base = "''/''" and r = "chain_resolver 41" and n = 41]
      chain_steps [of 40 40] chain_steps [of 41 41] start by simp
qed

text \<open>
  What a path is folded to is a fixed point: naming the joined components again, from any
  directory, gives the same components, so no \<open>..\<close> is left to act later.
\<close>

theorem normalize_idempotent: "normalize base' (join (normalize base path)) = normalize base path"
  by (rule normalize_join) (rule normalize_all_clean)

text \<open>
  Asking to follow the last link never returns a link: the kernel's own symbolic links
  are followed to what they name, or the resolution fails.
\<close>

theorem resolve_follows: "fst (resolve r who base path True w) \<noteq> Inr (VirtualLink t)"
  using resolve_follow_not_link [where r = r and who = who and base = base and path = path and w = w and t = t]
  by (metis prod.collapse)

end
