(* ===== verification/Tasks.thy ===== *)
theory Tasks
  imports Fds
begin

text \<open>
  Per-process state and the shared process record (\<open>kernel/task.rs\<close>): signal actions, the
  set of pending signals as a 64-bit word, the triage of pending signals into the ones to
  deliver and the ones to discard, and the wait-status encoding.
\<close>

abbreviation NSIG :: nat where "NSIG \<equiv> 64"

record sig_action =
  sa_handler :: u32
  sa_flags :: u32
  sa_mask :: u64

definition sig_action_default :: sig_action where
  "sig_action_default = \<lparr>sa_handler = 0, sa_flags = 0, sa_mask = 0\<rparr>"

text \<open>Signals whose default action is to do nothing.\<close>

definition default_ignored :: "int \<Rightarrow> bool" where
  "default_ignored sig \<longleftrightarrow>
     sig \<in> {SIGCHLD, SIGURG, SIGWINCH, SIGCONT, SIGSTOP, SIGTSTP, SIGTTIN, SIGTTOU}"

definition default_kills :: "int \<Rightarrow> bool" where
  "default_kills sig \<longleftrightarrow> \<not> default_ignored sig"

definition is_ignored :: "sig_action \<Rightarrow> int \<Rightarrow> bool" where
  "is_ignored a sig \<longleftrightarrow> sa_handler a = SIG_IGN \<or> sa_handler a = SIG_DFL \<and> default_ignored sig"

record task =
  t_pid :: int
  t_fds :: fd_table
  t_cwd :: string
  t_umask :: u32
  t_sigact :: "sig_action list"
  t_sigmask :: u64
  t_exe :: string
  t_comm :: string

definition task_new :: "int \<Rightarrow> fd_table \<Rightarrow> task" where
  "task_new pid fds =
     \<lparr>t_pid = pid, t_fds = fds, t_cwd = ''/'', t_umask = 18,
      t_sigact = replicate NSIG sig_action_default, t_sigmask = 0, t_exe = [], t_comm = []\<rparr>"

definition task_action :: "task \<Rightarrow> int \<Rightarrow> sig_action" where
  "task_action t sig =
     (if sig \<le> 0 then sig_action_default
      else (case get_at (t_sigact t) (nat sig) of Some a \<Rightarrow> a | None \<Rightarrow> sig_action_default))"

definition task_set_action :: "int \<Rightarrow> sig_action \<Rightarrow> task \<Rightarrow> task" where
  "task_set_action sig a t =
     (if 0 < sig \<and> nat sig < length (t_sigact t) then t\<lparr>t_sigact := (t_sigact t)[nat sig := a]\<rparr> else t)"

definition reset_handlers_for_exec :: "task \<Rightarrow> task" where
  "reset_handlers_for_exec t =
     t\<lparr>t_sigact := map (\<lambda>a. if sa_handler a \<noteq> SIG_IGN then sig_action_default else a) (t_sigact t)\<rparr>"

section \<open>Process records\<close>

record proc_record =
  pr_pid :: int
  pr_ppid :: int
  pr_pgid :: int
  pr_sid :: int
  pr_pending :: u64
  pr_exit :: "int option"
  pr_wake_at :: "nat option"
  pr_comm :: string

definition proc_record_new :: "int \<Rightarrow> int \<Rightarrow> int \<Rightarrow> int \<Rightarrow> string \<Rightarrow> proc_record" where
  "proc_record_new pid ppid pgid sid comm =
     \<lparr>pr_pid = pid, pr_ppid = ppid, pr_pgid = pgid, pr_sid = sid, pr_pending = 0,
      pr_exit = None, pr_wake_at = None, pr_comm = comm\<rparr>"

definition is_alive :: "proc_record \<Rightarrow> bool" where
  "is_alive r \<longleftrightarrow> pr_exit r = None"

definition sig_bit :: "int \<Rightarrow> u64" where
  "sig_bit sig = (if 0 < sig \<and> nat sig < NSIG then push_bit (nat sig) 1 else 0)"

definition raise_sig :: "int \<Rightarrow> proc_record \<Rightarrow> proc_record" where
  "raise_sig sig r =
     (if 0 < sig \<and> nat sig < NSIG then r\<lparr>pr_pending := pr_pending r OR sig_bit sig\<rparr> else r)"

section \<open>Triage\<close>

fun triage_from :: "int list \<Rightarrow> u64 \<Rightarrow> u64 \<Rightarrow> task \<Rightarrow> u64 \<times> u64 \<Rightarrow> u64 \<times> u64" where
  "triage_from [] pending blk t (live, discard) = (live, discard)"
| "triage_from (sig # sigs) pending blk t (live, discard) =
     (let b = sig_bit sig in
      if pending AND b = 0 then triage_from sigs pending blk t (live, discard)
      else if is_ignored (task_action t sig) sig then
        triage_from sigs pending blk t (live, discard OR b)
      else if blk AND b = 0 \<or> sig = SIGKILL \<or> sig = SIGSTOP then
        triage_from sigs pending blk t (live OR b, discard)
      else triage_from sigs pending blk t (live, discard))"

definition triage :: "u64 \<Rightarrow> u64 \<Rightarrow> task \<Rightarrow> u64 \<times> u64" where
  "triage pending blk t =
     (if pending = 0 then (0, 0)
      else triage_from (map int [1..<NSIG]) pending blk t (0, 0))"

section \<open>Wait statuses\<close>

definition status_exited :: "int \<Rightarrow> int" where
  "status_exited code = push_bit 8 (code AND 255)"

definition status_signaled :: "int \<Rightarrow> int" where
  "status_signaled sig = sig AND 127"

section \<open>Facts\<close>

lemma sig_bit_bit: "bit (sig_bit sig) n \<longleftrightarrow> 0 < sig \<and> sig < 64 \<and> n = nat sig"
  by (auto simp: sig_bit_def bit_simps)

lemma and_sig_bit_eq_0:
  assumes "0 < sig" "sig < 64"
  shows "w AND sig_bit sig = 0 \<longleftrightarrow> \<not> bit w (nat sig)"
proof -
  have "w AND sig_bit sig = 0 \<longleftrightarrow> (\<forall>n. \<not> bit (w AND sig_bit sig) n)"
  proof
    assume "w AND sig_bit sig = 0"
    then show "\<forall>n. \<not> bit (w AND sig_bit sig) n" by simp
  next
    assume "\<forall>n. \<not> bit (w AND sig_bit sig) n"
    then show "w AND sig_bit sig = 0" by (intro bit_eqI) simp
  qed
  also have "\<dots> \<longleftrightarrow> \<not> bit w (nat sig)"
    using assms by (auto simp: bit_and_iff sig_bit_bit)
  finally show ?thesis .
qed

text \<open>What a signal in the pending set would do now.\<close>

definition deliverable :: "u64 \<Rightarrow> task \<Rightarrow> int \<Rightarrow> bool" where
  "deliverable blk t sig \<longleftrightarrow>
     \<not> is_ignored (task_action t sig) sig \<and> (\<not> bit blk (nat sig) \<or> sig = SIGKILL \<or> sig = SIGSTOP)"

lemma triage_from_bits:
  assumes "\<forall>sig \<in> set sigs. 0 < sig \<and> sig < 64"
    and "triage_from sigs pending blk t (l0, d0) = (l, d)"
  shows "bit l n \<longleftrightarrow> bit l0 n \<or> int n \<in> set sigs \<and> bit pending n \<and> deliverable blk t (int n)"
    and "bit d n \<longleftrightarrow> bit d0 n \<or> int n \<in> set sigs \<and> bit pending n \<and> is_ignored (task_action t (int n)) (int n)"
proof -
  have "(bit l n \<longleftrightarrow> bit l0 n \<or> int n \<in> set sigs \<and> bit pending n \<and> deliverable blk t (int n)) \<and>
    (bit d n \<longleftrightarrow> bit d0 n \<or> int n \<in> set sigs \<and> bit pending n \<and> is_ignored (task_action t (int n)) (int n))"
    using assms
  proof (induction sigs arbitrary: l0 d0)
    case Nil
    then show ?case by simp
  next
    case (Cons sig sigs)
    then have r: "0 < sig" "sig < 64" "\<forall>sig \<in> set sigs. 0 < sig \<and> sig < 64" by auto
    have n: "bit (sig_bit sig) n \<longleftrightarrow> int n = sig" using r by (auto simp: sig_bit_bit)
    show ?case
      using Cons.IH [OF r(3)] Cons.prems(2) r
      by (auto simp: Let_def and_sig_bit_eq_0 bit_or_iff n deliverable_def split: if_splits)
  qed
  then show "bit l n \<longleftrightarrow> bit l0 n \<or> int n \<in> set sigs \<and> bit pending n \<and> deliverable blk t (int n)"
    and "bit d n \<longleftrightarrow> bit d0 n \<or> int n \<in> set sigs \<and> bit pending n \<and> is_ignored (task_action t (int n)) (int n)"
    by blast+
qed

lemma mem_sig_range: "int n \<in> set (map int [1..<NSIG]) \<longleftrightarrow> 0 < n \<and> n < 64"
  by auto

lemma triage_bits:
  assumes "triage pending blk t = (live, discard)"
  shows "bit live n \<longleftrightarrow> 0 < n \<and> n < 64 \<and> bit pending n \<and> deliverable blk t (int n)"
    and "bit discard n \<longleftrightarrow> 0 < n \<and> n < 64 \<and> bit pending n \<and> is_ignored (task_action t (int n)) (int n)"
proof -
  have r: "\<forall>sig \<in> set (map int [1..<NSIG]). 0 < sig \<and> sig < 64" by auto
  show "bit live n \<longleftrightarrow> 0 < n \<and> n < 64 \<and> bit pending n \<and> deliverable blk t (int n)"
  proof (cases "pending = 0")
    case True
    with assms show ?thesis by (auto simp: triage_def)
  next
    case False
    with assms have "triage_from (map int [1..<NSIG]) pending blk t (0, 0) = (live, discard)"
      by (simp add: triage_def)
    from triage_from_bits(1) [OF r this, of n] show ?thesis
      unfolding mem_sig_range by simp
  qed
  show "bit discard n \<longleftrightarrow> 0 < n \<and> n < 64 \<and> bit pending n \<and> is_ignored (task_action t (int n)) (int n)"
  proof (cases "pending = 0")
    case True
    with assms show ?thesis by (auto simp: triage_def)
  next
    case False
    with assms have "triage_from (map int [1..<NSIG]) pending blk t (0, 0) = (live, discard)"
      by (simp add: triage_def)
    from triage_from_bits(2) [OF r this, of n] show ?thesis
      unfolding mem_sig_range by simp
  qed
qed

lemma task_action_set: "0 < sig \<Longrightarrow> sig < 64 \<Longrightarrow> length (t_sigact t) = 64 \<Longrightarrow>
  task_action (task_set_action sig a t) s = (if s = sig then a else task_action t s)"
  by (auto simp: task_action_def task_set_action_def get_at_def nth_list_update nat_eq_iff)

lemma and_255: "(code :: int) AND 255 = code mod 256"
proof -
  have "take_bit 8 code = code AND 255"
    unfolding take_bit_eq_mask by (simp add: mask_eq_exp_minus_1)
  then show ?thesis by (simp add: take_bit_eq_mod)
qed

lemma and_127: "(code :: int) AND 127 = code mod 128"
proof -
  have "take_bit 7 code = code AND 127"
    unfolding take_bit_eq_mask by (simp add: mask_eq_exp_minus_1)
  then show ?thesis by (simp add: take_bit_eq_mod)
qed

lemma status_exited_mod: "status_exited code = (code mod 256) * 256"
  by (simp add: status_exited_def and_255 push_bit_eq_mult)

lemma status_signaled_mod: "status_signaled sig = sig mod 128"
  by (simp add: status_signaled_def and_127)

lemma raise_sig_simps [simp]:
  "pr_pid (raise_sig sig r) = pr_pid r" "pr_ppid (raise_sig sig r) = pr_ppid r"
  "pr_pgid (raise_sig sig r) = pr_pgid r" "pr_sid (raise_sig sig r) = pr_sid r"
  "pr_exit (raise_sig sig r) = pr_exit r" "pr_wake_at (raise_sig sig r) = pr_wake_at r"
  by (simp_all add: raise_sig_def)

end
