(* ===== verification/Tty.thy ===== *)
theory Tty
  imports Abi
begin

text \<open>
  The terminal of a session (\<open>kernel/tty.rs\<close>): the settings a guest reads with \<open>TCGETS\<close> and
  writes with \<open>TCSETS\<close>, and their 36-byte layout.  \<open>cc\<close> is an array of 19 bytes, a list of
  that length here.
\<close>

abbreviation TERMIOS_BYTES :: nat where "TERMIOS_BYTES \<equiv> 36"

record termios =
  iflag :: u32
  oflag :: u32
  cflag :: u32
  lflag :: u32
  line :: u8
  cc :: bytes

definition cooked :: termios where
  "cooked =
     \<lparr>iflag = ICRNL OR IXON,
      oflag = OPOST OR ONLCR,
      cflag = B38400 OR CS8 OR CREAD,
      lflag = ISIG OR ICANON OR ECHO OR ECHOE OR ECHOK OR IEXTEN,
      line = 0,
      cc = (replicate NCCS_KERNEL 0)
        [VINTR := 3, VQUIT := 28, VERASE := 127, VKILL := 21, VEOF := 4, VTIME := 0,
         VMIN := 1, VSUSP := 26, VEOL := 0, VWERASE := 23]\<rparr>"

definition termios_raw :: "termios \<Rightarrow> bool" where
  "termios_raw t \<longleftrightarrow> lflag t AND ICANON = 0"

definition termios_signals :: "termios \<Rightarrow> bool" where
  "termios_signals t \<longleftrightarrow> lflag t AND ISIG \<noteq> 0"

definition termios_encode :: "termios \<Rightarrow> bytes" where
  "termios_encode t =
     overwrite 17 (cc t)
      (overwrite 16 [line t]
       (overwrite 12 (le32 (lflag t))
        (overwrite 8 (le32 (cflag t))
         (overwrite 4 (le32 (oflag t))
          (overwrite 0 (le32 (iflag t)) (replicate TERMIOS_BYTES 0))))))"

definition termios_decode :: "bytes \<Rightarrow> termios option" where
  "termios_decode bs =
     (let word = (\<lambda>at. map_option u32_le (get_range bs at (at + 4))) in
      case get_range bs 17 TERMIOS_BYTES of None \<Rightarrow> None | Some cc' \<Rightarrow>
      case word 0 of None \<Rightarrow> None | Some i \<Rightarrow>
      case word 4 of None \<Rightarrow> None | Some ou \<Rightarrow>
      case word 8 of None \<Rightarrow> None | Some c \<Rightarrow>
      case word 12 of None \<Rightarrow> None | Some l \<Rightarrow>
      case get_at bs 16 of None \<Rightarrow> None | Some li \<Rightarrow>
        Some \<lparr>iflag = i, oflag = ou, cflag = c, lflag = l, line = li, cc = cc'\<rparr>)"

record terminal =
  cols :: u16
  rows :: u16
  tio :: termios

definition terminal_new :: "u16 \<Rightarrow> u16 \<Rightarrow> terminal" where
  "terminal_new c r = \<lparr>cols = c, rows = r, tio = cooked\<rparr>"

section \<open>Layout\<close>

lemma termios_encode_eq:
  assumes "length (cc t) = 19"
  shows "termios_encode t =
    le32 (iflag t) @ le32 (oflag t) @ le32 (cflag t) @ le32 (lflag t) @ [line t] @ cc t"
  using assms by (simp add: termios_encode_def overwrite_def)

lemma termios_decode_encode:
  assumes "length (cc t) = 19"
  shows "termios_decode (termios_encode t) = Some t"
proof -
  define bs where "bs = le32 (iflag t) @ le32 (oflag t) @ le32 (cflag t) @ le32 (lflag t) @ [line t] @ cc t"
  have r: "get_range bs 0 4 = Some (le32 (iflag t))" "get_range bs 4 8 = Some (le32 (oflag t))"
    "get_range bs 8 12 = Some (le32 (cflag t))" "get_range bs 12 16 = Some (le32 (lflag t))"
    "get_range bs 17 36 = Some (cc t)" "get_at bs 16 = Some (line t)"
    using assms by (simp_all add: bs_def get_range_def get_at_def nth_append)
  have "termios_decode bs = Some t"
    by (simp add: termios_decode_def r)
  then show ?thesis by (simp only: termios_encode_eq [OF assms] bs_def)
qed

lemma termios_encode_decode:
  assumes "termios_decode bs = Some t" "length bs = 36"
  shows "termios_encode t = bs"
proof -
  have t: "t = \<lparr>iflag = u32_le (take 4 bs), oflag = u32_le (take 4 (drop 4 bs)),
      cflag = u32_le (take 4 (drop 8 bs)), lflag = u32_le (take 4 (drop 12 bs)),
      line = bs ! 16, cc = take 19 (drop 17 bs)\<rparr>"
    using assms by (auto simp: termios_decode_def Let_def get_range_def get_at_def
        split: option.splits if_splits)
  have one: "take 1 (drop 16 bs) = [bs ! 16]"
    using assms(2) by (simp add: take_Suc_conv_app_nth)
  have "bs = take (4 + 4 + 4 + 4 + 1 + 19) bs" using assms(2) by simp
  then have "bs = take 4 bs @ take 4 (drop 4 bs) @ take 4 (drop 8 bs) @ take 4 (drop 12 bs)
      @ [bs ! 16] @ take 19 (drop 17 bs)"
    by (simp only: take_add one [symmetric]) simp
  then show ?thesis
    using assms(2) by (subst termios_encode_eq) (simp_all add: t le32_u32_le)
qed

lemma termios_decode_short: "length bs < 36 \<Longrightarrow> termios_decode bs = None"
  by (simp add: termios_decode_def get_range_def)

end
