(* ===== verification/Kernel_State.thy ===== *)
theory Kernel_State
  imports Paths Tasks Tty
begin

text \<open>
  The state the handlers and the scheduler act on (\<open>kernel/mod.rs\<close>): limits, the buffers of
  the standard streams, \<open>Shared\<close>, the context of a process and the Asyncify bookkeeping, and
  the methods of \<open>Shared\<close>.

  What lives outside the kernel is in \<open>outside\<close>: the world of the mounted filesystems with
  the operations of an open file, the two clocks (a reading consumes one tick of a sequence of
  readings), the state of the pseudo-random generator, the hash function behind made-up inode
  numbers, and the printing of a duration as a floating-point number of seconds.  An engine instance, as a handler sees it, is its linear memory, its stack
  pointer, the Asyncify state, and whether it grants a request to grow.
\<close>

section \<open>Limits and buffers\<close>

abbreviation PAGE :: nat where "PAGE \<equiv> 65536"
abbreviation ASYNCIFY_PAGES :: nat where "ASYNCIFY_PAGES \<equiv> 16"

record limits =
  lim_memory :: nat
  lim_memory_per_process :: nat
  lim_processes :: nat
  lim_open_files :: nat
  lim_output :: nat
  lim_wall_clock :: "nat option"

definition limits_default :: limits where
  "limits_default =
     \<lparr>lim_memory = 256 * 1048576, lim_memory_per_process = 64 * 1048576, lim_processes = 64,
      lim_open_files = 256, lim_output = 8 * 1048576, lim_wall_clock = Some (60 * NANOS)\<rparr>"

record stdin_buffer =
  si_data :: bytes
  si_closed :: bool
  si_wanted :: bool

definition stdin_empty :: stdin_buffer where
  "stdin_empty = \<lparr>si_data = [], si_closed = False, si_wanted = False\<rparr>"

record output_buffer =
  ob_data :: bytes
  ob_dropped :: nat
  ob_taken :: nat

definition output_empty :: output_buffer where
  "output_empty = \<lparr>ob_data = [], ob_dropped = 0, ob_taken = 0\<rparr>"

definition output_push :: "bytes \<Rightarrow> nat \<Rightarrow> output_buffer \<Rightarrow> output_buffer" where
  "output_push bs limit b =
     (let room = limit - length (ob_data b); n = min room (length bs) in
      b\<lparr>ob_data := ob_data b @ take n bs,
        ob_dropped := sat_add_u64 (ob_dropped b) (length bs - n)\<rparr>)"

definition drain_new :: "output_buffer \<Rightarrow> bytes \<times> output_buffer" where
  "drain_new b = (drop (ob_taken b) (ob_data b), b\<lparr>ob_taken := length (ob_data b)\<rparr>)"

section \<open>Processes\<close>

text \<open>The six argument registers; a handler reads one as \<open>u32\<close>, or as \<open>i32\<close> with \<open>sint\<close>.\<close>

type_synonym args = "u32 \<times> u32 \<times> u32 \<times> u32 \<times> u32 \<times> u32"

record spawn =
  sp_task :: task
  sp_program :: nat
  sp_exe :: string
  sp_argv :: "bytes list"
  sp_envp :: "bytes list"

datatype suspension =
    Setjmp u32 u32
  | Longjmp u32 int
  | SysBlocked int args
  | SysExit int
  | SysExec

record exec_state =
  ex_asyncify_data :: u32
  ex_rewinding :: bool
  ex_resume_value :: int
  ex_resume_sp :: u32
  ex_suspension :: "suspension option"
  ex_jmp_bufs :: "u32 \<rightharpoonup> bytes \<times> u32"
  ex_signal_flag :: u32
  ex_deadline :: "nat option"
  ex_mask_to_restore :: "u64 option"
  ex_grown :: nat

definition exec_state_default :: exec_state where
  "exec_state_default =
     \<lparr>ex_asyncify_data = 0, ex_rewinding = False, ex_resume_value = 0, ex_resume_sp = 0,
      ex_suspension = None, ex_jmp_bufs = Map.empty, ex_signal_flag = 0, ex_deadline = None,
      ex_mask_to_restore = None, ex_grown = 0\<rparr>"

text \<open>\<open>c_vfork_stack\<close> has the top of the stack first.\<close>

record ctx =
  c_task :: task
  c_program :: nat
  c_argv :: "bytes list"
  c_envp :: "bytes list"
  c_exec_request :: "spawn option"
  c_vfork_stack :: "task list"
  c_exec :: exec_state

definition ctx_who :: "ctx \<Rightarrow> who" where
  "ctx_who c = \<lparr>w_cwd = t_cwd (c_task c), w_exe = t_exe (c_task c), w_pid = t_pid (c_task c)\<rparr>"

datatype asy_mode = AsyNormal | AsyUnwinding u32 | AsyRewinding u32

record guest =
  g_mem :: bytes
  g_sp :: u32
  g_mode :: asy_mode
  g_grants :: "nat \<Rightarrow> nat \<Rightarrow> bool"

text \<open>\<open>memory.grow\<close>: the old size in pages, and zeroed pages behind the old memory.\<close>

definition mem_grow :: "nat \<Rightarrow> guest \<Rightarrow> nat option \<times> guest" where
  "mem_grow pages g =
     (if g_grants g (length (g_mem g)) pages then
        (Some (length (g_mem g) div PAGE), g\<lparr>g_mem := g_mem g @ replicate (pages * PAGE) 0\<rparr>)
      else (None, g))"

section \<open>Shared state\<close>

record ('w, 'f) outside =
  o_world :: 'w
  o_fops :: "('w, 'f) file_ops"
  o_mono :: "nat \<Rightarrow> nat"
  o_wall :: "nat \<Rightarrow> nat"
  o_ticks :: nat
  o_rng :: u64
  o_hash :: "string \<Rightarrow> u64"
  o_show_secs :: "nat \<Rightarrow> string"

record ('w, 'f) shared =
  sh_mounts :: "('w, 'f) mounts"
  sh_overlay :: overlay
  sh_limits :: limits
  sh_descs :: "'f desc slab"
  sh_pipes :: "pipe slab"
  sh_table :: "proc_record list"
  sh_next_pid :: int
  sh_spawn :: "spawn list"
  sh_stdin :: stdin_buffer
  sh_stdout :: output_buffer
  sh_stderr :: output_buffer
  sh_memory_used :: nat
  sh_vfs_pending :: bool
  sh_host_pending :: bool
  sh_started :: nat
  sh_syscalls :: nat
  sh_terminal :: "terminal option"
  sh_out :: "('w, 'f) outside"

definition shared_new ::
  "('w, 'f) mounts \<Rightarrow> overlay \<Rightarrow> limits \<Rightarrow> ('w, 'f) outside \<Rightarrow> ('w, 'f) shared" where
  "shared_new ms ov lim out =
     \<lparr>sh_mounts = ms, sh_overlay = ov, sh_limits = lim, sh_descs = slab_new, sh_pipes = slab_new,
      sh_table = [], sh_next_pid = 1, sh_spawn = [], sh_stdin = stdin_empty,
      sh_stdout = output_empty, sh_stderr = output_empty, sh_memory_used = 0,
      sh_vfs_pending = False, sh_host_pending = False, sh_started = o_mono out (o_ticks out),
      sh_syscalls = 0, sh_terminal = None, sh_out = out\<lparr>o_ticks := o_ticks out + 1\<rparr>\<rparr>"

definition allocate_pid :: "('w, 'f) shared \<Rightarrow> int \<times> ('w, 'f) shared" where
  "allocate_pid s = (sh_next_pid s, s\<lparr>sh_next_pid := sat_add_i32 (sh_next_pid s) 1\<rparr>)"

definition record_of :: "int \<Rightarrow> proc_record list \<Rightarrow> proc_record option" where
  "record_of pid table = List.find (\<lambda>r. pr_pid r = pid) table"

text \<open>Writing through \<open>record_mut\<close>: the first record with that pid.\<close>

fun update_record :: "int \<Rightarrow> (proc_record \<Rightarrow> proc_record) \<Rightarrow> proc_record list \<Rightarrow> proc_record list" where
  "update_record pid f [] = []"
| "update_record pid f (r # rs) = (if pr_pid r = pid then f r # rs else r # update_record pid f rs)"

definition live_count :: "proc_record list \<Rightarrow> nat" where
  "live_count table = length (filter is_alive table)"

definition fork_record :: "task \<Rightarrow> ('w, 'f) shared \<Rightarrow> int option \<times> ('w, 'f) shared" where
  "fork_record parent s =
     (if lim_processes (sh_limits s) \<le> live_count (sh_table s) then (None, s)
      else
        let (pid, s1) = allocate_pid s;
            (ppid, pgid, sid) = (case record_of (t_pid parent) (sh_table s1) of
                Some r \<Rightarrow> (pr_pid r, pr_pgid r, pr_sid r)
              | None \<Rightarrow> (t_pid parent, t_pid parent, t_pid parent))
        in (Some pid,
            s1\<lparr>sh_table := sh_table s1 @ [proc_record_new pid ppid pgid sid (t_comm parent)]\<rparr>))"

definition table_set_exit :: "int \<Rightarrow> int \<Rightarrow> proc_record list \<Rightarrow> proc_record list" where
  "table_set_exit pid status table =
     (let parent = (case record_of pid table of Some r \<Rightarrow> pr_ppid r | None \<Rightarrow> 0);
          t1 = update_record pid
                 (\<lambda>r. r\<lparr>pr_exit := (if pr_exit r = None then Some status else pr_exit r),
                        pr_wake_at := None\<rparr>) table;
          t2 = map (\<lambda>r. if pr_ppid r = pid then r\<lparr>pr_ppid := 1\<rparr> else r) t1
      in if (case record_of parent t2 of Some r \<Rightarrow> is_alive r | None \<Rightarrow> False)
         then update_record parent (raise_sig SIGCHLD) t2
         else filter (\<lambda>r. pr_pid r \<noteq> pid) t2)"

definition set_exit :: "int \<Rightarrow> int \<Rightarrow> ('w, 'f) shared \<Rightarrow> ('w, 'f) shared" where
  "set_exit pid status s = s\<lparr>sh_table := table_set_exit pid status (sh_table s)\<rparr>"

definition charge_memory :: "nat \<Rightarrow> ('w, 'f) shared \<Rightarrow> bool \<times> ('w, 'f) shared" where
  "charge_memory n s =
     (let nxt = sat_add_u64 (sh_memory_used s) n in
      if lim_memory (sh_limits s) < nxt then (False, s) else (True, s\<lparr>sh_memory_used := nxt\<rparr>))"

definition release_memory :: "nat \<Rightarrow> ('w, 'f) shared \<Rightarrow> ('w, 'f) shared" where
  "release_memory n s = s\<lparr>sh_memory_used := sh_memory_used s - n\<rparr>"

definition pipe_update :: "nat \<Rightarrow> (pipe \<Rightarrow> pipe) \<Rightarrow> ('w, 'f) shared \<Rightarrow> ('w, 'f) shared" where
  "pipe_update k f s = s\<lparr>sh_pipes := slab_modify k f (sh_pipes s)\<rparr>"

definition desc_update :: "nat \<Rightarrow> ('f desc \<Rightarrow> 'f desc) \<Rightarrow> ('w, 'f) shared \<Rightarrow> ('w, 'f) shared" where
  "desc_update k f s = s\<lparr>sh_descs := slab_modify k f (sh_descs s)\<rparr>"

definition collect_pipe :: "nat \<Rightarrow> ('w, 'f) shared \<Rightarrow> ('w, 'f) shared" where
  "collect_pipe k s =
     (case slab_get (sh_pipes s) k of
        Some p \<Rightarrow> if p_readers p = 0 \<and> p_writers p = 0 then s\<lparr>sh_pipes := snd (slab_remove k (sh_pipes s))\<rparr> else s
      | None \<Rightarrow> s)"

text \<open>Closing a file whose result nobody looks at.\<close>

definition close_file :: "'f \<Rightarrow> ('w, 'f) shared \<Rightarrow> ('w, 'f) shared" where
  "close_file f s =
     (case fo_close (o_fops (sh_out s)) f (o_world (sh_out s)) of
        (_, _, w) \<Rightarrow> s\<lparr>sh_out := (sh_out s)\<lparr>o_world := w\<rparr>\<rparr>)"

text \<open>What the last reference to a description takes with it.\<close>

definition close_kind :: "'f desc_kind \<Rightarrow> ('w, 'f) shared \<Rightarrow> ('w, 'f) shared" where
  "close_kind kind s =
     (case kind of
        KFile f _ closed \<Rightarrow> if closed then s else close_file f s
      | KPipeRead k \<Rightarrow> collect_pipe k (pipe_update k (\<lambda>p. p\<lparr>p_readers := p_readers p - 1\<rparr>) s)
      | KPipeWrite k \<Rightarrow> collect_pipe k (pipe_update k (\<lambda>p. p\<lparr>p_writers := p_writers p - 1\<rparr>) s)
      | _ \<Rightarrow> s)"

definition release_desc :: "nat \<Rightarrow> ('w, 'f) shared \<Rightarrow> ('w, 'f) shared" where
  "release_desc key s =
     (case slab_get (sh_descs s) key of
        None \<Rightarrow> s
      | Some d \<Rightarrow>
          let s1 = desc_update key (\<lambda>d. d\<lparr>d_refs := d_refs d - 1\<rparr>) s in
          if d_refs d - 1 \<noteq> 0 then s1
          else close_kind (d_kind d) (s1\<lparr>sh_descs := snd (slab_remove key (sh_descs s1))\<rparr>))"

definition release_fds :: "fd_table \<Rightarrow> ('w, 'f) shared \<Rightarrow> ('w, 'f) shared" where
  "release_fds t s = fold release_desc (fdt_drain_all t) s"

definition write_output :: "nat \<Rightarrow> bytes \<Rightarrow> ('w, 'f) shared \<Rightarrow> nat \<times> ('w, 'f) shared" where
  "write_output which bs s =
     (let limit = lim_output (sh_limits s) in
      (length bs,
       if which = 2 then s\<lparr>sh_stderr := output_push bs limit (sh_stderr s)\<rparr>
       else s\<lparr>sh_stdout := output_push bs limit (sh_stdout s)\<rparr>))"

definition sh_resolver :: "('w, 'f) shared \<Rightarrow> ('w, 'f) resolver" where
  "sh_resolver s = \<lparr>r_overlay = sh_overlay s, r_mounts = sh_mounts s\<rparr>"

definition is_read_only :: "('w, 'f) shared \<Rightarrow> nat \<Rightarrow> bool" where
  "is_read_only s i = (case mounts_get (sh_mounts s) i of Some m \<Rightarrow> mnt_read_only m | None \<Rightarrow> True)"

definition sh_vfs :: "('w, 'f) shared \<Rightarrow> nat \<Rightarrow> ('w, 'f) vfs option" where
  "sh_vfs s i = map_option mnt_vfs (mounts_get (sh_mounts s) i)"

section \<open>A handler's state\<close>

record ('w, 'f) st =
  sh :: "('w, 'f) shared"
  cx :: ctx
  gs :: guest

type_synonym ('w, 'f, 'a) sys = "(('w, 'f) st, 'a) sysm"

abbreviation thn :: "('s, unit) sysm \<Rightarrow> ('s, 'a) sysm \<Rightarrow> ('s, 'a) sysm" where
  "thn m n \<equiv> bnd m (\<lambda>_. n)"

abbreviation the_task :: "('w, 'f) st \<Rightarrow> task" where "the_task s \<equiv> c_task (cx s)"
abbreviation my_pid :: "('w, 'f) st \<Rightarrow> int" where "my_pid s \<equiv> t_pid (c_task (cx s))"

text \<open>Updates at each level.\<close>

definition on_shared :: "(('w, 'f) shared \<Rightarrow> ('w, 'f) shared) \<Rightarrow> ('w, 'f, unit) sys" where
  "on_shared f = modify (sh_update f)"

definition on_task :: "(task \<Rightarrow> task) \<Rightarrow> ('w, 'f, unit) sys" where
  "on_task f = modify (cx_update (c_task_update f))"

definition on_exec :: "(exec_state \<Rightarrow> exec_state) \<Rightarrow> ('w, 'f, unit) sys" where
  "on_exec f = modify (cx_update (c_exec_update f))"

definition on_records :: "(proc_record list \<Rightarrow> proc_record list) \<Rightarrow> ('w, 'f, unit) sys" where
  "on_records f = on_shared (sh_table_update f)"

text \<open>A run over the guest's memory, and a read of it.\<close>

definition to_mem :: "(bytes, 'a) sysm \<Rightarrow> ('w, 'f, 'a) sys" where
  "to_mem m = (\<lambda>s. let (r, b) = m (g_mem (gs s)) in (r, s\<lparr>gs := (gs s)\<lparr>g_mem := b\<rparr>\<rparr>))"

definition from_mem :: "(bytes \<Rightarrow> 'a vfs_result) \<Rightarrow> ('w, 'f, 'a) sys" where
  "from_mem f = bnd (gets (\<lambda>s. f (g_mem (gs s)))) of_result"

text \<open>A call into the mounted filesystems, and one whose error is the syscall's.\<close>

definition world_op :: "('w \<Rightarrow> 'a \<times> 'w) \<Rightarrow> ('w, 'f, 'a) sys" where
  "world_op f = run (\<lambda>s. let (a, w) = f (o_world (sh_out (sh s))) in
     (a, s\<lparr>sh := (sh s)\<lparr>sh_out := (sh_out (sh s))\<lparr>o_world := w\<rparr>\<rparr>\<rparr>))"

definition vfs_fault :: "errno \<Rightarrow> ('w, 'f, 'a) sys" where
  "vfs_fault e =
     (if e = EAGAIN then thn (on_shared (sh_vfs_pending_update (\<lambda>_. True))) (fault FBlock)
      else err e)"

definition or_vfs_fault :: "'a vfs_result \<Rightarrow> ('w, 'f, 'a) sys" where
  "or_vfs_fault r = (case r of Inl e \<Rightarrow> vfs_fault e | Inr a \<Rightarrow> ret a)"

definition vfs_call :: "('w \<Rightarrow> 'a vfs_result \<times> 'w) \<Rightarrow> ('w, 'f, 'a) sys" where
  "vfs_call f = bnd (world_op f) or_vfs_fault"

text \<open>\<open>Instant::now()\<close> and the wall clock since the epoch, in nanoseconds.\<close>

definition now :: "('w, 'f, nat) sys" where
  "now = run (\<lambda>s. let out = sh_out (sh s) in
     (o_mono out (o_ticks out), s\<lparr>sh := (sh s)\<lparr>sh_out := out\<lparr>o_ticks := o_ticks out + 1\<rparr>\<rparr>\<rparr>))"

definition now_since_epoch :: "('w, 'f, nat) sys" where
  "now_since_epoch = run (\<lambda>s. let out = sh_out (sh s) in
     (o_wall out (o_ticks out), s\<lparr>sh := (sh s)\<lparr>sh_out := out\<lparr>o_ticks := o_ticks out + 1\<rparr>\<rparr>\<rparr>))"

definition elapsed :: "('w, 'f, nat) sys" where
  "elapsed = bnd now (\<lambda>t. gets (\<lambda>s. t - sh_started (sh s)))"

text \<open>Descriptors and descriptions.\<close>

definition get_fd :: "int \<Rightarrow> ('w, 'f, fd) sys" where
  "get_fd n = bnd (gets (\<lambda>s. fdt_get (t_fds (the_task s)) n)) of_result"

definition get_desc :: "nat \<Rightarrow> ('w, 'f, 'f desc) sys" where
  "get_desc k = bnd (gets (\<lambda>s. slab_get (sh_descs (sh s)) k)) (ok_or EBADF)"

definition on_fds :: "(fd_table \<Rightarrow> 'a vfs_result \<times> fd_table) \<Rightarrow> ('w, 'f, 'a) sys" where
  "on_fds f = bnd (run (\<lambda>s. let (r, t) = f (t_fds (the_task s)) in
     (r, s\<lparr>cx := (cx s)\<lparr>c_task := (c_task (cx s))\<lparr>t_fds := t\<rparr>\<rparr>\<rparr>))) of_result"

definition limit_files :: "('w, 'f) st \<Rightarrow> nat" where
  "limit_files s = lim_open_files (sh_limits (sh s))"

definition pending_of :: "('w, 'f) st \<Rightarrow> u64" where
  "pending_of s = (case record_of (my_pid s) (sh_table (sh s)) of Some r \<Rightarrow> pr_pending r | None \<Rightarrow> 0)"

lemmas st_defs =
  on_shared_def on_task_def on_exec_def on_records_def to_mem_def from_mem_def world_op_def
  vfs_fault_def or_vfs_fault_def vfs_call_def now_def now_since_epoch_def elapsed_def
  get_fd_def get_desc_def on_fds_def

end
