(* ===== verification/Sys_Core.thy ===== *)
theory Sys_Core
  imports Kernel_State
begin

text \<open>
  The helpers the handlers of \<open>kernel/syscall.rs\<close> share: what ends a syscall, deadlines,
  resolving a path argument, the \<open>statx\<close> buffer, generated \<open>/proc\<close> files, the start block,
  random bytes, and the choice of the next signal to deliver.
\<close>

section \<open>Ends of a syscall\<close>

definition ignoring :: "('s, 'a) sysm \<Rightarrow> ('s, unit) sysm" where
  "ignoring m = catching m (\<lambda>_. ret ())"

definition live_signals :: "('w, 'f) st \<Rightarrow> u64" where
  "live_signals s = fst (triage (pending_of s) (t_sigmask (the_task s)) (the_task s))"

definition raise_signal_flag :: "('w, 'f, unit) sys" where
  "raise_signal_flag =
     bnd (gets (\<lambda>s. ex_signal_flag (c_exec (cx s)))) (\<lambda>flag.
     if flag = 0 then ret ()
     else bnd (gets live_signals) (\<lambda>live.
          ignoring (to_mem (mem_put_u32 flag (if live \<noteq> 0 then 1 else 0)))))"

definition restore_mask :: "ctx \<Rightarrow> ctx" where
  "restore_mask c =
     (case ex_mask_to_restore (c_exec c) of
        None \<Rightarrow> c
      | Some m \<Rightarrow> c\<lparr>c_task := (c_task c)\<lparr>t_sigmask := m\<rparr>,
                    c_exec := (c_exec c)\<lparr>ex_mask_to_restore := None\<rparr>\<rparr>)"

definition finish :: "('w, 'f, unit) sys" where
  "finish =
     thn (on_exec (ex_deadline_update (\<lambda>_. None)))
    (thn (modify (cx_update restore_mask))
     raise_signal_flag)"

definition interrupted :: "('w, 'f) st \<Rightarrow> bool" where
  "interrupted s \<longleftrightarrow> live_signals s \<noteq> 0"

section \<open>Deadlines\<close>

text \<open>\<open>Instant::checked_add\<close> fails when the seconds overflow an \<open>i64\<close>.\<close>

definition instant_add :: "nat \<Rightarrow> nat \<Rightarrow> nat option" where
  "instant_add t d = (if t + d < 9223372036854775808 * NANOS then Some (t + d) else None)"

definition deadline :: "nat \<Rightarrow> ('w, 'f, nat) sys" where
  "deadline after =
     bnd (gets (\<lambda>s. ex_deadline (c_exec (cx s)))) (\<lambda>d.
     case d of
       Some t \<Rightarrow> ret t
     | None \<Rightarrow>
         bnd now (\<lambda>t0.
         bnd (case instant_add t0 after of Some t \<Rightarrow> ret t | None \<Rightarrow> now) (\<lambda>t.
         thn (on_exec (ex_deadline_update (\<lambda>_. Some t))) (ret t))))"

text \<open>When a sleeping process wants to be woken.\<close>

definition set_wake :: "nat \<Rightarrow> ('w, 'f, unit) sys" where
  "set_wake t =
     bnd (gets my_pid) (\<lambda>pid. on_records (update_record pid (pr_wake_at_update (\<lambda>_. Some t))))"

definition my_pgid :: "('w, 'f) st \<Rightarrow> int" where
  "my_pgid s = (case record_of (my_pid s) (sh_table (sh s)) of Some r \<Rightarrow> pr_pgid r | None \<Rightarrow> my_pid s)"

section \<open>Paths\<close>

definition sys_resolve :: "int \<Rightarrow> string \<Rightarrow> bool \<Rightarrow> ('w, 'f, node) sys" where
  "sys_resolve dirfd path follow =
     bnd (if starts_with ''/'' path then ret ''/''
          else if dirfd = AT_FDCWD then gets (\<lambda>s. t_cwd (the_task s))
          else bnd (get_fd dirfd) (\<lambda>entry.
               bnd (get_desc (fd_desc entry)) (\<lambda>desc.
               case d_kind desc of KDir _ _ \<Rightarrow> ret (d_path desc) | _ \<Rightarrow> err ENOTDIR)))
       (\<lambda>base.
     bnd (gets (\<lambda>s. (sh_resolver (sh s), ctx_who (cx s)))) (\<lambda>(r, who).
     vfs_call (resolve r who base path follow)))"

section \<open>The \<open>statx\<close> buffer\<close>

definition default_mode :: "file_type \<Rightarrow> u32" where
  "default_mode kind = (case kind of Dir \<Rightarrow> 493 | File \<Rightarrow> 420 | Symlink \<Rightarrow> 511)"

definition type_bits :: "file_type \<Rightarrow> u32" where
  "type_bits kind = (case kind of Dir \<Rightarrow> S_IFDIR | File \<Rightarrow> S_IFREG | Symlink \<Rightarrow> S_IFLNK)"

definition hashed_ino :: "(string \<Rightarrow> u64) \<Rightarrow> string \<Rightarrow> u64" where
  "hashed_ino hash path = drop_bit 1 (hash path) OR 1"

text \<open>The writes of \<open>write_statx\<close>, in order.\<close>

definition statx_fields ::
  "(string \<Rightarrow> u64) \<Rightarrow> stat \<Rightarrow> string \<Rightarrow> u32 \<times> u32 \<Rightarrow> (nat \<times> bytes) list" where
  "statx_fields hash st path rdev =
     (let md = (if st_mode st = 0 then default_mode (st_type st) else st_mode st);
          ino = (if st_ino st = 0 then hashed_ino hash path else st_ino st)
      in [(0, le32 STATX_BASIC_STATS), (4, le32 4096), (16, le32 (max (st_nlink st) 1)),
          (28, le16 (ucast (type_bits (st_type st) OR md))), (32, le64 ino), (40, le64 (st_size st)),
          (48, le64 (of_nat (div_ceil (unat (st_size st)) 512)))] @
         concat (map (\<lambda>off. [(off, le64 (as_u64 (fst (st_mtime st)))), (off + 8, le32 (snd (st_mtime st)))])
           [64, 80, 96, 112]) @
         [(128, le32 (fst rdev)), (132, le32 (snd rdev)), (136, le32 0), (140, le32 1)])"

definition statx_buffer :: "(string \<Rightarrow> u64) \<Rightarrow> stat \<Rightarrow> string \<Rightarrow> u32 \<times> u32 \<Rightarrow> bytes" where
  "statx_buffer hash st path rdev =
     fold (\<lambda>(off, bs) b. overwrite off bs b) (statx_fields hash st path rdev) (replicate 256 0)"

definition write_statx :: "u32 \<Rightarrow> stat \<Rightarrow> string \<Rightarrow> u32 \<times> u32 \<Rightarrow> ('w, 'f, unit) sys" where
  "write_statx at st path rdev =
     bnd (gets (\<lambda>s. o_hash (sh_out (sh s)))) (\<lambda>hash.
     to_mem (mem_put at (statx_buffer hash st path rdev)))"

section \<open>Generated files\<close>

abbreviation KERNEL_RELEASE :: string where "KERNEL_RELEASE \<equiv> ''6.1.0-wasmux''"
abbreviation nl :: string where "nl \<equiv> [CHR 0x0A]"
abbreviation tab :: string where "tab \<equiv> [CHR 0x09]"

definition proc_text ::
  "string \<Rightarrow> string \<Rightarrow> string \<Rightarrow> string \<Rightarrow> ('w, 'f) shared \<Rightarrow> string" where
  "proc_text guest pid comm uptime s =
     (let name = rsplit_first (CHR ''/'') guest in
      if name = ''cpuinfo'' then
        ''processor'' @ tab @ '': 0'' @ nl @ ''vendor_id'' @ tab @ '': wasmux'' @ nl @
        ''model name'' @ tab @ '': WebAssembly'' @ nl @ ''flags'' @ tab @ tab @ '': wasm32'' @ nl
      else if name = ''meminfo'' then
        (let tot = lim_memory (sh_limits s) div 1024; used = sh_memory_used s div 1024 in
         ''MemTotal:       '' @ show_pad8 tot @ '' kB'' @ nl @
         ''MemFree:        '' @ show_pad8 (tot - used) @ '' kB'' @ nl @
         ''MemAvailable:   '' @ show_pad8 (tot - used) @ '' kB'' @ nl @
         ''Buffers:               0 kB'' @ nl @ ''Cached:                0 kB'' @ nl @
         ''SwapTotal:             0 kB'' @ nl @ ''SwapFree:              0 kB'' @ nl)
      else if name = ''uptime'' then uptime @ '' '' @ uptime @ nl
      else if name = ''version'' then ''Linux version '' @ KERNEL_RELEASE @ '' (wasmux) #1 wasm32'' @ nl
      else if name = ''loadavg'' then ''0.00 0.00 0.00 1/1 1'' @ nl
      else if name = ''filesystems'' then ''nodev'' @ tab @ ''proc'' @ nl @ tab @ ''wasmux'' @ nl
      else if name = ''mounts'' then
        concat (map (\<lambda>m. ''wasmux '' @ mnt_at m @ '' wasmux '' @
          (if mnt_read_only m then ''ro'' else ''rw'') @ '',relatime 0 0'' @ nl) (sh_mounts s)) @
        ''proc /proc proc rw,relatime 0 0'' @ nl
      else if name = ''stat'' \<and> guest = ''/proc/stat'' then
        ''cpu  0 0 0 0 0 0 0 0 0 0'' @ nl @ ''processes 1'' @ nl
      else if name = ''comm'' then comm @ nl
      else if name = ''stat'' then
        pid @ '' ('' @ comm @ '') R 1 '' @ pid @ '' '' @ pid @
        '' 0 -1 0 0 0 0 0 0 0 0 0 20 0 1 0 0 0 0'' @ nl
      else if name = ''status'' then
        ''Name:'' @ tab @ comm @ nl @ ''Pid:'' @ tab @ pid @ nl @ ''PPid:'' @ tab @ ''1'' @ nl @
        ''Threads:'' @ tab @ ''1'' @ nl
      else [])"

definition proc_content :: "string \<Rightarrow> ('w, 'f, bytes) sys" where
  "proc_content guest =
     bnd elapsed (\<lambda>up.
     gets (\<lambda>s.
       if rsplit_first (CHR ''/'') guest = ''cmdline'' then concat (map (\<lambda>a. a @ [0]) (c_argv (cx s)))
       else as_bytes (proc_text guest (show_int (my_pid s)) (t_comm (the_task s))
              (o_show_secs (sh_out (sh s)) up) (sh s))))"

section \<open>Random bytes\<close>

definition xorshift :: "u64 \<Rightarrow> u64" where
  "xorshift x0 =
     (let x1 = x0 XOR push_bit 13 x0; x2 = x1 XOR drop_bit 7 x1 in x2 XOR push_bit 17 x2)"

fun xorshift_fill :: "nat \<Rightarrow> u64 \<Rightarrow> bytes \<times> u64" where
  "xorshift_fill 0 x = ([], x)"
| "xorshift_fill (Suc n) x =
     (let y = xorshift x; (bs, z) = xorshift_fill n y in (ucast y # bs, z))"

definition fill_random :: "nat \<Rightarrow> ('w, 'f, bytes) sys" where
  "fill_random n =
     bnd (gets (\<lambda>s. o_rng (sh_out (sh s)))) (\<lambda>x0.
     bnd (if x0 = 0 then bnd now_since_epoch (\<lambda>t. ret (of_nat t OR 1)) else ret x0) (\<lambda>x.
     let (bs, y) = xorshift_fill n x in
     thn (on_shared (sh_out_update (o_rng_update (\<lambda>_. y)))) (ret bs)))"

section \<open>The start block\<close>

fun string_offsets :: "nat \<Rightarrow> bytes list \<Rightarrow> u32 list" where
  "string_offsets at [] = []"
| "string_offsets at (x # xs) = of_nat at # string_offsets (at + length x + 1) xs"

definition block_strings :: "bytes list \<Rightarrow> bytes" where
  "block_strings items = concat (map (\<lambda>x. x @ [0]) items)"

definition block_auxv :: "u32 \<Rightarrow> nat \<Rightarrow> nat \<Rightarrow> (u32 \<times> u32) list" where
  "block_auxv base random_at execfn_at =
     [(AT_PAGESZ, 4096), (AT_CLKTCK, 100), (AT_UID, 0), (AT_EUID, 0), (AT_GID, 0), (AT_EGID, 0),
      (AT_SECURE, 0), (AT_RANDOM, base + of_nat random_at), (AT_EXECFN, base + of_nat execfn_at),
      (AT_NULL, 0)]"

definition block_words :: "bytes list \<Rightarrow> bytes list \<Rightarrow> u32 \<Rightarrow> u32 list" where
  "block_words argv envp base =
     (let header = (length argv + length envp + 3 + 10 * 2) * 4;
          strings_at = header + 16;
          offsets = string_offsets strings_at (argv @ envp);
          execfn_at = strings_at + length (block_strings (argv @ envp))
      in [of_nat (length argv)] @
         map (\<lambda>o'. base + o') (take (length argv) offsets) @ [0] @
         map (\<lambda>o'. base + o') (drop (length argv) offsets) @ [0] @
         concat (map (\<lambda>(k, v). [k, v]) (block_auxv base header execfn_at)))"

definition start_block :: "u32 \<Rightarrow> ('w, 'f, bytes) sys" where
  "start_block base =
     bnd (gets cx) (\<lambda>c.
     bnd (fill_random 16) (\<lambda>seed.
     ret (concat (map le32 (block_words (c_argv c) (c_envp c) base)) @ seed @
          block_strings (c_argv c @ c_envp c) @ as_bytes (t_exe (c_task c)) @ [0])))"

section \<open>The next signal\<close>

datatype signal_delivery = NoSignal | RunHandler | Fatal int

datatype picked = PickNone | PickFatal int | PickHandler int sig_action

definition trailing_zeros :: "u64 \<Rightarrow> nat" where
  "trailing_zeros w = length (takeWhile (\<lambda>n. \<not> bit w n) [0..<64])"

lemma trailing_zeros_bit:
  assumes "w \<noteq> 0"
  shows "trailing_zeros w < 64" "bit w (trailing_zeros w)"
proof -
  have "\<exists>n<64. bit w n"
  proof (rule ccontr)
    assume "\<not> (\<exists>n<64. bit w n)"
    then have "w = 0" by (intro bit_word_eqI) simp
    with assms show False by simp
  qed
  then have "\<exists>x \<in> set [0..<64]. \<not> \<not> bit w x" by auto
  then have t: "length (takeWhile (\<lambda>n. \<not> bit w n) [0..<64]) < length [0..<64::nat]"
    by (metis (no_types, lifting) leI take_all takeWhile_eq_all_conv takeWhile_eq_take)
  then show "trailing_zeros w < 64" by (simp add: trailing_zeros_def)
  show "bit w (trailing_zeros w)"
    using nth_length_takeWhile [OF t] t by (simp add: trailing_zeros_def)
qed

lemma unat_and_not_less:
  fixes p :: u64
  assumes "bit p n" "bit q n"
  shows "unat (p AND NOT q) < unat p"
proof -
  have n: "n < 64" using assms(1) bit_imp_le_length by fastforce
  then have "\<not> bit (p AND NOT q) n" using assms(2) by (simp add: bit_and_iff bit_not_iff)
  then have "p AND NOT q \<noteq> p" using assms(1) by auto
  then have "unat (p AND NOT q) \<noteq> unat p" by (metis unsigned_word_eqI)
  moreover have "p AND NOT q \<le> p" by (rule word_and_le2)
  ultimately show ?thesis by (simp add: word_le_nat_alt order_less_le)
qed

lemma unat_and_le: "unat (p AND q) \<le> unat (p :: u64)"
  using word_and_le2 [of p q] by (simp add: word_le_nat_alt)

text \<open>Taking the lowest deliverable signal out shrinks the pending set.\<close>

lemma triage_step_less:
  assumes "triage pending blk t = (live, discard)" "live \<noteq> 0"
  shows "unat ((pending AND NOT discard) AND NOT (sig_bit (int (trailing_zeros live)))) < unat pending"
proof -
  define n where "n = trailing_zeros live"
  have n: "n < 64" "bit live n" using trailing_zeros_bit [OF assms(2)] by (simp_all add: n_def)
  then have d: "0 < n" "bit pending n" "deliverable blk t (int n)"
    using triage_bits(1) [OF assms(1), of n] by simp_all
  then have "\<not> bit discard n" using triage_bits(2) [OF assms(1), of n] by (simp add: deliverable_def)
  then have b: "bit (pending AND NOT discard) n" using d n by (simp add: bit_and_iff bit_not_iff)
  moreover have "bit (sig_bit (int n)) n" using d n by (simp add: sig_bit_bit)
  ultimately have "unat ((pending AND NOT discard) AND NOT (sig_bit (int n))) < unat (pending AND NOT discard)"
    by (rule unat_and_not_less)
  also have "\<dots> \<le> unat pending" by (rule unat_and_le)
  finally show ?thesis by (simp add: n_def)
qed

function pick_signal :: "task \<Rightarrow> u64 \<Rightarrow> u64 \<times> picked" where
  "pick_signal t pending =
     (let (live, discard) = triage pending (t_sigmask t) t;
          p1 = pending AND NOT discard
      in if live = 0 then (p1, PickNone)
         else let signal = int (trailing_zeros live);
                  p2 = p1 AND NOT (sig_bit signal);
                  a = task_action t signal
              in if sa_handler a = SIG_IGN then pick_signal t p2
                 else if sa_handler a = SIG_DFL then
                   (if default_kills signal then (p2, PickFatal (status_signaled signal))
                    else pick_signal t p2)
                 else (p2, PickHandler signal a))"
  by pat_completeness auto
termination
  by (relation "measure (\<lambda>(t, p). unat p)") (auto intro: triage_step_less [OF sym])

declare pick_signal.simps [simp del]

definition next_signal :: "u32 \<Rightarrow> ('w, 'f, signal_delivery) sys" where
  "next_signal at =
     bnd (gets (\<lambda>s. (my_pid s, pick_signal (the_task s) (pending_of s)))) (\<lambda>(pid, left, p).
     thn (on_records (update_record pid (\<lambda>r. r\<lparr>pr_pending := left\<rparr>)))
     (case p of
        PickNone \<Rightarrow>
          bnd (gets (\<lambda>s. ex_signal_flag (c_exec (cx s)))) (\<lambda>flag.
          thn (if flag \<noteq> 0 then ignoring (to_mem (mem_put_u32 flag 0)) else ret ())
          (ret NoSignal))
      | PickFatal status \<Rightarrow> ret (Fatal status)
      | PickHandler signal a \<Rightarrow>
          thn (if sa_flags a AND SA_RESETHAND \<noteq> 0
               then on_task (task_set_action signal sig_action_default) else ret ())
         (thn (ignoring (to_mem (mem_put_u32 at (as_u32 signal))))
         (thn (ignoring (to_mem (mem_put_u32 (at + 4) (sa_handler a))))
         (thn (ignoring (to_mem (mem_put_u32 (at + 8) (sa_flags a))))
         (thn (ignoring (to_mem (mem_put_u32 (at + 12) 0)))
         (thn (ignoring (to_mem (mem_put_u32 (at + 16) 0)))
         (ret RunHandler))))))))"

section \<open>Facts\<close>

text \<open>
  What \<open>pick_signal\<close> leaves pending was pending, and a signal it reports is one whose delivery
  is not blocked: it is taken out, and no smaller one could have been delivered.
\<close>

lemma pick_signal_cases:
  assumes "triage p (t_sigmask t) t = (live, discard)"
    and "n = trailing_zeros live" "a = task_action t (int n)"
    and "q = (p AND NOT discard) AND NOT (sig_bit (int n))"
  obtains (none) "live = 0" "pick_signal t p = (p AND NOT discard, PickNone)"
    | (skip) "live \<noteq> 0" "pick_signal t p = pick_signal t q"
    | (fatal) "live \<noteq> 0" "sa_handler a = SIG_DFL" "default_kills (int n)"
        "pick_signal t p = (q, PickFatal (status_signaled (int n)))"
    | (handler) "live \<noteq> 0" "sa_handler a \<noteq> SIG_IGN" "sa_handler a \<noteq> SIG_DFL"
        "pick_signal t p = (q, PickHandler (int n) a)"
  using assms(1) by (cases "live = 0"; cases "sa_handler a = SIG_IGN"; cases "sa_handler a = SIG_DFL";
      cases "default_kills (int n)") (simp_all add: pick_signal.simps [of t p] Let_def assms(2-))

lemma pick_signal_subset: "bit (fst (pick_signal t p)) n \<Longrightarrow> bit p n"
proof (induction "unat p" arbitrary: p rule: less_induct)
  case less
  obtain live discard where tr: "triage p (t_sigmask t) t = (live, discard)" by fastforce
  show ?case
    using less.prems less.hyps [OF triage_step_less [OF tr]]
    by (cases rule: pick_signal_cases [OF tr refl refl refl]) (auto simp: bit_and_iff)
qed

lemma pick_signal_handler:
  assumes "pick_signal t p = (left, PickHandler sig a)"
  shows "bit p (nat sig) \<and> \<not> bit left (nat sig) \<and> 0 < sig \<and> sig < 64 \<and> deliverable (t_sigmask t) t sig \<and>
    a = task_action t sig \<and> sa_handler a \<noteq> SIG_IGN \<and> sa_handler a \<noteq> SIG_DFL"
  using assms
proof (induction "unat p" arbitrary: p rule: less_induct)
  case less
  obtain live discard where tr: "triage p (t_sigmask t) t = (live, discard)" by fastforce
  show ?case
  proof (cases rule: pick_signal_cases [OF tr refl refl refl, case_names none skip fatal handler])
    case none
    with less.prems show ?thesis by simp
  next
    case skip
    with less.prems less.hyps [OF triage_step_less [OF tr]] show ?thesis by (auto simp: bit_and_iff)
  next
    case fatal
    with less.prems show ?thesis by simp
  next
    case handler
    define n where "n = trailing_zeros live"
    have n: "n < 64" "bit live n" using trailing_zeros_bit [OF handler(1)] by (simp_all add: n_def)
    note bits = triage_bits(1) [OF tr, of n, THEN iffD1, OF n(2)]
    have "\<not> bit ((p AND NOT discard) AND NOT (sig_bit (int n))) n"
      using bits by (simp add: bit_and_iff bit_not_iff sig_bit_bit)
    then show ?thesis using less.prems handler bits by (auto simp: n_def)
  qed
qed

end
