(* ===== verification/Sys_IO.thy ===== *)
theory Sys_IO
  imports Sys_Core
begin

text \<open>
  The syscalls on open descriptors (\<open>kernel/syscall.rs\<close>): reading and writing, duplicating,
  pipes, \<open>fcntl\<close>, \<open>ioctl\<close>, seeking and directory listings.  \<open>read_bytes\<close> is given the caller's
  buffer and returns the count it reports with the buffer it leaves.
\<close>

section \<open>Open files\<close>

definition set_kind :: "'f desc_kind \<Rightarrow> 'f desc \<Rightarrow> 'f desc" where
  "set_kind k d = d\<lparr>d_kind := k\<rparr>"

definition set_file :: "'f \<Rightarrow> 'f desc \<Rightarrow> 'f desc" where
  "set_file f d = (case d_kind d of KFile _ m c \<Rightarrow> d\<lparr>d_kind := KFile f m c\<rparr> | _ \<Rightarrow> d)"

text \<open>An operation on the file of description \<open>key\<close>, which has the handle \<open>f\<close>.\<close>

definition file_op ::
  "nat \<Rightarrow> 'f \<Rightarrow> (('w, 'f) file_ops \<Rightarrow> 'f \<Rightarrow> 'w \<Rightarrow> 'a \<times> 'f \<times> 'w) \<Rightarrow> ('w, 'f, 'a) sys" where
  "file_op key f oper = run (\<lambda>s.
     let (a, f', w) = oper (o_fops (sh_out (sh s))) f (o_world (sh_out (sh s))) in
     (a, s\<lparr>sh := desc_update key (set_file f') ((sh s)\<lparr>sh_out := (sh_out (sh s))\<lparr>o_world := w\<rparr>\<rparr>)\<rparr>))"

definition file_read :: "nat \<Rightarrow> 'f \<Rightarrow> bytes \<Rightarrow> ('w, 'f, nat vfs_result \<times> bytes) sys" where
  "file_read key f buf =
     file_op key f (\<lambda>fo f w. let (r, b, f', w') = read_into fo buf f w in ((r, b), f', w'))"

section \<open>Reading\<close>

text \<open>At most \<open>n\<close> bytes, and not past a newline.\<close>

fun take_line :: "nat \<Rightarrow> bytes \<Rightarrow> bytes \<times> bytes" where
  "take_line 0 d = ([], d)"
| "take_line (Suc n) [] = ([], [])"
| "take_line (Suc n) (b # d) = (if b = 10 then ([b], d) else (let (x, y) = take_line n d in (b # x, y)))"

definition read_stdin :: "bool \<Rightarrow> bytes \<Rightarrow> ('w, 'f, nat \<times> bytes) sys" where
  "read_stdin nonblocking staging =
     bnd (gets (\<lambda>s. sh_stdin (sh s))) (\<lambda>si.
     if si_data si = [] then
       (if si_closed si then ret (0, staging)
        else if nonblocking then err EAGAIN
        else thn (on_shared (sh_stdin_update (si_wanted_update (\<lambda>_. True)))) (fault FBlock))
     else let (got, rest) = take_line (length staging) (si_data si) in
       thn (on_shared (sh_stdin_update (\<lambda>si. si\<lparr>si_data := rest, si_wanted := False\<rparr>)))
       (ret (length got, got @ drop (length got) staging)))"

definition read_pipe :: "nat \<Rightarrow> bool \<Rightarrow> bytes \<Rightarrow> ('w, 'f, nat \<times> bytes) sys" where
  "read_pipe k nonblocking staging =
     bnd (bnd (gets (\<lambda>s. slab_get (sh_pipes (sh s)) k)) (ok_or EBADF)) (\<lambda>p.
     if p_data p = [] then
       (if p_writers p = 0 then ret (0, staging)
        else if nonblocking then err EAGAIN
        else fault FBlock)
     else let n = min (length (p_data p)) (length staging) in
       thn (on_shared (pipe_update k (\<lambda>p. p\<lparr>p_data := drop n (p_data p)\<rparr>)))
       (ret (n, take n (p_data p) @ drop n staging)))"

definition read_memory :: "nat \<Rightarrow> bytes \<Rightarrow> nat \<Rightarrow> bytes \<Rightarrow> ('w, 'f, nat \<times> bytes) sys" where
  "read_memory key data pos staging =
     (let start = min pos (length data);
          available = drop start data;
          n = min (length available) (length staging)
      in thn (on_shared (desc_update key (set_kind (KMemory data (start + n)))))
         (ret (n, take n available @ drop n staging)))"

definition read_bytes :: "int \<Rightarrow> bytes \<Rightarrow> ('w, 'f, nat \<times> bytes) sys" where
  "read_bytes fd staging =
     (if staging = [] then ret (0, staging)
      else bnd (get_fd fd) (\<lambda>entry.
           bnd (get_desc (fd_desc entry)) (\<lambda>desc.
           if \<not> readable desc then err EBADF
           else let nonblocking = is_nonblocking desc; key = fd_desc entry in
             (case d_kind desc of
                KFile f _ _ \<Rightarrow>
                  bnd (file_read key f staging) (\<lambda>(r, b). bnd (or_vfs_fault r) (\<lambda>n. ret (n, b)))
              | KMemory data pos \<Rightarrow> read_memory key data pos staging
              | KNull \<Rightarrow> ret (0, staging)
              | KZero \<Rightarrow> ret (length staging, staging)
              | KRandom \<Rightarrow> bnd (fill_random (length staging)) (\<lambda>bs. ret (length staging, bs))
              | KDir _ _ \<Rightarrow> err EISDIR
              | KPipeWrite _ \<Rightarrow> err EBADF
              | KStdout _ \<Rightarrow> err EBADF
              | KStdin \<Rightarrow> read_stdin nonblocking staging
              | KPipeRead k \<Rightarrow> read_pipe k nonblocking staging))))"

definition sys_read :: "int \<Rightarrow> u32 \<Rightarrow> u32 \<Rightarrow> ('w, 'f, int) sys" where
  "sys_read fd at len =
     (if len = 0 then ret 0
      else bnd (read_bytes fd (replicate (min (unat len) 1048576) 0)) (\<lambda>(produced, staging).
           thn (to_mem (mem_put at (case get_range staging 0 produced of Some bs \<Rightarrow> bs | None \<Rightarrow> [])))
           (ret (as_i32 (int produced)))))"

section \<open>Writing\<close>

definition write_pipe :: "nat \<Rightarrow> bool \<Rightarrow> bytes \<Rightarrow> ('w, 'f, nat) sys" where
  "write_pipe k nonblocking data =
     bnd (bnd (gets (\<lambda>s. slab_get (sh_pipes (sh s)) k)) (ok_or EBADF)) (\<lambda>p.
     if p_readers p = 0 then
       bnd (gets my_pid) (\<lambda>pid.
       thn (on_records (update_record pid (raise_sig SIGPIPE))) (err EPIPE))
     else let room = pipe_room p in
       if room = 0 then (if nonblocking then err EAGAIN else fault FBlock)
       else let n = min room (length data) in
         thn (on_shared (pipe_update k (\<lambda>p. p\<lparr>p_data := p_data p @ take n data\<rparr>))) (ret n))"

definition write_bytes :: "int \<Rightarrow> bytes \<Rightarrow> ('w, 'f, nat) sys" where
  "write_bytes fd data =
     bnd (get_fd fd) (\<lambda>entry.
     bnd (get_desc (fd_desc entry)) (\<lambda>desc.
     if \<not> writable desc then err EBADF
     else let nonblocking = is_nonblocking desc; key = fd_desc entry in
       (case d_kind desc of
          KFile f m _ \<Rightarrow>
            bnd (gets (\<lambda>s. is_read_only (sh s) m)) (\<lambda>ro.
            if ro then err EROFS
            else bnd (file_op key f (\<lambda>fo f w. fo_write fo data f w)) or_vfs_fault)
        | KNull \<Rightarrow> ret (length data)
        | KZero \<Rightarrow> ret (length data)
        | KRandom \<Rightarrow> ret (length data)
        | KMemory _ _ \<Rightarrow> ret (length data)
        | KDir _ _ \<Rightarrow> err EBADF
        | KPipeRead _ \<Rightarrow> err EBADF
        | KStdin \<Rightarrow> err EBADF
        | KStdout which \<Rightarrow>
            run (\<lambda>s. let (n, s') = write_output which data (sh s) in (n, s\<lparr>sh := s'\<rparr>))
        | KPipeWrite k \<Rightarrow> write_pipe k nonblocking data)))"

definition sys_write :: "int \<Rightarrow> u32 \<Rightarrow> u32 \<Rightarrow> ('w, 'f, int) sys" where
  "sys_write fd at len =
     bnd (from_mem (\<lambda>m. mem_bytes m at len)) (\<lambda>data.
     bnd (write_bytes fd data) (\<lambda>n. ret (as_i32 (int n))))"

text \<open>\<open>readv\<close> and \<open>writev\<close>: \<open>n\<close> vectors left, of which \<open>i\<close> is the next.\<close>

fun sys_vec :: "bool \<Rightarrow> int \<Rightarrow> u32 \<Rightarrow> nat \<Rightarrow> u32 \<Rightarrow> int \<Rightarrow> ('w, 'f, int) sys" where
  "sys_vec rd fd vec 0 i acc = ret acc"
| "sys_vec rd fd vec (Suc n) i acc =
     bnd (from_mem (\<lambda>m. mem_u32 m (vec + i * 8))) (\<lambda>at.
     bnd (from_mem (\<lambda>m. mem_u32 m (vec + i * 8 + 4))) (\<lambda>len.
     if len = 0 then sys_vec rd fd vec n (i + 1) acc
     else catching (if rd then sys_read fd at len else sys_write fd at len) (\<lambda>r.
       case r of
         Inr got \<Rightarrow>
           (let acc1 = sat_add_i32 acc got in
            if as_u32 got < len then ret acc1 else sys_vec rd fd vec n (i + 1) acc1)
       | Inl f \<Rightarrow> if 0 < acc then ret acc else fault f)))"

section \<open>Positions and lengths\<close>

definition sys_lseek :: "int \<Rightarrow> int \<Rightarrow> int \<Rightarrow> ('w, 'f, int) sys" where
  "sys_lseek fd offset whence =
     bnd (get_fd fd) (\<lambda>entry.
     bnd (get_desc (fd_desc entry)) (\<lambda>desc.
     bnd (case d_kind desc of
            KFile f _ _ \<Rightarrow>
              bnd (if whence = SEEK_SET then ret (SeekStart (as_u64 (max offset 0)))
                   else if whence = SEEK_CUR then ret (SeekCurrent offset)
                   else if whence = SEEK_END then ret (SeekEnd offset)
                   else err EINVAL) (\<lambda>from.
              bnd (file_op (fd_desc entry) f (\<lambda>fo f w. fo_seek fo from f w)) or_vfs_fault)
          | KDir entries pos \<Rightarrow>
              thn (if whence = SEEK_SET \<and> offset = 0
                   then on_shared (desc_update (fd_desc entry) (set_kind (KDir entries 0))) else ret ())
              (ret 0)
          | KNull \<Rightarrow> ret 0
          | KZero \<Rightarrow> ret 0
          | KRandom \<Rightarrow> ret 0
          | _ \<Rightarrow> err ESPIPE) (\<lambda>position.
     if I32_MAX < uint position then err EOVERFLOW else ret (uint position))))"

definition join_u64 :: "u32 \<Rightarrow> u32 \<Rightarrow> u64" where
  "join_u64 lo hi = ucast lo OR push_bit 32 (ucast hi)"

definition sys_ftruncate :: "int \<Rightarrow> u64 \<Rightarrow> ('w, 'f, int) sys" where
  "sys_ftruncate fd len =
     bnd (get_fd fd) (\<lambda>entry.
     bnd (get_desc (fd_desc entry)) (\<lambda>desc.
     case d_kind desc of
       KFile f m _ \<Rightarrow>
         bnd (gets (\<lambda>s. is_read_only (sh s) m)) (\<lambda>ro.
         if ro then err EROFS
         else bnd (file_op (fd_desc entry) f (\<lambda>fo f w. fo_set_len fo len f w)) (\<lambda>r.
              thn (or_vfs_fault r) (ret 0)))
     | _ \<Rightarrow> err EINVAL))"

definition sys_truncate :: "u32 \<Rightarrow> u64 \<Rightarrow> ('w, 'f, int) sys" where
  "sys_truncate path_at len =
     bnd (from_mem (\<lambda>m. mem_cstr m path_at)) (\<lambda>path.
     bnd (sys_resolve AT_FDCWD path True) (\<lambda>node.
     case node of
       Mounted i rel _ \<Rightarrow>
         bnd (gets (\<lambda>s. is_read_only (sh s) i)) (\<lambda>ro.
         if ro then err EROFS
         else bnd (bnd (gets (\<lambda>s. sh_vfs (sh s) i)) (ok_or ENOENT)) (\<lambda>v.
              thn (vfs_call (v_truncate v rel len)) (ret 0)))
     | _ \<Rightarrow> err EROFS))"

section \<open>Descriptors\<close>

definition sys_close :: "int \<Rightarrow> ('w, 'f, int) sys" where
  "sys_close fd =
     bnd (on_fds (fdt_take fd)) (\<lambda>entry.
     thn (on_shared (release_desc (fd_desc entry))) (ret 0))"

definition incref :: "nat \<Rightarrow> ('w, 'f, unit) sys" where
  "incref k = on_shared (sh_descs_update (desc_incref k))"

text \<open>\<open>dup\<close>, \<open>F_DUPFD\<close> and reopening \<open>/proc/self/fd/N\<close>: share the description.\<close>

definition dup_fd :: "int \<Rightarrow> bool \<Rightarrow> nat \<Rightarrow> ('w, 'f, int) sys" where
  "dup_fd fd cloexec lo =
     bnd (get_fd fd) (\<lambda>entry.
     thn (incref (fd_desc entry))
    (bnd (gets limit_files) (\<lambda>limit.
     on_fds (fdt_alloc \<lparr>fd_desc = fd_desc entry, fd_cloexec = cloexec\<rparr> lo limit))))"

definition sys_dup3 :: "int \<Rightarrow> int \<Rightarrow> u32 \<Rightarrow> ('w, 'f, int) sys" where
  "sys_dup3 from to flags =
     (if from = to then err EINVAL
      else bnd (get_fd from) (\<lambda>entry.
           thn (incref (fd_desc entry))
          (bnd (gets limit_files) (\<lambda>limit.
           bnd (on_fds (fdt_replace to
                  \<lparr>fd_desc = fd_desc entry, fd_cloexec = (flags AND O_CLOEXEC \<noteq> 0)\<rparr> limit)) (\<lambda>replaced.
           thn (case replaced of Some old \<Rightarrow> on_shared (release_desc (fd_desc old)) | None \<Rightarrow> ret ())
           (ret to))))))"

definition insert_pipe :: "('w, 'f, nat) sys" where
  "insert_pipe =
     bnd (run (\<lambda>s. let (k, ps) = slab_insert pipe_new (limit_files s) (sh_pipes (sh s)) in
            (k, s\<lparr>sh := (sh s)\<lparr>sh_pipes := ps\<rparr>\<rparr>))) (ok_or EMFILE)"

definition insert_desc :: "'f desc \<Rightarrow> ('w, 'f, nat) sys" where
  "insert_desc d =
     bnd (run (\<lambda>s. let (k, ds) = slab_insert d (sat_mul_u64 (limit_files s) 4) (sh_descs (sh s)) in
            (k, s\<lparr>sh := (sh s)\<lparr>sh_descs := ds\<rparr>\<rparr>))) (ok_or EMFILE)"

definition alloc_fd :: "nat \<Rightarrow> bool \<Rightarrow> ('w, 'f, int) sys" where
  "alloc_fd k cloexec =
     bnd (gets limit_files) (\<lambda>limit.
     on_fds (fdt_alloc \<lparr>fd_desc = k, fd_cloexec = cloexec\<rparr> 0 limit))"

definition sys_pipe2 :: "u32 \<Rightarrow> u32 \<Rightarrow> ('w, 'f, int) sys" where
  "sys_pipe2 at flags =
     bnd insert_pipe (\<lambda>p.
     bnd (insert_desc (desc_new (KPipeRead p) ''pipe:'' (O_RDONLY OR (flags AND O_NONBLOCK)))) (\<lambda>rd.
     bnd (insert_desc (desc_new (KPipeWrite p) ''pipe:'' (O_WRONLY OR (flags AND O_NONBLOCK)))) (\<lambda>wd.
     let cloexec = (flags AND O_CLOEXEC \<noteq> 0) in
     bnd (alloc_fd rd cloexec) (\<lambda>rfd.
     bnd (catching (alloc_fd wd cloexec) (\<lambda>r.
            case r of
              Inr fd \<Rightarrow> ret fd
            | Inl e \<Rightarrow>
                thn (catching (on_fds (fdt_take rfd)) (\<lambda>t.
                       case t of Inr entry \<Rightarrow> on_shared (release_desc (fd_desc entry)) | Inl _ \<Rightarrow> ret ()))
                (fault e))) (\<lambda>wfd.
     thn (to_mem (mem_put_u32 at (as_u32 rfd)))
    (thn (to_mem (mem_put_u32 (at + 4) (as_u32 wfd)))
     (ret 0)))))))"

definition sys_fcntl :: "int \<Rightarrow> int \<Rightarrow> u32 \<Rightarrow> ('w, 'f, int) sys" where
  "sys_fcntl fd command argument =
     (if command = F_DUPFD \<or> command = F_DUPFD_CLOEXEC then
        dup_fd fd (command = F_DUPFD_CLOEXEC) (nat (max (sint argument) 0))
      else if command = F_GETFD then
        bnd (get_fd fd) (\<lambda>e. ret (if fd_cloexec e then uint FD_CLOEXEC else 0))
      else if command = F_SETFD then
        thn (on_fds (fdt_set_cloexec fd (argument AND FD_CLOEXEC \<noteq> 0))) (ret 0)
      else if command = F_GETFL then
        bnd (get_fd fd) (\<lambda>e. bnd (get_desc (fd_desc e)) (\<lambda>d. ret (sint (d_flags d))))
      else if command = F_SETFL then
        bnd (get_fd fd) (\<lambda>e. bnd (get_desc (fd_desc e)) (\<lambda>d.
        thn (on_shared (desc_update (fd_desc e) (\<lambda>d. d\<lparr>d_flags :=
               (d_flags d AND O_ACCMODE) OR (argument AND (O_APPEND OR O_NONBLOCK))\<rparr>)))
        (ret 0)))
      else if command = F_GETLK \<or> command = F_SETLK \<or> command = F_SETLKW then
        bnd (get_fd fd) (\<lambda>_. ret 0)
      else err EINVAL)"

section \<open>\<open>ioctl\<close>\<close>

definition available :: "('w, 'f) shared \<Rightarrow> 'f desc_kind \<Rightarrow> nat" where
  "available s kind =
     (case kind of
        KPipeRead k \<Rightarrow> (case slab_get (sh_pipes s) k of Some p \<Rightarrow> length (p_data p) | None \<Rightarrow> 0)
      | KStdin \<Rightarrow> length (si_data (sh_stdin s))
      | KMemory data pos \<Rightarrow> length data - pos
      | _ \<Rightarrow> 0)"

definition terminal_size :: "('w, 'f) shared \<Rightarrow> u16 \<times> u16" where
  "terminal_size s = (case sh_terminal s of Some t \<Rightarrow> (cols t, rows t) | None \<Rightarrow> (80, 24))"

definition has_terminal :: "('w, 'f) shared \<Rightarrow> bool" where
  "has_terminal s \<longleftrightarrow> sh_terminal s \<noteq> None"

text \<open>The requests that need a terminal.\<close>

definition terminal_ioctl :: "u32 \<Rightarrow> u32 \<Rightarrow> ('w, 'f, int) sys" where
  "terminal_ioctl request argument =
     (if request = TIOCGWINSZ then
        bnd (gets (\<lambda>s. terminal_size (sh s))) (\<lambda>(c, r).
        thn (to_mem (mem_put_u16 argument r))
       (thn (to_mem (mem_put_u16 (argument + 2) c))
       (thn (to_mem (mem_put_u16 (argument + 4) 0))
       (thn (to_mem (mem_put_u16 (argument + 6) 0)) (ret 0)))))
      else if request = TIOCGPGRP then
        bnd (gets my_pgid) (\<lambda>group.
        thn (to_mem (mem_put_u32 argument (as_u32 group))) (ret 0))
      else if request = TCGETS then
        bnd (bnd (gets (\<lambda>s. sh_terminal (sh s))) (ok_or ENOTTY)) (\<lambda>t.
        thn (to_mem (mem_put argument (termios_encode (tio t)))) (ret 0))
      else if request = TCSETS \<or> request = TCSETSW \<or> request = TCSETSF then
        bnd (from_mem (\<lambda>m. mem_bytes m argument (of_nat TERMIOS_BYTES))) (\<lambda>bs.
        bnd (ok_or EINVAL (termios_decode bs)) (\<lambda>nxt.
        bnd (bnd (gets (\<lambda>s. sh_terminal (sh s))) (ok_or ENOTTY)) (\<lambda>t.
        thn (on_shared (sh_terminal_update (\<lambda>_. Some (t\<lparr>tio := nxt\<rparr>)))) (ret 0))))
      else if request = TIOCSPGRP \<or> request = TIOCSWINSZ \<or> request = TIOCSCTTY \<or> request = TIOCNOTTY then
        ret 0
      else err ENOTTY)"

definition sys_ioctl :: "int \<Rightarrow> u32 \<Rightarrow> u32 \<Rightarrow> ('w, 'f, int) sys" where
  "sys_ioctl fd request argument =
     bnd (get_fd fd) (\<lambda>entry.
     if request = FIOCLEX \<or> request = FIONCLEX then
       thn (on_fds (fdt_set_cloexec fd (request = FIOCLEX))) (ret 0)
     else if request = FIONBIO then
       bnd (from_mem (\<lambda>m. mem_u32 m argument)) (\<lambda>v.
       bnd (get_desc (fd_desc entry)) (\<lambda>_.
       thn (on_shared (desc_update (fd_desc entry) (\<lambda>d. d\<lparr>d_flags :=
              (if v \<noteq> 0 then d_flags d OR O_NONBLOCK else d_flags d AND NOT O_NONBLOCK)\<rparr>)))
       (ret 0)))
     else if request = FIONREAD then
       bnd (get_desc (fd_desc entry)) (\<lambda>d.
       bnd (gets (\<lambda>s. available (sh s) (d_kind d))) (\<lambda>n.
       thn (to_mem (mem_put_u32 argument (of_nat n))) (ret 0)))
     else
       bnd (get_desc (fd_desc entry)) (\<lambda>d.
       bnd (gets (\<lambda>s. has_terminal (sh s))) (\<lambda>ht.
       if \<not> is_std_stream d \<or> \<not> ht then err ENOTTY
       else terminal_ioctl request argument)))"

section \<open>Directory listings\<close>

definition dent_len :: "dir_ent \<Rightarrow> nat" where
  "dent_len item = next_multiple_of (19 + length (dent_name item) + 1) 8"

definition dent_bytes :: "nat \<Rightarrow> dir_ent \<Rightarrow> bytes" where
  "dent_bytes pos item =
     resize (dent_len item) 0
       (le64 (dent_ino item) @ le64 (of_nat (pos + 1)) @ le16 (of_nat (dent_len item)) @
        [dent_kind item] @ as_bytes (dent_name item))"

text \<open>The records that fit; \<open>None\<close> when not even the first does.\<close>

fun dents_from :: "nat \<Rightarrow> dir_ent list \<Rightarrow> nat \<Rightarrow> bytes \<Rightarrow> (bytes \<times> nat) option" where
  "dents_from capacity [] pos block = Some (block, pos)"
| "dents_from capacity (item # rest) pos block =
     (if capacity < length block + dent_len item then
        (if block = [] then None else Some (block, pos))
      else dents_from capacity rest (pos + 1) (block @ dent_bytes pos item))"

definition sys_getdents :: "int \<Rightarrow> u32 \<Rightarrow> u32 \<Rightarrow> ('w, 'f, int) sys" where
  "sys_getdents fd at capacity =
     bnd (get_fd fd) (\<lambda>entry.
     bnd (get_desc (fd_desc entry)) (\<lambda>desc.
     case d_kind desc of
       KDir entries pos \<Rightarrow>
         bnd (ok_or EINVAL (dents_from (unat capacity) (drop pos entries) pos [])) (\<lambda>(block, pos1).
         thn (on_shared (desc_update (fd_desc entry) (set_kind (KDir entries pos1))))
        (thn (to_mem (mem_put at block))
         (ret (as_i32 (int (length block))))))
     | _ \<Rightarrow> err ENOTDIR))"

end
