(* ===== verification/Sys_Proc.thy ===== *)
theory Sys_Proc
  imports Sys_IO
begin

text \<open>
  Processes, signals, time and memory (\<open>kernel/syscall.rs\<close>): \<open>exit\<close>, \<open>vfork\<close>, \<open>execve\<close>,
  \<open>wait4\<close>, process groups, signal actions and delivery, clocks and sleeping, \<open>brk\<close> and \<open>mmap\<close>.
\<close>

section \<open>Process lifetime\<close>

definition sys_exit :: "int \<Rightarrow> ('w, 'f, int) sys" where
  "sys_exit code =
     bnd (gets (\<lambda>s. (c_vfork_stack (cx s), the_task s))) (\<lambda>(stack, child).
     case stack of
       parent # rest \<Rightarrow>
         thn (modify (cx_update (\<lambda>c. c\<lparr>c_task := parent, c_vfork_stack := rest\<rparr>)))
        (thn (on_shared (release_fds (t_fds child)))
        (thn (on_shared (set_exit (t_pid child) (status_exited code)))
         (ret (t_pid child))))
     | [] \<Rightarrow> fault (FExit (status_exited code)))"

definition vfork_child :: "int \<Rightarrow> fd_table \<Rightarrow> task \<Rightarrow> task" where
  "vfork_child pid fds t =
     (task_new pid fds)\<lparr>t_cwd := t_cwd t, t_umask := t_umask t, t_sigact := t_sigact t,
        t_sigmask := t_sigmask t, t_exe := t_exe t, t_comm := t_comm t\<rparr>"

definition sys_clone :: "u32 \<Rightarrow> ('w, 'f, int) sys" where
  "sys_clone flags =
     (if flags AND CLONE_VFORK = 0 \<or> flags AND CLONE_VM = 0 \<or> flags AND CLONE_THREAD \<noteq> 0 then err ENOSYS
      else
        bnd (bnd (run (\<lambda>s. let (p, s') = fork_record (the_task s) (sh s) in (p, s\<lparr>sh := s'\<rparr>)))
                 (ok_or EAGAIN)) (\<lambda>pid.
        bnd (run (\<lambda>s. let (fds, ds) = fdt_duplicate (t_fds (the_task s)) (sh_descs (sh s)) in
               (fds, s\<lparr>sh := (sh s)\<lparr>sh_descs := ds\<rparr>\<rparr>))) (\<lambda>fds.
        thn (modify (cx_update (\<lambda>c.
               c\<lparr>c_task := vfork_child pid fds (c_task c), c_vfork_stack := c_task c # c_vfork_stack c\<rparr>)))
        (ret 0))))"

text \<open>Close-on-exec, then a process of its own for a \<open>vfork\<close> child, or a new instance.\<close>

definition finish_exec :: "nat \<Rightarrow> string \<Rightarrow> bytes list \<Rightarrow> bytes list \<Rightarrow> ('w, 'f, int) sys" where
  "finish_exec program exe argv envp =
     bnd (gets (\<lambda>s. fdt_drain_cloexec (t_fds (the_task s)))) (\<lambda>(closing, fds).
     thn (on_task (t_fds_update (\<lambda>_. fds)))
    (thn (on_shared (fold release_desc closing))
    (bnd (gets (\<lambda>s. (c_vfork_stack (cx s), the_task s))) (\<lambda>(stack, t).
     let sp = \<lparr>sp_task = t, sp_program = program, sp_exe = exe, sp_argv = argv, sp_envp = envp\<rparr> in
     case stack of
       parent # rest \<Rightarrow>
         thn (modify (cx_update (\<lambda>c. c\<lparr>c_task := parent, c_vfork_stack := rest\<rparr>)))
        (thn (on_shared (sh_spawn_update (\<lambda>l. l @ [sp]))) (ret (t_pid t)))
     | [] \<Rightarrow>
         thn (modify (cx_update (\<lambda>c. c\<lparr>c_task := task_new 0 fdt_new, c_exec_request := Some sp\<rparr>)))
         (fault FExec)))))"

definition shebang :: "bytes \<Rightarrow> string option" where
  "shebang head =
     (case strip_prefix [35, 33] head of
        None \<Rightarrow> None
      | Some rest \<Rightarrow>
          let text = trim (from_utf8_lossy (hd (split_on 10 rest))) in
          if text = [] then None else Some text)"

definition script_argv :: "string \<Rightarrow> string \<Rightarrow> bytes list \<Rightarrow> string \<times> bytes list" where
  "script_argv ln path argv =
     (let (interpreter, more) = splitn2_ws ln;
          extra = (case map_option trim more of Some x \<Rightarrow> if x = [] then [] else [as_bytes x] | None \<Rightarrow> [])
      in (interpreter, [as_bytes interpreter] @ extra @ [as_bytes path] @ drop 1 argv))"

definition sys_execve :: "u32 \<Rightarrow> u32 \<Rightarrow> u32 \<Rightarrow> ('w, 'f, int) sys" where
  "sys_execve path_at argv_at envp_at =
     bnd (from_mem (\<lambda>m. mem_cstr m path_at)) (\<lambda>path.
     bnd (from_mem (\<lambda>m. mem_cstr_array m argv_at)) (\<lambda>argv.
     bnd (from_mem (\<lambda>m. mem_cstr_array m envp_at)) (\<lambda>envp.
     bnd (sys_resolve AT_FDCWD path True) (\<lambda>node.
     case node of
       Program i guest \<Rightarrow> finish_exec i guest argv envp
     | Mounted m rel _ \<Rightarrow>
         bnd (bnd (gets (\<lambda>s. sh_vfs (sh s) m)) (ok_or ENOENT)) (\<lambda>v.
         bnd (world_op (v_stat v rel True)) (\<lambda>st.
         if (case st of Inr x \<Rightarrow> st_type x = Dir | Inl _ \<Rightarrow> False) then err EACCES
         else bnd (vfs_call (v_open v rel open_options_read)) (\<lambda>f.
              bnd (gets (\<lambda>s. o_fops (sh_out (sh s)))) (\<lambda>fo.
              bnd (world_op (\<lambda>w. let (r, b, f1, w1) = read_into fo (replicate 256 0) f w in ((r, b, f1), w1)))
                  (\<lambda>(r, b, f1).
              bnd (or_vfs_fault r) (\<lambda>n.
              bnd (world_op (\<lambda>w. let (r', f2, w1) = fo_close fo f1 w in (r', w1))) (\<lambda>_.
              bnd (ok_or ENOEXEC (shebang (case get_range b 0 n of Some h \<Rightarrow> h | None \<Rightarrow> []))) (\<lambda>ln.
              let (interpreter, rebuilt) = script_argv ln path argv in
              bnd (sys_resolve AT_FDCWD interpreter True) (\<lambda>node'.
              case node' of
                Program i guest \<Rightarrow> finish_exec i guest rebuilt envp
              | _ \<Rightarrow> err ENOEXEC))))))))
         )
     | _ \<Rightarrow> err EACCES))))"

definition waits_for :: "int \<Rightarrow> int \<Rightarrow> int \<Rightarrow> proc_record \<Rightarrow> bool" where
  "waits_for pid pgid which r \<longleftrightarrow>
     pr_ppid r = pid \<and>
     (if which = -1 then True
      else if which = 0 then pr_pgid r = pgid
      else if 0 < which then pr_pid r = which
      else pr_pgid r = as_i32 (- which))"

definition sys_wait4 :: "int \<Rightarrow> u32 \<Rightarrow> u32 \<Rightarrow> u32 \<Rightarrow> ('w, 'f, int) sys" where
  "sys_wait4 which status_at options rusage_at =
     bnd (gets (\<lambda>s. filter (waits_for (my_pid s) (my_pgid s) which) (sh_table (sh s)))) (\<lambda>candidates.
     if candidates = [] then err ECHILD
     else (case List.find (\<lambda>r. pr_exit r \<noteq> None) candidates of
         None \<Rightarrow> if options AND WNOHANG \<noteq> 0 then ret 0 else fault FBlock
       | Some r \<Rightarrow>
           thn (on_records (filter (\<lambda>x. pr_pid x \<noteq> pr_pid r)))
          (thn (if status_at \<noteq> 0 then to_mem (mem_put_u32 status_at (as_u32 (the (pr_exit r)))) else ret ())
          (thn (if rusage_at \<noteq> 0 then to_mem (mem_zero rusage_at 72) else ret ())
           (ret (pr_pid r))))))"

section \<open>Identity\<close>

definition sys_getppid :: "('w, 'f, int) sys" where
  "sys_getppid = gets (\<lambda>s. case record_of (my_pid s) (sh_table (sh s)) of Some r \<Rightarrow> pr_ppid r | None \<Rightarrow> 0)"

definition target_pid :: "int \<Rightarrow> ('w, 'f) st \<Rightarrow> int" where
  "target_pid n s = (if n = 0 then my_pid s else n)"

definition get_record :: "int \<Rightarrow> ('w, 'f, proc_record) sys" where
  "get_record pid = bnd (gets (\<lambda>s. record_of pid (sh_table (sh s)))) (ok_or ESRCH)"

definition sys_setpgid :: "int \<Rightarrow> int \<Rightarrow> ('w, 'f, int) sys" where
  "sys_setpgid n g =
     bnd (gets (target_pid n)) (\<lambda>target.
     bnd (get_record target) (\<lambda>_.
     thn (on_records (update_record target (pr_pgid_update (\<lambda>_. if g = 0 then target else g)))) (ret 0)))"

definition sys_getpgid :: "int \<Rightarrow> ('w, 'f, int) sys" where
  "sys_getpgid n = bnd (gets (target_pid n)) (\<lambda>t. bnd (get_record t) (\<lambda>r. ret (pr_pgid r)))"

definition sys_setsid :: "('w, 'f, int) sys" where
  "sys_setsid =
     bnd (gets my_pid) (\<lambda>pid.
     bnd (get_record pid) (\<lambda>_.
     thn (on_records (update_record pid (\<lambda>r. r\<lparr>pr_pgid := pid, pr_sid := pid\<rparr>))) (ret pid)))"

definition sys_getsid :: "int \<Rightarrow> ('w, 'f, int) sys" where
  "sys_getsid n = bnd (gets (target_pid n)) (\<lambda>t. bnd (get_record t) (\<lambda>r. ret (pr_sid r)))"

definition sys_sched_getaffinity :: "u32 \<Rightarrow> ('w, 'f, int) sys" where
  "sys_sched_getaffinity a2 =
     thn (if 8 \<le> sint a2 then to_mem (mem_put_u64 a2 1) else ret ()) (ret 8)"

definition sys_umask :: "u32 \<Rightarrow> ('w, 'f, int) sys" where
  "sys_umask a0 =
     bnd (gets (\<lambda>s. t_umask (the_task s))) (\<lambda>previous.
     thn (on_task (t_umask_update (\<lambda>_. a0 AND 511))) (ret (sint previous)))"

definition uname_block :: bytes where
  "uname_block =
     fold (\<lambda>(i, text) b. overwrite (i * 65) (as_bytes text) b)
       (enumerate 0 [''Linux'', ''wasmux'', KERNEL_RELEASE, ''#1 wasmux'', ''wasm32'', ''(none)''])
       (replicate (65 * 6) 0)"

definition sys_uname :: "u32 \<Rightarrow> ('w, 'f, int) sys" where
  "sys_uname a0 = thn (to_mem (mem_put a0 uname_block)) (ret 0)"

definition sysinfo_block :: "nat \<Rightarrow> ('w, 'f) shared \<Rightarrow> bytes" where
  "sysinfo_block up s =
     (let tot = min (lim_memory (sh_limits s)) U32_MAX;
          used = min (sh_memory_used s) tot
      in fold (\<lambda>(off, bs) b. overwrite off bs b)
           [(0, le32 (of_nat (up div NANOS))), (16, le32 (of_nat tot)), (20, le32 (of_nat (tot - used))),
            (52, le32 1), (40, le16 (of_nat (live_count (sh_table s))))] (replicate 64 0))"

definition sys_sysinfo :: "u32 \<Rightarrow> ('w, 'f, int) sys" where
  "sys_sysinfo a0 =
     bnd elapsed (\<lambda>up.
     bnd (gets (\<lambda>s. sysinfo_block up (sh s))) (\<lambda>block.
     thn (to_mem (mem_put a0 block)) (ret 0)))"

definition rlimits :: "int \<Rightarrow> limits \<Rightarrow> u64 \<times> u64" where
  "rlimits resource l =
     (if resource = RLIMIT_NOFILE then (of_nat (lim_open_files l), of_nat (lim_open_files l))
      else if resource = RLIMIT_STACK then (1048576, 1048576)
      else if resource = RLIMIT_CORE then (0, RLIM_INFINITY)
      else if resource = RLIMIT_DATA then (of_nat (lim_memory_per_process l), of_nat (lim_memory_per_process l))
      else (RLIM_INFINITY, RLIM_INFINITY))"

definition sys_prlimit :: "int \<Rightarrow> u32 \<Rightarrow> ('w, 'f, int) sys" where
  "sys_prlimit resource old_at =
     (if old_at = 0 then ret 0
      else bnd (gets (\<lambda>s. rlimits resource (sh_limits (sh s)))) (\<lambda>(soft, hard).
           thn (to_mem (mem_put_u64 old_at soft))
          (thn (to_mem (mem_put_u64 (old_at + 8) hard)) (ret 0))))"

definition sys_times :: "u32 \<Rightarrow> ('w, 'f, int) sys" where
  "sys_times a0 =
     thn (if a0 \<noteq> 0 then to_mem (mem_zero a0 16) else ret ())
    (bnd elapsed (\<lambda>t. ret (as_i32 (int (t div 1000000 div 10)))))"

definition sys_getrandom :: "u32 \<Rightarrow> u32 \<Rightarrow> ('w, 'f, int) sys" where
  "sys_getrandom at len =
     bnd (from_mem (\<lambda>m. mem_bytes m at len)) (\<lambda>old.
     bnd (fill_random (length old)) (\<lambda>bs.
     thn (to_mem (mem_put at bs)) (ret (sint len))))"

section \<open>Signals\<close>

definition sys_sigaction :: "int \<Rightarrow> u32 \<Rightarrow> u32 \<Rightarrow> ('w, 'f, int) sys" where
  "sys_sigaction signal action_at old_at =
     (if signal \<le> 0 \<or> NSIG \<le> nat signal then err EINVAL
      else
        thn (if old_at \<noteq> 0 then
               bnd (gets (\<lambda>s. task_action (the_task s) signal)) (\<lambda>p.
               thn (to_mem (mem_put_u32 old_at (sa_handler p)))
              (thn (to_mem (mem_put_u32 (old_at + 4) (sa_flags p)))
              (thn (to_mem (mem_put_u64 (old_at + 8) (sa_mask p)))
               (to_mem (mem_put_u32 (old_at + 16) 0)))))
             else ret ())
       (thn (if action_at \<noteq> 0 then
               (if signal = SIGKILL \<or> signal = SIGSTOP then err EINVAL
                else bnd (from_mem (\<lambda>m. mem_u32 m action_at)) (\<lambda>h.
                     bnd (from_mem (\<lambda>m. mem_u32 m (action_at + 4))) (\<lambda>fl.
                     bnd (from_mem (\<lambda>m. mem_u64 m (action_at + 8))) (\<lambda>blk.
                     on_task (task_set_action signal
                       \<lparr>sa_handler = h, sa_flags = fl, sa_mask = blk\<rparr>)))))
             else ret ())
        (ret 0)))"

definition sys_sigprocmask :: "int \<Rightarrow> u32 \<Rightarrow> u32 \<Rightarrow> ('w, 'f, int) sys" where
  "sys_sigprocmask how set_at old_at =
     bnd (gets (\<lambda>s. t_sigmask (the_task s))) (\<lambda>previous.
     thn (if set_at \<noteq> 0 then
            bnd (from_mem (\<lambda>m. mem_u64 m set_at)) (\<lambda>raw.
            let st = raw AND NOT (sig_bit SIGKILL OR sig_bit SIGSTOP) in
            bnd (if how = SIG_BLOCK then ret (previous OR st)
                 else if how = SIG_UNBLOCK then ret (previous AND NOT st)
                 else if how = SIG_SETMASK then ret st
                 else err EINVAL) (\<lambda>m.
            on_task (t_sigmask_update (\<lambda>_. m))))
          else ret ())
    (thn (if old_at \<noteq> 0 then to_mem (mem_put_u64 old_at previous) else ret ())
     (ret 0)))"

definition sys_sigpending :: "u32 \<Rightarrow> ('w, 'f, int) sys" where
  "sys_sigpending a0 = bnd (gets pending_of) (\<lambda>p. thn (to_mem (mem_put_u64 a0 p)) (ret 0))"

definition sys_sigsuspend :: "u32 \<Rightarrow> ('w, 'f, int) sys" where
  "sys_sigsuspend a0 =
     bnd (from_mem (\<lambda>m. mem_u64 m a0)) (\<lambda>m.
     bnd (gets (\<lambda>s. t_sigmask (the_task s))) (\<lambda>cur.
     thn (on_exec (ex_mask_to_restore_update (\<lambda>old. if old = None then Some cur else old)))
    (thn (on_task (t_sigmask_update (\<lambda>_. m)))
    (bnd (gets interrupted) (\<lambda>i. if i then err EINTR else fault FBlock)))))"

definition signal_target :: "int \<Rightarrow> int \<Rightarrow> int \<Rightarrow> proc_record \<Rightarrow> bool" where
  "signal_target me my_group target r \<longleftrightarrow>
     (if 0 < target then pr_pid r = target
      else if target = 0 then pr_pgid r = my_group \<and> is_alive r
      else if target = -1 then pr_pid r \<noteq> 1 \<and> pr_pid r \<noteq> me \<and> is_alive r
      else pr_pgid r = as_i32 (- target) \<and> is_alive r)"

definition sys_kill :: "int \<Rightarrow> int \<Rightarrow> ('w, 'f, int) sys" where
  "sys_kill target signal =
     (if signal < 0 \<or> int NSIG \<le> signal then err EINVAL
      else
        bnd (gets (\<lambda>s. signal_target (my_pid s) (my_pgid s) target)) (\<lambda>hit.
        bnd (gets (\<lambda>s. \<exists>r \<in> set (sh_table (sh s)). hit r)) (\<lambda>delivered.
        thn (on_records (map (\<lambda>r. if hit r \<and> signal \<noteq> 0
               then (raise_sig signal r)\<lparr>pr_wake_at := None\<rparr> else r)))
        (if delivered then ret 0 else err ESRCH))))"

section \<open>Time\<close>

definition sys_clock_gettime :: "int \<Rightarrow> u32 \<Rightarrow> ('w, 'f, int) sys" where
  "sys_clock_gettime clock at =
     bnd (if clock = CLOCK_REALTIME then now_since_epoch
          else if clock = CLOCK_MONOTONIC \<or> clock = CLOCK_BOOTTIME then elapsed
          else if clock = CLOCK_PROCESS_CPUTIME_ID \<or> clock = CLOCK_THREAD_CPUTIME_ID then elapsed
          else err EINVAL) (\<lambda>t.
     thn (to_mem (mem_put_timespec at t)) (ret 0))"

definition sys_clock_getres :: "u32 \<Rightarrow> ('w, 'f, int) sys" where
  "sys_clock_getres a1 = thn (if a1 \<noteq> 0 then to_mem (mem_put_timespec a1 1) else ret ()) (ret 0)"

definition sys_gettimeofday :: "u32 \<Rightarrow> ('w, 'f, int) sys" where
  "sys_gettimeofday a0 =
     bnd now_since_epoch (\<lambda>t.
     thn (to_mem (mem_put_u32 a0 (of_nat (t div NANOS))))
    (thn (to_mem (mem_put_u32 (a0 + 4) (of_nat (t mod NANOS div 1000)))) (ret 0)))"

definition sys_nanosleep :: "u32 \<Rightarrow> bool \<Rightarrow> int \<Rightarrow> ('w, 'f, int) sys" where
  "sys_nanosleep request_at absolute clock =
     bnd (from_mem (\<lambda>m. mem_timespec m request_at)) (\<lambda>requested.
     bnd (if absolute then
            bnd (if clock = CLOCK_REALTIME then now_since_epoch else elapsed) (\<lambda>t.
            deadline (requested - t))
          else deadline requested) (\<lambda>until.
     bnd now (\<lambda>t.
     if until \<le> t then ret 0
     else thn (set_wake until) (fault FBlock))))"

section \<open>Memory\<close>

definition grow :: "nat \<Rightarrow> ('w, 'f, nat option) sys" where
  "grow pages = run (\<lambda>s. let (r, g) = mem_grow pages (gs s) in (r, s\<lparr>gs := g\<rparr>))"

definition charge :: "nat \<Rightarrow> ('w, 'f, bool) sys" where
  "charge n = run (\<lambda>s. let (ok, s') = charge_memory n (sh s) in (ok, s\<lparr>sh := s'\<rparr>))"

definition add_grown :: "nat \<Rightarrow> ('w, 'f, unit) sys" where
  "add_grown n = on_exec (ex_grown_update (\<lambda>g. sat_add_u64 g n))"

text \<open>Pages for this process, charged to the session, or not at all.\<close>

definition acquire :: "nat \<Rightarrow> nat \<Rightarrow> ('w, 'f, nat option) sys" where
  "acquire pages n =
     bnd (charge n) (\<lambda>ok.
     if \<not> ok then ret None
     else bnd (grow pages) (\<lambda>r.
          case r of
            Some previous \<Rightarrow> thn (add_grown n) (ret (Some previous))
          | None \<Rightarrow> thn (on_shared (release_memory n)) (ret None)))"

definition sys_brk :: "u32 \<Rightarrow> ('w, 'f, int) sys" where
  "sys_brk request =
     bnd (gets (\<lambda>s. length (g_mem (gs s)))) (\<lambda>current.
     if request = 0 \<or> unat request \<le> current then ret (as_i32 (int current))
     else let pages = div_ceil (unat request - current) PAGE;
              n = sat_mul_u64 pages PAGE in
       bnd (gets (\<lambda>s. lim_memory_per_process (sh_limits (sh s)))) (\<lambda>per_process.
       if per_process < unat request then ret (as_i32 (int current))
       else bnd (acquire pages n) (\<lambda>r.
            case r of
              Some _ \<Rightarrow> ret (sint request)
            | None \<Rightarrow> ret (as_i32 (int current)))))"

text \<open>Filling a buffer from a file: until it is full, or the file ends, or an error.\<close>

function fill_from ::
  "('w, 'f) file_ops \<Rightarrow> bytes \<Rightarrow> nat \<Rightarrow> 'f \<Rightarrow> 'w \<Rightarrow> (unit vfs_result \<times> bytes) \<times> 'f \<times> 'w" where
  "fill_from fo buf filled f w =
     (if length buf \<le> filled then ((Inr (), buf), f, w)
      else (case read_into fo (drop filled buf) f w of
          (Inl e, b, f1, w1) \<Rightarrow> ((Inl e, take filled buf @ b), f1, w1)
        | (Inr n, b, f1, w1) \<Rightarrow>
            if n = 0 then ((Inr (), take filled buf @ b), f1, w1)
            else fill_from fo (take filled buf @ b) (filled + n) f1 w1))"
  by pat_completeness auto
termination
  by (relation "measure (\<lambda>(fo, buf, filled, f, w). length buf - filled)")
    (auto simp: read_into_def split: prod.splits dest!: arg_cong [where f = length])

declare fill_from.simps [simp del]

definition map_file ::
  "nat \<Rightarrow> nat \<Rightarrow> ('w, 'f) file_ops \<Rightarrow> 'f \<Rightarrow> 'w \<Rightarrow> (unit vfs_result \<times> bytes) \<times> 'f \<times> 'w" where
  "map_file len offset fo f w =
     (let buf = replicate len 0 in
      case fo_seek fo (SeekCurrent 0) f w of
        (Inl e, f1, w1) \<Rightarrow> ((Inl e, buf), f1, w1)
      | (Inr saved, f1, w1) \<Rightarrow>
          (case fo_seek fo (SeekStart (of_nat (sat_mul_u64 offset 4096))) f1 w1 of
             (Inl e, f2, w2) \<Rightarrow> ((Inl e, buf), f2, w2)
           | (Inr _, f2, w2) \<Rightarrow>
               (case fill_from fo buf 0 f2 w2 of
                  ((Inl e, b), f3, w3) \<Rightarrow> ((Inl e, b), f3, w3)
                | ((Inr _, b), f3, w3) \<Rightarrow>
                    (case fo_seek fo (SeekStart saved) f3 w3 of (_, f4, w4) \<Rightarrow> ((Inr (), b), f4, w4)))))"

text \<open>A file mapping is a read, once, into the fresh memory.\<close>

definition map_into :: "u32 \<Rightarrow> int \<Rightarrow> nat \<Rightarrow> nat \<Rightarrow> ('w, 'f, unit) sys" where
  "map_into at fd len offset =
     bnd (get_fd fd) (\<lambda>entry.
     bnd (get_desc (fd_desc entry)) (\<lambda>desc.
     case d_kind desc of
       KFile f _ _ \<Rightarrow>
         bnd (file_op (fd_desc entry) f (map_file len offset)) (\<lambda>(out, buf).
         thn (or_vfs_fault out) (to_mem (mem_put at buf)))
     | _ \<Rightarrow> err ENODEV))"

definition sys_mmap :: "u32 \<Rightarrow> u32 \<Rightarrow> u32 \<Rightarrow> int \<Rightarrow> nat \<Rightarrow> ('w, 'f, int) sys" where
  "sys_mmap addr len flags fd offset =
     (if len = 0 then err EINVAL
      else if flags AND MAP_FIXED \<noteq> 0 \<and> addr \<noteq> 0 then err ENOMEM
      else
        let pages = div_ceil (unat len) PAGE; n = sat_mul_u64 pages PAGE in
        bnd (gets (\<lambda>s. (length (g_mem (gs s)), lim_memory_per_process (sh_limits (sh s)))))
            (\<lambda>(current, per_process).
        if per_process < sat_add_u64 current n then err ENOMEM
        else bnd (acquire pages n) (\<lambda>r.
        case r of
          None \<Rightarrow> err ENOMEM
        | Some previous \<Rightarrow>
            (let at = of_nat (sat_mul_u64 previous PAGE) in
             thn (if flags AND MAP_ANONYMOUS = 0 then map_into at fd (unat len) offset else ret ())
             (ret (sint at))))))"

end
