(* ===== verification/Sys_File.thy ===== *)
theory Sys_File
  imports Sys_Proc
begin

text \<open>
  The syscalls on paths (\<open>kernel/syscall.rs\<close>): \<open>openat\<close>, \<open>statx\<close>, and the ones that look at or
  change the directory tree.
\<close>

section \<open>Mounts\<close>

definition get_vfs :: "nat \<Rightarrow> ('w, 'f, ('w, 'f) vfs) sys" where
  "get_vfs i = bnd (gets (\<lambda>s. sh_vfs (sh s) i)) (ok_or ENOENT)"

text \<open>A change to a mount: refused on a read-only one.\<close>

definition on_mount :: "nat \<Rightarrow> (('w, 'f) vfs \<Rightarrow> 'w \<Rightarrow> unit vfs_result \<times> 'w) \<Rightarrow> ('w, 'f, int) sys" where
  "on_mount i oper =
     bnd (gets (\<lambda>s. is_read_only (sh s) i)) (\<lambda>ro.
     if ro then err EROFS
     else bnd (get_vfs i) (\<lambda>v. thn (vfs_call (oper v)) (ret 0)))"

section \<open>\<open>openat\<close>\<close>

definition base_entries :: "dir_ent list" where
  "base_entries =
     [\<lparr>dent_ino = 1, dent_kind = DT_DIR, dent_name = ''.''\<rparr>,
      \<lparr>dent_ino = 1, dent_kind = DT_DIR, dent_name = ''..''\<rparr>]"

definition virtual_dent :: "(string \<Rightarrow> u64) \<Rightarrow> string \<times> file_type \<Rightarrow> dir_ent" where
  "virtual_dent hash = (\<lambda>(name, kind).
     \<lparr>dent_ino = hashed_ino hash name, dent_kind = dirent_kind (Some kind), dent_name = name\<rparr>)"

definition listed_dent :: "(string \<Rightarrow> u64) \<Rightarrow> string \<Rightarrow> dir_entry \<Rightarrow> dir_ent" where
  "listed_dent hash guest item =
     \<lparr>dent_ino = (if de_ino item = 0 then hashed_ino hash (guest @ ''/'' @ de_name item) else de_ino item),
      dent_kind = dirent_kind (de_type item), dent_name = de_name item\<rparr>"

text \<open>The virtual entries the listing does not have yet.\<close>

definition merge_virtual ::
  "(string \<Rightarrow> u64) \<Rightarrow> (string \<times> file_type) list \<Rightarrow> dir_ent list \<Rightarrow> dir_ent list" where
  "merge_virtual hash vs entries =
     fold (\<lambda>v es. if fst v \<in> dent_name ` set es then es else es @ [virtual_dent hash v]) vs entries"

definition open_flags :: "u32 \<Rightarrow> u32 \<Rightarrow> u32 \<Rightarrow> open_options" where
  "open_flags flags md umask =
     (let access = flags AND O_ACCMODE in
      \<lparr>oo_read = (access = O_RDONLY \<or> access = O_RDWR),
       oo_write = (access = O_WRONLY \<or> access = O_RDWR),
       oo_append = (flags AND O_APPEND \<noteq> 0),
       oo_create = (flags AND O_CREAT \<noteq> 0),
       oo_create_new = (flags AND O_EXCL \<noteq> 0 \<and> flags AND O_CREAT \<noteq> 0),
       oo_truncate = (flags AND O_TRUNC \<noteq> 0 \<and> access \<noteq> O_RDONLY),
       oo_mode = md AND NOT umask AND 4095\<rparr>)"

definition wants_write :: "u32 \<Rightarrow> bool" where
  "wants_write flags \<longleftrightarrow>
     flags AND O_ACCMODE = O_WRONLY \<or> flags AND O_ACCMODE = O_RDWR \<or> flags AND (O_CREAT OR O_TRUNC) \<noteq> 0"

definition open_mounted ::
  "nat \<Rightarrow> string \<Rightarrow> string \<Rightarrow> u32 \<Rightarrow> u32 \<Rightarrow> ('w, 'f, 'f desc_kind \<times> string) sys" where
  "open_mounted i rel guest flags md =
     bnd (gets (\<lambda>s. is_read_only (sh s) i)) (\<lambda>ro.
     if wants_write flags \<and> ro then err EROFS
     else
       bnd (get_vfs i) (\<lambda>v.
       bnd (world_op (v_stat v rel True)) (\<lambda>r.
       bnd (case r of Inr st \<Rightarrow> ret (Some st) | Inl e \<Rightarrow> if e = ENOENT then ret None else vfs_fault e) (\<lambda>st.
       let is_dir = (case st of Some x \<Rightarrow> st_type x = Dir | None \<Rightarrow> False) in
       if flags AND O_DIRECTORY \<noteq> 0 \<and> st \<noteq> None \<and> \<not> is_dir then err ENOTDIR
       else if is_dir then
         (if wants_write flags then err EISDIR
          else
            bnd (vfs_call (v_readdir v rel)) (\<lambda>listing.
            bnd (gets (\<lambda>s. (o_hash (sh_out (sh s)), virtual_entries (sh_resolver (sh s)) guest)))
                (\<lambda>(hash, vs).
            ret (KDir (merge_virtual hash vs (base_entries @ map (listed_dent hash guest) listing)) 0, guest))))
       else
         bnd (gets (\<lambda>s. t_umask (the_task s))) (\<lambda>umask.
         bnd (vfs_call (v_open v rel (open_flags flags md umask))) (\<lambda>f.
         ret (KFile f i False, guest)))))))"

text \<open>What a node opens as: a new description, or a descriptor to share.\<close>

definition open_node ::
  "node \<Rightarrow> u32 \<Rightarrow> u32 \<Rightarrow> ('w, 'f, int + 'f desc_kind \<times> string) sys" where
  "open_node node flags md =
     (case node of
        Program _ guest \<Rightarrow> if wants_write flags then err EROFS else ret (Inr (KNull, guest))
      | Device d \<Rightarrow>
          (case d of
             DevNull \<Rightarrow> ret (Inr (KNull, []))
           | DevZero \<Rightarrow> ret (Inr (KZero, []))
           | DevRandom \<Rightarrow> ret (Inr (KRandom, []))
           | DevTty \<Rightarrow> ret (Inr (if flags AND O_ACCMODE = O_RDONLY then KStdin else KStdout 1, []))
           | DevFd fd \<Rightarrow> ret (Inl fd))
      | Synth guest \<Rightarrow>
          if wants_write flags then err EROFS
          else bnd (proc_content guest) (\<lambda>c. ret (Inr (KMemory c 0, guest)))
      | VirtualDir guest \<Rightarrow>
          if wants_write flags then err EISDIR
          else bnd (gets (\<lambda>s. (o_hash (sh_out (sh s)), virtual_entries (sh_resolver (sh s)) guest)))
                 (\<lambda>(hash, vs). ret (Inr (KDir (base_entries @ map (virtual_dent hash) vs) 0, guest)))
      | VirtualLink _ \<Rightarrow> err ELOOP
      | Mounted i rel guest \<Rightarrow> bnd (open_mounted i rel guest flags md) (\<lambda>k. ret (Inr k)))"

text \<open>A new description with a descriptor on it; without a descriptor it is released.\<close>

definition install_desc :: "'f desc \<Rightarrow> bool \<Rightarrow> ('w, 'f, int) sys" where
  "install_desc d cloexec =
     bnd (insert_desc d) (\<lambda>key.
     catching (alloc_fd key cloexec) (\<lambda>r.
       case r of
         Inr fd \<Rightarrow> ret fd
       | Inl e \<Rightarrow> thn (on_shared (release_desc key)) (fault e)))"

definition sys_openat :: "int \<Rightarrow> u32 \<Rightarrow> u32 \<Rightarrow> u32 \<Rightarrow> ('w, 'f, int) sys" where
  "sys_openat dirfd path_at flags md =
     bnd (from_mem (\<lambda>m. mem_cstr m path_at)) (\<lambda>path.
     bnd (sys_resolve dirfd path (flags AND O_NOFOLLOW = 0)) (\<lambda>node.
     let cloexec = (flags AND O_CLOEXEC \<noteq> 0);
         status = flags AND (O_ACCMODE OR O_APPEND OR O_NONBLOCK)
     in bnd (open_node node flags md) (\<lambda>what.
        case what of
          Inl fd \<Rightarrow> dup_fd fd cloexec 0
        | Inr (kind, guest) \<Rightarrow> install_desc (desc_new kind guest status) cloexec)))"

section \<open>\<open>statx\<close>\<close>

definition with_mode :: "u32 \<Rightarrow> stat \<Rightarrow> stat" where
  "with_mode md st = st\<lparr>st_mode := md\<rparr>"

definition stat_desc :: "nat \<Rightarrow> 'f desc \<Rightarrow> ('w, 'f, stat \<times> string \<times> u32 \<times> u32) sys" where
  "stat_desc key d =
     (case d_kind d of
        KFile f _ _ \<Rightarrow>
          bnd (gets (\<lambda>s. o_fops (sh_out (sh s)))) (\<lambda>fo.
          bnd (vfs_call (fo_stat fo f)) (\<lambda>st. ret (st, d_path d, 0, 0)))
      | KDir _ _ \<Rightarrow> ret (stat_dir, d_path d, 0, 0)
      | KPipeRead _ \<Rightarrow> ret (with_mode 384 (stat_file 0), ''pipe:'', 0, 0)
      | KPipeWrite _ \<Rightarrow> ret (with_mode 384 (stat_file 0), ''pipe:'', 0, 0)
      | KStdin \<Rightarrow> ret (with_mode 400 (stat_file 0), d_path d, 5, 0)
      | KStdout _ \<Rightarrow> ret (with_mode 400 (stat_file 0), d_path d, 5, 0)
      | KMemory data _ \<Rightarrow> ret (stat_file (of_nat (length data)), d_path d, 0, 0)
      | _ \<Rightarrow> ret (with_mode 438 (stat_file 0), d_path d, 1, 3))"

definition stat_node :: "node \<Rightarrow> string \<Rightarrow> bool \<Rightarrow> ('w, 'f, stat \<times> string \<times> u32 \<times> u32) sys" where
  "stat_node node path follow =
     (case node of
        Program _ guest \<Rightarrow> ret (with_mode 493 (stat_file 0), guest, 0, 0)
      | Device d \<Rightarrow>
          (let (md, rdev) = (case d of
                DevNull \<Rightarrow> (438, (1, 3)) | DevZero \<Rightarrow> (438, (1, 5)) | DevRandom \<Rightarrow> (438, (1, 9))
              | DevTty \<Rightarrow> (400, (5, 0)) | DevFd _ \<Rightarrow> (400, (5, 0)))
           in ret (with_mode md (stat_file 0), path, rdev))
      | Synth guest \<Rightarrow>
          bnd (proc_content guest) (\<lambda>c. ret (with_mode 292 (stat_file (of_nat (length c))), guest, 0, 0))
      | VirtualDir guest \<Rightarrow> ret (stat_dir, guest, 0, 0)
      | VirtualLink target \<Rightarrow> ret (stat_symlink (of_nat (length target)), path, 0, 0)
      | Mounted i rel guest \<Rightarrow>
          bnd (get_vfs i) (\<lambda>v. bnd (vfs_call (v_stat v rel follow)) (\<lambda>st. ret (st, guest, 0, 0))))"

definition sys_statx :: "int \<Rightarrow> u32 \<Rightarrow> u32 \<Rightarrow> u32 \<Rightarrow> ('w, 'f, int) sys" where
  "sys_statx dirfd path_at flags buffer_at =
     bnd (from_mem (\<lambda>m. mem_cstr m path_at)) (\<lambda>path.
     let follow = (flags AND AT_SYMLINK_NOFOLLOW = 0) in
     bnd (if flags AND AT_EMPTY_PATH \<noteq> 0 \<and> path = [] then
            bnd (get_fd dirfd) (\<lambda>entry.
            bnd (get_desc (fd_desc entry)) (\<lambda>d. stat_desc (fd_desc entry) d))
          else bnd (sys_resolve dirfd path follow) (\<lambda>node. stat_node node path follow))
       (\<lambda>(st0, name, rdev).
     let st = (if rdev \<noteq> (0, 0) then st0\<lparr>st_type := File\<rparr> else st0) in
     thn (write_statx buffer_at st name rdev)
    (thn (if rdev \<noteq> (0, 0) then
            to_mem (mem_put_u16 (buffer_at + 28)
              (ucast (S_IFCHR OR (if st_mode st = 0 then 438 else st_mode st))))
          else ret ())
     (ret 0))))"

section \<open>Directories of the process\<close>

definition sys_getcwd :: "u32 \<Rightarrow> u32 \<Rightarrow> ('w, 'f, int) sys" where
  "sys_getcwd at capacity =
     bnd (gets (\<lambda>s. as_bytes (t_cwd (the_task s)))) (\<lambda>bs.
     if unat capacity < length bs + 1 then err ERANGE
     else thn (to_mem (mem_put at bs))
         (thn (to_mem (mem_put_u8 (at + of_nat (length bs)) 0))
          (ret (sat_add_i32 (as_i32 (int (length bs))) 1))))"

definition sys_chdir :: "u32 \<Rightarrow> ('w, 'f, int) sys" where
  "sys_chdir path_at =
     bnd (from_mem (\<lambda>m. mem_cstr m path_at)) (\<lambda>path.
     bnd (sys_resolve AT_FDCWD path True) (\<lambda>node.
     bnd (case node of
            VirtualDir guest \<Rightarrow> ret guest
          | Mounted i rel guest \<Rightarrow>
              bnd (get_vfs i) (\<lambda>v.
              bnd (vfs_call (v_stat v rel True)) (\<lambda>st.
              if st_type st = Dir then ret guest else err ENOTDIR))
          | _ \<Rightarrow> err ENOTDIR) (\<lambda>target.
     thn (on_task (t_cwd_update (\<lambda>_. target))) (ret 0))))"

definition sys_fchdir :: "int \<Rightarrow> ('w, 'f, int) sys" where
  "sys_fchdir fd =
     bnd (get_fd fd) (\<lambda>entry.
     bnd (get_desc (fd_desc entry)) (\<lambda>d.
     case d_kind d of
       KDir _ _ \<Rightarrow> thn (on_task (t_cwd_update (\<lambda>_. d_path d))) (ret 0)
     | _ \<Rightarrow> err ENOTDIR))"

section \<open>Looking at paths\<close>

text \<open>Whether a mounted path is there; a generated node always is.\<close>

definition probe_node :: "node \<Rightarrow> bool \<Rightarrow> ('w, 'f, int) sys" where
  "probe_node node follow =
     (case node of
        Mounted i rel _ \<Rightarrow> bnd (get_vfs i) (\<lambda>v. bnd (vfs_call (v_stat v rel follow)) (\<lambda>_. ret 0))
      | _ \<Rightarrow> ret 0)"

definition sys_faccessat :: "int \<Rightarrow> u32 \<Rightarrow> u32 \<Rightarrow> ('w, 'f, int) sys" where
  "sys_faccessat dirfd path_at flags =
     bnd (from_mem (\<lambda>m. mem_cstr m path_at)) (\<lambda>path.
     let follow = (flags AND AT_SYMLINK_NOFOLLOW = 0) in
     bnd (sys_resolve dirfd path follow) (\<lambda>node. probe_node node follow))"

definition sys_readlinkat :: "int \<Rightarrow> u32 \<Rightarrow> u32 \<Rightarrow> u32 \<Rightarrow> ('w, 'f, int) sys" where
  "sys_readlinkat dirfd path_at at capacity =
     bnd (from_mem (\<lambda>m. mem_cstr m path_at)) (\<lambda>path.
     bnd (sys_resolve dirfd path False) (\<lambda>node.
     bnd (case node of
            VirtualLink target \<Rightarrow> ret target
          | Device (DevFd fd) \<Rightarrow>
              bnd (get_fd fd) (\<lambda>entry. bnd (get_desc (fd_desc entry)) (\<lambda>d. ret (d_path d)))
          | Mounted i rel _ \<Rightarrow> bnd (get_vfs i) (\<lambda>v. vfs_call (v_readlink v rel))
          | _ \<Rightarrow> err EINVAL) (\<lambda>target.
     let n = min (length target) (unat capacity) in
     thn (to_mem (mem_put at (take n (as_bytes target)))) (ret (as_i32 (int n))))))"

definition sys_utimensat :: "int \<Rightarrow> u32 \<Rightarrow> u32 \<Rightarrow> ('w, 'f, int) sys" where
  "sys_utimensat dirfd path_at flags =
     bnd (from_mem (\<lambda>m. mem_cstr m path_at)) (\<lambda>path.
     if path = [] then ret 0
     else bnd (sys_resolve dirfd path (flags AND AT_SYMLINK_NOFOLLOW = 0)) (\<lambda>node. probe_node node True))"

definition statfs_block :: bytes where
  "statfs_block =
     fold (\<lambda>(off, bs) b. overwrite off bs b)
       [(0, le32 1463898957), (4, le32 4096), (56, le32 255), (60, le32 4096)] (replicate 88 0)"

definition sys_statfs :: "u32 \<Rightarrow> ('w, 'f, int) sys" where
  "sys_statfs a2 = thn (to_mem (mem_put a2 statfs_block)) (ret 0)"

section \<open>Changing paths\<close>

text \<open>
  Making something where nothing may be yet: what already resolves to a generated node
  exists, and a place no mount owns is read-only.
\<close>

definition creating ::
  "('w, 'f, node) sys \<Rightarrow> (string \<Rightarrow> ('w, 'f) vfs \<Rightarrow> 'w \<Rightarrow> unit vfs_result \<times> 'w) \<Rightarrow> ('w, 'f, int) sys" where
  "creating lookup oper =
     catching lookup (\<lambda>r.
       case r of
         Inr (Mounted i rel _) \<Rightarrow> on_mount i (oper rel)
       | Inr _ \<Rightarrow> err EEXIST
       | Inl f \<Rightarrow> if f = FErrno ENOENT then err EROFS else fault f)"

definition sys_mkdirat :: "int \<Rightarrow> u32 \<Rightarrow> u32 \<Rightarrow> ('w, 'f, int) sys" where
  "sys_mkdirat dirfd path_at md =
     bnd (from_mem (\<lambda>m. mem_cstr m path_at)) (\<lambda>path.
     bnd (gets (\<lambda>s. md AND NOT (t_umask (the_task s)) AND 511)) (\<lambda>md1.
     creating (sys_resolve dirfd path True) (\<lambda>rel v. v_mkdir v rel md1)))"

definition sys_unlinkat :: "int \<Rightarrow> u32 \<Rightarrow> u32 \<Rightarrow> ('w, 'f, int) sys" where
  "sys_unlinkat dirfd path_at flags =
     bnd (from_mem (\<lambda>m. mem_cstr m path_at)) (\<lambda>path.
     bnd (sys_resolve dirfd path False) (\<lambda>node.
     case node of
       Mounted i rel _ \<Rightarrow>
         on_mount i (\<lambda>v. if flags AND AT_REMOVEDIR \<noteq> 0 then v_rmdir v rel else v_unlink v rel)
     | _ \<Rightarrow> err EROFS))"

definition sys_renameat :: "int \<Rightarrow> u32 \<Rightarrow> int \<Rightarrow> u32 \<Rightarrow> ('w, 'f, int) sys" where
  "sys_renameat from_fd from_at to_fd to_at =
     bnd (from_mem (\<lambda>m. mem_cstr m from_at)) (\<lambda>from_path.
     bnd (from_mem (\<lambda>m. mem_cstr m to_at)) (\<lambda>to_path.
     bnd (sys_resolve from_fd from_path False) (\<lambda>from.
     bnd (sys_resolve to_fd to_path False) (\<lambda>to.
     case (from, to) of
       (Mounted m1 r1 _, Mounted m2 r2 _) \<Rightarrow>
         if m1 \<noteq> m2 then err EXDEV else on_mount m1 (\<lambda>v. v_rename v r1 r2)
     | _ \<Rightarrow> err EROFS))))"

definition sys_symlinkat :: "u32 \<Rightarrow> int \<Rightarrow> u32 \<Rightarrow> ('w, 'f, int) sys" where
  "sys_symlinkat target_at dirfd link_at =
     bnd (from_mem (\<lambda>m. mem_cstr m target_at)) (\<lambda>target.
     bnd (from_mem (\<lambda>m. mem_cstr m link_at)) (\<lambda>link.
     creating (sys_resolve dirfd link False) (\<lambda>rel v. v_symlink v target rel)))"

definition sys_fchmodat :: "int \<Rightarrow> u32 \<Rightarrow> u32 \<Rightarrow> ('w, 'f, int) sys" where
  "sys_fchmodat dirfd path_at md =
     bnd (from_mem (\<lambda>m. mem_cstr m path_at)) (\<lambda>path.
     bnd (sys_resolve dirfd path True) (\<lambda>node.
     case node of
       Mounted i rel _ \<Rightarrow> on_mount i (\<lambda>v. v_set_mode v rel (md AND 4095))
     | _ \<Rightarrow> ret 0))"

end
