(* ===== verification/Sys_Poll.thy ===== *)
theory Sys_Poll
  imports Sys_IO
begin

text \<open>
  Waiting on descriptors (\<open>poll_one\<close>, \<open>sys_ppoll\<close>, \<open>sys_pselect\<close> and the \<open>fd_set\<close> bitmaps of
  \<open>kernel/syscall.rs\<close>).
\<close>

definition poll_ready :: "('w, 'f) shared \<Rightarrow> 'f desc_kind \<Rightarrow> u16" where
  "poll_ready s kind =
     (case kind of
        KPipeRead k \<Rightarrow>
          (case slab_get (sh_pipes s) k of
             Some p \<Rightarrow> if p_data p \<noteq> [] then POLLIN else if p_writers p = 0 then POLLHUP else 0
           | None \<Rightarrow> 0)
      | KPipeWrite k \<Rightarrow>
          (case slab_get (sh_pipes s) k of
             Some p \<Rightarrow> if p_readers p = 0 then POLLERR else if 0 < pipe_room p then POLLOUT else 0
           | None \<Rightarrow> 0)
      | KStdin \<Rightarrow> if si_data (sh_stdin s) \<noteq> [] \<or> si_closed (sh_stdin s) then POLLIN else 0
      | KStdout _ \<Rightarrow> POLLOUT
      | _ \<Rightarrow> POLLIN OR POLLOUT)"

definition poll_one :: "('w, 'f) shared \<Rightarrow> nat \<Rightarrow> u16 \<Rightarrow> u16" where
  "poll_one s key events =
     (case slab_get (sh_descs s) key of
        None \<Rightarrow> POLLNVAL
      | Some d \<Rightarrow> poll_ready s (d_kind d) AND (events OR POLLHUP OR POLLERR OR POLLNVAL))"

definition poll_fd :: "('w, 'f) st \<Rightarrow> int \<Rightarrow> u16 \<Rightarrow> u16" where
  "poll_fd s fd events =
     (case fdt_get (t_fds (the_task s)) fd of
        Inr entry \<Rightarrow> poll_one (sh s) (fd_desc entry) events
      | Inl _ \<Rightarrow> POLLNVAL)"

text \<open>The optional timeout of both calls, as a deadline.\<close>

definition timeout_until :: "u32 \<Rightarrow> ('w, 'f, nat option) sys" where
  "timeout_until at =
     (if at = 0 then ret None
      else bnd (from_mem (\<lambda>m. mem_timespec m at)) (\<lambda>requested.
           bnd (deadline requested) (\<lambda>t. ret (Some t))))"

section \<open>\<open>ppoll\<close>\<close>

fun poll_entries :: "u32 \<Rightarrow> nat \<Rightarrow> u32 \<Rightarrow> ('w, 'f, (u32 \<times> u16) list) sys" where
  "poll_entries at 0 i = ret []"
| "poll_entries at (Suc n) i =
     bnd (from_mem (\<lambda>m. mem_i32_at m (at + i * 8))) (\<lambda>fd.
     bnd (from_mem (\<lambda>m. mem_u32 m (at + i * 8 + 4))) (\<lambda>w.
     bnd (gets (\<lambda>s. if fd < 0 then 0 else poll_fd s fd (ucast w))) (\<lambda>revents.
     bnd (poll_entries at n (i + 1)) (\<lambda>rest.
     ret ((at + i * 8 + 6, revents) # rest)))))"

fun put_revents :: "(u32 \<times> u16) list \<Rightarrow> (bytes, unit) sysm" where
  "put_revents [] = ret ()"
| "put_revents ((at, v) # rest) = bnd (mem_put_u16 at v) (\<lambda>_. put_revents rest)"

definition sys_ppoll :: "u32 \<Rightarrow> u32 \<Rightarrow> u32 \<Rightarrow> ('w, 'f, int) sys" where
  "sys_ppoll fds_at count timeout_at =
     bnd (timeout_until timeout_at) (\<lambda>until.
     bnd (poll_entries fds_at (min (unat count) 1024) 0) (\<lambda>results.
     let ready = length (filter (\<lambda>(_, v). v \<noteq> 0) results);
         commit = thn (to_mem (put_revents results)) (ret (int ready))
     in if ready \<noteq> 0 then commit
        else (case until of
            Some t \<Rightarrow>
              bnd now (\<lambda>t0. if t0 < t then thn (set_wake t) (fault FBlock) else commit)
          | None \<Rightarrow>
              bnd (gets (\<lambda>s. fdt_get (t_fds (the_task s)) 0)) (\<lambda>r.
              thn (case r of
                     Inr _ \<Rightarrow> on_shared (sh_stdin_update (si_wanted_update (\<lambda>_. True)))
                   | Inl _ \<Rightarrow> ret ())
              (fault FBlock)))))"

section \<open>Bitmaps\<close>

fun read_bits :: "bytes \<Rightarrow> u32 \<Rightarrow> nat list \<Rightarrow> bool list vfs_result" where
  "read_bits m at [] = Inr []"
| "read_bits m at (fd # fds) =
     (case mem_u32 m (at + of_nat (fd div 32) * 4) of
        Inl e \<Rightarrow> Inl e
      | Inr w \<Rightarrow>
          (case read_bits m at fds of
             Inl e \<Rightarrow> Inl e
           | Inr bs \<Rightarrow> Inr ((w AND push_bit (fd mod 32) 1 \<noteq> 0) # bs)))"

definition read_fd_set :: "u32 \<Rightarrow> nat \<Rightarrow> bytes \<Rightarrow> bool list vfs_result" where
  "read_fd_set at count m = (if at = 0 then Inr (replicate count False) else read_bits m at [0..<count])"

definition pack_word :: "bool list \<Rightarrow> nat \<Rightarrow> u32" where
  "pack_word values wi =
     fold (\<lambda>off b. if get_at values (wi * 32 + off) = Some True then b OR push_bit off 1 else b) [0..<32] 0"

fun put_words :: "u32 \<Rightarrow> bool list \<Rightarrow> nat list \<Rightarrow> (bytes, unit) sysm" where
  "put_words at values [] = ret ()"
| "put_words at values (wi # wis) =
     bnd (mem_put_u32 (at + of_nat wi * 4) (pack_word values wi)) (\<lambda>_. put_words at values wis)"

definition write_fd_set :: "u32 \<Rightarrow> bool list \<Rightarrow> (bytes, unit) sysm" where
  "write_fd_set at values =
     (if at = 0 then ret () else put_words at values [0..<div_ceil (length values) 32])"

section \<open>\<open>pselect\<close>\<close>

definition wants :: "bool list \<Rightarrow> nat \<Rightarrow> bool" where
  "wants bits fd \<longleftrightarrow> get_at bits fd = Some True"

definition select_one ::
  "('w, 'f) st \<Rightarrow> bool list \<Rightarrow> bool list \<Rightarrow> bool list \<Rightarrow> nat \<Rightarrow> bool \<times> bool" where
  "select_one s rs ws es fd =
     (let wr = wants rs fd; ww = wants ws fd in
      if \<not> wr \<and> \<not> ww \<and> \<not> wants es fd then (False, False)
      else let events = (if wr then POLLIN else 0) OR (if ww then POLLOUT else 0);
               revents = poll_fd s (as_i32 (int fd)) events
           in (wr \<and> revents AND (POLLIN OR POLLHUP OR POLLERR) \<noteq> 0,
               ww \<and> revents AND (POLLOUT OR POLLERR) \<noteq> 0))"

definition sys_pselect :: "int \<Rightarrow> u32 \<Rightarrow> u32 \<Rightarrow> u32 \<Rightarrow> u32 \<Rightarrow> ('w, 'f, int) sys" where
  "sys_pselect cnt read_at write_at except_at timeout_at =
     (let count = nat (max 0 (min 1024 cnt)) in
      bnd (timeout_until timeout_at) (\<lambda>until.
      bnd (from_mem (read_fd_set read_at count)) (\<lambda>rs.
      bnd (from_mem (read_fd_set write_at count)) (\<lambda>ws.
      bnd (from_mem (read_fd_set except_at count)) (\<lambda>es.
      bnd (gets (\<lambda>s. map (select_one s rs ws es) [0..<count])) (\<lambda>found.
      let readables = map fst found; writables = map snd found;
          ready = length (filter (\<lambda>b. b) readables) + length (filter (\<lambda>b. b) writables);
          commit = thn (to_mem (write_fd_set read_at readables))
                  (thn (to_mem (write_fd_set write_at writables))
                  (thn (to_mem (write_fd_set except_at (replicate count False)))
                   (ret (int ready))))
      in if ready \<noteq> 0 then commit
         else (case until of
             Some t \<Rightarrow>
               bnd now (\<lambda>t0. if t0 < t then thn (set_wake t) (fault FBlock) else commit)
           | None \<Rightarrow> fault FBlock)))))))"

end
