(* ===== verification/Dispatch.thy ===== *)
theory Dispatch
  imports Sys_File Sys_Poll
begin

text \<open>
  The system-call table (\<open>handle\<close>), what surrounds a call (\<open>dispatch\<close>), and the six imports a
  guest sees (\<open>mod imports\<close> of \<open>kernel/mod.rs\<close>).  What is traced of a call is in
  \<open>Trace\<close>.
\<close>

section \<open>The table\<close>

definition handle_process :: "int \<Rightarrow> args \<Rightarrow> ('w, 'f, int) sys option" where
  "handle_process nr a = (case a of (a0, a1, a2, a3, a4, a5) \<Rightarrow>
     if nr = NR_EXIT \<or> nr = NR_EXIT_GROUP then Some (sys_exit (sint a0))
     else if nr = NR_CLONE then Some (sys_clone a0)
     else if nr = NR_EXECVE then Some (sys_execve a0 a1 a2)
     else if nr = NR_WAIT4 then Some (sys_wait4 (sint a0) a1 a2 a3)
     else if nr = NR_GETPID \<or> nr = NR_GETTID then Some (gets my_pid)
     else if nr = NR_GETPPID then Some sys_getppid
     else if nr \<in> {NR_GETUID, NR_GETEUID, NR_GETGID, NR_GETEGID} then Some (ret 0)
     else if nr \<in> {NR_SETUID, NR_SETGID, NR_SETREUID, NR_SETREGID, NR_SETRESUID, NR_SETRESGID, NR_SETGROUPS}
       then Some (ret 0)
     else if nr = NR_GETGROUPS then Some (ret 0)
     else if nr = NR_SETPGID then Some (sys_setpgid (sint a0) (sint a1))
     else if nr = NR_GETPGID then Some (sys_getpgid (sint a0))
     else if nr = NR_SETSID then Some sys_setsid
     else if nr = NR_GETSID then Some (sys_getsid (sint a0))
     else if nr = NR_SET_TID_ADDRESS then Some (gets my_pid)
     else if nr \<in> {NR_SET_ROBUST_LIST, NR_PRCTL, NR_SCHED_YIELD, NR_MEMBARRIER, NR_RSEQ} then Some (ret 0)
     else if nr = NR_SCHED_GETAFFINITY then Some (sys_sched_getaffinity a2)
     else if nr = NR_UMASK then Some (sys_umask a0)
     else if nr = NR_UNAME then Some (sys_uname a0)
     else if nr = NR_SYSINFO then Some (sys_sysinfo a0)
     else if nr = NR_PRLIMIT64 then Some (sys_prlimit (sint a1) a3)
     else if nr = NR_GETRUSAGE then Some (thn (to_mem (mem_zero a1 72)) (ret 0))
     else if nr = NR_TIMES then Some (sys_times a0)
     else if nr = NR_GETRANDOM then Some (sys_getrandom a0 a1)
     else None)"

definition handle_signal :: "int \<Rightarrow> args \<Rightarrow> ('w, 'f, int) sys option" where
  "handle_signal nr a = (case a of (a0, a1, a2, a3, a4, a5) \<Rightarrow>
     if nr = NR_RT_SIGACTION then Some (sys_sigaction (sint a0) a1 a2)
     else if nr = NR_RT_SIGPROCMASK then Some (sys_sigprocmask (sint a0) a1 a2)
     else if nr = NR_RT_SIGPENDING then Some (sys_sigpending a0)
     else if nr = NR_RT_SIGSUSPEND then Some (sys_sigsuspend a0)
     else if nr = NR_SIGALTSTACK \<or> nr = NR_RT_SIGRETURN then Some (ret 0)
     else if nr = NR_KILL then Some (sys_kill (sint a0) (sint a1))
     else if nr = NR_TKILL then Some (sys_kill (sint a0) (sint a1))
     else if nr = NR_TGKILL then Some (sys_kill (sint a1) (sint a2))
     else if nr = NR_CLOCK_GETTIME64 then Some (sys_clock_gettime (sint a0) a1)
     else if nr = NR_CLOCK_GETRES_TIME64 then Some (sys_clock_getres a1)
     else if nr = NR_GETTIMEOFDAY then Some (sys_gettimeofday a0)
     else if nr = NR_NANOSLEEP then Some (sys_nanosleep a0 False (sint a0))
     else if nr = NR_CLOCK_NANOSLEEP_TIME64 then
       Some (sys_nanosleep a2 (a1 AND TIMER_ABSTIME \<noteq> 0) (sint a0))
     else if nr = NR_BRK then Some (sys_brk a0)
     else if nr = NR_MMAP then Some (sys_mmap a0 a1 a3 (sint a4) (unat (as_u64 (sint a5))))
     else if nr \<in> {NR_MUNMAP, NR_MPROTECT, NR_MADVISE, NR_MSYNC, NR_MLOCK, NR_MUNLOCK} then Some (ret 0)
     else if nr = NR_MREMAP then Some (err ENOMEM)
     else None)"

definition handle_fd :: "int \<Rightarrow> args \<Rightarrow> ('w, 'f, int) sys option" where
  "handle_fd nr a = (case a of (a0, a1, a2, a3, a4, a5) \<Rightarrow>
     if nr = NR_CLOSE then Some (sys_close (sint a0))
     else if nr = NR_READ then Some (sys_read (sint a0) a1 a2)
     else if nr = NR_WRITE then Some (sys_write (sint a0) a1 a2)
     else if nr = NR_READV \<or> nr = NR_WRITEV then
       Some (sys_vec (nr = NR_READV) (sint a0) a1 (nat (max (sint a2) 0)) 0 0)
     else if nr = NR_LSEEK then Some (sys_lseek (sint a0) (sint a1) (sint a2))
     else if nr = NR_FTRUNCATE then Some (sys_ftruncate (sint a0) (join_u64 a1 a2))
     else if nr \<in> {NR_FSYNC, NR_FDATASYNC, NR_SYNC, NR_SYNCFS, NR_FADVISE64, NR_FLOCK} then Some (ret 0)
     else if nr = NR_DUP then Some (dup_fd (sint a0) False 0)
     else if nr = NR_DUP3 then Some (sys_dup3 (sint a0) (sint a1) a2)
     else if nr = NR_PIPE2 then Some (sys_pipe2 a0 a1)
     else if nr = NR_FCNTL then Some (sys_fcntl (sint a0) (sint a1) a2)
     else if nr = NR_IOCTL then Some (sys_ioctl (sint a0) a1 a2)
     else if nr = NR_GETDENTS64 then Some (sys_getdents (sint a0) a1 a2)
     else if nr = NR_FCHDIR then Some (sys_fchdir (sint a0))
     else if nr = NR_PPOLL_TIME64 then Some (sys_ppoll a0 a1 a2)
     else if nr = NR_PSELECT6_TIME64 then Some (sys_pselect (sint a0) a1 a2 a3 a4)
     else None)"

definition handle_path :: "int \<Rightarrow> args \<Rightarrow> ('w, 'f, int) sys option" where
  "handle_path nr a = (case a of (a0, a1, a2, a3, a4, a5) \<Rightarrow>
     if nr = NR_OPENAT then Some (sys_openat (sint a0) a1 a2 a3)
     else if nr = NR_TRUNCATE then Some (sys_truncate a0 (join_u64 a1 a2))
     else if nr = NR_GETCWD then Some (sys_getcwd a0 a1)
     else if nr = NR_CHDIR then Some (sys_chdir a0)
     else if nr = NR_STATX then Some (sys_statx (sint a0) a1 a2 a4)
     else if nr = NR_FACCESSAT \<or> nr = NR_FACCESSAT2 then Some (sys_faccessat (sint a0) a1 a3)
     else if nr = NR_READLINKAT then Some (sys_readlinkat (sint a0) a1 a2 a3)
     else if nr = NR_MKDIRAT then Some (sys_mkdirat (sint a0) a1 a2)
     else if nr = NR_UNLINKAT then Some (sys_unlinkat (sint a0) a1 a2)
     else if nr = NR_RENAMEAT \<or> nr = NR_RENAMEAT2 then Some (sys_renameat (sint a0) a1 (sint a2) a3)
     else if nr = NR_SYMLINKAT then Some (sys_symlinkat a0 (sint a1) a2)
     else if nr = NR_LINKAT then Some (err EPERM)
     else if nr = NR_FCHMODAT then Some (sys_fchmodat (sint a0) a1 a2)
     else if nr \<in> {NR_FCHMOD, NR_FCHOWN, NR_FCHOWNAT} then Some (ret 0)
     else if nr = NR_UTIMENSAT_TIME64 then Some (sys_utimensat (sint a0) a1 a4)
     else if nr = NR_STATFS \<or> nr = NR_FSTATFS then Some (sys_statfs a2)
     else None)"

text \<open>Everything else, the network calls and the \<open>stat\<close> calls \<open>statx\<close> replaces included.\<close>

definition handle :: "int \<Rightarrow> args \<Rightarrow> ('w, 'f, int) sys" where
  "handle nr a =
     (case handle_process nr a of Some m \<Rightarrow> m | None \<Rightarrow>
     (case handle_signal nr a of Some m \<Rightarrow> m | None \<Rightarrow>
     (case handle_fd nr a of Some m \<Rightarrow> m | None \<Rightarrow>
     (case handle_path nr a of Some m \<Rightarrow> m | None \<Rightarrow> err ENOSYS))))"

definition count_syscall :: "('w, 'f) st \<Rightarrow> ('w, 'f) st" where
  "count_syscall = sh_update (sh_syscalls_update (\<lambda>n. sat_add_u64 n 1))"

definition dispatch :: "int \<Rightarrow> args \<Rightarrow> ('w, 'f) st \<Rightarrow> outcome \<times> ('w, 'f) st" where
  "dispatch nr a s =
     (case handle nr a (count_syscall s) of
        (Inr v, s1) \<Rightarrow> (OValue v, snd (finish s1))
      | (Inl f, s1) \<Rightarrow>
          (case f of
             FErrno e \<Rightarrow> (OValue (as_neg e), snd (finish s1))
           | FBlock \<Rightarrow>
               if interrupted s1 then (OValue (as_neg EINTR), snd (finish s1)) else (OBlocked, s1)
           | FExit status \<Rightarrow> (OExit status, s1)
           | FExec \<Rightarrow> (OExec, s1)))"

section \<open>The imports\<close>

definition sat_u32 :: "u32 \<Rightarrow> nat \<Rightarrow> u32" where
  "sat_u32 a n = of_nat (sat_add_u32 (unat a) n)"

text \<open>The Asyncify header is two words: where to write next, and where to stop.\<close>

definition unwind :: "suspension \<Rightarrow> ('w, 'f) st \<Rightarrow> ('w, 'f) st" where
  "unwind why s =
     (let data = ex_asyncify_data (c_exec (cx s));
          area = ASYNCIFY_PAGES * PAGE - 8;
          m1 = snd (mem_put_u32 data (sat_u32 data 8) (g_mem (gs s)));
          m2 = snd (mem_put_u32 (sat_u32 data 4) (sat_u32 (sat_u32 data 8) area) m1)
      in s\<lparr>gs := (gs s)\<lparr>g_mem := m2, g_mode := AsyUnwinding data\<rparr>,
           cx := (cx s)\<lparr>c_exec := (c_exec (cx s))\<lparr>ex_suspension := Some why\<rparr>\<rparr>\<rparr>)"

definition finish_rewind :: "('w, 'f) st \<Rightarrow> int \<times> ('w, 'f) st" where
  "finish_rewind s =
     (let e = c_exec (cx s); sp = ex_resume_sp e;
          g1 = (gs s)\<lparr>g_mode := AsyNormal\<rparr>
      in (ex_resume_value e,
          s\<lparr>gs := (if sp \<noteq> 0 then g1\<lparr>g_sp := sp\<rparr> else g1),
            cx := (cx s)\<lparr>c_exec := e\<lparr>ex_rewinding := False\<rparr>\<rparr>\<rparr>))"

fun read_words :: "bytes \<Rightarrow> u32 \<Rightarrow> nat \<Rightarrow> nat \<Rightarrow> u32 list vfs_result" where
  "read_words m at i 0 = Inr []"
| "read_words m at i (Suc n) =
     (case mem_u32 m (at + of_nat i * 4) of
        Inl e \<Rightarrow> Inl e
      | Inr w \<Rightarrow> (case read_words m at (Suc i) n of Inl e \<Rightarrow> Inl e | Inr ws \<Rightarrow> Inr (w # ws)))"

definition args_of :: "u32 list \<Rightarrow> args" where
  "args_of ws = (case ws of [a, b, c, d, e, f] \<Rightarrow> (a, b, c, d, e, f) | _ \<Rightarrow> (0, 0, 0, 0, 0, 0))"

definition syscall_entry :: "u32 \<Rightarrow> u32 \<Rightarrow> ('w, 'f) st \<Rightarrow> u32 \<times> ('w, 'f) st" where
  "syscall_entry number args_ptr s =
     (if ex_rewinding (c_exec (cx s)) then (let (v, s') = finish_rewind s in (as_u32 v, s'))
      else (case read_words (g_mem (gs s)) args_ptr 0 6 of
          Inl e \<Rightarrow> (as_u32 (as_neg e), s)
        | Inr ws \<Rightarrow>
            (case dispatch (sint number) (args_of ws) s of
               (OValue v, s1) \<Rightarrow> (as_u32 v, s1)
             | (OBlocked, s1) \<Rightarrow>
                 (0, unwind (SysBlocked (sint number) (args_of ws))
                       (s1\<lparr>cx := (cx s1)\<lparr>c_exec := (c_exec (cx s1))\<lparr>ex_resume_sp := g_sp (gs s1)\<rparr>\<rparr>\<rparr>))
             | (OExit status, s1) \<Rightarrow> (0, unwind (SysExit status) s1)
             | (OExec, s1) \<Rightarrow> (0, unwind SysExec s1))))"

definition setjmp_entry :: "u32 \<Rightarrow> ('w, 'f) st \<Rightarrow> u32 \<times> ('w, 'f) st" where
  "setjmp_entry env s =
     (if ex_rewinding (c_exec (cx s)) then (let (v, s') = finish_rewind s in (as_u32 v, s'))
      else (0, unwind (Setjmp env (g_sp (gs s))) s))"

definition longjmp_entry :: "u32 \<Rightarrow> int \<Rightarrow> ('w, 'f) st \<Rightarrow> ('w, 'f) st" where
  "longjmp_entry env v s = unwind (Longjmp env v) s"

definition init_entry :: "u32 \<Rightarrow> ('w, 'f) st \<Rightarrow> ('w, 'f) st" where
  "init_entry flag s = s\<lparr>cx := (cx s)\<lparr>c_exec := (c_exec (cx s))\<lparr>ex_signal_flag := flag\<rparr>\<rparr>\<rparr>"

definition args_entry :: "u32 \<Rightarrow> u32 \<Rightarrow> ('w, 'f) st \<Rightarrow> u32 \<times> ('w, 'f) st" where
  "args_entry buffer capacity s =
     (case start_block buffer s of
        (Inl f, s1) \<Rightarrow> (0, s1)
      | (Inr block, s1) \<Rightarrow>
          if capacity = 0 then (of_nat (length block), s1)
          else if unat capacity < length block then (as_u32 (as_neg E2BIG), s1)
          else (case to_mem (mem_put buffer block) s1 of
              (Inr _, s2) \<Rightarrow> (of_nat (length block), s2)
            | (Inl (FErrno e), s2) \<Rightarrow> (as_u32 (as_neg e), s2)
            | (Inl _, s2) \<Rightarrow> (0, s2)))"

definition sigfetch_entry :: "u32 \<Rightarrow> ('w, 'f) st \<Rightarrow> u32 \<times> ('w, 'f) st" where
  "sigfetch_entry at s =
     (case next_signal at s of
        (Inr NoSignal, s1) \<Rightarrow> (0, s1)
      | (Inr RunHandler, s1) \<Rightarrow> (1, s1)
      | (Inr (Fatal status), s1) \<Rightarrow> (0, unwind (SysExit status) s1)
      | (Inl _, s1) \<Rightarrow> (0, s1))"

end
