(* ===== verification/Kernel_Frame.thy ===== *)
theory Kernel_Frame
  imports Dispatch
begin

text \<open>
  What it takes for a predicate on a handler's state to survive every system call.  The locale
  \<open>kernel_frame\<close> lists the primitive effects the handlers are made of, and inside it every
  handler that is made of them alone is shown to keep the predicate, once.  \<open>kernel_steps\<close> adds
  the operations that move descriptors, and reaches \<open>dispatch\<close> and the guest's imports.  The
  theories after this one interpret both.

  \<open>same\<close> relates worlds the predicate cannot tell apart; \<open>owns f m\<close> says that the handle \<open>f\<close>
  belongs to mount \<open>m\<close>.
\<close>

text \<open>Directory and memory descriptions change their position; their role stays.\<close>

definition same_role :: "'f desc_kind \<Rightarrow> 'f desc_kind \<Rightarrow> bool" where
  "same_role k k' \<longleftrightarrow>
     (\<exists>d p q. k = KMemory d p \<and> k' = KMemory d q) \<or> (\<exists>es p q. k = KDir es p \<and> k' = KDir es q)"

abbreviation world_of :: "('w, 'f) st \<Rightarrow> 'w" where "world_of s \<equiv> o_world (sh_out (sh s))"
abbreviation fops_of :: "('w, 'f) st \<Rightarrow> ('w, 'f) file_ops" where "fops_of s \<equiv> o_fops (sh_out (sh s))"
abbreviation set_world :: "'w \<Rightarrow> ('w, 'f) st \<Rightarrow> ('w, 'f) st" where
  "set_world w s \<equiv> s\<lparr>sh := (sh s)\<lparr>sh_out := (sh_out (sh s))\<lparr>o_world := w\<rparr>\<rparr>\<rparr>"

lemma get_desc_InrD: "get_desc k s = (Inr d, s) \<Longrightarrow> slab_get (sh_descs (sh s)) k = Some d"
  by (auto simp: get_desc_def monad_simps split: option.splits)

lemma on_shared_snd: "snd (on_shared f s) = s\<lparr>sh := f (sh s)\<rparr>"
  by (cases s) (simp add: on_shared_def modify_def)

lemma gets_InrD: "gets f s = (Inr a, s) \<Longrightarrow> a = f s"
  by (simp add: gets_def)

lemma get_vfs_InrD: "get_vfs i s = (Inr v, s) \<Longrightarrow> sh_vfs (sh s) i = Some v"
  by (auto simp: get_vfs_def monad_simps split: option.splits)

lemma reads_kernel [reads_rules]:
  "reads (get_fd n)" "reads (get_desc k)" "reads (from_mem g)" "reads (get_vfs i)" "reads (get_record pid)"
  by (simp_all add: get_fd_def get_desc_def from_mem_def get_vfs_def get_record_def reads_rules)

lemma keeps_kernel_reads:
  "keeps P (get_fd n)" "keeps P (get_desc k)" "keeps P (from_mem g)" "keeps P (get_vfs i)"
  "keeps P (get_record pid)" "keeps P sys_getppid"
  by (simp_all add: keeps_reads reads_rules sys_getppid_def)

text \<open>Cases of the kernel's data types.\<close>

lemma keeps_desc_kind [keeps_rules]:
  assumes "\<And>f m c. keeps P (k1 f m c)" "\<And>e p. keeps P (k2 e p)" "\<And>d p. keeps P (k3 d p)"
    "\<And>k. keeps P (k4 k)" "\<And>k. keeps P (k5 k)" "keeps P k6" "\<And>n. keeps P (k7 n)"
    "keeps P k8" "keeps P k9" "keeps P k10"
  shows "keeps P (case d of KFile f m c \<Rightarrow> k1 f m c | KDir e p \<Rightarrow> k2 e p | KMemory x p \<Rightarrow> k3 x p
    | KPipeRead k \<Rightarrow> k4 k | KPipeWrite k \<Rightarrow> k5 k | KStdin \<Rightarrow> k6 | KStdout n \<Rightarrow> k7 n
    | KNull \<Rightarrow> k8 | KZero \<Rightarrow> k9 | KRandom \<Rightarrow> k10)"
  by (cases d) (simp_all add: assms)

lemma keeps_node [keeps_rules]:
  assumes "\<And>i g. keeps P (k1 i g)" "\<And>d. keeps P (k2 d)" "\<And>g. keeps P (k3 g)"
    "\<And>i r g. keeps P (k4 i r g)" "\<And>g. keeps P (k5 g)" "\<And>t. keeps P (k6 t)"
  shows "keeps P (case n of Program i g \<Rightarrow> k1 i g | Device d \<Rightarrow> k2 d | Synth g \<Rightarrow> k3 g
    | Mounted i r g \<Rightarrow> k4 i r g | VirtualDir g \<Rightarrow> k5 g | VirtualLink t \<Rightarrow> k6 t)"
  by (cases n) (simp_all add: assms)

lemma keeps_device [keeps_rules]:
  assumes "keeps P k1" "keeps P k2" "keeps P k3" "keeps P k4" "\<And>n. keeps P (k5 n)"
  shows "keeps P (case d of DevNull \<Rightarrow> k1 | DevZero \<Rightarrow> k2 | DevRandom \<Rightarrow> k3 | DevTty \<Rightarrow> k4 | DevFd n \<Rightarrow> k5 n)"
  by (cases d) (simp_all add: assms)

lemma keeps_ignoring [keeps_rules]: "keeps P m \<Longrightarrow> keeps P (ignoring m)"
  by (simp add: ignoring_def keeps_catching keeps_ret)

lemma keeps_picked [keeps_rules]:
  assumes "keeps P k1" "\<And>n. keeps P (k2 n)" "\<And>n a. keeps P (k3 n a)"
  shows "keeps P (case p of PickNone \<Rightarrow> k1 | PickFatal n \<Rightarrow> k2 n | PickHandler n a \<Rightarrow> k3 n a)"
  by (cases p) (simp_all add: assms)

text \<open>\<open>gives P Q m\<close>: \<open>m\<close> keeps \<open>P\<close>, and a value it reports satisfies \<open>Q\<close>.\<close>

definition gives_at :: "'s \<Rightarrow> ('s \<Rightarrow> bool) \<Rightarrow> ('a \<Rightarrow> bool) \<Rightarrow> ('s, 'a) sysm \<Rightarrow> bool" where
  "gives_at s P Q m \<longleftrightarrow> (P s \<longrightarrow> P (snd (m s)) \<and> (\<forall>a. fst (m s) = Inr a \<longrightarrow> Q a))"

definition gives :: "('s \<Rightarrow> bool) \<Rightarrow> ('a \<Rightarrow> bool) \<Rightarrow> ('s, 'a) sysm \<Rightarrow> bool" where
  "gives P Q m \<longleftrightarrow> (\<forall>s. gives_at s P Q m)"

lemma givesI:
  "(\<And>s. P s \<Longrightarrow> P (snd (m s))) \<Longrightarrow> (\<And>s a. fst (m s) = Inr a \<Longrightarrow> Q a) \<Longrightarrow> gives P Q m"
  by (simp add: gives_def gives_at_def)

lemma gives_of_at: "(\<And>s. gives_at s P Q m) \<Longrightarrow> gives P Q m"
  by (simp add: gives_def)

lemma gives_at_gives: "gives P Q m \<Longrightarrow> gives_at s P Q m"
  by (simp add: gives_def)

lemma keeps_gives: "keeps P m \<longleftrightarrow> gives P (\<lambda>_. True) m"
  by (simp add: keeps_def gives_def gives_at_def)

lemma gives_simple: "gives P Q (fault e)" "Q a \<Longrightarrow> gives P Q (ret a)"
  by (simp_all add: gives_def gives_at_def fault_def ret_def)

lemma gives_bnd:
  assumes "gives P Q m" "\<And>a. Q a \<Longrightarrow> gives P R (f a)"
  shows "gives P R (bnd m f)"
  unfolding gives_def
proof
  fix s
  obtain r s1 where m: "m s = (r, s1)" by fastforce
  show "gives_at s P R (bnd m f)"
    using assms m by (cases r) (force simp: gives_def gives_at_def bnd_def)+
qed

lemma gives_after: "keeps P m \<Longrightarrow> (\<And>a. gives P Q (f a)) \<Longrightarrow> gives P Q (bnd m f)"
  unfolding keeps_gives by (rule gives_bnd)

lemma gives_at_reads:
  assumes "reads m" "\<And>a. m s = (Inr a, s) \<Longrightarrow> gives_at s P Q (f a)"
  shows "gives_at s P Q (bnd m f)"
proof -
  obtain r where "m s = (r, s)" using assms(1) by (metis prod.collapse reads_def)
  then show ?thesis using assms(2) by (cases r) (auto simp: gives_at_def bnd_def)
qed

lemma leads_gives:
  assumes "\<And>s. P s \<Longrightarrow> P' s" "gives P Q m" "\<And>a. Q a \<Longrightarrow> leads P P' (f a)"
  shows "leads P P' (bnd m f)"
  unfolding leads_def
proof (intro allI impI)
  fix s assume s: "P s"
  obtain r s1 where m: "m s = (r, s1)" by fastforce
  have "P s1" "\<And>a. r = Inr a \<Longrightarrow> Q a" using assms(2) s m by (auto simp: gives_def gives_at_def)
  then show "P' (snd (bnd m f s))" using m assms(1,3) by (cases r) (auto simp: bnd_def leads_def)
qed

lemma mem_writes_length:
  "length (snd (mem_put at data m)) = length m"
  "length (snd (mem_put_u8 at v m)) = length m" "length (snd (mem_put_u16 at w m)) = length m"
  "length (snd (mem_put_u32 at x m)) = length m" "length (snd (mem_put_u64 at y m)) = length m"
  "length (snd (mem_zero at n m)) = length m"
  by (simp_all add: mem_put_u8_def mem_put_u16_def mem_put_u32_def mem_put_u64_def mem_zero_def)

abbreviation same_length :: "nat \<Rightarrow> bytes \<Rightarrow> bool" where "same_length n m \<equiv> length m = n"

lemma keeps_length_put:
  "keeps (same_length n) (mem_put at data)" "keeps (same_length n) (mem_put_u8 at v)"
  "keeps (same_length n) (mem_put_u16 at w)" "keeps (same_length n) (mem_put_u32 at x)"
  "keeps (same_length n) (mem_put_u64 at y)" "keeps (same_length n) (mem_zero at k)"
  by (simp_all add: keeps_def mem_writes_length)

lemma keeps_length_timespec: "keeps (same_length n) (mem_put_timespec at d)"
  unfolding mem_put_timespec_def by (intro keeps_rules keeps_length_put)

lemma keeps_length_revents: "keeps (same_length n) (put_revents rs)"
  by (induction rs rule: put_revents.induct) (auto intro!: keeps_rules keeps_length_put)

lemma keeps_length_words: "keeps (same_length n) (put_words at vs wis)"
  by (induction wis) (auto intro!: keeps_rules keeps_length_put)

lemma keeps_length_fd_set: "keeps (same_length n) (write_fd_set at vs)"
  unfolding write_fd_set_def by (intro keeps_rules keeps_length_words)

lemmas keeps_length = keeps_length_put keeps_length_timespec keeps_length_revents keeps_length_fd_set

section \<open>The primitive effects\<close>

text \<open>A change of the process table that leaves who is there and who is alive.\<close>

definition tame :: "(proc_record list \<Rightarrow> proc_record list) \<Rightarrow> bool" where
  "tame f \<longleftrightarrow> (\<forall>t. map (\<lambda>r. (pr_pid r, pr_exit r)) (f t) = map (\<lambda>r. (pr_pid r, pr_exit r)) t)"

lemma tame_update_record:
  assumes "\<And>r. pr_pid (f r) = pr_pid r \<and> pr_exit (f r) = pr_exit r"
  shows "tame (update_record pid f)"
  unfolding tame_def
proof
  fix t show "map (\<lambda>r. (pr_pid r, pr_exit r)) (update_record pid f t) = map (\<lambda>r. (pr_pid r, pr_exit r)) t"
    by (induction t) (simp_all add: assms)
qed

lemma tame_map: "(\<And>r. pr_pid (f r) = pr_pid r \<and> pr_exit (f r) = pr_exit r) \<Longrightarrow> tame (map f)"
  by (simp add: tame_def)

lemma tame_live_count: "tame f \<Longrightarrow> live_count (f t) = live_count t"
proof -
  have l: "live_count t = length (filter (\<lambda>(_, e). e = None) (map (\<lambda>r. (pr_pid r, pr_exit r)) t))" for t
    by (simp add: live_count_def is_alive_def [abs_def] filter_map comp_def)
  show "tame f \<Longrightarrow> live_count (f t) = live_count t" unfolding tame_def l by simp
qed

lemma live_count_simps:
  "(\<And>r. is_alive (f r) \<Longrightarrow> is_alive r) \<Longrightarrow> live_count (update_record pid f t) \<le> live_count t"
  "(\<And>r. is_alive (f r) \<Longrightarrow> is_alive r) \<Longrightarrow> live_count (map f t) \<le> live_count t"
  "live_count (filter q t) \<le> live_count t"
proof -
  assume a: "\<And>r. is_alive (f r) \<Longrightarrow> is_alive r"
  show "live_count (update_record pid f t) \<le> live_count t"
    by (induction t) (auto simp: live_count_def dest: a)
  show "live_count (map f t) \<le> live_count t"
    by (induction t) (auto simp: live_count_def dest: a)
next
  show "live_count (filter q t) \<le> live_count t"
    by (induction t) (auto simp: live_count_def)
qed

locale kernel_frame =
  fixes P :: "('w, 'f) st \<Rightarrow> bool"
    and same :: "'w \<Rightarrow> 'w \<Rightarrow> bool"
    and owns :: "'f \<Rightarrow> nat \<Rightarrow> bool"
    and ops :: "('w, 'f) file_ops \<Rightarrow> bool"
    and fs :: "nat \<Rightarrow> bool \<Rightarrow> ('w, 'f) vfs \<Rightarrow> bool"
  assumes same_refl: "reflp same" and same_trans: "transp same"
    and k_mem: "P s \<Longrightarrow> length mem = length (g_mem (gs s)) \<Longrightarrow> P (s\<lparr>gs := (gs s)\<lparr>g_mem := mem\<rparr>\<rparr>)"
    and k_regs: "P s \<Longrightarrow> P (s\<lparr>gs := (gs s)\<lparr>g_sp := sp, g_mode := md\<rparr>\<rparr>)"
    and k_stdin: "keeps P (on_shared (sh_stdin_update f1))"
    and k_pending: "keeps P (on_shared (sh_vfs_pending_update f2))"
    and k_term: "keeps P (on_shared (sh_terminal_update f3))"
    and k_rng: "keeps P (on_shared (sh_out_update (o_rng_update f4)))"
    and k_ticks: "keeps P (on_shared (sh_out_update (o_ticks_update f5)))"
    and k_count: "keeps P (on_shared (sh_syscalls_update f6))"
    and k_output: "P s \<Longrightarrow> P (s\<lparr>sh := snd (write_output which data (sh s))\<rparr>)"
    and k_records: "tame f7 \<Longrightarrow> keeps P (on_records f7)"
    and k_reap: "P s \<Longrightarrow> rc \<in> set (sh_table (sh s)) \<Longrightarrow> \<not> is_alive rc \<Longrightarrow>
      P (snd (on_records (filter (\<lambda>x. pr_pid x \<noteq> pr_pid rc)) s))"
    and k_task: "(\<And>t. t_fds (f8 t) = t_fds t \<and> t_pid (f8 t) = t_pid t) \<Longrightarrow> keeps P (on_task f8)"
    and k_exec: "(\<And>e. ex_grown (f9 e) = ex_grown e) \<Longrightarrow> keeps P (on_exec f9)"
    and k_attr: "(\<And>d. d_kind (f10 d) = d_kind d \<and> d_refs (f10 d) = d_refs d) \<Longrightarrow>
      keeps P (on_shared (desc_update k f10))"
    and k_kind: "P s \<Longrightarrow> slab_get (sh_descs (sh s)) k = Some d \<Longrightarrow> same_role (d_kind d) kind \<Longrightarrow>
      P (s\<lparr>sh := desc_update k (set_kind kind) (sh s)\<rparr>)"
    and k_take: "keeps P (on_shared (pipe_update k (\<lambda>p. p\<lparr>p_data := drop n (p_data p)\<rparr>)))"
    and k_put: "P s \<Longrightarrow> slab_get (sh_pipes (sh s)) k = Some pp \<Longrightarrow> length data \<le> pipe_room pp \<Longrightarrow>
      P (s\<lparr>sh := pipe_update k (\<lambda>p. p\<lparr>p_data := p_data p @ data\<rparr>) (sh s)\<rparr>)"
    and k_outside: "P s \<Longrightarrow> same (world_of s) w \<Longrightarrow> P (set_world w s)"
    and k_file: "P s \<Longrightarrow> slab_get (sh_descs (sh s)) k = Some d \<Longrightarrow> d_kind d = KFile f m c \<Longrightarrow> owns f' m \<Longrightarrow>
      P (s\<lparr>sh := desc_update k (set_file f') (sh s)\<rparr>)"
    and owned: "P s \<Longrightarrow> slab_get (sh_descs (sh s)) k = Some d \<Longrightarrow> d_kind d = KFile f m c \<Longrightarrow> owns f m"
    and k_acquire: "n = pages * PAGE \<Longrightarrow> pages \<le> PAGE \<Longrightarrow> keeps P (acquire pages n)"
    and k_cloexec: "keeps P (on_fds (fdt_set_cloexec fd cloexec))"
    and known_fs: "P s \<Longrightarrow> sh_vfs (sh s) i = Some v \<Longrightarrow> fs i (is_read_only (sh s) i) v"
    and w_look: "fs i ro v \<Longrightarrow> same w (snd (v_stat v p fol w)) \<and> same w (snd (v_readlink v p w)) \<and>
      same w (snd (v_readdir v p w))"
    and w_open: "fs i ro v \<Longrightarrow> \<not> ro \<or> opens_for_reading o' \<Longrightarrow> v_open v p o' w = (r, w1) \<Longrightarrow>
      same w w1 \<and> (\<forall>f. r = Inr f \<longrightarrow> owns f i)"
    and w_change: "fs i False v \<Longrightarrow>
      same w (snd (v_mkdir v p md1 w)) \<and> same w (snd (v_unlink v p w)) \<and> same w (snd (v_rmdir v p w)) \<and>
      same w (snd (v_rename v p q w)) \<and> same w (snd (v_symlink v p q w)) \<and>
      same w (snd (v_truncate v p n64 w)) \<and> same w (snd (v_set_mode v p md1 w))"
    and known: "P s \<Longrightarrow> ops (fops_of s)"
    and f_read: "ops fo \<Longrightarrow> owns f m \<Longrightarrow> fo_read fo b f w = (r1, b', f', w') \<Longrightarrow> same w w' \<and> owns f' m"
    and f_seek: "ops fo \<Longrightarrow> owns f m \<Longrightarrow> fo_seek fo pos f w = (r2, f', w') \<Longrightarrow> same w w' \<and> owns f' m"
    and f_stat: "ops fo \<Longrightarrow> owns f m \<Longrightarrow> same w (snd (fo_stat fo f w))"
    and f_close: "ops fo \<Longrightarrow> owns f m \<Longrightarrow> fo_close fo f w = (r3, f', w') \<Longrightarrow> same w w'"
    and f_write: "P s \<Longrightarrow> owns f m \<Longrightarrow> \<not> is_read_only (sh s) m \<Longrightarrow>
      fo_write (fops_of s) b f w = (r4, f', w') \<Longrightarrow> same w w' \<and> owns f' m"
    and f_set_len: "P s \<Longrightarrow> owns f m \<Longrightarrow> \<not> is_read_only (sh s) m \<Longrightarrow>
      fo_set_len (fops_of s) n64 f w = (r5, f', w') \<Longrightarrow> same w w' \<and> owns f' m"
begin

lemma k_to_mem: "(\<And>n. keeps (same_length n) m) \<Longrightarrow> keeps P (to_mem m)"
proof (rule keepsI)
  fix s assume len: "\<And>n. keeps (same_length n) m" and s: "P s"
  have "length (snd (m (g_mem (gs s)))) = length (g_mem (gs s))" by (rule keepsD [OF len refl])
  moreover obtain r b where "m (g_mem (gs s)) = (r, b)" by fastforce
  ultimately show "P (snd (to_mem m s))" using k_mem [OF s, of b] by (simp add: to_mem_def)
qed

lemma k_now: "keeps P now"
proof (rule keepsI)
  fix s assume "P s"
  then have "P (snd (on_shared (sh_out_update (o_ticks_update Suc)) s))" by (rule keepsD [OF k_ticks])
  moreover have "snd (now s) = snd (on_shared (sh_out_update (o_ticks_update Suc)) s)"
    by (simp add: now_def run_def on_shared_def modify_def Let_def)
  ultimately show "P (snd (now s))" by simp
qed

lemma k_wall: "keeps P now_since_epoch"
proof (rule keepsI)
  fix s assume "P s"
  then have "P (snd (on_shared (sh_out_update (o_ticks_update Suc)) s))" by (rule keepsD [OF k_ticks])
  moreover have "snd (now_since_epoch s) = snd (on_shared (sh_out_update (o_ticks_update Suc)) s)"
    by (simp add: now_since_epoch_def run_def on_shared_def modify_def Let_def)
  ultimately show "P (snd (now_since_epoch s))" by simp
qed

lemma k_vfs_fault: "keeps P (vfs_fault e)"
  unfolding vfs_fault_def by (intro keeps_rules k_pending)

lemma k_or_vfs_fault: "keeps P (or_vfs_fault r)"
  unfolding or_vfs_fault_def by (intro keeps_rules k_vfs_fault)

lemmas frame_rules = keeps_kernel_reads k_to_mem k_stdin k_pending k_term k_rng k_now k_wall k_exec k_task
  k_attr k_take k_vfs_fault k_or_vfs_fault k_cloexec

lemma k_elapsed: "keeps P elapsed"
  unfolding elapsed_def by (intro keeps_rules frame_rules)

lemma k_deadline: "keeps P (deadline after)"
  unfolding deadline_def by (intro keeps_rules frame_rules) simp

lemma k_fill_random: "keeps P (fill_random n)"
  unfolding fill_random_def by (intro keeps_rules frame_rules)

lemma k_restore_mask: "keeps P (modify (cx_update restore_mask))"
proof (rule keepsI)
  fix s assume s: "P s"
  show "P (snd (modify (cx_update restore_mask) s))"
  proof (cases "ex_mask_to_restore (c_exec (cx s))")
    case None
    then have "cx_update restore_mask s = s" by (simp add: restore_mask_def)
    with s show ?thesis by (simp add: modify_def)
  next
    case (Some m)
    define F :: "ctx \<Rightarrow> ctx" where "F = c_exec_update (ex_mask_to_restore_update (\<lambda>_. None)) \<circ> c_task_update (t_sigmask_update (\<lambda>_. m))"
    have "keeps P (thn (on_task (t_sigmask_update (\<lambda>_. m))) (on_exec (ex_mask_to_restore_update (\<lambda>_. None))))"
      by (intro keeps_rules frame_rules) simp_all
    from keepsD [OF this s] have "P (cx_update F s)"
      by (simp add: monad_simps st_defs F_def)
    moreover have "F (cx s) = restore_mask (cx s)" using Some by (simp add: F_def restore_mask_def)
    then have "cx_update F s = cx_update restore_mask s" by (cases s) simp
    ultimately show ?thesis by (simp add: modify_def)
  qed
qed

lemma k_raise_signal_flag: "keeps P raise_signal_flag"
  unfolding raise_signal_flag_def by (intro keeps_rules frame_rules keeps_length)

lemma k_finish: "keeps P finish"
  unfolding finish_def by (intro keeps_rules frame_rules k_restore_mask k_raise_signal_flag) simp

section \<open>Calls into the filesystems\<close>

lemma k_world_op:
  assumes "P s" "same (world_of s) (snd (f (world_of s)))"
  shows "P (snd (world_op f s))"
proof -
  obtain a w where "f (world_of s) = (a, w)" by fastforce
  then show ?thesis using k_outside [OF assms] by (simp add: world_op_def run_def)
qed

lemma at_vfs_call1: "(\<And>w. P s \<Longrightarrow> same w (snd (f w))) \<Longrightarrow> keeps_at s P (vfs_call f)"
  unfolding vfs_call_def by (rule keeps_at_bnd) (auto intro: k_world_op k_or_vfs_fault)

lemma vfs_of_mount: "sh_vfs (sh (s :: ('w, 'f) st)) i = Some v \<longleftrightarrow> (\<exists>m. mounts_get (sh_mounts (sh s)) i = Some m \<and> v = mnt_vfs m)"
  by (auto simp: sh_vfs_def)

lemma w_looks: "P s \<Longrightarrow> looks same (sh_mounts (sh s))"
  unfolding looks_def using known_fs w_look vfs_of_mount by blast

lemma k_sys_resolve: "keeps P (sys_resolve dirfd path follow)"
  unfolding sys_resolve_def
proof (rule keeps_bnd)
  show "keeps P (if starts_with ''/'' path then ret ''/'' else if dirfd = AT_FDCWD
      then gets (\<lambda>s. t_cwd (the_task s))
      else bnd (get_fd dirfd) (\<lambda>entry. bnd (get_desc (fd_desc entry)) (\<lambda>desc.
        case d_kind desc of KDir _ _ \<Rightarrow> ret (d_path desc) | _ \<Rightarrow> err ENOTDIR)))"
    by (intro keeps_rules frame_rules)
  show "keeps P (bnd (gets (\<lambda>s. (sh_resolver (sh s), ctx_who (cx s)))) (\<lambda>(r, who). vfs_call (resolve r who base path follow)))"
    for base
  proof (rule keeps_of_at, rule keeps_at_reads)
    fix s :: "('w, 'f) st" and a
    assume "gets (\<lambda>s. (sh_resolver (sh s), ctx_who (cx s))) s = (Inr a, s)"
    then have a: "a = (sh_resolver (sh s), ctx_who (cx s))" by (simp add: gets_def)
    have "same w (snd (resolve (sh_resolver (sh s)) (ctx_who (cx s)) base path follow w))" if "P s" for w
      by (rule resolve_rel [OF same_refl same_trans]) (simp add: sh_resolver_def w_looks [OF that])
    then show "keeps_at s P (case a of (r, who) \<Rightarrow> vfs_call (resolve r who base path follow))"
      by (simp add: a at_vfs_call1)
  qed (simp add: reads_rules)
qed

text \<open>With the filesystem of mount \<open>i\<close>.\<close>

lemma at_get_vfs:
  fixes s :: "('w, 'f) st"
  assumes "\<And>v. fs i (is_read_only (sh s) i) v \<Longrightarrow> gives_at s P Q (f v)"
  shows "gives_at s P Q (bnd (get_vfs i) f)"
proof (cases "P s")
  case True
  show ?thesis
    by (rule gives_at_reads) (use assms known_fs [OF True get_vfs_InrD] in \<open>auto simp: reads_rules\<close>)
qed (simp add: gives_at_def)

lemma k_with_vfs:
  assumes "\<And>v ro. fs i ro v \<Longrightarrow> keeps P (f v)"
  shows "keeps P (bnd (get_vfs i) f)"
  unfolding keeps_gives
  by (rule gives_of_at, rule at_get_vfs) (use assms in \<open>auto simp: keeps_gives intro: gives_at_gives\<close>)

text \<open>What depends on whether the mount is read-only.\<close>

lemma gives_with_ro:
  assumes "\<And>(s :: ('w, 'f) st). gives_at s P Q (f (is_read_only (sh s) i))"
  shows "gives P Q (bnd (gets (\<lambda>s. is_read_only (sh s) i)) f)"
  by (rule gives_of_at, rule gives_at_reads) (use assms in \<open>auto simp: reads_rules dest: gets_InrD\<close>)

lemma gives_vfs_call:
  assumes "\<And>w. same w (snd (f w))" "\<And>w a w'. f w = (Inr a, w') \<Longrightarrow> Q a"
  shows "gives P Q (vfs_call f)"
  unfolding vfs_call_def
proof (rule gives_bnd [where Q = "\<lambda>r. \<forall>a. r = Inr a \<longrightarrow> Q a"])
  show "gives P (\<lambda>r. \<forall>a. r = Inr a \<longrightarrow> Q a) (world_op f)"
  proof (rule givesI)
    fix s assume "P s"
    then show "P (snd (world_op f s))" by (rule k_world_op) (rule assms(1))
  next
    fix s :: "('w, 'f) st" and a assume "fst (world_op f s) = Inr a"
    then show "\<forall>b. a = Inr b \<longrightarrow> Q b"
      using assms(2) [of "world_of s"] by (auto simp: world_op_def run_def Let_def split: prod.splits)
  qed
  show "gives P Q (or_vfs_fault r)" if "\<forall>a. r = Inr a \<longrightarrow> Q a" for r
    using that k_vfs_fault
    by (cases r) (auto simp: or_vfs_fault_def vfs_fault_def keeps_gives gives_simple
        intro!: gives_bnd [where Q = "\<lambda>_. True"] k_pending [unfolded keeps_gives])
qed

lemma k_vfs_call: "(\<And>w. same w (snd (f w))) \<Longrightarrow> keeps P (vfs_call f)"
  unfolding keeps_gives by (rule gives_vfs_call) simp_all

lemma k_world: "(\<And>w. same w (snd (f w))) \<Longrightarrow> keeps P (world_op f)"
  by (rule keepsI, rule k_world_op)

lemma k_on_mount:
  assumes "\<And>v w. fs i False v \<Longrightarrow> same w (snd (oper v w))"
  shows "keeps P (on_mount i oper)"
  unfolding on_mount_def keeps_gives
proof (rule gives_with_ro)
  fix s :: "('w, 'f) st"
  show "gives_at s P (\<lambda>_. True) (if is_read_only (sh s) i then err EROFS
    else bnd (get_vfs i) (\<lambda>v. thn (vfs_call (oper v)) (ret 0)))"
  proof (cases "is_read_only (sh s) i")
    case False
    have "gives_at s P (\<lambda>_. True) (bnd (get_vfs i) (\<lambda>v. thn (vfs_call (oper v)) (ret 0)))"
      by (rule at_get_vfs, rule gives_at_gives)
        (use assms False in \<open>auto simp: gives_simple intro!: gives_bnd [OF gives_vfs_call]\<close>)
    with False show ?thesis by simp
  qed (simp add: gives_at_gives gives_simple)
qed

section \<open>Open files\<close>

lemma k_file_op:
  assumes "P s" "slab_get (sh_descs (sh s)) k = Some d" "d_kind d = KFile f m c"
    and "\<And>a f' w'. oper (fops_of s) f (world_of s) = (a, f', w') \<Longrightarrow> same (world_of s) w' \<and> owns f' m"
  shows "P (snd (file_op k f oper s))"
proof -
  obtain a f' w' where o: "oper (fops_of s) f (world_of s) = (a, f', w')" by (metis prod_cases3)
  then have w: "P (set_world w' s)" and f': "owns f' m" using assms(1,4) k_outside by blast+
  have "slab_get (sh_descs (sh (set_world w' s))) k = Some d" using assms(2) by simp
  from k_file [OF w this assms(3) f'] show ?thesis
    by (simp add: file_op_def run_def o)
qed

lemma at_file_op:
  assumes "P s \<Longrightarrow> slab_get (sh_descs (sh s)) k = Some d" "d_kind d = KFile f m c"
    and "\<And>a w f' w'. P s \<Longrightarrow> owns f m \<Longrightarrow> oper (fops_of s) f w = (a, f', w') \<Longrightarrow> same w w' \<and> owns f' m"
    and "\<And>a. keeps P (g a)"
  shows "keeps_at s P (bnd (file_op k f oper) g)"
proof (rule keeps_at_bnd)
  assume s: "P s"
  note d = assms(1) [OF s]
  show "P (snd (file_op k f oper s))"
    by (rule k_file_op [OF s d assms(2)]) (rule assms(3) [OF s owned [OF s d assms(2)]])
qed (rule assms(4))

lemma f_read_into:
  "ops fo \<Longrightarrow> owns f m \<Longrightarrow> read_into fo b f w = (r, b', f', w') \<Longrightarrow> same w w' \<and> owns f' m"
  by (auto simp: read_into_def split: prod.splits dest: f_read)

text \<open>With the description of a descriptor.\<close>

lemma k_with_desc:
  assumes "\<And>s e d. P s \<Longrightarrow> fdt_get (t_fds (the_task s)) fd = Inr e \<Longrightarrow>
    slab_get (sh_descs (sh s)) (fd_desc e) = Some d \<Longrightarrow> keeps_at s P (f e d)"
  shows "keeps P (bnd (get_fd fd) (\<lambda>e. bnd (get_desc (fd_desc e)) (f e)))"
proof (rule keeps_of_at)
  fix s
  show "keeps_at s P (bnd (get_fd fd) (\<lambda>e. bnd (get_desc (fd_desc e)) (f e)))"
  proof (cases "P s")
    case True
    show ?thesis
    proof (rule keeps_at_reads, simp add: reads_rules)
      fix e assume e: "get_fd fd s = (Inr e, s)"
      then have e': "fdt_get (t_fds (the_task s)) fd = Inr e"
        by (auto simp: get_fd_def monad_simps split: sum.splits)
      show "keeps_at s P (bnd (get_desc (fd_desc e)) (f e))"
        by (rule keeps_at_reads) (use assms [OF True e'] get_desc_InrD in \<open>auto simp: reads_rules\<close>)
    qed
  qed (simp add: keeps_at_def)
qed

lemma k_read_stdin: "keeps P (read_stdin nb staging)"
  unfolding read_stdin_def by (intro keeps_rules frame_rules)

lemma k_read_pipe: "keeps P (read_pipe k nb staging)"
  unfolding read_pipe_def Let_def by (intro keeps_rules frame_rules)

lemma k_set_kind:
  assumes "slab_get (sh_descs (sh s)) k = Some d" "same_role (d_kind d) kind" "\<And>a. keeps P (g a)"
  shows "keeps_at s P (bnd (on_shared (desc_update k (set_kind kind))) g)"
proof (rule keeps_at_bnd)
  assume s: "P s"
  show "P (snd (on_shared (desc_update k (set_kind kind)) s))"
    unfolding on_shared_snd by (rule k_kind [OF s assms(1,2)])
qed (rule assms(3))

lemma k_read_bytes: "keeps P (read_bytes fd staging)"
  unfolding read_bytes_def
proof (intro keeps_if keeps_ret k_with_desc)
  fix s e d
  assume s: "P s" and d: "slab_get (sh_descs (sh s)) (fd_desc e) = Some d"
  show "keeps_at s P
    (if \<not> readable d then err EBADF
     else let nonblocking = is_nonblocking d; key = fd_desc e in
       (case d_kind d of
          KFile f _ _ \<Rightarrow> bnd (file_read key f staging) (\<lambda>(r, b). bnd (or_vfs_fault r) (\<lambda>n. ret (n, b)))
        | KMemory data pos \<Rightarrow> read_memory key data pos staging
        | KNull \<Rightarrow> ret (0, staging) | KZero \<Rightarrow> ret (length staging, staging)
        | KRandom \<Rightarrow> bnd (fill_random (length staging)) (\<lambda>bs. ret (length staging, bs))
        | KDir _ _ \<Rightarrow> err EISDIR | KPipeWrite _ \<Rightarrow> err EBADF | KStdout _ \<Rightarrow> err EBADF
        | KStdin \<Rightarrow> read_stdin nonblocking staging | KPipeRead k \<Rightarrow> read_pipe k nonblocking staging))"
  proof (cases "d_kind d")
    case (KFile f m c)
    have "keeps_at s P (bnd (file_read (fd_desc e) f staging) (\<lambda>(r, b). bnd (or_vfs_fault r) (\<lambda>n. ret (n, b))))"
      unfolding file_read_def
    proof (rule at_file_op [OF d KFile])
      show "same w w' \<and> owns f' m" if "owns f m" and
        "(let (r, b, f', w') = read_into (fops_of s) staging f w in ((r, b), f', w')) = (a, f', w')" for a w f' w'
        using that by (auto split: prod.splits dest: f_read_into [OF known [OF s]])
      show "keeps P (case a of (r, b) \<Rightarrow> bnd (or_vfs_fault r) (\<lambda>n. ret (n, b)))" for a
        by (intro keeps_rules k_or_vfs_fault)
    qed
    with KFile show ?thesis by simp
  next
    case (KMemory data pos)
    have "keeps_at s P (read_memory (fd_desc e) data pos staging)"
      unfolding read_memory_def Let_def
      by (rule k_set_kind [OF d]) (auto simp: KMemory same_role_def keeps_ret)
    with KMemory show ?thesis by simp
  next
    case KRandom
    have "keeps P (bnd (fill_random (length staging)) (\<lambda>bs. ret (length staging, bs)))"
      by (intro keeps_rules k_fill_random)
    with KRandom show ?thesis by (simp add: keeps_at_keeps)
  qed (use k_read_stdin k_read_pipe in \<open>simp_all add: keeps_at_keeps\<close>)
qed

lemma k_sys_read: "keeps P (sys_read fd at n)"
  unfolding sys_read_def by (intro keeps_rules k_read_bytes frame_rules keeps_length)

lemma k_update_record:
  "(\<And>r. pr_pid (f r) = pr_pid r \<and> pr_exit (f r) = pr_exit r) \<Longrightarrow> keeps P (on_records (update_record pid f))"
  by (rule k_records, rule tame_update_record)

lemma k_set_wake: "keeps P (set_wake t)"
  unfolding set_wake_def by (intro keeps_rules k_update_record) simp

lemma k_write_pipe: "keeps P (write_pipe k nb data)"
  unfolding write_pipe_def bnd_assoc
proof (rule keeps_of_at, rule keeps_at_reads, simp add: reads_rules)
  fix s :: "('w, 'f) st" and x assume "gets (\<lambda>s. slab_get (sh_pipes (sh s)) k) s = (Inr x, s)"
  then have x: "x = slab_get (sh_pipes (sh s)) k" by (simp add: gets_def)
  have raise: "keeps P (bnd (gets my_pid) (\<lambda>pid. thn (on_records (update_record pid (raise_sig SIGPIPE))) (err EPIPE :: ('w, 'f, nat) sys)))"
    by (intro keeps_rules k_update_record) simp
  have put: "keeps_at s P (thn (on_shared (pipe_update k (\<lambda>p. p\<lparr>p_data := p_data p @ take n data\<rparr>))) (ret n))"
    if "x = Some p" "n \<le> pipe_room p" for p n
  proof (rule keeps_at_bnd)
    assume s: "P s"
    show "P (snd (on_shared (pipe_update k (\<lambda>p. p\<lparr>p_data := p_data p @ take n data\<rparr>)) s))"
      unfolding on_shared_snd by (rule k_put [OF s, of k p]) (use that x in auto)
  qed (simp add: keeps_ret)
  show "keeps_at s P (bnd (ok_or EBADF x) (\<lambda>p. if p_readers p = 0 then
       bnd (gets my_pid) (\<lambda>pid. thn (on_records (update_record pid (raise_sig SIGPIPE))) (err EPIPE))
     else let room = pipe_room p in
       if room = 0 then (if nb then err EAGAIN else fault FBlock)
       else let n = min room (length data) in
         thn (on_shared (pipe_update k (\<lambda>p. p\<lparr>p_data := p_data p @ take n data\<rparr>))) (ret n)))"
    using raise put by (cases x) (auto simp: ok_or_def Let_def keeps_at_keeps)
qed

lemma k_write_output: "keeps P (run (\<lambda>s. let (n, s') = write_output which data (sh s) in (n, s\<lparr>sh := s'\<rparr>)))"
  by (rule keepsI) (auto simp: run_def Let_def write_output_def dest: k_output [of _ which data])

lemma k_write_bytes: "keeps P (write_bytes fd data)"
  unfolding write_bytes_def
proof (intro k_with_desc)
  fix s e d
  assume s: "P s" and d: "slab_get (sh_descs (sh s)) (fd_desc e) = Some d"
  have fil: "keeps_at s P (bnd (gets (\<lambda>s. is_read_only (sh s) m)) (\<lambda>ro. if ro then err EROFS
      else bnd (file_op (fd_desc e) f (\<lambda>fo f w. fo_write fo data f w)) or_vfs_fault))"
    if k: "d_kind d = KFile f m c" for f m c
  proof (rule keeps_at_reads, simp add: reads_rules)
    fix ro assume "gets (\<lambda>s. is_read_only (sh s) m) s = (Inr ro, s)"
    then have ro: "ro = is_read_only (sh s) m" by (simp add: gets_def)
    show "keeps_at s P (if ro then err EROFS
      else bnd (file_op (fd_desc e) f (\<lambda>fo f w. fo_write fo data f w)) or_vfs_fault)"
    proof (cases ro)
      case False
      then have "keeps_at s P (bnd (file_op (fd_desc e) f (\<lambda>fo f w. fo_write fo data f w)) or_vfs_fault)"
        by (intro at_file_op [OF d k] k_or_vfs_fault) (use ro f_write in blast)
      with False show ?thesis by simp
    qed simp
  qed
  show "keeps_at s P (if \<not> writable d then err EBADF
     else let nonblocking = is_nonblocking d; key = fd_desc e in
       (case d_kind d of
          KFile f m _ \<Rightarrow> bnd (gets (\<lambda>s. is_read_only (sh s) m)) (\<lambda>ro. if ro then err EROFS
            else bnd (file_op key f (\<lambda>fo f w. fo_write fo data f w)) or_vfs_fault)
        | KNull \<Rightarrow> ret (length data) | KZero \<Rightarrow> ret (length data) | KRandom \<Rightarrow> ret (length data)
        | KMemory _ _ \<Rightarrow> ret (length data) | KDir _ _ \<Rightarrow> err EBADF | KPipeRead _ \<Rightarrow> err EBADF
        | KStdin \<Rightarrow> err EBADF
        | KStdout which \<Rightarrow> run (\<lambda>s. let (n, s') = write_output which data (sh s) in (n, s\<lparr>sh := s'\<rparr>))
        | KPipeWrite k \<Rightarrow> write_pipe k nonblocking data))"
    by (cases "d_kind d") (use fil k_write_pipe k_write_output in \<open>simp_all add: keeps_at_keeps Let_def\<close>)
qed

lemma k_sys_write: "keeps P (sys_write fd at n)"
  unfolding sys_write_def by (intro keeps_rules k_write_bytes frame_rules)

lemma k_sys_vec: "keeps P (sys_vec rd fd vec n i acc)"
  by (induction n arbitrary: i acc)
    (auto simp: Let_def intro!: keeps_rules k_sys_read k_sys_write frame_rules)

section \<open>Positions, lengths and attributes\<close>

lemma at_bnd: "keeps_at s P m \<Longrightarrow> (\<And>a. keeps P (f a)) \<Longrightarrow> keeps_at s P (bnd m f)"
  by (rule keeps_at_bnd) (simp_all add: keeps_at_def)

lemma at_file_change:
  assumes "slab_get (sh_descs (sh s)) k = Some d" "d_kind d = KFile f m c"
    and "\<And>w a f' w'. P s \<Longrightarrow> owns f m \<Longrightarrow> \<not> is_read_only (sh s) m \<Longrightarrow> oper (fops_of s) f w = (a, f', w') \<Longrightarrow>
      same w w' \<and> owns f' m"
    and "\<And>a. keeps P (g a)"
  shows "keeps_at s P (bnd (gets (\<lambda>s. is_read_only (sh s) m)) (\<lambda>ro. if ro then err EROFS
      else bnd (file_op k f oper) g))"
proof (rule keeps_at_reads, simp add: reads_rules)
  fix ro assume "gets (\<lambda>s. is_read_only (sh s) m) s = (Inr ro, s)"
  then have ro: "ro = is_read_only (sh s) m" by (simp add: gets_def)
  show "keeps_at s P (if ro then err EROFS else bnd (file_op k f oper) g)"
  proof (cases ro)
    case False
    then have "keeps_at s P (bnd (file_op k f oper) g)"
      by (intro at_file_op [OF assms(1,2)] assms(4)) (use ro assms(3) in blast)
    with False show ?thesis by simp
  qed simp
qed

lemma k_sys_lseek: "keeps P (sys_lseek fd offset whence)"
  unfolding sys_lseek_def
proof (intro k_with_desc at_bnd)
  fix s e d
  assume s: "P s" and d: "slab_get (sh_descs (sh s)) (fd_desc e) = Some d"
  show "keeps_at s P (case d_kind d of
            KFile f _ _ \<Rightarrow>
              bnd (if whence = SEEK_SET then ret (SeekStart (as_u64 (max offset 0)))
                   else if whence = SEEK_CUR then ret (SeekCurrent offset)
                   else if whence = SEEK_END then ret (SeekEnd offset)
                   else err EINVAL) (\<lambda>from.
              bnd (file_op (fd_desc e) f (\<lambda>fo f w. fo_seek fo from f w)) or_vfs_fault)
          | KDir entries pos \<Rightarrow>
              thn (if whence = SEEK_SET \<and> offset = 0
                   then on_shared (desc_update (fd_desc e) (set_kind (KDir entries 0))) else ret ())
              (ret 0)
          | KNull \<Rightarrow> ret 0 | KZero \<Rightarrow> ret 0 | KRandom \<Rightarrow> ret 0 | _ \<Rightarrow> err ESPIPE)"
  proof (cases "d_kind d")
    case (KFile f m c)
    have "keeps_at s P (bnd (file_op (fd_desc e) f (\<lambda>fo f w. fo_seek fo from f w)) or_vfs_fault)" for "from"
      by (rule at_file_op [OF d KFile]) (use f_seek known [OF s] k_or_vfs_fault in blast)+
    with KFile show ?thesis by simp
  next
    case (KDir es p)
    have "keeps_at s P (thn (on_shared (desc_update (fd_desc e) (set_kind (KDir es 0)))) (ret 0 :: ('w, 'f, u64) sys))"
      by (rule k_set_kind [OF d]) (simp_all add: KDir same_role_def keeps_ret)
    with KDir show ?thesis by simp
  qed simp_all
qed (intro keeps_rules)

lemma k_sys_ftruncate: "keeps P (sys_ftruncate fd n)"
  unfolding sys_ftruncate_def
proof (intro k_with_desc)
  fix s e d
  assume s: "P s" and d: "slab_get (sh_descs (sh s)) (fd_desc e) = Some d"
  show "keeps_at s P (case d_kind d of
       KFile f m _ \<Rightarrow> bnd (gets (\<lambda>s. is_read_only (sh s) m)) (\<lambda>ro. if ro then err EROFS
         else bnd (file_op (fd_desc e) f (\<lambda>fo f w. fo_set_len fo n f w)) (\<lambda>r. thn (or_vfs_fault r) (ret 0)))
     | _ \<Rightarrow> err EINVAL)"
  proof (cases "d_kind d")
    case (KFile f m c)
    have "keeps_at s P (bnd (gets (\<lambda>s. is_read_only (sh s) m)) (\<lambda>ro. if ro then err EROFS
         else bnd (file_op (fd_desc e) f (\<lambda>fo f w. fo_set_len fo n f w)) (\<lambda>r. thn (or_vfs_fault r) (ret 0))))"
      by (rule at_file_change [OF d KFile]) (use f_set_len in \<open>blast intro: keeps_rules k_or_vfs_fault\<close>)+
    with KFile show ?thesis by simp
  qed simp_all
qed

lemma k_sys_truncate: "keeps P (sys_truncate at n)"
  unfolding sys_truncate_def get_vfs_def [symmetric] on_mount_def [symmetric]
  by (intro keeps_rules frame_rules k_sys_resolve k_on_mount) (use w_change in blast)

lemma k_dents: "keeps P (sys_getdents fd at capacity)"
  unfolding sys_getdents_def
proof (intro k_with_desc)
  fix s e d
  assume s: "P s" and d: "slab_get (sh_descs (sh s)) (fd_desc e) = Some d"
  show "keeps_at s P (case d_kind d of
       KDir entries pos \<Rightarrow>
         bnd (ok_or EINVAL (dents_from (unat capacity) (drop pos entries) pos [])) (\<lambda>(block, pos1).
         thn (on_shared (desc_update (fd_desc e) (set_kind (KDir entries pos1))))
        (thn (to_mem (mem_put at block)) (ret (as_i32 (int (length block))))))
     | _ \<Rightarrow> err ENOTDIR)"
  proof (cases "d_kind d")
    case (KDir es p)
    have "keeps_at s P (thn (on_shared (desc_update (fd_desc e) (set_kind (KDir es q))))
        (thn (to_mem (mem_put at block)) (ret n)))" for q block n
      by (rule k_set_kind [OF d]) (simp add: KDir same_role_def, intro keeps_rules frame_rules keeps_length)
    with KDir show ?thesis
      by (cases "dents_from (unat capacity) (drop p es) p []") (auto simp: ok_or_def)
  qed simp_all
qed

lemma k_sys_ioctl: "keeps P (sys_ioctl fd request argument)"
  unfolding sys_ioctl_def terminal_ioctl_def
  by (intro keeps_rules frame_rules keeps_length) (simp_all split: if_splits)

section \<open>Waiting, processes, signals and time\<close>

lemma k_timeout_until: "keeps P (timeout_until at)"
  unfolding timeout_until_def by (intro keeps_rules frame_rules k_deadline)

lemma k_poll_entries: "keeps P (poll_entries at n i)"
  by (induction n arbitrary: i) (auto intro!: keeps_rules frame_rules)

lemma k_sys_ppoll: "keeps P (sys_ppoll at count timeout)"
  unfolding sys_ppoll_def Let_def
  by (intro keeps_rules frame_rules k_timeout_until k_poll_entries k_set_wake keeps_length)

lemma k_sys_pselect: "keeps P (sys_pselect n rat wat eat timeout)"
  unfolding sys_pselect_def Let_def
  by (intro keeps_rules frame_rules k_timeout_until k_set_wake keeps_length)

lemma k_sys_wait4: "keeps P (sys_wait4 which status opts usage)"
  unfolding sys_wait4_def
proof (rule keeps_of_at, rule keeps_at_reads, simp add: reads_rules)
  fix s :: "('w, 'f) st" and cs
  assume "gets (\<lambda>s. filter (waits_for (my_pid s) (my_pgid s) which) (sh_table (sh s))) s = (Inr cs, s)"
  then have cs: "set cs \<subseteq> set (sh_table (sh s))" by (auto dest: gets_InrD)
  have reap: "keeps_at s P (thn (on_records (filter (\<lambda>x. pr_pid x \<noteq> pr_pid r)))
      (thn (if status \<noteq> 0 then to_mem (mem_put_u32 status (as_u32 (the (pr_exit r)))) else ret ())
      (thn (if usage \<noteq> 0 then to_mem (mem_zero usage 72) else ret ()) (ret (pr_pid r)))))"
    if "List.find (\<lambda>r. pr_exit r \<noteq> None) cs = Some r" for r
    by (rule keeps_at_bnd)
      (use that cs in \<open>auto simp: find_Some_iff is_alive_def intro!: k_reap keeps_rules frame_rules keeps_length\<close>)
  show "keeps_at s P (if cs = [] then err ECHILD
     else (case List.find (\<lambda>r. pr_exit r \<noteq> None) cs of
         None \<Rightarrow> if opts AND WNOHANG \<noteq> 0 then ret 0 else fault FBlock
       | Some r \<Rightarrow>
           thn (on_records (filter (\<lambda>x. pr_pid x \<noteq> pr_pid r)))
          (thn (if status \<noteq> 0 then to_mem (mem_put_u32 status (as_u32 (the (pr_exit r)))) else ret ())
          (thn (if usage \<noteq> 0 then to_mem (mem_zero usage 72) else ret ())
           (ret (pr_pid r))))))"
    using reap by (auto simp: keeps_at_keeps keeps_ret split: option.splits)
qed

lemma k_ids:
  "keeps P (sys_setpgid n g)" "keeps P (sys_getpgid n)" "keeps P sys_setsid" "keeps P (sys_getsid n)"
  unfolding sys_setpgid_def sys_getpgid_def sys_setsid_def sys_getsid_def
  by (intro keeps_rules frame_rules k_update_record; simp)+

lemma k_info:
  "keeps P (sys_sched_getaffinity a)" "keeps P (sys_umask a)" "keeps P (sys_uname a)"
  "keeps P (sys_sysinfo a)" "keeps P (sys_prlimit i a)" "keeps P (sys_times a)"
  "keeps P (sys_getrandom a len)" "keeps P (sys_statfs a)" "keeps P (sys_getcwd a len)"
  unfolding sys_sched_getaffinity_def sys_umask_def sys_uname_def sys_sysinfo_def sys_prlimit_def
    sys_times_def sys_getrandom_def sys_statfs_def sys_getcwd_def
  by (intro keeps_rules frame_rules keeps_length k_elapsed k_fill_random; simp)+

lemma k_sys_sigaction: "keeps P (sys_sigaction signal at old)"
  unfolding sys_sigaction_def
  by (intro keeps_rules frame_rules keeps_length) (simp_all add: task_set_action_def)

lemma k_signals:
  "keeps P (sys_sigprocmask how at old)" "keeps P (sys_sigpending at)" "keeps P (sys_sigsuspend at)"
  unfolding sys_sigprocmask_def Let_def sys_sigpending_def sys_sigsuspend_def
  by (intro keeps_rules frame_rules keeps_length; simp)+

lemma k_sys_kill: "keeps P (sys_kill target signal)"
  unfolding sys_kill_def
  by (intro keeps_rules frame_rules k_records tame_map) (simp_all split: if_splits)

lemma k_time:
  "keeps P (sys_clock_gettime clock at)" "keeps P (sys_clock_getres at)" "keeps P (sys_gettimeofday at)"
  "keeps P (sys_nanosleep at absolute clock)"
  unfolding sys_clock_gettime_def sys_clock_getres_def sys_gettimeofday_def sys_nanosleep_def
  by (intro keeps_rules frame_rules keeps_length k_elapsed k_deadline k_set_wake)+

lemma k_next_signal: "keeps P (next_signal at)"
  unfolding next_signal_def
  by (intro keeps_rules frame_rules keeps_length k_update_record)
    (simp_all add: task_set_action_def)

lemma k_start_block: "keeps P (start_block base)"
  unfolding start_block_def by (intro keeps_rules frame_rules k_fill_random)

section \<open>Memory\<close>

lemma f_fill_from:
  "ops fo \<Longrightarrow> owns f m \<Longrightarrow> fill_from fo buf n f w = (r, f', w') \<Longrightarrow> same w w' \<and> owns f' m"
proof (induction fo buf n f w arbitrary: r f' w' rule: fill_from.induct)
  case (1 fo buf filled f w)
  obtain r1 b f1 w1 where rd: "read_into fo (drop filled buf) f w = (r1, b, f1, w1)" by (metis prod_cases4)
  note step = f_read_into [OF 1(2,3) rd]
  show ?case
  proof (cases "length buf \<le> filled")
    case True
    with 1(4) 1(3) show ?thesis by (simp add: fill_from.simps reflpD [OF same_refl])
  next
    case False
    show ?thesis
    proof (cases r1)
      case (Inl e)
      with 1(4) False step show ?thesis by (simp add: fill_from.simps [of fo buf] rd)
    next
      case (Inr n)
      show ?thesis
      proof (cases "n = 0")
        case True
        with 1(4) False Inr step show ?thesis by (simp add: fill_from.simps [of fo buf] rd)
      next
        case nz: False
        with 1(4) False Inr have "fill_from fo (take filled buf @ b) (filled + n) f1 w1 = (r, f', w')"
          by (simp add: fill_from.simps [of fo buf] rd)
        from 1(1) [OF False rd [symmetric] Inr refl refl nz 1(2) _ this] step
        show ?thesis using transpD [OF same_trans] by blast
      qed
    qed
  qed
qed

lemma f_map_file:
  assumes "ops fo" "owns f m" "map_file len offset fo f w = (a, f', w')"
  shows "same w w' \<and> owns f' m"
proof -
  obtain r1 f1 w1 where s1: "fo_seek fo (SeekCurrent 0) f w = (r1, f1, w1)" by (metis prod_cases3)
  obtain r2 f2 w2 where s2: "fo_seek fo (SeekStart (of_nat (sat_mul_u64 offset 4096))) f1 w1 = (r2, f2, w2)"
    by (metis prod_cases3)
  obtain o3 b f3 w3 where s3: "fill_from fo (replicate len 0) 0 f2 w2 = ((o3, b), f3, w3)"
    by (metis prod_cases3 prod.collapse)
  note k1 = f_seek [OF assms(1,2) s1]
  have k2: "same w w2 \<and> owns f2 m" using k1 f_seek [OF assms(1) _ s2] transpD [OF same_trans] by blast
  have k3: "same w w3 \<and> owns f3 m" using k2 f_fill_from [OF assms(1) _ s3] transpD [OF same_trans] by blast
  have k4: "same w w4 \<and> owns f4 m" if "fo_seek fo p f3 w3 = (r4, f4, w4)" for p r4 f4 w4
    using k3 f_seek [OF assms(1) _ that] transpD [OF same_trans] by blast
  show ?thesis using assms(3) k1 k2 k3
    by (cases r1; cases r2; cases o3) (auto simp: map_file_def s1 s2 s3 Let_def split: prod.splits dest: k4)
qed

lemma k_map_into: "keeps P (map_into at fd len offset)"
  unfolding map_into_def
proof (intro k_with_desc)
  fix s e d
  assume s: "P s" and d: "slab_get (sh_descs (sh s)) (fd_desc e) = Some d"
  show "keeps_at s P (case d_kind d of
       KFile f _ _ \<Rightarrow> bnd (file_op (fd_desc e) f (map_file len offset)) (\<lambda>(out, buf).
         thn (or_vfs_fault out) (to_mem (mem_put at buf)))
     | _ \<Rightarrow> err ENODEV)"
  proof (cases "d_kind d")
    case (KFile f m c)
    have "keeps_at s P (bnd (file_op (fd_desc e) f (map_file len offset)) (\<lambda>(out, buf).
         thn (or_vfs_fault out) (to_mem (mem_put at buf))))"
      by (rule at_file_op [OF d KFile])
        (use f_map_file known [OF s] in \<open>blast intro: keeps_rules frame_rules keeps_length\<close>)+
    with KFile show ?thesis by simp
  qed simp_all
qed

lemma pages_bound: "n < 4294967296 \<Longrightarrow> div_ceil n PAGE \<le> PAGE"
  unfolding div_ceil_def by simp

lemma sat_pages: "p \<le> PAGE \<Longrightarrow> sat_mul_u64 p PAGE = p * PAGE"
  by (simp add: sat_mul_u64_def)

lemma k_sys_brk: "keeps P (sys_brk request)"
  unfolding sys_brk_def Let_def
  by (intro keeps_rules k_acquire sat_pages pages_bound)
    (use unsigned_less [of request] in \<open>auto intro: le_less_trans diff_le_self\<close>)

lemma k_sys_mmap: "keeps P (sys_mmap addr len flags fd offset)"
  unfolding sys_mmap_def Let_def
  by (intro keeps_rules k_acquire sat_pages pages_bound k_map_into)
    (use unsigned_less [of len] in auto)

section \<open>Paths\<close>

lemma change_rules:
  "fs i False v \<Longrightarrow> same w (snd (v_mkdir v p m w))" "fs i False v \<Longrightarrow> same w (snd (v_unlink v p w))"
  "fs i False v \<Longrightarrow> same w (snd (v_rmdir v p w))" "fs i False v \<Longrightarrow> same w (snd (v_rename v p q w))"
  "fs i False v \<Longrightarrow> same w (snd (v_symlink v p q w))" "fs i False v \<Longrightarrow> same w (snd (v_truncate v p n w))"
  "fs i False v \<Longrightarrow> same w (snd (v_set_mode v p m w))"
  using w_change by blast+

lemma look_rules:
  "fs i ro v \<Longrightarrow> same w (snd (v_stat v p follow w))" "fs i ro v \<Longrightarrow> same w (snd (v_readlink v p w))"
  "fs i ro v \<Longrightarrow> same w (snd (v_readdir v p w))"
  using w_look by blast+

lemma k_proc_content: "keeps P (proc_content guest)"
  unfolding proc_content_def by (intro keeps_rules k_elapsed)

lemma k_write_statx: "keeps P (write_statx at st path rdev)"
  unfolding write_statx_def by (intro keeps_rules frame_rules keeps_length)

lemma k_stat_node: "keeps P (stat_node node path follow)"
  unfolding stat_node_def
  by (intro keeps_rules frame_rules k_proc_content k_with_vfs k_vfs_call look_rules)

lemma k_stat_file: "keeps P (bnd (get_fd fd) (\<lambda>entry. bnd (get_desc (fd_desc entry)) (\<lambda>d. stat_desc (fd_desc entry) d)))"
proof (rule k_with_desc)
  fix s e d
  assume s: "P s" and d: "slab_get (sh_descs (sh s)) (fd_desc e) = Some d"
  show "keeps_at s P (stat_desc (fd_desc e) d)"
  proof (cases "d_kind d")
    case (KFile f m c)
    have st: "keeps P (vfs_call (fo_stat fo f))" if "ops fo" for fo
      using k_vfs_call f_stat [OF that] owned [OF s d KFile] by blast
    have "keeps_at s P (bnd (gets (\<lambda>s. fops_of s)) (\<lambda>fo. bnd (vfs_call (fo_stat fo f)) (\<lambda>st. ret (st, d_path d, 0, 0))))"
      by (rule keeps_at_reads) (use known [OF s] in \<open>auto simp: reads_rules dest!: gets_InrD intro!: keeps_at_keeps keeps_bnd keeps_ret st\<close>)
    with KFile show ?thesis by (simp add: stat_desc_def)
  qed (simp_all add: stat_desc_def)
qed

lemma k_sys_statx: "keeps P (sys_statx dirfd at flags buffer)"
  unfolding sys_statx_def Let_def
  by (intro keeps_rules frame_rules keeps_length k_stat_file k_stat_node k_write_statx k_sys_resolve)

lemma k_directories: "keeps P (sys_chdir at)" "keeps P (sys_fchdir fd)"
  unfolding sys_chdir_def sys_fchdir_def
  by (intro keeps_rules frame_rules k_sys_resolve k_with_vfs k_vfs_call look_rules; simp)+

lemma k_probe_node: "keeps P (probe_node node follow)"
  unfolding probe_node_def by (intro keeps_rules k_with_vfs k_vfs_call look_rules)

lemma k_looking:
  "keeps P (sys_faccessat dirfd at flags)" "keeps P (sys_readlinkat dirfd at buf n)"
  "keeps P (sys_utimensat dirfd at flags)"
  unfolding sys_faccessat_def sys_readlinkat_def sys_utimensat_def Let_def
  by (intro keeps_rules frame_rules keeps_length k_sys_resolve k_probe_node k_with_vfs k_vfs_call look_rules;
      assumption)+

lemma k_creating:
  "(\<And>rel v w i. fs i False v \<Longrightarrow> same w (snd (oper rel v w))) \<Longrightarrow> keeps P m \<Longrightarrow> keeps P (creating m oper)"
  unfolding creating_def by (intro keeps_rules k_on_mount)

lemma k_changing:
  "keeps P (sys_mkdirat dirfd at md)" "keeps P (sys_unlinkat dirfd at flags)"
  "keeps P (sys_renameat ffd fat tfd tat)" "keeps P (sys_symlinkat tat dirfd at)"
  "keeps P (sys_fchmodat dirfd at md)"
  unfolding sys_mkdirat_def sys_unlinkat_def sys_renameat_def sys_symlinkat_def sys_fchmodat_def
  by (intro keeps_rules frame_rules k_sys_resolve k_on_mount k_creating change_rules;
      simp split: if_splits add: change_rules)+

section \<open>Opening\<close>

lemma and_or_zero: "w AND (a OR b) = 0 \<Longrightarrow> w AND a = 0 \<and> w AND b = (0 :: u32)"
  by (simp add: bit.conj_disj_distrib or_eq_0_iff)

lemma reading_flags: "\<not> wants_write flags \<Longrightarrow> opens_for_reading (open_flags flags md umask)"
proof -
  assume w: "\<not> wants_write flags"
  then have z: "flags AND (O_CREAT OR O_TRUNC) = 0" by (simp add: wants_write_def)
  have "flags AND O_CREAT = 0" "flags AND O_TRUNC = 0" using and_or_zero [OF z] by blast+
  then show ?thesis
    using w by (auto simp: wants_write_def opens_for_reading_def open_flags_def Let_def)
qed

text \<open>What a fresh description may hold: a file of the mount it names, or something else than a pipe.\<close>

definition opened :: "'f desc_kind \<Rightarrow> bool" where
  "opened k \<longleftrightarrow> (case k of KFile f i _ \<Rightarrow> owns f i | KPipeRead _ \<Rightarrow> False | KPipeWrite _ \<Rightarrow> False | _ \<Rightarrow> True)"

lemma gives_open_mounted: "gives P (\<lambda>(k, _). opened k) (open_mounted i rel guest flags md)"
  unfolding open_mounted_def
proof (rule gives_with_ro)
  fix s :: "('w, 'f) st"
  let ?ro = "is_read_only (sh s) i"
  define rest :: "('w, 'f) vfs \<Rightarrow> stat option \<Rightarrow> ('w, 'f, 'f desc_kind \<times> string) sys" where
    "rest v st = (let is_dir = (case st of Some x \<Rightarrow> st_type x = Dir | None \<Rightarrow> False) in
       if flags AND O_DIRECTORY \<noteq> 0 \<and> st \<noteq> None \<and> \<not> is_dir then err ENOTDIR
       else if is_dir then
         (if wants_write flags then err EISDIR
          else
            bnd (vfs_call (v_readdir v rel)) (\<lambda>listing.
            bnd (gets (\<lambda>s. (o_hash (sh_out (sh s)), virtual_entries (sh_resolver (sh s)) guest)))
                (\<lambda>(hash, vs).
            ret (KDir (merge_virtual hash vs (base_entries @ map (listed_dent hash guest) listing)) 0, guest))))
       else
         bnd (gets (\<lambda>s. t_umask (the_task s))) (\<lambda>umask.
         bnd (vfs_call (v_open v rel (open_flags flags md umask))) (\<lambda>f.
         ret (KFile f i False, guest))))" for v st
  have rest: "gives P (\<lambda>(k, _). opened k) (rest v st)"
    if v: "fs i ?ro v" and w: "\<not> (wants_write flags \<and> ?ro)" for v st
  proof -
    have o': "gives P (\<lambda>f. owns f i) (vfs_call (v_open v rel (open_flags flags md umask)))" for umask
    proof (rule gives_vfs_call)
      show "same w (snd (v_open v rel (open_flags flags md umask) w))" for w
        using w_open [OF v] reading_flags w by (metis prod.collapse)
      show "owns a i" if "v_open v rel (open_flags flags md umask) w = (Inr a, w')" for w a w'
        using w_open [OF v _ that] reading_flags w by blast
    qed
    have "gives P (\<lambda>(k, _). opened k) (bnd (vfs_call (v_open v rel (open_flags flags md umask)))
        (\<lambda>f. ret (KFile f i False, guest)))" for umask
      by (rule gives_bnd [OF o']) (simp add: gives_simple opened_def)
    moreover have "gives P (\<lambda>(k, _). opened k) (bnd (vfs_call (v_readdir v rel)) (\<lambda>listing.
            bnd (gets (\<lambda>s. (o_hash (sh_out (sh s)), virtual_entries (sh_resolver (sh s)) guest)))
                (\<lambda>(hash, vs).
            ret (KDir (merge_virtual hash vs (base_entries @ map (listed_dent hash guest) listing)) 0, guest))))"
      by (intro gives_after k_vfs_call look_rules [OF v] keeps_gets) (auto simp: opened_def intro: gives_simple)
    ultimately show ?thesis
      unfolding rest_def Let_def by (auto intro: gives_simple gives_after keeps_gets)
  qed
  have "gives_at s P (\<lambda>(k, _). opened k) (bnd (get_vfs i) (\<lambda>v. bnd (world_op (v_stat v rel True)) (\<lambda>r.
       bnd (case r of Inr st \<Rightarrow> ret (Some st) | Inl e \<Rightarrow> if e = ENOENT then ret None else vfs_fault e) (rest v))))"
    if "\<not> (wants_write flags \<and> ?ro)"
    by (rule at_get_vfs, rule gives_at_gives)
      (intro gives_after k_world look_rules keeps_rules k_vfs_fault rest that, assumption+)
  then show "gives_at s P (\<lambda>(k, _). opened k) (if wants_write flags \<and> ?ro then err EROFS
     else bnd (get_vfs i) (\<lambda>v. bnd (world_op (v_stat v rel True)) (\<lambda>r.
       bnd (case r of Inr st \<Rightarrow> ret (Some st) | Inl e \<Rightarrow> if e = ENOENT then ret None else vfs_fault e) (\<lambda>st.
       let is_dir = (case st of Some x \<Rightarrow> st_type x = Dir | None \<Rightarrow> False) in
       if flags AND O_DIRECTORY \<noteq> 0 \<and> st \<noteq> None \<and> \<not> is_dir then err ENOTDIR
       else if is_dir then
         (if wants_write flags then err EISDIR
          else
            bnd (vfs_call (v_readdir v rel)) (\<lambda>listing.
            bnd (gets (\<lambda>s. (o_hash (sh_out (sh s)), virtual_entries (sh_resolver (sh s)) guest)))
                (\<lambda>(hash, vs).
            ret (KDir (merge_virtual hash vs (base_entries @ map (listed_dent hash guest) listing)) 0, guest))))
       else
         bnd (gets (\<lambda>s. t_umask (the_task s))) (\<lambda>umask.
         bnd (vfs_call (v_open v rel (open_flags flags md umask))) (\<lambda>f.
         ret (KFile f i False, guest)))))))"
    unfolding rest_def by (auto intro: gives_at_gives gives_simple)
qed

lemma gives_open_node: "gives P (\<lambda>r. \<forall>k g. r = Inr (k, g) \<longrightarrow> opened k) (open_node node flags md)"
proof (cases node)
  case (Mounted i rel guest)
  then show ?thesis
    by (auto simp: open_node_def intro!: gives_bnd [OF gives_open_mounted] gives_simple)
next
  case (Device d)
  then show ?thesis by (cases d) (auto simp: open_node_def opened_def intro!: gives_simple)
qed (auto simp: open_node_def opened_def k_proc_content intro!: gives_simple gives_after keeps_gets)

end

end
