(* ===== verification/Kernel_Steps.thy ===== *)
theory Kernel_Steps
  imports Kernel_Frame
begin

text \<open>
  From the primitive effects to whole system calls: \<open>kernel_steps\<close> adds to two
  \<open>kernel_frame\<close>s (before and after, \<open>P\<close> and \<open>Q\<close>) the operations that move references to
  descriptions, and concludes for \<open>handle\<close>, \<open>dispatch\<close> and every import.  \<open>guest_step\<close> is what
  a guest can do between two instructions the kernel sees: write its memory, move its stack
  pointer, be switched by Asyncify, or call an import.
\<close>

section \<open>What a guest does\<close>

inductive import_step :: "('w, 'f) st \<Rightarrow> ('w, 'f) st \<Rightarrow> bool" where
  syscall: "import_step s (snd (syscall_entry number args_ptr s))"
| setjmp: "import_step s (snd (setjmp_entry env s))"
| longjmp: "import_step s (longjmp_entry env v s)"
| init: "import_step s (init_entry flag s)"
| args: "import_step s (snd (args_entry buffer capacity s))"
| sigfetch: "import_step s (snd (sigfetch_entry at s))"

inductive guest_step :: "('w, 'f) st \<Rightarrow> ('w, 'f) st \<Rightarrow> bool" where
  store: "length mem = length (g_mem (gs s)) \<Longrightarrow> guest_step s (s\<lparr>gs := (gs s)\<lparr>g_mem := mem\<rparr>\<rparr>)"
| stack: "guest_step s (s\<lparr>gs := (gs s)\<lparr>g_sp := sp, g_mode := md\<rparr>\<rparr>)"
| call: "import_step s s' \<Longrightarrow> guest_step s s'"

inductive_cases import_stepE: "import_step s s'"
inductive_cases guest_stepE: "guest_step s s'"

text \<open>A run of the guest, all of whose states before the last satisfy \<open>C\<close>.\<close>

inductive guest_run :: "(('w, 'f) st \<Rightarrow> bool) \<Rightarrow> ('w, 'f) st \<Rightarrow> ('w, 'f) st \<Rightarrow> bool" for C where
  start: "guest_run C s s"
| step: "guest_run C s s1 \<Longrightarrow> C s1 \<Longrightarrow> guest_step s1 s2 \<Longrightarrow> guest_run C s s2"

lemma leads_if: "(c \<Longrightarrow> leads P Q m) \<Longrightarrow> (\<not> c \<Longrightarrow> leads P Q n) \<Longrightarrow> leads P Q (if c then m else n)"
  by simp

lemma leads_node:
  assumes "\<And>i g. leads P Q (k1 i g)" "\<And>d. leads P Q (k2 d)" "\<And>g. leads P Q (k3 g)"
    "\<And>i r g. leads P Q (k4 i r g)" "\<And>g. leads P Q (k5 g)" "\<And>t. leads P Q (k6 t)"
  shows "leads P Q (case n of Program i g \<Rightarrow> k1 i g | Device d \<Rightarrow> k2 d | Synth g \<Rightarrow> k3 g
    | Mounted i r g \<Rightarrow> k4 i r g | VirtualDir g \<Rightarrow> k5 g | VirtualLink t \<Rightarrow> k6 t)"
  by (cases n) (simp_all add: assms)

lemma on_exec_snd: "snd (on_exec f s) = s\<lparr>cx := (cx s)\<lparr>c_exec := f (c_exec (cx s))\<rparr>\<rparr>"
proof -
  have "c_exec_update f (cx s) = (cx s)\<lparr>c_exec := f (c_exec (cx s))\<rparr>" by (cases "cx s") simp
  then show ?thesis by (cases s) (simp add: on_exec_def modify_def)
qed

section \<open>Whole calls\<close>

context kernel_frame
begin

lemma gives_world_op:
  assumes "\<And>w a w'. f w = (a, w') \<Longrightarrow> same w w' \<and> R a"
  shows "gives P R (world_op f)"
proof (rule givesI)
  fix s assume "P s"
  then show "P (snd (world_op f s))"
    by (rule k_world_op) (use assms in \<open>metis prod.collapse\<close>)
next
  fix s :: "('w, 'f) st" and a assume "fst (world_op f s) = Inr a"
  then show "R a"
    using assms [of "world_of s"] by (auto simp: world_op_def run_def Let_def split: prod.splits)
qed

end

locale kernel_steps =
  pre: kernel_frame P same owns ops fs + post: kernel_frame Q same owns ops fs
  for P Q :: "('w, 'f) st \<Rightarrow> bool" and same owns ops fs +
  assumes weaker: "P s \<Longrightarrow> Q s"
    and l_close: "leads P Q (sys_close fd)"
    and l_dup: "leads P Q (dup_fd fd cloexec lo)"
    and l_dup3: "leads P Q (sys_dup3 from to flags)"
    and l_pipe2: "leads P Q (sys_pipe2 at flags)"
    and l_install: "pre.opened kind \<Longrightarrow> leads P Q (install_desc (desc_new kind path status) cloexec)"
    and l_exit: "leads P Q (sys_exit code)"
    and l_clone: "leads P Q (sys_clone flags)"
    and l_exec: "leads P Q (finish_exec program exe argv envp)"
begin

lemma lift: "keeps P m \<Longrightarrow> leads P Q m"
  by (rule leads_keeps) (auto intro: weaker)

lemma l_bnd: "keeps P m \<Longrightarrow> (\<And>a. leads P Q (f a)) \<Longrightarrow> leads P Q (bnd m f)"
  by (rule leads_bnd) (auto intro: weaker)

lemma l_fault: "leads P Q (fault e)"
  by (rule lift) (rule keeps_fault)

lemma l_with_vfs:
  assumes "\<And>v ro. fs i ro v \<Longrightarrow> leads P Q (f v)"
  shows "leads P Q (bnd (get_vfs i) f)"
  unfolding leads_def
proof (intro allI impI)
  fix s assume s: "P s"
  obtain r where g: "get_vfs i s = (r, s)"
    using reads_kernel(4) [of i] by (metis prod.collapse reads_def)
  show "Q (snd (bnd (get_vfs i) f s))"
  proof (cases r)
    case (Inl e)
    with g s weaker show ?thesis by (simp add: bnd_def)
  next
    case (Inr v)
    then have "fs i (is_read_only (sh s) i) v" using g pre.known_fs [OF s] get_vfs_InrD by metis
    from assms [OF this] s show ?thesis using g Inr by (simp add: bnd_def leads_def)
  qed
qed

lemma l_openat: "leads P Q (sys_openat dirfd at flags md)"
proof -
  have tail: "leads P Q (bnd (open_node node flags md) (\<lambda>what. case what of
      Inl fd \<Rightarrow> dup_fd fd (flags AND O_CLOEXEC \<noteq> 0) 0
    | Inr (kind, guest) \<Rightarrow> install_desc (desc_new kind guest (flags AND (O_ACCMODE OR O_APPEND OR O_NONBLOCK)))
        (flags AND O_CLOEXEC \<noteq> 0)))" for node
    by (rule leads_gives [OF weaker pre.gives_open_node])
      (auto intro: l_dup l_install split: sum.splits prod.splits)
  show ?thesis
    unfolding sys_openat_def Let_def
    by (rule l_bnd, intro pre.frame_rules, rule l_bnd, rule pre.k_sys_resolve, rule tail)
qed

lemma l_execve: "leads P Q (sys_execve path_at argv_at envp_at)"
proof -
  define script where
    "script path argv envp fo f = (
              bnd (world_op (\<lambda>w. let (r, b, f1, w1) = read_into fo (replicate 256 0) f w in ((r, b, f1), w1)))
                  (\<lambda>(r, b, f1).
              bnd (or_vfs_fault r) (\<lambda>n.
              bnd (world_op (\<lambda>w. let (r', f2, w1) = fo_close fo f1 w in (r', w1))) (\<lambda>_.
              bnd (ok_or ENOEXEC (shebang (case get_range b 0 n of Some h \<Rightarrow> h | None \<Rightarrow> []))) (\<lambda>ln.
              let (interpreter, rebuilt) = script_argv ln path argv in
              bnd (sys_resolve AT_FDCWD interpreter True) (\<lambda>node'.
              case node' of
                Program i guest \<Rightarrow> finish_exec i guest rebuilt envp
              | _ \<Rightarrow> err ENOEXEC))))) :: ('w, 'f, int) sys)" for path argv envp and fo :: "('w, 'f) file_ops" and f :: 'f
  have script: "leads P Q (script path argv envp fo f)" if fo: "ops fo" and f: "owns f i"
    for path argv envp fo f i
  proof -
    have close: "keeps P (world_op (\<lambda>w. let (r', f2, w1) = fo_close fo f1 w in (r', w1)))" if "owns f1 i" for f1
      by (rule pre.k_world) (use pre.f_close [OF fo that] in \<open>auto split: prod.splits\<close>)
    have read: "gives P (\<lambda>(r, b, f1). owns f1 i)
        (world_op (\<lambda>w. let (r, b, f1, w1) = read_into fo (replicate 256 0) f w in ((r, b, f1), w1)))"
      by (rule pre.gives_world_op) (auto split: prod.splits dest: pre.f_read_into [OF fo f])
    show ?thesis
      unfolding script_def
      by (rule leads_gives [OF weaker read])
        (auto simp: Let_def split: prod.splits
          intro!: l_bnd pre.k_or_vfs_fault keeps_ok_or close [unfolded Let_def] pre.k_sys_resolve leads_node l_exec l_fault)
  qed
  have mounted: "leads P Q (bnd (vfs_call (v_open v rel open_options_read)) (\<lambda>f.
      bnd (gets (\<lambda>s. fops_of s)) (\<lambda>fo. script path argv envp fo f)))" if v: "fs i ro v"
    for v i ro rel path argv envp
  proof (rule leads_gives [OF weaker pre.gives_vfs_call [where Q = "\<lambda>f. owns f i"]])
    have o': "opens_for_reading open_options_read"
      by (simp add: opens_for_reading_def open_options_read_def open_options_new_def)
    show "same w (snd (v_open v rel open_options_read w))" for w
      using pre.w_open [OF v] o' by (metis prod.collapse)
    show "owns a i" if "v_open v rel open_options_read w = (Inr a, w')" for w a w'
      using pre.w_open [OF v _ that] o' by blast
    show "leads P Q (bnd (gets (\<lambda>s. fops_of s)) (\<lambda>fo. script path argv envp fo f))" if "owns f i" for f
      using script [OF _ that] pre.known by (auto simp: leads_def bnd_def gets_def)
  qed
  show ?thesis
    unfolding sys_execve_def get_vfs_def [symmetric] script_def [symmetric]
    by (intro l_bnd pre.frame_rules pre.k_sys_resolve leads_node l_exec l_with_vfs pre.k_world pre.look_rules
        leads_if l_fault mounted; assumption?)
qed

section \<open>The table\<close>

lemma l_fcntl: "leads P Q (sys_fcntl fd command argument)"
  unfolding sys_fcntl_def
  by (intro leads_if l_dup lift keeps_rules pre.frame_rules; simp)

lemmas kept = pre.k_sys_wait4 pre.k_ids pre.k_info pre.k_sys_sigaction pre.k_signals pre.k_sys_kill pre.k_time
  pre.k_sys_brk pre.k_sys_mmap pre.k_sys_read pre.k_sys_write pre.k_sys_vec pre.k_sys_lseek pre.k_sys_ftruncate
  pre.k_sys_ioctl pre.k_dents pre.k_directories pre.k_sys_ppoll pre.k_sys_pselect pre.k_sys_truncate
  pre.k_sys_statx pre.k_looking pre.k_changing

lemma l_tables:
  "handle_process nr a = Some m \<Longrightarrow> leads P Q m" "handle_signal nr a = Some m \<Longrightarrow> leads P Q m"
  "handle_fd nr a = Some m \<Longrightarrow> leads P Q m" "handle_path nr a = Some m \<Longrightarrow> leads P Q m"
proof -
  have simple: "leads P Q (ret n)" "leads P Q (err e)" "leads P Q (gets f)" "leads P Q sys_getppid"
    "leads P Q (thn (to_mem (mem_zero at k)) (ret n))" for n e f at k
    by (rule lift, intro keeps_rules pre.frame_rules keeps_length)+
  show "handle_process nr a = Some m \<Longrightarrow> leads P Q m"
    by (cases a) (auto simp: handle_process_def split: if_splits intro: simple l_exit l_clone l_execve lift kept)
  show "handle_signal nr a = Some m \<Longrightarrow> leads P Q m"
    by (cases a) (auto simp: handle_signal_def split: if_splits intro: simple lift kept)
  show "handle_fd nr a = Some m \<Longrightarrow> leads P Q m"
    by (cases a) (auto simp: handle_fd_def split: if_splits
        intro: simple l_close l_dup l_dup3 l_pipe2 l_fcntl lift kept)
  show "handle_path nr a = Some m \<Longrightarrow> leads P Q m"
    by (cases a) (auto simp: handle_path_def split: if_splits intro: simple l_openat lift kept)
qed

lemma l_handle: "leads P Q (handle nr a)"
  unfolding handle_def using l_tables l_fault by (auto split: option.splits)

lemma dispatch_step:
  assumes "P s"
  shows "Q (snd (dispatch nr a s))"
proof -
  have "P (snd (on_shared (sh_syscalls_update (\<lambda>n. sat_add_u64 n 1)) s))"
    by (rule keepsD [OF pre.k_count assms])
  moreover have "snd (on_shared (sh_syscalls_update (\<lambda>n. sat_add_u64 n 1)) s) = count_syscall s"
    by (simp add: on_shared_def modify_def count_syscall_def)
  ultimately have s1: "Q (snd (handle nr a (count_syscall s)))"
    using l_handle by (simp add: leads_def)
  have fin: "Q s1 \<Longrightarrow> Q (snd (finish s1))" for s1 by (rule keepsD [OF post.k_finish])
  obtain r s1 where "handle nr a (count_syscall s) = (r, s1)" by fastforce
  with s1 fin show ?thesis
    by (auto simp: dispatch_def split: sum.splits fault.splits)
qed

section \<open>The imports\<close>

lemma q_suspend:
  assumes "Q s" "length m = length (g_mem (gs s))" "\<And>e. ex_grown (f e) = ex_grown e"
  shows "Q (s\<lparr>gs := (gs s)\<lparr>g_mem := m, g_mode := md\<rparr>, cx := (cx s)\<lparr>c_exec := f (c_exec (cx s))\<rparr>\<rparr>)"
proof -
  have "Q (s\<lparr>gs := (gs s)\<lparr>g_mem := m\<rparr>\<rparr>)" by (rule post.k_mem [OF assms(1,2)])
  from post.k_regs [OF this, where sp = "g_sp (gs s)" and md = md]
  have "Q (s\<lparr>gs := (gs s)\<lparr>g_mem := m, g_mode := md\<rparr>\<rparr>)" by (cases "gs s") simp
  from keepsD [OF post.k_exec [of f] this] assms(3) show ?thesis by (simp add: on_exec_snd)
qed

lemma q_unwind: "Q s \<Longrightarrow> Q (unwind why s)"
  unfolding unwind_def Let_def
  by (rule q_suspend [of s _ "ex_suspension_update (\<lambda>_. Some why)", simplified]) (simp_all add: mem_writes_length)

lemma q_exec: "(\<And>e. ex_grown (f e) = ex_grown e) \<Longrightarrow> Q s \<Longrightarrow> Q (s\<lparr>cx := (cx s)\<lparr>c_exec := f (c_exec (cx s))\<rparr>\<rparr>)"
  using keepsD [OF post.k_exec [of f]] by (simp add: on_exec_snd)

lemma q_finish_rewind:
  assumes "Q s"
  shows "Q (snd (finish_rewind s))"
proof -
  define sp where "sp = (if ex_resume_sp (c_exec (cx s)) \<noteq> 0 then ex_resume_sp (c_exec (cx s)) else g_sp (gs s))"
  have "Q (s\<lparr>gs := (gs s)\<lparr>g_sp := sp, g_mode := AsyNormal\<rparr>\<rparr>)" by (rule post.k_regs [OF assms])
  from q_exec [OF _ this, of "ex_rewinding_update (\<lambda>_. False)"]
  show ?thesis by (cases "gs s") (auto simp: finish_rewind_def Let_def sp_def split: if_splits)
qed

lemma call_step:
  assumes "import_step s s'" "P s"
  shows "Q s'"
  using assms(1)
proof (cases rule: import_stepE [consumes 1, case_names syscall setjmp longjmp init args sigfetch])
  case (syscall number args_ptr)
  show ?thesis
  proof (cases "ex_rewinding (c_exec (cx s))")
    case True
    then have "s' = snd (finish_rewind s)"
      by (simp add: syscall syscall_entry_def Let_def split: prod.splits)
    then show ?thesis using q_finish_rewind [OF weaker [OF assms(2)]] by simp
  next
    case False
    show ?thesis
    proof (cases "read_words (g_mem (gs s)) args_ptr 0 6")
      case (Inl e)
      then show ?thesis using weaker [OF assms(2)] False by (simp add: syscall syscall_entry_def)
    next
      case (Inr ws)
      obtain o' s1 where d: "dispatch (sint number) (args_of ws) s = (o', s1)" by fastforce
      have s1: "Q s1" using dispatch_step [OF assms(2), of "sint number" "args_of ws"] d by simp
      show ?thesis
        using q_unwind [OF s1] q_unwind [OF q_exec [OF _ s1, of "ex_resume_sp_update (\<lambda>_. g_sp (gs s1))"]] s1
        by (cases o') (simp_all add: syscall syscall_entry_def False Inr d)
    qed
  qed
next
  case (setjmp env)
  then show ?thesis using weaker [OF assms(2)] q_finish_rewind [of s]
    by (auto simp: setjmp_entry_def Let_def split: prod.splits intro: q_unwind)
next
  case (longjmp env v)
  then show ?thesis using weaker [OF assms(2)] by (simp add: longjmp_entry_def q_unwind)
next
  case (init flag)
  then show ?thesis
    using weaker [OF assms(2)] q_exec [of "ex_signal_flag_update (\<lambda>_. flag)" s] by (simp add: init_entry_def)
next
  case (args buffer capacity)
  have b: "Q s1" if "start_block buffer s = (r, s1)" for r s1
    using keepsD [OF post.k_start_block, of s buffer] weaker [OF assms(2)] that by simp
  have w: "Q s2" if "to_mem (mem_put buffer block) s1 = (r, s2)" "Q s1" for block s1 r s2
    using keepsD [OF post.k_to_mem [OF keeps_length_put(1)], of s1 buffer block] that by simp
  show ?thesis
    unfolding args(1) args_entry_def
    by (auto split: prod.splits sum.splits fault.splits dest: b w)
next
  case (sigfetch at)
  have b: "Q s1" if "next_signal at s = (r, s1)" for r s1
    using keepsD [OF post.k_next_signal, of s at] weaker [OF assms(2)] that by simp
  show ?thesis
    unfolding sigfetch(1) sigfetch_entry_def
    by (auto split: prod.splits sum.splits signal_delivery.splits dest!: b intro: q_unwind)
qed

lemma guest_step_keeps:
  assumes "guest_step s s'" "P s"
  shows "Q s'"
  using assms(1)
proof (cases rule: guest_stepE [consumes 1, case_names store stack call])
  case (store mem)
  then show ?thesis using post.k_mem weaker [OF assms(2)] by blast
next
  case (stack sp md)
  then show ?thesis using post.k_regs weaker [OF assms(2)] by blast
next
  case call
  then show ?thesis by (rule call_step [OF _ assms(2)])
qed

lemma guest_run_keeps:
  assumes "guest_run C s s'" "Q s" "\<And>s. Q s \<Longrightarrow> C s \<Longrightarrow> P s"
  shows "Q s'"
  using assms(1,2)
proof (induction rule: guest_run.induct)
  case start
  then show ?case .
next
  case (step s1 s2)
  then show ?case using guest_step_keeps assms(3) by blast
qed

end

end
