(* ===== verification/Refs.thy ===== *)
theory Refs
  imports Kernel_Steps
begin

text \<open>
  Reference counting.  \<open>store_ok H R W descs pipes\<close>: every description has at least the
  references \<open>H\<close> counts, and every pipe at least the readers and writers its live ends and the
  reserved ones (\<open>R\<close>, \<open>W\<close>) need.  What follows are the rules for the operations on the two
  slabs, and the interpretation of \<open>kernel_steps\<close> for the references of a process with its
  \<open>vfork\<close> children, its spawned processes and the other processes of the session.
\<close>

section \<open>Counting the entries of a map\<close>

definition entries_with :: "('v \<Rightarrow> bool) \<Rightarrow> (nat \<rightharpoonup> 'v) \<Rightarrow> nat" where
  "entries_with p m = card {k. \<exists>v. m k = Some v \<and> p v}"

lemma finite_entries: "finite (dom m) \<Longrightarrow> finite {k. \<exists>v. m k = Some v \<and> p v}"
  by (rule finite_subset [of _ "dom m"]) auto

lemma entries_with_set:
  assumes "finite (dom m)"
  shows "entries_with p (m(k := x)) + (case m k of Some v \<Rightarrow> of_bool (p v) | None \<Rightarrow> 0) =
    entries_with p m + (case x of Some v \<Rightarrow> of_bool (p v) | None \<Rightarrow> 0)"
proof -
  define S where "S = {j. j \<noteq> k \<and> (\<exists>v. m j = Some v \<and> p v)}"
  have f: "finite S" unfolding S_def by (rule finite_subset [OF _ finite_entries [OF assms, of p]]) auto
  have k: "k \<notin> S" by (simp add: S_def)
  have "{j. \<exists>v. m j = Some v \<and> p v} = (if \<exists>v. m k = Some v \<and> p v then insert k S else S)"
    by (auto simp: S_def)
  then have a: "entries_with p m = card S + (case m k of Some v \<Rightarrow> of_bool (p v) | None \<Rightarrow> 0)"
    using f k by (simp add: entries_with_def split: option.splits)
  have "{j. \<exists>v. (m(k := x)) j = Some v \<and> p v} = (if \<exists>v. x = Some v \<and> p v then insert k S else S)"
    by (auto simp: S_def)
  then have b: "entries_with p (m(k := x)) = card S + (case x of Some v \<Rightarrow> of_bool (p v) | None \<Rightarrow> 0)"
    using f k by (simp add: entries_with_def split: option.splits)
  show ?thesis using a b by simp
qed

lemma finite_slab: "finite (dom (slab_get s))"
proof (rule finite_subset)
  show "dom (slab_get s) \<subseteq> {..<length (slots s)}" by (auto simp: slab_get_Some_iff)
qed simp

section \<open>The two slabs\<close>

definition reads_pipe :: "nat \<Rightarrow> 'f desc \<Rightarrow> bool" where
  "reads_pipe k d \<longleftrightarrow> d_kind d = KPipeRead k"

definition writes_pipe :: "nat \<Rightarrow> 'f desc \<Rightarrow> bool" where
  "writes_pipe k d \<longleftrightarrow> d_kind d = KPipeWrite k"

definition refs_cover :: "(nat \<Rightarrow> nat) \<Rightarrow> 'f desc slab \<Rightarrow> bool" where
  "refs_cover H ds \<longleftrightarrow>
     (\<forall>k. case slab_get ds k of Some d \<Rightarrow> H k \<le> d_refs d | None \<Rightarrow> H k = 0)"

definition ends_cover :: "(nat \<Rightarrow> nat) \<Rightarrow> (nat \<Rightarrow> nat) \<Rightarrow> 'f desc slab \<Rightarrow> pipe slab \<Rightarrow> bool" where
  "ends_cover R W ds ps \<longleftrightarrow>
     (\<forall>k. let r = entries_with (reads_pipe k) (slab_get ds) + R k;
              w = entries_with (writes_pipe k) (slab_get ds) + W k
          in case slab_get ps k of
               Some p \<Rightarrow> r \<le> p_readers p \<and> w \<le> p_writers p \<and> length (p_data p) \<le> PIPE_CAPACITY
             | None \<Rightarrow> r = 0 \<and> w = 0)"

definition store_ok ::
  "(nat \<Rightarrow> nat) \<Rightarrow> (nat \<Rightarrow> nat) \<Rightarrow> (nat \<Rightarrow> nat) \<Rightarrow> 'f desc slab \<Rightarrow> pipe slab \<Rightarrow> bool" where
  "store_ok H R W ds ps \<longleftrightarrow> slab_wf ds \<and> slab_wf ps \<and> refs_cover H ds \<and> ends_cover R W ds ps"

abbreviation none :: "nat \<Rightarrow> nat" where "none \<equiv> (\<lambda>_. 0)"
abbreviation one :: "nat \<Rightarrow> nat \<Rightarrow> nat" where "one k \<equiv> (\<lambda>j. of_bool (j = k))"
abbreviation added :: "(nat \<Rightarrow> nat) \<Rightarrow> (nat \<Rightarrow> nat) \<Rightarrow> nat \<Rightarrow> nat" where "added F G \<equiv> (\<lambda>j. F j + G j)"

lemma store_okD:
  assumes "store_ok H R W ds ps"
  shows "slab_wf ds" "slab_wf ps" "refs_cover H ds" "ends_cover R W ds ps"
  using assms by (simp_all add: store_ok_def)

lemma refs_coverD:
  assumes "refs_cover H ds"
  shows "slab_get ds k = Some d \<Longrightarrow> H k \<le> d_refs d" "slab_get ds k = None \<Longrightarrow> H k = 0"
  using assms by (auto simp: refs_cover_def dest: spec [of _ k])

lemma ends_coverD:
  assumes "ends_cover R W ds ps"
  shows "slab_get ps k = Some p \<Longrightarrow>
      entries_with (reads_pipe k) (slab_get ds) + R k \<le> p_readers p \<and>
      entries_with (writes_pipe k) (slab_get ds) + W k \<le> p_writers p \<and> length (p_data p) \<le> PIPE_CAPACITY"
    "slab_get ps k = None \<Longrightarrow>
      entries_with (reads_pipe k) (slab_get ds) + R k = 0 \<and> entries_with (writes_pipe k) (slab_get ds) + W k = 0"
  using assms by (auto simp: ends_cover_def Let_def dest: spec [of _ k])

lemma store_ok_mono:
  assumes "store_ok H R W ds ps" "\<And>k. H' k \<le> H k" "\<And>k. R' k \<le> R k" "\<And>k. W' k \<le> W k"
  shows "store_ok H' R' W' ds ps"
proof -
  note ok = store_okD [OF assms(1)]
  have "refs_cover H' ds"
    unfolding refs_cover_def
    by (auto split: option.splits intro: le_trans [OF assms(2)] refs_coverD [OF ok(3)])
      (metis assms(2) le_zero_eq refs_coverD(2) [OF ok(3)])
  moreover have "ends_cover R' W' ds ps"
    unfolding ends_cover_def Let_def
  proof (intro allI)
    fix k
    show "case slab_get ps k of
        Some p \<Rightarrow> entries_with (reads_pipe k) (slab_get ds) + R' k \<le> p_readers p \<and>
          entries_with (writes_pipe k) (slab_get ds) + W' k \<le> p_writers p \<and> length (p_data p) \<le> PIPE_CAPACITY
      | None \<Rightarrow> entries_with (reads_pipe k) (slab_get ds) + R' k = 0 \<and>
          entries_with (writes_pipe k) (slab_get ds) + W' k = 0"
      using ends_coverD [OF ok(4), of k] assms(3,4) [of k] by (cases "slab_get ps k") force+
  qed
  ultimately show ?thesis using ok by (simp add: store_ok_def)
qed

text \<open>A live description may change as long as it keeps its references and stays the same end.\<close>

lemma store_ok_desc:
  assumes "store_ok H R W ds ps"
    and "\<And>d. slab_get ds k = Some d \<Longrightarrow> H k \<le> d_refs d \<Longrightarrow> H' k \<le> d_refs (f d)"
    and "\<And>d. slab_get ds k = Some d \<Longrightarrow> d_kind (f d) = d_kind d \<or> same_role (d_kind d) (d_kind (f d))
      \<or> (\<exists>g m c g'. d_kind d = KFile g m c \<and> d_kind (f d) = KFile g' m c)"
    and "\<And>j. j \<noteq> k \<Longrightarrow> H' j = H j" and "slab_get ds k = None \<Longrightarrow> H' k = 0"
  shows "store_ok H' R W (slab_modify k f ds) ps"
proof -
  note ok = store_okD [OF assms(1)]
  have ends: "entries_with q (slab_get (slab_modify k f ds)) = entries_with q (slab_get ds)"
    if "\<And>d. slab_get ds k = Some d \<Longrightarrow> q (f d) = q d" for q
    using entries_with_set [OF finite_slab, of q ds k "map_option f (slab_get ds k)"] that
    by (simp add: slab_get_modify split: option.splits)
  have r: "entries_with (reads_pipe j) (slab_get (slab_modify k f ds)) = entries_with (reads_pipe j) (slab_get ds)"
    and w: "entries_with (writes_pipe j) (slab_get (slab_modify k f ds)) = entries_with (writes_pipe j) (slab_get ds)"
    for j
    by (rule ends; use assms(3) in \<open>fastforce simp: reads_pipe_def writes_pipe_def same_role_def\<close>)+
  have "refs_cover H' (slab_modify k f ds)"
    unfolding refs_cover_def slab_get_modify
    using refs_coverD [OF ok(3)] assms(2,4,5) by (auto split: option.splits)
  moreover have "ends_cover R W (slab_modify k f ds) ps"
    using ok(4) by (simp add: ends_cover_def r w)
  ultimately show ?thesis using ok by (simp add: store_ok_def slab_wf_modify)
qed

lemma store_ok_incref:
  assumes "store_ok H R W ds ps" "slab_get ds k \<noteq> None" "H k + 1 \<le> U32_MAX"
  shows "store_ok (added H (one k)) R W (desc_incref k ds) ps"
  unfolding desc_incref_def
  by (rule store_ok_desc [OF assms(1)]) (use assms(2,3) in \<open>auto simp: sat_add_u32_def\<close>)

lemma store_ok_increfs:
  assumes "store_ok H R W ds ps" "\<And>k. k \<in> set ks \<Longrightarrow> slab_get ds k \<noteq> None"
    "\<And>k. H k + count_list ks k \<le> U32_MAX"
  shows "store_ok (added H (count_list ks)) R W (fold desc_incref ks ds) ps"
  using assms
proof (induction ks arbitrary: H ds)
  case Nil
  then show ?case by simp
next
  case (Cons k ks)
  have 1: "store_ok (added H (one k)) R W (desc_incref k ds) ps"
    by (rule store_ok_incref) (use Cons.prems Cons.prems(3) [of k] in auto)
  have "store_ok (added (added H (one k)) (count_list ks)) R W (fold desc_incref ks (desc_incref k ds)) ps"
  proof (rule Cons.IH [OF 1])
    show "slab_get (desc_incref k ds) j \<noteq> None" if "j \<in> set ks" for j
      using Cons.prems(2) that by (simp add: desc_incref_def slab_get_modify)
    show "added H (one k) j + count_list ks j \<le> U32_MAX" for j
      using Cons.prems(3) [of j] by (auto split: if_splits)
  qed
  moreover have "added (added H (one k)) (count_list ks) = added H (count_list (k # ks))"
    by (auto simp: fun_eq_iff)
  ultimately show ?case by simp
qed

text \<open>A new description, with one reference; a new end uses up a reserved one.\<close>

lemma store_ok_insert_desc:
  assumes "store_ok H (added R (\<lambda>k. of_bool (reads_pipe k d))) (added W (\<lambda>k. of_bool (writes_pipe k d))) ds ps"
    and "slab_insert d c ds = (Some k, ds')" "d_refs d = 1"
  shows "store_ok (added H (one k)) R W ds' ps"
proof -
  note ok = store_okD [OF assms(1)]
  have n: "slab_get ds k = None" and g: "slab_get ds' = (slab_get ds)(k := Some d)"
    using slab_insert_SomeD [OF ok(1) assms(2)] by blast+
  have cnt: "entries_with q (slab_get ds') = entries_with q (slab_get ds) + of_bool (q d)" for q
    using entries_with_set [OF finite_slab, of q ds k "Some d"] n by (simp add: g)
  have wf: "slab_wf ds'" using slab_wf_insert [OF ok(1), of d c] assms(2) by simp
  have "refs_cover (added H (one k)) ds'"
    unfolding refs_cover_def g using refs_coverD [OF ok(3)] n assms(3)
    by (auto split: option.splits)
  moreover have "ends_cover R W ds' ps"
    using ok(4) by (simp add: ends_cover_def cnt ac_simps)
  ultimately show ?thesis using ok wf by (simp add: store_ok_def)
qed

lemma store_ok_insert_pipe:
  assumes "store_ok H R W ds ps" "slab_insert pipe_new c ps = (Some k, ps')"
  shows "store_ok H (added R (one k)) (added W (one k)) ds ps'"
proof -
  note ok = store_okD [OF assms(1)]
  have n: "slab_get ps k = None" and g: "slab_get ps' = (slab_get ps)(k := Some pipe_new)"
    using slab_insert_SomeD [OF ok(2) assms(2)] by blast+
  have wf: "slab_wf ps'" using slab_wf_insert [OF ok(2), of pipe_new c] assms(2) by simp
  have "ends_cover (added R (one k)) (added W (one k)) ds ps'"
    unfolding ends_cover_def Let_def g
  proof (intro allI)
    fix j
    show "case ((slab_get ps)(k \<mapsto> pipe_new)) j of
        Some p \<Rightarrow> entries_with (reads_pipe j) (slab_get ds) + added R (one k) j \<le> p_readers p \<and>
          entries_with (writes_pipe j) (slab_get ds) + added W (one k) j \<le> p_writers p \<and>
          length (p_data p) \<le> PIPE_CAPACITY
      | None \<Rightarrow> entries_with (reads_pipe j) (slab_get ds) + added R (one k) j = 0 \<and>
          entries_with (writes_pipe j) (slab_get ds) + added W (one k) j = 0"
      using ends_coverD [OF ok(4), of j] n by (cases "slab_get ps j") (auto simp: pipe_new_def)
  qed
  then show ?thesis using ok wf by (simp add: store_ok_def)
qed

text \<open>Bytes through a pipe.\<close>

lemma store_ok_pipe:
  assumes "store_ok H R W ds ps"
    and "\<And>p. slab_get ps k = Some p \<Longrightarrow> p_readers (f p) = p_readers p \<and> p_writers (f p) = p_writers p
      \<and> (length (p_data p) \<le> PIPE_CAPACITY \<longrightarrow> length (p_data (f p)) \<le> PIPE_CAPACITY)"
  shows "store_ok H R W ds (slab_modify k f ps)"
proof -
  note ok = store_okD [OF assms(1)]
  have "ends_cover R W ds (slab_modify k f ps)"
    unfolding ends_cover_def Let_def slab_get_modify
  proof (intro allI)
    fix j
    show "case ((slab_get ps)(k := map_option f (slab_get ps k))) j of
        Some p \<Rightarrow> entries_with (reads_pipe j) (slab_get ds) + R j \<le> p_readers p \<and>
          entries_with (writes_pipe j) (slab_get ds) + W j \<le> p_writers p \<and>
          length (p_data p) \<le> PIPE_CAPACITY
      | None \<Rightarrow> entries_with (reads_pipe j) (slab_get ds) + R j = 0 \<and>
          entries_with (writes_pipe j) (slab_get ds) + W j = 0"
      using ends_coverD [OF ok(4), of j] assms(2)
      by (cases "slab_get ps j") (auto split: option.splits)
  qed
  then show ?thesis using ok by (simp add: store_ok_def slab_wf_modify)
qed

section \<open>Releasing\<close>

lemma store_ok_collect:
  assumes "store_ok H R W (sh_descs s) (sh_pipes s)"
  shows "store_ok H R W (sh_descs (collect_pipe k s)) (sh_pipes (collect_pipe k s))"
proof (cases "slab_get (sh_pipes s) k")
  case None
  with assms show ?thesis by (simp add: collect_pipe_def)
next
  case (Some p)
  show ?thesis
  proof (cases "p_readers p = 0 \<and> p_writers p = 0")
    case False
    with assms Some show ?thesis by (auto simp: collect_pipe_def)
  next
    case True
    note ok = store_okD [OF assms]
    have "ends_cover R W (sh_descs s) (snd (slab_remove k (sh_pipes s)))"
      unfolding ends_cover_def Let_def slab_remove_get
    proof (intro allI)
      fix j
      show "case ((slab_get (sh_pipes s))(k := None)) j of
          Some p \<Rightarrow> entries_with (reads_pipe j) (slab_get (sh_descs s)) + R j \<le> p_readers p \<and>
            entries_with (writes_pipe j) (slab_get (sh_descs s)) + W j \<le> p_writers p \<and>
            length (p_data p) \<le> PIPE_CAPACITY
        | None \<Rightarrow> entries_with (reads_pipe j) (slab_get (sh_descs s)) + R j = 0 \<and>
            entries_with (writes_pipe j) (slab_get (sh_descs s)) + W j = 0"
        using ends_coverD [OF ok(4), of j] True Some
        by (cases "slab_get (sh_pipes s) j") (auto split: option.splits)
    qed
    then show ?thesis
      using ok True Some by (simp add: collect_pipe_def store_ok_def slab_wf_remove)
  qed
qed

lemma store_ok_drop_end:
  assumes "store_ok H (added R (\<lambda>j. of_bool (rd \<and> j = k))) (added W (\<lambda>j. of_bool (\<not> rd \<and> j = k))) ds ps"
  shows "store_ok H R W ds (slab_modify k (\<lambda>p. if rd then p\<lparr>p_readers := p_readers p - 1\<rparr>
    else p\<lparr>p_writers := p_writers p - 1\<rparr>) ps)"
proof -
  note ok = store_okD [OF assms]
  define f :: "pipe \<Rightarrow> pipe" where "f = (\<lambda>p. if rd then p\<lparr>p_readers := p_readers p - 1\<rparr> else p\<lparr>p_writers := p_writers p - 1\<rparr>)"
  have "ends_cover R W ds (slab_modify k f ps)"
    unfolding ends_cover_def Let_def slab_get_modify
  proof (intro allI)
    fix j
    show "case ((slab_get ps)(k := map_option f (slab_get ps k))) j of
        Some p \<Rightarrow> entries_with (reads_pipe j) (slab_get ds) + R j \<le> p_readers p \<and>
          entries_with (writes_pipe j) (slab_get ds) + W j \<le> p_writers p \<and>
          length (p_data p) \<le> PIPE_CAPACITY
      | None \<Rightarrow> entries_with (reads_pipe j) (slab_get ds) + R j = 0 \<and>
          entries_with (writes_pipe j) (slab_get ds) + W j = 0"
      using ends_coverD [OF ok(4), of j]
      by (cases "slab_get ps j") (auto simp: f_def split: option.splits if_splits)
  qed
  then show ?thesis using ok by (simp add: store_ok_def slab_wf_modify f_def)
qed

lemma close_file_slabs [simp]:
  "sh_descs (close_file f s) = sh_descs s" "sh_pipes (close_file f s) = sh_pipes s"
  by (auto simp: close_file_def split: prod.splits)

lemma store_ok_close_kind:
  assumes "store_ok H (added R (\<lambda>k. of_bool (kind = KPipeRead k))) (added W (\<lambda>k. of_bool (kind = KPipeWrite k)))
    (sh_descs s) (sh_pipes s)"
  shows "store_ok H R W (sh_descs (close_kind kind s)) (sh_pipes (close_kind kind s))"
proof (cases kind)
  case (KPipeRead k)
  with assms have "store_ok H (added R (\<lambda>j. of_bool (True \<and> j = k))) (added W (\<lambda>j. of_bool (\<not> True \<and> j = k)))
    (sh_descs s) (sh_pipes s)"
    by (auto elim!: store_ok_mono)
  from store_ok_drop_end [OF this] show ?thesis
    by (simp add: KPipeRead close_kind_def pipe_update_def store_ok_collect)
next
  case (KPipeWrite k)
  with assms have "store_ok H (added R (\<lambda>j. of_bool (False \<and> j = k))) (added W (\<lambda>j. of_bool (\<not> False \<and> j = k)))
    (sh_descs s) (sh_pipes s)"
    by (auto elim!: store_ok_mono)
  from store_ok_drop_end [OF this] show ?thesis
    by (simp add: KPipeWrite close_kind_def pipe_update_def store_ok_collect)
qed (use assms in \<open>auto simp: close_kind_def\<close>)

lemma store_ok_remove:
  assumes "store_ok H R W ds ps" "slab_get ds k = Some d" "H k = 0"
  shows "store_ok H (added R (\<lambda>j. of_bool (reads_pipe j d))) (added W (\<lambda>j. of_bool (writes_pipe j d)))
    (snd (slab_remove k ds)) ps"
proof -
  note ok = store_okD [OF assms(1)]
  have cnt: "entries_with q (slab_get (snd (slab_remove k ds))) + of_bool (q d) = entries_with q (slab_get ds)" for q
    using entries_with_set [OF finite_slab, of q ds k None] assms(2) by (simp add: slab_remove_get)
  have "refs_cover H (snd (slab_remove k ds))"
    unfolding refs_cover_def slab_remove_get using refs_coverD [OF ok(3)] assms(3)
    by (auto split: option.splits)
  moreover have "entries_with q (slab_get (snd (slab_remove k ds))) + (x + of_bool (q d)) = entries_with q (slab_get ds) + x"
    for q x using cnt [of q] by simp
  then have "ends_cover (added R (\<lambda>j. of_bool (reads_pipe j d))) (added W (\<lambda>j. of_bool (writes_pipe j d)))
      (snd (slab_remove k ds)) ps"
    using ok(4) by (simp only: ends_cover_def simp_thms)
  ultimately show ?thesis using ok by (simp add: store_ok_def slab_wf_remove)
qed

lemma store_ok_release:
  fixes s :: "('w, 'f) shared"
  assumes "store_ok (added H (one k)) R W (sh_descs s) (sh_pipes s)"
  shows "store_ok H R W (sh_descs (release_desc k s)) (sh_pipes (release_desc k s))"
proof (cases "slab_get (sh_descs s) k")
  case None
  then have False using refs_coverD(2) [OF store_okD(3) [OF assms] None] by simp
  then show ?thesis ..
next
  case (Some d)
  have h: "H k + 1 \<le> d_refs d" using refs_coverD(1) [OF store_okD(3) [OF assms] Some] by simp
  define f where "f = (\<lambda>d :: 'f desc. d\<lparr>d_refs := d_refs d - 1\<rparr>)"
  have s1: "store_ok H R W (slab_modify k f (sh_descs s)) (sh_pipes s)"
    by (rule store_ok_desc [OF assms]) (use Some h in \<open>auto simp: f_def\<close>)
  show ?thesis
  proof (cases "d_refs d - 1 = 0")
    case False
    with s1 Some show ?thesis by (simp add: release_desc_def desc_update_def f_def Let_def)
  next
    case True
    then have h0: "H k = 0" using h by simp
    have g: "slab_get (slab_modify k f (sh_descs s)) k = Some (f d)" by (simp add: slab_get_modify Some)
    have "store_ok H (added R (\<lambda>j. of_bool (d_kind d = KPipeRead j))) (added W (\<lambda>j. of_bool (d_kind d = KPipeWrite j)))
        (snd (slab_remove k (slab_modify k f (sh_descs s)))) (sh_pipes s)"
      using store_ok_remove [OF s1 g h0] by (simp add: reads_pipe_def writes_pipe_def f_def)
    then show ?thesis
      using True Some store_ok_close_kind [where s = "s\<lparr>sh_descs := snd (slab_remove k (slab_modify k f (sh_descs s)))\<rparr>"
          and kind = "d_kind d" and H = H and R = R and W = W]
      by (simp add: release_desc_def desc_update_def f_def Let_def)
  qed
qed

lemma store_ok_releases:
  assumes "store_ok (added H (count_list ks)) R W (sh_descs s) (sh_pipes s)"
  shows "store_ok H R W (sh_descs (fold release_desc ks s)) (sh_pipes (fold release_desc ks s))"
  using assms
proof (induction ks arbitrary: s)
  case Nil
  then show ?case by simp
next
  case (Cons k ks)
  have "store_ok (added (added H (count_list ks)) (one k)) R W (sh_descs s) (sh_pipes s)"
    by (rule store_ok_mono [OF Cons.prems]) simp_all
  from Cons.IH [OF store_ok_release [OF this]] show ?case by simp
qed

section \<open>Who holds references\<close>

text \<open>
  The descriptors of the running task, of its suspended \<open>vfork\<close> parents, of the processes
  that wait to be started and of a requested image, and \<open>ext\<close>, those of the other processes.
\<close>

definition task_refs :: "task \<Rightarrow> nat \<Rightarrow> nat" where
  "task_refs t = fd_refs (t_fds t)"

definition holders :: "(nat \<Rightarrow> nat) \<Rightarrow> ('w, 'f) st \<Rightarrow> nat \<Rightarrow> nat" where
  "holders ext s k =
     task_refs (the_task s) k + sum_list (map (\<lambda>t. task_refs t k) (c_vfork_stack (cx s))) +
     sum_list (map (\<lambda>p. task_refs (sp_task p) k) (sh_spawn (sh s))) +
     (case c_exec_request (cx s) of Some p \<Rightarrow> task_refs (sp_task p) k | None \<Rightarrow> 0) + ext k"

definition refs_ok :: "(nat \<Rightarrow> nat) \<Rightarrow> ('w, 'f) st \<Rightarrow> bool" where
  "refs_ok ext s \<longleftrightarrow> store_ok (holders ext s) none none (sh_descs (sh s)) (sh_pipes (sh s))"

text \<open>
  Reference counts saturate at \<open>u32::MAX\<close>.  There is room when duplicating the running task's
  table, or one descriptor, cannot reach it.
\<close>

definition roomy :: "(nat \<Rightarrow> nat) \<Rightarrow> ('w, 'f) st \<Rightarrow> bool" where
  "roomy ext s \<longleftrightarrow> (\<forall>k. 2 * holders ext s k + 1 \<le> U32_MAX)"

definition refs_inv :: "bool \<Rightarrow> (nat \<Rightarrow> nat) \<Rightarrow> ('w, 'f) st \<Rightarrow> bool" where
  "refs_inv b ext s \<longleftrightarrow> refs_ok ext s \<and> (b \<longrightarrow> roomy ext s)"

lemma refs_invI:
  assumes "refs_inv b ext s" "holders ext s' = holders ext s"
    and "store_ok (holders ext s) none none (sh_descs (sh s)) (sh_pipes (sh s)) \<Longrightarrow>
      store_ok (holders ext s) none none (sh_descs (sh s')) (sh_pipes (sh s'))"
  shows "refs_inv b ext s'"
  using assms by (simp add: refs_inv_def refs_ok_def roomy_def)

lemma refs_inv_same:
  "refs_inv b ext s \<Longrightarrow> holders ext s' = holders ext s \<Longrightarrow> sh_descs (sh s') = sh_descs (sh s) \<Longrightarrow>
   sh_pipes (sh s') = sh_pipes (sh s) \<Longrightarrow> refs_inv b ext s'"
  by (rule refs_invI) simp_all

lemma on_task_snd: "snd (on_task f s) = s\<lparr>cx := (cx s)\<lparr>c_task := f (c_task (cx s))\<rparr>\<rparr>"
proof -
  have "c_task_update f (cx s) = (cx s)\<lparr>c_task := f (c_task (cx s))\<rparr>" by (cases "cx s") simp
  then show ?thesis by (cases s) (simp add: on_task_def modify_def)
qed

lemma refs_shared:
  assumes "\<And>s :: ('w, 'f) shared. sh_descs (f s) = sh_descs s \<and> sh_pipes (f s) = sh_pipes s \<and> sh_spawn (f s) = sh_spawn s"
  shows "keeps (refs_inv b ext) (on_shared f)"
proof (rule keepsI)
  fix s :: "('w, 'f) st" assume s: "refs_inv b ext s"
  show "refs_inv b ext (snd (on_shared f s))"
    unfolding on_shared_snd by (rule refs_inv_same [OF s]) (use assms in \<open>auto simp: holders_def\<close>)
qed

lemma desc_update_sh [simp]:
  "sh_descs (desc_update k f s) = slab_modify k f (sh_descs s)" "sh_pipes (desc_update k f s) = sh_pipes s"
  "sh_spawn (desc_update k f s) = sh_spawn s"
  by (simp_all add: desc_update_def)

lemma pipe_update_sh [simp]:
  "sh_pipes (pipe_update k f s) = slab_modify k f (sh_pipes s)" "sh_descs (pipe_update k f s) = sh_descs s"
  "sh_spawn (pipe_update k f s) = sh_spawn s"
  by (simp_all add: pipe_update_def)

lemma refs_desc:
  assumes "refs_inv b ext s"
    and "\<And>d. slab_get (sh_descs (sh s)) k = Some d \<Longrightarrow> d_refs (f d) = d_refs d"
    and "\<And>d. slab_get (sh_descs (sh s)) k = Some d \<Longrightarrow> d_kind (f d) = d_kind d \<or> same_role (d_kind d) (d_kind (f d))
      \<or> (\<exists>g m c g'. d_kind d = KFile g m c \<and> d_kind (f d) = KFile g' m c)"
  shows "refs_inv b ext (s\<lparr>sh := desc_update k f (sh s)\<rparr>)"
proof (rule refs_invI [OF assms(1)])
  show "holders ext (s\<lparr>sh := desc_update k f (sh s)\<rparr>) = holders ext s" by (simp add: holders_def fun_eq_iff)
  assume "store_ok (holders ext s) none none (sh_descs (sh s)) (sh_pipes (sh s))"
  from store_ok_desc [OF this, of k "holders ext s" f] assms(2,3)
  show "store_ok (holders ext s) none none (sh_descs (sh (s\<lparr>sh := desc_update k f (sh s)\<rparr>)))
    (sh_pipes (sh (s\<lparr>sh := desc_update k f (sh s)\<rparr>)))"
    using refs_coverD(2) [OF store_okD(3) [OF \<open>store_ok _ _ _ _ _\<close>]] by simp
qed

lemma refs_pipe:
  assumes "refs_inv b ext s"
    and "\<And>p. slab_get (sh_pipes (sh s)) k = Some p \<Longrightarrow> p_readers (f p) = p_readers p \<and> p_writers (f p) = p_writers p
      \<and> (length (p_data p) \<le> PIPE_CAPACITY \<longrightarrow> length (p_data (f p)) \<le> PIPE_CAPACITY)"
  shows "refs_inv b ext (s\<lparr>sh := pipe_update k f (sh s)\<rparr>)"
proof (rule refs_invI [OF assms(1)])
  show "holders ext (s\<lparr>sh := pipe_update k f (sh s)\<rparr>) = holders ext s" by (simp add: holders_def fun_eq_iff)
  assume "store_ok (holders ext s) none none (sh_descs (sh s)) (sh_pipes (sh s))"
  from store_ok_pipe [OF this, of k f] assms(2)
  show "store_ok (holders ext s) none none (sh_descs (sh (s\<lparr>sh := pipe_update k f (sh s)\<rparr>)))
    (sh_pipes (sh (s\<lparr>sh := pipe_update k f (sh s)\<rparr>)))" by simp
qed

lemma acquire_same:
  "the_task (snd (acquire pages n s)) = the_task s"
  "c_vfork_stack (cx (snd (acquire pages n s))) = c_vfork_stack (cx s)"
  "c_exec_request (cx (snd (acquire pages n s))) = c_exec_request (cx s)"
  "sh_spawn (sh (snd (acquire pages n s))) = sh_spawn (sh s)"
  "sh_descs (sh (snd (acquire pages n s))) = sh_descs (sh s)"
  "sh_pipes (sh (snd (acquire pages n s))) = sh_pipes (sh s)"
  by (auto simp: acquire_def charge_def grow_def add_grown_def charge_memory_def release_memory_def
      mem_grow_def monad_simps on_exec_snd on_shared_def on_exec_def Let_def)

interpretation refs_frame: kernel_frame "refs_inv b ext" "\<lambda>_ _. True" "\<lambda>_ _. True" "\<lambda>_. True" "\<lambda>_ _ _. True"
proof
  show "keeps (refs_inv b ext) (on_exec f9)" for f9 :: "exec_state \<Rightarrow> exec_state"
    by (rule keepsI, unfold on_exec_snd, erule refs_inv_same) (simp_all add: holders_def fun_eq_iff)
  show "keeps (refs_inv b ext) (on_task f8)" if "\<And>t. t_fds (f8 t) = t_fds t \<and> t_pid (f8 t) = t_pid t" for f8
    by (rule keepsI, unfold on_task_snd, erule refs_inv_same) (simp_all add: holders_def task_refs_def fun_eq_iff that)
  show "refs_inv b ext (snd (on_records (filter (\<lambda>x. pr_pid x \<noteq> pr_pid rc)) s))" if "refs_inv b ext s" for s rc
    using that unfolding on_records_def on_shared_snd
    by (elim refs_inv_same) (simp_all add: holders_def fun_eq_iff)
  show "keeps (refs_inv b ext) (acquire pages n)" if "n = pages * PAGE" "pages \<le> PAGE" for pages n
    by (rule keepsI, erule refs_inv_same) (simp_all add: holders_def fun_eq_iff acquire_same)
  show "keeps (refs_inv b ext) (on_fds (fdt_set_cloexec fd cloexec))" for fd cloexec
  proof (rule keepsI)
    fix s assume s: "refs_inv b ext s"
    obtain r t where t: "fdt_set_cloexec fd cloexec (t_fds (the_task s)) = (r, t)" by fastforce
    have "fd_refs t k = fd_refs (t_fds (the_task s)) k" for k
      using fd_refs_set_cloexec [of fd cloexec "t_fds (the_task s)" k] t by simp
    then show "refs_inv b ext (snd (on_fds (fdt_set_cloexec fd cloexec) s))"
      by (intro refs_inv_same [OF s])
        (auto simp: on_fds_def monad_simps Let_def holders_def task_refs_def fun_eq_iff t split: sum.splits)
  qed
  show "keeps (refs_inv b ext) (on_shared (desc_update k f10))"
    if "\<And>d. d_kind (f10 d) = d_kind d \<and> d_refs (f10 d) = d_refs d" for k f10
    by (rule keepsI, unfold on_shared_snd, rule refs_desc) (use that in auto)
  show "keeps (refs_inv b ext) (on_shared (pipe_update k (\<lambda>p. p\<lparr>p_data := drop n (p_data p)\<rparr>)))" for k n
    by (rule keepsI, unfold on_shared_snd, rule refs_pipe) auto
  show "refs_inv b ext (s\<lparr>sh := desc_update k (set_kind kind) (sh s)\<rparr>)"
    if "refs_inv b ext s" "slab_get (sh_descs (sh s)) k = Some d" "same_role (d_kind d) kind" for s k d kind
    by (rule refs_desc [OF that(1)]) (use that in \<open>auto simp: set_kind_def\<close>)
  show "refs_inv b ext (s\<lparr>sh := desc_update k (set_file f') (sh s)\<rparr>)"
    if "refs_inv b ext s" "slab_get (sh_descs (sh s)) k = Some d" "d_kind d = KFile f m c" for s k d f m c f'
    by (rule refs_desc [OF that(1)]) (use that in \<open>auto simp: set_file_def\<close>)
  show "refs_inv b ext (s\<lparr>sh := pipe_update k (\<lambda>p. p\<lparr>p_data := p_data p @ data\<rparr>) (sh s)\<rparr>)"
    if "refs_inv b ext s" "slab_get (sh_pipes (sh s)) k = Some pp" "length data \<le> pipe_room pp" for s k pp data
    by (rule refs_pipe [OF that(1)]) (use that in \<open>auto simp: pipe_room_def\<close>)
qed (auto simp: on_records_def intro!: refs_shared elim!: refs_inv_same
    simp: holders_def fun_eq_iff write_output_def Let_def reflp_def transp_def)

section \<open>Operations that move references\<close>

lemma close_kind_same:
  "sh_spawn (close_kind kind s) = sh_spawn s" "sh_table (close_kind kind s) = sh_table s"
  "sh_limits (close_kind kind s) = sh_limits s" "sh_memory_used (close_kind kind s) = sh_memory_used s"
  "sh_stdout (close_kind kind s) = sh_stdout s" "sh_stderr (close_kind kind s) = sh_stderr s"
  "sh_mounts (close_kind kind s) = sh_mounts s" "o_fops (sh_out (close_kind kind s)) = o_fops (sh_out s)"
  by (auto simp: close_kind_def close_file_def collect_pipe_def pipe_update_def Let_def
      split: desc_kind.splits option.splits prod.splits)

lemma release_desc_same [simp]:
  "sh_spawn (release_desc k s) = sh_spawn s" "sh_table (release_desc k s) = sh_table s"
  "sh_limits (release_desc k s) = sh_limits s" "sh_memory_used (release_desc k s) = sh_memory_used s"
  "sh_stdout (release_desc k s) = sh_stdout s" "sh_stderr (release_desc k s) = sh_stderr s"
  "sh_mounts (release_desc k s) = sh_mounts s" "o_fops (sh_out (release_desc k s)) = o_fops (sh_out s)"
  by (auto simp: release_desc_def desc_update_def close_kind_same Let_def split: option.splits)

lemma fold_release_same [simp]:
  "sh_spawn (fold release_desc ks s) = sh_spawn s" "sh_table (fold release_desc ks s) = sh_table s"
  "sh_limits (fold release_desc ks s) = sh_limits s" "sh_memory_used (fold release_desc ks s) = sh_memory_used s"
  "sh_stdout (fold release_desc ks s) = sh_stdout s" "sh_stderr (fold release_desc ks s) = sh_stderr s"
  "sh_mounts (fold release_desc ks s) = sh_mounts s"
  "o_fops (sh_out (fold release_desc ks s)) = o_fops (sh_out s)"
  by (induction ks arbitrary: s) simp_all

abbreviation with_fds :: "fd_table \<Rightarrow> ('w, 'f) st \<Rightarrow> ('w, 'f) st" where
  "with_fds t s \<equiv> s\<lparr>cx := (cx s)\<lparr>c_task := (c_task (cx s))\<lparr>t_fds := t\<rparr>\<rparr>\<rparr>"

lemma on_fds_eval:
  "f (t_fds (the_task s)) = (r, t) \<Longrightarrow>
   on_fds f s = (case r of Inl e \<Rightarrow> Inl (FErrno e) | Inr a \<Rightarrow> Inr a, with_fds t s)"
  by (cases r) (simp_all add: on_fds_def monad_simps)

lemma on_shared_eval: "on_shared f s = (Inr (), s\<lparr>sh := f (sh s)\<rparr>)"
  by (cases s) (simp add: on_shared_def modify_def)

lemma on_exec_eval: "on_exec f s = (Inr (), s\<lparr>cx := (cx s)\<lparr>c_exec := f (c_exec (cx s))\<rparr>\<rparr>)"
  using on_exec_snd [of f s] by (simp add: on_exec_def modify_def)

lemma modify_cx: "modify (cx_update f) s = (Inr (), s\<lparr>cx := f (cx s)\<rparr>)"
  by (cases s) (simp add: modify_def)

lemma holders_with_fds:
  "holders ext (with_fds t s) k + fd_refs (t_fds (the_task s)) k = holders ext s k + fd_refs t k"
  by (simp add: holders_def task_refs_def)

lemma holders_sh:
  "sh_spawn s' = sh_spawn (sh s) \<Longrightarrow> holders ext (s\<lparr>sh := s'\<rparr>) = holders ext s"
  by (simp add: holders_def fun_eq_iff)

lemma refs_ok_live:
  assumes "refs_ok ext s" "fdt_get (t_fds (the_task s)) fd = Inr e"
  shows "slab_get (sh_descs (sh s)) (fd_desc e) \<noteq> None"
proof
  assume "slab_get (sh_descs (sh s)) (fd_desc e) = None"
  then have "holders ext s (fd_desc e) = 0"
    using refs_coverD(2) [OF store_okD(3)] assms(1) by (auto simp: refs_ok_def)
  with fd_refs_pos [OF assms(2)] show False by (simp add: holders_def task_refs_def)
qed

lemma refs_close: "leads (refs_inv b ext) (refs_inv False ext) (sys_close fd)"
  unfolding leads_def
proof (intro allI impI)
  fix s :: "('w, 'f) st" assume "refs_inv b ext s"
  then have s: "refs_ok ext s" by (simp add: refs_inv_def)
  obtain r t where t: "fdt_take fd (t_fds (the_task s)) = (r, t)" by fastforce
  have c: "case r of Inr e \<Rightarrow> fd_refs (t_fds (the_task s)) k = fd_refs t k + of_bool (fd_desc e = k)
      | Inl e \<Rightarrow> t = t_fds (the_task s)" for k
    using fd_refs_take [OF t, of k] by (auto split: sum.splits)
  show "refs_inv False ext (snd (sys_close fd s))"
  proof (cases r)
    case (Inl e)
    then have "holders ext (with_fds t s) = holders ext s" using c by (simp add: holders_def task_refs_def fun_eq_iff)
    then show ?thesis using s Inl
      by (simp add: sys_close_def bnd_def on_fds_eval [of "fdt_take fd", OF t] refs_inv_def refs_ok_def)
  next
    case (Inr e)
    let ?s1 = "with_fds t s"
    have "holders ext s k = holders ext ?s1 k + of_bool (k = fd_desc e)" for k
      using c [of k] Inr by (auto simp: holders_def task_refs_def)
    then have "store_ok (added (holders ext ?s1) (one (fd_desc e))) none none (sh_descs (sh s)) (sh_pipes (sh s))"
      using s by (simp add: refs_ok_def) (rule store_ok_mono, auto)
    from store_ok_release [OF this] show ?thesis using Inr
      by (simp add: sys_close_def bnd_def on_fds_eval [of "fdt_take fd", OF t] refs_inv_def refs_ok_def on_shared_eval ret_def holders_sh)
  qed
qed

text \<open>With \<open>k\<close> one more reference to description \<open>k\<close> that no table holds yet.\<close>

definition owed :: "(nat \<Rightarrow> nat) \<Rightarrow> (nat \<Rightarrow> nat) \<Rightarrow> ('w, 'f) st \<Rightarrow> bool" where
  "owed ext F s \<longleftrightarrow> store_ok (added (holders ext s) F) none none (sh_descs (sh s)) (sh_pipes (sh s))"

lemma owed_ok: "owed ext F s \<Longrightarrow> refs_ok ext s"
  unfolding owed_def refs_ok_def by (erule store_ok_mono) simp_all

lemma owed_moved:
  assumes "owed ext F s" "sh_descs (sh s') = sh_descs (sh s)" "sh_pipes (sh s') = sh_pipes (sh s)"
    and "\<And>k. holders ext s' k + G k \<le> holders ext s k + F k"
  shows "owed ext G s'"
  using assms(1) unfolding owed_def assms(2,3) by (rule store_ok_mono) (simp_all add: assms(4))

lemma owed_alloc:
  assumes "owed ext (added F (one (fd_desc entry))) s" "fdt_alloc entry lo lim (t_fds (the_task s)) = (r, t)"
  shows "case r of Inr n \<Rightarrow> owed ext F (with_fds t s) | Inl e \<Rightarrow> owed ext (added F (one (fd_desc entry))) (with_fds t s)"
proof (cases r)
  case (Inl e)
  have "fd_refs t k = fd_refs (t_fds (the_task s)) k" for k
    using fd_refs_alloc_Inl assms(2) Inl by metis
  then show ?thesis using Inl
    by (simp, intro owed_moved [OF assms(1)]) (simp_all add: holders_def task_refs_def)
next
  case (Inr n)
  have "fd_refs t k = fd_refs (t_fds (the_task s)) k + (if fd_desc entry = k then 1 else 0)" for k
    using fd_refs_alloc_Inr assms(2) Inr by metis
  then show ?thesis using Inr
    by (simp, intro owed_moved [OF assms(1)]) (auto simp: holders_def task_refs_def)
qed

lemma owed_incref:
  assumes "refs_inv True ext s" "fdt_get (t_fds (the_task s)) fd = Inr e"
  shows "owed ext (one (fd_desc e)) (s\<lparr>sh := sh_descs_update (desc_incref (fd_desc e)) (sh s)\<rparr>)"
proof -
  have s: "refs_ok ext s" "2 * holders ext s (fd_desc e) + 1 \<le> U32_MAX"
    using assms(1) by (auto simp: refs_inv_def roomy_def)
  have h: "holders ext (s\<lparr>sh := sh_descs_update (desc_incref (fd_desc e)) (sh s)\<rparr>) = holders ext s"
    by (simp add: holders_def fun_eq_iff)
  have "store_ok (added (holders ext s) (one (fd_desc e))) none none (desc_incref (fd_desc e) (sh_descs (sh s))) (sh_pipes (sh s))"
    by (rule store_ok_incref) (use s refs_ok_live [OF s(1) assms(2)] in \<open>auto simp: refs_ok_def\<close>)
  then show ?thesis by (simp add: owed_def h)
qed

lemma owed_release:
  assumes "owed ext (added F (one k)) s"
  shows "owed ext F (s\<lparr>sh := release_desc k (sh s)\<rparr>)"
proof -
  have "store_ok (added (added (holders ext s) F) (one k)) none none (sh_descs (sh s)) (sh_pipes (sh s))"
    using assms by (simp add: owed_def add.assoc)
  from store_ok_release [OF this] show ?thesis by (simp add: owed_def holders_sh)
qed

lemma owed_releases:
  assumes "owed ext (added F (count_list ks)) s"
  shows "owed ext F (s\<lparr>sh := fold release_desc ks (sh s)\<rparr>)"
proof -
  have "store_ok (added (added (holders ext s) F) (count_list ks)) none none (sh_descs (sh s)) (sh_pipes (sh s))"
    using assms by (simp add: owed_def add.assoc)
  from store_ok_releases [OF this] show ?thesis by (simp add: owed_def holders_sh)
qed

lemma owed_none: "owed ext none s \<longleftrightarrow> refs_ok ext s"
  by (simp add: owed_def refs_ok_def)

lemma refs_inv_False [simp]: "refs_inv False ext = refs_ok ext"
  by (simp add: fun_eq_iff refs_inv_def)

lemma get_fd_eval:
  "get_fd fd s = (case fdt_get (t_fds (the_task s)) fd of Inl e \<Rightarrow> Inl (FErrno e) | Inr e \<Rightarrow> Inr e, s)"
  by (auto simp: get_fd_def monad_simps split: sum.splits)

lemma leadsI: "(\<And>s. P s \<Longrightarrow> Q (snd (m s))) \<Longrightarrow> leads P Q m"
  by (simp add: leads_def)

lemma incref_eval: "incref k s = (Inr (), s\<lparr>sh := sh_descs_update (desc_incref k) (sh s)\<rparr>)"
  by (simp add: incref_def on_shared_eval)

lemma gets_eval: "gets f s = (Inr (f s), s)"
  by (simp add: gets_def)

lemmas evals = bnd_def get_fd_eval on_shared_eval incref_eval gets_eval ret_def fault_def catching_def

lemma refs_dup: "leads (refs_inv True ext) (refs_inv False ext) (dup_fd fd cloexec lo)"
proof (rule leadsI)
  fix s :: "('w, 'f) st" assume s: "refs_inv True ext s"
  show "refs_inv False ext (snd (dup_fd fd cloexec lo s))"
  proof (cases "fdt_get (t_fds (the_task s)) fd")
    case (Inl e)
    with s show ?thesis by (simp add: dup_fd_def evals refs_inv_def)
  next
    case (Inr e)
    define s1 where "s1 = s\<lparr>sh := sh_descs_update (desc_incref (fd_desc e)) (sh s)\<rparr>"
    define entry where "entry = \<lparr>fd_desc = fd_desc e, fd_cloexec = cloexec\<rparr>"
    have 1: "owed ext (added none (one (fd_desc entry))) s1"
      using owed_incref [OF s Inr] by (simp add: s1_def entry_def)
    obtain r t where t: "fdt_alloc entry lo (limit_files s1) (t_fds (the_task s1)) = (r, t)" by fastforce
    have "owed ext none (with_fds t s1)"
      using owed_alloc [OF 1 t] by (cases r) (auto simp: owed_none dest: owed_ok)
    then show ?thesis
      by (simp add: dup_fd_def evals Inr s1_def [symmetric] entry_def [symmetric]
          on_fds_eval [of "fdt_alloc entry lo (limit_files s1)", OF t] owed_none split: sum.splits)
  qed
qed

lemma refs_dup3: "leads (refs_inv True ext) (refs_inv False ext) (sys_dup3 from to flags)"
proof (rule leadsI)
  fix s :: "('w, 'f) st" assume s: "refs_inv True ext s"
  show "refs_inv False ext (snd (sys_dup3 from to flags s))"
  proof (cases "from = to \<or> (\<exists>e. fdt_get (t_fds (the_task s)) from = Inl e)")
    case True
    with s show ?thesis by (auto simp: sys_dup3_def evals refs_inv_def)
  next
    case False
    then obtain e where e: "fdt_get (t_fds (the_task s)) from = Inr e" "from \<noteq> to"
      by (cases "fdt_get (t_fds (the_task s)) from") auto
    define s1 where "s1 = s\<lparr>sh := sh_descs_update (desc_incref (fd_desc e)) (sh s)\<rparr>"
    define entry where "entry = \<lparr>fd_desc = fd_desc e, fd_cloexec = (flags AND O_CLOEXEC \<noteq> 0)\<rparr>"
    have 1: "owed ext (one (fd_desc e)) s1"
      using owed_incref [OF s e(1)] by (simp add: s1_def)
    obtain r t where t: "fdt_replace to entry (limit_files s1) (t_fds (the_task s1)) = (r, t)" by fastforce
    have c: "case r of Inr old \<Rightarrow> fd_refs t k + ref_of k old = fd_refs (t_fds (the_task s1)) k + ref_of k (Some entry)
        | Inl e \<Rightarrow> fd_refs t k = fd_refs (t_fds (the_task s1)) k" for k
      using fd_refs_replace [OF t, of k] by (auto split: sum.splits)
    show ?thesis
    proof (cases r)
      case (Inl x)
      then have "owed ext none (with_fds t s1)"
        by (intro owed_moved [OF 1]) (use c in \<open>simp_all add: holders_def task_refs_def\<close>)
      then show ?thesis using Inl e
        by (simp add: sys_dup3_def evals s1_def [symmetric] entry_def [symmetric]
            on_fds_eval [of "fdt_replace to entry (limit_files s1)", OF t] owed_none)
    next
      case (Inr old)
      have o': "owed ext (\<lambda>k. ref_of k old) (with_fds t s1)"
      proof (rule owed_moved [OF 1])
        show "holders ext (with_fds t s1) k + ref_of k old \<le> holders ext s1 k + of_bool (k = fd_desc e)" for k
          using c [of k] Inr by (auto simp: holders_def task_refs_def entry_def)
      qed simp_all
      show ?thesis
      proof (cases old)
        case None
        then show ?thesis using Inr e owed_ok [OF o']
          by (simp add: sys_dup3_def evals s1_def [symmetric] entry_def [symmetric]
              on_fds_eval [of "fdt_replace to entry (limit_files s1)", OF t])
      next
        case (Some oe)
        have "owed ext (added none (one (fd_desc oe))) (with_fds t s1)"
          by (rule owed_moved [OF o']) (auto simp: Some)
        from owed_release [OF this] show ?thesis using Inr Some e
          by (simp add: sys_dup3_def evals s1_def [symmetric] entry_def [symmetric]
              on_fds_eval [of "fdt_replace to entry (limit_files s1)", OF t] owed_none)
      qed
    qed
  qed
qed

text \<open>With reserved pipe ends as well.\<close>

definition full :: "(nat \<Rightarrow> nat) \<Rightarrow> (nat \<Rightarrow> nat) \<Rightarrow> (nat \<Rightarrow> nat) \<Rightarrow> (nat \<Rightarrow> nat) \<Rightarrow> ('w, 'f) st \<Rightarrow> bool" where
  "full ext F R W s \<longleftrightarrow> store_ok (added (holders ext s) F) R W (sh_descs (sh s)) (sh_pipes (sh s))"

lemma full_owed: "full ext F none none s \<longleftrightarrow> owed ext F s"
  by (simp add: full_def owed_def)

lemma full_ok: "full ext F R W s \<Longrightarrow> refs_ok ext s"
  unfolding full_def refs_ok_def by (erule store_ok_mono) simp_all

lemma t_insert_pipe:
  "triple (full ext F R W) insert_pipe (\<lambda>k. full ext F (added R (one k)) (added W (one k))) (refs_ok ext)"
proof (rule tripleI)
  fix s :: "('w, 'f) st" and k s' assume s: "full ext F R W s" and r: "insert_pipe s = (Inr k, s')"
  obtain ko ps where i: "slab_insert pipe_new (limit_files s) (sh_pipes (sh s)) = (ko, ps)" by fastforce
  then have k: "ko = Some k" "s' = s\<lparr>sh := (sh s)\<lparr>sh_pipes := ps\<rparr>\<rparr>"
    using r by (auto simp: insert_pipe_def monad_simps split: option.splits)
  show "full ext F (added R (one k)) (added W (one k)) s'"
    using store_ok_insert_pipe i s unfolding k full_def by (force simp: holders_sh)
next
  fix s :: "('w, 'f) st" and e s' assume s: "full ext F R W s" and r: "insert_pipe s = (Inl e, s')"
  obtain ko ps where i: "slab_insert pipe_new (limit_files s) (sh_pipes (sh s)) = (ko, ps)" by fastforce
  then have k: "ko = None" "s' = s\<lparr>sh := (sh s)\<lparr>sh_pipes := ps\<rparr>\<rparr>"
    using r by (auto simp: insert_pipe_def monad_simps split: option.splits)
  have "ps = sh_pipes (sh s)" using slab_insert_NoneD [OF store_okD(2)] i s k(1) by (auto simp: full_def)
  with full_ok [OF s] show "refs_ok ext s'" by (simp add: k)
qed

lemma t_insert_desc:
  fixes d :: "'f desc"
  assumes "d_refs d = 1"
  shows "triple (full ext F (added R (\<lambda>k. of_bool (reads_pipe k d))) (added W (\<lambda>k. of_bool (writes_pipe k d))))
    (insert_desc d :: ('w, 'f, nat) sys) (\<lambda>k. full ext (added F (one k)) R W) (refs_ok ext)"
proof (rule tripleI)
  fix s :: "('w, 'f) st" and k s'
  assume s: "full ext F (added R (\<lambda>k. of_bool (reads_pipe k d))) (added W (\<lambda>k. of_bool (writes_pipe k d))) s"
    and r: "insert_desc d s = (Inr k, s')"
  obtain ko ds where i: "slab_insert d (sat_mul_u64 (limit_files s) 4) (sh_descs (sh s)) = (ko, ds)" by fastforce
  then have k: "ko = Some k" "s' = s\<lparr>sh := (sh s)\<lparr>sh_descs := ds\<rparr>\<rparr>"
    using r by (auto simp: insert_desc_def monad_simps split: option.splits)
  have "store_ok (added (added (holders ext s) F) (one k)) R W ds (sh_pipes (sh s))"
    by (rule store_ok_insert_desc [of _ _ d]) (use s i k assms in \<open>simp_all add: full_def\<close>)
  then show "full ext (added F (one k)) R W s'"
    by (simp add: k full_def holders_sh add.assoc)
next
  fix s :: "('w, 'f) st" and e s'
  assume s: "full ext F (added R (\<lambda>k. of_bool (reads_pipe k d))) (added W (\<lambda>k. of_bool (writes_pipe k d))) s"
    and r: "insert_desc d s = (Inl e, s')"
  obtain ko ds where i: "slab_insert d (sat_mul_u64 (limit_files s) 4) (sh_descs (sh s)) = (ko, ds)" by fastforce
  then have k: "ko = None" "s' = s\<lparr>sh := (sh s)\<lparr>sh_descs := ds\<rparr>\<rparr>"
    using r by (auto simp: insert_desc_def monad_simps split: option.splits)
  have "ds = sh_descs (sh s)" using slab_insert_NoneD [OF store_okD(1)] i s k(1) by (auto simp: full_def)
  with full_ok [OF s] show "refs_ok ext s'" by (simp add: k)
qed

lemma t_alloc_fd:
  "triple (owed ext (added F (one k))) (alloc_fd k cloexec) (\<lambda>_. owed ext F) (owed ext (added F (one k)))"
proof (rule tripleI)
  fix s :: "('w, 'f) st" and n s'
  assume s: "owed ext (added F (one k)) s" and r: "alloc_fd k cloexec s = (Inr n, s')"
  define entry where "entry = \<lparr>fd_desc = k, fd_cloexec = cloexec\<rparr>"
  obtain x t where t: "fdt_alloc entry 0 (limit_files s) (t_fds (the_task s)) = (x, t)" by fastforce
  have "x = Inr n" "s' = with_fds t s"
    using r by (auto simp: alloc_fd_def evals entry_def [symmetric] t
        on_fds_eval [of "fdt_alloc entry 0 (limit_files s)", OF t] split: sum.splits)
  then show "owed ext F s'" using owed_alloc [of ext F entry, OF _ t] s by (simp add: entry_def)
next
  fix s :: "('w, 'f) st" and e s'
  assume s: "owed ext (added F (one k)) s" and r: "alloc_fd k cloexec s = (Inl e, s')"
  define entry where "entry = \<lparr>fd_desc = k, fd_cloexec = cloexec\<rparr>"
  obtain x t where t: "fdt_alloc entry 0 (limit_files s) (t_fds (the_task s)) = (x, t)" by fastforce
  have "\<exists>y. x = Inl y" "s' = with_fds t s"
    using r by (auto simp: alloc_fd_def evals entry_def [symmetric] t
        on_fds_eval [of "fdt_alloc entry 0 (limit_files s)", OF t] split: sum.splits)
  then show "owed ext (added F (one k)) s'" using owed_alloc [of ext F entry, OF _ t] s by (auto simp: entry_def)
qed

lemma t_take_fd:
  "triple (owed ext F) (on_fds (fdt_take fd)) (\<lambda>e. owed ext (added F (one (fd_desc e)))) (owed ext F)"
proof (rule tripleI)
  fix s :: "('w, 'f) st" and e s'
  assume s: "owed ext F s" and r: "on_fds (fdt_take fd) s = (Inr e, s')"
  obtain x t where t: "fdt_take fd (t_fds (the_task s)) = (x, t)" by fastforce
  have x: "x = Inr e" "s' = with_fds t s"
    using r by (auto simp: on_fds_eval [of "fdt_take fd", OF t] split: sum.splits)
  show "owed ext (added F (one (fd_desc e))) s'"
    unfolding x by (rule owed_moved [OF s])
      (use fd_refs_take [OF t] x in \<open>auto simp: holders_def task_refs_def\<close>)
next
  fix s :: "('w, 'f) st" and e s'
  assume s: "owed ext F s" and r: "on_fds (fdt_take fd) s = (Inl e, s')"
  obtain x t where t: "fdt_take fd (t_fds (the_task s)) = (x, t)" by fastforce
  have x: "\<exists>y. x = Inl y" "s' = with_fds t s"
    using r by (auto simp: on_fds_eval [of "fdt_take fd", OF t] split: sum.splits)
  then have "t = t_fds (the_task s)" using fd_refs_take [OF t] by auto
  with s show "owed ext F s'" by (simp add: x owed_def)
qed

lemma t_release:
  "triple (owed ext (added F (one k))) (on_shared (release_desc k)) (\<lambda>_. owed ext F) E"
  by (rule tripleI) (auto simp: on_shared_eval owed_release)

lemma t_kept: "keeps (refs_inv False ext) m \<Longrightarrow> triple (refs_ok ext) m (\<lambda>_. refs_ok ext) (refs_ok ext)"
  using triple_keeps [of "refs_inv False ext" m "refs_inv False ext"] by simp

lemma t_drop: "triple (owed ext F) m Q E \<Longrightarrow> (\<And>s. P s \<Longrightarrow> owed ext F s) \<Longrightarrow> triple P m Q E"
  by (erule triple_weaken)

lemma t_store: "triple (refs_ok ext) (thn (to_mem (mem_put_u32 a v)) (thn (to_mem (mem_put_u32 b w)) (ret n)))
    (\<lambda>_. refs_ok ext) (refs_ok ext)"
  by (rule t_kept, simp, intro keeps_bnd keeps_ret refs_frame.k_to_mem [where b = False and ext = ext, simplified] keeps_length_put)

lemma t_pipe_tail:
  "triple (owed ext (added (one rd) (one wd)))
    (bnd (alloc_fd rd c) (\<lambda>rfd.
     bnd (catching (alloc_fd wd c) (\<lambda>r.
            case r of
              Inr fd \<Rightarrow> ret fd
            | Inl e \<Rightarrow>
                thn (catching (on_fds (fdt_take rfd)) (\<lambda>t.
                       case t of Inr entry \<Rightarrow> on_shared (release_desc (fd_desc entry)) | Inl _ \<Rightarrow> ret ()))
                (fault e))) (\<lambda>wfd.
     thn (to_mem (mem_put_u32 at (as_u32 rfd)))
    (thn (to_mem (mem_put_u32 (at + 4) (as_u32 wfd))) (ret 0))))) (\<lambda>_. refs_ok ext) (refs_ok ext)"
proof (rule triple_bnd [where R = "\<lambda>_. owed ext (added none (one wd))"])
  show "triple (owed ext (added (one rd) (one wd))) (alloc_fd rd c) (\<lambda>_. owed ext (added none (one wd))) (refs_ok ext)"
    by (rule triple_weaken [OF t_alloc_fd [of ext "one wd" rd c]])
      (auto simp: add.commute elim: owed_ok)
  fix rfd
  have undo: "triple (owed ext (added none (one wd))) (thn (catching (on_fds (fdt_take rfd)) (\<lambda>t.
         case t of Inr entry \<Rightarrow> on_shared (release_desc (fd_desc entry)) | Inl _ \<Rightarrow> ret ())) (fault e))
      (\<lambda>_. refs_ok ext) (refs_ok ext)" for e
  proof (rule triple_bnd [where R = "\<lambda>_. refs_ok ext"], rule triple_catching)
    show "triple (owed ext (added none (one wd))) (on_fds (fdt_take rfd))
        (\<lambda>e. owed ext (added (added none (one wd)) (one (fd_desc e)))) (refs_ok ext)"
      by (rule triple_weaken [OF t_take_fd [of ext "added none (one wd)" rfd]]) (auto elim: owed_ok)
    show "triple (owed ext (added (added none (one wd)) (one (fd_desc a))))
        (case Inr a of Inr entry \<Rightarrow> on_shared (release_desc (fd_desc entry)) | Inl _ \<Rightarrow> ret ())
        (\<lambda>_. refs_ok ext) (refs_ok ext)" for a
      by (simp, rule triple_weaken [OF t_release [of ext "one wd" "fd_desc a" "refs_ok ext"]])
        (auto elim: owed_ok)
    show "triple (refs_ok ext) (case Inl e of Inr entry \<Rightarrow> on_shared (release_desc (fd_desc entry)) | Inl _ \<Rightarrow> ret ())
        (\<lambda>_. refs_ok ext) (refs_ok ext)" for e
      unfolding sum.case by (rule triple_simple)
  qed (rule triple_simple)
  show "triple (owed ext (added none (one wd))) (bnd (catching (alloc_fd wd c) (\<lambda>r.
            case r of
              Inr fd \<Rightarrow> ret fd
            | Inl e \<Rightarrow>
                thn (catching (on_fds (fdt_take rfd)) (\<lambda>t.
                       case t of Inr entry \<Rightarrow> on_shared (release_desc (fd_desc entry)) | Inl _ \<Rightarrow> ret ()))
                (fault e))) (\<lambda>wfd.
     thn (to_mem (mem_put_u32 at (as_u32 rfd)))
    (thn (to_mem (mem_put_u32 (at + 4) (as_u32 wfd))) (ret 0)))) (\<lambda>_. refs_ok ext) (refs_ok ext)"
  proof (rule triple_bnd [where R = "\<lambda>_. refs_ok ext"], rule triple_catching [OF t_alloc_fd])
    show "triple (owed ext none) (case Inr a of Inr fd \<Rightarrow> ret fd | Inl e \<Rightarrow>
        thn (catching (on_fds (fdt_take rfd)) (\<lambda>t.
             case t of Inr entry \<Rightarrow> on_shared (release_desc (fd_desc entry)) | Inl _ \<Rightarrow> ret ())) (fault e))
        (\<lambda>_. refs_ok ext) (refs_ok ext)" for a
      unfolding sum.case by (rule triple_simple) (simp add: owed_none)
    show "triple (owed ext (added none (one wd))) (case Inl e of Inr fd \<Rightarrow> ret fd | Inl e \<Rightarrow>
        thn (catching (on_fds (fdt_take rfd)) (\<lambda>t.
             case t of Inr entry \<Rightarrow> on_shared (release_desc (fd_desc entry)) | Inl _ \<Rightarrow> ret ())) (fault e))
        (\<lambda>_. refs_ok ext) (refs_ok ext)" for e
      using undo [of e] by simp
  qed (rule t_store)
qed

lemma refs_pipe2: "leads (refs_inv b ext) (refs_inv False ext) (sys_pipe2 at flags)"
  unfolding leads_triple sys_pipe2_def Let_def refs_inv_False
proof (rule triple_weaken [where P = "full ext none none none"])
  let ?rd = "\<lambda>p. desc_new (KPipeRead p) ''pipe:'' (O_RDONLY OR (flags AND O_NONBLOCK))"
  let ?wd = "\<lambda>p. desc_new (KPipeWrite p) ''pipe:'' (O_WRONLY OR (flags AND O_NONBLOCK))"
  have rd: "triple (full ext none (added none (one p)) (added none (one p))) (insert_desc (?rd p))
      (\<lambda>k. full ext (added none (one k)) none (one p)) (refs_ok ext)" for p
    using t_insert_desc [of "?rd p" ext none none "one p"]
    by (simp add: desc_new_def reads_pipe_def writes_pipe_def eq_commute)
  have wd: "triple (full ext (added none (one k)) none (one p)) (insert_desc (?wd p))
      (\<lambda>j. full ext (added (added none (one k)) (one j)) none none) (refs_ok ext)" for p k
    using t_insert_desc [of "?wd p" ext "added none (one k)" none none]
    by (simp add: desc_new_def reads_pipe_def writes_pipe_def eq_commute)
  show "triple (full ext none none none)
     (bnd insert_pipe (\<lambda>p. bnd (insert_desc (?rd p)) (\<lambda>rd. bnd (insert_desc (?wd p)) (\<lambda>wd.
     bnd (alloc_fd rd (flags AND O_CLOEXEC \<noteq> 0)) (\<lambda>rfd.
     bnd (catching (alloc_fd wd (flags AND O_CLOEXEC \<noteq> 0)) (\<lambda>r.
            case r of
              Inr fd \<Rightarrow> ret fd
            | Inl e \<Rightarrow>
                thn (catching (on_fds (fdt_take rfd)) (\<lambda>t.
                       case t of Inr entry \<Rightarrow> on_shared (release_desc (fd_desc entry)) | Inl _ \<Rightarrow> ret ()))
                (fault e))) (\<lambda>wfd.
     thn (to_mem (mem_put_u32 at (as_u32 rfd)))
    (thn (to_mem (mem_put_u32 (at + 4) (as_u32 wfd))) (ret 0)))))))) (\<lambda>_. refs_ok ext) (refs_ok ext)"
    by (rule triple_bnd [OF t_insert_pipe], rule triple_bnd [OF rd], rule triple_bnd [OF wd],
        rule t_drop [OF t_pipe_tail]) (simp add: full_owed)
qed (auto simp: full_owed owed_none refs_inv_def)

lemma refs_install:
  assumes "\<And>k. kind \<noteq> KPipeRead k" "\<And>k. kind \<noteq> KPipeWrite k"
  shows "leads (refs_inv b ext) (refs_inv False ext) (install_desc (desc_new kind path status) cloexec)"
  unfolding leads_triple install_desc_def refs_inv_False
proof (rule triple_weaken [where P = "full ext none none none"], rule triple_bnd)
  show "triple (full ext none none none) (insert_desc (desc_new kind path status))
      (\<lambda>k. full ext (added none (one k)) none none) (refs_ok ext)"
    using t_insert_desc [of "desc_new kind path status" ext none none none] assms
    by (simp add: desc_new_def reads_pipe_def writes_pipe_def)
  fix key
  show "triple (full ext (added none (one key)) none none) (catching (alloc_fd key cloexec) (\<lambda>r.
       case r of Inr fd \<Rightarrow> ret fd | Inl e \<Rightarrow> thn (on_shared (release_desc key)) (fault e)))
      (\<lambda>_. refs_ok ext) (refs_ok ext)"
  proof (rule t_drop, rule triple_catching [OF t_alloc_fd])
    show "triple (owed ext none) (case Inr a of Inr fd \<Rightarrow> ret fd | Inl e \<Rightarrow> thn (on_shared (release_desc key)) (fault e))
        (\<lambda>_. refs_ok ext) (refs_ok ext)" for a
      unfolding sum.case by (rule triple_simple) (simp add: owed_none)
    show "triple (owed ext (added none (one key)))
        (case Inl e of Inr fd \<Rightarrow> ret fd | Inl e \<Rightarrow> thn (on_shared (release_desc key)) (fault e))
        (\<lambda>_. refs_ok ext) (refs_ok ext)" for e
      unfolding sum.case by (rule triple_bnd [OF t_release], rule triple_simple) (simp add: owed_none)
  qed (simp add: full_owed)
qed (auto simp: full_owed owed_none refs_inv_def)

section \<open>Ending, splitting and replacing a process\<close>

lemma refs_exit: "leads (refs_inv b ext) (refs_inv False ext) (sys_exit code)"
proof (rule leadsI)
  fix s :: "('w, 'f) st" assume "refs_inv b ext s"
  then have s: "refs_ok ext s" by (simp add: refs_inv_def)
  show "refs_inv False ext (snd (sys_exit code s))"
  proof (cases "c_vfork_stack (cx s)")
    case Nil
    with s show ?thesis by (simp add: sys_exit_def evals)
  next
    case (Cons parent rest)
    define s1 where "s1 = s\<lparr>cx := (cx s)\<lparr>c_task := parent, c_vfork_stack := rest\<rparr>\<rparr>"
    define s2 where "s2 = s1\<lparr>sh := fold release_desc (fdt_drain_all (t_fds (the_task s))) (sh s1)\<rparr>"
    have "owed ext (added none (count_list (fdt_drain_all (t_fds (the_task s))))) s1"
      by (rule owed_moved [OF s [folded owed_none]])
        (simp_all add: s1_def holders_def task_refs_def Cons count_drain_all)
    from owed_releases [OF this] have "refs_ok ext s2" by (simp add: s2_def owed_none)
    then have "owed ext none (s2\<lparr>sh := set_exit (t_pid (the_task s)) (status_exited code) (sh s2)\<rparr>)"
      unfolding owed_none [symmetric] by (rule owed_moved) (simp_all add: set_exit_def holders_def)
    moreover have "snd (sys_exit code s) = s2\<lparr>sh := set_exit (t_pid (the_task s)) (status_exited code) (sh s2)\<rparr>"
      by (simp add: sys_exit_def evals Cons modify_def release_fds_def s1_def s2_def)
    ultimately show ?thesis by (simp add: owed_none)
  qed
qed

lemma increfs_kept:
  "slab_get (fold desc_incref ks ds) k \<noteq> None \<longleftrightarrow> slab_get ds k \<noteq> None"
  by (induction ks arbitrary: ds) (auto simp: desc_incref_def slab_get_modify)

lemma fork_record_same:
  "sh_descs (snd (fork_record t s)) = sh_descs s" "sh_pipes (snd (fork_record t s)) = sh_pipes s"
  "sh_spawn (snd (fork_record t s)) = sh_spawn s"
  by (simp_all add: fork_record_def allocate_pid_def Let_def split: option.splits)

lemma fd_refs_live:
  assumes "refs_ok ext s" "k \<in> set (fdt_drain_all (t_fds (the_task s)))"
  shows "slab_get (sh_descs (sh s)) k \<noteq> None"
proof
  assume "slab_get (sh_descs (sh s)) k = None"
  then have "holders ext s k = 0"
    using refs_coverD(2) [OF store_okD(3)] assms(1) by (auto simp: refs_ok_def)
  then have "count_list (fdt_drain_all (t_fds (the_task s))) k = 0"
    by (simp add: holders_def task_refs_def count_drain_all)
  with assms(2) show False by (simp add: count_list_0_iff)
qed

lemma refs_clone: "leads (refs_inv True ext) (refs_inv False ext) (sys_clone flags)"
proof (rule leadsI)
  fix s :: "('w, 'f) st" assume "refs_inv True ext s"
  then have s: "refs_ok ext s" and room: "2 * holders ext s k + 1 \<le> U32_MAX" for k
    by (auto simp: refs_inv_def roomy_def)
  obtain p s0 where f: "fork_record (the_task s) (sh s) = (p, s0)" by fastforce
  define s1 where "s1 = s\<lparr>sh := s0\<rparr>"
  have same: "sh_descs s0 = sh_descs (sh s)" "sh_pipes s0 = sh_pipes (sh s)" "sh_spawn s0 = sh_spawn (sh s)"
    using fork_record_same [of "the_task s" "sh s"] f by simp_all
  have s1: "refs_ok ext s1"
    using s by (simp add: refs_ok_def s1_def same holders_sh)
  show "refs_inv False ext (snd (sys_clone flags s))"
  proof (cases "flags AND CLONE_VFORK = 0 \<or> flags AND CLONE_VM = 0 \<or> flags AND CLONE_THREAD \<noteq> 0 \<or> p = None")
    case True
    then show ?thesis using s s1 by (auto simp: sys_clone_def evals run_def f s1_def ok_or_def split: if_splits)
  next
    case False
    then obtain pid where pid: "p = Some pid" by auto
    define ks where "ks = fdt_drain_all (t_fds (the_task s))"
    define s2 where "s2 = s1\<lparr>sh := (sh s1)\<lparr>sh_descs := fold desc_incref ks (sh_descs (sh s1))\<rparr>\<rparr>"
    define s3 where "s3 = s2\<lparr>cx := (cx s2)\<lparr>c_task := vfork_child pid (t_fds (the_task s)) (the_task s),
      c_vfork_stack := the_task s # c_vfork_stack (cx s)\<rparr>\<rparr>"
    have h1: "holders ext s1 = holders ext s" by (simp add: s1_def same holders_sh)
    have le: "count_list ks k \<le> holders ext s k" for k
      by (simp add: ks_def count_drain_all holders_def task_refs_def)
    have "store_ok (added (holders ext s1) (count_list ks)) none none (fold desc_incref ks (sh_descs (sh s1))) (sh_pipes (sh s1))"
    proof (rule store_ok_increfs)
      show "store_ok (holders ext s1) none none (sh_descs (sh s1)) (sh_pipes (sh s1))"
        using s1 by (simp add: refs_ok_def)
      show "slab_get (sh_descs (sh s1)) k \<noteq> None" if "k \<in> set ks" for k
        using fd_refs_live [OF s] that by (simp add: ks_def s1_def same)
      show "holders ext s1 k + count_list ks k \<le> U32_MAX" for k
        using room [of k] le [of k] by (simp add: h1)
    qed
    then have "owed ext (count_list ks) s2" by (simp add: owed_def s2_def holders_sh h1)
    then have "owed ext none s3"
      by (rule owed_moved) (simp_all add: s3_def s2_def s1_def holders_def task_refs_def vfork_child_def task_new_def
        ks_def count_drain_all)
    moreover have "snd (sys_clone flags s) = s3"
      using False by (simp add: sys_clone_def evals run_def f s1_def [symmetric] ok_or_def pid modify_def
          fdt_duplicate_eq ks_def [symmetric]) (simp add: s3_def s2_def s1_def ks_def)
    ultimately show ?thesis by (simp add: owed_none)
  qed
qed

lemma refs_exec: "leads (refs_inv b ext) (refs_inv False ext) (finish_exec program exe argv envp)"
proof (rule leadsI)
  fix s :: "('w, 'f) st" assume "refs_inv b ext s"
  then have s: "refs_ok ext s" by (simp add: refs_inv_def)
  obtain closing fds where d: "fdt_drain_cloexec (t_fds (the_task s)) = (closing, fds)" by fastforce
  define s1 where "s1 = with_fds fds s"
  define s2 where "s2 = s1\<lparr>sh := fold release_desc closing (sh s1)\<rparr>"
  define sp where "sp = \<lparr>sp_task = the_task s1, sp_program = program, sp_exe = exe, sp_argv = argv, sp_envp = envp\<rparr>"
  have "owed ext (added none (count_list closing)) s1"
    by (rule owed_moved [OF s [folded owed_none]])
      (simp_all add: s1_def holders_def task_refs_def fd_refs_drain_cloexec [OF d])
  from owed_releases [OF this] have 2: "owed ext none s2" by (simp add: s2_def)
  have eval: "snd (on_task (t_fds_update (\<lambda>_. fds)) s) = s1" by (simp add: on_task_snd s1_def)
  have eval': "on_task (t_fds_update (\<lambda>_. fds)) s = (Inr (), s1)"
    using eval by (simp add: on_task_def modify_def)
  show "refs_inv False ext (snd (finish_exec program exe argv envp s))"
  proof (cases "c_vfork_stack (cx s)")
    case Nil
    have "owed ext none (s2\<lparr>cx := (cx s2)\<lparr>c_task := task_new 0 fdt_new, c_exec_request := Some sp\<rparr>\<rparr>)"
      by (rule owed_moved [OF 2])
        (simp_all add: s2_def s1_def sp_def holders_def task_refs_def task_new_def fdt_new_def)
    then show ?thesis
      using Nil by (simp add: finish_exec_def evals d eval' modify_cx owed_none sp_def s2_def s1_def Let_def)
  next
    case (Cons parent rest)
    have "owed ext none (s2\<lparr>cx := (cx s2)\<lparr>c_task := parent, c_vfork_stack := rest\<rparr>,
        sh := sh_spawn_update (\<lambda>l. l @ [sp]) (sh s2)\<rparr>)"
      by (rule owed_moved [OF 2]) (simp_all add: s2_def s1_def sp_def holders_def task_refs_def Cons)
    then show ?thesis
      using Cons by (simp add: finish_exec_def evals d eval' modify_cx owed_none sp_def s2_def s1_def Let_def)
  qed
qed

interpretation refs_steps: kernel_steps "refs_inv True ext" "refs_inv False ext" "\<lambda>_ _. True" "\<lambda>_ _. True"
  "\<lambda>_. True" "\<lambda>_ _ _. True"
proof
  show "refs_inv False ext s" if "refs_inv True ext s" for s :: "('w, 'f) st"
    using that by (simp add: refs_inv_def)
  show "leads (refs_inv True ext) (refs_inv False ext) (install_desc (desc_new kind path status) cloexec)"
    if "kernel_frame.opened (\<lambda>_ _. True) kind" for kind :: "'f desc_kind" and path status cloexec
    by (rule refs_install) (use that in \<open>auto simp: refs_frame.opened_def\<close>)
qed (rule refs_close refs_dup refs_dup3 refs_pipe2 refs_exit refs_clone refs_exec)+

end
