(* ===== verification/Limits.thy ===== *)
theory Limits
  imports Refs
begin

text \<open>
  The limits of a session, as an invariant of everything a guest can do: memory, output, open
  descriptors, descriptions, pipes and processes.
\<close>

section \<open>The invariant\<close>

definition limits_ok :: "limits \<Rightarrow> nat \<Rightarrow> nat \<Rightarrow> ('w, 'f) st \<Rightarrow> bool" where
  "limits_ok l base others s \<longleftrightarrow>
     sh_limits (sh s) = l \<and> lim_memory l < U64_MAX \<and>
     sh_memory_used (sh s) \<le> lim_memory l \<and>
     length (g_mem (gs s)) = base + ex_grown (c_exec (cx s)) \<and>
     ex_grown (c_exec (cx s)) + others \<le> sh_memory_used (sh s) \<and>
     length (ob_data (sh_stdout (sh s))) \<le> lim_output l \<and>
     length (ob_data (sh_stderr (sh s))) \<le> lim_output l \<and>
     length (t_fds (the_task s)) \<le> lim_open_files l \<and>
     (\<forall>t \<in> set (c_vfork_stack (cx s)). length (t_fds t) \<le> lim_open_files l) \<and>
     (\<forall>p \<in> set (sh_spawn (sh s)). length (t_fds (sp_task p)) \<le> lim_open_files l) \<and>
     (\<forall>p. c_exec_request (cx s) = Some p \<longrightarrow> length (t_fds (sp_task p)) \<le> lim_open_files l) \<and>
     live_count (sh_table (sh s)) \<le> max 1 (lim_processes l) \<and>
     slab_wf (sh_descs (sh s)) \<and> length (slots (sh_descs (sh s))) \<le> sat_mul_u64 (lim_open_files l) 4 \<and>
     slab_wf (sh_pipes (sh s)) \<and> length (slots (sh_pipes (sh s))) \<le> lim_open_files l"

lemma limits_okD:
  assumes "limits_ok l base others s"
  shows "sh_limits (sh s) = l" "lim_memory l < U64_MAX" "sh_memory_used (sh s) \<le> lim_memory l"
    "length (g_mem (gs s)) = base + ex_grown (c_exec (cx s))"
    "ex_grown (c_exec (cx s)) + others \<le> sh_memory_used (sh s)"
    "length (t_fds (the_task s)) \<le> lim_open_files l"
    "\<And>t. t \<in> set (c_vfork_stack (cx s)) \<Longrightarrow> length (t_fds t) \<le> lim_open_files l"
    "live_count (sh_table (sh s)) \<le> max 1 (lim_processes l)"
    "slab_wf (sh_descs (sh s))" "slab_wf (sh_pipes (sh s))"
    "\<And>p. p \<in> set (sh_spawn (sh s)) \<Longrightarrow> length (t_fds (sp_task p)) \<le> lim_open_files l"
    "\<And>p. c_exec_request (cx s) = Some p \<Longrightarrow> length (t_fds (sp_task p)) \<le> lim_open_files l"
  using assms by (simp_all add: limits_ok_def)

text \<open>A change that leaves everything the invariant reads, or moves it the right way.\<close>

lemma limits_okI:
  assumes "limits_ok l base others s"
    and "sh_limits (sh s') = sh_limits (sh s)" "sh_memory_used (sh s') = sh_memory_used (sh s)"
    "length (g_mem (gs s')) = length (g_mem (gs s))" "ex_grown (c_exec (cx s')) = ex_grown (c_exec (cx s))"
    and "length (ob_data (sh_stdout (sh s))) \<le> lim_output l \<Longrightarrow> length (ob_data (sh_stdout (sh s'))) \<le> lim_output l"
    and "length (ob_data (sh_stderr (sh s))) \<le> lim_output l \<Longrightarrow> length (ob_data (sh_stderr (sh s'))) \<le> lim_output l"
    and "length (t_fds (the_task s')) \<le> lim_open_files l"
    and "\<And>t. t \<in> set (c_vfork_stack (cx s')) \<Longrightarrow> length (t_fds t) \<le> lim_open_files l"
    and "\<And>p. p \<in> set (sh_spawn (sh s')) \<Longrightarrow> length (t_fds (sp_task p)) \<le> lim_open_files l"
    and "\<And>p. c_exec_request (cx s') = Some p \<Longrightarrow> length (t_fds (sp_task p)) \<le> lim_open_files l"
    and "live_count (sh_table (sh s')) \<le> max 1 (lim_processes l)"
    and "slab_wf (sh_descs (sh s'))" "slab_wf (sh_pipes (sh s'))"
    and "length (slots (sh_descs (sh s))) \<le> sat_mul_u64 (lim_open_files l) 4 \<Longrightarrow>
      length (slots (sh_descs (sh s'))) \<le> sat_mul_u64 (lim_open_files l) 4"
    and "length (slots (sh_pipes (sh s))) \<le> lim_open_files l \<Longrightarrow> length (slots (sh_pipes (sh s'))) \<le> lim_open_files l"
  shows "limits_ok l base others s'"
  using assms by (simp add: limits_ok_def)

lemma length_modify [simp]: "length (slots (slab_modify k f s)) = length (slots s)"
  by (simp add: slab_modify_def split: option.splits)

lemma length_remove [simp]: "length (slots (snd (slab_remove k s))) = length (slots s)"
  by (simp add: slab_remove_def split: option.splits)

lemma length_output_push: "length (ob_data b) \<le> n \<Longrightarrow> length (ob_data (output_push bs n b)) \<le> n"
  by (auto simp: output_push_def Let_def)

text \<open>Shared state.\<close>

lemma limits_shared:
  assumes "\<And>s :: ('w, 'f) shared. sh_limits (f s) = sh_limits s \<and> sh_memory_used (f s) = sh_memory_used s
      \<and> sh_stdout (f s) = sh_stdout s \<and> sh_stderr (f s) = sh_stderr s
      \<and> live_count (sh_table (f s)) \<le> live_count (sh_table s) \<and> sh_spawn (f s) = sh_spawn s
      \<and> (slab_wf (sh_descs s) \<longrightarrow> slab_wf (sh_descs (f s))) \<and> length (slots (sh_descs (f s))) = length (slots (sh_descs s))
      \<and> (slab_wf (sh_pipes s) \<longrightarrow> slab_wf (sh_pipes (f s))) \<and> length (slots (sh_pipes (f s))) = length (slots (sh_pipes s))"
  shows "limits_ok l base others s \<Longrightarrow> limits_ok l base others (s\<lparr>sh := f (sh s)\<rparr>)"
proof -
  assume s: "limits_ok l base others s"
  have "live_count (sh_table (f (sh s))) \<le> max 1 (lim_processes l)"
    using assms [of "sh s"] limits_okD(8) [OF s] by linarith
  then show ?thesis
    by (intro limits_okI [OF s]) (use assms [of "sh s"] limits_okD [OF s] in auto)
qed

lemma limits_on_shared:
  assumes "\<And>s :: ('w, 'f) shared. sh_limits (f s) = sh_limits s \<and> sh_memory_used (f s) = sh_memory_used s
      \<and> sh_stdout (f s) = sh_stdout s \<and> sh_stderr (f s) = sh_stderr s
      \<and> live_count (sh_table (f s)) \<le> live_count (sh_table s) \<and> sh_spawn (f s) = sh_spawn s
      \<and> (slab_wf (sh_descs s) \<longrightarrow> slab_wf (sh_descs (f s))) \<and> length (slots (sh_descs (f s))) = length (slots (sh_descs s))
      \<and> (slab_wf (sh_pipes s) \<longrightarrow> slab_wf (sh_pipes (f s))) \<and> length (slots (sh_pipes (f s))) = length (slots (sh_pipes s))"
  shows "keeps (limits_ok l base others) (on_shared f)"
  by (rule keepsI, unfold on_shared_snd, rule limits_shared [OF assms])

lemma release_slabs:
  "slab_wf (sh_descs s) \<Longrightarrow> slab_wf (sh_descs (release_desc k s))"
  "slab_wf (sh_pipes s) \<Longrightarrow> slab_wf (sh_pipes (release_desc k s))"
  "length (slots (sh_descs (release_desc k s))) = length (slots (sh_descs s))"
  "length (slots (sh_pipes (release_desc k s))) = length (slots (sh_pipes s))"
  by (auto simp: release_desc_def close_kind_def collect_pipe_def Let_def slab_wf_modify slab_wf_remove
      split: option.splits desc_kind.splits)

lemma close_kind_spawn: "sh_spawn (close_kind d s) = sh_spawn s"
  by (auto simp: close_kind_def close_file_def collect_pipe_def split: option.splits desc_kind.splits prod.splits)

lemma release_spawn: "sh_spawn (release_desc k s) = sh_spawn s"
  by (auto simp: release_desc_def Let_def close_kind_spawn split: option.splits)

lemma releases_slabs:
  "slab_wf (sh_descs s) \<Longrightarrow> slab_wf (sh_descs (fold release_desc ks s))"
  "slab_wf (sh_pipes s) \<Longrightarrow> slab_wf (sh_pipes (fold release_desc ks s))"
  "length (slots (sh_descs (fold release_desc ks s))) = length (slots (sh_descs s))"
  "length (slots (sh_pipes (fold release_desc ks s))) = length (slots (sh_pipes s))"
  "sh_spawn (fold release_desc ks s) = sh_spawn s"
  by (induction ks arbitrary: s) (simp_all add: release_slabs release_spawn)

text \<open>Memory.\<close>

lemma limits_acquire:
  assumes n: "n = pages * PAGE"
  shows "keeps (limits_ok l base others) (acquire pages n)"
proof (rule keepsI)
  fix s :: "('w, 'f) st" assume s: "limits_ok l base others s"
  note d = limits_okD [OF s]
  show "limits_ok l base others (snd (acquire pages n s))"
  proof (cases "lim_memory l < sat_add_u64 (sh_memory_used (sh s)) n")
    case True
    then show ?thesis using s d(1) by (simp add: acquire_def charge_def charge_memory_def run_def evals Let_def)
  next
    case False
    then have f: "sat_add_u64 (sh_memory_used (sh s)) n = sh_memory_used (sh s) + n"
      "sh_memory_used (sh s) + n \<le> lim_memory l"
      using d(2) by (auto simp: sat_add_u64_def min_def split: if_splits)
    have g: "sat_add_u64 (ex_grown (c_exec (cx s))) n = ex_grown (c_exec (cx s)) + n"
      using f(2) d(2,5) by (simp add: sat_add_u64_def)
    let ?s1 = "s\<lparr>sh := (sh s)\<lparr>sh_memory_used := sh_memory_used (sh s) + n\<rparr>\<rparr>"
    show ?thesis
    proof (cases "g_grants (gs s) (length (g_mem (gs s))) pages")
      case True
      have "snd (acquire pages n s) = ?s1\<lparr>gs := (gs s)\<lparr>g_mem := g_mem (gs s) @ replicate (pages * PAGE) 0\<rparr>,
          cx := (cx s)\<lparr>c_exec := (c_exec (cx s))\<lparr>ex_grown := ex_grown (c_exec (cx s)) + n\<rparr>\<rparr>\<rparr>"
        using False True d(1)
        by (simp add: acquire_def charge_def charge_memory_def grow_def mem_grow_def run_def add_grown_def
            evals Let_def f(1) on_exec_eval g)
      with s f n show ?thesis by (simp add: limits_ok_def)
    next
      case no: False
      have "snd (acquire pages n s) = s\<lparr>sh := (sh s)\<lparr>sh_memory_used := sh_memory_used (sh s)\<rparr>\<rparr>"
        using False no d(1)
        by (simp add: acquire_def charge_def charge_memory_def grow_def mem_grow_def run_def release_memory_def
            evals Let_def f(1))
      with s show ?thesis by (simp add: limits_ok_def)
    qed
  qed
qed

lemma limits_with_fds:
  assumes "limits_ok l base others s" "length t \<le> lim_open_files l"
  shows "limits_ok l base others (with_fds t s)"
  by (rule limits_okI [OF assms(1)]) (use limits_okD [OF assms(1)] assms(2) in auto)

lemma limits_on_fds:
  assumes "\<And>t. length t \<le> lim_open_files l \<Longrightarrow> length (snd (f t)) \<le> lim_open_files l"
  shows "keeps (limits_ok l base others) (on_fds f)"
proof (rule keepsI)
  fix s :: "('w, 'f) st" assume s: "limits_ok l base others s"
  obtain r t where t: "f (t_fds (the_task s)) = (r, t)" by fastforce
  have "length t \<le> lim_open_files l" using assms [OF limits_okD(6) [OF s]] t by simp
  then show "limits_ok l base others (snd (on_fds f s))"
    using limits_with_fds [OF s] by (simp add: on_fds_eval [of f, OF t])
qed

interpretation limits_frame: kernel_frame "limits_ok l base others" "\<lambda>_ _. True" "\<lambda>_ _. True" "\<lambda>_. True" "\<lambda>_ _ _. True"
proof
  show "keeps (limits_ok l base others) (on_exec f9)" if "\<And>e. ex_grown (f9 e) = ex_grown e" for f9
    by (rule keepsI, unfold on_exec_snd) (simp add: limits_ok_def that)
  show "keeps (limits_ok l base others) (on_task f8)" if "\<And>t. t_fds (f8 t) = t_fds t \<and> t_pid (f8 t) = t_pid t" for f8
    by (rule keepsI, unfold on_task_snd) (simp add: limits_ok_def that)
  show "keeps (limits_ok l base others) (acquire pages n)" if "n = pages * PAGE" "pages \<le> PAGE" for pages n
    by (rule limits_acquire) (rule that(1))
  show "keeps (limits_ok l base others) (on_fds (fdt_set_cloexec fd cloexec))" for fd cloexec
    by (rule limits_on_fds) (auto simp: fdt_set_cloexec_def split: option.splits)
  show "keeps (limits_ok l base others) (on_records f7)" if "tame f7" for f7
    unfolding on_records_def by (rule limits_on_shared) (simp add: tame_live_count [OF that])
  show "limits_ok l base others (snd (on_records (filter (\<lambda>x. pr_pid x \<noteq> pr_pid rc)) s))"
    if "limits_ok l base others s" for s :: "('w, 'f) st" and rc
    unfolding on_records_def on_shared_snd
    by (rule limits_shared [OF _ that]) (auto intro!: live_count_simps)
  show "limits_ok l base others (s\<lparr>sh := snd (write_output which data (sh s))\<rparr>)"
    if "limits_ok l base others s" for s :: "('w, 'f) st" and which data
    by (rule limits_okI [OF that])
      (use limits_okD [OF that] in \<open>auto simp: write_output_def Let_def length_output_push split: if_splits\<close>)
  show "limits_ok l base others (s\<lparr>sh := desc_update k (set_kind kind) (sh s)\<rparr>)"
    if "limits_ok l base others s" for s :: "('w, 'f) st" and k kind
    by (rule limits_shared [OF _ that]) (simp add: desc_update_def slab_wf_modify)
  show "limits_ok l base others (s\<lparr>sh := desc_update k (set_file f') (sh s)\<rparr>)"
    if "limits_ok l base others s" for s :: "('w, 'f) st" and k f'
    by (rule limits_shared [OF _ that]) (simp add: desc_update_def slab_wf_modify)
  show "limits_ok l base others (s\<lparr>sh := pipe_update k (\<lambda>p. p\<lparr>p_data := p_data p @ data\<rparr>) (sh s)\<rparr>)"
    if "limits_ok l base others s" for s :: "('w, 'f) st" and k data
    by (rule limits_shared [OF _ that]) (simp add: pipe_update_def slab_wf_modify)
  show "limits_ok l base others (set_world w s)" if "limits_ok l base others s" for s :: "('w, 'f) st" and w
    using that by (simp add: limits_ok_def)
  show "limits_ok l base others (s\<lparr>gs := (gs s)\<lparr>g_mem := mem\<rparr>\<rparr>)"
    if "limits_ok l base others s" "length mem = length (g_mem (gs s))" for s :: "('w, 'f) st" and mem
    using that by (simp add: limits_ok_def)
  show "limits_ok l base others (s\<lparr>gs := (gs s)\<lparr>g_sp := sp, g_mode := md\<rparr>\<rparr>)"
    if "limits_ok l base others s" for s :: "('w, 'f) st" and sp md
    using that by (simp add: limits_ok_def)
qed (auto intro!: limits_on_shared simp: desc_update_def pipe_update_def slab_wf_modify reflp_def transp_def)

section \<open>Operations that move descriptors\<close>

lemma alloc_from_length: "length (snd (fdt_alloc_from entry i lim t)) \<le> max (length t) lim"
proof (induction entry i lim t rule: fdt_alloc_from.induct)
  case (1 entry i lim t)
  define t1 where "t1 = (if length t \<le> i then resize (i + 1) None t else t)"
  show ?case
  proof (cases "lim \<le> i")
    case True
    then show ?thesis by (simp add: fdt_alloc_from.simps [of entry i lim t])
  next
    case False
    then have l: "length t1 \<le> max (length t) lim" "i < length t1" by (auto simp: t1_def)
    then obtain x where x: "get_at t1 i = Some x" by (simp add: get_at_def)
    show ?thesis
      using 1 [OF False t1_def x] l x
      by (cases x) (auto simp: fdt_alloc_from.simps [of entry i lim t] t1_def [symmetric] False Let_def)
  qed
qed

lemma limits_alloc:
  "keeps (limits_ok l base others) (bnd (gets limit_files) (\<lambda>n. on_fds (fdt_alloc entry lo n)))"
proof (rule keeps_of_at)
  fix s :: "('w, 'f) st"
  show "keeps_at s (limits_ok l base others) (bnd (gets limit_files) (\<lambda>n. on_fds (fdt_alloc entry lo n)))"
  proof (cases "limits_ok l base others s")
    case True
    then have n: "limit_files s = lim_open_files l" using limits_okD(1) [OF True] by (simp add: limit_files_def)
    have "keeps (limits_ok l base others) (on_fds (fdt_alloc entry lo (lim_open_files l)) :: ('w, 'f, int) sys)"
      by (rule limits_on_fds, unfold fdt_alloc_def, rule order_trans [OF alloc_from_length]) simp
    then show ?thesis using n by (simp add: keeps_at_def keeps_def bnd_def gets_def)
  qed (simp add: keeps_at_def)
qed

lemma limits_incref: "keeps (limits_ok l base others) (incref k)"
  unfolding incref_def by (rule limits_on_shared) (simp add: desc_incref_def slab_wf_modify)

lemma limits_release: "keeps (limits_ok l base others) (on_shared (release_desc k))"
  by (rule limits_on_shared) (simp add: release_slabs release_spawn)

lemma limits_releases: "keeps (limits_ok l base others) (on_shared (fold release_desc ks))"
  by (rule limits_on_shared) (simp add: releases_slabs)

lemma limits_insert_pipe: "keeps (limits_ok l base others) insert_pipe"
  unfolding insert_pipe_def
proof (intro keeps_bnd keeps_ok_or keeps_run)
  fix s :: "('w, 'f) st" assume s: "limits_ok l base others s"
  note d = limits_okD [OF s]
  obtain k ps where i: "slab_insert pipe_new (limit_files s) (sh_pipes (sh s)) = (k, ps)" by fastforce
  have "slab_wf ps" using slab_wf_insert [OF d(10), of pipe_new "limit_files s"] i by simp
  moreover have "length (slots ps) \<le> lim_open_files l" if "length (slots (sh_pipes (sh s))) \<le> lim_open_files l"
    using slab_insert_cap [OF d(10), of "lim_open_files l" pipe_new] slab_insert_NoneD [OF d(10)] i that d(1)
    by (cases k) (auto simp: limit_files_def)
  ultimately show "limits_ok l base others (snd (let (k, ps) = slab_insert pipe_new (limit_files s) (sh_pipes (sh s))
      in (k, s\<lparr>sh := (sh s)\<lparr>sh_pipes := ps\<rparr>\<rparr>)))"
    by (simp add: i, intro limits_okI [OF s]) (use d in auto)
qed

lemma limits_insert_desc: "keeps (limits_ok l base others) (insert_desc (x :: 'f desc) :: ('w, 'f, nat) sys)"
  unfolding insert_desc_def
proof (intro keeps_bnd keeps_ok_or keeps_run)
  fix s :: "('w, 'f) st" assume s: "limits_ok l base others s"
  note d = limits_okD [OF s]
  let ?c = "sat_mul_u64 (lim_open_files l) 4"
  obtain k ds where i: "slab_insert x (sat_mul_u64 (limit_files s) 4) (sh_descs (sh s)) = (k, ds)" by fastforce
  have "slab_wf ds" using slab_wf_insert [OF d(9), of x "sat_mul_u64 (limit_files s) 4"] i by simp
  moreover have "length (slots ds) \<le> ?c" if "length (slots (sh_descs (sh s))) \<le> ?c"
    using slab_insert_cap [OF d(9), of ?c x] slab_insert_NoneD [OF d(9)] i that d(1)
    by (cases k) (auto simp: limit_files_def)
  ultimately show "limits_ok l base others (snd (let (k, ds) = slab_insert x (sat_mul_u64 (limit_files s) 4) (sh_descs (sh s))
      in (k, s\<lparr>sh := (sh s)\<lparr>sh_descs := ds\<rparr>\<rparr>)))"
    by (simp add: i, intro limits_okI [OF s]) (use d in auto)
qed

lemma limits_replace:
  fixes f :: "fd option \<Rightarrow> ('w, 'f, 'a) sys"
  assumes f: "\<And>x. keeps (limits_ok l base others) (f x)"
  shows "keeps (limits_ok l base others) (bnd (gets limit_files) (\<lambda>n. bnd (on_fds (fdt_replace to entry n)) f))"
proof (rule keeps_of_at)
  fix s :: "('w, 'f) st"
  show "keeps_at s (limits_ok l base others) (bnd (gets limit_files) (\<lambda>n. bnd (on_fds (fdt_replace to entry n)) f))"
  proof (cases "limits_ok l base others s")
    case True
    then have n: "limit_files s = lim_open_files l" using limits_okD(1) [OF True] by (simp add: limit_files_def)
    have "keeps (limits_ok l base others) (bnd (on_fds (fdt_replace to entry (lim_open_files l))) f)"
      by (intro keeps_bnd limits_on_fds f)
        (auto simp: fdt_replace_def Let_def split: option.splits)
    then show ?thesis using n by (simp add: keeps_at_def keeps_def bnd_def gets_def)
  qed (simp add: keeps_at_def)
qed

lemma live_count_set_exit: "live_count (table_set_exit pid status t) \<le> live_count t"
proof -
  have 1: "live_count (update_record pid (\<lambda>r. r\<lparr>pr_exit := (if pr_exit r = None then Some status else pr_exit r),
      pr_wake_at := None\<rparr>) t) \<le> live_count t"
    by (rule live_count_simps) (auto simp: is_alive_def split: if_splits)
  have 2: "live_count (map (\<lambda>r. if pr_ppid r = pid then r\<lparr>pr_ppid := 1\<rparr> else r) t) \<le> live_count t" for t
    by (rule live_count_simps) (auto simp: is_alive_def split: if_splits)
  have 3: "live_count (update_record parent (raise_sig SIGCHLD) t) \<le> live_count t" for parent t
    by (rule live_count_simps) (auto simp: is_alive_def)
  have 4: "live_count (filter q t) \<le> live_count t" for q t
    by (rule live_count_simps)
  show ?thesis
    unfolding table_set_exit_def Let_def
    using order_trans [OF 3 order_trans [OF 2 1]] order_trans [OF 4 order_trans [OF 2 1]] by (simp split: if_split)
qed

lemma limits_set_exit: "keeps (limits_ok l base others) (on_shared (set_exit pid status))"
  by (rule limits_on_shared) (simp add: set_exit_def live_count_set_exit)

lemma limits_fork:
  "keeps (limits_ok l base others) (run (\<lambda>s. let (p, s') = fork_record (the_task s) (sh s) in (p, s\<lparr>sh := s'\<rparr>)))"
proof (rule keeps_run)
  fix s :: "('w, 'f) st" assume s: "limits_ok l base others s"
  note d = limits_okD [OF s]
  obtain p s' where f: "fork_record (the_task s) (sh s) = (p, s')" by fastforce
  have "live_count (sh_table s') \<le> max 1 (lim_processes l)"
    using f d(1,8)
    by (auto simp: fork_record_def allocate_pid_def Let_def live_count_def proc_record_new_def is_alive_def
        split: if_splits option.splits)
  moreover have "sh_limits s' = sh_limits (sh s)" "sh_memory_used s' = sh_memory_used (sh s)"
    "sh_stdout s' = sh_stdout (sh s)" "sh_stderr s' = sh_stderr (sh s)"
    "sh_descs s' = sh_descs (sh s)" "sh_pipes s' = sh_pipes (sh s)" "sh_spawn s' = sh_spawn (sh s)"
    using f by (auto simp: fork_record_def allocate_pid_def Let_def split: if_splits option.splits)
  ultimately show "limits_ok l base others (snd (let (p, s') = fork_record (the_task s) (sh s) in (p, s\<lparr>sh := s'\<rparr>)))"
    by (simp add: f, intro limits_okI [OF s]) (use d in auto)
qed

lemma limits_duplicate:
  "keeps (limits_ok l base others)
    (bnd (run (\<lambda>s. let (fds, ds) = fdt_duplicate (t_fds (the_task s)) (sh_descs (sh s)) in
       (fds, s\<lparr>sh := (sh s)\<lparr>sh_descs := ds\<rparr>\<rparr>))) (\<lambda>fds.
     thn (modify (cx_update (\<lambda>c.
       c\<lparr>c_task := vfork_child pid fds (c_task c), c_vfork_stack := c_task c # c_vfork_stack c\<rparr>)))
     (ret n)))"
proof (rule keepsI)
  fix s :: "('w, 'f) st" assume s: "limits_ok l base others s"
  note d = limits_okD [OF s]
  have "slab_wf (fold desc_incref ks ds) \<and> length (slots (fold desc_incref ks ds)) = length (slots ds)"
    if "slab_wf ds" for ks and ds :: "'f desc slab"
    using that by (induction ks arbitrary: ds) (simp_all add: desc_incref_def slab_wf_modify)
  then show "limits_ok l base others (snd (bnd (run (\<lambda>s. let (fds, ds) = fdt_duplicate (t_fds (the_task s)) (sh_descs (sh s)) in
       (fds, s\<lparr>sh := (sh s)\<lparr>sh_descs := ds\<rparr>\<rparr>))) (\<lambda>fds.
     thn (modify (cx_update (\<lambda>c.
       c\<lparr>c_task := vfork_child pid fds (c_task c), c_vfork_stack := c_task c # c_vfork_stack c\<rparr>)))
     (ret n)) s))"
    by (simp add: fdt_duplicate_eq run_def evals modify_cx, intro limits_okI [OF s])
      (use d in \<open>auto simp: vfork_child_def task_new_def\<close>)
qed

lemma limits_exit: "keeps (limits_ok l base others) (sys_exit code)"
  unfolding sys_exit_def
proof (rule keeps_of_at, rule keeps_at_reads, simp add: reads_rules)
  fix s :: "('w, 'f) st" and a
  assume "gets (\<lambda>s. (c_vfork_stack (cx s), the_task s)) s = (Inr a, s)"
  then have a: "a = (c_vfork_stack (cx s), the_task s)" by (simp add: gets_def)
  show "keeps_at s (limits_ok l base others) (case a of (stack, child) \<Rightarrow>
     (case stack of
       parent # rest \<Rightarrow>
         thn (modify (cx_update (\<lambda>c. c\<lparr>c_task := parent, c_vfork_stack := rest\<rparr>)))
        (thn (on_shared (release_fds (t_fds child)))
        (thn (on_shared (set_exit (t_pid child) (status_exited code)))
         (ret (t_pid child))))
     | [] \<Rightarrow> fault (FExit (status_exited code))))"
  proof (cases "c_vfork_stack (cx s)")
    case (Cons parent rest)
    have "keeps (limits_ok l base others) (on_shared (release_fds t))" for t
      using limits_releases [of l base others "fdt_drain_all t"] by (simp add: release_fds_def [abs_def])
    then have "keeps_at s (limits_ok l base others)
        (thn (modify (cx_update (\<lambda>c. c\<lparr>c_task := parent, c_vfork_stack := rest\<rparr>)))
        (thn (on_shared (release_fds (t_fds (the_task s))))
        (thn (on_shared (set_exit (t_pid (the_task s)) (status_exited code))) (ret (t_pid (the_task s))))))"
      by (intro keeps_at_bnd keeps_bnd keeps_ret limits_set_exit)
        (simp_all add: modify_cx limits_ok_def Cons)
    then show ?thesis by (simp add: a Cons)
  qed (simp add: a)
qed

lemma limits_start:
  "keeps (limits_ok l base others)
    (bnd (gets (\<lambda>s. (c_vfork_stack (cx s), the_task s))) (\<lambda>(stack, t).
     let sp = \<lparr>sp_task = t, sp_program = program, sp_exe = exe, sp_argv = argv, sp_envp = envp\<rparr> in
     case stack of
       parent # rest \<Rightarrow>
         thn (modify (cx_update (\<lambda>c. c\<lparr>c_task := parent, c_vfork_stack := rest\<rparr>)))
        (thn (on_shared (sh_spawn_update (\<lambda>l. l @ [sp]))) (ret (t_pid t)))
     | [] \<Rightarrow>
         thn (modify (cx_update (\<lambda>c. c\<lparr>c_task := task_new 0 fdt_new, c_exec_request := Some sp\<rparr>)))
         (fault FExec)))"
proof (rule keeps_of_at, rule keeps_at_reads, simp add: reads_rules)
  fix s :: "('w, 'f) st" and a
  assume "gets (\<lambda>s. (c_vfork_stack (cx s), the_task s)) s = (Inr a, s)"
  then have a: "a = (c_vfork_stack (cx s), the_task s)" by (simp add: gets_def)
  show "keeps_at s (limits_ok l base others) (case a of (stack, t) \<Rightarrow>
     let sp = \<lparr>sp_task = t, sp_program = program, sp_exe = exe, sp_argv = argv, sp_envp = envp\<rparr> in
     case stack of
       parent # rest \<Rightarrow>
         thn (modify (cx_update (\<lambda>c. c\<lparr>c_task := parent, c_vfork_stack := rest\<rparr>)))
        (thn (on_shared (sh_spawn_update (\<lambda>l. l @ [sp]))) (ret (t_pid t)))
     | [] \<Rightarrow>
         thn (modify (cx_update (\<lambda>c. c\<lparr>c_task := task_new 0 fdt_new, c_exec_request := Some sp\<rparr>)))
         (fault FExec))"
  proof (cases "c_vfork_stack (cx s)")
    case Nil
    then show ?thesis
      by (auto simp: a Let_def task_new_def fdt_new_def modify_cx limits_ok_def intro!: keeps_at_bnd keeps_fault)
  next
    case (Cons parent rest)
    show ?thesis
    proof (cases "limits_ok l base others s")
      case True
      then have "keeps (limits_ok l base others) (on_shared (sh_spawn_update (\<lambda>ps. ps @ [sp])) :: ('w, 'f, unit) sys)"
        if "sp_task sp = the_task s" for sp
        by (intro keepsI) (use that limits_okD(6) [OF True] in \<open>auto simp: on_shared_snd limits_ok_def\<close>)
      then show ?thesis
        by (auto simp: a Let_def Cons modify_cx intro!: keeps_at_bnd keeps_bnd keeps_ret) (simp add: limits_ok_def Cons)
    qed (simp add: keeps_at_def)
  qed
qed

lemma limits_exec: "keeps (limits_ok l base others) (finish_exec program exe argv envp)"
  unfolding finish_exec_def
proof (rule keeps_of_at, rule keeps_at_reads, simp add: reads_rules)
  fix s :: "('w, 'f) st" and a
  assume "gets (\<lambda>s. fdt_drain_cloexec (t_fds (the_task s))) s = (Inr a, s)"
  then have a: "a = fdt_drain_cloexec (t_fds (the_task s))" by (simp add: gets_def)
  have len: "length (snd (fdt_drain_cloexec t)) = length t" for t
    by (induction t) (auto split: prod.splits option.splits)
  show "keeps_at s (limits_ok l base others) (case a of (closing, fds) \<Rightarrow>
     thn (on_task (t_fds_update (\<lambda>_. fds))) (thn (on_shared (fold release_desc closing))
     (bnd (gets (\<lambda>s. (c_vfork_stack (cx s), the_task s))) (\<lambda>(stack, t).
     let sp = \<lparr>sp_task = t, sp_program = program, sp_exe = exe, sp_argv = argv, sp_envp = envp\<rparr> in
     case stack of
       parent # rest \<Rightarrow>
         thn (modify (cx_update (\<lambda>c. c\<lparr>c_task := parent, c_vfork_stack := rest\<rparr>)))
        (thn (on_shared (sh_spawn_update (\<lambda>l. l @ [sp]))) (ret (t_pid t)))
     | [] \<Rightarrow>
         thn (modify (cx_update (\<lambda>c. c\<lparr>c_task := task_new 0 fdt_new, c_exec_request := Some sp\<rparr>)))
         (fault FExec)))))"
    unfolding a prod.case_eq_if
    by (intro keeps_at_bnd keeps_bnd limits_releases limits_start [unfolded prod.case_eq_if])
      (simp add: on_task_snd limits_ok_def len)
qed

interpretation limits_steps: kernel_steps "limits_ok l base others" "limits_ok l base others" "\<lambda>_ _. True"
  "\<lambda>_ _. True" "\<lambda>_. True" "\<lambda>_ _ _. True"
proof (unfold_locales, unfold keeps_leads [symmetric])
  show "keeps (limits_ok l base others) (sys_close fd)" for fd
    unfolding sys_close_def
    by (intro keeps_bnd limits_on_fds limits_release keeps_ret) (auto simp: fdt_take_def split: option.splits)
  show "keeps (limits_ok l base others) (dup_fd fd cloexec lo)" for fd cloexec lo
    unfolding dup_fd_def by (intro keeps_bnd keeps_kernel_reads limits_incref limits_alloc)
  show "keeps (limits_ok l base others) (sys_dup3 from to flags)" for "from" to flags
    unfolding sys_dup3_def
    by (intro keeps_if keeps_fault keeps_bnd [of _ "get_fd from"] keeps_bnd [of _ "incref _"]
        keeps_kernel_reads limits_incref limits_replace keeps_bnd keeps_ret keeps_option limits_release)
  show "keeps (limits_ok l base others) (install_desc (desc_new kind path status) cloexec)" for kind path status cloexec
    unfolding install_desc_def alloc_fd_def
    by (intro keeps_bnd limits_insert_desc keeps_catching limits_alloc keeps_sum keeps_ret keeps_fault limits_release)
  show "keeps (limits_ok l base others) (sys_clone flags)" for flags
    unfolding sys_clone_def
    by (rule keeps_if, rule keeps_fault, rule keeps_bnd, rule keeps_bnd, rule limits_fork, rule keeps_ok_or,
        rule limits_duplicate)
  show "keeps (limits_ok l base others) (sys_pipe2 at flags)" for at flags
    unfolding sys_pipe2_def alloc_fd_def Let_def
    by (intro keeps_bnd limits_insert_pipe limits_insert_desc limits_alloc keeps_catching keeps_sum keeps_ret
        keeps_fault limits_release limits_on_fds limits_frame.k_to_mem keeps_length)
      (auto simp: fdt_take_def split: option.splits)
qed (rule limits_exit limits_exec | simp)+

end
