(* ===== verification/Read_Only.thy ===== *)
theory Read_Only
  imports Limits
begin

text \<open>
  Read-only mounts.  \<open>view\<close> is what the world shows below the read-only mounts, \<open>owns f i\<close> says
  that the handle \<open>f\<close> was opened on mount \<open>i\<close>.  \<open>view_law\<close> collects what the embedder's
  filesystems have to provide: looking, and opening for reading, leave the view alone; a mount
  that may be written does not reach into a read-only one; a handle reads, seeks and closes
  without changing anything.  Nothing is asked of the changing operations of a read-only mount,
  nor of writing through a handle opened there: the kernel never calls them.
\<close>

section \<open>What is asked of the filesystems\<close>

definition mount_law :: "('w \<Rightarrow> 'c) \<Rightarrow> ('f \<Rightarrow> nat \<Rightarrow> bool) \<Rightarrow> nat \<Rightarrow> bool \<Rightarrow> ('w, 'f) vfs \<Rightarrow> bool" where
  "mount_law view owns i ro v \<longleftrightarrow>
     (\<forall>p b w. view (snd (v_stat v p b w)) = view w) \<and>
     (\<forall>p w. view (snd (v_readlink v p w)) = view w) \<and>
     (\<forall>p w. view (snd (v_readdir v p w)) = view w) \<and>
     (\<forall>p o' w. \<not> ro \<or> opens_for_reading o' \<longrightarrow>
        view (snd (v_open v p o' w)) = view w \<and> (\<forall>f. fst (v_open v p o' w) = Inr f \<longrightarrow> owns f i)) \<and>
     (\<not> ro \<longrightarrow>
       (\<forall>p m w. view (snd (v_mkdir v p m w)) = view w) \<and> (\<forall>p w. view (snd (v_unlink v p w)) = view w) \<and>
       (\<forall>p w. view (snd (v_rmdir v p w)) = view w) \<and> (\<forall>p q w. view (snd (v_rename v p q w)) = view w) \<and>
       (\<forall>p q w. view (snd (v_symlink v p q w)) = view w) \<and> (\<forall>p n w. view (snd (v_truncate v p n w)) = view w) \<and>
       (\<forall>p m w. view (snd (v_set_mode v p m w)) = view w))"

definition file_law :: "('w \<Rightarrow> 'c) \<Rightarrow> ('f \<Rightarrow> nat \<Rightarrow> bool) \<Rightarrow> ('w, 'f) mounts \<Rightarrow> ('w, 'f) file_ops \<Rightarrow> bool" where
  "file_law view owns ms fo \<longleftrightarrow>
     (\<forall>b f i w. owns f i \<longrightarrow> (case fo_read fo b f w of (_, _, f', w') \<Rightarrow> view w' = view w \<and> owns f' i)) \<and>
     (\<forall>p f i w. owns f i \<longrightarrow> (case fo_seek fo p f w of (_, f', w') \<Rightarrow> view w' = view w \<and> owns f' i)) \<and>
     (\<forall>f i w. owns f i \<longrightarrow> view (snd (fo_stat fo f w)) = view w) \<and>
     (\<forall>f i w. owns f i \<longrightarrow> (case fo_close fo f w of (_, f', w') \<Rightarrow> view w' = view w)) \<and>
     (\<forall>b f i m w. owns f i \<longrightarrow> mounts_get ms i = Some m \<longrightarrow> \<not> mnt_read_only m \<longrightarrow>
        (case fo_write fo b f w of (_, f', w') \<Rightarrow> view w' = view w \<and> owns f' i)) \<and>
     (\<forall>n f i m w. owns f i \<longrightarrow> mounts_get ms i = Some m \<longrightarrow> \<not> mnt_read_only m \<longrightarrow>
        (case fo_set_len fo n f w of (_, f', w') \<Rightarrow> view w' = view w \<and> owns f' i))"

definition view_law :: "('w \<Rightarrow> 'c) \<Rightarrow> ('f \<Rightarrow> nat \<Rightarrow> bool) \<Rightarrow> ('w, 'f) mounts \<Rightarrow> ('w, 'f) file_ops \<Rightarrow> bool" where
  "view_law view owns ms fo \<longleftrightarrow>
     file_law view owns ms fo \<and>
     (\<forall>i m. mounts_get ms i = Some m \<longrightarrow> mount_law view owns i (mnt_read_only m) (mnt_vfs m))"

section \<open>The invariant\<close>

definition owned_files :: "('f \<Rightarrow> nat \<Rightarrow> bool) \<Rightarrow> 'f desc slab \<Rightarrow> bool" where
  "owned_files owns ds \<longleftrightarrow>
     (\<forall>k d. slab_get ds k = Some d \<longrightarrow> (case d_kind d of KFile f i _ \<Rightarrow> owns f i | _ \<Rightarrow> True))"

definition view_ok ::
  "('w \<Rightarrow> 'c) \<Rightarrow> ('f \<Rightarrow> nat \<Rightarrow> bool) \<Rightarrow> ('w, 'f) mounts \<Rightarrow> ('w, 'f) file_ops \<Rightarrow> 'c \<Rightarrow> ('w, 'f) shared \<Rightarrow> bool" where
  "view_ok view owns ms fo c s \<longleftrightarrow>
     view_law view owns ms fo \<and> sh_mounts s = ms \<and> o_fops (sh_out s) = fo \<and> view (o_world (sh_out s)) = c \<and>
     slab_wf (sh_descs s) \<and> owned_files owns (sh_descs s)"

abbreviation view_inv where
  "view_inv view owns ms fo c s \<equiv> view_ok view owns ms fo c (sh s)"

lemma view_okD:
  assumes "view_ok view owns ms fo c s"
  shows "file_law view owns ms fo" "mounts_get ms i = Some m \<Longrightarrow> mount_law view owns i (mnt_read_only m) (mnt_vfs m)"
    "sh_mounts s = ms" "o_fops (sh_out s) = fo" "view (o_world (sh_out s)) = c"
    "slab_wf (sh_descs s)" "owned_files owns (sh_descs s)"
  using assms by (simp_all add: view_ok_def view_law_def)

lemma owned_filesD:
  "owned_files owns ds \<Longrightarrow> slab_get ds k = Some d \<Longrightarrow> d_kind d = KFile f i c \<Longrightarrow> owns f i"
  by (fastforce simp: owned_files_def)

lemma owned_modify:
  assumes "owned_files owns ds"
    and "\<And>d f i c. slab_get ds k = Some d \<Longrightarrow> d_kind (g d) = KFile f i c \<Longrightarrow> owns f i"
  shows "owned_files owns (slab_modify k g ds)"
  unfolding owned_files_def slab_get_modify
proof (intro allI impI)
  fix j d assume d: "((slab_get ds)(k := map_option g (slab_get ds k))) j = Some d"
  show "case d_kind d of KFile f i _ \<Rightarrow> owns f i | _ \<Rightarrow> True"
    using assms(2) owned_filesD [OF assms(1), of j d] d
    by (cases "d_kind d") (auto split: if_splits)
qed

lemma view_shared:
  assumes "view_ok view owns ms fo c s"
    and "sh_mounts s' = sh_mounts s" "o_fops (sh_out s') = o_fops (sh_out s)"
    "o_world (sh_out s') = o_world (sh_out s)" "sh_descs s' = sh_descs s"
  shows "view_ok view owns ms fo c s'"
  using assms by (simp add: view_ok_def)

lemma view_desc:
  assumes "view_ok view owns ms fo c s"
    and "\<And>d f i c. slab_get (sh_descs s) k = Some d \<Longrightarrow> d_kind (g d) = KFile f i c \<Longrightarrow> owns f i"
  shows "view_ok view owns ms fo c (desc_update k g s)"
proof -
  have "owned_files owns (slab_modify k g (sh_descs s))"
    by (rule owned_modify [OF view_okD(7) [OF assms(1)]]) (rule assms(2))
  then show ?thesis using assms(1) by (simp add: view_ok_def desc_update_def slab_wf_modify)
qed

lemma mount_lawD:
  assumes "mount_law view owns i ro v"
  shows "view (snd (v_stat v p b w)) = view w" "view (snd (v_readlink v p w)) = view w"
    "view (snd (v_readdir v p w)) = view w"
    "\<not> ro \<or> opens_for_reading o' \<Longrightarrow> v_open v p o' w = (r, w') \<Longrightarrow> view w' = view w \<and> (\<forall>f. r = Inr f \<longrightarrow> owns f i)"
  using assms unfolding mount_law_def by (auto dest!: spec [of _ p] spec [of _ o'] spec [of _ w])

lemma file_lawD:
  assumes "file_law view owns ms fo" "owns f i"
  shows "fo_read fo b f w = (r1, b', f1, w1) \<Longrightarrow> view w1 = view w \<and> owns f1 i"
    "fo_seek fo p f w = (r2, f2, w2) \<Longrightarrow> view w2 = view w \<and> owns f2 i"
    "view (snd (fo_stat fo f w)) = view w"
    "fo_close fo f w = (r3, f3, w3) \<Longrightarrow> view w3 = view w"
    "mounts_get ms i = Some m \<Longrightarrow> \<not> mnt_read_only m \<Longrightarrow> fo_write fo b f w = (r4, f4, w4) \<Longrightarrow> view w4 = view w \<and> owns f4 i"
    "mounts_get ms i = Some m \<Longrightarrow> \<not> mnt_read_only m \<Longrightarrow> fo_set_len fo n f w = (r5, f5, w5) \<Longrightarrow> view w5 = view w \<and> owns f5 i"
proof -
  note l = assms(1) [unfolded file_law_def]
  note rd = l [THEN conjunct1, rule_format, OF assms(2), where b = b and w = w]
  note l1 = l [THEN conjunct2]
  note sk = l1 [THEN conjunct1, rule_format, OF assms(2), where p = p and w = w]
  note l2 = l1 [THEN conjunct2]
  note st = l2 [THEN conjunct1, rule_format, OF assms(2), where w = w]
  note l3 = l2 [THEN conjunct2]
  note cl = l3 [THEN conjunct1, rule_format, OF assms(2), where w = w]
  note l4 = l3 [THEN conjunct2]
  show "fo_read fo b f w = (r1, b', f1, w1) \<Longrightarrow> view w1 = view w \<and> owns f1 i" using rd by simp
  show "fo_seek fo p f w = (r2, f2, w2) \<Longrightarrow> view w2 = view w \<and> owns f2 i" using sk by simp
  show "view (snd (fo_stat fo f w)) = view w" by (rule st)
  show "fo_close fo f w = (r3, f3, w3) \<Longrightarrow> view w3 = view w" using cl by simp
  assume m: "mounts_get ms i = Some m" "\<not> mnt_read_only m"
  note wr = l4 [THEN conjunct1, rule_format, OF assms(2) m, where b = b and w = w]
  note sl = l4 [THEN conjunct2, rule_format, OF assms(2) m, where n = n and w = w]
  show "fo_write fo b f w = (r4, f4, w4) \<Longrightarrow> view w4 = view w \<and> owns f4 i" using wr by simp
  show "fo_set_len fo n f w = (r5, f5, w5) \<Longrightarrow> view w5 = view w \<and> owns f5 i" using sl by simp
qed

lemma writable_mount:
  "\<not> is_read_only s i \<longleftrightarrow> (\<exists>m. mounts_get (sh_mounts s) i = Some m \<and> \<not> mnt_read_only m)"
  by (simp add: is_read_only_def split: option.splits)

lemma view_on_shared:
  assumes "\<And>s :: ('w, 'f) shared. view_ok view owns ms fo c s \<Longrightarrow> view_ok view owns ms fo c (f s)"
  shows "keeps (view_inv view owns ms fo c) (on_shared f)"
  by (rule keepsI, unfold on_shared_snd) (simp add: assms)

lemma acquire_outside:
  "sh_mounts (sh (snd (acquire pages n s))) = sh_mounts (sh s)"
  "sh_out (sh (snd (acquire pages n s))) = sh_out (sh s)"
  "sh_descs (sh (snd (acquire pages n s))) = sh_descs (sh s)"
  by (auto simp: acquire_def charge_def grow_def add_grown_def charge_memory_def release_memory_def
      mem_grow_def monad_simps on_exec_snd on_shared_def on_exec_def Let_def)

interpretation view_frame: kernel_frame "view_inv view owns ms fo c" "\<lambda>w w'. view w' = view w" owns
  "file_law view owns ms" "mount_law view owns"
proof
  show "reflp (\<lambda>w w'. view w' = view w)" by (simp add: reflp_def)
  show "transp (\<lambda>w w'. view w' = view w)" by (simp add: transp_def)
  show "keeps (view_inv view owns ms fo c) (acquire pages n)" for pages n
    by (rule keepsI, erule view_shared) (simp_all add: acquire_outside)
  show "keeps (view_inv view owns ms fo c) (on_fds (fdt_set_cloexec fd cloexec))" for fd cloexec
    by (rule keepsI) (auto simp: on_fds_def monad_simps Let_def split: prod.splits sum.splits)
  show "keeps (view_inv view owns ms fo c) (on_exec f9)" for f9
    by (rule keepsI) (simp add: on_exec_snd)
  show "keeps (view_inv view owns ms fo c) (on_task f8)" for f8
    by (rule keepsI) (simp add: on_task_snd)
  show "mount_law view owns i (is_read_only (sh s) i) v"
    if "view_inv view owns ms fo c s" "sh_vfs (sh s) i = Some v" for s i v
    using that view_okD(2,3) [OF that(1)] by (auto simp: sh_vfs_def is_read_only_def)
  show "view w1 = view w \<and> (\<forall>f. r = Inr f \<longrightarrow> owns f i)"
    if "mount_law view owns i ro v" "\<not> ro \<or> opens_for_reading o'" "v_open v p o' w = (r, w1)" for i ro v o' p w r w1
    using mount_lawD(4) [OF that] .
  show "view w' = view w \<and> owns f' m"
    if "view_inv view owns ms fo c s" "owns f m" "\<not> is_read_only (sh s) m" "fo_write (fops_of s) b f w = (r4, f', w')"
    for s f m b w r4 f' w'
    using that file_lawD(5) [OF view_okD(1) [OF that(1)] that(2)] view_okD(3,4) [OF that(1)] by (auto simp: writable_mount)
  show "view w' = view w \<and> owns f' m"
    if "view_inv view owns ms fo c s" "owns f m" "\<not> is_read_only (sh s) m" "fo_set_len (fops_of s) n64 f w = (r5, f', w')"
    for s f m n64 w r5 f' w'
    using that file_lawD(6) [OF view_okD(1) [OF that(1)] that(2)] view_okD(3,4) [OF that(1)] by (auto simp: writable_mount)
  show "view_inv view owns ms fo c (s\<lparr>sh := desc_update k (set_file f') (sh s)\<rparr>)"
    if "view_inv view owns ms fo c s" "slab_get (sh_descs (sh s)) k = Some d" "d_kind d = KFile f m b" "owns f' m"
    for s k d f m b f'
    using that by (auto simp: set_file_def intro!: view_desc)
  show "view_inv view owns ms fo c (s\<lparr>sh := desc_update k (set_kind kind) (sh s)\<rparr>)"
    if "view_inv view owns ms fo c s" "slab_get (sh_descs (sh s)) k = Some d" "same_role (d_kind d) kind"
    for s k d kind
    using that by (auto simp: set_kind_def same_role_def intro!: view_desc)
  show "keeps (view_inv view owns ms fo c) (on_shared (desc_update k f10))"
    if "\<And>d. d_kind (f10 d) = d_kind d \<and> d_refs (f10 d) = d_refs d" for k f10
    by (rule view_on_shared, rule view_desc) (auto simp: that dest: view_okD(7) owned_filesD)
  show "owns f m"
    if "view_inv view owns ms fo c s" "slab_get (sh_descs (sh s)) k = Some d" "d_kind d = KFile f m b"
    for s k d f m b
    using owned_filesD [OF view_okD(7) [OF that(1)] that(2,3)] .
  show "view_inv view owns ms fo c (set_world w s)"
    if "view_inv view owns ms fo c s" "view w = view (world_of s)" for s w
    using that by (simp add: view_ok_def)
  show "keeps (view_inv view owns ms fo c) (on_records f7)" for f7
    unfolding on_records_def by (rule view_on_shared) (simp add: view_ok_def)
  show "view_inv view owns ms fo c (s\<lparr>sh := pipe_update k f (sh s)\<rparr>)" if "view_inv view owns ms fo c s" for s k f
    using that by (simp add: view_ok_def pipe_update_def)
  show "file_law view owns ms (fops_of s)" if "view_inv view owns ms fo c s" for s
    using view_okD(1,4) [OF that] by simp
  show "view (snd (v_stat v p b w)) = view w \<and> view (snd (v_readlink v p w)) = view w \<and>
      view (snd (v_readdir v p w)) = view w" if "mount_law view owns i ro v" for i ro v p b w
    using mount_lawD(1-3) [OF that] by simp
  show "view (snd (v_mkdir v p md1 w)) = view w \<and> view (snd (v_unlink v p w)) = view w \<and>
      view (snd (v_rmdir v p w)) = view w \<and> view (snd (v_rename v p q w)) = view w \<and>
      view (snd (v_symlink v p q w)) = view w \<and> view (snd (v_truncate v p n64 w)) = view w \<and>
      view (snd (v_set_mode v p md1 w)) = view w"
    if "mount_law view owns i False v" for i v p q md1 n64 w
    using that by (simp add: mount_law_def)
  show "view w' = view w \<and> owns f' m"
    if "file_law view owns ms fo" "owns f m" "fo_read fo b f w = (r1, b', f', w')" for fo f m b w r1 b' f' w'
    by (rule file_lawD(1) [OF that])
  show "view w' = view w \<and> owns f' m"
    if "file_law view owns ms fo" "owns f m" "fo_seek fo p f w = (r1, f', w')" for fo f m p w r1 f' w'
    by (rule file_lawD(2) [OF that])
  show "view (snd (fo_stat fo f w)) = view w" if "file_law view owns ms fo" "owns f m" for fo f m w
    by (rule file_lawD(3) [OF that])
  show "view w' = view w"
    if "file_law view owns ms fo" "owns f m" "fo_close fo f w = (r1, f', w')" for fo f m w r1 f' w'
    by (rule file_lawD(4) [OF that])
  show "view_inv view owns ms fo c (s\<lparr>sh := snd (write_output which data (sh s))\<rparr>)"
    if "view_inv view owns ms fo c s" for s which data
    using that by (simp add: view_ok_def write_output_def Let_def)
  show "keeps (view_inv view owns ms fo c) (on_shared (pipe_update k f))" for k f
    by (rule view_on_shared) (simp add: view_ok_def pipe_update_def)
qed (simp_all add: view_ok_def keeps_def on_shared_snd on_records_def)

section \<open>Operations that move descriptors\<close>

lemma view_close_kind:
  assumes s: "view_ok view owns ms fo c s" and k: "\<And>f i b. kind = KFile f i b \<Longrightarrow> owns f i"
  shows "view_ok view owns ms fo c (close_kind kind s)"
proof (cases kind)
  case (KFile f i b)
  obtain r f' w where cl: "fo_close (o_fops (sh_out s)) f (o_world (sh_out s)) = (r, f', w)" by (metis prod_cases3)
  have "view w = view (o_world (sh_out s))"
    using file_lawD(4) [OF view_okD(1) [OF s] k [OF KFile]] cl view_okD(4) [OF s] by simp
  moreover have "close_file f s = s\<lparr>sh_out := (sh_out s)\<lparr>o_world := w\<rparr>\<rparr>" by (simp add: close_file_def cl)
  ultimately show ?thesis using s by (simp add: KFile close_kind_def view_ok_def)
qed (use s in \<open>auto simp: close_kind_def collect_pipe_def pipe_update_def view_ok_def split: option.splits\<close>)

lemma view_release:
  assumes s: "view_ok view owns ms fo c s"
  shows "view_ok view owns ms fo c (release_desc k s)"
proof (cases "slab_get (sh_descs s) k")
  case None
  with s show ?thesis by (simp add: release_desc_def)
next
  case (Some d)
  define s1 where "s1 = desc_update k (\<lambda>d. d\<lparr>d_refs := d_refs d - 1\<rparr>) s"
  have s1: "view_ok view owns ms fo c s1"
    unfolding s1_def by (rule view_desc [OF s]) (auto dest: owned_filesD [OF view_okD(7) [OF s]])
  have "owned_files owns (snd (slab_remove k (sh_descs s1)))"
    using view_okD(7) [OF s1] by (simp add: owned_files_def slab_remove_get)
  then have "view_ok view owns ms fo c (s1\<lparr>sh_descs := snd (slab_remove k (sh_descs s1))\<rparr>)"
    using s1 by (simp add: view_ok_def slab_wf_remove)
  from view_close_kind [OF this, of "d_kind d"] s1 show ?thesis
    using owned_filesD [OF view_okD(7) [OF s] Some] unfolding s1_def
    by (simp add: release_desc_def Some Let_def)
qed

lemma view_releases: "view_ok view owns ms fo c s \<Longrightarrow> view_ok view owns ms fo c (fold release_desc ks s)"
  by (induction ks arbitrary: s) (simp_all add: view_release)

lemma keeps_view_context:
  assumes "\<And>s. sh (snd (m s)) = sh s"
  shows "keeps (view_inv view owns ms fo c) m"
  by (rule keepsI) (simp add: assms)

lemma view_on_fds: "keeps (view_inv view owns ms fo c) (on_fds f)"
  by (rule keeps_view_context) (auto simp: on_fds_def monad_simps Let_def split: prod.splits sum.splits)

lemma view_modify_cx: "keeps (view_inv view owns ms fo c) (modify (cx_update f))"
  by (rule keeps_view_context) (simp add: modify_cx)

lemma view_incref: "keeps (view_inv view owns ms fo c) (incref k :: ('w, 'f, unit) sys)"
  unfolding incref_def
proof (rule view_on_shared)
  fix s :: "('w, 'f) shared" assume s: "view_ok view owns ms fo c s"
  have "sh_descs_update (desc_incref k) s = desc_update k (\<lambda>d. d\<lparr>d_refs := sat_add_u32 (d_refs d) 1\<rparr>) s"
    by (cases s) (simp add: desc_update_def desc_incref_def)
  moreover have "view_ok view owns ms fo c (desc_update k (\<lambda>d. d\<lparr>d_refs := sat_add_u32 (d_refs d) 1\<rparr>) s)"
    by (rule view_desc [OF s]) (auto dest: owned_filesD [OF view_okD(7) [OF s]])
  ultimately show "view_ok view owns ms fo c (sh_descs_update (desc_incref k) s)" by (simp only:)
qed

lemma view_insert_pipe: "keeps (view_inv view owns ms fo c) insert_pipe"
  unfolding insert_pipe_def
  by (intro keeps_bnd keeps_ok_or keeps_run) (auto simp: view_ok_def Let_def split: prod.splits)

lemma view_insert_desc:
  assumes "\<And>f i b. d_kind x = KFile f i b \<Longrightarrow> owns f i"
  shows "keeps (view_inv view owns ms fo c) (insert_desc x :: ('w, 'f, nat) sys)"
  unfolding insert_desc_def
proof (intro keeps_bnd keeps_ok_or keeps_run)
  fix s :: "('w, 'f) st" assume s: "view_inv view owns ms fo c s"
  note wf = view_okD(6) [OF s]
  let ?n = "sat_mul_u64 (limit_files s) 4"
  obtain k ds where i: "slab_insert x ?n (sh_descs (sh s)) = (k, ds)" by fastforce
  have "slab_wf ds" using slab_wf_insert [OF wf, of x ?n] i by simp
  moreover have "owned_files owns ds"
  proof (cases k)
    case None
    then show ?thesis using slab_insert_NoneD [OF wf] i view_okD(7) [OF s] by auto
  next
    case (Some j)
    then have "slab_get ds = (slab_get (sh_descs (sh s)))(j := Some x)" using slab_insert_SomeD [OF wf] i by auto
    then show ?thesis
      using view_okD(7) [OF s] assms by (auto simp: owned_files_def split: desc_kind.splits)
  qed
  ultimately show "view_inv view owns ms fo c (snd (let (k, ds) = slab_insert x ?n (sh_descs (sh s))
      in (k, s\<lparr>sh := (sh s)\<lparr>sh_descs := ds\<rparr>\<rparr>)))"
    using s by (simp add: i view_ok_def)
qed

lemma view_fork:
  "keeps (view_inv view owns ms fo c)
    (run (\<lambda>s. let (p, s') = fork_record (the_task s) (sh s) in (p, s\<lparr>sh := s'\<rparr>)))"
  by (rule keeps_run)
    (auto simp: view_ok_def fork_record_def allocate_pid_def Let_def split: option.splits)

lemma view_increfs: "view_ok view owns ms fo c s \<Longrightarrow> view_ok view owns ms fo c (s\<lparr>sh_descs := fold desc_incref ks (sh_descs s)\<rparr>)"
proof (induction ks arbitrary: s)
  case Nil
  then show ?case by simp
next
  case (Cons k ks)
  have "view_ok view owns ms fo c (desc_update k (\<lambda>d. d\<lparr>d_refs := sat_add_u32 (d_refs d) 1\<rparr>) s)"
    by (rule view_desc [OF Cons.prems]) (auto dest: owned_filesD [OF view_okD(7) [OF Cons.prems]])
  from Cons.IH [OF this] show ?case by (simp add: desc_update_def desc_incref_def)
qed

lemma view_duplicate:
  "keeps (view_inv view owns ms fo c)
    (run (\<lambda>s. let (fds, ds) = fdt_duplicate (t_fds (the_task s)) (sh_descs (sh s)) in
       (fds, s\<lparr>sh := (sh s)\<lparr>sh_descs := ds\<rparr>\<rparr>)))"
  by (rule keeps_run) (simp add: fdt_duplicate_eq view_increfs)

lemmas view_rules = view_on_fds view_modify_cx view_incref view_insert_pipe view_fork view_duplicate
  view_on_shared [OF view_release] view_on_shared [OF view_releases] view_frame.k_to_mem keeps_length
  keeps_kernel_reads

interpretation view_steps: kernel_steps "view_inv view owns ms fo c" "view_inv view owns ms fo c"
  "\<lambda>w w'. view w' = view w" owns "file_law view owns ms" "mount_law view owns"
proof (unfold_locales, unfold keeps_leads [symmetric])
  show "keeps (view_inv view owns ms fo c) (sys_close fd)" for fd
    unfolding sys_close_def by (intro keeps_rules view_rules)
  show "keeps (view_inv view owns ms fo c) (dup_fd fd cloexec lo)" for fd cloexec lo
    unfolding dup_fd_def by (intro keeps_rules view_rules)
  show "keeps (view_inv view owns ms fo c) (sys_dup3 from to flags)" for "from" to flags
    unfolding sys_dup3_def by (intro keeps_rules view_rules)
  show "keeps (view_inv view owns ms fo c) (install_desc (desc_new kind path status) cloexec)"
    if "view_frame.opened owns kind" for kind path status cloexec
  proof -
    have "keeps (view_inv view owns ms fo c) (insert_desc (desc_new kind path status))"
      by (rule view_insert_desc) (use that in \<open>simp add: desc_new_def view_frame.opened_def\<close>)
    then show ?thesis
      unfolding install_desc_def alloc_fd_def by (intro keeps_rules view_rules)
  qed
  show "keeps (view_inv view owns ms fo c) (sys_pipe2 at flags)" for at flags
  proof -
    have "keeps (view_inv view owns ms fo c) (insert_desc (desc_new (KPipeRead p) path status))"
      "keeps (view_inv view owns ms fo c) (insert_desc (desc_new (KPipeWrite p) path status))" for p path status
      by (rule view_insert_desc, simp add: desc_new_def)+
    then show ?thesis
      unfolding sys_pipe2_def alloc_fd_def by (intro keeps_rules view_rules)
  qed
  show "keeps (view_inv view owns ms fo c) (sys_clone flags)" for flags
    unfolding sys_clone_def by (intro keeps_rules view_rules)
  show "keeps (view_inv view owns ms fo c) (sys_exit code)" for code
  proof -
    have "keeps (view_inv view owns ms fo c) (on_shared (release_fds t))"
      "keeps (view_inv view owns ms fo c) (on_shared (set_exit pid n))" for t pid n
      by (rule view_on_shared, simp add: release_fds_def view_releases)
        (rule view_on_shared, simp add: set_exit_def view_ok_def)
    then show ?thesis unfolding sys_exit_def by (intro keeps_rules view_rules)
  qed
  show "keeps (view_inv view owns ms fo c) (finish_exec program exe argv envp)" for program exe argv envp
  proof -
    have "keeps (view_inv view owns ms fo c) (on_task f)" for f
      by (rule keeps_view_context) (simp add: on_task_snd)
    moreover have "keeps (view_inv view owns ms fo c) (on_shared (sh_spawn_update f))" for f
      by (rule view_on_shared) (simp add: view_ok_def)
    ultimately show ?thesis unfolding finish_exec_def by (intro keeps_rules view_rules)
  qed
qed simp

end
