(* ===== verification/Mem_Vfs.thy ===== *)
theory Mem_Vfs
  imports Vfs Rust_Str
begin

text \<open>
  The in-memory filesystem of \<open>vfs/mem.rs\<close>.  A file's bytes are shared between the tree and
  the open handles (\<open>Arc<Mutex<Vec<u8>>>\<close>), so they live in a heap and the tree and the handles
  hold their index.  A directory's \<open>BTreeMap\<close> is an association list kept in key order.  The
  locks never fail: there is one thread and nothing that holds one panics.
\<close>

section \<open>Trees\<close>

datatype mem_node = NDir "(string \<times> mem_node) list" | NFile nat | NLink string

record mem_world =
  mw_root :: mem_node
  mw_heap :: "bytes list"

definition path_parts :: "string \<Rightarrow> string list" where
  "path_parts path = filter (\<lambda>c. c \<noteq> []) (split_on (CHR ''/'') path)"

definition split_parent :: "string \<Rightarrow> string \<times> string" where
  "split_parent path =
     (case rfind (CHR ''/'') path of
        Some 0 \<Rightarrow> (''/'', drop 1 path)
      | Some i \<Rightarrow> (take i path, drop (i + 1) path)
      | None \<Rightarrow> (''/'', path))"

fun node_find :: "mem_node \<Rightarrow> string list \<Rightarrow> mem_node option" where
  "node_find n [] = Some n"
| "node_find (NDir es) (p # ps) = (case map_of es p of Some n \<Rightarrow> node_find n ps | None \<Rightarrow> None)"
| "node_find n (p # ps) = None"

definition find :: "mem_node \<Rightarrow> string \<Rightarrow> mem_node option" where
  "find n path = node_find n (path_parts path)"

text \<open>Writing through the reference \<open>find_mut\<close> returns.\<close>

fun node_write :: "string list \<Rightarrow> mem_node \<Rightarrow> mem_node \<Rightarrow> mem_node" where
  "node_write [] x n = x"
| "node_write (p # ps) x (NDir es) =
     (case map_of es p of Some n \<Rightarrow> NDir (bt_insert p (node_write ps x n) es) | None \<Rightarrow> NDir es)"
| "node_write (p # ps) x n = n"

definition dir_mut :: "mem_node \<Rightarrow> string \<Rightarrow> (string \<times> mem_node) list vfs_result" where
  "dir_mut root path =
     (case find root path of
        Some (NDir es) \<Rightarrow> Inr es
      | Some _ \<Rightarrow> Inl ENOTDIR
      | None \<Rightarrow> Inl ENOENT)"

definition dir_set :: "string \<Rightarrow> (string \<times> mem_node) list \<Rightarrow> mem_node \<Rightarrow> mem_node" where
  "dir_set path es root = node_write (path_parts path) (NDir es) root"

fun make_dirs_at :: "string list \<Rightarrow> mem_node \<Rightarrow> mem_node" where
  "make_dirs_at [] n = n"
| "make_dirs_at (p # ps) (NDir es) =
     NDir (bt_insert p (make_dirs_at ps (case map_of es p of Some c \<Rightarrow> c | None \<Rightarrow> NDir [])) es)"
| "make_dirs_at (p # ps) n = n"

definition make_dirs :: "string \<Rightarrow> mem_node \<Rightarrow> mem_node" where
  "make_dirs path n = make_dirs_at (path_parts path) n"

definition heap_get :: "mem_world \<Rightarrow> nat \<Rightarrow> bytes" where
  "heap_get w i = (case get_at (mw_heap w) i of Some d \<Rightarrow> d | None \<Rightarrow> [])"

definition node_stat :: "mem_world \<Rightarrow> mem_node \<Rightarrow> stat" where
  "node_stat w n =
     (case n of
        NDir _ \<Rightarrow> stat_dir
      | NFile b \<Rightarrow> stat_file (of_nat (length (heap_get w b)))
      | NLink t \<Rightarrow> stat_symlink (of_nat (length t)))"

section \<open>The embedder's view\<close>

definition mem_new :: mem_world where
  "mem_new = \<lparr>mw_root = NDir [], mw_heap = []\<rparr>"

definition mkdir_all :: "string \<Rightarrow> mem_world \<Rightarrow> unit vfs_result \<times> mem_world" where
  "mkdir_all path w = (Inr (), w\<lparr>mw_root := make_dirs path (mw_root w)\<rparr>)"

definition write_file :: "string \<Rightarrow> bytes \<Rightarrow> mem_world \<Rightarrow> unit vfs_result \<times> mem_world" where
  "write_file path contents w =
     (let (parent, name) = split_parent path in
      if name = [] then (Inl EISDIR, w)
      else let root = make_dirs parent (mw_root w); w1 = w\<lparr>mw_root := root\<rparr> in
        case dir_mut root parent of
          Inl e \<Rightarrow> (Inl e, w1)
        | Inr es \<Rightarrow>
            (case map_of es name of
               Some (NFile b) \<Rightarrow> (Inr (), w1\<lparr>mw_heap := (mw_heap w1)[b := contents]\<rparr>)
             | Some _ \<Rightarrow> (Inl EISDIR, w1)
             | None \<Rightarrow>
                 (Inr (), w1\<lparr>mw_root := dir_set parent (bt_insert name (NFile (length (mw_heap w1))) es) root,
                             mw_heap := mw_heap w1 @ [contents]\<rparr>)))"

definition read_file :: "string \<Rightarrow> mem_world \<Rightarrow> bytes vfs_result" where
  "read_file path w =
     (case find (mw_root w) path of
        Some (NFile b) \<Rightarrow> Inr (heap_get w b)
      | Some (NDir _) \<Rightarrow> Inl EISDIR
      | Some (NLink _) \<Rightarrow> Inl ENOENT
      | None \<Rightarrow> Inl ENOENT)"

section \<open>Open files\<close>

record mem_file =
  mf_data :: nat
  mf_pos :: nat
  mf_append :: bool
  mf_writable :: bool

definition mem_read :: "bytes \<Rightarrow> mem_file \<Rightarrow> mem_world \<Rightarrow> nat vfs_result \<times> bytes \<times> mem_file \<times> mem_world" where
  "mem_read buf f w =
     (let data = heap_get w (mf_data f);
          start = min (mf_pos f) (length data);
          src = drop start data;
          n = min (length src) (length buf)
      in (Inr n, take n src @ drop n buf, f\<lparr>mf_pos := sat_add_u64 (mf_pos f) n\<rparr>, w))"

definition mem_write :: "bytes \<Rightarrow> mem_file \<Rightarrow> mem_world \<Rightarrow> nat vfs_result \<times> mem_file \<times> mem_world" where
  "mem_write bs f w =
     (if \<not> mf_writable f then (Inl EBADF, f, w)
      else let data = heap_get w (mf_data f);
               start = (if mf_append f then length data else mf_pos f);
               stop = sat_add_u64 start (length bs);
               data1 = (if length data < stop then resize stop 0 data else data)
        in (case get_range data1 start stop of
              Some _ \<Rightarrow> (Inr (length bs), f\<lparr>mf_pos := stop\<rparr>,
                          w\<lparr>mw_heap := (mw_heap w)[mf_data f := overwrite start bs data1]\<rparr>)
            | None \<Rightarrow> (Inl EIO, f\<lparr>mf_pos := start\<rparr>, w\<lparr>mw_heap := (mw_heap w)[mf_data f := data1]\<rparr>)))"

definition mem_seek :: "seek_from \<Rightarrow> mem_file \<Rightarrow> mem_world \<Rightarrow> u64 vfs_result \<times> mem_file \<times> mem_world" where
  "mem_seek from f w =
     (let len = as_i64 (int (length (heap_get w (mf_data f))));
          target = (case from of
              SeekStart p \<Rightarrow> as_i64 (uint p)
            | SeekEnd d \<Rightarrow> sat_add_i64 len d
            | SeekCurrent d \<Rightarrow> sat_add_i64 (as_i64 (int (mf_pos f))) d)
      in if target < 0 then (Inl EINVAL, f, w)
         else (Inr (as_u64 target), f\<lparr>mf_pos := nat target\<rparr>, w))"

definition mem_file_stat :: "mem_file \<Rightarrow> mem_world \<Rightarrow> stat vfs_result \<times> mem_world" where
  "mem_file_stat f w = (Inr (stat_file (of_nat (length (heap_get w (mf_data f))))), w)"

definition mem_set_len :: "u64 \<Rightarrow> mem_file \<Rightarrow> mem_world \<Rightarrow> unit vfs_result \<times> mem_file \<times> mem_world" where
  "mem_set_len len f w =
     (if \<not> mf_writable f then (Inl EBADF, f, w)
      else (Inr (), f, w\<lparr>mw_heap := (mw_heap w)[mf_data f := resize (unat len) 0 (heap_get w (mf_data f))]\<rparr>))"

definition mem_file_ops :: "(mem_world, mem_file) file_ops" where
  "mem_file_ops =
     \<lparr>fo_read = mem_read, fo_write = mem_write, fo_seek = mem_seek, fo_stat = mem_file_stat,
      fo_set_len = mem_set_len, fo_close = (\<lambda>f w. (Inr (), f, w))\<rparr>"

section \<open>The filesystem's operations\<close>

definition mem_open :: "string \<Rightarrow> open_options \<Rightarrow> mem_world \<Rightarrow> mem_file vfs_result \<times> mem_world" where
  "mem_open path opts w =
     (let (parent, name) = split_parent path;
          finish = (\<lambda>b w'.
            (Inr \<lparr>mf_data = b,
                  mf_pos = (if oo_append opts then length (heap_get w' b) else 0),
                  mf_append = oo_append opts,
                  mf_writable = (oo_write opts \<or> oo_append opts)\<rparr>, w'))
      in
      if name = [] then (Inl EISDIR, w)
      else (case find (mw_root w) path of
          Some (NDir _) \<Rightarrow> (Inl EISDIR, w)
        | Some (NLink _) \<Rightarrow> (Inl ELOOP, w)
        | Some (NFile b) \<Rightarrow>
            if oo_create_new opts then (Inl EEXIST, w)
            else finish b (if oo_truncate opts \<and> oo_write opts
                           then w\<lparr>mw_heap := (mw_heap w)[b := []]\<rparr> else w)
        | None \<Rightarrow>
            if \<not> oo_create opts \<and> \<not> oo_create_new opts then (Inl ENOENT, w)
            else (case dir_mut (mw_root w) parent of
                Inl e \<Rightarrow> (Inl e, w)
              | Inr es \<Rightarrow>
                  let b = length (mw_heap w) in
                  finish b (w\<lparr>mw_root := dir_set parent (bt_insert name (NFile b) es) (mw_root w),
                              mw_heap := mw_heap w @ [[]]\<rparr>))))"

definition trim_end_slashes :: "string \<Rightarrow> string" where
  "trim_end_slashes s = rev (dropWhile (\<lambda>c. c = CHR ''/'') (rev s))"

definition mem_stat :: "string \<Rightarrow> bool \<Rightarrow> mem_world \<Rightarrow> stat vfs_result \<times> mem_world" where
  "mem_stat path follow w =
     (case find (mw_root w) path of
        None \<Rightarrow> (Inl ENOENT, w)
      | Some (NLink target) \<Rightarrow>
          if follow then
            let resolved = (if starts_with ''/'' target then target
                            else trim_end_slashes (fst (split_parent path)) @ ''/'' @ target)
            in (case find (mw_root w) resolved of
                  Some n \<Rightarrow> (Inr (node_stat w n), w)
                | None \<Rightarrow> (Inl ENOENT, w))
          else (Inr (node_stat w (NLink target)), w)
      | Some n \<Rightarrow> (Inr (node_stat w n), w))"

definition mem_readdir :: "string \<Rightarrow> mem_world \<Rightarrow> dir_entry list vfs_result \<times> mem_world" where
  "mem_readdir path w =
     (case find (mw_root w) path of
        Some (NDir es) \<Rightarrow>
          (Inr (map (\<lambda>(name, n).
             \<lparr>de_name = name,
              de_type = Some (case n of NDir _ \<Rightarrow> Dir | NFile _ \<Rightarrow> File | NLink _ \<Rightarrow> Symlink),
              de_ino = 0\<rparr>) es), w)
      | Some _ \<Rightarrow> (Inl ENOTDIR, w)
      | None \<Rightarrow> (Inl ENOENT, w))"

definition mem_mkdir :: "string \<Rightarrow> u32 \<Rightarrow> mem_world \<Rightarrow> unit vfs_result \<times> mem_world" where
  "mem_mkdir path md w =
     (let (parent, name) = split_parent path in
      if name = [] then (Inl EEXIST, w)
      else if find (mw_root w) path \<noteq> None then (Inl EEXIST, w)
      else (case dir_mut (mw_root w) parent of
          Inl e \<Rightarrow> (Inl e, w)
        | Inr es \<Rightarrow> (Inr (), w\<lparr>mw_root := dir_set parent (bt_insert name (NDir []) es) (mw_root w)\<rparr>)))"

definition mem_unlink :: "string \<Rightarrow> mem_world \<Rightarrow> unit vfs_result \<times> mem_world" where
  "mem_unlink path w =
     (let (parent, name) = split_parent path in
      case dir_mut (mw_root w) parent of
        Inl e \<Rightarrow> (Inl e, w)
      | Inr es \<Rightarrow>
          (case map_of es name of
             Some (NDir _) \<Rightarrow> (Inl EISDIR, w)
           | Some _ \<Rightarrow> (Inr (), w\<lparr>mw_root := dir_set parent (bt_remove name es) (mw_root w)\<rparr>)
           | None \<Rightarrow> (Inl ENOENT, w)))"

definition mem_rmdir :: "string \<Rightarrow> mem_world \<Rightarrow> unit vfs_result \<times> mem_world" where
  "mem_rmdir path w =
     (let (parent, name) = split_parent path in
      case dir_mut (mw_root w) parent of
        Inl e \<Rightarrow> (Inl e, w)
      | Inr es \<Rightarrow>
          (case map_of es name of
             Some (NDir inner) \<Rightarrow>
               if inner = [] then (Inr (), w\<lparr>mw_root := dir_set parent (bt_remove name es) (mw_root w)\<rparr>)
               else (Inl ENOTEMPTY, w)
           | Some _ \<Rightarrow> (Inl ENOTDIR, w)
           | None \<Rightarrow> (Inl ENOENT, w)))"

definition mem_rename :: "string \<Rightarrow> string \<Rightarrow> mem_world \<Rightarrow> unit vfs_result \<times> mem_world" where
  "mem_rename from to w =
     (let (from_parent, from_name) = split_parent from;
          (to_parent, to_name) = split_parent to in
      if from_name = [] \<or> to_name = [] then (Inl EINVAL, w)
      else (case dir_mut (mw_root w) from_parent of
          Inl e \<Rightarrow> (Inl e, w)
        | Inr es \<Rightarrow>
            (case map_of es from_name of
               None \<Rightarrow> (Inl ENOENT, w)
             | Some n \<Rightarrow>
                 let root1 = dir_set from_parent (bt_remove from_name es) (mw_root w) in
                 (case dir_mut root1 to_parent of
                    Inr es' \<Rightarrow> (Inr (), w\<lparr>mw_root := dir_set to_parent (bt_insert to_name n es') root1\<rparr>)
                  | Inl e \<Rightarrow>
                      (case dir_mut root1 from_parent of
                         Inr es'' \<Rightarrow>
                           (Inl e, w\<lparr>mw_root := dir_set from_parent (bt_insert from_name n es'') root1\<rparr>)
                       | Inl _ \<Rightarrow> (Inl e, w\<lparr>mw_root := root1\<rparr>))))))"

definition mem_symlink :: "string \<Rightarrow> string \<Rightarrow> mem_world \<Rightarrow> unit vfs_result \<times> mem_world" where
  "mem_symlink target link w =
     (let (parent, name) = split_parent link in
      if name = [] then (Inl EEXIST, w)
      else if find (mw_root w) link \<noteq> None then (Inl EEXIST, w)
      else (case dir_mut (mw_root w) parent of
          Inl e \<Rightarrow> (Inl e, w)
        | Inr es \<Rightarrow> (Inr (), w\<lparr>mw_root := dir_set parent (bt_insert name (NLink target) es) (mw_root w)\<rparr>)))"

definition mem_readlink :: "string \<Rightarrow> mem_world \<Rightarrow> string vfs_result \<times> mem_world" where
  "mem_readlink path w =
     (case find (mw_root w) path of
        Some (NLink target) \<Rightarrow> (Inr target, w)
      | Some _ \<Rightarrow> (Inl EINVAL, w)
      | None \<Rightarrow> (Inl ENOENT, w))"

definition mem_vfs :: "(mem_world, mem_file) vfs" where
  "mem_vfs = (vfs_defaults mem_file_ops mem_open mem_stat mem_readdir)
     \<lparr>v_mkdir := mem_mkdir, v_unlink := mem_unlink, v_rmdir := mem_rmdir, v_rename := mem_rename,
      v_symlink := mem_symlink, v_readlink := mem_readlink, v_has_symlinks := True\<rparr>"

section \<open>Looking does not change the tree or the files\<close>

lemma mem_stat_world [simp]: "snd (mem_stat p b w) = w"
  by (auto simp: mem_stat_def Let_def split: option.splits mem_node.splits)

lemma mem_readdir_world [simp]: "snd (mem_readdir p w) = w"
  by (auto simp: mem_readdir_def split: option.splits mem_node.splits)

lemma mem_readlink_world [simp]: "snd (mem_readlink p w) = w"
  by (auto simp: mem_readlink_def split: option.splits mem_node.splits)

lemma mem_open_reading_world: "opens_for_reading o' \<Longrightarrow> snd (mem_open p o' w) = w"
  by (auto simp: mem_open_def opens_for_reading_def Let_def split: option.splits mem_node.splits prod.splits)

interpretation mq: quiet_fs "\<lambda>w. w" mem_vfs mem_file_ops
proof
  show "quiet_vfs (\<lambda>w. w) mem_vfs"
    by (simp add: quiet_vfs_def mem_vfs_def vfs_defaults_def mem_open_reading_world)
  show "quiet_files (\<lambda>w. w) mem_file_ops"
    by (simp add: quiet_files_def mem_file_ops_def mem_read_def mem_seek_def mem_file_stat_def Let_def)
qed

end
