(* ===== verification/Concrete.thy ===== *)
theory Concrete
  imports Dispatch Mem_Vfs
begin

text \<open>
  A small session to apply the properties to: one process with the three standard streams and
  64 bytes of memory, an empty mount table, and a world in which nothing happens; and the same
  process over two in-memory filesystems, one of them mounted read-only.
\<close>

definition still_files :: "(unit, unit) file_ops" where
  "still_files =
     \<lparr>fo_read = (\<lambda>b f w. (Inr 0, b, f, w)), fo_write = (\<lambda>b f w. (Inl EROFS, f, w)),
      fo_seek = (\<lambda>p f w. (Inr 0, f, w)), fo_stat = (\<lambda>f w. (Inr (stat_file 0), w)),
      fo_set_len = (\<lambda>n f w. (Inl EROFS, f, w)), fo_close = (\<lambda>f w. (Inr (), f, w))\<rparr>"

definition still_world :: "(unit, unit) outside" where
  "still_world =
     \<lparr>o_world = (), o_fops = still_files, o_mono = (\<lambda>n. n), o_wall = (\<lambda>n. n), o_ticks = 0, o_rng = 1,
      o_hash = (\<lambda>_. 0), o_show_secs = (\<lambda>_. ''0'')\<rparr>"

definition std_descs :: "unit desc slab" where
  "std_descs =
     \<lparr>slots = [Some (desc_new KStdin ''/dev/stdin'' O_RDONLY), Some (desc_new (KStdout 1) ''/dev/stdout'' O_WRONLY),
               Some (desc_new (KStdout 2) ''/dev/stderr'' O_WRONLY)],
      free = []\<rparr>"

definition std_fds :: fd_table where
  "std_fds = map (\<lambda>k. Some \<lparr>fd_desc = k, fd_cloexec = False\<rparr>) [0, 1, 2]"

definition one_shared :: "(unit, unit) shared" where
  "one_shared =
     (shared_new [] (overlay_new []) limits_default still_world)
       \<lparr>sh_descs := std_descs, sh_table := [proc_record_new 1 0 1 1 ''init''], sh_next_pid := 2\<rparr>"

definition one_ctx :: ctx where
  "one_ctx =
     \<lparr>c_task = task_new 1 std_fds, c_program = 0, c_argv = [], c_envp = [], c_exec_request = None,
      c_vfork_stack = [], c_exec = exec_state_default\<rparr>"

definition one_guest :: guest where
  "one_guest = \<lparr>g_mem = replicate 64 0, g_sp = 0, g_mode = AsyNormal, g_grants = (\<lambda>_ _. True)\<rparr>"

definition one_process :: "(unit, unit) st" where
  "one_process = \<lparr>sh = one_shared, cx = one_ctx, gs = one_guest\<rparr>"

section \<open>Evaluating a call\<close>

lemmas handle_simps = handle_def handle_process_def handle_signal_def handle_fd_def handle_path_def

lemma entry_value:
  assumes "\<not> ex_rewinding (c_exec (cx s))" "read_words (g_mem (gs s)) at 0 6 = Inr ws"
    and "handle (sint n) (args_of ws) (count_syscall s) = (Inr v, s1)"
  shows "syscall_entry n at s = (as_u32 v, snd (finish s1))"
  using assms by (simp add: syscall_entry_def dispatch_def)

lemma finish_task:
  "t_fds (the_task (snd (finish s))) = t_fds (the_task s)"
  "sh (snd (finish s)) = sh s"
  by (auto simp: finish_def restore_mask_def monad_simps on_exec_def raise_signal_flag_def ignoring_def to_mem_def Let_def split: option.splits prod.splits)

lemma read_zeros: "read_words (replicate 64 0) 0 0 6 = Inr [0, 0, 0, 0, 0, 0]"
proof -
  have z: "le_nat (replicate n 0) = 0" for n by (induction n) simp_all
  have "mem_u32 (replicate 64 0) w = Inr 0" if "unat w \<le> 60" for w :: u32
    using that by (simp add: mem_u32_def mem_slice_def get_range_def u32_le_def z)
  moreover have "(6 :: nat) = Suc (Suc (Suc (Suc (Suc (Suc 0)))))" by simp
  ultimately show ?thesis by (simp only: read_words.simps) simp
qed

section \<open>Two filesystems\<close>

text \<open>A filesystem on a part of a larger world.\<close>

definition on_part :: "('w \<Rightarrow> 'a) \<Rightarrow> ('a \<Rightarrow> 'w \<Rightarrow> 'w) \<Rightarrow> ('a \<Rightarrow> 'r \<times> 'a) \<Rightarrow> 'w \<Rightarrow> 'r \<times> 'w" where
  "on_part get put m w = (let (r, a) = m (get w) in (r, put a w))"

definition part_vfs ::
  "('w \<Rightarrow> 'a) \<Rightarrow> ('a \<Rightarrow> 'w \<Rightarrow> 'w) \<Rightarrow> ('f \<Rightarrow> 'g) \<Rightarrow> ('a, 'f) vfs \<Rightarrow> ('w, 'g) vfs" where
  "part_vfs get put wrap v =
     \<lparr>v_open = (\<lambda>p o'. on_part get put (\<lambda>a. let (r, a') = v_open v p o' a in (map_sum id wrap r, a'))),
      v_stat = (\<lambda>p b. on_part get put (v_stat v p b)), v_readdir = (\<lambda>p. on_part get put (v_readdir v p)),
      v_mkdir = (\<lambda>p m. on_part get put (v_mkdir v p m)), v_unlink = (\<lambda>p. on_part get put (v_unlink v p)),
      v_rmdir = (\<lambda>p. on_part get put (v_rmdir v p)), v_rename = (\<lambda>p q. on_part get put (v_rename v p q)),
      v_symlink = (\<lambda>p q. on_part get put (v_symlink v p q)), v_readlink = (\<lambda>p. on_part get put (v_readlink v p)),
      v_truncate = (\<lambda>p n. on_part get put (v_truncate v p n)), v_has_symlinks = v_has_symlinks v,
      v_set_mode = (\<lambda>p m. on_part get put (v_set_mode v p m))\<rparr>"

abbreviation put_left :: "'a \<Rightarrow> 'a \<times> 'b \<Rightarrow> 'a \<times> 'b" where "put_left a w \<equiv> (a, snd w)"
abbreviation put_right :: "'b \<Rightarrow> 'a \<times> 'b \<Rightarrow> 'a \<times> 'b" where "put_right b w \<equiv> (fst w, b)"

type_synonym two_worlds = "mem_world \<times> mem_world"
type_synonym two_file = "mem_file + mem_file"

definition file_part :: "(mem_file \<Rightarrow> mem_world \<Rightarrow> 'r \<times> mem_file \<times> mem_world) \<Rightarrow>
    two_file \<Rightarrow> two_worlds \<Rightarrow> 'r \<times> two_file \<times> two_worlds" where
  "file_part m f w =
     (case f of
        Inl f \<Rightarrow> (case m f (fst w) of (r, f', a) \<Rightarrow> (r, Inl f', (a, snd w)))
      | Inr f \<Rightarrow> (case m f (snd w) of (r, f', a) \<Rightarrow> (r, Inr f', (fst w, a))))"

definition two_files :: "(two_worlds, two_file) file_ops" where
  "two_files =
     \<lparr>fo_read = (\<lambda>b f w. case file_part (\<lambda>f a. case mem_read b f a of (r, b', f', a') \<Rightarrow> ((r, b'), f', a')) f w of
                 ((r, b'), f', w') \<Rightarrow> (r, b', f', w')),
      fo_write = (\<lambda>b. file_part (mem_write b)), fo_seek = (\<lambda>p. file_part (mem_seek p)),
      fo_stat = (\<lambda>f w. case file_part (\<lambda>f a. case mem_file_stat f a of (r, a') \<Rightarrow> (r, f, a')) f w of (r, f', w') \<Rightarrow> (r, w')),
      fo_set_len = (\<lambda>n. file_part (mem_set_len n)),
      fo_close = (\<lambda>f w. (Inr (), f, w))\<rparr>"

definition two_mounts :: "(two_worlds, two_file) mounts" where
  "two_mounts =
     [\<lparr>mnt_at = ''/ro'', mnt_vfs = part_vfs fst put_left Inl mem_vfs, mnt_read_only = True\<rparr>,
      \<lparr>mnt_at = ''/'', mnt_vfs = part_vfs snd put_right Inr mem_vfs, mnt_read_only = False\<rparr>]"

definition two_process :: "(two_worlds, two_file) st" where
  "two_process =
     \<lparr>sh = shared_new two_mounts (overlay_new []) limits_default
        \<lparr>o_world = (mem_new, mem_new), o_fops = two_files, o_mono = (\<lambda>n. n), o_wall = (\<lambda>n. n), o_ticks = 0,
         o_rng = 1, o_hash = (\<lambda>_. 0), o_show_secs = (\<lambda>_. ''0'')\<rparr>,
      cx = one_ctx\<lparr>c_task := task_new 1 []\<rparr>, gs = one_guest\<rparr>"

end
