(* ===== verification/Safety.thy ===== *)
theory Safety
  imports Read_Only Concrete
begin

text \<open>
  What the reference counts guarantee: no descriptor a guest can reach names a freed description
  or a freed pipe, end of file means that no writer is left, a broken pipe that no reader is.
\<close>

section \<open>Live descriptors\<close>

definition tables :: "('w, 'f) st \<Rightarrow> fd_table set" where
  "tables s =
     insert (t_fds (the_task s))
       (t_fds ` set (c_vfork_stack (cx s)) \<union> (\<lambda>p. t_fds (sp_task p)) ` set (sh_spawn (sh s)))"

text \<open>A description with a reference, whose pipe, if it is an end of one, is there and counts it.\<close>

definition live_desc :: "('w, 'f) shared \<Rightarrow> nat \<Rightarrow> bool" where
  "live_desc s k \<longleftrightarrow>
     (case slab_get (sh_descs s) k of
        None \<Rightarrow> False
      | Some d \<Rightarrow> 0 < d_refs d \<and>
          (case d_kind d of
             KPipeRead p \<Rightarrow> (case slab_get (sh_pipes s) p of Some q \<Rightarrow> 0 < p_readers q | None \<Rightarrow> False)
           | KPipeWrite p \<Rightarrow> (case slab_get (sh_pipes s) p of Some q \<Rightarrow> 0 < p_writers q | None \<Rightarrow> False)
           | _ \<Rightarrow> True))"

lemma entries_pos:
  assumes "slab_get ds k = Some d" "q d"
  shows "0 < entries_with q (slab_get ds)"
  unfolding entries_with_def card_gt_0_iff using assms finite_entries [OF finite_slab] by auto

lemma store_live_desc:
  assumes "store_ok H none none (sh_descs s) (sh_pipes s)" "0 < H k"
  shows "live_desc s k"
proof -
  have ok: "refs_cover H (sh_descs s)" "ends_cover none none (sh_descs s) (sh_pipes s)"
    using assms(1) by (simp_all add: store_ok_def)
  obtain d where d: "slab_get (sh_descs s) k = Some d"
    using refs_coverD(2) [OF ok(1), of k] assms(2) by (cases "slab_get (sh_descs s) k") auto
  have r: "0 < d_refs d" using refs_coverD(1) [OF ok(1) d] assms(2) by simp
  have rd: "\<exists>q. slab_get (sh_pipes s) p = Some q \<and> 0 < p_readers q" if "d_kind d = KPipeRead p" for p
    using entries_pos [of "sh_descs s" k d "reads_pipe p"] ends_coverD [OF ok(2), of p] d that
    by (cases "slab_get (sh_pipes s) p") (auto simp: reads_pipe_def)
  have wr: "\<exists>q. slab_get (sh_pipes s) p = Some q \<and> 0 < p_writers q" if "d_kind d = KPipeWrite p" for p
    using entries_pos [of "sh_descs s" k d "writes_pipe p"] ends_coverD [OF ok(2), of p] d that
    by (cases "slab_get (sh_pipes s) p") (auto simp: writes_pipe_def)
  show ?thesis
    using d r rd wr by (auto simp: live_desc_def split: desc_kind.splits option.splits)
qed

lemma refs_ok_live_desc: "refs_ok ext s \<Longrightarrow> 0 < holders ext s k \<Longrightarrow> live_desc (sh s) k"
  unfolding refs_ok_def by (rule store_live_desc)

lemma holders_table:
  assumes "t \<in> tables s" "0 < fd_refs t k"
  shows "0 < holders ext s k"
proof -
  have le: "task_refs t' k \<le> sum_list (map (\<lambda>t. task_refs t k) ts)" if "t' \<in> set ts" for t' ts
    by (rule member_le_sum_list) (use that in auto)
  have le': "task_refs (sp_task p) k \<le> sum_list (map (\<lambda>p. task_refs (sp_task p) k) ps)" if "p \<in> set ps" for p ps
    by (rule member_le_sum_list) (use that in auto)
  consider "t = t_fds (the_task s)" | t' where "t' \<in> set (c_vfork_stack (cx s))" "t = t_fds t'"
    | p where "p \<in> set (sh_spawn (sh s))" "t = t_fds (sp_task p)"
    using assms(1) by (auto simp: tables_def)
  then show ?thesis
  proof cases
    case 1
    with assms(2) show ?thesis by (simp add: holders_def task_refs_def)
  next
    case 2
    with assms(2) le [OF 2(1)] show ?thesis by (simp add: holders_def task_refs_def)
  next
    case 3
    with assms(2) le' [OF 3(1)] show ?thesis by (simp add: holders_def task_refs_def)
  qed
qed

text \<open>
  C5: However a guest runs (writing its memory and stack, calling any import with any
  arguments), every descriptor of the running task, of its suspended \<open>vfork\<close> parents and of the
  processes waiting to start names a live description, and an end of a pipe a live pipe that
  counts it.  The run starts from a state whose reference counts cover their holders, and no
  count can reach \<open>u32::MAX\<close> on the way.
\<close>
theorem guest_descriptors_live:
  assumes "guest_run (roomy ext) s s'" "refs_ok ext s"
  shows "\<forall>t \<in> tables s'. \<forall>fd e. fdt_get t fd = Inr e \<longrightarrow> live_desc (sh s') (fd_desc e)"
proof (intro ballI allI impI)
  fix t fd e assume t: "t \<in> tables s'" "fdt_get t fd = Inr e"
  have "refs_inv False ext s'"
    by (rule refs_steps.guest_run_keeps [OF assms(1)]) (use assms(2) in \<open>auto simp: refs_inv_def\<close>)
  then have "refs_ok ext s'" by simp
  then show "live_desc (sh s') (fd_desc e)"
    by (rule refs_ok_live_desc) (rule holders_table [OF t(1) fd_refs_pos [OF t(2)]])
qed

definition with_pipe :: "pipe \<Rightarrow> (unit, unit) st" where
  "with_pipe p = one_process\<lparr>sh := one_shared\<lparr>sh_pipes := \<lparr>slots = [Some p], free = []\<rparr>\<rparr>\<rparr>"

lemma holders_one: "holders none one_process k = (if k < 3 then 1 else 0)"
  by (cases "k = 0"; cases "k = 1"; cases "k = 2")
    (auto simp: holders_def task_refs_def one_process_def one_shared_def one_ctx_def shared_new_def task_new_def
      std_fds_def fd_refs_def)

lemma store_one:
  assumes "slab_wf ps" "\<And>k p. slab_get ps k = Some p \<Longrightarrow> length (p_data p) \<le> PIPE_CAPACITY"
  shows "store_ok (holders none one_process) none none std_descs ps"
proof -
  have get: "slab_get std_descs k = (if k < 3 then Some ([desc_new KStdin ''/dev/stdin'' O_RDONLY,
      desc_new (KStdout 1) ''/dev/stdout'' O_WRONLY, desc_new (KStdout 2) ''/dev/stderr'' O_WRONLY] ! k) else None)" for k
    by (cases "k = 0"; cases "k = 1"; cases "k = 2") (auto simp: std_descs_def slab_get_def get_slot_def get_at_def)
  have "refs_cover (holders none one_process) std_descs"
    unfolding refs_cover_def
  proof
    fix k show "case slab_get std_descs k of None \<Rightarrow> holders none one_process k = 0
      | Some d \<Rightarrow> holders none one_process k \<le> d_refs d"
      by (cases "k = 0"; cases "k = 1"; cases "k = 2") (auto simp: get holders_one desc_new_def)
  qed
  moreover have "\<not> (\<exists>d. slab_get std_descs k = Some d \<and> (reads_pipe j d \<or> writes_pipe j d))" for j k
    by (cases "k = 0"; cases "k = 1"; cases "k = 2") (auto simp: get reads_pipe_def writes_pipe_def desc_new_def)
  then have "{k. \<exists>v. slab_get std_descs k = Some v \<and> reads_pipe j v} = {}"
    "{k. \<exists>v. slab_get std_descs k = Some v \<and> writes_pipe j v} = {}" for j by blast+
  then have "entries_with (reads_pipe j) (slab_get std_descs) = 0" "entries_with (writes_pipe j) (slab_get std_descs) = 0" for j
    by (simp_all only: entries_with_def card.empty)
  then have "ends_cover none none std_descs ps"
    using assms(2) by (auto simp: ends_cover_def split: option.splits)
  moreover have "slab_wf std_descs"
    unfolding slab_wf_def std_descs_def by (auto simp: less_Suc_eq numeral_3_eq_3)
  ultimately show ?thesis using assms(1) by (simp add: store_ok_def)
qed

lemma refs_one: "refs_ok none one_process"
  using store_one [OF slab_wf_new]
  by (simp add: refs_ok_def one_process_def one_shared_def shared_new_def)

lemma refs_with_pipe:
  assumes "length (p_data p) \<le> PIPE_CAPACITY"
  shows "refs_ok none (with_pipe p)"
proof -
  have g: "slab_get \<lparr>slots = [Some p], free = []\<rparr> k = (if k = 0 then Some p else None)" for k
    by (cases k) (auto simp: slab_get_def get_slot_def get_at_def)
  have "slab_wf \<lparr>slots = [Some p], free = []\<rparr>" by (auto simp: slab_wf_def nth_Cons')
  then have "store_ok (holders none one_process) none none std_descs \<lparr>slots = [Some p], free = []\<rparr>"
    by (rule store_one) (use assms in \<open>auto simp: g split: if_splits\<close>)
  moreover have "holders none (with_pipe p) = holders none one_process"
    by (simp add: holders_def with_pipe_def one_process_def fun_eq_iff)
  ultimately show ?thesis
    by (simp add: refs_ok_def with_pipe_def one_shared_def)
qed

lemma roomy_one: "roomy none one_process"
proof -
  have "fd_refs std_fds k \<le> 3" for k by (simp add: std_fds_def fd_refs_def ref_of_def)
  then have "2 * holders none one_process k + 1 \<le> U32_MAX" for k
    using le_trans [of "2 * holders none one_process k + 1" 7 U32_MAX]
    by (simp add: holders_def task_refs_def one_process_def one_shared_def one_ctx_def shared_new_def task_new_def)
  then show ?thesis by (simp add: roomy_def)
qed

text \<open>The three standard streams, and a \<open>dup\<close> of the first.\<close>

lemma one_dup:
  "t_fds (the_task (snd (syscall_entry (of_int NR_DUP) 0 one_process))) = std_fds @ [Some \<lparr>fd_desc = 0, fd_cloexec = False\<rparr>]"
proof -
  let ?e = "\<lparr>fd_desc = 0, fd_cloexec = False\<rparr>"
  have g: "fdt_get std_fds 0 = Inr ?e"
    by (simp add: std_fds_def fdt_get_def get_slot_def get_at_def)
  have a: "fdt_alloc ?e 0 256 std_fds = (Inr 3, std_fds @ [Some ?e])"
    by (simp add: std_fds_def fdt_alloc_def fdt_alloc_from.simps get_at_def resize_def as_i32_def)
  have t: "t_fds (the_task one_process) = std_fds" "limit_files one_process = 256"
    by (simp_all add: one_process_def one_ctx_def task_new_def one_shared_def shared_new_def limit_files_def limits_default_def)
  obtain s1 where s1: "dup_fd 0 False 0 (count_syscall one_process) = (Inr 3, s1)" "t_fds (the_task s1) = std_fds @ [Some ?e]"
    using g a t by (simp add: dup_fd_def evals on_fds_eval count_syscall_def limit_files_def)
  have "syscall_entry (of_int NR_DUP) 0 one_process = (as_u32 3, snd (finish s1))"
    by (rule entry_value [where ws = "[0, 0, 0, 0, 0, 0]"])
       (use s1 read_zeros in \<open>simp_all add: handle_simps args_of_def one_process_def one_guest_def one_ctx_def exec_state_default_def\<close>)
  then show ?thesis using s1 by (simp add: finish_task)
qed
theorem guest_descriptors_live_witness:
  "\<exists>e. fdt_get (t_fds (the_task (snd (syscall_entry (of_int NR_DUP) 0 one_process)))) 3 = Inr e
     \<and> live_desc (sh (snd (syscall_entry (of_int NR_DUP) 0 one_process))) (fd_desc e)"
proof -
  let ?s = "snd (syscall_entry (of_int NR_DUP) 0 one_process)"
  have "guest_run (roomy none) one_process ?s"
    by (rule guest_run.step, rule guest_run.start, rule roomy_one) (intro guest_step.call import_step.syscall)
  from guest_descriptors_live [OF this refs_one]
  have live: "live_desc (sh ?s) (fd_desc e)" if "fdt_get (t_fds (the_task ?s)) 3 = Inr e" for e
    using that by (simp add: tables_def)
  have "fdt_get (t_fds (the_task ?s)) 3 = Inr \<lparr>fd_desc = 0, fd_cloexec = False\<rparr>"
    unfolding one_dup by (simp add: fdt_get_def std_fds_def get_slot_def get_at_def)
  then show ?thesis using live by blast
qed

section \<open>Pipes\<close>

lemma pipe_ends_live:
  assumes "refs_ok ext s" "slab_get (sh_pipes (sh s)) k = Some p" "slab_get (sh_descs (sh s)) j = Some d"
  shows "d_kind d = KPipeWrite k \<Longrightarrow> 0 < p_writers p" "d_kind d = KPipeRead k \<Longrightarrow> 0 < p_readers p"
proof -
  have e: "ends_cover none none (sh_descs (sh s)) (sh_pipes (sh s))"
    using assms(1) by (simp add: refs_ok_def store_ok_def)
  show "d_kind d = KPipeWrite k \<Longrightarrow> 0 < p_writers p"
    using ends_coverD(1) [OF e assms(2)] entries_pos [OF assms(3), of "writes_pipe k"] by (simp add: writes_pipe_def)
  show "d_kind d = KPipeRead k \<Longrightarrow> 0 < p_readers p"
    using ends_coverD(1) [OF e assms(2)] entries_pos [OF assms(3), of "reads_pipe k"] by (simp add: reads_pipe_def)
qed

text \<open>
  C28: A read that finds a pipe empty changes nothing.  It reports end of file exactly when the
  pipe counts no writer, and then no description is a write end of it; otherwise the caller
  waits, or is told \<open>EAGAIN\<close>.
\<close>
theorem pipe_end_of_file:
  assumes "refs_ok ext s" "slab_get (sh_pipes (sh s)) k = Some p" "p_data p = []"
  shows "read_pipe k nonblocking staging s =
      (if p_writers p = 0 then Inr (0, staging) else Inl (if nonblocking then FErrno EAGAIN else FBlock), s)
    \<and> (p_writers p = 0 \<longrightarrow> (\<forall>j d. slab_get (sh_descs (sh s)) j = Some d \<longrightarrow> d_kind d \<noteq> KPipeWrite k))"
  using assms pipe_ends_live(1) [OF assms(1,2)] by (auto simp: read_pipe_def evals ok_or_def)

theorem pipe_end_of_file_witness:
  "fst (read_pipe 0 False [7] (with_pipe \<lparr>p_data = [], p_readers = 1, p_writers = 0\<rparr>)) = Inr (0, [7])"
proof -
  let ?p = "\<lparr>p_data = [], p_readers = 1, p_writers = 0\<rparr>"
  have "slab_get (sh_pipes (sh (with_pipe ?p))) 0 = Some ?p"
    by (simp add: with_pipe_def slab_get_def get_slot_def)
  from pipe_end_of_file [OF refs_with_pipe this, of False "[7]"] show ?thesis by simp
qed

text \<open>
  C27: A write to a pipe is refused with \<open>EPIPE\<close>, and the writer signalled, exactly when the
  pipe counts no reader, and then no description is a read end of it.  Otherwise it takes
  at least one byte of a nonempty buffer when there is room, never more than the room, at the end
  of what the pipe holds, and a full pipe makes the caller wait, or is \<open>EAGAIN\<close>.
\<close>
theorem pipe_write:
  assumes "refs_ok ext s" "slab_get (sh_pipes (sh s)) k = Some p" "write_pipe k nonblocking data s = (r, s')"
  shows "if p_readers p = 0 then r = Inl (FErrno EPIPE)
      \<and> sh_table (sh s') = update_record (my_pid s) (raise_sig SIGPIPE) (sh_table (sh s))
      \<and> sh_pipes (sh s') = sh_pipes (sh s)
      \<and> (\<forall>j d. slab_get (sh_descs (sh s)) j = Some d \<longrightarrow> d_kind d \<noteq> KPipeRead k)
    else if length (p_data p) = PIPE_CAPACITY then r = Inl (if nonblocking then FErrno EAGAIN else FBlock) \<and> s' = s
    else \<exists>n. r = Inr n \<and> n \<le> length data \<and> (data \<noteq> [] \<longrightarrow> 0 < n)
      \<and> slab_get (sh_pipes (sh s')) = (slab_get (sh_pipes (sh s)))(k \<mapsto> p\<lparr>p_data := p_data p @ take n data\<rparr>)
      \<and> length (p_data p @ take n data) \<le> PIPE_CAPACITY"
proof -
  have cap: "length (p_data p) \<le> PIPE_CAPACITY"
    using assms(1,2) by (auto simp: refs_ok_def store_ok_def dest: ends_coverD(1))
  consider (none) "p_readers p = 0" | (full) "p_readers p \<noteq> 0" "pipe_room p = 0" | (some) "p_readers p \<noteq> 0" "0 < pipe_room p"
    by blast
  then show ?thesis
  proof cases
    case none
    have "d_kind d \<noteq> KPipeRead k" if "slab_get (sh_descs (sh s)) j = Some d" for j d
      using pipe_ends_live(2) [OF assms(1,2) that] none by auto
    then show ?thesis using assms(2,3) none
      by (auto simp: write_pipe_def evals ok_or_def on_records_def)
  next
    case full
    then have "length (p_data p) = PIPE_CAPACITY" using cap by (simp add: pipe_room_def)
    then show ?thesis using full assms(2,3) by (auto simp: write_pipe_def evals ok_or_def)
  next
    case some
    define n where "n = min (pipe_room p) (length data)"
    have "r = Inr n" "s' = s\<lparr>sh := pipe_update k (\<lambda>p. p\<lparr>p_data := p_data p @ take n data\<rparr>) (sh s)\<rparr>"
      using some assms(2,3) by (auto simp: write_pipe_def evals ok_or_def Let_def n_def)
    moreover have "length (p_data p) \<noteq> PIPE_CAPACITY" using some by (simp add: pipe_room_def)
    ultimately show ?thesis
      using some assms(2) by (auto simp: slab_get_modify n_def pipe_room_def)
  qed
qed

theorem pipe_write_witness:
  "\<exists>n. fst (write_pipe 0 False [1, 2] (with_pipe \<lparr>p_data = [9], p_readers = 2, p_writers = 2\<rparr>)) = Inr n \<and> 0 < n \<and> n \<le> 2"
proof -
  let ?p = "\<lparr>p_data = [9], p_readers = 2, p_writers = 2\<rparr>"
  have g: "slab_get (sh_pipes (sh (with_pipe ?p))) 0 = Some ?p"
    by (simp add: with_pipe_def slab_get_def get_slot_def)
  obtain r s' where w: "write_pipe 0 False [1, 2] (with_pipe ?p) = (r, s')" by fastforce
  show ?thesis
    using pipe_write [OF refs_with_pipe g w] by (auto simp: w)
qed

section \<open>Limits\<close>

text \<open>
  C6: However a guest runs, the session stays within its limits: the memory charged, the bytes
  each output stream retains, the length of the descriptor tables, the descriptions and pipes
  there can be, and the number of live processes.  The guest's memory is what it started with
  plus what was charged for it, so it cannot outgrow the session's memory limit either.
\<close>
theorem guest_within_limits:
  assumes "guest_run (\<lambda>_. True) s s'" "limits_ok l base others s"
  shows "sh_memory_used (sh s') \<le> lim_memory l \<and> length (g_mem (gs s')) + others \<le> base + lim_memory l
    \<and> length (ob_data (sh_stdout (sh s'))) \<le> lim_output l \<and> length (ob_data (sh_stderr (sh s'))) \<le> lim_output l
    \<and> length (t_fds (the_task s')) \<le> lim_open_files l
    \<and> live_count (sh_table (sh s')) \<le> max 1 (lim_processes l)
    \<and> slab_len (sh_descs (sh s')) \<le> 4 * lim_open_files l \<and> slab_len (sh_pipes (sh s')) \<le> lim_open_files l"
proof -
  have "limits_ok l base others s'" by (rule limits_steps.guest_run_keeps [OF assms])
  then show ?thesis by (auto simp: limits_ok_def slab_len_def sat_mul_u64_def)
qed

lemma slots_slab_new: "slots slab_new = []"
  by (simp add: slab_new_def)

lemma limits_one: "limits_ok limits_default 64 0 one_process"
proof -
  have "slab_wf std_descs" using store_okD(1) [OF store_one [OF slab_wf_new]] by simp
  moreover have "length (slots std_descs) = 3"
    by (simp add: std_descs_def)
  ultimately show ?thesis
    by (simp add: limits_ok_def one_process_def one_shared_def one_ctx_def one_guest_def shared_new_def
        limits_default_def exec_state_default_def output_empty_def task_new_def std_fds_def
        live_count_def slab_wf_new slots_slab_new sat_mul_u64_def)
qed

theorem guest_within_limits_witness:
  "sh_memory_used (sh (snd (syscall_entry (of_int NR_BRK) 0 one_process))) \<le> 268435456"
proof -
  have "guest_run (\<lambda>_. True) one_process (snd (syscall_entry (of_int NR_BRK) 0 one_process))"
    by (rule guest_run.step, rule guest_run.start, rule TrueI) (intro guest_step.call import_step.syscall)
  from guest_within_limits [OF this limits_one] show ?thesis by (simp add: limits_default_def)
qed

section \<open>Read-only mounts\<close>

text \<open>
  C7: However a guest runs, what the read-only mounts show does not change: \<open>view\<close> is any
  function of the world that looking, opening for reading, reading and the operations of the
  writable mounts leave alone.  No system call of any argument reaches an operation of a
  read-only mount that could change it, nor writes through a handle opened there.
\<close>
theorem guest_keeps_read_only:
  assumes "guest_run (\<lambda>_. True) s s'" "view_law view owns (sh_mounts (sh s)) (fops_of s)"
    and "slab_wf (sh_descs (sh s))" "owned_files owns (sh_descs (sh s))"
  shows "view (world_of s') = view (world_of s)"
proof -
  have "view_inv view owns (sh_mounts (sh s)) (fops_of s) (view (world_of s)) s"
    using assms(2-) by (simp add: view_ok_def)
  from view_steps.guest_run_keeps [OF assms(1) this] show ?thesis by (simp add: view_ok_def)
qed

definition two_owns :: "two_file \<Rightarrow> nat \<Rightarrow> bool" where
  "two_owns f i \<longleftrightarrow> (case f of Inl _ \<Rightarrow> i = 0 | Inr _ \<Rightarrow> i = 1)"

lemma part_view:
  "snd (m (fst w)) = fst w \<Longrightarrow> fst (snd (on_part fst put_left m w)) = fst w"
  "fst (snd (on_part snd put_right n v)) = fst v"
  by (auto simp: on_part_def Let_def split: prod.splits)

lemma on_part_wraps:
  "fst (on_part get put (\<lambda>a. case m a of (r, a') \<Rightarrow> (map_sum id wrap r, a')) w) = Inr f \<Longrightarrow> \<exists>g. f = wrap g"
  by (auto simp: on_part_def Let_def map_sum_def split: prod.splits sum.splits)

lemma mem_open_looking:
  "opens_for_reading o' \<Longrightarrow> snd (case mem_open p o' a of (r, a') \<Rightarrow> (map_sum id Inl r, a')) = a"
  using mem_open_reading_world [of o' p a] by (auto split: prod.splits)

lemma two_mount_law:
  "mount_law fst two_owns 0 True (part_vfs fst put_left Inl mem_vfs)"
  "mount_law fst two_owns 1 False (part_vfs snd put_right Inr mem_vfs)"
proof -
  show "mount_law fst two_owns 0 True (part_vfs fst put_left Inl mem_vfs)"
    unfolding mount_law_def part_vfs_def mem_vfs_def vfs_defaults_def
    by (auto simp: part_view(1) mem_open_looking two_owns_def dest!: on_part_wraps)
  show "mount_law fst two_owns 1 False (part_vfs snd put_right Inr mem_vfs)"
    unfolding mount_law_def part_vfs_def by (auto simp: part_view(2) two_owns_def dest!: on_part_wraps)
qed

lemma two_mounts_get: "mounts_get two_mounts i = Some m \<longleftrightarrow> i < 2 \<and> m = two_mounts ! i"
proof -
  have "length two_mounts = 2" by (simp add: two_mounts_def)
  then show ?thesis by (auto simp: mounts_get_def get_at_def)
qed

lemma two_mounts_nth:
  "two_mounts ! 0 = \<lparr>mnt_at = ''/ro'', mnt_vfs = part_vfs fst put_left Inl mem_vfs, mnt_read_only = True\<rparr>"
  "two_mounts ! 1 = \<lparr>mnt_at = ''/'', mnt_vfs = part_vfs snd put_right Inr mem_vfs, mnt_read_only = False\<rparr>"
  by (simp_all add: two_mounts_def)

lemma two_law: "view_law fst two_owns two_mounts two_files"
proof -
  have ro: "mnt_read_only m \<longleftrightarrow> i = 0" if "mounts_get two_mounts i = Some m" for i m
    using that two_mounts_nth by (cases "i = 0"; cases "i = 1") (auto simp: two_mounts_get)
  have "file_law fst two_owns two_mounts two_files"
    unfolding file_law_def
    by (auto simp: two_files_def file_part_def two_owns_def mem_read_def mem_seek_def mem_file_stat_def Let_def ro
        split: sum.splits prod.splits if_splits)
  moreover have "mount_law fst two_owns i (mnt_read_only m) (mnt_vfs m)" if "mounts_get two_mounts i = Some m" for i m
    using that two_mount_law two_mounts_nth by (cases "i = 0"; cases "i = 1") (auto simp: two_mounts_get)
  ultimately show ?thesis by (simp add: view_law_def)
qed

theorem guest_keeps_read_only_witness:
  "fst (world_of (snd (syscall_entry (of_int NR_MKDIRAT) 0 two_process))) = mem_new"
proof -
  have r: "guest_run (\<lambda>_. True) two_process (snd (syscall_entry (of_int NR_MKDIRAT) 0 two_process))"
    by (rule guest_run.step, rule guest_run.start, rule TrueI) (intro guest_step.call import_step.syscall)
  have "fst (world_of (snd (syscall_entry (of_int NR_MKDIRAT) 0 two_process))) = fst (world_of two_process)"
    by (rule guest_keeps_read_only [OF r, where owns = two_owns])
      (simp_all add: two_process_def shared_new_def two_law slab_wf_new owned_files_def)
  then show ?thesis by (simp add: two_process_def shared_new_def)
qed

end
