(* ===== verification/Engine.thy ===== *)
theory Engine
  imports Kernel_State
begin

text \<open>
  What runs a program (\<open>engine/mod.rs\<close>) and the commands the embedder implements (\<open>host.rs\<close>).
  The engines themselves, wasmi and the code \<open>wasm2c\<close> produces, are not part of the repository:
  an instance is its memory, stack pointer and Asyncify state (\<open>guest\<close>) with a code state the
  engine keeps (\<open>'k\<close>), and running it is a function the scheduler is given.
\<close>

section \<open>Loading and running\<close>

datatype load_error =
    NotFound string
  | NotWasm
  | MissingExport string
  | AbiMismatch nat nat
  | EngineError string
  | OutOfMemory

fun show_load_error :: "load_error \<Rightarrow> string" where
  "show_load_error (NotFound name) = ''no such program: '' @ name"
| "show_load_error NotWasm = ''not a wasm module''"
| "show_load_error (MissingExport name) = ''module does not export '' @ name"
| "show_load_error (AbiMismatch found expected) =
     ''guest ABI '' @ show_nat found @ '' is not the '' @ show_nat expected @ '' this build speaks''"
| "show_load_error (EngineError msg) = msg"
| "show_load_error OutOfMemory = ''out of memory''"

fun load_errno :: "load_error \<Rightarrow> errno" where
  "load_errno (NotFound _) = ENOENT"
| "load_errno OutOfMemory = ENOMEM"
| "load_errno _ = ENOEXEC"

datatype trap_kind = OutOfBounds | Exhaustion | TrapFault

fun trap_text :: "trap_kind \<Rightarrow> string" where
  "trap_text OutOfBounds = ''out of bounds memory access''"
| "trap_text Exhaustion = ''call stack exhausted''"
| "trap_text TrapFault = ''illegal instruction''"

datatype run_exit = Returned | Trap trap_kind

text \<open>What the two engines make of what went wrong: the text of an error, or a trap code.\<close>

fun contains :: "string \<Rightarrow> string \<Rightarrow> bool" where
  "contains [] part = starts_with part []"
| "contains (c # text) part = (starts_with part (c # text) \<or> contains text part)"

definition classify :: "string \<Rightarrow> trap_kind" where
  "classify text =
     (if contains text ''out of bounds'' then OutOfBounds
      else if contains text ''call stack exhausted'' \<or> contains text ''stack overflow'' then Exhaustion
      else TrapFault)"

definition trap_kind_of :: "(int \<Rightarrow> int) \<Rightarrow> int \<Rightarrow> trap_kind option" where
  "trap_kind_of trap_class code =
     (if code = 0 then None
      else let c = trap_class code in
        if c = 0 then None
        else if c = 1 then Some OutOfBounds
        else if c = 2 then Some Exhaustion
        else Some TrapFault)"

section \<open>Host commands\<close>

record invocation =
  iv_argv :: "bytes list"
  iv_envp :: "bytes list"
  iv_cwd :: string
  iv_stdin :: bytes

definition invocation_args :: "invocation \<Rightarrow> string list" where
  "invocation_args call = map from_utf8_lossy (iv_argv call)"

definition invocation_name :: "invocation \<Rightarrow> string" where
  "invocation_name call = from_utf8_lossy (case iv_argv call of [] \<Rightarrow> [] | a # _ \<Rightarrow> a)"

text \<open>The first entry that starts with \<open>KEY=\<close>.\<close>

fun find_stripped :: "bytes \<Rightarrow> bytes list \<Rightarrow> bytes option" where
  "find_stripped p [] = None"
| "find_stripped p (e # es) = (case strip_prefix p e of Some v \<Rightarrow> Some v | None \<Rightarrow> find_stripped p es)"

definition invocation_env :: "string \<Rightarrow> invocation \<Rightarrow> string option" where
  "invocation_env key call = map_option from_utf8_lossy (find_stripped (as_bytes (key @ ''='')) (iv_envp call))"

record host_exit =
  he_status :: int
  he_stdout :: bytes
  he_stderr :: bytes

definition from_stdout :: "bytes \<Rightarrow> host_exit" where
  "from_stdout bs = \<lparr>he_status = 0, he_stdout = bs, he_stderr = []\<rparr>"

definition host_failed :: "int \<Rightarrow> bytes \<Rightarrow> host_exit" where
  "host_failed status message = \<lparr>he_status = status, he_stdout = [], he_stderr = message\<rparr>"

text \<open>A command of the embedder: it acts on the world outside the kernel.\<close>

record 'w host_command =
  hc_run :: "invocation \<Rightarrow> 'w \<Rightarrow> host_exit vfs_result \<times> 'w"
  hc_reads_stdin :: "bytes list \<Rightarrow> bool"

text \<open>
  A program of the session.  Instantiating an image is the engine's business and may come out
  differently each time; it is given the number of clock readings so far.
\<close>

datatype ('w, 'k) program_kind =
    GuestProgram "nat \<Rightarrow> load_error + guest \<times> 'k"
  | HostProgram "'w host_command"

record ('w, 'k) program_entry =
  pe_name :: string
  pe_kind :: "('w, 'k) program_kind"

section \<open>Facts\<close>

lemma invocation_env_first:
  assumes "\<And>e. e \<in> set es \<Longrightarrow> strip_prefix (as_bytes (key @ ''='')) e = None"
  shows "invocation_env key \<lparr>iv_argv = a, iv_envp = es @ as_bytes (key @ ''='' @ v) # fs, iv_cwd = c, iv_stdin = i\<rparr>
    = Some (from_utf8_lossy (as_bytes v))"
proof -
  have p: "strip_prefix p (p @ q) = Some q" for p q :: bytes by (induction p) simp_all
  have "find_stripped p (es @ e # fs) = strip_prefix p e"
    if "\<And>e. e \<in> set es \<Longrightarrow> strip_prefix p e = None" "strip_prefix p e \<noteq> None" for p e
    using that by (induction es) (auto split: option.splits)
  from this [of "as_bytes (key @ ''='')" "as_bytes (key @ ''='' @ v)"]
  show ?thesis using assms p [of "as_bytes (key @ ''='')" "as_bytes v"]
    by (simp add: invocation_env_def as_bytes_def)
qed

end
