(* ===== verification/Scheduler.thy ===== *)
theory Scheduler
  imports Dispatch Engine
begin

text \<open>
  The scheduler (\<open>Kernel\<close> of \<open>kernel/mod.rs\<close>): starting processes, advancing each one until it
  can go no further, tearing them down, and telling the caller why nothing runs.

  The engine is a parameter: \<open>eng k s\<close> runs the code state \<open>k\<close> of an instance from the state
  \<open>s\<close> and says how the call ended, with the code state and the state it leaves, or \<open>None\<close> when the
  guest never comes back.  What may not return is an option: a guest that loops, a host command
  reading an endless file, the run loop.  The table of programs, which only the scheduler
  reads, is kept beside \<open>Shared\<close>.
\<close>

type_synonym ('w, 'f, 'k) engine = "'k \<Rightarrow> ('w, 'f) st \<Rightarrow> (run_exit \<times> 'k \<times> ('w, 'f) st) option"

datatype resume = Fresh | Rewind | Retry int args

datatype phase = Reading bytes | Flushing int bytes bytes nat nat

record 'w host_proc =
  hp_command :: "'w host_command"
  hp_reads_stdin :: bool
  hp_phase :: phase

datatype ('w, 'k) body = GuestBody guest 'k | HostBody "'w host_proc"

record ('w, 'k) proc =
  pc_ctx :: ctx
  pc_body :: "('w, 'k) body"
  pc_resume :: resume
  pc_charged :: nat
  pc_parked :: bool

datatype idle = IdleHost | IdleVfs | IdleStdin | IdleUntil nat | Deadlock

datatype slice = Finished int | Idle idle | BudgetSpent

datatype proc_step = Ran | Stuck | Ended int | Replaced

record ('w, 'f, 'k) kernel =
  k_shared :: "('w, 'f) shared"
  k_programs :: "('w, 'k) program_entry list"
  k_procs :: "('w, 'k) proc list"
  k_exit :: "int option"

definition kernel_new ::
  "('w, 'f) mounts \<Rightarrow> overlay \<Rightarrow> ('w, 'k) program_entry list \<Rightarrow> limits \<Rightarrow> ('w, 'f) outside \<Rightarrow> ('w, 'f, 'k) kernel" where
  "kernel_new ms ov programs lim out =
     \<lparr>k_shared = shared_new ms ov lim out, k_programs = programs, k_procs = [], k_exit = None\<rparr>"

definition set_terminal :: "u16 \<Rightarrow> u16 \<Rightarrow> ('w, 'f, 'k) kernel \<Rightarrow> ('w, 'f, 'k) kernel" where
  "set_terminal c r K = K\<lparr>k_shared := (k_shared K)\<lparr>sh_terminal := Some (terminal_new c r)\<rparr>\<rparr>"

definition terminal_raw :: "('w, 'f, 'k) kernel \<Rightarrow> bool" where
  "terminal_raw K = (case sh_terminal (k_shared K) of Some t \<Rightarrow> termios_raw (tio t) | None \<Rightarrow> False)"

definition terminal_signals :: "('w, 'f, 'k) kernel \<Rightarrow> bool" where
  "terminal_signals K = (case sh_terminal (k_shared K) of Some t \<Rightarrow> termios_signals (tio t) | None \<Rightarrow> False)"

definition processes :: "('w, 'f, 'k) kernel \<Rightarrow> nat" where
  "processes K = length (k_procs K)"

section \<open>Starting a process\<close>

definition comm_of :: "bytes list \<Rightarrow> string" where
  "comm_of argv = (case argv of [] \<Rightarrow> [] | a # _ \<Rightarrow> from_utf8_lossy a)"

text \<open>A process that could not be started gives back the descriptors it was handed.\<close>

definition abandon :: "fd_table \<Rightarrow> ('w, 'f, 'k) kernel \<Rightarrow> ('w, 'f, 'k) kernel" where
  "abandon fds K = K\<lparr>k_shared := release_fds fds (k_shared K)\<rparr>"

definition new_ctx :: "spawn \<Rightarrow> ctx" where
  "new_ctx p =
     \<lparr>c_task = reset_handlers_for_exec ((sp_task p)\<lparr>t_exe := sp_exe p, t_comm := comm_of (sp_argv p)\<rparr>),
      c_program = sp_program p, c_argv = sp_argv p, c_envp = sp_envp p, c_exec_request = None,
      c_vfork_stack = [], c_exec = exec_state_default\<rparr>"

definition push_proc :: "('w, 'k) proc \<Rightarrow> ('w, 'f, 'k) kernel \<Rightarrow> ('w, 'f, 'k) kernel" where
  "push_proc p K = K\<lparr>k_procs := k_procs K @ [p]\<rparr>"

text \<open>The scratch area for saved stacks, at the top of the new instance's memory.\<close>

definition start_guest :: "ctx \<Rightarrow> guest \<Rightarrow> 'k \<Rightarrow> ('w, 'f, 'k) kernel \<Rightarrow> load_error option \<times> ('w, 'f, 'k) kernel" where
  "start_guest c g k K =
     (let charge = sat_add_u64 (length (g_mem g)) (sat_mul_u64 ASYNCIFY_PAGES PAGE) in
      case charge_memory charge (k_shared K) of
        (False, s) \<Rightarrow> (Some OutOfMemory, abandon (t_fds (c_task c)) (K\<lparr>k_shared := s\<rparr>))
      | (True, s) \<Rightarrow>
          (case mem_grow ASYNCIFY_PAGES g of
             (Some old, g') \<Rightarrow>
               (None, push_proc
                  \<lparr>pc_ctx = c\<lparr>c_exec := (c_exec c)\<lparr>ex_asyncify_data := of_nat (sat_mul_u64 old PAGE)\<rparr>\<rparr>,
                   pc_body = GuestBody g' k, pc_resume = Fresh, pc_charged = charge, pc_parked = False\<rparr>
                  (K\<lparr>k_shared := s\<rparr>))
           | (None, _) \<Rightarrow>
               (Some OutOfMemory, abandon (t_fds (c_task c)) (K\<lparr>k_shared := release_memory charge s\<rparr>))))"

definition start :: "spawn \<Rightarrow> ('w, 'f, 'k) kernel \<Rightarrow> load_error option \<times> ('w, 'f, 'k) kernel" where
  "start p K =
     (let c = new_ctx p in
      case get_at (k_programs K) (sp_program p) of
        None \<Rightarrow> (Some NotWasm, abandon (t_fds (c_task c)) K)
      | Some entry \<Rightarrow>
          (case pe_kind entry of
             HostProgram command \<Rightarrow>
               (None, push_proc
                  \<lparr>pc_ctx = c,
                   pc_body = HostBody \<lparr>hp_command = command, hp_reads_stdin = hc_reads_stdin command (c_argv c),
                                       hp_phase = Reading []\<rparr>,
                   pc_resume = Fresh, pc_charged = 0, pc_parked = False\<rparr> K)
           | GuestProgram instantiate \<Rightarrow>
               (case instantiate (o_ticks (sh_out (k_shared K))) of
                  Inl e \<Rightarrow> (Some e, abandon (t_fds (c_task c)) K)
                | Inr (g, k) \<Rightarrow> start_guest c g k K)))"

text \<open>The descriptors of the first process.\<close>

fun open_stdio ::
  "('f desc_kind \<times> string \<times> u32) list \<Rightarrow> fd_table \<Rightarrow> ('w, 'f) shared \<Rightarrow> (load_error + fd_table) \<times> ('w, 'f) shared" where
  "open_stdio [] fds s = (Inr fds, s)"
| "open_stdio ((kind, path, flags) # rest) fds s =
     (case slab_insert (desc_new kind path flags) (sat_mul_u64 (lim_open_files (sh_limits s)) 4) (sh_descs s) of
        (None, ds) \<Rightarrow> (Inl OutOfMemory, s\<lparr>sh_descs := ds\<rparr>)
      | (Some key, ds) \<Rightarrow>
          open_stdio rest (snd (fdt_alloc \<lparr>fd_desc = key, fd_cloexec = False\<rparr> 0 (lim_open_files (sh_limits s)) fds))
            (s\<lparr>sh_descs := ds\<rparr>))"

definition spawn_first ::
  "nat \<Rightarrow> string \<Rightarrow> bytes list \<Rightarrow> bytes list \<Rightarrow> string \<Rightarrow> ('w, 'f, 'k) kernel \<Rightarrow> load_error option \<times> ('w, 'f, 'k) kernel" where
  "spawn_first program exe argv envp cwd K =
     (let (pid, s1) = allocate_pid (k_shared K) in
      case open_stdio [(KStdin, ''/dev/stdin'', O_RDONLY), (KStdout 1, ''/dev/stdout'', O_WRONLY),
                       (KStdout 2, ''/dev/stderr'', O_WRONLY)] fdt_new s1 of
        (Inl e, s2) \<Rightarrow> (Some e, K\<lparr>k_shared := s2\<rparr>)
      | (Inr fds, s2) \<Rightarrow>
          start \<lparr>sp_task = (task_new pid fds)\<lparr>t_cwd := cwd\<rparr>, sp_program = program, sp_exe = exe, sp_argv = argv,
                 sp_envp = envp\<rparr>
            (K\<lparr>k_shared := s2\<lparr>sh_table := sh_table s2 @ [proc_record_new pid 0 pid pid (comm_of argv)]\<rparr>\<rparr>))"

section \<open>Ending a process\<close>

definition remove_at :: "nat \<Rightarrow> 'a list \<Rightarrow> 'a list" where
  "remove_at i xs = take i xs @ drop (Suc i) xs"

text \<open>The \<open>vfork\<close> children still inside an instance die with it, the last one first.\<close>

fun finish_children :: "task \<Rightarrow> task list \<Rightarrow> ('w, 'f) shared \<Rightarrow> task \<times> ('w, 'f) shared" where
  "finish_children t [] s = (t, s)"
| "finish_children t (parent # rest) s =
     finish_children parent rest (set_exit (t_pid t) (status_signaled SIGKILL) (release_fds (t_fds t) s))"

definition finish_process :: "nat \<Rightarrow> int \<Rightarrow> ('w, 'f, 'k) kernel \<Rightarrow> ('w, 'f, 'k) kernel" where
  "finish_process i status K =
     (case get_at (k_procs K) i of
        None \<Rightarrow> K
      | Some p \<Rightarrow>
          let c = pc_ctx p;
              s1 = release_memory (sat_add_u64 (pc_charged p) (ex_grown (c_exec c))) (k_shared K);
              (t, s2) = finish_children (c_task c) (c_vfork_stack c) s1;
              s3 = set_exit (t_pid t) status (release_fds (t_fds t) s2);
              procs = remove_at i (k_procs K)
          in K\<lparr>k_shared := s3, k_procs := procs,
               k_exit := (if (t_pid t = 1 \<or> procs = []) \<and> k_exit K = None then Some status else k_exit K)\<rparr>)"

fun kill_procs :: "nat \<Rightarrow> int \<Rightarrow> ('w, 'f, 'k) kernel \<Rightarrow> ('w, 'f, 'k) kernel" where
  "kill_procs 0 status K = K"
| "kill_procs (Suc n) status K = kill_procs n status (finish_process 0 status K)"

definition or_exit :: "int \<Rightarrow> ('w, 'f, 'k) kernel \<Rightarrow> int" where
  "or_exit status K = (case k_exit K of Some v \<Rightarrow> v | None \<Rightarrow> status)"

definition kill_all :: "int \<Rightarrow> ('w, 'f, 'k) kernel \<Rightarrow> ('w, 'f, 'k) kernel" where
  "kill_all status K =
     (let K' = kill_procs (length (k_procs K)) status K in K'\<lparr>k_exit := Some (or_exit status K')\<rparr>)"

text \<open>\<open>execve\<close> in a process that was not a \<open>vfork\<close> child: a new instance in its place.\<close>

definition replace_instance :: "nat \<Rightarrow> ('w, 'f, 'k) kernel \<Rightarrow> proc_step \<times> ('w, 'f, 'k) kernel" where
  "replace_instance i K =
     (case get_at (k_procs K) i of
        None \<Rightarrow> (Stuck, K)
      | Some p \<Rightarrow>
          (case c_exec_request (pc_ctx p) of
             None \<Rightarrow> (Ended (status_exited 126), K)
           | Some request \<Rightarrow>
               let charged = sat_add_u64 (pc_charged p) (ex_grown (c_exec (pc_ctx p)));
                   K1 = K\<lparr>k_procs := remove_at i (k_procs K), k_shared := release_memory charged (k_shared K)\<rparr>
               in case start request K1 of
                    (None, K2) \<Rightarrow>
                      (Replaced, K2\<lparr>k_procs :=
                         (case rev (k_procs K2) of
                            [] \<Rightarrow> []
                          | new # others \<Rightarrow>
                              (let ps = rev others; j = min i (length ps) in take j ps @ [new] @ drop j ps))\<rparr>)
                  | (Some _, K2) \<Rightarrow>
                      (Stuck, K2\<lparr>k_shared := set_exit (t_pid (sp_task request)) (status_exited 126) (k_shared K2)\<rparr>)))"

section \<open>The saved stack\<close>

text \<open>The header's first word is the end of what is saved.\<close>

definition read_asyncify_stack :: "bytes \<Rightarrow> u32 \<Rightarrow> bytes" where
  "read_asyncify_stack m data =
     (let start = unat data in
      case get_range m start (start + 8) of
        None \<Rightarrow> []
      | Some header \<Rightarrow>
          (let e = unat (u32_le (take 4 header)) in
           if e \<le> start then []
           else (case get_range m start e of Some bs \<Rightarrow> bs | None \<Rightarrow> [])))"

definition write_asyncify_stack :: "bytes \<Rightarrow> u32 \<Rightarrow> bytes \<Rightarrow> bytes option" where
  "write_asyncify_stack m data snapshot =
     (let start = unat data in
      case get_range m start (start + length snapshot) of
        Some _ \<Rightarrow> Some (overwrite start snapshot m)
      | None \<Rightarrow> None)"

section \<open>Advancing a guest\<close>

definition put_guest ::
  "nat \<Rightarrow> ('w, 'k) proc \<Rightarrow> 'k \<Rightarrow> ('w, 'f) st \<Rightarrow> ('w, 'f, 'k) kernel \<Rightarrow> ('w, 'f, 'k) kernel" where
  "put_guest i p k s K =
     K\<lparr>k_shared := sh s, k_procs := (k_procs K)[i := p\<lparr>pc_ctx := cx s, pc_body := GuestBody (gs s) k\<rparr>]\<rparr>"

text \<open>\<open>_start\<close> came back: the program is done, or an import unwound its stack.\<close>

definition after_return :: "nat \<Rightarrow> ('w, 'f, 'k) kernel \<Rightarrow> proc_step \<times> ('w, 'f, 'k) kernel" where
  "after_return i K =
     (case get_at (k_procs K) i of
        None \<Rightarrow> (Stuck, K)
      | Some p \<Rightarrow>
          (case ex_suspension (c_exec (pc_ctx p)) of
             None \<Rightarrow> (Ended (status_exited 0), K)
           | Some suspension \<Rightarrow>
               (case pc_body p of
                  HostBody _ \<Rightarrow> (Stuck, K)
                | GuestBody g k \<Rightarrow>
                    let e = (c_exec (pc_ctx p))\<lparr>ex_suspension := None\<rparr>;
                        g1 = g\<lparr>g_mode := AsyNormal\<rparr>;
                        data = ex_asyncify_data e;
                        put = (\<lambda>e g r. K\<lparr>k_procs := (k_procs K)[i :=
                          p\<lparr>pc_ctx := (pc_ctx p)\<lparr>c_exec := e\<rparr>, pc_body := GuestBody g k, pc_resume := r\<rparr>]\<rparr>)
                    in (case suspension of
                          Setjmp env sp \<Rightarrow>
                            (Ran, put (e\<lparr>ex_jmp_bufs := (ex_jmp_bufs e)(env \<mapsto> (read_asyncify_stack (g_mem g) data, sp)),
                                         ex_resume_value := 0, ex_resume_sp := sp\<rparr>) g1 Rewind)
                        | Longjmp env v \<Rightarrow>
                            (case ex_jmp_bufs e env of
                               None \<Rightarrow> (Ended (status_signaled SIGSEGV), put e g1 (pc_resume p))
                             | Some (snapshot, sp) \<Rightarrow>
                                 (case write_asyncify_stack (g_mem g) data snapshot of
                                    None \<Rightarrow> (Ended (status_signaled SIGSEGV), put e g1 (pc_resume p))
                                  | Some m \<Rightarrow>
                                      (Ran, put (e\<lparr>ex_resume_value := v, ex_resume_sp := sp\<rparr>) (g1\<lparr>g_mem := m\<rparr>) Rewind)))
                        | SysBlocked number args \<Rightarrow> (Ran, put e g1 (Retry number args))
                        | SysExit status \<Rightarrow> (Ended status, put e g1 (pc_resume p))
                        | SysExec \<Rightarrow> replace_instance i (put e g1 (pc_resume p))))))"

definition trap_message :: "string \<Rightarrow> trap_kind \<Rightarrow> string" where
  "trap_message comm kind = ''wasmux: '' @ comm @ '': '' @ trap_text kind @ [CHR 0x0A]"

text \<open>Entering the guest, at its start or where a rewind takes it.\<close>

definition enter_guest ::
  "('w, 'f, 'k) engine \<Rightarrow> nat \<Rightarrow> ('w, 'k) proc \<Rightarrow> 'k \<Rightarrow> ('w, 'f) st \<Rightarrow> ('w, 'f, 'k) kernel \<Rightarrow>
   (proc_step \<times> ('w, 'f, 'k) kernel) option" where
  "enter_guest eng i p k s K =
     (case eng k s of
        None \<Rightarrow> None
      | Some (Returned, k', s') \<Rightarrow> Some (after_return i (put_guest i p k' s' K))
      | Some (Trap kind, k', s') \<Rightarrow>
          (let out = sh s';
               message = as_bytes (trap_message (t_comm (the_task s')) kind);
               out' = out\<lparr>sh_stderr := output_push message (lim_output (sh_limits out)) (sh_stderr out)\<rparr>
           in Some (Ended (status_signaled SIGSEGV), put_guest i p k' (s'\<lparr>sh := out'\<rparr>) K)))"

definition rewind_with :: "int option \<Rightarrow> ('w, 'f) st \<Rightarrow> ('w, 'f) st" where
  "rewind_with v s =
     (let e = c_exec (cx s);
          e1 = (case v of Some n \<Rightarrow> e\<lparr>ex_resume_value := n\<rparr> | None \<Rightarrow> e)
      in s\<lparr>cx := (cx s)\<lparr>c_exec := e1\<lparr>ex_rewinding := True\<rparr>\<rparr>,
           gs := (gs s)\<lparr>g_mode := AsyRewinding (ex_asyncify_data e)\<rparr>\<rparr>)"

definition step_guest ::
  "('w, 'f, 'k) engine \<Rightarrow> nat \<Rightarrow> ('w, 'k) proc \<Rightarrow> guest \<Rightarrow> 'k \<Rightarrow> ('w, 'f, 'k) kernel \<Rightarrow>
   (proc_step \<times> ('w, 'f, 'k) kernel) option" where
  "step_guest eng i p g k K =
     (let s = \<lparr>sh = k_shared K, cx = pc_ctx p, gs = g\<rparr>;
          p1 = p\<lparr>pc_resume := Fresh\<rparr>
      in case pc_resume p of
           Fresh \<Rightarrow> enter_guest eng i p1 k s K
         | Rewind \<Rightarrow> enter_guest eng i p1 k (rewind_with None s) K
         | Retry number args \<Rightarrow>
             (case dispatch number args s of
                (OBlocked, s1) \<Rightarrow> Some (Stuck, put_guest i p k s1 K)
              | (OExit status, s1) \<Rightarrow> Some (Ended status, put_guest i p1 k s1 K)
              | (OExec, s1) \<Rightarrow> Some (replace_instance i (put_guest i p1 k s1 K))
              | (OValue v, s1) \<Rightarrow> enter_guest eng i p1 k (rewind_with (Some v) s1) K))"

section \<open>Advancing a host command\<close>

text \<open>The state a command's reads and writes run in: its context, and no guest.\<close>

definition no_guest :: guest where
  "no_guest = \<lparr>g_mem = [], g_sp = 0, g_mode = AsyNormal, g_grants = (\<lambda>_ _. False)\<rparr>"

definition put_host ::
  "nat \<Rightarrow> ('w, 'k) proc \<Rightarrow> 'w host_proc \<Rightarrow> ('w, 'f) st \<Rightarrow> ('w, 'f, 'k) kernel \<Rightarrow> ('w, 'f, 'k) kernel" where
  "put_host i p h s K =
     K\<lparr>k_shared := sh s, k_procs := (k_procs K)[i := p\<lparr>pc_ctx := cx s, pc_body := HostBody h\<rparr>]\<rparr>"

text \<open>Reading to end of file, 8192 bytes at a time: whether it must wait, and what was read.\<close>

partial_function (option) drain_stdin ::
  "bytes \<Rightarrow> bytes \<Rightarrow> ('w, 'f) st \<Rightarrow> (bool \<times> bytes \<times> ('w, 'f) st) option" where
  "drain_stdin buffer chunk s =
     (case read_bytes 0 chunk s of
        (Inr (n, chunk'), s') \<Rightarrow>
          if n = 0 then Some (False, buffer, s')
          else drain_stdin (buffer @ (case get_range chunk' 0 n of Some bs \<Rightarrow> bs | None \<Rightarrow> [])) chunk' s'
      | (Inl f, s') \<Rightarrow> Some (f = FBlock, buffer, s'))"

text \<open>Writing from \<open>at\<close> on: whether it must wait, and how far it got.\<close>

function flush_stream :: "int \<Rightarrow> bytes \<Rightarrow> nat \<Rightarrow> ('w, 'f) st \<Rightarrow> bool \<times> nat \<times> ('w, 'f) st" where
  "flush_stream fd bs at s =
     (if length bs \<le> at then (False, at, s)
      else case write_bytes fd (drop at bs) s of
          (Inr n, s') \<Rightarrow> if n = 0 then (False, at, s') else flush_stream fd bs (at + n) s'
        | (Inl f, s') \<Rightarrow> (f = FBlock, at, s'))"
  by pat_completeness auto
termination by (relation "measure (\<lambda>(fd, bs, at, s). length bs - at)") auto

declare flush_stream.simps [simp del]

text \<open>Standard output first, then standard error, each resumable where it stopped.\<close>

definition flush_output ::
  "nat \<Rightarrow> ('w, 'k) proc \<Rightarrow> 'w host_proc \<Rightarrow> ('w, 'f) st \<Rightarrow> ('w, 'f, 'k) kernel \<Rightarrow> proc_step \<times> ('w, 'f, 'k) kernel" where
  "flush_output i p h s K =
     (case hp_phase h of
        Reading _ \<Rightarrow> (Stuck, put_host i p h s K)
      | Flushing status out errs out_at err_at \<Rightarrow>
          (case flush_stream 1 out out_at s of
             (True, o1, s1) \<Rightarrow>
               (Stuck, put_host i p (h\<lparr>hp_phase := Flushing status out errs o1 err_at\<rparr>) s1 K)
           | (False, o1, s1) \<Rightarrow>
               (case flush_stream 2 errs err_at s1 of
                  (w, e1, s2) \<Rightarrow>
                    (if w then Stuck else Ended status,
                     put_host i p (h\<lparr>hp_phase := Flushing status out errs o1 e1\<rparr>) s2 K))))"

definition invoke :: "'w host_command \<Rightarrow> invocation \<Rightarrow> ('w, 'f) st \<Rightarrow> host_exit vfs_result \<times> ('w, 'f) st" where
  "invoke command call s =
     (let (r, w) = hc_run command call (o_world (sh_out (sh s)))
      in (r, s\<lparr>sh := (sh s)\<lparr>sh_out := (sh_out (sh s))\<lparr>o_world := w\<rparr>\<rparr>\<rparr>))"

definition run_command ::
  "nat \<Rightarrow> ('w, 'k) proc \<Rightarrow> 'w host_proc \<Rightarrow> bytes \<Rightarrow> ('w, 'f) st \<Rightarrow> ('w, 'f, 'k) kernel \<Rightarrow> proc_step \<times> ('w, 'f, 'k) kernel" where
  "run_command i p h buffer s K =
     (let c = cx s;
          call = \<lparr>iv_argv = c_argv c, iv_envp = c_envp c, iv_cwd = t_cwd (c_task c), iv_stdin = buffer\<rparr>
      in case invoke (hp_command h) call s of
           (Inr e, s1) \<Rightarrow>
             flush_output i p (h\<lparr>hp_phase := Flushing (status_exited (he_status e AND 255)) (he_stdout e) (he_stderr e) 0 0\<rparr>)
               s1 K
         | (Inl e, s1) \<Rightarrow>
             (if e = EAGAIN
              then (Stuck, put_host i p (h\<lparr>hp_phase := Reading buffer\<rparr>) (s1\<lparr>sh := (sh s1)\<lparr>sh_host_pending := True\<rparr>\<rparr>) K)
              else flush_output i p (h\<lparr>hp_phase := Flushing (status_exited 126) []
                     (as_bytes (''wasmux: '' @ t_comm (c_task c) @ '': '' @ errno_name e @ [CHR 0x0A])) 0 0\<rparr>) s1 K))"

definition step_host ::
  "nat \<Rightarrow> ('w, 'k) proc \<Rightarrow> 'w host_proc \<Rightarrow> ('w, 'f, 'k) kernel \<Rightarrow> (proc_step \<times> ('w, 'f, 'k) kernel) option" where
  "step_host i p h K =
     (let s = \<lparr>sh = k_shared K, cx = pc_ctx p, gs = no_guest\<rparr> in
      case hp_phase h of
        Flushing _ _ _ _ _ \<Rightarrow> Some (flush_output i p h s K)
      | Reading buffer \<Rightarrow>
          if hp_reads_stdin h then
            (case drain_stdin buffer (replicate 8192 0) s of
               None \<Rightarrow> None
             | Some (True, buffer', s1) \<Rightarrow> Some (Stuck, put_host i p (h\<lparr>hp_phase := Reading buffer'\<rparr>) s1 K)
             | Some (False, buffer', s1) \<Rightarrow> Some (run_command i p h buffer' s1 K))
          else Some (run_command i p h buffer s K))"

definition step_process ::
  "('w, 'f, 'k) engine \<Rightarrow> nat \<Rightarrow> ('w, 'f, 'k) kernel \<Rightarrow> (proc_step \<times> ('w, 'f, 'k) kernel) option" where
  "step_process eng i K =
     (case get_at (k_procs K) i of
        None \<Rightarrow> Some (Stuck, K)
      | Some p \<Rightarrow>
          if pc_parked p then Some (Stuck, K)
          else (case pc_body p of
              HostBody h \<Rightarrow> step_host i p h K
            | GuestBody g k \<Rightarrow> step_guest eng i p g k K))"

section \<open>The run loop\<close>

record budget =
  bg_syscalls :: "nat option"
  bg_duration :: "nat option"

definition budget_unlimited :: budget where
  "budget_unlimited = \<lparr>bg_syscalls = None, bg_duration = None\<rparr>"

definition budget_syscalls :: "nat \<Rightarrow> budget" where
  "budget_syscalls n = \<lparr>bg_syscalls = Some n, bg_duration = None\<rparr>"

definition budget_duration :: "nat \<Rightarrow> budget" where
  "budget_duration d = \<lparr>bg_syscalls = None, bg_duration = Some d\<rparr>"

text \<open>\<open>Instant::now()\<close>, and the time since the session started.\<close>

definition read_clock :: "('w, 'f, 'k) kernel \<Rightarrow> nat \<times> ('w, 'f, 'k) kernel" where
  "read_clock K =
     (let out = sh_out (k_shared K)
      in (o_mono out (o_ticks out), K\<lparr>k_shared := (k_shared K)\<lparr>sh_out := out\<lparr>o_ticks := o_ticks out + 1\<rparr>\<rparr>\<rparr>))"

definition budget_spent :: "budget \<Rightarrow> nat \<Rightarrow> ('w, 'f, 'k) kernel \<Rightarrow> bool \<times> ('w, 'f, 'k) kernel" where
  "budget_spent b served K =
     (if (case bg_syscalls b of Some limit \<Rightarrow> limit \<le> served | None \<Rightarrow> False) then (True, K)
      else case bg_duration b of
          Some limit \<Rightarrow> (let (t, K') = read_clock K in (limit \<le> t - sh_started (k_shared K), K'))
        | None \<Rightarrow> (False, K))"

text \<open>Processes made by a \<open>vfork\<close> and an \<open>execve\<close> get an instance of their own.\<close>

fun start_pending :: "spawn list \<Rightarrow> ('w, 'f, 'k) kernel \<Rightarrow> ('w, 'f, 'k) kernel" where
  "start_pending [] K = K"
| "start_pending (p # ps) K =
     (case start p K of
        (None, K1) \<Rightarrow> start_pending ps K1
      | (Some _, K1) \<Rightarrow>
          start_pending ps (K1\<lparr>k_shared := set_exit (t_pid (sp_task p)) (status_exited 126) (k_shared K1)\<rparr>))"

definition start_spawned :: "('w, 'f, 'k) kernel \<Rightarrow> ('w, 'f, 'k) kernel" where
  "start_spawned K = start_pending (sh_spawn (k_shared K)) (K\<lparr>k_shared := (k_shared K)\<lparr>sh_spawn := []\<rparr>\<rparr>)"

definition wall_clock_deadline :: "('w, 'f, 'k) kernel \<Rightarrow> nat option" where
  "wall_clock_deadline K =
     (case lim_wall_clock (sh_limits (k_shared K)) of
        None \<Rightarrow> None
      | Some budget \<Rightarrow> instant_add (sh_started (k_shared K)) budget)"

definition past_deadline :: "('w, 'f, 'k) kernel \<Rightarrow> bool \<times> ('w, 'f, 'k) kernel" where
  "past_deadline K =
     (case wall_clock_deadline K of
        None \<Rightarrow> (False, K)
      | Some limit \<Rightarrow> (let (t, K') = read_clock K in (limit \<le> t, K')))"

definition park :: "nat \<Rightarrow> ('w, 'f, 'k) kernel \<Rightarrow> ('w, 'f, 'k) kernel" where
  "park i K =
     (case get_at (k_procs K) i of
        None \<Rightarrow> K
      | Some p \<Rightarrow> K\<lparr>k_procs := (k_procs K)[i := p\<lparr>pc_parked := True\<rparr>]\<rparr>)"

definition unpark_all :: "('w, 'f, 'k) kernel \<Rightarrow> ('w, 'f, 'k) kernel" where
  "unpark_all K = K\<lparr>k_procs := map (\<lambda>p. p\<lparr>pc_parked := False\<rparr>) (k_procs K)\<rparr>"

text \<open>Whether the step from \<open>K\<close> to \<open>K'\<close> asked to be retried later.\<close>

definition waits_outside :: "('w, 'f, 'k) kernel \<Rightarrow> ('w, 'f, 'k) kernel \<Rightarrow> bool" where
  "waits_outside K K' \<longleftrightarrow>
     sh_vfs_pending (k_shared K') \<and> \<not> sh_vfs_pending (k_shared K) \<or>
     sh_host_pending (k_shared K') \<and> \<not> sh_host_pending (k_shared K)"

text \<open>One pass over the processes from \<open>i\<close> on: the end of the session, or whether anything ran.\<close>

partial_function (option) run_pass ::
  "('w, 'f, 'k) engine \<Rightarrow> nat \<Rightarrow> bool \<Rightarrow> ('w, 'f, 'k) kernel \<Rightarrow> ((int + bool) \<times> ('w, 'f, 'k) kernel) option" where
  "run_pass eng i progressed K =
     (if length (k_procs K) \<le> i then Some (Inr progressed, K)
      else case step_process eng i K of
          None \<Rightarrow> None
        | Some (step, K1) \<Rightarrow>
            (let K2 = (if waits_outside K K1 then park i K1 else K1) in
             case step of
               Ran \<Rightarrow> run_pass eng (i + 1) True K2
             | Stuck \<Rightarrow> run_pass eng (i + 1) progressed K2
             | Replaced \<Rightarrow> run_pass eng (i + 1) True K2
             | Ended status \<Rightarrow>
                 (let K3 = finish_process i status K2 in
                  case k_exit K3 of
                    Some v \<Rightarrow> Some (Inl v, K3)
                  | None \<Rightarrow> run_pass eng i True K3)))"

fun earliest_wake :: "proc_record list \<Rightarrow> nat option \<Rightarrow> nat option" where
  "earliest_wake [] e = e"
| "earliest_wake (r # rs) e =
     earliest_wake rs
       (case pr_wake_at r of
          None \<Rightarrow> e
        | Some when \<Rightarrow> Some (case e of Some current \<Rightarrow> if current \<le> when then current else when | None \<Rightarrow> when))"

text \<open>Nothing ran: what the caller has to do about it.\<close>

definition why_idle :: "('w, 'f, 'k) kernel \<Rightarrow> idle \<times> ('w, 'f, 'k) kernel" where
  "why_idle K =
     (let s = k_shared K in
      if sh_vfs_pending s then (IdleVfs, K\<lparr>k_shared := s\<lparr>sh_vfs_pending := False\<rparr>\<rparr>)
      else if sh_host_pending s then (IdleHost, K\<lparr>k_shared := s\<lparr>sh_host_pending := False\<rparr>\<rparr>)
      else
        (case earliest_wake (sh_table s) None of
           Some when \<Rightarrow> IdleUntil when
         | None \<Rightarrow> if si_wanted (sh_stdin s) \<and> \<not> si_closed (sh_stdin s) then IdleStdin else Deadlock, K))"

partial_function (option) run_loop ::
  "('w, 'f, 'k) engine \<Rightarrow> budget \<Rightarrow> nat \<Rightarrow> ('w, 'f, 'k) kernel \<Rightarrow> (slice \<times> ('w, 'f, 'k) kernel) option" where
  "run_loop eng b start_syscalls K =
     (case past_deadline (start_spawned K) of
        (late, K1) \<Rightarrow>
          if late then
            Some (Finished (or_exit (status_signaled SIGKILL) (kill_all (status_signaled SIGKILL) K1)),
                  kill_all (status_signaled SIGKILL) K1)
          else
            (case run_pass eng 0 False K1 of
               None \<Rightarrow> None
             | Some (Inl status, K2) \<Rightarrow> Some (Finished status, K2)
             | Some (Inr progressed, K2) \<Rightarrow>
                 if k_procs K2 = [] then Some (Finished (or_exit 0 K2), K2)
                 else if \<not> progressed then (case why_idle K2 of (w, K3) \<Rightarrow> Some (Idle w, K3))
                 else (case budget_spent b (sh_syscalls (k_shared K2) - start_syscalls) K2 of
                     (spent, K3) \<Rightarrow> if spent then Some (BudgetSpent, K3) else run_loop eng b start_syscalls K3)))"

definition kernel_run ::
  "('w, 'f, 'k) engine \<Rightarrow> budget \<Rightarrow> ('w, 'f, 'k) kernel \<Rightarrow> (slice \<times> ('w, 'f, 'k) kernel) option" where
  "kernel_run eng b K = run_loop eng b (sh_syscalls (k_shared K)) (unpark_all K)"

end
