(* ===== verification/Session_Frame.thy ===== *)
theory Session_Frame
  imports Scheduler Kernel_Steps
begin

text \<open>
  What it takes for a predicate on a whole session to survive the scheduler.  The locale
  \<open>session_frame\<close> relates a predicate \<open>I\<close> on the kernel to a family \<open>J\<close> of predicates on the state
  one process runs in: \<open>fits x K xs p ys\<close> says that a state satisfying \<open>J x\<close> can be put back
  for the process \<open>p\<close> between \<open>xs\<close> and \<open>ys\<close>.  Inside it every step of the scheduler, and \<open>run\<close>, is
  shown to keep \<open>I\<close>, once.
\<close>

text \<open>
  The engine runs a guest: memory writes and calls of the six imports, in any order.  The guest
  does not grow its memory itself.
\<close>

definition engine_ok :: "('w, 'f, 'k) engine \<Rightarrow> bool" where
  "engine_ok eng \<longleftrightarrow> (\<forall>k s x k' s'. eng k s = Some (x, k', s') \<longrightarrow> guest_run (\<lambda>_. True) s s')"

lemma engine_okD: "engine_ok eng \<Longrightarrow> eng k s = Some (x, k', s') \<Longrightarrow> guest_run (\<lambda>_. True) s s'"
  by (auto simp: engine_ok_def)

text \<open>Reading and writing descriptors leave the guest alone.\<close>

abbreviation at_guest :: "guest \<Rightarrow> ('w, 'f) st \<Rightarrow> bool" where "at_guest g s \<equiv> gs s = g"

lemma at_guest_on_shared: "keeps (at_guest g) (on_shared f)"
  by (rule keepsI) (simp add: on_shared_snd)

lemma keeps_at_guest:
  "keeps (at_guest g) (on_shared f)" "keeps (at_guest g) (on_records h)" "keeps (at_guest g) (or_vfs_fault r)"
  "keeps (at_guest g) (file_op key file oper)" "keeps (at_guest g) now_since_epoch" "keeps (at_guest g) (get_fd n)"
  "keeps (at_guest g) (get_desc k)"
proof -
  show "keeps (at_guest g) (on_records h)" unfolding on_records_def by (rule at_guest_on_shared)
  show "keeps (at_guest g) (or_vfs_fault r)"
    unfolding or_vfs_fault_def vfs_fault_def by (intro keeps_rules at_guest_on_shared)
  show "keeps (at_guest g) (file_op key file oper)"
    by (rule keepsI) (simp add: file_op_def run_def Let_def split: prod.splits)
  show "keeps (at_guest g) now_since_epoch"
    by (rule keepsI) (simp add: now_since_epoch_def run_def Let_def)
qed (rule at_guest_on_shared keeps_kernel_reads)+

lemma read_bytes_guest: "keeps (at_guest g) (read_bytes fd staging)"
  unfolding read_bytes_def read_memory_def read_stdin_def read_pipe_def file_read_def fill_random_def Let_def
  by (intro keeps_rules keeps_at_guest)

lemma write_bytes_guest: "keeps (at_guest g) (write_bytes fd data)"
  unfolding write_bytes_def write_pipe_def Let_def
  by (intro keeps_rules keeps_at_guest keeps_run) (auto split: prod.splits)

lemma split_at: "i < length ps \<Longrightarrow> \<exists>xs ys. ps = xs @ (ps ! i) # ys \<and> length xs = i"
  by (rule exI [of _ "take i ps"], rule exI [of _ "drop (Suc i) ps"]) (simp add: id_take_nth_drop)

lemma get_at_split:
  assumes "get_at ps i = Some p"
  obtains xs ys where "ps = xs @ p # ys" "length xs = i"
  using assms split_at [of i ps] that by (auto simp: get_at_def split: if_splits)

locale session_frame =
  fixes I :: "('w, 'f, 'k) kernel \<Rightarrow> bool"
    and J :: "'x \<Rightarrow> ('w, 'f) st \<Rightarrow> bool"
    and fits :: "'x \<Rightarrow> ('w, 'f, 'k) kernel \<Rightarrow> ('w, 'k) proc list \<Rightarrow> ('w, 'k) proc \<Rightarrow> ('w, 'k) proc list \<Rightarrow> bool"
    and command_ok :: "'w host_command \<Rightarrow> bool"
  assumes take_guest: "I K \<Longrightarrow> k_procs K = xs @ p # ys \<Longrightarrow> pc_body p = GuestBody g k \<Longrightarrow>
      \<exists>x. J x \<lparr>sh = k_shared K, cx = pc_ctx p, gs = g\<rparr> \<and> fits x K xs p ys"
    and put_back_guest: "fits x K xs p ys \<Longrightarrow> J x s \<Longrightarrow> pc_body p = GuestBody g k \<Longrightarrow>
      I (K\<lparr>k_shared := sh s, k_procs := xs @ p\<lparr>pc_ctx := cx s, pc_body := GuestBody (gs s) k', pc_resume := r\<rparr> # ys\<rparr>)"
    and take_host: "I K \<Longrightarrow> k_procs K = xs @ p # ys \<Longrightarrow> pc_body p = HostBody h \<Longrightarrow>
      command_ok (hp_command h) \<and> (\<exists>x. J x \<lparr>sh = k_shared K, cx = pc_ctx p, gs = no_guest\<rparr> \<and> fits x K xs p ys)"
    and put_back_host: "fits x K xs p ys \<Longrightarrow> J x s \<Longrightarrow> gs s = no_guest \<Longrightarrow> pc_body p = HostBody h \<Longrightarrow>
      hp_command h' = hp_command h \<Longrightarrow> command_ok (hp_command h) \<Longrightarrow>
      I (K\<lparr>k_shared := sh s, k_procs := xs @ p\<lparr>pc_ctx := cx s, pc_body := HostBody h'\<rparr> # ys\<rparr>)"
    and j_run: "J x s \<Longrightarrow> guest_run (\<lambda>_. True) s s' \<Longrightarrow> J x s'"
    and j_dispatch: "J x s \<Longrightarrow> J x (snd (dispatch nr a s))"
    and j_exec: "(\<And>e. ex_grown (f e) = ex_grown e) \<Longrightarrow> J x s \<Longrightarrow> J x (s\<lparr>cx := (cx s)\<lparr>c_exec := f (c_exec (cx s))\<rparr>\<rparr>)"
    and j_mem: "J x s \<Longrightarrow> length mem = length (g_mem (gs s)) \<Longrightarrow> J x (s\<lparr>gs := (gs s)\<lparr>g_mem := mem\<rparr>\<rparr>)"
    and j_regs: "J x s \<Longrightarrow> J x (s\<lparr>gs := (gs s)\<lparr>g_sp := sp, g_mode := md\<rparr>\<rparr>)"
    and j_read: "keeps (J x) (read_bytes fd staging)"
    and j_write: "keeps (J x) (write_bytes fd data)"
    and j_stderr: "J x s \<Longrightarrow> J x (s\<lparr>sh := (sh s)\<lparr>sh_stderr := output_push msg (lim_output (sh_limits (sh s))) (sh_stderr (sh s))\<rparr>\<rparr>)"
    and j_waits: "J x s \<Longrightarrow> J x (s\<lparr>sh := (sh s)\<lparr>sh_host_pending := True\<rparr>\<rparr>)"
    and j_command: "command_ok c \<Longrightarrow> J x s \<Longrightarrow> hc_run c call (world_of s) = (res, w) \<Longrightarrow> J x (set_world w s)"
    and i_procs: "I K \<Longrightarrow> map (\<lambda>p. (pc_ctx p, pc_body p, pc_charged p)) ps =
        map (\<lambda>p. (pc_ctx p, pc_body p, pc_charged p)) (k_procs K) \<Longrightarrow> I (K\<lparr>k_procs := ps\<rparr>)"
    and i_ticks: "I K \<Longrightarrow> I (K\<lparr>k_shared := (k_shared K)\<lparr>sh_out := (sh_out (k_shared K))\<lparr>o_ticks := n\<rparr>\<rparr>\<rparr>)"
    and i_vfs: "I K \<Longrightarrow> I (K\<lparr>k_shared := (k_shared K)\<lparr>sh_vfs_pending := b\<rparr>\<rparr>)"
    and i_host: "I K \<Longrightarrow> I (K\<lparr>k_shared := (k_shared K)\<lparr>sh_host_pending := b\<rparr>\<rparr>)"
    and i_exit: "I K \<Longrightarrow> I (K\<lparr>k_exit := e\<rparr>)"
    and i_finish: "I K \<Longrightarrow> I (finish_process i status K)"
    and i_replace: "I K \<Longrightarrow> I (snd (replace_instance i K))"
    and i_spawned: "I K \<Longrightarrow> I (start_spawned K)"
begin

section \<open>A guest's step\<close>

lemma keeps_after_return:
  assumes "I K"
  shows "I (snd (after_return i K))"
proof (cases "get_at (k_procs K) i")
  case None
  with assms show ?thesis by (simp add: after_return_def)
next
  case (Some p)
  then obtain xs ys where ps: "k_procs K = xs @ p # ys" "length xs = i" by (rule get_at_split)
  show ?thesis
  proof (cases "ex_suspension (c_exec (pc_ctx p))")
    case None
    with Some assms show ?thesis by (simp add: after_return_def)
  next
    case susp: (Some suspension)
    show ?thesis
    proof (cases "pc_body p")
      case (HostBody h)
      with Some susp assms show ?thesis by (simp add: after_return_def)
    next
      case (GuestBody g k)
      obtain x where x: "J x \<lparr>sh = k_shared K, cx = pc_ctx p, gs = g\<rparr>" "fits x K xs p ys"
        using take_guest [OF assms ps(1) GuestBody] by blast
      define put where "put = (\<lambda>e g r. K\<lparr>k_procs := (k_procs K)[i :=
        p\<lparr>pc_ctx := (pc_ctx p)\<lparr>c_exec := e\<rparr>, pc_body := GuestBody g k, pc_resume := r\<rparr>]\<rparr>)"
      have put: "I (put (f (c_exec (pc_ctx p))) (g\<lparr>g_mem := m, g_mode := md\<rparr>) r)"
        if "\<And>e. ex_grown (f e) = ex_grown e" "length m = length (g_mem g)" for f m md r
      proof -
        have "J x (\<lparr>sh = k_shared K, cx = pc_ctx p, gs = g\<lparr>g_mem := m\<rparr>\<rparr>)"
          using j_mem [OF x(1), of m] that(2) by simp
        from j_regs [OF this, of md "g_sp g"]
        have "J x (\<lparr>sh = k_shared K, cx = pc_ctx p, gs = g\<lparr>g_mem := m, g_mode := md\<rparr>\<rparr>)" by (cases g) simp
        from put_back_guest [OF x(2) j_exec [OF that(1) this] GuestBody, of r k]
        show ?thesis by (simp add: put_def ps list_update_append)
      qed
      have same: "I (put (f (c_exec (pc_ctx p))) (g\<lparr>g_mode := md\<rparr>) r)"
        if "\<And>e. ex_grown (f e) = ex_grown e" for f md r
        using put [OF that, of "g_mem g"] by (cases g) simp
      have len: "length m = length (g_mem g)" if "write_asyncify_stack (g_mem g) at bs = Some m" for at bs m
        using that by (auto simp: write_asyncify_stack_def Let_def get_range_def split: option.splits if_splits)
      let ?s = "ex_suspension_update (\<lambda>_. None)"
      have e: "(c_exec (pc_ctx p))\<lparr>ex_suspension := None\<rparr> = ?s (c_exec (pc_ctx p))" by simp
      show ?thesis
      proof (cases suspension)
        case (Setjmp env sp)
        have "I (put ((c_exec (pc_ctx p))\<lparr>ex_suspension := None, ex_jmp_bufs := (ex_jmp_bufs (c_exec (pc_ctx p)))
            (env \<mapsto> (read_asyncify_stack (g_mem g) (ex_asyncify_data (c_exec (pc_ctx p))), sp)),
            ex_resume_value := 0, ex_resume_sp := sp\<rparr>) (g\<lparr>g_mode := AsyNormal\<rparr>) Rewind)"
          by (rule same [where f = "\<lambda>e. e\<lparr>ex_suspension := None, ex_jmp_bufs := (ex_jmp_bufs e)
            (env \<mapsto> (read_asyncify_stack (g_mem g) (ex_asyncify_data e), sp)),
            ex_resume_value := 0, ex_resume_sp := sp\<rparr>"]) simp
        then show ?thesis by (simp add: after_return_def Some susp GuestBody Setjmp Let_def put_def)
      next
        case (Longjmp env v)
        have end_now: "I (put (?s (c_exec (pc_ctx p))) (g\<lparr>g_mode := AsyNormal\<rparr>) (pc_resume p))"
          using same [where f = ?s] by simp
        have jump: "I (put (ex_resume_sp_update (\<lambda>_. sp) (ex_resume_value_update (\<lambda>_. v) (?s (c_exec (pc_ctx p)))))
            (g\<lparr>g_mode := AsyNormal, g_mem := m\<rparr>) Rewind)" if "length m = length (g_mem g)" for sp m
          using put [where f = "\<lambda>e. ex_resume_sp_update (\<lambda>_. sp) (ex_resume_value_update (\<lambda>_. v) (?s e))", OF _ that] by (cases g) simp
        show ?thesis using end_now jump
          by (auto simp: after_return_def Some susp GuestBody Longjmp Let_def put_def dest: len split: option.splits)
      next
        case (SysBlocked number args)
        have "I (put (?s (c_exec (pc_ctx p))) (g\<lparr>g_mode := AsyNormal\<rparr>) (Retry number args))"
          using same [where f = ?s] by simp
        then show ?thesis by (simp add: after_return_def Some susp GuestBody SysBlocked Let_def put_def)
      next
        case (SysExit status)
        have "I (put (?s (c_exec (pc_ctx p))) (g\<lparr>g_mode := AsyNormal\<rparr>) (pc_resume p))"
          using same [where f = ?s] by simp
        then show ?thesis by (simp add: after_return_def Some susp GuestBody SysExit Let_def put_def)
      next
        case SysExec
        have "I (put (?s (c_exec (pc_ctx p))) (g\<lparr>g_mode := AsyNormal\<rparr>) (pc_resume p))"
          using same [where f = ?s] by simp
        from i_replace [OF this] show ?thesis
          by (simp add: after_return_def Some susp GuestBody SysExec Let_def put_def)
      qed
    qed
  qed
qed

text \<open>What the engine left is put back, whether \<open>_start\<close> returned or the guest trapped.\<close>

lemma keeps_put_guest:
  assumes "k_procs K = xs @ p # ys" "fits x K xs p ys" "J x s" "pc_body p = GuestBody g k"
  shows "I (put_guest (length xs) (p\<lparr>pc_resume := r\<rparr>) k' s K)"
  using put_back_guest [OF assms(2-4), of r k'] assms(1) by (cases p) (simp add: put_guest_def list_update_append)

lemma keeps_enter_guest:
  assumes "engine_ok eng" "k_procs K = xs @ p # ys" "fits x K xs p ys" "J x s" "pc_body p = GuestBody g k"
    and "enter_guest eng (length xs) (p\<lparr>pc_resume := r\<rparr>) k s K = Some (st, K')"
  shows "I K'"
proof -
  from assms(6) obtain e k' s' where e: "eng k s = Some (e, k', s')"
    by (auto simp: enter_guest_def split: option.splits)
  have s': "J x s'" by (rule j_run [OF assms(4) engine_okD [OF assms(1) e]])
  have put: "I (put_guest (length xs) (p\<lparr>pc_resume := r\<rparr>) k' t K)" if "J x t" for t
    by (rule keeps_put_guest [OF assms(2,3) that assms(5)])
  show ?thesis
  proof (cases e)
    case Returned
    with assms(6) e have "K' = snd (after_return (length xs) (put_guest (length xs) (p\<lparr>pc_resume := r\<rparr>) k' s' K))"
      by (simp add: enter_guest_def)
    then show ?thesis using keeps_after_return [OF put [OF s']] by simp
  next
    case (Trap kind)
    with assms(6) e have "\<exists>msg. K' = put_guest (length xs) (p\<lparr>pc_resume := r\<rparr>) k'
        (s'\<lparr>sh := (sh s')\<lparr>sh_stderr := output_push msg (lim_output (sh_limits (sh s'))) (sh_stderr (sh s'))\<rparr>\<rparr>) K"
      by (auto simp: enter_guest_def Let_def)
    then show ?thesis using put [OF j_stderr [OF s']] by auto
  qed
qed

lemma j_rewind: "J x s \<Longrightarrow> J x (rewind_with v s)"
proof -
  assume s: "J x s"
  have "J x (s\<lparr>cx := (cx s)\<lparr>c_exec := ex_rewinding_update (\<lambda>_. True)
      (case v of Some n \<Rightarrow> ex_resume_value_update (\<lambda>_. n) (c_exec (cx s)) | None \<Rightarrow> c_exec (cx s))\<rparr>\<rparr>)"
    by (rule j_exec [OF _ s, where f = "\<lambda>e. ex_rewinding_update (\<lambda>_. True)
      (case v of Some n \<Rightarrow> ex_resume_value_update (\<lambda>_. n) e | None \<Rightarrow> e)"]) (simp split: option.split)
  from j_regs [OF this, of "AsyRewinding (ex_asyncify_data (c_exec (cx s)))" "g_sp (gs s)"]
  show ?thesis by (cases "gs s"; cases v) (simp_all add: rewind_with_def Let_def)
qed

lemma keeps_step_guest:
  assumes "I K" "engine_ok eng" "get_at (k_procs K) i = Some p" "pc_body p = GuestBody g k"
    and "step_guest eng i p g k K = Some (st, K')"
  shows "I K'"
proof -
  obtain xs ys where ps: "k_procs K = xs @ p # ys" "length xs = i" using assms(3) by (rule get_at_split)
  obtain x where x: "J x \<lparr>sh = k_shared K, cx = pc_ctx p, gs = g\<rparr>" "fits x K xs p ys"
    using take_guest [OF assms(1) ps(1) assms(4)] by blast
  note enter = keeps_enter_guest [OF assms(2) ps(1) x(2) _ assms(4), unfolded ps(2)]
  note put = keeps_put_guest [OF ps(1) x(2) _ assms(4), unfolded ps(2)]
  show ?thesis
  proof (cases "pc_resume p")
    case Fresh
    show ?thesis by (rule enter [OF x(1)]) (use assms(5) Fresh in \<open>simp add: step_guest_def\<close>)
  next
    case Rewind
    show ?thesis by (rule enter [OF j_rewind [OF x(1), of None]]) (use assms(5) Rewind in \<open>simp add: step_guest_def\<close>)
  next
    case (Retry number args)
    obtain out s1 where d: "dispatch number args \<lparr>sh = k_shared K, cx = pc_ctx p, gs = g\<rparr> = (out, s1)" by fastforce
    have s1: "J x s1" using j_dispatch [OF x(1), of number args] by (simp add: d)
    note eval = assms(5) [unfolded step_guest_def, simplified Retry d Let_def resume.case prod.case]
    show ?thesis
    proof (cases out)
      case (OValue v)
      show ?thesis by (rule enter [OF j_rewind [OF s1]]) (use eval in \<open>simp add: OValue\<close>)
    next
      case OBlocked
      have "p\<lparr>pc_resume := pc_resume p\<rparr> = p" by simp
      then show ?thesis using eval put [OF s1, of "pc_resume p" k] by (simp add: OBlocked)
    next
      case (OExit status)
      then show ?thesis using eval put [OF s1, of Fresh k] by simp
    next
      case OExec
      then show ?thesis using eval i_replace [OF put [OF s1, of Fresh k], of i] by simp
    qed
  qed
qed

section \<open>A host command's step\<close>

lemma keeps_put_host:
  assumes "k_procs K = xs @ p # ys" "fits x K xs p ys" "J x s" "gs s = no_guest" "pc_body p = HostBody h"
    "hp_command h' = hp_command h" "command_ok (hp_command h)"
  shows "I (put_host (length xs) p h' s K)"
  using put_back_host [OF assms(2-7)] assms(1) by (simp add: put_host_def list_update_append)

lemma j_drain:
  assumes "drain_stdin buffer chunk s = Some (w, b, s')" "J x s \<and> at_guest g s"
  shows "J x s' \<and> at_guest g s'"
proof (rule drain_stdin.raw_induct [where P = "\<lambda>buffer chunk s r. J x s \<and> at_guest g s \<longrightarrow>
    J x (snd (snd r)) \<and> at_guest g (snd (snd r))", OF _ assms(1), THEN mp, OF _ assms(2), simplified])
  fix d :: "bytes \<Rightarrow> bytes \<Rightarrow> ('w, 'f) st \<Rightarrow> (bool \<times> bytes \<times> ('w, 'f) st) option" and buffer chunk s r
  assume ih: "\<And>buffer chunk s r. d buffer chunk s = Some r \<Longrightarrow>
      J x s \<and> at_guest g s \<longrightarrow> J x (snd (snd r)) \<and> at_guest g (snd (snd r))"
  assume e: "(case read_bytes 0 chunk s of
      (Inl f, s') \<Rightarrow> Some (f = FBlock, buffer, s')
    | (Inr (n, chunk'), s') \<Rightarrow> if n = 0 then Some (False, buffer, s')
        else d (buffer @ (case get_range chunk' 0 n of None \<Rightarrow> [] | Some bs \<Rightarrow> bs)) chunk' s') = Some r"
  show "J x s \<and> at_guest g s \<longrightarrow> J x (snd (snd r)) \<and> at_guest g (snd (snd r))"
  proof
    assume s: "J x s \<and> at_guest g s"
    obtain q s1 where q: "read_bytes 0 chunk s = (q, s1)" by fastforce
    have "J x s1 \<and> at_guest g s1"
      using keepsD [OF j_read [of x 0 chunk], of s] keepsD [OF read_bytes_guest [of g 0 chunk], of s] s q by simp
    then show "J x (snd (snd r)) \<and> at_guest g (snd (snd r))"
      using e ih q by (auto split: sum.splits prod.splits if_splits)
  qed
qed

lemma j_flush:
  "J x s \<and> at_guest g s \<Longrightarrow> J x (snd (snd (flush_stream fd bs at s))) \<and> at_guest g (snd (snd (flush_stream fd bs at s)))"
proof (induction fd bs at s rule: flush_stream.induct)
  case (1 fd bs at s)
  show ?case
  proof (cases "length bs \<le> at")
    case True
    with "1.prems" show ?thesis by (simp add: flush_stream.simps [of fd bs at s])
  next
    case False
    obtain q s1 where q: "write_bytes fd (drop at bs) s = (q, s1)" by fastforce
    have "J x s1 \<and> at_guest g s1"
      using keepsD [OF j_write [of x fd "drop at bs"], of s] keepsD [OF write_bytes_guest [of g fd "drop at bs"], of s]
        "1.prems" q by simp
    then show ?thesis using "1.IH" [OF False q [symmetric]] False q
      by (auto simp: flush_stream.simps [of fd bs at s] split: sum.splits)
  qed
qed

lemma keeps_flush_output:
  assumes "k_procs K = xs @ p # ys" "fits x K xs p ys" "J x s \<and> at_guest no_guest s" "pc_body p = HostBody h"
    "hp_command h' = hp_command h" "command_ok (hp_command h)"
  shows "I (snd (flush_output (length xs) p h' s K))"
proof -
  note put = keeps_put_host [OF assms(1,2) _ _ assms(4) _ assms(6)]
  show ?thesis
  proof (cases "hp_phase h'")
    case (Reading b)
    then show ?thesis using put [of s h'] assms(3,5) by (simp add: flush_output_def)
  next
    case (Flushing status out errs out_at err_at)
    obtain w1 o1 s1 where 1: "flush_stream 1 out out_at s = (w1, o1, s1)" by (metis prod_cases3)
    obtain w2 e1 s2 where 2: "flush_stream 2 errs err_at s1 = (w2, e1, s2)" by (metis prod_cases3)
    have s1: "J x s1 \<and> at_guest no_guest s1"
      using j_flush [OF assms(3), of 1 out out_at] by (simp add: 1)
    have s2: "J x s2 \<and> at_guest no_guest s2"
      using j_flush [OF s1, of 2 errs err_at] by (simp add: 2)
    show ?thesis using s1 s2 assms(5) by (auto simp: flush_output_def Flushing 1 2 intro!: put split: bool.split)
  qed
qed

lemma keeps_run_command:
  assumes "k_procs K = xs @ p # ys" "fits x K xs p ys" "J x s \<and> at_guest no_guest s" "pc_body p = HostBody h"
    "command_ok (hp_command h)"
  shows "I (snd (run_command (length xs) p h buffer s K))"
proof -
  define call where "call = \<lparr>iv_argv = c_argv (cx s), iv_envp = c_envp (cx s), iv_cwd = t_cwd (the_task s), iv_stdin = buffer\<rparr>"
  obtain res w where c: "hc_run (hp_command h) call (world_of s) = (res, w)" by fastforce
  have i: "invoke (hp_command h) call s = (res, set_world w s)" by (simp add: invoke_def c)
  have s1: "J x (set_world w s) \<and> at_guest no_guest (set_world w s)"
    using j_command [OF assms(5) _ c] assms(3) by simp
  show ?thesis
  proof (cases res)
    case (Inr e)
    show ?thesis using keeps_flush_output [OF assms(1,2) s1 assms(4) _ assms(5)]
      by (simp add: run_command_def i [unfolded call_def] Inr)
  next
    case (Inl e)
    have "J x ((set_world w s)\<lparr>sh := (sh (set_world w s))\<lparr>sh_host_pending := True\<rparr>\<rparr>)"
      using j_waits s1 by blast
    then have "I (put_host (length xs) p (h\<lparr>hp_phase := Reading buffer\<rparr>)
        ((set_world w s)\<lparr>sh := (sh (set_world w s))\<lparr>sh_host_pending := True\<rparr>\<rparr>) K)"
      using assms(3) by (intro keeps_put_host [OF assms(1,2) _ _ assms(4) _ assms(5)]) simp_all
    then show ?thesis using keeps_flush_output [OF assms(1,2) s1 assms(4) _ assms(5)]
      by (simp add: run_command_def i [unfolded call_def] Inl)
  qed
qed

lemma keeps_step_host:
  assumes "I K" "get_at (k_procs K) i = Some p" "pc_body p = HostBody h" "step_host i p h K = Some (st, K')"
  shows "I K'"
proof -
  obtain xs ys where ps: "k_procs K = xs @ p # ys" "length xs = i" using assms(2) by (rule get_at_split)
  obtain x where ok: "command_ok (hp_command h)"
    and x: "J x \<lparr>sh = k_shared K, cx = pc_ctx p, gs = no_guest\<rparr>" "fits x K xs p ys"
    using take_host [OF assms(1) ps(1) assms(3)] by blast
  let ?s = "\<lparr>sh = k_shared K, cx = pc_ctx p, gs = no_guest\<rparr>"
  have s: "J x ?s \<and> at_guest no_guest ?s" using x(1) by simp
  note out = keeps_flush_output [OF ps(1) x(2) _ assms(3) _ ok, unfolded ps(2)]
  note run = keeps_run_command [OF ps(1) x(2) _ assms(3) ok, unfolded ps(2)]
  note put = keeps_put_host [OF ps(1) x(2) _ _ assms(3) _ ok, unfolded ps(2)]
  show ?thesis
  proof (cases "hp_phase h")
    case (Flushing status o1 e1 oa ea)
    then show ?thesis using assms(4) out [OF s, of h] by (simp add: step_host_def)
  next
    case (Reading buffer)
    show ?thesis
    proof (cases "hp_reads_stdin h")
      case False
      then show ?thesis using assms(4) Reading run [OF s, of buffer] by (simp add: step_host_def)
    next
      case True
      then obtain w b s1 where d: "drain_stdin buffer (replicate 8192 0) ?s = Some (w, b, s1)"
        using assms(4) Reading by (auto simp: step_host_def split: option.splits)
      have s1: "J x s1 \<and> at_guest no_guest s1" by (rule j_drain [OF d s])
      have "(st, K') = (if w then (Stuck, put_host i p (h\<lparr>hp_phase := Reading b\<rparr>) s1 K) else run_command i p h b s1 K)"
        using assms(4) Reading True d by (cases w) (simp_all add: step_host_def)
      then show ?thesis using put [of s1 "h\<lparr>hp_phase := Reading b\<rparr>"] run [OF s1, of b] s1
        by (cases w) (simp_all, metis snd_conv)
    qed
  qed
qed

section \<open>The run loop\<close>

lemma keeps_step_process:
  assumes "I K" "engine_ok eng" "step_process eng i K = Some (st, K')"
  shows "I K'"
  using assms
  by (auto simp: step_process_def split: option.splits if_splits body.splits
      intro: keeps_step_host [OF assms(1)] keeps_step_guest [OF assms(1,2)])

lemma keeps_park: "I K \<Longrightarrow> I (park i K)"
proof (cases "get_at (k_procs K) i")
  case (Some p)
  assume "I K"
  from Some obtain xs ys where ps: "k_procs K = xs @ p # ys" "length xs = i" by (rule get_at_split)
  have "I (K\<lparr>k_procs := (k_procs K)[i := p\<lparr>pc_parked := True\<rparr>]\<rparr>)"
    by (rule i_procs [OF \<open>I K\<close>]) (simp add: ps list_update_append)
  then show ?thesis by (simp add: park_def Some)
qed (simp add: park_def)

lemma keeps_unpark: "I K \<Longrightarrow> I (unpark_all K)"
  unfolding unpark_all_def by (rule i_procs) (simp_all add: comp_def)

lemma keeps_clock: "I K \<Longrightarrow> I (snd (read_clock K))"
  using i_ticks by (simp add: read_clock_def Let_def)

lemma keeps_budget: "I K \<Longrightarrow> I (snd (budget_spent b served K))"
  using keeps_clock by (auto simp: budget_spent_def Let_def case_prod_beta split: option.splits)

lemma keeps_deadline: "I K \<Longrightarrow> I (snd (past_deadline K))"
  using keeps_clock by (auto simp: past_deadline_def Let_def case_prod_beta split: option.splits)

lemma keeps_why_idle: "I K \<Longrightarrow> I (snd (why_idle K))"
  using i_vfs i_host by (auto simp: why_idle_def Let_def)

lemma keeps_kill_procs: "I K \<Longrightarrow> I (kill_procs n status K)"
  by (induction n arbitrary: K) (simp_all add: i_finish)

lemma keeps_kill_all: "I K \<Longrightarrow> I (kill_all status K)"
  by (simp add: kill_all_def Let_def i_exit keeps_kill_procs)

lemma keeps_run_pass:
  assumes "engine_ok eng" "run_pass eng i progressed K = Some (r, K')" "I K"
  shows "I K'"
proof (rule run_pass.raw_induct [where P = "\<lambda>eng i progressed K r. engine_ok eng \<longrightarrow> I K \<longrightarrow> I (snd r)",
      OF _ assms(2), THEN mp, THEN mp, OF _ assms(1,3), simplified])
  fix d :: "('w, 'f, 'k) engine \<Rightarrow> nat \<Rightarrow> bool \<Rightarrow> ('w, 'f, 'k) kernel \<Rightarrow> ((int + bool) \<times> ('w, 'f, 'k) kernel) option"
    and eng i progressed K r
  assume ih: "\<And>eng i progressed K r. d eng i progressed K = Some r \<Longrightarrow> engine_ok eng \<longrightarrow> I K \<longrightarrow> I (snd r)"
  assume e: "(if length (k_procs K) \<le> i then Some (Inr progressed, K)
     else case step_process eng i K of
          None \<Rightarrow> None
        | Some (step, K1) \<Rightarrow>
            let K2 = if waits_outside K K1 then park i K1 else K1 in
             case step of
               Ran \<Rightarrow> d eng (i + 1) True K2
             | Stuck \<Rightarrow> d eng (i + 1) progressed K2
             | Ended status \<Rightarrow>
                 let K3 = finish_process i status K2 in
                  case k_exit K3 of
                    None \<Rightarrow> d eng i True K3
                  | Some v \<Rightarrow> Some (Inl v, K3)
             | Replaced \<Rightarrow> d eng (i + 1) True K2) = Some r"
  show "engine_ok eng \<longrightarrow> I K \<longrightarrow> I (snd r)"
  proof (intro impI)
    assume ok: "engine_ok eng" and K: "I K"
    show "I (snd r)"
    proof (cases "length (k_procs K) \<le> i")
      case True
      with e K show ?thesis by auto
    next
      case False
      then obtain step K1 where st: "step_process eng i K = Some (step, K1)"
        using e by (auto split: option.splits)
      define K2 where "K2 = (if waits_outside K K1 then park i K1 else K1)"
      have K2: "I K2" using keeps_step_process [OF K ok st] by (simp add: K2_def keeps_park)
      then have K3: "I (finish_process i status K2)" for status by (rule i_finish)
      show ?thesis using e False st K2 K3 ih ok
        by (auto simp: K2_def [symmetric] Let_def split: proc_step.splits option.splits)
    qed
  qed
qed

lemma keeps_run_loop:
  assumes "engine_ok eng" "run_loop eng b n K = Some (sl, K')" "I K"
  shows "I K'"
proof (rule run_loop.raw_induct [where P = "\<lambda>eng b n K r. engine_ok eng \<longrightarrow> I K \<longrightarrow> I (snd r)",
      OF _ assms(2), THEN mp, THEN mp, OF _ assms(1,3), simplified])
  fix d :: "('w, 'f, 'k) engine \<Rightarrow> budget \<Rightarrow> nat \<Rightarrow> ('w, 'f, 'k) kernel \<Rightarrow> (slice \<times> ('w, 'f, 'k) kernel) option"
    and eng b n K r
  assume ih: "\<And>eng b n K r. d eng b n K = Some r \<Longrightarrow> engine_ok eng \<longrightarrow> I K \<longrightarrow> I (snd r)"
  assume e: "(case past_deadline (start_spawned K) of
        (late, K1) \<Rightarrow>
          if late then
            Some (Finished (or_exit (status_signaled SIGKILL) (kill_all (status_signaled SIGKILL) K1)),
                  kill_all (status_signaled SIGKILL) K1)
          else
            case run_pass eng 0 False K1 of
               None \<Rightarrow> None
             | Some (Inl status, K2) \<Rightarrow> Some (Finished status, K2)
             | Some (Inr progressed, K2) \<Rightarrow>
                 if k_procs K2 = [] then Some (Finished (or_exit 0 K2), K2)
                 else if \<not> progressed then case why_idle K2 of (w, K3) \<Rightarrow> Some (Idle w, K3)
                 else case budget_spent b (sh_syscalls (k_shared K2) - n) K2 of
                     (spent, K3) \<Rightarrow> if spent then Some (BudgetSpent, K3) else d eng b n K3) = Some r"
  show "engine_ok eng \<longrightarrow> I K \<longrightarrow> I (snd r)"
  proof (intro impI)
    assume ok: "engine_ok eng" and K: "I K"
    obtain late K1 where l: "past_deadline (start_spawned K) = (late, K1)" by fastforce
    have K1: "I K1" using keeps_deadline [OF i_spawned [OF K]] by (simp add: l)
    show "I (snd r)"
    proof (cases late)
      case True
      then show ?thesis using e K1 by (auto simp: l intro: keeps_kill_all)
    next
      case False
      then obtain q K2 where q: "run_pass eng 0 False K1 = Some (q, K2)"
        using e by (auto simp: l split: option.splits)
      have K2: "I K2" by (rule keeps_run_pass [OF ok q K1])
      obtain w K3 where w: "why_idle K2 = (w, K3)" by fastforce
      obtain spent K4 where sp: "budget_spent b (sh_syscalls (k_shared K2) - n) K2 = (spent, K4)" by fastforce
      have "I K3" "I K4" using keeps_why_idle [OF K2] keeps_budget [OF K2, of b "sh_syscalls (k_shared K2) - n"]
        by (simp_all add: w sp)
      then show ?thesis using e False K2 ih ok
        by (auto simp: l q w sp split: sum.splits if_splits)
    qed
  qed
qed

lemma keeps_kernel_run:
  assumes "engine_ok eng" "kernel_run eng b K = Some (sl, K')" "I K"
  shows "I K'"
  using keeps_run_loop [OF assms(1) assms(2) [unfolded kernel_run_def] keeps_unpark [OF assms(3)]] .

end

end
