(* ===== verification/Census.thy ===== *)
theory Census
  imports Limits
begin

text \<open>
  Who there is: every task a session holds (running, suspended in a \<open>vfork\<close>, waiting to start)
  has a living record of its own in the process table, and pids are not reused while fewer than
  \<open>i32::MAX\<close> of them have been handed out.  With the limits this bounds how many descriptor
  tables there can be, so that no reference count can reach \<open>u32::MAX\<close>.
\<close>

section \<open>The process table\<close>

definition alive_pid :: "int \<Rightarrow> proc_record list \<Rightarrow> bool" where
  "alive_pid p t \<longleftrightarrow> (\<exists>r \<in> set t. pr_pid r = p \<and> is_alive r)"

definition pids_ok :: "proc_record list \<Rightarrow> int \<Rightarrow> bool" where
  "pids_ok t n \<longleftrightarrow> 0 < n \<and> distinct (map pr_pid t) \<and> (\<forall>r \<in> set t. 0 < pr_pid r \<and> pr_pid r < n)"

lemma alive_pid_code: "alive_pid p t \<longleftrightarrow> (p, None) \<in> set (map (\<lambda>r. (pr_pid r, pr_exit r)) t)"
  by (auto simp: alive_pid_def is_alive_def image_iff intro: sym)

lemma pids_ok_code: "pids_ok t n \<longleftrightarrow> 0 < n \<and>
    distinct (map fst (map (\<lambda>r. (pr_pid r, pr_exit r)) t)) \<and> (\<forall>x \<in> set (map (\<lambda>r. (pr_pid r, pr_exit r)) t). 0 < fst x \<and> fst x < n)"
  by (simp add: pids_ok_def comp_def)

lemma tame_census:
  assumes "tame f"
  shows "alive_pid p (f t) = alive_pid p t" "pids_ok (f t) n = pids_ok t n"
  using assms unfolding tame_def alive_pid_code pids_ok_code by simp_all

lemma reap_census:
  assumes "pids_ok t n" "rc \<in> set t" "\<not> is_alive rc"
  shows "alive_pid p (filter (\<lambda>x. pr_pid x \<noteq> pr_pid rc) t) = alive_pid p t"
    "pids_ok (filter (\<lambda>x. pr_pid x \<noteq> pr_pid rc) t) n"
proof -
  have "r = rc" if "r \<in> set t" "pr_pid r = pr_pid rc" for r
    using that assms(1,2) by (auto simp: pids_ok_def distinct_map dest: inj_onD)
  then show "alive_pid p (filter (\<lambda>x. pr_pid x \<noteq> pr_pid rc) t) = alive_pid p t"
    using assms(3) by (auto simp: alive_pid_def)
  show "pids_ok (filter (\<lambda>x. pr_pid x \<noteq> pr_pid rc) t) n"
    using assms(1) by (simp add: pids_ok_def distinct_map inj_on_def)
qed

lemma update_record_pids: "(\<And>r. pr_pid (f r) = pr_pid r) \<Longrightarrow> map pr_pid (update_record pid f t) = map pr_pid t"
  by (induction t) simp_all

lemma update_record_alive:
  "alive_pid p t \<Longrightarrow> p \<noteq> pid \<Longrightarrow> alive_pid p (update_record pid f t)"
  by (induction t) (auto simp: alive_pid_def)

lemma pids_ok_pids: "pids_ok t n \<longleftrightarrow> 0 < n \<and> distinct (map pr_pid t) \<and> (\<forall>p \<in> set (map pr_pid t). 0 < p \<and> p < n)"
  by (simp add: pids_ok_def)

lemma set_exit_census:
  assumes "pids_ok t n"
  shows "pids_ok (table_set_exit pid status t) n"
    "alive_pid p t \<Longrightarrow> p \<noteq> pid \<Longrightarrow> alive_pid p (table_set_exit pid status t)"
proof -
  define t1 where "t1 = update_record pid (\<lambda>r. r\<lparr>pr_exit := (if pr_exit r = None then Some status else pr_exit r),
      pr_wake_at := None\<rparr>) t"
  define t2 where "t2 = map (\<lambda>r. if pr_ppid r = pid then r\<lparr>pr_ppid := 1\<rparr> else r) t1"
  define parent where "parent = (case record_of pid t of Some r \<Rightarrow> pr_ppid r | None \<Rightarrow> 0)"
  have e: "table_set_exit pid status t =
      (if (case record_of parent t2 of Some r \<Rightarrow> is_alive r | None \<Rightarrow> False)
       then update_record parent (raise_sig SIGCHLD) t2 else filter (\<lambda>r. pr_pid r \<noteq> pid) t2)"
    by (simp add: table_set_exit_def t1_def t2_def parent_def Let_def)
  have tame2: "tame (map (\<lambda>r. if pr_ppid r = pid then r\<lparr>pr_ppid := 1\<rparr> else r))"
    by (rule tame_map) simp
  have tame3: "tame (update_record parent (raise_sig SIGCHLD))"
    by (rule tame_update_record) (simp add: raise_sig_def)
  have "pids_ok t1 n" using assms unfolding pids_ok_pids t1_def by (simp add: update_record_pids)
  then have 2: "pids_ok t2 n" by (simp add: t2_def tame_census [OF tame2])
  then have "pids_ok (filter (\<lambda>r. pr_pid r \<noteq> pid) t2) n" by (simp add: pids_ok_def distinct_map inj_on_def)
  then show "pids_ok (table_set_exit pid status t) n" using 2 by (simp add: e tame_census [OF tame3])
  assume "alive_pid p t" "p \<noteq> pid"
  then have "alive_pid p t1" by (simp add: t1_def update_record_alive)
  then have "alive_pid p t2" by (simp add: t2_def tame_census [OF tame2])
  then show "alive_pid p (table_set_exit pid status t)"
    using \<open>p \<noteq> pid\<close> by (auto simp: e tame_census [OF tame3]) (auto simp: alive_pid_def)
qed

section \<open>The invariant\<close>

definition counted :: "int list \<Rightarrow> ('w, 'f) shared \<Rightarrow> bool" where
  "counted ps s \<longleftrightarrow> pids_ok (sh_table s) (sh_next_pid s) \<and> distinct ps \<and> (\<forall>p \<in> set ps. alive_pid p (sh_table s))"

lemma counted_length:
  assumes "counted ps s"
  shows "length ps \<le> live_count (sh_table s)"
proof -
  have "set ps \<subseteq> set (map pr_pid (filter is_alive (sh_table s)))"
    using assms by (auto simp: counted_def alive_pid_def image_iff)
  then have "card (set ps) \<le> length (map pr_pid (filter is_alive (sh_table s)))"
    using card_mono [OF finite_set] card_length le_trans by blast
  then show ?thesis using assms by (simp add: counted_def live_count_def distinct_card)
qed

lemma counted_sub: "counted ps s \<Longrightarrow> distinct qs \<Longrightarrow> set qs \<subseteq> set ps \<Longrightarrow> counted qs s"
  by (auto simp: counted_def)

lemma counted_set_exit:
  assumes "counted (p # ps) s"
  shows "counted ps (set_exit p status s)"
proof -
  have p: "pids_ok (sh_table s) (sh_next_pid s)" using assms by (simp add: counted_def)
  have "alive_pid q (table_set_exit p status (sh_table s))" if "q \<in> set ps" for q
    by (rule set_exit_census(2) [OF p]) (use assms that in \<open>auto simp: counted_def\<close>)
  then show ?thesis using assms set_exit_census(1) [OF p] by (simp add: counted_def set_exit_def)
qed

text \<open>
  The tasks of an instance: all but the last, which is the process itself, came from \<open>clone\<close>.
  An \<open>execve\<close> leaves a task with pid 0 in the place of the one it takes away.
\<close>

definition children :: "ctx \<Rightarrow> int list" where
  "children c = map t_pid (butlast (c_task c # c_vfork_stack c))"

definition bottom :: "ctx \<Rightarrow> task" where
  "bottom c = last (c_task c # c_vfork_stack c)"

definition known_as :: "int \<Rightarrow> ctx \<Rightarrow> bool" where
  "known_as me c \<longleftrightarrow> t_pid (bottom c) \<in> {me, 0} \<and>
     (\<forall>p. c_exec_request c = Some p \<longrightarrow> t_pid (sp_task p) \<in> {me, 0})"

definition spawned :: "('w, 'f) shared \<Rightarrow> int list" where
  "spawned s = map (\<lambda>p. t_pid (sp_task p)) (sh_spawn s)"

abbreviation saturated :: "('w, 'f) shared \<Rightarrow> bool" where
  "saturated s \<equiv> I32_MAX \<le> sh_next_pid s"

definition census :: "int \<Rightarrow> int list \<Rightarrow> ('w, 'f) st \<Rightarrow> bool" where
  "census me others s \<longleftrightarrow>
     saturated (sh s) \<or> counted (me # children (cx s) @ spawned (sh s) @ others) (sh s) \<and> known_as me (cx s)"

lemma census_same:
  assumes "census me others s" "sh_table (sh s') = sh_table (sh s)" "sh_next_pid (sh s') = sh_next_pid (sh s)"
    and "sh_spawn (sh s') = sh_spawn (sh s)" "t_pid (the_task s') = t_pid (the_task s)"
    and "c_vfork_stack (cx s') = c_vfork_stack (cx s)" "c_exec_request (cx s') = c_exec_request (cx s)"
  shows "census me others s'"
proof -
  have "children (cx s') = children (cx s)" "t_pid (bottom (cx s')) = t_pid (bottom (cx s))"
    using assms by (cases "c_vfork_stack (cx s)"; simp add: children_def bottom_def)+
  then show ?thesis using assms by (simp add: census_def counted_def spawned_def known_as_def)
qed

lemma census_shared:
  assumes "sh_table (f (sh s)) = sh_table (sh s)" "sh_next_pid (f (sh s)) = sh_next_pid (sh s)"
    "sh_spawn (f (sh s)) = sh_spawn (sh s)"
  shows "census me others s \<Longrightarrow> census me others (s\<lparr>sh := f (sh s)\<rparr>)"
  by (erule census_same) (simp_all add: assms)

lemma census_table:
  assumes "census me others s"
    and "\<And>p. pids_ok (sh_table (sh s)) (sh_next_pid (sh s)) \<Longrightarrow>
      pids_ok (f (sh_table (sh s))) (sh_next_pid (sh s)) \<and> alive_pid p (f (sh_table (sh s))) = alive_pid p (sh_table (sh s))"
  shows "census me others (s\<lparr>sh := sh_table_update f (sh s)\<rparr>)"
  using assms by (auto simp: census_def counted_def spawned_def)

lemma release_next_pid: "sh_next_pid (release_desc k s) = sh_next_pid s"
  by (auto simp: release_desc_def desc_update_def close_kind_def close_file_def collect_pipe_def pipe_update_def Let_def
      split: desc_kind.splits option.splits prod.splits)

lemma releases_next_pid [simp]: "sh_next_pid (fold release_desc ks s) = sh_next_pid s"
  by (induction ks arbitrary: s) (simp_all add: release_next_pid)


lemma census_context: "keeps (census me others) (on_fds f)"
proof (rule keepsI)
  fix s :: "('w, 'f) st" assume s: "census me others s"
  obtain r t where t: "f (t_fds (the_task s)) = (r, t)" by fastforce
  show "census me others (snd (on_fds f s))"
    by (simp add: on_fds_eval [of f, OF t]) (rule census_same [OF s], simp_all)
qed

lemma census_on_shared:
  assumes "\<And>s :: ('w, 'f) shared. sh_table (f s) = sh_table s \<and> sh_next_pid (f s) = sh_next_pid s \<and> sh_spawn (f s) = sh_spawn s"
  shows "keeps (census me others) (on_shared f)"
  by (rule keepsI, unfold on_shared_snd, rule census_shared) (simp_all add: assms)

lemma acquire_table:
  "sh_table (sh (snd (acquire pages n s))) = sh_table (sh s)" "sh_next_pid (sh (snd (acquire pages n s))) = sh_next_pid (sh s)"
  "c_vfork_stack (cx (snd (acquire pages n s))) = c_vfork_stack (cx s)"
  "c_exec_request (cx (snd (acquire pages n s))) = c_exec_request (cx s)"
  by (simp_all add: acquire_def charge_def charge_memory_def grow_def mem_grow_def run_def release_memory_def add_grown_def
      evals on_exec_eval Let_def)

interpretation census_frame: kernel_frame "census me others" "\<lambda>_ _. True" "\<lambda>_ _. True" "\<lambda>_. True" "\<lambda>_ _ _. True"
proof
  show "keeps (census me others) (on_exec f9)" for f9
    by (rule keepsI, unfold on_exec_snd) (erule census_same, simp_all)
  show "keeps (census me others) (on_task f8)" if "\<And>t. t_fds (f8 t) = t_fds t \<and> t_pid (f8 t) = t_pid t" for f8
    by (rule keepsI, unfold on_task_snd) (erule census_same, simp_all add: that)
  show "keeps (census me others) (acquire pages n)" for pages n
    by (rule keepsI, erule census_same) (simp_all add: acquire_table acquire_same)
  show "keeps (census me others) (on_records f7)" if "tame f7" for f7
    unfolding on_records_def
    by (rule keepsI, unfold on_shared_snd, erule census_table) (simp add: tame_census [OF that])
  show "census me others (snd (on_records (filter (\<lambda>x. pr_pid x \<noteq> pr_pid rc)) s))"
    if "census me others s" "rc \<in> set (sh_table (sh s))" "\<not> is_alive rc" for s :: "('w, 'f) st" and rc
    unfolding on_records_def on_shared_snd
    by (rule census_table [OF that(1)]) (use that(2,3) reap_census in blast)
  show "census me others (s\<lparr>sh := snd (write_output which data (sh s))\<rparr>)"
    if "census me others s" for s :: "('w, 'f) st" and which data
    by (rule census_same [OF that]) (simp_all add: write_output_def Let_def)
  show "census me others (s\<lparr>sh := desc_update k (set_kind kind) (sh s)\<rparr>)"
    if "census me others s" for s :: "('w, 'f) st" and k kind
    by (rule census_same [OF that]) (simp_all add: desc_update_def)
  show "census me others (s\<lparr>sh := desc_update k (set_file f') (sh s)\<rparr>)"
    if "census me others s" for s :: "('w, 'f) st" and k f'
    by (rule census_same [OF that]) (simp_all add: desc_update_def)
  show "census me others (s\<lparr>sh := pipe_update k (\<lambda>p. p\<lparr>p_data := p_data p @ data\<rparr>) (sh s)\<rparr>)"
    if "census me others s" for s :: "('w, 'f) st" and k data
    by (rule census_same [OF that]) (simp_all add: pipe_update_def)
  show "census me others (set_world w s)" if "census me others s" for s :: "('w, 'f) st" and w
    by (rule census_same [OF that]) simp_all
  show "census me others (s\<lparr>gs := (gs s)\<lparr>g_mem := mem\<rparr>\<rparr>)"
    if "census me others s" for s :: "('w, 'f) st" and mem
    by (rule census_same [OF that]) simp_all
  show "census me others (s\<lparr>gs := (gs s)\<lparr>g_sp := sp, g_mode := md\<rparr>\<rparr>)"
    if "census me others s" for s :: "('w, 'f) st" and sp md
    by (rule census_same [OF that]) simp_all
qed (auto intro!: census_on_shared census_context simp: desc_update_def pipe_update_def reflp_def transp_def)

section \<open>Operations that move tasks\<close>

lemma census_exit: "keeps (census me others) (sys_exit code)"
proof (rule keepsI)
  fix s :: "('w, 'f) st" assume s: "census me others s"
  show "census me others (snd (sys_exit code s))"
  proof (cases "c_vfork_stack (cx s)")
    case Nil
    with s show ?thesis by (simp add: sys_exit_def evals)
  next
    case (Cons parent rest)
    define s1 where "s1 = s\<lparr>cx := (cx s)\<lparr>c_task := parent, c_vfork_stack := rest\<rparr>,
      sh := fold release_desc (fdt_drain_all (t_fds (the_task s))) (sh s)\<rparr>"
    have same: "sh_table (sh s1) = sh_table (sh s)" "sh_next_pid (sh s1) = sh_next_pid (sh s)"
      "spawned (sh s1) = spawned (sh s)" "children (cx s) = t_pid (the_task s) # children (cx s1)"
      "known_as me (cx s1) = known_as me (cx s)"
      by (simp_all add: s1_def spawned_def children_def known_as_def bottom_def Cons)
    have "snd (sys_exit code s) = s1\<lparr>sh := set_exit (t_pid (the_task s)) (status_exited code) (sh s1)\<rparr>"
      by (simp add: sys_exit_def evals Cons modify_def release_fds_def s1_def)
    moreover have "census me others (s1\<lparr>sh := set_exit (t_pid (the_task s)) (status_exited code) (sh s1)\<rparr>)"
    proof (cases "saturated (sh s)")
      case True
      then show ?thesis by (simp add: census_def set_exit_def same)
    next
      case False
      with s have c: "counted (me # children (cx s) @ spawned (sh s) @ others) (sh s)" and k: "known_as me (cx s)"
        by (simp_all add: census_def)
      have "counted (t_pid (the_task s) # me # children (cx s1) @ spawned (sh s) @ others) (sh s1)"
        using c by (auto simp: counted_def same)
      from counted_set_exit [OF this] k show ?thesis by (simp add: census_def same) (simp add: spawned_def set_exit_def s1_def)
    qed
    ultimately show ?thesis by simp
  qed
qed

lemma fork_record_shape:
  assumes "fork_record t s = (p, s')"
  shows "p = None \<and> s' = s \<or> (\<exists>rc. p = Some (sh_next_pid s) \<and> pr_pid rc = sh_next_pid s \<and> is_alive rc
    \<and> sh_table s' = sh_table s @ [rc] \<and> sh_next_pid s' = sat_add_i32 (sh_next_pid s) 1)"
  using assms by (auto simp: fork_record_def allocate_pid_def Let_def proc_record_new_def is_alive_def split: if_splits option.splits)

lemma fork_census:
  assumes "fork_record t s = (p, s')" "pids_ok (sh_table s) (sh_next_pid s)" "\<not> saturated s'"
  shows "pids_ok (sh_table s') (sh_next_pid s')" "alive_pid q (sh_table s) \<Longrightarrow> alive_pid q (sh_table s')"
    "p = Some n \<Longrightarrow> alive_pid n (sh_table s') \<and> \<not> alive_pid n (sh_table s)"
proof -
  have new: "pids_ok (t @ [rc]) (sat_add_i32 n 1)" "\<not> alive_pid n t" "alive_pid q t \<Longrightarrow> alive_pid q (t @ [rc])" "alive_pid n (t @ [rc])"
    if "pids_ok t n" "sat_add_i32 n 1 < I32_MAX" "pr_pid rc = n" "is_alive rc" for n t rc q
  proof -
    have n: "sat_add_i32 n 1 = n + 1" using that(1,2) by (simp add: sat_add_i32_def pids_ok_def)
    have below: "pr_pid r < n" if "r \<in> set t" for r using \<open>pids_ok t n\<close> that by (simp add: pids_ok_def)
    then have "pr_pid r \<noteq> pr_pid rc" "pr_pid r < n + 1" if "r \<in> set t" for r using that \<open>pr_pid rc = n\<close> by fastforce+
    then show "pids_ok (t @ [rc]) (sat_add_i32 n 1)" using that(1,3) by (auto simp: pids_ok_def n)
    show "\<not> alive_pid n t" using that(1) by (auto simp: pids_ok_def alive_pid_def)
    show "alive_pid q t \<Longrightarrow> alive_pid q (t @ [rc])" "alive_pid n (t @ [rc])"
      using that(3,4) by (auto simp: alive_pid_def)
  qed
  show "pids_ok (sh_table s') (sh_next_pid s')" "alive_pid q (sh_table s) \<Longrightarrow> alive_pid q (sh_table s')"
    "p = Some n \<Longrightarrow> alive_pid n (sh_table s') \<and> \<not> alive_pid n (sh_table s)"
    using fork_record_shape [OF assms(1)] assms(2,3) new by auto
qed

lemma fork_next_pid:
  "fork_record t s = (p, s') \<Longrightarrow> saturated s \<Longrightarrow> saturated s'"
  by (auto simp: fork_record_def allocate_pid_def Let_def sat_add_i32_def split: if_splits option.splits)

lemma census_clone: "keeps (census me others) (sys_clone flags)"
proof (rule keepsI)
  fix s :: "('w, 'f) st" assume s: "census me others s"
  obtain p s0 where f: "fork_record (the_task s) (sh s) = (p, s0)" by fastforce
  have sp: "sh_spawn s0 = sh_spawn (sh s)" using fork_record_same(3) [of "the_task s" "sh s"] f by simp
  show "census me others (snd (sys_clone flags s))"
  proof (cases "flags AND CLONE_VFORK = 0 \<or> flags AND CLONE_VM = 0 \<or> flags AND CLONE_THREAD \<noteq> 0")
    case True
    with s show ?thesis by (simp add: sys_clone_def fault_def)
  next
    case flags: False
    show ?thesis
    proof (cases p)
      case None
      then have "s0 = sh s" using f by (auto simp: fork_record_def allocate_pid_def Let_def split: if_splits option.splits)
      then show ?thesis using s flags None by (simp add: sys_clone_def evals run_def f ok_or_def)
    next
      case (Some pid)
      define ds where "ds = fold desc_incref (fdt_drain_all (t_fds (the_task s))) (sh_descs s0)"
      define s3 where "s3 = s\<lparr>sh := s0\<lparr>sh_descs := ds\<rparr>, cx := (cx s)\<lparr>c_task := vfork_child pid (t_fds (the_task s)) (the_task s),
        c_vfork_stack := the_task s # c_vfork_stack (cx s)\<rparr>\<rparr>"
      have e: "snd (sys_clone flags s) = s3"
        using flags by (simp add: sys_clone_def evals run_def f ok_or_def Some modify_def fdt_duplicate_eq s3_def ds_def)
      have "saturated s0 \<or> counted (me # (pid # children (cx s)) @ spawned (sh s) @ others) s0 \<and> known_as me (cx s)"
      proof (cases "saturated s0")
        case False
        then have c: "counted (me # children (cx s) @ spawned (sh s) @ others) (sh s)" and k: "known_as me (cx s)"
          using s fork_next_pid [OF f] by (auto simp: census_def)
        have pids: "pids_ok (sh_table (sh s)) (sh_next_pid (sh s))" using c by (simp add: counted_def)
        note fc = fork_census [OF f pids False]
        have "q \<noteq> pid" if "q \<in> set (me # children (cx s) @ spawned (sh s) @ others)" for q
          using fc(3) [OF Some] c that unfolding counted_def by blast
        then show ?thesis using c fc(1,2) fc(3) [OF Some] k by (auto simp: counted_def)
      qed simp
      moreover have "children (cx s3) = pid # children (cx s)" "known_as me (cx s3) = known_as me (cx s)"
        "spawned (sh s3) = spawned (sh s)"
        by (simp_all add: s3_def children_def vfork_child_def task_new_def known_as_def bottom_def spawned_def sp)
      ultimately show ?thesis by (auto simp: e census_def counted_def) (simp_all add: s3_def)
    qed
  qed
qed

lemma census_exec: "keeps (census me others) (finish_exec program exe argv envp)"
proof (rule keepsI)
  fix s :: "('w, 'f) st" assume s: "census me others s"
  obtain closing fds where d: "fdt_drain_cloexec (t_fds (the_task s)) = (closing, fds)" by fastforce
  define s1 where "s1 = with_fds fds s"
  define s2 where "s2 = s1\<lparr>sh := fold release_desc closing (sh s1)\<rparr>"
  define sp where "sp = \<lparr>sp_task = the_task s1, sp_program = program, sp_exe = exe, sp_argv = argv, sp_envp = envp\<rparr>"
  have eval': "on_task (t_fds_update (\<lambda>_. fds)) s = (Inr (), s1)"
    using on_task_snd [of "t_fds_update (\<lambda>_. fds)" s] by (simp add: on_task_def modify_def s1_def)
  have s2: "census me others s2"
    by (rule census_same [OF s]) (simp_all add: s2_def s1_def)
  show "census me others (snd (finish_exec program exe argv envp s))"
  proof (cases "c_vfork_stack (cx s)")
    case Nil
    then have "snd (finish_exec program exe argv envp s) = s2\<lparr>cx := (cx s2)\<lparr>c_task := task_new 0 fdt_new, c_exec_request := Some sp\<rparr>\<rparr>"
      by (simp add: finish_exec_def evals d eval' modify_cx sp_def s2_def s1_def Let_def)
    moreover have "children (cx s2) = []" "bottom (cx s2) = the_task s1" "sp_task sp = the_task s1"
      using Nil by (simp_all add: children_def bottom_def s2_def s1_def sp_def)
    moreover have "children (c\<lparr>c_task := task_new 0 fdt_new, c_exec_request := Some sp\<rparr>) = []"
      "bottom (c\<lparr>c_task := task_new 0 fdt_new, c_exec_request := Some sp\<rparr>) = task_new 0 fdt_new"
      if "c_vfork_stack c = []" for c
      using that by (simp_all add: children_def bottom_def)
    moreover have "c_vfork_stack (cx s2) = []" using Nil by (simp add: s2_def s1_def)
    moreover have "t_pid (task_new 0 fdt_new) = 0" by (simp add: task_new_def)
    ultimately show ?thesis using s2
      by (auto simp: census_def known_as_def counted_def)
  next
    case (Cons parent rest)
    define s3 where "s3 = s2\<lparr>cx := (cx s2)\<lparr>c_task := parent, c_vfork_stack := rest\<rparr>,
        sh := sh_spawn_update (\<lambda>l. l @ [sp]) (sh s2)\<rparr>"
    have "snd (finish_exec program exe argv envp s) = s3"
      using Cons by (simp add: finish_exec_def evals d eval' modify_cx sp_def s3_def s2_def s1_def Let_def)
    moreover have c: "children (cx s2) = t_pid (sp_task sp) # children (cx s3)" "known_as me (cx s3) = known_as me (cx s2)"
      "spawned (sh s3) = spawned (sh s2) @ [t_pid (sp_task sp)]" "sh_table (sh s3) = sh_table (sh s2)"
      "sh_next_pid (sh s3) = sh_next_pid (sh s2)"
      by (simp_all add: s3_def s2_def s1_def sp_def children_def known_as_def bottom_def spawned_def Cons)
    have "counted (me # children (cx s3) @ spawned (sh s3) @ others) (sh s3)"
      if "counted (me # children (cx s2) @ spawned (sh s2) @ others) (sh s2)"
      using that by (auto simp: counted_def c)
    then have "census me others s3" using s2 by (auto simp: census_def c(2,5))
    ultimately show ?thesis by simp
  qed
qed

interpretation census_steps: kernel_steps "census me others" "census me others" "\<lambda>_ _. True" "\<lambda>_ _. True"
  "\<lambda>_. True" "\<lambda>_ _ _. True"
proof (unfold_locales, unfold keeps_leads [symmetric])
  have rel: "keeps (census me others) (on_shared (release_desc k))" for k
    by (rule census_on_shared) (simp add: release_next_pid)
  have inc: "keeps (census me others) (incref k)" for k
    unfolding incref_def by (rule census_on_shared) simp
  have pipe: "keeps (census me others) insert_pipe"
    unfolding insert_pipe_def
    by (intro keeps_bnd keeps_ok_or keeps_run) (auto simp: Let_def split: prod.splits elim!: census_same)
  have desc: "keeps (census me others) (insert_desc x)" for x :: "'f desc"
    unfolding insert_desc_def
    by (intro keeps_bnd keeps_ok_or keeps_run) (auto simp: Let_def split: prod.splits elim!: census_same)
  note rules = keeps_bnd keeps_kernel_reads keeps_gets keeps_ret keeps_fault keeps_if keeps_option keeps_sum keeps_catching
    census_context rel inc pipe desc
  show "keeps (census me others) (sys_close fd)" for fd
    unfolding sys_close_def by (intro rules)
  show "keeps (census me others) (dup_fd fd cloexec lo)" for fd cloexec lo
    unfolding dup_fd_def by (intro rules)
  show "keeps (census me others) (sys_dup3 from to flags)" for "from" to flags
    unfolding sys_dup3_def by (intro rules)
  show "keeps (census me others) (install_desc (desc_new kind path status) cloexec)" for kind path status cloexec
    unfolding install_desc_def alloc_fd_def by (intro rules)
  show "keeps (census me others) (sys_pipe2 at flags)" for at flags
    unfolding sys_pipe2_def alloc_fd_def Let_def by (intro rules census_frame.k_to_mem keeps_length)
qed (rule census_exit census_exec census_clone | simp)+


section \<open>Pids only grow\<close>

abbreviation floor :: "int \<Rightarrow> ('w, 'f) st \<Rightarrow> bool" where
  "floor n s \<equiv> n \<le> sh_next_pid (sh s)"

lemma floor_on_shared:
  "(\<And>s :: ('w, 'f) shared. sh_next_pid s \<le> sh_next_pid (f s)) \<Longrightarrow> keeps (floor n) (on_shared f)"
  by (rule keepsI) (force simp: on_shared_snd intro: order_trans)

lemma floor_context: "keeps (floor n) (on_fds f)"
  by (rule keepsI) (auto simp: on_fds_def monad_simps Let_def split: prod.splits sum.splits)

interpretation floor_frame: kernel_frame "floor n" "\<lambda>_ _. True" "\<lambda>_ _. True" "\<lambda>_. True" "\<lambda>_ _ _. True"
proof
  show "keeps (floor n) (on_exec f9)" for f9
    by (rule keepsI, unfold on_exec_snd) simp
  show "keeps (floor n) (on_task f8)" for f8
    by (rule keepsI, unfold on_task_snd) simp
  show "keeps (floor n) (acquire pages m)" for pages m
    by (rule keepsI) (simp add: acquire_table)
qed (auto intro!: floor_on_shared floor_context
    simp: desc_update_def pipe_update_def reflp_def transp_def on_records_def on_shared_snd write_output_def Let_def)

lemma fork_floor:
  "n \<le> sh_next_pid s \<Longrightarrow> n \<le> I32_MAX \<Longrightarrow> fork_record t s = (p, s') \<Longrightarrow> n \<le> sh_next_pid s'"
  using fork_record_shape [of t s p s'] by (auto simp: sat_add_i32_def)

interpretation floor_steps: kernel_steps "floor I32_MAX" "floor I32_MAX" "\<lambda>_ _. True" "\<lambda>_ _. True"
  "\<lambda>_. True" "\<lambda>_ _ _. True"
proof (unfold_locales, unfold keeps_leads [symmetric])
  have rel: "keeps (floor n) (on_shared (release_desc k))" for k n
    by (rule floor_on_shared) (simp add: release_next_pid)
  have rels: "keeps (floor n) (on_shared (fold release_desc ks))" for ks n
    by (rule floor_on_shared) simp
  have inc: "keeps (floor n) (incref k)" for k n
    unfolding incref_def by (rule floor_on_shared) simp
  have pipe: "keeps (floor n) insert_pipe" for n
    unfolding insert_pipe_def by (intro keeps_bnd keeps_ok_or keeps_run) (auto simp: Let_def split: prod.splits)
  have desc: "keeps (floor n) (insert_desc x)" for x :: "'f desc" and n
    unfolding insert_desc_def by (intro keeps_bnd keeps_ok_or keeps_run) (auto simp: Let_def split: prod.splits)
  have set_exit: "keeps (floor n) (on_shared (set_exit pid status))" for pid status n
    by (rule floor_on_shared) (simp add: set_exit_def)
  have spawn: "keeps (floor n) (on_shared (sh_spawn_update g))" for g n
    by (rule floor_on_shared) simp
  have cx: "keeps (floor n) (modify (cx_update g))" for g n
    by (rule keepsI) (simp add: modify_cx)
  have fds: "keeps (floor n) (on_shared (release_fds t))" for t n
    using rels [of n "fdt_drain_all t"] by (simp add: release_fds_def [abs_def])
  note rules = keeps_bnd keeps_kernel_reads keeps_gets keeps_ret keeps_fault keeps_if keeps_option keeps_sum keeps_catching
    keeps_prod keeps_Let keeps_list keeps_ok_or floor_context rel rels inc pipe desc set_exit spawn cx fds
    floor_frame.k_task floor_frame.k_to_mem keeps_length
  show "keeps (floor I32_MAX) (sys_close fd)" for fd
    unfolding sys_close_def by (intro rules)
  show "keeps (floor I32_MAX) (dup_fd fd cloexec lo)" for fd cloexec lo
    unfolding dup_fd_def by (intro rules)
  show "keeps (floor I32_MAX) (sys_dup3 from to flags)" for "from" to flags
    unfolding sys_dup3_def by (intro rules)
  show "keeps (floor I32_MAX) (install_desc (desc_new kind path status) cloexec)" for kind path status cloexec
    unfolding install_desc_def alloc_fd_def by (intro rules)
  show "keeps (floor I32_MAX) (sys_pipe2 at flags)" for at flags
    unfolding sys_pipe2_def alloc_fd_def Let_def by (intro rules)
  show "keeps (floor I32_MAX) (sys_exit code)" for code
    unfolding sys_exit_def by (intro rules)
  show "keeps (floor I32_MAX) (finish_exec program exe argv envp)" for program exe argv envp
    unfolding finish_exec_def Let_def
    by (rule keepsI) (auto simp: evals modify_cx on_task_def modify_def split: prod.splits list.splits)
  show "keeps (floor I32_MAX) (sys_clone flags)" for flags
    unfolding sys_clone_def
    by (intro rules keeps_run) (auto simp: Let_def fdt_duplicate_def split: prod.splits dest: fork_floor [rotated 2])
qed simp

section \<open>No count saturates\<close>

lemma fd_refs_length: "fd_refs t k \<le> length t"
proof -
  have "sum_list (map (\<lambda>x. ref_of k x) t) \<le> sum_list (map (\<lambda>_. 1) t)"
    by (rule sum_list_mono) (simp add: ref_of_def split: option.splits)
  then show ?thesis by (simp add: fd_refs_def sum_list_triv)
qed

lemma task_refs_length: "length (t_fds t) \<le> n \<Longrightarrow> task_refs t k \<le> n"
  using fd_refs_length [of "t_fds t" k] by (simp add: task_refs_def)

lemma refs_list:
  assumes "\<And>t. t \<in> set ts \<Longrightarrow> length (t_fds t) \<le> n"
  shows "sum_list (map (\<lambda>t. task_refs t k) ts) \<le> length ts * n"
proof -
  have "sum_list (map (\<lambda>t. task_refs t k) ts) \<le> sum_list (map (\<lambda>_. n) ts)"
    by (rule sum_list_mono) (simp add: assms task_refs_length)
  then show ?thesis by (simp add: sum_list_triv)
qed

definition ctx_refs :: "ctx \<Rightarrow> nat \<Rightarrow> nat" where
  "ctx_refs c k =
     task_refs (c_task c) k + sum_list (map (\<lambda>t. task_refs t k) (c_vfork_stack c)) +
     (case c_exec_request c of Some p \<Rightarrow> task_refs (sp_task p) k | None \<Rightarrow> 0)"

definition spawn_refs :: "('w, 'f) shared \<Rightarrow> nat \<Rightarrow> nat" where
  "spawn_refs s k = sum_list (map (\<lambda>p. task_refs (sp_task p) k) (sh_spawn s))"

lemma holders_split: "holders ext s k = ctx_refs (cx s) k + spawn_refs (sh s) k + ext k"
  by (simp add: holders_def ctx_refs_def spawn_refs_def)

lemma length_children: "length (children c) = length (c_vfork_stack c)"
  by (simp add: children_def)

lemma ctx_refs_bound:
  assumes "length (t_fds (c_task c)) \<le> n" "\<And>t. t \<in> set (c_vfork_stack c) \<Longrightarrow> length (t_fds t) \<le> n"
    "\<And>p. c_exec_request c = Some p \<Longrightarrow> length (t_fds (sp_task p)) \<le> n"
  shows "ctx_refs c k \<le> (2 + length (children c)) * n"
proof -
  have "(case c_exec_request c of Some p \<Rightarrow> task_refs (sp_task p) k | None \<Rightarrow> 0) \<le> n"
    using assms(3) by (simp add: task_refs_length split: option.splits)
  then have "ctx_refs c k \<le> n + length (c_vfork_stack c) * n + n"
    unfolding ctx_refs_def
    by (intro add_mono refs_list task_refs_length assms(1,2))
  then show ?thesis by (simp add: length_children)
qed

lemma spawn_refs_bound:
  assumes "\<And>p. p \<in> set (sh_spawn s) \<Longrightarrow> length (t_fds (sp_task p)) \<le> n"
  shows "spawn_refs s k \<le> length (spawned s) * n"
proof -
  have "sum_list (map (\<lambda>t. task_refs t k) (map sp_task (sh_spawn s))) \<le> length (map sp_task (sh_spawn s)) * n"
    by (rule refs_list) (use assms in auto)
  then show ?thesis by (simp add: spawn_refs_def spawned_def comp_def)
qed

text \<open>Limits under which no reference count comes near \<open>u32::MAX\<close>; the default limits are far below.\<close>

definition modest :: "limits \<Rightarrow> bool" where
  "modest l \<longleftrightarrow> 8 * (lim_open_files l * max 1 (lim_processes l)) < U32_MAX"

lemma census_roomy:
  assumes "limits_ok l base rest s" "census me others s" "\<not> saturated (sh s)" "modest l"
    and "\<And>k. ext k \<le> 2 * (lim_open_files l * max 1 (lim_processes l))"
  shows "roomy ext s"
proof -
  let ?n = "lim_open_files l" and ?m = "max 1 (lim_processes l)"
  note d = limits_okD [OF assms(1)]
  have "counted (me # children (cx s) @ spawned (sh s) @ others) (sh s)"
    using assms(2,3) by (simp add: census_def)
  from counted_length [OF this] have "1 + length (children (cx s)) + length (spawned (sh s)) \<le> ?m"
    using d(8) by simp
  then have t: "(2 + length (children (cx s)) + length (spawned (sh s))) * ?n \<le> (2 * ?m) * ?n"
    by (intro mult_right_mono) simp_all
  have b: "holders ext s k \<le> 4 * (?n * ?m)" for k
  proof -
    have "ctx_refs (cx s) k \<le> (2 + length (children (cx s))) * ?n"
      by (rule ctx_refs_bound) (use d in auto)
    moreover have "spawn_refs (sh s) k \<le> length (spawned (sh s)) * ?n"
      by (rule spawn_refs_bound) (use d in auto)
    ultimately have "holders ext s k \<le> (2 + length (children (cx s)) + length (spawned (sh s))) * ?n + ext k"
      unfolding holders_split by (simp add: add_mult_distrib)
    also have "\<dots> \<le> (2 * ?m) * ?n + 2 * (?n * ?m)" by (intro add_mono t assms(5))
    finally show ?thesis by (simp add: algebra_simps)
  qed
  have "2 * holders ext s k + 1 \<le> U32_MAX" for k
    using b [of k] assms(4) unfolding modest_def by linarith
  then show ?thesis by (simp add: roomy_def)
qed

end
