(* ===== verification/Session_State.thy ===== *)
theory Session_State
  imports Session_Frame Census "HOL-Library.Multiset"
begin

text \<open>
  The invariant of a whole session: its limits, who there is, and who holds which description,
  over every process, every process waiting to start, and the shared state.  It is shown to
  survive a process's own steps here; starting and ending processes follow in \<open>Session_Moves\<close>.
\<close>

section \<open>The invariant\<close>

definition ctx_fits :: "limits \<Rightarrow> ctx \<Rightarrow> bool" where
  "ctx_fits l c \<longleftrightarrow>
     length (t_fds (c_task c)) \<le> lim_open_files l \<and>
     (\<forall>t \<in> set (c_vfork_stack c). length (t_fds t) \<le> lim_open_files l) \<and>
     (\<forall>p. c_exec_request c = Some p \<longrightarrow> length (t_fds (sp_task p)) \<le> lim_open_files l)"

definition shared_fits :: "limits \<Rightarrow> ('w, 'f) shared \<Rightarrow> bool" where
  "shared_fits l s \<longleftrightarrow>
     sh_limits s = l \<and> lim_memory l < U64_MAX \<and> sh_memory_used s \<le> lim_memory l \<and>
     length (ob_data (sh_stdout s)) \<le> lim_output l \<and> length (ob_data (sh_stderr s)) \<le> lim_output l \<and>
     (\<forall>p \<in> set (sh_spawn s). length (t_fds (sp_task p)) \<le> lim_open_files l) \<and>
     live_count (sh_table s) \<le> max 1 (lim_processes l) \<and>
     slab_wf (sh_descs s) \<and> length (slots (sh_descs s)) \<le> sat_mul_u64 (lim_open_files l) 4 \<and>
     slab_wf (sh_pipes s) \<and> length (slots (sh_pipes s)) \<le> lim_open_files l"

lemma limits_ok_split:
  "limits_ok l base others s \<longleftrightarrow> shared_fits l (sh s) \<and> ctx_fits l (cx s) \<and>
     length (g_mem (gs s)) = base + ex_grown (c_exec (cx s)) \<and> ex_grown (c_exec (cx s)) + others \<le> sh_memory_used (sh s)"
  by (auto simp: limits_ok_def shared_fits_def ctx_fits_def)

text \<open>The bytes a process is charged for; those of a guest are its memory.\<close>

definition held :: "('w, 'k) proc \<Rightarrow> nat" where
  "held p = pc_charged p + ex_grown (c_exec (pc_ctx p))"

definition proc_fits :: "limits \<Rightarrow> ('w, 'k) proc \<Rightarrow> bool" where
  "proc_fits l p \<longleftrightarrow> ctx_fits l (pc_ctx p) \<and>
     (case pc_body p of GuestBody g _ \<Rightarrow> length (g_mem g) = held p | HostBody _ \<Rightarrow> held p = 0)"

definition session_fits :: "limits \<Rightarrow> spawn list \<Rightarrow> ('w, 'f, 'k) kernel \<Rightarrow> bool" where
  "session_fits l ps K \<longleftrightarrow>
     shared_fits l (k_shared K) \<and> (\<forall>p \<in> set (k_procs K). proc_fits l p) \<and>
     sum_list (map held (k_procs K)) \<le> sh_memory_used (k_shared K) \<and>
     (\<forall>p \<in> set ps. length (t_fds (sp_task p)) \<le> lim_open_files l)"

text \<open>
  \<open>people\<close>: the processes, the children suspended in them, those waiting in the shared state, and
  the pending \<open>ps\<close> are distinct and alive.  \<open>session_refs\<close>: how many descriptors lead to a
  description.
\<close>

definition kids :: "('w, 'k) proc list \<Rightarrow> int list" where
  "kids ps = concat (map (\<lambda>p. children (pc_ctx p)) ps)"

definition named :: "int \<Rightarrow> spawn \<Rightarrow> bool" where
  "named q p \<longleftrightarrow> t_pid (sp_task p) \<in> {q, 0}"

definition known :: "int list \<Rightarrow> ('w, 'k) proc list \<Rightarrow> bool" where
  "known mes ps \<longleftrightarrow> list_all2 (\<lambda>m p. known_as m (pc_ctx p)) mes ps"

definition people :: "spawn list \<Rightarrow> ('w, 'f, 'k) kernel \<Rightarrow> bool" where
  "people ps K \<longleftrightarrow> (\<exists>mes qs. known mes (k_procs K) \<and> list_all2 named qs ps \<and>
     counted (mes @ kids (k_procs K) @ spawned (k_shared K) @ qs) (k_shared K))"

definition procs_refs :: "('w, 'k) proc list \<Rightarrow> nat \<Rightarrow> nat" where
  "procs_refs ps k = sum_list (map (\<lambda>p. ctx_refs (pc_ctx p) k) ps)"

definition pending_refs :: "spawn list \<Rightarrow> nat \<Rightarrow> nat" where
  "pending_refs ps k = sum_list (map (\<lambda>p. task_refs (sp_task p) k) ps)"

definition session_refs :: "spawn list \<Rightarrow> ('w, 'f, 'k) kernel \<Rightarrow> nat \<Rightarrow> nat" where
  "session_refs ps K k = procs_refs (k_procs K) k + spawn_refs (k_shared K) k + pending_refs ps k"

definition trusted :: "limits \<Rightarrow> ('w, 'f) shared \<Rightarrow> bool" where
  "trusted l s \<longleftrightarrow> modest l \<and> \<not> saturated s"

definition session_inv :: "limits \<Rightarrow> spawn list \<Rightarrow> ('w, 'f, 'k) kernel \<Rightarrow> bool" where
  "session_inv l ps K \<longleftrightarrow> session_fits l ps K \<and>
     (trusted l (k_shared K) \<longrightarrow> people ps K \<and>
        store_ok (session_refs ps K) none none (sh_descs (k_shared K)) (sh_pipes (k_shared K)))"

lemma procs_simps [simp]:
  "kids [] = []" "kids (p # ps) = children (pc_ctx p) @ kids ps" "kids (ps @ qs) = kids ps @ kids qs"
  "procs_refs [] = none" "procs_refs (p # ps) = added (ctx_refs (pc_ctx p)) (procs_refs ps)"
  "procs_refs (ps @ qs) = added (procs_refs ps) (procs_refs qs)"
  "pending_refs [] = none" "pending_refs (r # rs) = added (task_refs (sp_task r)) (pending_refs rs)"
  by (simp_all add: kids_def procs_refs_def pending_refs_def fun_eq_iff)

lemma known_simps [simp]:
  "known [] ps \<longleftrightarrow> ps = []" "known mes [] \<longleftrightarrow> mes = []"
  "known (m # mes) (p # ps) \<longleftrightarrow> known_as m (pc_ctx p) \<and> known mes ps"
  by (simp_all add: known_def)

lemma known_append:
  "known mes (xs @ ys) \<longleftrightarrow> (\<exists>m1 m2. mes = m1 @ m2 \<and> known m1 xs \<and> known m2 ys)"
  by (auto simp: known_def list_all2_append2 dest: list_all2_lengthD)

lemma known_Cons:
  "known mes (p # ps) \<longleftrightarrow> (\<exists>m ms. mes = m # ms \<and> known_as m (pc_ctx p) \<and> known ms ps)"
  by (auto simp: known_def list_all2_Cons2)

lemma counted_perm: "mset ps = mset qs \<Longrightarrow> counted ps s \<longleftrightarrow> counted qs s"
  using mset_eq_imp_distinct_iff [of ps qs] mset_eq_setD [of ps qs] by (simp add: counted_def)

lemma counted_part:
  assumes "counted ps s" "mset ps = mset qs + M"
  shows "counted qs s"
proof -
  obtain rs where "M = mset rs" by (metis ex_mset)
  then have "counted (qs @ rs) s" using assms counted_perm [of ps "qs @ rs" s] by simp
  then show ?thesis by (rule counted_sub) (use \<open>counted (qs @ rs) s\<close> in \<open>auto simp: counted_def\<close>)
qed

section \<open>The state one process runs in\<close>

record view_of_one =
  vo_base :: nat
  vo_others :: nat
  vo_me :: int
  vo_known :: "int list"
  vo_ext :: "nat \<Rightarrow> nat"
  vo_trusted :: bool

definition process_inv :: "limits \<Rightarrow> view_of_one \<Rightarrow> ('w, 'f) st \<Rightarrow> bool" where
  "process_inv l x s \<longleftrightarrow> limits_ok l (vo_base x) (vo_others x) s \<and>
     (trusted l (sh s) \<longrightarrow> vo_trusted x \<and> census (vo_me x) (vo_known x) s \<and> refs_ok (vo_ext x) s \<and>
        (\<forall>k. vo_ext x k \<le> 2 * (lim_open_files l * max 1 (lim_processes l))))"

lemma process_inv_keeps:
  assumes "process_inv l x s"
    and "\<And>base others. limits_ok l base others s \<Longrightarrow> limits_ok l base others s'"
    and "\<And>me es. census me es s \<Longrightarrow> census me es s'"
    and "\<And>ext. refs_inv True ext s \<Longrightarrow> refs_ok ext s'"
    and "saturated (sh s) \<Longrightarrow> saturated (sh s')"
  shows "process_inv l x s'"
proof -
  have l: "limits_ok l (vo_base x) (vo_others x) s" using assms(1) by (simp add: process_inv_def)
  show ?thesis
  proof (cases "trusted l (sh s')")
    case True
    then have t: "modest l" "\<not> saturated (sh s)" using assms(5) by (auto simp: trusted_def)
    then have c: "census (vo_me x) (vo_known x) s" "refs_ok (vo_ext x) s"
      "vo_ext x k \<le> 2 * (lim_open_files l * max 1 (lim_processes l))" "vo_trusted x" for k
      using assms(1) by (simp_all add: process_inv_def trusted_def)
    have "roomy (vo_ext x) s" by (rule census_roomy [OF l c(1) t(2,1)]) (rule c(3))
    then have "refs_ok (vo_ext x) s'" using c(2) by (intro assms(4)) (simp add: refs_inv_def)
    then show ?thesis using assms(2) [OF l] assms(3) [OF c(1)] c(3,4) by (simp add: process_inv_def)
  qed (simp add: process_inv_def assms(2) [OF l])
qed

lemma process_inv_step:
  assumes "guest_step s s'" "process_inv l x s"
  shows "process_inv l x s'"
  by (rule process_inv_keeps [OF assms(2)])
    (auto intro: limits_steps.guest_step_keeps [OF assms(1)] census_steps.guest_step_keeps [OF assms(1)]
      floor_steps.guest_step_keeps [OF assms(1)] dest: refs_steps.guest_step_keeps [OF assms(1)])

lemma process_inv_run:
  assumes "guest_run C s s'" "process_inv l x s"
  shows "process_inv l x s'"
  using assms by (induction rule: guest_run.induct) (auto intro: process_inv_step)

lemma process_inv_dispatch:
  assumes "process_inv l x s"
  shows "process_inv l x (snd (dispatch nr a s))"
  by (rule process_inv_keeps [OF assms])
    (auto intro: limits_steps.dispatch_step census_steps.dispatch_step floor_steps.dispatch_step
      dest: refs_steps.dispatch_step)

lemma process_inv_kept:
  assumes "process_inv l x s"
    and "\<And>base others. limits_ok l base others s \<Longrightarrow> limits_ok l base others s'"
    and "\<And>me es. census me es s \<Longrightarrow> census me es s'"
    and "\<And>ext. refs_inv False ext s \<Longrightarrow> refs_inv False ext s'"
    and "saturated (sh s) \<Longrightarrow> saturated (sh s')"
  shows "process_inv l x s'"
  using assms by (intro process_inv_keeps [OF assms(1)]) (auto simp: refs_inv_def)

lemma process_inv_frame:
  assumes "process_inv l x s"
  shows "(\<And>e. ex_grown (f e) = ex_grown e) \<Longrightarrow> process_inv l x (s\<lparr>cx := (cx s)\<lparr>c_exec := f (c_exec (cx s))\<rparr>\<rparr>)"
    "length mem = length (g_mem (gs s)) \<Longrightarrow> process_inv l x (s\<lparr>gs := (gs s)\<lparr>g_mem := mem\<rparr>\<rparr>)"
    "process_inv l x (s\<lparr>gs := (gs s)\<lparr>g_sp := sp, g_mode := md\<rparr>\<rparr>)"
    "process_inv l x (set_world w s)"
    "process_inv l x (s\<lparr>sh := snd (write_output which data (sh s))\<rparr>)"
    "process_inv l x (snd (read_bytes fd staging s))" "process_inv l x (snd (write_bytes fd data s))"
  by (rule process_inv_kept [OF assms];
      blast intro: limits_steps.q_exec census_steps.q_exec refs_steps.q_exec floor_steps.q_exec
        limits_frame.k_mem census_frame.k_mem refs_frame.k_mem floor_frame.k_mem
        limits_frame.k_regs census_frame.k_regs refs_frame.k_regs floor_frame.k_regs
        limits_frame.k_outside census_frame.k_outside refs_frame.k_outside floor_frame.k_outside
        limits_frame.k_output census_frame.k_output refs_frame.k_output floor_frame.k_output
        keepsD [OF limits_frame.k_read_bytes] keepsD [OF census_frame.k_read_bytes]
        keepsD [OF refs_frame.k_read_bytes] keepsD [OF floor_frame.k_read_bytes]
        keepsD [OF limits_frame.k_write_bytes] keepsD [OF census_frame.k_write_bytes]
        keepsD [OF refs_frame.k_write_bytes] keepsD [OF floor_frame.k_write_bytes])+

section \<open>One process among the others\<close>

text \<open>What the other processes contribute, for the process \<open>p\<close> between \<open>xs\<close> and \<open>ys\<close>.\<close>

definition stands :: "limits \<Rightarrow> view_of_one \<Rightarrow> ('w, 'f, 'k) kernel \<Rightarrow> ('w, 'k) proc list \<Rightarrow> ('w, 'k) proc \<Rightarrow>
    ('w, 'k) proc list \<Rightarrow> bool" where
  "stands l x K xs p ys \<longleftrightarrow>
     vo_base x = pc_charged p \<and> vo_others x = pc_charged p + sum_list (map held (xs @ ys)) \<and>
     (\<forall>q \<in> set (xs @ ys). proc_fits l q) \<and> vo_ext x = procs_refs (xs @ ys) \<and>
     (vo_trusted x \<longrightarrow> (\<exists>m1 m2. known m1 xs \<and> known m2 ys \<and> vo_known x = m1 @ m2 @ kids (xs @ ys)))"

lemma proc_fits_refs: "proc_fits l p \<Longrightarrow> ctx_refs (pc_ctx p) k \<le> (2 + length (children (pc_ctx p))) * lim_open_files l"
  by (rule ctx_refs_bound) (auto simp: proc_fits_def ctx_fits_def)

lemma procs_refs_bound:
  assumes "\<And>p. p \<in> set ps \<Longrightarrow> proc_fits l p"
  shows "procs_refs ps k \<le> 2 * ((length ps + length (kids ps)) * lim_open_files l)"
  using assms
proof (induction ps)
  case (Cons p ps)
  from proc_fits_refs [of l p k] Cons show ?case by (simp add: algebra_simps)
qed simp

lemma procs_refs_total:
  assumes "known mes ps" "\<And>p. p \<in> set ps \<Longrightarrow> proc_fits l p" "counted (mes @ kids ps @ qs) s" "shared_fits l s"
  shows "procs_refs ps k \<le> 2 * (lim_open_files l * max 1 (lim_processes l))"
proof -
  have "length ps = length mes" using assms(1) by (simp add: known_def list_all2_lengthD)
  then have "length ps + length (kids ps) \<le> max 1 (lim_processes l)"
    using counted_length [OF assms(3)] assms(4) by (simp add: shared_fits_def)
  then have "(length ps + length (kids ps)) * lim_open_files l \<le> max 1 (lim_processes l) * lim_open_files l"
    by (rule mult_right_mono) simp
  then have "2 * ((length ps + length (kids ps)) * lim_open_files l) \<le> 2 * (lim_open_files l * max 1 (lim_processes l))"
    by (simp only: mult.commute [of "lim_open_files l"] mult_le_mono2)
  with procs_refs_bound [OF assms(2), of ps k] show ?thesis by (rule order_trans)
qed

lemma holders_session:
  "holders (procs_refs (xs @ ys)) \<lparr>sh = s, cx = pc_ctx p, gs = g\<rparr> = added (procs_refs (xs @ p # ys)) (spawn_refs s)"
  by (simp add: holders_split fun_eq_iff)

lemma session_take:
  assumes "session_inv l [] K" "k_procs K = xs @ p # ys" "length (g_mem g) = held p"
  shows "\<exists>x. process_inv l x \<lparr>sh = k_shared K, cx = pc_ctx p, gs = g\<rparr> \<and> stands l x K xs p ys"
proof -
  have f: "shared_fits l (k_shared K)" "\<And>q. q \<in> set (xs @ p # ys) \<Longrightarrow> proc_fits l q"
    "sum_list (map held (xs @ p # ys)) \<le> sh_memory_used (k_shared K)"
    using assms(1,2) by (auto simp: session_inv_def session_fits_def)
  let ?t = "trusted l (k_shared K)"
  obtain me m1 m2 where who: "?t \<Longrightarrow> known m1 xs \<and> known_as me (pc_ctx p) \<and> known m2 ys \<and>
      counted (m1 @ me # m2 @ kids (xs @ p # ys) @ spawned (k_shared K)) (k_shared K)"
    using assms(1,2) by (cases ?t) (auto simp: session_inv_def people_def known_append known_Cons)
  define x where "x = \<lparr>vo_base = pc_charged p, vo_others = pc_charged p + sum_list (map held (xs @ ys)), vo_me = me,
      vo_known = m1 @ m2 @ kids (xs @ ys), vo_ext = procs_refs (xs @ ys), vo_trusted = ?t\<rparr>"
  have "process_inv l x \<lparr>sh = k_shared K, cx = pc_ctx p, gs = g\<rparr>"
  proof -
    have "limits_ok l (vo_base x) (vo_others x) \<lparr>sh = k_shared K, cx = pc_ctx p, gs = g\<rparr>"
      using f(1,3) f(2) [of p] assms(3) by (simp add: limits_ok_split x_def proc_fits_def held_def)
    moreover
    {
      assume t: ?t
      have c: "counted (me # children (pc_ctx p) @ spawned (k_shared K) @ m1 @ m2 @ kids (xs @ ys)) (k_shared K)"
        by (rule counted_part [where M = "{#}"]) (use who [OF t] in auto)
      then have "census me (vo_known x) \<lparr>sh = k_shared K, cx = pc_ctx p, gs = g\<rparr>"
        using who [OF t] by (simp add: census_def x_def)
      moreover have "refs_ok (vo_ext x) \<lparr>sh = k_shared K, cx = pc_ctx p, gs = g\<rparr>"
        using assms(1,2) t
        by (simp add: refs_ok_def x_def session_inv_def holders_session [simplified] session_refs_def [abs_def])
      moreover have "vo_ext x k \<le> 2 * (lim_open_files l * max 1 (lim_processes l))" for k
      proof -
        have "known (m1 @ m2) (xs @ ys)" using who [OF t] by (auto simp: known_append)
        moreover have "proc_fits l q" if "q \<in> set (xs @ ys)" for q using that by (intro f(2)) auto
        moreover have "counted ((m1 @ m2) @ kids (xs @ ys) @ []) (k_shared K)"
          by (rule counted_part [OF c, where M = "mset (me # children (pc_ctx p) @ spawned (k_shared K))"]) simp
        ultimately have "procs_refs (xs @ ys) k \<le> 2 * (lim_open_files l * max 1 (lim_processes l))"
          using f(1) by (rule procs_refs_total)
        then show ?thesis by (simp add: x_def)
      qed
      ultimately have "census me (vo_known x) \<lparr>sh = k_shared K, cx = pc_ctx p, gs = g\<rparr> \<and>
        refs_ok (vo_ext x) \<lparr>sh = k_shared K, cx = pc_ctx p, gs = g\<rparr> \<and>
        (\<forall>k. vo_ext x k \<le> 2 * (lim_open_files l * max 1 (lim_processes l)))" by blast
    }
    ultimately show ?thesis by (simp add: process_inv_def) (simp add: x_def)
  qed
  moreover have "stands l x K xs p ys"
    using f(2) who by (auto simp: stands_def x_def)
  ultimately show ?thesis by blast
qed

lemma session_put:
  assumes "stands l x K xs p ys" "process_inv l x s" "pc_charged p' = pc_charged p" "pc_ctx p' = cx s"
    and "case pc_body p' of GuestBody g k \<Rightarrow> g = gs s | HostBody h \<Rightarrow> g_mem (gs s) = []"
  shows "session_inv l [] (K\<lparr>k_shared := sh s, k_procs := xs @ p' # ys\<rparr>)"
proof -
  have l: "shared_fits l (sh s)" "ctx_fits l (cx s)" "length (g_mem (gs s)) = held p'"
    "held p' + sum_list (map held (xs @ ys)) \<le> sh_memory_used (sh s)"
    using assms(1-4) by (auto simp: process_inv_def limits_ok_split stands_def held_def)
  have "proc_fits l p'"
    using l(2,3) assms(4,5) by (auto simp: proc_fits_def split: body.splits)
  then have "session_fits l [] (K\<lparr>k_shared := sh s, k_procs := xs @ p' # ys\<rparr>)"
    using l(1,4) assms(1) by (auto simp: session_fits_def stands_def)
  moreover
  {
    assume t: "trusted l (sh s)"
    then have c: "vo_trusted x" "census (vo_me x) (vo_known x) s" "refs_ok (vo_ext x) s" "\<not> saturated (sh s)"
      using assms(2) by (auto simp: process_inv_def trusted_def)
    then obtain m1 m2 where m: "known m1 xs" "known m2 ys" "vo_known x = m1 @ m2 @ kids (xs @ ys)"
      using assms(1) by (auto simp: stands_def)
    have "counted ((m1 @ vo_me x # m2) @ kids (xs @ p' # ys) @ spawned (sh s) @ []) (sh s)"
      by (rule counted_part [of "vo_me x # children (cx s) @ spawned (sh s) @ vo_known x" _ _ "{#}"])
        (use c(2,4) m(3) assms(4) in \<open>auto simp: census_def\<close>)
    moreover have "known (m1 @ vo_me x # m2) (xs @ p' # ys)"
      using m(1,2) c(2,4) assms(4) by (auto simp: known_append known_Cons census_def)
    ultimately have "people [] (K\<lparr>k_shared := sh s, k_procs := xs @ p' # ys\<rparr>)"
      unfolding people_def by (intro exI [of _ "m1 @ vo_me x # m2"] exI [of _ "[]"]) simp
    moreover have "holders (vo_ext x) s = session_refs [] (K\<lparr>k_shared := sh s, k_procs := xs @ p' # ys\<rparr>)"
      using assms(1,4) by (simp add: fun_eq_iff holders_split session_refs_def stands_def)
    ultimately have "people [] (K\<lparr>k_shared := sh s, k_procs := xs @ p' # ys\<rparr>) \<and>
        store_ok (session_refs [] (K\<lparr>k_shared := sh s, k_procs := xs @ p' # ys\<rparr>)) none none (sh_descs (sh s)) (sh_pipes (sh s))"
      using c(3) by (simp add: refs_ok_def)
  }
  ultimately show ?thesis by (simp add: session_inv_def)
qed

end
