(* ===== verification/Session_Moves.thy ===== *)
theory Session_Moves
  imports Session_State
begin

text \<open>
  Starting, replacing and ending processes keep the invariant of the session; with the steps of
  \<open>Session_State\<close> this interprets \<open>session_frame\<close>.
\<close>

section \<open>Ending\<close>

text \<open>A task that ends gives back its descriptors and leaves its status.\<close>

definition leave :: "int \<Rightarrow> task \<Rightarrow> ('w, 'f) shared \<Rightarrow> ('w, 'f) shared" where
  "leave status t s = set_exit (t_pid t) status (release_fds (t_fds t) s)"

lemma leave_same [simp]:
  "sh_limits (leave st t s) = sh_limits s" "sh_memory_used (leave st t s) = sh_memory_used s"
  "sh_stdout (leave st t s) = sh_stdout s" "sh_stderr (leave st t s) = sh_stderr s"
  "sh_next_pid (leave st t s) = sh_next_pid s" "sh_spawn (leave st t s) = sh_spawn s"
  "spawned (leave st t s) = spawned s" "spawn_refs (leave st t s) = spawn_refs s"
  by (simp_all add: leave_def set_exit_def release_fds_def spawned_def spawn_refs_def fun_eq_iff releases_slabs)

lemma leave_fits: "shared_fits l s \<Longrightarrow> shared_fits l (leave st t s)"
  using live_count_set_exit [of "t_pid t" st "sh_table s"]
  by (auto simp: shared_fits_def) (auto simp: leave_def set_exit_def release_fds_def releases_slabs)

lemma leave_store:
  assumes "store_ok (added H (task_refs t)) none none (sh_descs s) (sh_pipes s)"
  shows "store_ok H none none (sh_descs (leave st t s)) (sh_pipes (leave st t s))"
proof -
  have "store_ok (added H (count_list (fdt_drain_all (t_fds t)))) none none (sh_descs s) (sh_pipes s)"
    by (rule store_ok_mono [OF assms]) (simp_all add: count_drain_all task_refs_def)
  from store_ok_releases [OF this] show ?thesis by (simp add: leave_def set_exit_def release_fds_def)
qed

lemma counted_positive: "counted ps s \<Longrightarrow> 0 \<notin> set ps"
  by (fastforce simp: counted_def pids_ok_def alive_pid_def)

lemma leave_counted:
  assumes "counted (q # ps) s" "t_pid t \<in> {q, 0}"
  shows "counted ps (leave st t s)"
proof -
  have r: "counted (q # ps) (release_fds (t_fds t) s)"
    using assms(1) by (simp add: counted_def release_fds_def)
  show ?thesis
  proof (cases "t_pid t = q")
    case True
    then show ?thesis using counted_set_exit [of q ps "release_fds (t_fds t) s" st] r by (simp add: leave_def)
  next
    case False
    then have z: "t_pid t = 0" using assms(2) by simp
    have p: "pids_ok (sh_table (release_fds (t_fds t) s)) (sh_next_pid (release_fds (t_fds t) s))"
      using r by (simp add: counted_def)
    have "alive_pid x (table_set_exit 0 st (sh_table (release_fds (t_fds t) s)))" if "x \<in> set ps" for x
      by (rule set_exit_census(2) [OF p]) (use r that counted_positive [OF r] in \<open>auto simp: counted_def\<close>)
    then show ?thesis using r set_exit_census(1) [OF p] by (auto simp: leave_def counted_def set_exit_def z)
  qed
qed

text \<open>The tasks of an instance leave one after the other.\<close>

lemma finish_children_steps:
  assumes "finish_children t stack s = (t', s')"
  shows "t' = last (t # stack)" "shared_fits l s \<Longrightarrow> shared_fits l s'"
    "sh_memory_used s' = sh_memory_used s" "spawned s' = spawned s" "spawn_refs s' = spawn_refs s" "sh_next_pid s' = sh_next_pid s"
    "store_ok (added H (\<lambda>k. task_refs t k + sum_list (map (\<lambda>t. task_refs t k) stack))) none none (sh_descs s) (sh_pipes s) \<Longrightarrow>
      store_ok (added H (task_refs t')) none none (sh_descs s') (sh_pipes s')"
    "counted (map t_pid (butlast (t # stack)) @ ps) s \<Longrightarrow> counted ps s'"
  using assms
proof (induction stack arbitrary: t s)
  case Nil
  { case 1 then show ?case by simp }
  { case 2 then show ?case by simp }
  { case 3 then show ?case by simp }
  { case 4 then show ?case by simp }
  { case 5 then show ?case by simp }
  { case 6 then show ?case by simp }
  { case 7 then show ?case by simp }
  { case 8 then show ?case by simp }
next
  case (Cons parent rest)
  have e: "finish_children parent rest (leave (status_signaled SIGKILL) t s) = (t', s')"
    if "finish_children t (parent # rest) s = (t', s')" for t and s :: "('a, 'b) shared"
    using that by (simp add: leave_def)
  { case 1 from Cons.IH(1) [OF e [OF 1]] show ?case by simp }
  { case 2 from Cons.IH(2) [OF leave_fits [OF 2(1)] e [OF 2(2)]] show ?case . }
  { case 3 from Cons.IH(3) [OF e [OF 3]] show ?case by simp }
  { case 4 from Cons.IH(4) [OF e [OF 4]] show ?case by simp }
  { case 5 from Cons.IH(5) [OF e [OF 5]] show ?case by simp }
  { case 6 from Cons.IH(6) [OF e [OF 6]] show ?case by simp }
  { case 7
    have "store_ok (added (added H (\<lambda>k. task_refs parent k + sum_list (map (\<lambda>t. task_refs t k) rest))) (task_refs t))
        none none (sh_descs s) (sh_pipes s)"
      by (rule store_ok_mono [OF 7(1)]) simp_all
    from Cons.IH(7) [OF leave_store [OF this] e [OF 7(2)]] show ?case . }
  { case 8
    then have "counted (t_pid t # map t_pid (butlast (parent # rest)) @ ps) s" by simp
    from Cons.IH(8) [OF leave_counted [OF this] e [OF 8(2)]] show ?case by simp }
qed

lemma get_at_remove:
  "k_procs K = xs @ p # ys \<Longrightarrow> length xs = i \<Longrightarrow> remove_at i (k_procs K) = xs @ ys"
  by (simp add: remove_at_def)

lemma bottom_known: "known_as me c \<Longrightarrow> t_pid (bottom c) \<in> {me, 0}"
  by (simp add: known_as_def)

lemma sat_add_below: "a + b \<le> c \<Longrightarrow> c < U64_MAX \<Longrightarrow> sat_add_u64 a b = a + b"
  by (simp add: sat_add_u64_def)

lemma session_finish:
  assumes "session_inv l ps K"
  shows "session_inv l ps (finish_process i status K)"
proof (cases "get_at (k_procs K) i")
  case None
  with assms show ?thesis by (simp add: finish_process_def)
next
  case (Some p)
  then obtain xs ys where pr: "k_procs K = xs @ p # ys" "length xs = i" by (rule get_at_split)
  let ?c = "pc_ctx p"
  have f: "shared_fits l (k_shared K)" "\<And>q. q \<in> set (xs @ p # ys) \<Longrightarrow> proc_fits l q"
    "sum_list (map held (xs @ p # ys)) \<le> sh_memory_used (k_shared K)"
    "\<And>q. q \<in> set ps \<Longrightarrow> length (t_fds (sp_task q)) \<le> lim_open_files l"
    using assms pr(1) by (auto simp: session_inv_def session_fits_def)
  define s1 where "s1 = release_memory (held p) (k_shared K)"
  have m: "sat_add_u64 (pc_charged p) (ex_grown (c_exec ?c)) = held p"
    unfolding held_def by (rule sat_add_below [of _ _ "lim_memory l"]) (use f(1,3) in \<open>auto simp: held_def shared_fits_def\<close>)
  obtain t s2 where fc: "finish_children (c_task ?c) (c_vfork_stack ?c) s1 = (t, s2)" by fastforce
  note fin = finish_children_steps [OF fc]
  define K' where "K' = finish_process i status K"
  have K': "k_shared K' = leave status t s2" "k_procs K' = xs @ ys"
    using Some fc get_at_remove [OF pr] by (simp_all add: K'_def finish_process_def Let_def m s1_def leave_def)
  have s1: "shared_fits l s1" using f(1) by (auto simp: s1_def release_memory_def shared_fits_def intro: le_trans [OF diff_le_self])
  have same: "sh_memory_used (k_shared K') = sh_memory_used (k_shared K) - held p" "spawned (k_shared K') = spawned (k_shared K)"
    "spawn_refs (k_shared K') = spawn_refs (k_shared K)" "sh_next_pid (k_shared K') = sh_next_pid (k_shared K)"
    using fin(3-6) by (simp_all add: K' s1_def release_memory_def spawned_def spawn_refs_def fun_eq_iff)
  have "session_fits l ps K'"
    using leave_fits [OF fin(2) [OF s1]] f(2-4) same(1) by (auto simp: session_fits_def K')
  moreover
  {
    assume "trusted l (k_shared K')"
    then have t: "trusted l (k_shared K)" by (simp add: trusted_def same(4))
    then obtain m1 me m2 qs where who: "known m1 xs" "known_as me ?c" "known m2 ys" "list_all2 named qs ps"
      "counted ((m1 @ me # m2) @ kids (xs @ p # ys) @ spawned (k_shared K) @ qs) (k_shared K)"
      using assms pr(1) by (auto simp: session_inv_def people_def known_append known_Cons)
    have "counted ((m1 @ me # m2) @ kids (xs @ p # ys) @ spawned (k_shared K) @ qs) s1"
      using who(5) by (simp add: counted_def s1_def release_memory_def)
    then have "counted (map t_pid (butlast (c_task ?c # c_vfork_stack ?c)) @
        (me # (m1 @ m2) @ kids (xs @ ys) @ spawned (k_shared K) @ qs)) s1"
      by (rule counted_part [where M = "{#}"]) (simp add: children_def)
    from fin(8) [OF this] have "counted (me # (m1 @ m2) @ kids (xs @ ys) @ spawned (k_shared K) @ qs) s2" .
    then have "counted ((m1 @ m2) @ kids (xs @ ys) @ spawned (k_shared K) @ qs) (k_shared K')"
      unfolding K'(1) using bottom_known [OF who(2)] fin(1) by (intro leave_counted) (simp_all add: bottom_def)
    moreover have "known (m1 @ m2) (xs @ ys)" using who(1,3) by (auto simp: known_append)
    ultimately have "people ps K'"
      unfolding people_def K'(2) same(2) using who(4) by (intro exI [of _ "m1 @ m2"] exI [of _ qs]) simp
    moreover
    let ?H = "added (added (procs_refs (xs @ ys)) (spawn_refs (k_shared K))) (pending_refs ps)"
    have "store_ok (added ?H (\<lambda>k. task_refs (c_task ?c) k + sum_list (map (\<lambda>t. task_refs t k) (c_vfork_stack ?c)))) none none
        (sh_descs s1) (sh_pipes s1)"
    proof (rule store_ok_mono)
      show "store_ok (session_refs ps K) none none (sh_descs s1) (sh_pipes s1)"
        using assms t by (simp add: session_inv_def s1_def release_memory_def)
    qed (simp_all add: session_refs_def pr(1) ctx_refs_def)
    from leave_store [OF fin(7) [OF this], of status]
    have "store_ok (session_refs ps K') none none (sh_descs (k_shared K')) (sh_pipes (k_shared K'))"
      by (simp add: K' session_refs_def [abs_def] same(3) [unfolded K'(1)] fin(5))
        (use same(3) in \<open>simp add: K' s1_def release_memory_def spawn_refs_def [abs_def]\<close>)
    ultimately have "people ps K' \<and>
        store_ok (session_refs ps K') none none (sh_descs (k_shared K')) (sh_pipes (k_shared K'))" ..
  }
  ultimately have "session_inv l ps K'" by (simp add: session_inv_def)
  then show ?thesis by (simp add: K'_def)
qed

section \<open>Starting\<close>

text \<open>A new process takes the place of the pending one; its charge is what it holds.\<close>

lemma session_push:
  assumes "session_inv l (r # ps) K" "k_procs K' = k_procs K @ [p]" "c_task (pc_ctx p) = t"
    and "t_pid t = t_pid (sp_task r)" "t_fds t = t_fds (sp_task r)" "c_vfork_stack (pc_ctx p) = []" "c_exec_request (pc_ctx p) = None"
    and "k_shared K' = (k_shared K)\<lparr>sh_memory_used := sh_memory_used (k_shared K) + held p\<rparr>"
    and "sh_memory_used (k_shared K) + held p \<le> lim_memory l"
    and "case pc_body p of GuestBody g _ \<Rightarrow> length (g_mem g) = held p | HostBody _ \<Rightarrow> held p = 0"
  shows "session_inv l ps K'"
proof -
  have "proc_fits l p" using assms by (auto simp: proc_fits_def ctx_fits_def session_inv_def session_fits_def)
  then have "session_fits l ps K'"
    using assms(1,2,8,9) by (auto simp: session_inv_def session_fits_def shared_fits_def)
  moreover
  {
    assume "trusted l (k_shared K')"
    then have t: "trusted l (k_shared K)" by (simp add: trusted_def assms(8))
    then obtain mes q qs where who: "known mes (k_procs K)" "named q r" "list_all2 named qs ps"
      "counted (mes @ kids (k_procs K) @ spawned (k_shared K) @ q # qs) (k_shared K)"
      using assms(1) by (auto simp: session_inv_def people_def list_all2_Cons2)
    have "known_as q (pc_ctx p)"
      using who(2) assms(3,4,6,7) by (simp add: known_as_def bottom_def named_def)
    then have "known (mes @ [q]) (k_procs K')"
      unfolding assms(2) known_append using who(1) by (intro exI [of _ mes] exI [of _ "[q]"]) simp
    moreover have "kids (k_procs K') = kids (k_procs K)" by (simp add: assms(2,6) children_def)
    moreover have "counted ((mes @ [q]) @ kids (k_procs K) @ spawned (k_shared K) @ qs) (k_shared K)"
      by (rule counted_part [OF who(4), where M = "{#}"]) simp
    ultimately have "people ps K'"
      unfolding people_def using who(3)
      by (intro exI [of _ "mes @ [q]"] exI [of _ qs]) (simp add: counted_def assms(8) spawned_def)
    moreover have "session_refs ps K' = session_refs (r # ps) K"
      using assms(3,5-8)
      by (simp add: fun_eq_iff session_refs_def assms(2) ctx_refs_def task_refs_def spawn_refs_def)
    moreover have "store_ok (session_refs (r # ps) K) none none (sh_descs (k_shared K)) (sh_pipes (k_shared K))"
      using assms(1) t by (simp add: session_inv_def)
    ultimately have "people ps K' \<and>
        store_ok (session_refs ps K') none none (sh_descs (k_shared K')) (sh_pipes (k_shared K'))"
      by (simp add: assms(8))
  }
  ultimately show ?thesis by (simp add: session_inv_def)
qed

lemma release_fits: "shared_fits l s \<Longrightarrow> shared_fits l (release_fds fds s)"
  by (simp add: shared_fits_def release_fds_def releases_slabs)

text \<open>A process that could not be started is gone, whether or not its status is recorded.\<close>

lemma session_abandon:
  assumes "session_inv l (r # ps) K" "fds = t_fds (sp_task r)"
  shows "session_inv l ps (abandon fds K)"
    "session_inv l ps ((abandon fds K)\<lparr>k_shared := set_exit (t_pid (sp_task r)) st (k_shared (abandon fds K))\<rparr>)"
proof -
  let ?K = "(abandon fds K)\<lparr>k_shared := set_exit (t_pid (sp_task r)) st (k_shared (abandon fds K))\<rparr>"
  let ?left = "leave st (sp_task r) (k_shared K)"
  have shared: "k_shared ?K = ?left" by (simp add: abandon_def leave_def assms(2))
  have f: "session_fits l ps ?K" "session_fits l ps (abandon fds K)"
    using assms leave_fits [of l "k_shared K" st "sp_task r"] release_fits [of l "k_shared K" fds]
    unfolding session_inv_def session_fits_def shared
    by (simp_all add: abandon_def release_fds_def)
  {
    assume t: "trusted l (k_shared K)"
    then obtain mes q qs where who: "known mes (k_procs K)" "named q r" "list_all2 named qs ps"
      "counted (mes @ kids (k_procs K) @ spawned (k_shared K) @ q # qs) (k_shared K)"
      using assms(1) by (auto simp: session_inv_def people_def list_all2_Cons2)
    have c: "counted (q # mes @ kids (k_procs K) @ spawned (k_shared K) @ qs) (k_shared K)"
      by (rule counted_part [OF who(4), where M = "{#}"]) simp
    have 1: "counted (mes @ kids (k_procs K) @ spawned (k_shared K) @ qs) ?left"
      using who(2) by (intro leave_counted [OF c]) (simp add: named_def)
    have 2: "counted (mes @ kids (k_procs K) @ spawned (k_shared K) @ qs) (release_fds fds (k_shared K))"
      using counted_sub [OF c, of "mes @ kids (k_procs K) @ spawned (k_shared K) @ qs"] c
      by (auto simp: counted_def release_fds_def)
    have "people ps ?K" "people ps (abandon fds K)"
      unfolding people_def using who(1,3) 1 2
      by (intro exI [of _ mes] exI [of _ qs]; simp add: abandon_def leave_def assms(2) spawned_def set_exit_def release_fds_def releases_slabs)+
    moreover have "store_ok (added (added (added (procs_refs (k_procs K)) (spawn_refs (k_shared K))) (pending_refs ps)) (task_refs (sp_task r)))
        none none (sh_descs (k_shared K)) (sh_pipes (k_shared K))"
    proof (rule store_ok_mono)
      show "store_ok (session_refs (r # ps) K) none none (sh_descs (k_shared K)) (sh_pipes (k_shared K))"
        using assms(1) t by (simp add: session_inv_def)
    qed (simp_all add: session_refs_def)
    from leave_store [OF this, of st]
    have "store_ok (session_refs ps ?K) none none (sh_descs ?left) (sh_pipes ?left)"
      "store_ok (session_refs ps (abandon fds K)) none none (sh_descs ?left) (sh_pipes ?left)"
      by (simp_all add: session_refs_def [abs_def] abandon_def spawn_refs_def [abs_def] set_exit_def release_fds_def releases_slabs)
    ultimately have "people ps ?K \<and> store_ok (session_refs ps ?K) none none (sh_descs (k_shared ?K)) (sh_pipes (k_shared ?K))"
      "people ps (abandon fds K) \<and> store_ok (session_refs ps (abandon fds K)) none none
        (sh_descs (k_shared (abandon fds K))) (sh_pipes (k_shared (abandon fds K)))"
      by (simp_all add: abandon_def leave_def set_exit_def assms(2))
  }
  moreover have "trusted l (k_shared ?K) = trusted l (k_shared K)" "trusted l (k_shared (abandon fds K)) = trusted l (k_shared K)"
    by (simp_all add: trusted_def abandon_def set_exit_def release_fds_def)
  ultimately show "session_inv l ps (abandon fds K)" "session_inv l ps ?K"
    using f by (simp_all add: session_inv_def)
qed

lemma new_ctx_simps [simp]:
  "t_pid (c_task (new_ctx r)) = t_pid (sp_task r)" "t_fds (c_task (new_ctx r)) = t_fds (sp_task r)"
  "c_vfork_stack (new_ctx r) = []" "c_exec_request (new_ctx r) = None" "ex_grown (c_exec (new_ctx r)) = 0"
  by (simp_all add: new_ctx_def reset_handlers_for_exec_def exec_state_default_def)

text \<open>What \<open>start\<close> does: it pushes a process that holds what was charged, or abandons it.\<close>

lemma start_cases:
  assumes "start r K = (e, K')" "shared_fits l (k_shared K)"
  shows "e \<noteq> None \<and> K' = abandon (t_fds (sp_task r)) K \<or>
    e = None \<and> (\<exists>p. k_procs K' = k_procs K @ [p] \<and> t_pid (c_task (pc_ctx p)) = t_pid (sp_task r)
      \<and> t_fds (c_task (pc_ctx p)) = t_fds (sp_task r) \<and> c_vfork_stack (pc_ctx p) = [] \<and> c_exec_request (pc_ctx p) = None
      \<and> k_shared K' = (k_shared K)\<lparr>sh_memory_used := sh_memory_used (k_shared K) + held p\<rparr>
      \<and> sh_memory_used (k_shared K) + held p \<le> lim_memory l
      \<and> (case pc_body p of GuestBody g _ \<Rightarrow> length (g_mem g) = held p
          | HostBody h \<Rightarrow> held p = 0 \<and> (\<exists>n. HostProgram (hp_command h) = pe_kind (k_programs K ! n) \<and> n < length (k_programs K))))"
proof (cases "get_at (k_programs K) (sp_program r)")
  case None
  then show ?thesis using assms(1) by (auto simp: start_def)
next
  case (Some entry)
  have lim: "sh_limits (k_shared K) = l" "lim_memory l < U64_MAX" "sh_memory_used (k_shared K) \<le> lim_memory l"
    using assms(2) by (simp_all add: shared_fits_def)
  show ?thesis
  proof (cases "pe_kind entry")
    case (HostProgram command)
    moreover have "entry = k_programs K ! sp_program r" "sp_program r < length (k_programs K)"
      using Some by (auto simp: get_at_def split: if_splits)
    ultimately show ?thesis using assms(1) Some lim
      by (auto simp: start_def push_proc_def held_def Let_def intro!: exI [of _ "sp_program r"])
  next
    case (GuestProgram instantiate)
    show ?thesis
    proof (cases "instantiate (o_ticks (sh_out (k_shared K)))")
      case (Inl e)
      then show ?thesis using assms(1) Some GuestProgram by (auto simp: start_def)
    next
      case (Inr gk)
      obtain g k where gk: "gk = (g, k)" by fastforce
      have st: "start_guest (new_ctx r) g k K = (e, K')"
        using assms(1) Some GuestProgram Inr gk by (simp add: start_def)
      define charge where "charge = sat_add_u64 (length (g_mem g)) (sat_mul_u64 ASYNCIFY_PAGES PAGE)"
      show ?thesis
      proof (cases "lim_memory l < sat_add_u64 (sh_memory_used (k_shared K)) charge")
        case True
        then show ?thesis using st lim
          by (auto simp: start_guest_def charge_memory_def charge_def [symmetric] Let_def abandon_def)
      next
        case False
        then have u: "sat_add_u64 (sh_memory_used (k_shared K)) charge = sh_memory_used (k_shared K) + charge"
          "sh_memory_used (k_shared K) + charge \<le> lim_memory l"
          using lim(2) by (auto simp: sat_add_u64_def min_def split: if_splits)
        have "charge < U64_MAX" using u(2) lim(2) by simp
        then have c: "charge = length (g_mem g) + ASYNCIFY_PAGES * PAGE"
          by (auto simp: charge_def sat_add_u64_def sat_mul_u64_def min_def split: if_splits)
        show ?thesis
        proof (cases "g_grants g (length (g_mem g)) ASYNCIFY_PAGES")
          case False
          then show ?thesis using st lim u
            by (auto simp: start_guest_def charge_memory_def charge_def [symmetric] Let_def abandon_def mem_grow_def
                release_memory_def)
        next
          case True
          then show ?thesis using st lim u c
            by (auto simp: start_guest_def charge_memory_def charge_def [symmetric] Let_def mem_grow_def push_proc_def held_def)
        qed
      qed
    qed
  qed
qed

lemma session_start:
  assumes "session_inv l (r # ps) K" "start r K = (e, K')"
  shows "e = None \<Longrightarrow> session_inv l ps K'"
    "e = Some why \<Longrightarrow> session_inv l ps (K'\<lparr>k_shared := set_exit (t_pid (sp_task r)) st (k_shared K')\<rparr>)"
    "session_inv l ps K'"
proof -
  have f: "shared_fits l (k_shared K)" using assms(1) by (simp add: session_inv_def session_fits_def)
  note cs = start_cases [OF assms(2) f]
  show 1: "e = None \<Longrightarrow> session_inv l ps K'"
  proof -
    assume "e = None"
    then obtain p where p: "k_procs K' = k_procs K @ [p]" "t_pid (c_task (pc_ctx p)) = t_pid (sp_task r)"
      "t_fds (c_task (pc_ctx p)) = t_fds (sp_task r)" "c_vfork_stack (pc_ctx p) = []" "c_exec_request (pc_ctx p) = None"
      "k_shared K' = (k_shared K)\<lparr>sh_memory_used := sh_memory_used (k_shared K) + held p\<rparr>"
      "sh_memory_used (k_shared K) + held p \<le> lim_memory l"
      "case pc_body p of GuestBody g _ \<Rightarrow> length (g_mem g) = held p | HostBody h \<Rightarrow> held p = 0 \<and>
        (\<exists>n. HostProgram (hp_command h) = pe_kind (k_programs K ! n) \<and> n < length (k_programs K))"
      using cs by blast
    show ?thesis
      by (rule session_push [OF assms(1) p(1) refl p(2-7)]) (use p(8) in \<open>auto split: body.splits\<close>)
  qed
  show 2: "e = Some why \<Longrightarrow> session_inv l ps (K'\<lparr>k_shared := set_exit (t_pid (sp_task r)) st (k_shared K')\<rparr>)" for why
    using cs session_abandon(2) [OF assms(1) refl] by auto
  show "session_inv l ps K'"
    using cs 1 session_abandon(1) [OF assms(1) refl] by auto
qed

lemma session_start_pending: "session_inv l ps K \<Longrightarrow> session_inv l [] (start_pending ps K)"
proof (induction ps arbitrary: K)
  case (Cons r ps)
  obtain e K' where st: "start r K = (e, K')" by fastforce
  show ?case
    using session_start [OF Cons.prems st] Cons.IH by (cases e) (simp_all add: st)
qed simp

lemma session_spawned:
  assumes "session_inv l [] K"
  shows "session_inv l [] (start_spawned K)"
proof -
  define K1 where "K1 = K\<lparr>k_shared := (k_shared K)\<lparr>sh_spawn := []\<rparr>\<rparr>"
  let ?ps = "sh_spawn (k_shared K)"
  have "session_fits l ?ps K1"
    using assms by (auto simp: session_inv_def session_fits_def shared_fits_def K1_def)
  moreover
  {
    assume "trusted l (k_shared K1)"
    then have t: "trusted l (k_shared K)" by (simp add: trusted_def K1_def)
    have "list_all2 named (spawned (k_shared K)) ?ps"
      by (simp add: spawned_def list_all2_map1 named_def list_all2_same)
    moreover obtain mes where "known mes (k_procs K)" "counted (mes @ kids (k_procs K) @ spawned (k_shared K)) (k_shared K)"
      using assms t by (auto simp: session_inv_def people_def)
    ultimately have "people ?ps K1"
      unfolding people_def
      by (intro exI [of _ mes] exI [of _ "spawned (k_shared K)"]) (simp add: K1_def counted_def spawned_def)
    moreover have "session_refs ?ps K1 = session_refs [] K"
      by (simp add: fun_eq_iff session_refs_def spawn_refs_def pending_refs_def K1_def)
    ultimately have "people ?ps K1 \<and> store_ok (session_refs ?ps K1) none none (sh_descs (k_shared K1)) (sh_pipes (k_shared K1))"
      using assms t by (simp add: session_inv_def) (simp add: K1_def)
  }
  ultimately have "session_inv l ?ps K1" by (simp add: session_inv_def)
  from session_start_pending [OF this] show ?thesis by (simp add: start_spawned_def K1_def)
qed

section \<open>Replacing\<close>

lemma mset_map_via:
  assumes "mset (map f xs) = mset (map f ys)" "\<And>p. h p = g (f p)"
  shows "mset (map h xs) = mset (map h ys)"
proof -
  have "mset (map g (map f xs)) = mset (map g (map f ys))"
    unfolding mset_map assms(1) [unfolded mset_map] ..
  moreover have "h = (\<lambda>p. g (f p))" by (rule ext) (rule assms(2))
  ultimately show ?thesis by (simp add: comp_def multiset.map_comp)
qed

lemma mset_sum: "mset xs = mset ys \<Longrightarrow> sum_list xs = sum_list ys" for xs :: "'a :: comm_monoid_add list"
  by (metis sum_mset_sum_list)

text \<open>The order of the processes does not matter, nor what only the scheduler reads.\<close>

lemma session_procs:
  fixes K K' :: "('w, 'f, 'k) kernel"
  assumes "session_inv l ps K" "k_shared K' = k_shared K"
    and "mset (map (\<lambda>p. (pc_ctx p, pc_body p, pc_charged p)) (k_procs K')) =
      mset (map (\<lambda>p. (pc_ctx p, pc_body p, pc_charged p)) (k_procs K))"
  shows "session_inv l ps K'"
proof -
  define f where "f = (\<lambda>p :: ('w, 'k) proc. (pc_ctx p, pc_body p, pc_charged p))"
  have m: "mset (map f (k_procs K')) = mset (map f (k_procs K))" using assms(3) by (simp add: f_def)
  note maps = mset_map_via [OF m]
  have fits: "(\<forall>p \<in> set (k_procs K'). proc_fits l p) \<longleftrightarrow> (\<forall>p \<in> set (k_procs K). proc_fits l p)"
  proof -
    have pf: "proc_fits l p \<longleftrightarrow> (case f p of (c, b, n) \<Rightarrow> ctx_fits l c \<and>
        (case b of GuestBody g _ \<Rightarrow> length (g_mem g) = n + ex_grown (c_exec c) | HostBody _ \<Rightarrow> n + ex_grown (c_exec c) = 0))" for p
      by (simp add: f_def proc_fits_def held_def split: body.split)
    have "(\<forall>x \<in> set (map f (k_procs K')). G x) \<longleftrightarrow> (\<forall>x \<in> set (map f (k_procs K)). G x)" for G
      using mset_eq_setD [OF m] by simp
    then show ?thesis unfolding pf by simp
  qed
  have held: "sum_list (map held (k_procs K')) = sum_list (map held (k_procs K))"
  proof -
    have "mset (map held (k_procs K')) = mset (map held (k_procs K))"
      by (rule maps [where g = "\<lambda>(c, b, n). n + ex_grown (c_exec c)"]) (simp add: held_def f_def)
    then show ?thesis by (rule mset_sum)
  qed
  have refs: "procs_refs (k_procs K') = procs_refs (k_procs K)"
  proof
    fix k
    have "mset (map (\<lambda>p. ctx_refs (pc_ctx p) k) (k_procs K')) = mset (map (\<lambda>p. ctx_refs (pc_ctx p) k) (k_procs K))"
      by (rule maps [where g = "\<lambda>(c, _). ctx_refs c k"]) (simp add: f_def)
    from mset_sum [OF this] show "procs_refs (k_procs K') k = procs_refs (k_procs K) k"
      by (simp add: procs_refs_def)
  qed
  have "people ps K \<Longrightarrow> people ps K'"
  proof -
    assume "people ps K"
    then obtain mes qs where who: "list_all2 (\<lambda>m x. known_as m (fst x)) mes (map f (k_procs K))" "list_all2 named qs ps"
      "counted (mes @ kids (k_procs K) @ spawned (k_shared K) @ qs) (k_shared K)"
      by (auto simp: people_def known_def list_all2_map2 f_def)
    obtain mes' where mes: "list_all2 (\<lambda>x m. known_as m (fst x)) (map f (k_procs K')) mes'" "mset mes' = mset mes"
      using list_all2_reorder_left_invariance [OF _ m, of "\<lambda>x m. known_as m (fst x)" mes] who(1)
      by (auto simp: list_all2_conv_all_nth)
    have "mset (kids (k_procs K')) = mset (kids (k_procs K))"
    proof -
      have "mset (map (\<lambda>p. mset (children (pc_ctx p))) (k_procs K')) = mset (map (\<lambda>p. mset (children (pc_ctx p))) (k_procs K))"
        by (rule maps [where g = "\<lambda>(c, _). mset (children c)"]) (simp add: f_def)
      from mset_sum [OF this] show ?thesis
        by (simp add: kids_def mset_concat comp_def)
    qed
    then have "counted (mes' @ kids (k_procs K') @ spawned (k_shared K') @ qs) (k_shared K')"
      unfolding assms(2) by (intro counted_part [OF who(3), where M = "{#}"]) (simp add: mes(2))
    moreover have "known mes' (k_procs K')"
      using mes(1) by (simp add: known_def list_all2_conv_all_nth f_def)
    ultimately show ?thesis using who(2) by (auto simp: people_def)
  qed
  then show ?thesis
    using assms(1,2) fits held
    by (simp add: session_inv_def session_fits_def session_refs_def [abs_def] refs)
qed

lemma session_replace:
  fixes K :: "('w, 'f, 'k) kernel"
  assumes "session_inv l [] K"
  shows "session_inv l [] (snd (replace_instance i K))"
proof (cases "get_at (k_procs K) i")
  case None
  with assms show ?thesis by (simp add: replace_instance_def)
next
  case (Some p)
  then obtain xs ys where pr: "k_procs K = xs @ p # ys" "length xs = i" by (rule get_at_split)
  show ?thesis
  proof (cases "c_exec_request (pc_ctx p)")
    case None
    with assms Some show ?thesis by (simp add: replace_instance_def)
  next
    case req: (Some request)
    have f: "shared_fits l (k_shared K)" "\<And>q. q \<in> set (xs @ p # ys) \<Longrightarrow> proc_fits l q"
      "sum_list (map held (xs @ p # ys)) \<le> sh_memory_used (k_shared K)"
      using assms pr(1) by (auto simp: session_inv_def session_fits_def)
    define K1 where "K1 = K\<lparr>k_procs := xs @ ys, k_shared := release_memory (held p) (k_shared K)\<rparr>"
    have m: "sat_add_u64 (pc_charged p) (ex_grown (c_exec (pc_ctx p))) = held p"
      unfolding held_def by (rule sat_add_below [of _ _ "lim_memory l"]) (use f(1,3) in \<open>auto simp: held_def shared_fits_def\<close>)
    have K1: "K\<lparr>k_procs := remove_at i (k_procs K), k_shared := release_memory (held p) (k_shared K)\<rparr> = K1"
      using get_at_remove [OF pr] by (simp add: K1_def)
    have "length (t_fds (sp_task request)) \<le> lim_open_files l"
      using f(2) [of p] req by (simp add: proc_fits_def ctx_fits_def)
    then have "session_fits l [request] K1"
      using f by (auto simp: session_fits_def K1_def shared_fits_def release_memory_def intro: le_trans [OF diff_le_self])
    moreover
    {
      assume "trusted l (k_shared K1)"
      then have t: "trusted l (k_shared K)" by (simp add: trusted_def K1_def release_memory_def)
      then obtain m1 me m2 where who: "known m1 xs" "known_as me (pc_ctx p)" "known m2 ys"
        "counted ((m1 @ me # m2) @ kids (xs @ p # ys) @ spawned (k_shared K)) (k_shared K)"
        using assms pr(1) by (auto simp: session_inv_def people_def known_append known_Cons)
      have "counted ((m1 @ m2) @ kids (xs @ ys) @ spawned (k_shared K) @ [me]) (k_shared K)"
        by (rule counted_part [OF who(4), where M = "mset (children (pc_ctx p))"]) simp
      moreover have "known (m1 @ m2) (xs @ ys)" using who(1,3) by (auto simp: known_append)
      moreover have "named me request" using who(2) req by (simp add: known_as_def named_def)
      ultimately have "people [request] K1"
        unfolding people_def
        by (intro exI [of _ "m1 @ m2"] exI [of _ "[me]"])
          (simp add: K1_def counted_def spawned_def release_memory_def)
      moreover have "store_ok (session_refs [request] K1) none none (sh_descs (k_shared K1)) (sh_pipes (k_shared K1))"
      proof (rule store_ok_mono)
        show "store_ok (session_refs [] K) none none (sh_descs (k_shared K1)) (sh_pipes (k_shared K1))"
          using assms t by (simp add: session_inv_def K1_def release_memory_def)
      qed (simp_all add: session_refs_def pr(1) K1_def ctx_refs_def req spawn_refs_def release_memory_def)
      ultimately have "people [request] K1 \<and>
        store_ok (session_refs [request] K1) none none (sh_descs (k_shared K1)) (sh_pipes (k_shared K1))" ..
    }
    ultimately have 1: "session_inv l [request] K1" by (simp add: session_inv_def)
    obtain e K2 where st: "start request K1 = (e, K2)" by fastforce
    note after = session_start [OF 1 st]
    show ?thesis
    proof (cases e)
      case None
      define qs where "qs = (case rev (k_procs K2) of [] \<Rightarrow> []
        | new # others \<Rightarrow> take (min i (length others)) (rev others) @ [new] @ drop (min i (length others)) (rev others))"
      have "mset qs = mset (k_procs K2)"
      proof (cases "rev (k_procs K2)")
        case (Cons new others)
        have "mset (k_procs K2) = mset (rev (k_procs K2))" by simp
        moreover have "mset (take j us) + mset (drop j us) = mset us" for j and us :: "('w, 'k) proc list"
          by (metis append_take_drop_id mset_append)
        note this [of _ "rev others"]
        ultimately show ?thesis using Cons by (simp add: qs_def)
      qed (simp add: qs_def)
      then have "session_inv l [] (K2\<lparr>k_procs := qs\<rparr>)"
        by (intro session_procs [OF after(1) [OF None]]) simp_all
      then show ?thesis
        by (simp add: replace_instance_def Some req m K1 [unfolded K1_def] K1_def [symmetric] st None Let_def qs_def
            split: list.splits)
    next
      case (Some why)
      from after(2) [OF Some, of "status_exited 126"] show ?thesis
        by (simp add: replace_instance_def \<open>get_at (k_procs K) i = Some p\<close> req m K1 st Some Let_def)
    qed
  qed
qed

end
