(* ===== verification/Session_View.thy ===== *)
theory Session_View
  imports Session_Frame Read_Only
begin

text \<open>
  Read-only mounts over a whole session.  A host command runs outside the kernel, with the world
  in its hands; those that leave the view alone are \<open>quiet\<close>.
\<close>

definition quiet :: "('w \<Rightarrow> 'c) \<Rightarrow> 'w host_command \<Rightarrow> bool" where
  "quiet view h \<longleftrightarrow> (\<forall>call w. view (snd (hc_run h call w)) = view w)"

definition quiet_body :: "('w \<Rightarrow> 'c) \<Rightarrow> ('w, 'k) body \<Rightarrow> bool" where
  "quiet_body view b \<longleftrightarrow> (case b of HostBody h \<Rightarrow> quiet view (hp_command h) | GuestBody _ _ \<Rightarrow> True)"

definition quiet_program :: "('w \<Rightarrow> 'c) \<Rightarrow> ('w, 'k) program_entry \<Rightarrow> bool" where
  "quiet_program view e \<longleftrightarrow> (case pe_kind e of HostProgram h \<Rightarrow> quiet view h | GuestProgram _ \<Rightarrow> True)"

definition session_view ::
  "('w \<Rightarrow> 'c) \<Rightarrow> ('f \<Rightarrow> nat \<Rightarrow> bool) \<Rightarrow> ('w, 'f) mounts \<Rightarrow> ('w, 'f) file_ops \<Rightarrow> 'c \<Rightarrow> ('w, 'f, 'k) kernel \<Rightarrow> bool" where
  "session_view view owns ms fo c K \<longleftrightarrow>
     view_ok view owns ms fo c (k_shared K) \<and> (\<forall>e \<in> set (k_programs K). quiet_program view e) \<and>
     (\<forall>p \<in> set (k_procs K). quiet_body view (pc_body p))"

lemma view_quiet_state:
  assumes "view_ok view owns ms fo c s"
  shows "view_ok view owns ms fo c (set_exit pid status s)" "view_ok view owns ms fo c (release_memory n s)"
    "view_ok view owns ms fo c (snd (charge_memory n s))" "view_ok view owns ms fo c (release_fds t s)"
    "view_ok view owns ms fo c (s\<lparr>sh_spawn := l\<rparr>)"
  using assms view_releases [OF assms, of "fdt_drain_all t"]
  by (auto intro!: view_shared [OF assms] simp: set_exit_def release_memory_def charge_memory_def release_fds_def Let_def)

lemma view_finish_children:
  "finish_children t stack s = (t', s') \<Longrightarrow> view_ok view owns ms fo c s \<Longrightarrow> view_ok view owns ms fo c s'"
  by (induction stack arbitrary: t s) (auto intro: view_quiet_state)

lemma view_finish:
  assumes "session_view view owns ms fo c K"
  shows "session_view view owns ms fo c (finish_process i status K)"
proof (cases "get_at (k_procs K) i")
  case None
  with assms show ?thesis by (simp add: finish_process_def)
next
  case (Some p)
  obtain t s2 where fc: "finish_children (c_task (pc_ctx p)) (c_vfork_stack (pc_ctx p))
      (release_memory (sat_add_u64 (pc_charged p) (ex_grown (c_exec (pc_ctx p)))) (k_shared K)) = (t, s2)" by fastforce
  have "view_ok view owns ms fo c s2"
    using assms by (intro view_finish_children [OF fc] view_quiet_state) (simp add: session_view_def)
  then have "view_ok view owns ms fo c (set_exit (t_pid t) status (release_fds (t_fds t) s2))"
    by (intro view_quiet_state)
  moreover have "set (remove_at i (k_procs K)) \<subseteq> set (k_procs K)"
    by (auto simp: remove_at_def dest: in_set_takeD in_set_dropD)
  ultimately show ?thesis using assms
    by (auto simp: finish_process_def Some fc Let_def session_view_def)
qed

lemma view_start:
  assumes "session_view view owns ms fo c K" "start r K = (e, K')"
  shows "session_view view owns ms fo c K'"
proof -
  have s: "view_ok view owns ms fo c (k_shared K)" using assms(1) by (simp add: session_view_def)
  have ab: "session_view view owns ms fo c (abandon fds (K\<lparr>k_shared := s'\<rparr>))" if "view_ok view owns ms fo c s'" for fds s'
    using assms(1) view_quiet_state(4) [OF that] by (simp add: abandon_def session_view_def)
  have ab0: "session_view view owns ms fo c (abandon fds K)" for fds
    using ab [OF s, of fds] by simp
  have pg: "session_view view owns ms fo c (push_proc p (K\<lparr>k_shared := s'\<rparr>))"
    if "view_ok view owns ms fo c s'" "quiet_body view (pc_body p)" for p s'
    using assms(1) that by (simp add: push_proc_def session_view_def)
  show ?thesis
  proof (cases "get_at (k_programs K) (sp_program r)")
    case None
    then show ?thesis using assms(2) ab0 by (auto simp: start_def)
  next
    case (Some entry)
    then have q: "quiet_program view entry"
      using assms(1) by (auto simp: session_view_def get_at_def split: if_splits)
    show ?thesis
    proof (cases "pe_kind entry")
      case (HostProgram h)
      then have "quiet view h" using q by (simp add: quiet_program_def)
      then show ?thesis using assms(2) Some HostProgram pg [OF s]
        by (auto simp: start_def Let_def quiet_body_def)
    next
      case (GuestProgram f)
      have "session_view view owns ms fo c (snd (start_guest ctx g k K))" for ctx g k
      proof -
        define n where "n = sat_add_u64 (length (g_mem g)) (sat_mul_u64 ASYNCIFY_PAGES PAGE)"
        obtain b s1 where ch: "charge_memory n (k_shared K) = (b, s1)" by fastforce
        have s1: "view_ok view owns ms fo c s1" using view_quiet_state(3) [OF s, of n] ch by simp
        show ?thesis
          unfolding start_guest_def n_def [symmetric] Let_def ch
          using ab [OF s1] ab [OF view_quiet_state(2) [OF s1]] pg [OF s1]
          by (auto simp: quiet_body_def split: bool.split prod.split option.split)
      qed
      then have "session_view view owns ms fo c K'" if "start_guest ctx g k K = (e, K')" for ctx g k
        using that by (metis snd_conv)
      then show ?thesis using assms(2) Some GuestProgram ab0
        by (auto simp: start_def Let_def split: sum.splits)
    qed
  qed
qed

lemma view_start_pending: "session_view view owns ms fo c K \<Longrightarrow> session_view view owns ms fo c (start_pending ps K)"
proof (induction ps arbitrary: K)
  case (Cons r ps)
  obtain e K' where st: "start r K = (e, K')" by fastforce
  have K': "session_view view owns ms fo c K'" by (rule view_start [OF Cons.prems st])
  then have "session_view view owns ms fo c (K'\<lparr>k_shared := set_exit q n (k_shared K')\<rparr>)" for q n
    by (simp add: session_view_def view_quiet_state)
  then show ?case using K' Cons.IH by (cases e) (simp_all add: st)
qed simp

lemma view_replace:
  assumes "session_view view owns ms fo c K"
  shows "session_view view owns ms fo c (snd (replace_instance i K))"
proof (cases "get_at (k_procs K) i")
  case None
  with assms show ?thesis by (simp add: replace_instance_def)
next
  case (Some p)
  show ?thesis
  proof (cases "c_exec_request (pc_ctx p)")
    case None
    with assms Some show ?thesis by (simp add: replace_instance_def)
  next
    case req: (Some request)
    define K1 where "K1 = K\<lparr>k_procs := remove_at i (k_procs K),
      k_shared := release_memory (sat_add_u64 (pc_charged p) (ex_grown (c_exec (pc_ctx p)))) (k_shared K)\<rparr>"
    have "set (remove_at i (k_procs K)) \<subseteq> set (k_procs K)"
      by (auto simp: remove_at_def dest: in_set_takeD in_set_dropD)
    moreover have "view_ok view owns ms fo c (release_memory n (k_shared K))" for n
      using assms by (simp add: session_view_def view_quiet_state)
    ultimately have K1: "session_view view owns ms fo c K1"
      using assms by (auto simp: K1_def session_view_def)
    obtain e K2 where st: "start request K1 = (e, K2)" by fastforce
    have K2: "session_view view owns ms fo c K2" by (rule view_start [OF K1 st])
    show ?thesis
    proof (cases e)
      case None
      define qs where "qs = (case rev (k_procs K2) of [] \<Rightarrow> []
        | new # others \<Rightarrow> (let ps = rev others; j = min i (length ps) in take j ps @ [new] @ drop j ps))"
      have "set qs \<subseteq> set (k_procs K2)"
      proof (cases "rev (k_procs K2)")
        case (Cons new others)
        have "set (rev (k_procs K2)) = insert new (set others)" by (simp only: Cons list.set)
        then have "set (k_procs K2) = insert new (set others)" by simp
        moreover have "set (take j (rev others)) \<subseteq> set others" "set (drop j (rev others)) \<subseteq> set others" for j
          using set_take_subset [of j "rev others"] set_drop_subset [of j "rev others"] by simp_all
        ultimately show ?thesis by (simp add: qs_def Let_def Cons subset_insertI2)
      qed (simp add: qs_def)
      then have "session_view view owns ms fo c (K2\<lparr>k_procs := qs\<rparr>)"
        using K2 by (auto simp: session_view_def)
      moreover have "snd (replace_instance i K) = K2\<lparr>k_procs := qs\<rparr>"
        unfolding replace_instance_def Some req option.case Let_def K1_def [symmetric] st None qs_def by simp
      ultimately show ?thesis by simp
    next
      case (Some why)
      have "snd (replace_instance i K) = K2\<lparr>k_shared := set_exit (t_pid (sp_task request)) (status_exited 126) (k_shared K2)\<rparr>"
        unfolding replace_instance_def \<open>get_at (k_procs K) i = Some p\<close> req option.case Let_def K1_def [symmetric] st Some by simp
      then show ?thesis using K2 by (simp add: session_view_def view_quiet_state)
    qed
  qed
qed

text \<open>The state one process runs in, and how it goes back.\<close>

definition viewed ::
  "('w \<Rightarrow> 'c) \<Rightarrow> unit \<Rightarrow> ('w, 'f, 'k) kernel \<Rightarrow> ('w, 'k) proc list \<Rightarrow> ('w, 'k) proc \<Rightarrow> ('w, 'k) proc list \<Rightarrow> bool" where
  "viewed view u K xs p ys \<longleftrightarrow> (\<forall>e \<in> set (k_programs K). quiet_program view e) \<and>
     (\<forall>q \<in> set (xs @ ys). quiet_body view (pc_body q))"

interpretation view_session: session_frame
  "session_view view owns ms fo c :: ('w, 'f, 'k) kernel \<Rightarrow> bool"
  "\<lambda>_ :: unit. view_inv view owns ms fo c" "viewed view" "quiet view"
proof
  fix K :: "('w, 'f, 'k) kernel" and xs p ys g k
  assume "session_view view owns ms fo c K" "k_procs K = xs @ p # ys"
  then show "\<exists>x. view_inv view owns ms fo c \<lparr>sh = k_shared K, cx = pc_ctx p, gs = g\<rparr> \<and> viewed view x K xs p ys"
    by (auto simp: session_view_def viewed_def)
next
  fix K :: "('w, 'f, 'k) kernel" and xs p ys h
  assume "session_view view owns ms fo c K" "k_procs K = xs @ p # ys" "pc_body p = HostBody h"
  then show "quiet view (hp_command h) \<and>
      (\<exists>x. view_inv view owns ms fo c \<lparr>sh = k_shared K, cx = pc_ctx p, gs = no_guest\<rparr> \<and> viewed view x K xs p ys)"
    by (auto simp: session_view_def viewed_def quiet_body_def)
next
  fix x and K :: "('w, 'f, 'k) kernel" and xs p ys g k k' r and s :: "('w, 'f) st"
  assume "viewed view x K xs p ys" "view_inv view owns ms fo c s"
  then show "session_view view owns ms fo c (K\<lparr>k_shared := sh s,
      k_procs := xs @ p\<lparr>pc_ctx := cx s, pc_body := GuestBody (gs s) k', pc_resume := r\<rparr> # ys\<rparr>)"
    by (auto simp: session_view_def viewed_def quiet_body_def)
next
  fix x and K :: "('w, 'f, 'k) kernel" and xs p ys and h h' :: "'w host_proc" and s :: "('w, 'f) st"
  assume "viewed view x K xs p ys" "view_inv view owns ms fo c s" "hp_command h' = hp_command h"
    "quiet view (hp_command h)"
  then show "session_view view owns ms fo c (K\<lparr>k_shared := sh s,
      k_procs := xs @ p\<lparr>pc_ctx := cx s, pc_body := HostBody h'\<rparr> # ys\<rparr>)"
    by (auto simp: session_view_def viewed_def quiet_body_def)
next
  fix s s' :: "('w, 'f) st"
  assume "view_inv view owns ms fo c s" and g: "guest_run (\<lambda>_. True) s s'"
  from g this(1) show "view_inv view owns ms fo c s'" by (rule view_steps.guest_run_keeps)
next
  fix s :: "('w, 'f) st" and h call res w
  assume "quiet view h" "view_inv view owns ms fo c s" "hc_run h call (world_of s) = (res, w)"
  moreover from this have "view w = view (world_of s)" by (metis quiet_def snd_conv)
  ultimately show "view_inv view owns ms fo c (set_world w s)" by (simp add: view_ok_def)
next
  show "keeps (view_inv view owns ms fo c) (read_bytes fd staging :: ('w, 'f, _) sys)"
    "keeps (view_inv view owns ms fo c) (write_bytes fd data :: ('w, 'f, _) sys)" for fd staging data
    by (rule view_frame.k_read_bytes view_frame.k_write_bytes)+
next
  fix K :: "('w, 'f, 'k) kernel" and ps :: "('w, 'k) proc list"
  assume i: "session_view view owns ms fo c K" and
    m: "map (\<lambda>p. (pc_ctx p, pc_body p, pc_charged p)) ps = map (\<lambda>p. (pc_ctx p, pc_body p, pc_charged p)) (k_procs K)"
  have "pc_body ` set ps = pc_body ` set (k_procs K)"
    using arg_cong [OF m, of "\<lambda>l. (fst \<circ> snd) ` set l"] by (simp add: image_image)
  then show "session_view view owns ms fo c (K\<lparr>k_procs := ps\<rparr>)"
    using i unfolding session_view_def by (simp, metis (no_types, lifting) imageE imageI)
next
  fix K :: "('w, 'f, 'k) kernel" and n b and e :: "int option"
  assume i: "session_view view owns ms fo c K"
  then have v: "view_ok view owns ms fo c (k_shared K)" by (simp add: session_view_def)
  show "session_view view owns ms fo c (K\<lparr>k_shared := (k_shared K)\<lparr>sh_out := (sh_out (k_shared K))\<lparr>o_ticks := n\<rparr>\<rparr>\<rparr>)"
    "session_view view owns ms fo c (K\<lparr>k_shared := (k_shared K)\<lparr>sh_vfs_pending := b\<rparr>\<rparr>)"
    "session_view view owns ms fo c (K\<lparr>k_shared := (k_shared K)\<lparr>sh_host_pending := b\<rparr>\<rparr>)"
    "session_view view owns ms fo c (K\<lparr>k_exit := e\<rparr>)"
    using i v by (simp_all add: session_view_def view_ok_def)
next
  show "session_view view owns ms fo c (start_spawned K)" if "session_view view owns ms fo c K"
    for K :: "('w, 'f, 'k) kernel"
    using that unfolding start_spawned_def
    by (intro view_start_pending) (simp add: session_view_def view_quiet_state)
qed (erule view_steps.dispatch_step view_finish view_replace | simp add: view_ok_def)+

end
