(* ===== verification/Api.thy ===== *)
theory Api
  imports Scheduler
begin

text \<open>
  The library's interface (\<open>lib.rs\<close>): building a sandbox, preparing a command, and driving a
  session.  What the build generates is an argument: the layout of the shipped images
  (\<open>programs::layout()\<close>) and the backend's table of built-in programs.  The filesystems share
  their state between sessions, so a session is started on the state outside.
\<close>

section \<open>Errors\<close>

datatype api_error =
    LoadFailed load_error
  | NoSuchProgram string
  | WouldBlock
  | NoProgress
  | BadMountPoint string
  | NoMounts
  | NoPrograms

text \<open>\<open>Display\<close>; \<open>quote\<close> is the \<open>Debug\<close> of a string, which escapes by Unicode tables.\<close>

fun show_error :: "(string \<Rightarrow> string) \<Rightarrow> api_error \<Rightarrow> string" where
  "show_error quote (LoadFailed e) = show_load_error e"
| "show_error quote (NoSuchProgram name) = ''no such program: '' @ name"
| "show_error quote WouldBlock = ''the filesystem needs to be awaited; drive this command with Session::step''"
| "show_error quote NoProgress = ''every process is blocked with nothing to wait for''"
| "show_error quote (BadMountPoint at) = ''mount point '' @ quote at @ '' must be an absolute path''"
| "show_error quote NoMounts = ''nothing is mounted''"
| "show_error quote NoPrograms =
     ''no programs are available: this build has no usable backend. '' @
     ''Enable the `interp` feature, or build bin/libwasmux-images.a for this target.''"

section \<open>The shipped programs\<close>

record image_layout =
  im_image :: string
  im_commands :: "(string \<times> string) list"

record program_info =
  pi_name :: string
  pi_path :: string

text \<open>\<open>dedup_by\<close> on the names: the first of a run of equal ones stays.\<close>

fun dedup_infos :: "program_info list \<Rightarrow> program_info list" where
  "dedup_infos (a # b # rest) =
     (if pi_name a = pi_name b then dedup_infos (a # rest) else a # dedup_infos (b # rest))"
| "dedup_infos infos = infos"

definition commands :: "image_layout list \<Rightarrow> program_info list" where
  "commands layouts =
     dedup_infos (sort_key pi_name
       (concat (map (\<lambda>im. map (\<lambda>(name, path). \<lparr>pi_name = name, pi_path = path\<rparr>) (im_commands im)) layouts)))"

section \<open>Building a sandbox\<close>

record 'w host_entry =
  he_name :: string
  he_path :: string
  he_command :: "'w host_command"

record ('w, 'f) builder =
  b_mounts :: "('w, 'f) mount list"
  b_limits :: limits
  b_env :: "(string \<times> string) list"
  b_cwd :: string
  b_programs :: "string list option"
  b_commands :: "'w host_entry list"

record ('w, 'f, 'k) sandbox =
  sb_mounts :: "('w, 'f) mounts"
  sb_overlay :: overlay
  sb_programs :: "('w, 'k) program_entry list"
  sb_by_name :: "(string \<times> nat \<times> string) list"
  sb_limits :: limits
  sb_env :: "(string \<times> string) list"
  sb_cwd :: string

definition builder_new :: "('w, 'f) builder" where
  "builder_new =
     \<lparr>b_mounts = [], b_limits = limits_default,
      b_env = [(''PATH'', ''/bin:/usr/bin:/sbin:/usr/sbin''), (''HOME'', ''/''), (''TERM'', ''dumb''), (''PS1'', ''$ '')],
      b_cwd = ''/'', b_programs = None, b_commands = []\<rparr>"

definition mount_arc :: "string \<Rightarrow> ('w, 'f) vfs \<Rightarrow> bool \<Rightarrow> ('w, 'f) builder \<Rightarrow> ('w, 'f) builder" where
  "mount_arc at v read_only b =
     b\<lparr>b_mounts := b_mounts b @ [\<lparr>mnt_at = at, mnt_vfs = v, mnt_read_only = read_only\<rparr>]\<rparr>"

definition mount_rw :: "string \<Rightarrow> ('w, 'f) vfs \<Rightarrow> ('w, 'f) builder \<Rightarrow> ('w, 'f) builder" where
  "mount_rw at v b = b\<lparr>b_mounts := b_mounts b @ [\<lparr>mnt_at = at, mnt_vfs = v, mnt_read_only = False\<rparr>]\<rparr>"

definition mount_ro :: "string \<Rightarrow> ('w, 'f) vfs \<Rightarrow> ('w, 'f) builder \<Rightarrow> ('w, 'f) builder" where
  "mount_ro at v b = b\<lparr>b_mounts := b_mounts b @ [\<lparr>mnt_at = at, mnt_vfs = v, mnt_read_only = True\<rparr>]\<rparr>"

definition with_limits :: "limits \<Rightarrow> ('w, 'f) builder \<Rightarrow> ('w, 'f) builder" where
  "with_limits l b = b\<lparr>b_limits := l\<rparr>"

text \<open>Setting a variable takes its old setting away.\<close>

definition set_env :: "string \<Rightarrow> string \<Rightarrow> (string \<times> string) list \<Rightarrow> (string \<times> string) list" where
  "set_env key v env = filter (\<lambda>(k, _). k \<noteq> key) env @ [(key, v)]"

definition builder_env :: "string \<Rightarrow> string \<Rightarrow> ('w, 'f) builder \<Rightarrow> ('w, 'f) builder" where
  "builder_env key v b = b\<lparr>b_env := set_env key v (b_env b)\<rparr>"

definition clear_env :: "('w, 'f) builder \<Rightarrow> ('w, 'f) builder" where
  "clear_env b = b\<lparr>b_env := []\<rparr>"

definition builder_dir :: "string \<Rightarrow> ('w, 'f) builder \<Rightarrow> ('w, 'f) builder" where
  "builder_dir path b = b\<lparr>b_cwd := path\<rparr>"

definition only_programs :: "string list \<Rightarrow> ('w, 'f) builder \<Rightarrow> ('w, 'f) builder" where
  "only_programs names b = b\<lparr>b_programs := Some names\<rparr>"

definition command_at :: "string \<Rightarrow> string \<Rightarrow> 'w host_command \<Rightarrow> ('w, 'f) builder \<Rightarrow> ('w, 'f) builder" where
  "command_at name path c b = b\<lparr>b_commands := b_commands b @ [\<lparr>he_name = name, he_path = path, he_command = c\<rparr>]\<rparr>"

definition add_command :: "string \<Rightarrow> 'w host_command \<Rightarrow> ('w, 'f) builder \<Rightarrow> ('w, 'f) builder" where
  "add_command name c b = command_at name (''/usr/bin/'' @ name) c b"

text \<open>The tables: programs, the overlay's paths, and the commands by name.\<close>

record ('w, 'k) tables =
  tb_entries :: "('w, 'k) program_entry list"
  tb_paths :: "(string \<times> nat) list"
  tb_names :: "(string \<times> nat \<times> string) list"

definition tables_empty :: "('w, 'k) tables" where
  "tables_empty = \<lparr>tb_entries = [], tb_paths = [], tb_names = []\<rparr>"

definition name_command :: "nat \<Rightarrow> string \<Rightarrow> string \<Rightarrow> ('w, 'k) tables \<Rightarrow> ('w, 'k) tables" where
  "name_command i name path t =
     t\<lparr>tb_paths := bt_insert path i (tb_paths t), tb_names := bt_insert name (i, path) (tb_names t)\<rparr>"

definition push_entry :: "string \<Rightarrow> ('w, 'k) program_kind \<Rightarrow> ('w, 'k) tables \<Rightarrow> ('w, 'k) tables" where
  "push_entry name kind t = t\<lparr>tb_entries := tb_entries t @ [\<lparr>pe_name = name, pe_kind = kind\<rparr>]\<rparr>"

definition add_layout ::
  "(string \<Rightarrow> (nat \<Rightarrow> load_error + guest \<times> 'k) option) \<Rightarrow> string list option \<Rightarrow> image_layout \<Rightarrow>
   ('w, 'k) tables \<Rightarrow> ('w, 'k) tables" where
  "add_layout builtin wanted im t =
     (case builtin (im_image im) of
        None \<Rightarrow> t
      | Some program \<Rightarrow>
          fold (\<lambda>(name, path). if (case wanted of Some allowed \<Rightarrow> name \<in> set allowed | None \<Rightarrow> True)
                 then name_command (length (tb_entries t)) name path else id)
            (im_commands im) (push_entry (im_image im) (GuestProgram program) t))"

definition add_host :: "'w host_entry \<Rightarrow> ('w, 'k) tables \<Rightarrow> ('w, 'k) tables" where
  "add_host h t =
     name_command (length (tb_entries t)) (he_name h) (he_path h) (push_entry (he_name h) (HostProgram (he_command h)) t)"

definition build_tables ::
  "image_layout list \<Rightarrow> (string \<Rightarrow> (nat \<Rightarrow> load_error + guest \<times> 'k) option) \<Rightarrow> ('w, 'f) builder \<Rightarrow> ('w, 'k) tables" where
  "build_tables layouts builtin b =
     fold add_host (b_commands b) (fold (add_layout builtin (b_programs b)) layouts tables_empty)"

definition good_mount_point :: "string \<Rightarrow> bool" where
  "good_mount_point at \<longleftrightarrow> at = join (normalize ''/'' at)"

definition build ::
  "image_layout list \<Rightarrow> (string \<Rightarrow> (nat \<Rightarrow> load_error + guest \<times> 'k) option) \<Rightarrow> ('w, 'f) builder \<Rightarrow>
   api_error + ('w, 'f, 'k) sandbox" where
  "build layouts builtin b =
     (case List.find (\<lambda>m. \<not> good_mount_point (mnt_at m)) (b_mounts b) of
        Some m \<Rightarrow> Inl (BadMountPoint (mnt_at m))
      | None \<Rightarrow>
          if b_mounts b = [] then Inl NoMounts
          else let t = build_tables layouts builtin b in
            if tb_entries t = [] then Inl NoPrograms
            else Inr \<lparr>sb_mounts = mounts_new (b_mounts b), sb_overlay = overlay_new (tb_paths t),
                      sb_programs = tb_entries t, sb_by_name = tb_names t, sb_limits = b_limits b,
                      sb_env = b_env b, sb_cwd = b_cwd b\<rparr>)"

definition programs :: "('w, 'f, 'k) sandbox \<Rightarrow> program_info list" where
  "programs sb = map (\<lambda>(name, _, path). \<lparr>pi_name = name, pi_path = path\<rparr>) (sb_by_name sb)"

definition has_program :: "string \<Rightarrow> ('w, 'f, 'k) sandbox \<Rightarrow> bool" where
  "has_program name sb \<longleftrightarrow> map_of (sb_by_name sb) name \<noteq> None"

section \<open>Commands\<close>

record prepared =
  cm_program :: string
  cm_args :: "string list"
  cm_env :: "(string \<times> string) list"
  cm_cwd :: string
  cm_stdin :: bytes
  cm_stdin_closed :: bool
  cm_terminal :: "(u16 \<times> u16) option"

definition command :: "string \<Rightarrow> ('w, 'f, 'k) sandbox \<Rightarrow> prepared" where
  "command program sb =
     \<lparr>cm_program = program, cm_args = [], cm_env = sb_env sb, cm_cwd = sb_cwd sb, cm_stdin = [],
      cm_stdin_closed = True, cm_terminal = None\<rparr>"

definition cmd_args :: "string list \<Rightarrow> prepared \<Rightarrow> prepared" where
  "cmd_args vs c = c\<lparr>cm_args := cm_args c @ vs\<rparr>"

definition cmd_arg :: "string \<Rightarrow> prepared \<Rightarrow> prepared" where
  "cmd_arg v c = c\<lparr>cm_args := cm_args c @ [v]\<rparr>"

definition shell :: "string \<Rightarrow> ('w, 'f, 'k) sandbox \<Rightarrow> prepared" where
  "shell script sb = cmd_arg script (cmd_arg ''-c'' (command ''sh'' sb))"

definition cmd_env :: "string \<Rightarrow> string \<Rightarrow> prepared \<Rightarrow> prepared" where
  "cmd_env key v c = c\<lparr>cm_env := set_env key v (cm_env c)\<rparr>"

definition cmd_dir :: "string \<Rightarrow> prepared \<Rightarrow> prepared" where
  "cmd_dir path c = c\<lparr>cm_cwd := path\<rparr>"

definition cmd_stdin :: "bytes \<Rightarrow> prepared \<Rightarrow> prepared" where
  "cmd_stdin bs c = c\<lparr>cm_stdin := bs, cm_stdin_closed := True\<rparr>"

definition interactive_stdin :: "prepared \<Rightarrow> prepared" where
  "interactive_stdin c = c\<lparr>cm_stdin_closed := False\<rparr>"

definition cmd_terminal :: "u16 \<Rightarrow> u16 \<Rightarrow> prepared \<Rightarrow> prepared" where
  "cmd_terminal w h c = c\<lparr>cm_terminal := Some (w, h)\<rparr>"

section \<open>Sessions\<close>

record ('w, 'f, 'k) session =
  ss_kernel :: "('w, 'f, 'k) kernel"
  ss_finished :: "int option"

text \<open>By name, or by the absolute path of a command.\<close>

definition find_program :: "string \<Rightarrow> ('w, 'f, 'k) sandbox \<Rightarrow> (nat \<times> string) option" where
  "find_program program sb =
     (case map_of (sb_by_name sb) program of
        Some found \<Rightarrow> Some found
      | None \<Rightarrow> List.find (\<lambda>(_, path). path = program) (map snd (sb_by_name sb)))"

definition spawn_session ::
  "('w, 'f, 'k) sandbox \<Rightarrow> ('w, 'f) outside \<Rightarrow> prepared \<Rightarrow> api_error + ('w, 'f, 'k) session" where
  "spawn_session sb out c =
     (case find_program (cm_program c) sb of
        None \<Rightarrow> Inl (NoSuchProgram (cm_program c))
      | Some (i, path) \<Rightarrow>
          let K0 = kernel_new (sb_mounts sb) (sb_overlay sb) (sb_programs sb) (sb_limits sb) out;
              argv = as_bytes (cm_program c) # map as_bytes (cm_args c);
              envp = map (\<lambda>(k, v). as_bytes (k @ ''='' @ v)) (cm_env c);
              K1 = (case cm_terminal c of Some (w, h) \<Rightarrow> set_terminal w h K0 | None \<Rightarrow> K0)
          in (case spawn_first i path argv envp (cm_cwd c) K1 of
                (Some e, _) \<Rightarrow> Inl (LoadFailed e)
              | (None, K2) \<Rightarrow>
                  let s = k_shared K2;
                      stdin = (sh_stdin s)\<lparr>si_data := si_data (sh_stdin s) @ cm_stdin c, si_closed := cm_stdin_closed c\<rparr>
                  in Inr \<lparr>ss_kernel = K2\<lparr>k_shared := s\<lparr>sh_stdin := stdin\<rparr>\<rparr>, ss_finished = None\<rparr>))"

datatype wait = WaitVfs | WaitHost | WaitStdin | WaitUntil nat

record cmd_output =
  out_status :: int
  out_stdout :: bytes
  out_stderr :: bytes
  out_dropped :: nat

datatype progress = Done cmd_output | Yielded | Waiting wait

text \<open>The retained output is moved out; the counts of dropped bytes stay.\<close>

definition collect :: "int \<Rightarrow> ('w, 'f, 'k) session \<Rightarrow> cmd_output \<times> ('w, 'f, 'k) session" where
  "collect status ss =
     (let K = ss_kernel ss; s = k_shared K in
      (\<lparr>out_status = status, out_stdout = ob_data (sh_stdout s), out_stderr = ob_data (sh_stderr s),
        out_dropped = sat_add_u64 (ob_dropped (sh_stdout s)) (ob_dropped (sh_stderr s))\<rparr>,
       ss\<lparr>ss_kernel := K\<lparr>k_shared := s\<lparr>sh_stdout := (sh_stdout s)\<lparr>ob_data := []\<rparr>,
                                         sh_stderr := (sh_stderr s)\<lparr>ob_data := []\<rparr>\<rparr>\<rparr>\<rparr>))"

definition step_session ::
  "('w, 'f, 'k) engine \<Rightarrow> budget \<Rightarrow> ('w, 'f, 'k) session \<Rightarrow> ((api_error + progress) \<times> ('w, 'f, 'k) session) option" where
  "step_session eng b ss =
     (case ss_finished ss of
        Some status \<Rightarrow> (let (o', ss') = collect status ss in Some (Inr (Done o'), ss'))
      | None \<Rightarrow>
          (case kernel_run eng b (ss_kernel ss) of
             None \<Rightarrow> None
           | Some (sl, K) \<Rightarrow>
               let ss1 = ss\<lparr>ss_kernel := K\<rparr> in
               (case sl of
                  Finished status \<Rightarrow>
                    (let (o', ss') = collect status (ss1\<lparr>ss_finished := Some status\<rparr>) in Some (Inr (Done o'), ss'))
                | BudgetSpent \<Rightarrow> Some (Inr Yielded, ss1)
                | Idle IdleVfs \<Rightarrow> Some (Inr (Waiting WaitVfs), ss1)
                | Idle IdleHost \<Rightarrow> Some (Inr (Waiting WaitHost), ss1)
                | Idle IdleStdin \<Rightarrow> Some (Inr (Waiting WaitStdin), ss1)
                | Idle (IdleUntil when) \<Rightarrow>
                    (let (t, K') = read_clock K in Some (Inr (Waiting (WaitUntil (when - t))), ss1\<lparr>ss_kernel := K'\<rparr>))
                | Idle Deadlock \<Rightarrow> Some (Inl NoProgress, ss1))))"

definition on_stdin :: "(stdin_buffer \<Rightarrow> stdin_buffer) \<Rightarrow> ('w, 'f, 'k) session \<Rightarrow> ('w, 'f, 'k) session" where
  "on_stdin f ss = ss\<lparr>ss_kernel := (ss_kernel ss)\<lparr>k_shared := sh_stdin_update f (k_shared (ss_kernel ss))\<rparr>\<rparr>"

definition write_stdin :: "bytes \<Rightarrow> ('w, 'f, 'k) session \<Rightarrow> ('w, 'f, 'k) session" where
  "write_stdin bs = on_stdin (\<lambda>i. i\<lparr>si_data := si_data i @ bs, si_wanted := False\<rparr>)"

definition close_stdin :: "('w, 'f, 'k) session \<Rightarrow> ('w, 'f, 'k) session" where
  "close_stdin = on_stdin (\<lambda>i. i\<lparr>si_closed := True, si_wanted := False\<rparr>)"

definition take_stdout :: "('w, 'f, 'k) session \<Rightarrow> bytes \<times> ('w, 'f, 'k) session" where
  "take_stdout ss =
     (let K = ss_kernel ss; s = k_shared K; (bs, buf) = drain_new (sh_stdout s)
      in (bs, ss\<lparr>ss_kernel := K\<lparr>k_shared := s\<lparr>sh_stdout := buf\<rparr>\<rparr>\<rparr>))"

definition take_stderr :: "('w, 'f, 'k) session \<Rightarrow> bytes \<times> ('w, 'f, 'k) session" where
  "take_stderr ss =
     (let K = ss_kernel ss; s = k_shared K; (bs, buf) = drain_new (sh_stderr s)
      in (bs, ss\<lparr>ss_kernel := K\<lparr>k_shared := s\<lparr>sh_stderr := buf\<rparr>\<rparr>\<rparr>))"

definition process_count :: "('w, 'f, 'k) session \<Rightarrow> nat" where
  "process_count ss = processes (ss_kernel ss)"

definition syscall_count :: "('w, 'f, 'k) session \<Rightarrow> nat" where
  "syscall_count ss = sh_syscalls (k_shared (ss_kernel ss))"

definition session_raw :: "('w, 'f, 'k) session \<Rightarrow> bool" where
  "session_raw ss = terminal_raw (ss_kernel ss)"

definition session_signals :: "('w, 'f, 'k) session \<Rightarrow> bool" where
  "session_signals ss = terminal_signals (ss_kernel ss)"

text \<open>To the end without waiting for anybody: a sleeping session is stepped again at once.\<close>

partial_function (option) drive_output ::
  "('w, 'f, 'k) engine \<Rightarrow> ('w, 'f, 'k) session \<Rightarrow> ((api_error + cmd_output) \<times> ('w, 'f, 'k) session) option" where
  "drive_output eng ss =
     (case step_session eng budget_unlimited ss of
        None \<Rightarrow> None
      | Some (Inl e, ss1) \<Rightarrow> Some (Inl e, ss1)
      | Some (Inr p, ss1) \<Rightarrow>
          (case p of
             Done o' \<Rightarrow> Some (Inr o', ss1)
           | Yielded \<Rightarrow> drive_output eng ss1
           | Waiting w \<Rightarrow>
               (case w of
                  WaitVfs \<Rightarrow> Some (Inl WouldBlock, ss1)
                | WaitHost \<Rightarrow> Some (Inl WouldBlock, ss1)
                | WaitStdin \<Rightarrow> drive_output eng (close_stdin ss1)
                | WaitUntil t \<Rightarrow> drive_output eng ss1)))"

definition command_output ::
  "('w, 'f, 'k) engine \<Rightarrow> ('w, 'f, 'k) sandbox \<Rightarrow> ('w, 'f) outside \<Rightarrow> prepared \<Rightarrow> (api_error + cmd_output) option" where
  "command_output eng sb out c =
     (case spawn_session sb out c of
        Inl e \<Rightarrow> Some (Inl e)
      | Inr ss \<Rightarrow> map_option fst (drive_output eng ss))"

section \<open>Results\<close>

definition stdout_string :: "cmd_output \<Rightarrow> string" where
  "stdout_string o' = from_utf8_lossy (out_stdout o')"

definition stderr_string :: "cmd_output \<Rightarrow> string" where
  "stderr_string o' = from_utf8_lossy (out_stderr o')"

definition truncated :: "cmd_output \<Rightarrow> bool" where
  "truncated o' \<longleftrightarrow> 0 < out_dropped o'"

text \<open>\<open>ExitStatus\<close> over the wait status.\<close>

definition exit_code :: "int \<Rightarrow> int option" where
  "exit_code status = (if status AND 127 = 0 then Some (drop_bit 8 status AND 255) else None)"

definition exit_signal :: "int \<Rightarrow> int option" where
  "exit_signal status = (let signal = status AND 127 in if signal = 0 then None else Some signal)"

definition exit_success :: "int \<Rightarrow> bool" where
  "exit_success status \<longleftrightarrow> exit_code status = Some 0"

definition shell_code :: "int \<Rightarrow> int" where
  "shell_code status =
     (case exit_signal status of
        Some signal \<Rightarrow> sat_add_i32 128 signal
      | None \<Rightarrow> (case exit_code status of Some c \<Rightarrow> c | None \<Rightarrow> 0))"

definition show_exit :: "int \<Rightarrow> string" where
  "show_exit status =
     (case exit_signal status of
        Some signal \<Rightarrow> ''killed by signal '' @ show_int signal
      | None \<Rightarrow> ''exit status '' @ show_int (case exit_code status of Some c \<Rightarrow> c | None \<Rightarrow> 0))"

end
