(* ===== verification/Session_Safety.thy ===== *)
theory Session_Safety
  imports Session_Moves Session_View Api Safety
begin

text \<open>
  What holds of a session from its first process to its last: the invariants of
  \<open>Session_State\<close> and \<open>Session_View\<close> are established by \<open>spawn\<close> and kept by every call of
  the embedder, whatever the guests do.
\<close>

section \<open>Running\<close>

lemma outputs_fit:
  "shared_fits l s \<Longrightarrow> length (ob_data (sh_stdout s)) \<le> lim_output l \<and> length (ob_data (sh_stderr s)) \<le> lim_output l"
  by (simp add: shared_fits_def)

text \<open>The part of the shared state the invariant does not read may change.\<close>

lemma session_shared:
  assumes "session_inv l ps K"
    and "(sh_limits s, sh_memory_used s) = (sh_limits (k_shared K), sh_memory_used (k_shared K))"
    "sh_spawn s = sh_spawn (k_shared K)" "sh_table s = sh_table (k_shared K)"
    "sh_next_pid s = sh_next_pid (k_shared K)"
    "(sh_descs s, sh_pipes s) = (sh_descs (k_shared K), sh_pipes (k_shared K))"
    and "length (ob_data (sh_stdout s)) \<le> lim_output l \<and> length (ob_data (sh_stderr s)) \<le> lim_output l"
  shows "session_inv l ps (K\<lparr>k_shared := s\<rparr>)"
proof -
  have "session_fits l ps (K\<lparr>k_shared := s\<rparr>)"
    using assms by (simp add: session_inv_def session_fits_def shared_fits_def)
  moreover have "people ps (K\<lparr>k_shared := s\<rparr>) = people ps K"
    using assms(3-5) by (simp add: people_def counted_def spawned_def)
  moreover have "session_refs ps (K\<lparr>k_shared := s\<rparr>) = session_refs ps K"
    using assms(3) by (simp add: fun_eq_iff session_refs_def spawn_refs_def)
  moreover have "trusted l s = trusted l (k_shared K)" using assms(5) by (simp add: trusted_def)
  ultimately show ?thesis using assms by (simp add: session_inv_def)
qed

interpretation session: session_frame "session_inv l [] :: ('w, 'f, 'k) kernel \<Rightarrow> bool"
  "process_inv l" "stands l" "\<lambda>_. True"
proof
  fix K :: "('w, 'f, 'k) kernel" and xs p ys g k
  assume i: "session_inv l [] K" "k_procs K = xs @ p # ys" "pc_body p = GuestBody g k"
  have "length (g_mem g) = held p" using i by (simp add: session_inv_def session_fits_def proc_fits_def)
  from session_take [OF i(1,2) this]
  show "\<exists>x. process_inv l x \<lparr>sh = k_shared K, cx = pc_ctx p, gs = g\<rparr> \<and> stands l x K xs p ys" .
next
  fix K :: "('w, 'f, 'k) kernel" and xs p ys h
  assume i: "session_inv l [] K" "k_procs K = xs @ p # ys" "pc_body p = HostBody h"
  have "length (g_mem no_guest) = held p"
    using i by (simp add: session_inv_def session_fits_def proc_fits_def no_guest_def)
  from session_take [OF i(1,2) this]
  show "True \<and> (\<exists>x. process_inv l x \<lparr>sh = k_shared K, cx = pc_ctx p, gs = no_guest\<rparr> \<and> stands l x K xs p ys)"
    by simp
next
  fix x and K :: "('w, 'f, 'k) kernel" and xs p ys g k k' r and s :: "('w, 'f) st"
  assume "stands l x K xs p ys" "process_inv l x s"
  then show "session_inv l [] (K\<lparr>k_shared := sh s,
      k_procs := xs @ p\<lparr>pc_ctx := cx s, pc_body := GuestBody (gs s) k', pc_resume := r\<rparr> # ys\<rparr>)"
    by (rule session_put) simp_all
next
  fix x and K :: "('w, 'f, 'k) kernel" and xs p ys h h' and s :: "('w, 'f) st"
  assume "stands l x K xs p ys" "process_inv l x s" "gs s = no_guest"
  then show "session_inv l [] (K\<lparr>k_shared := sh s, k_procs := xs @ p\<lparr>pc_ctx := cx s, pc_body := HostBody h'\<rparr> # ys\<rparr>)"
    by (intro session_put) (simp_all add: no_guest_def)
next
  fix x and s :: "('w, 'f) st" and msg
  assume s: "process_inv l x s"
  show "process_inv l x (s\<lparr>sh := (sh s)\<lparr>sh_stderr := output_push msg (lim_output (sh_limits (sh s))) (sh_stderr (sh s))\<rparr>\<rparr>)"
    using process_inv_frame(5) [OF s, of 2 msg] by (simp add: write_output_def Let_def)
  show "process_inv l x (s\<lparr>sh := (sh s)\<lparr>sh_host_pending := True\<rparr>\<rparr>)"
    by (rule process_inv_kept [OF s])
      (auto simp: limits_ok_def refs_inv_def refs_ok_def holders_def [abs_def] elim: census_same)
next
  show "keeps (process_inv l x) (read_bytes fd staging :: ('w, 'f, _) sys)" "keeps (process_inv l x) (write_bytes fd data :: ('w, 'f, _) sys)"
    for x fd staging data
    by (rule keepsI, erule process_inv_frame)+
next
  fix K :: "('w, 'f, 'k) kernel" and ps :: "('w, 'k) proc list"
  assume i: "session_inv l [] K" and
    m: "map (\<lambda>p. (pc_ctx p, pc_body p, pc_charged p)) ps = map (\<lambda>p. (pc_ctx p, pc_body p, pc_charged p)) (k_procs K)"
  show "session_inv l [] (K\<lparr>k_procs := ps\<rparr>)"
    by (rule session_procs [OF i]) (simp_all add: m del: mset_map)
next
  fix K :: "('w, 'f, 'k) kernel" and n b and e :: "int option"
  assume i: "session_inv l [] K"
  then have "shared_fits l (k_shared K)" by (simp add: session_inv_def session_fits_def)
  note outs = outputs_fit [OF this, THEN conjunct1] outputs_fit [OF this, THEN conjunct2]
  show "session_inv l [] (K\<lparr>k_shared := (k_shared K)\<lparr>sh_out := (sh_out (k_shared K))\<lparr>o_ticks := n\<rparr>\<rparr>\<rparr>)"
    "session_inv l [] (K\<lparr>k_shared := (k_shared K)\<lparr>sh_vfs_pending := b\<rparr>\<rparr>)"
    "session_inv l [] (K\<lparr>k_shared := (k_shared K)\<lparr>sh_host_pending := b\<rparr>\<rparr>)"
    by (rule session_shared [OF i]; simp add: outs)+
  show "session_inv l [] (K\<lparr>k_exit := e\<rparr>)"
    by (rule session_procs [OF i]) simp_all
next
  show "session_inv l [] (finish_process i status K)" "session_inv l [] (snd (replace_instance i K))"
    "session_inv l [] (start_spawned K)" if "session_inv l [] K" for K :: "('w, 'f, 'k) kernel" and i status
    using that by (simp_all add: session_finish session_replace session_spawned)
qed (auto intro: process_inv_run process_inv_dispatch process_inv_frame)

section \<open>The first process\<close>

lemma open_stdio_keeps:
  assumes "open_stdio ds fds s = (r, s')" "\<And>kind path flags. (kind, path, flags) \<in> set ds \<Longrightarrow> kind \<in> {KStdin, KStdout 1, KStdout 2}"
    and "store_ok (fd_refs fds) none none (sh_descs s) (sh_pipes s)" "shared_fits l s" "length fds \<le> lim_open_files l"
  shows "(\<exists>slab. s' = s\<lparr>sh_descs := slab\<rparr>) \<and> shared_fits l s' \<and>
    (case r of Inl e \<Rightarrow> store_ok none none none (sh_descs s') (sh_pipes s')
     | Inr t \<Rightarrow> store_ok (fd_refs t) none none (sh_descs s') (sh_pipes s') \<and> length t \<le> lim_open_files l)"
  using assms
proof (induction ds arbitrary: fds s)
  case Nil
  then have "r = Inr fds" "s' = s" by simp_all
  moreover have "\<exists>slab. s = s\<lparr>sh_descs := slab\<rparr>" by (rule exI [of _ "sh_descs s"]) simp
  ultimately show ?case using Nil by simp
next
  case (Cons x ds)
  obtain kind path flags where x: "x = (kind, path, flags)" by (metis prod_cases3)
  let ?d = "desc_new kind path flags" and ?c = "sat_mul_u64 (lim_open_files l) 4"
  have lim: "sh_limits s = l" and wf: "slab_wf (sh_descs s)" and len: "length (slots (sh_descs s)) \<le> ?c"
    using Cons.prems(4) by (simp_all add: shared_fits_def)
  obtain k slab where ins: "slab_insert ?d ?c (sh_descs s) = (k, slab)" by fastforce
  show ?case
  proof (cases k)
    case None
    then have "slab = sh_descs s" using slab_insert_NoneD [OF wf] ins by blast
    moreover have "store_ok none none none (sh_descs s) (sh_pipes s)" by (rule store_ok_mono [OF Cons.prems(3)]) simp_all
    moreover have "\<exists>slab. s = s\<lparr>sh_descs := slab\<rparr>" by (rule exI [of _ "sh_descs s"]) simp
    ultimately show ?thesis using Cons.prems(1,4) ins None lim by (auto simp: x)
  next
    case (Some key)
    have k: "kind \<in> {KStdin, KStdout 1, KStdout 2}" using Cons.prems(2) [of kind path flags] by (simp add: x)
    let ?s = "s\<lparr>sh_descs := slab\<rparr>"
    have slab: "slab_wf slab" "length (slots slab) \<le> ?c"
      using slab_wf_insert [OF wf, of ?d ?c] slab_insert_cap [OF wf len, of ?d] ins Some by auto
    have fits: "shared_fits l ?s" using Cons.prems(4) slab by (simp add: shared_fits_def)
    have st: "store_ok (added (fd_refs fds) (one key)) none none (sh_descs ?s) (sh_pipes ?s)"
      using store_ok_insert_desc [of "fd_refs fds" none ?d none "sh_descs s" "sh_pipes s" ?c key slab]
        Cons.prems(3) ins Some k
      by (auto simp: reads_pipe_def writes_pipe_def desc_new_def)
    let ?e = "\<lparr>fd_desc = key, fd_cloexec = False\<rparr>"
    obtain q t where al: "fdt_alloc ?e 0 (lim_open_files l) fds = (q, t)" by fastforce
    have t: "length t \<le> lim_open_files l"
      using alloc_from_length [of ?e 0 "lim_open_files l" fds] al Cons.prems(5) by (simp add: fdt_alloc_def)
    have "fd_refs t j \<le> fd_refs fds j + one key j" for j
      using fd_refs_alloc_Inl [of ?e 0 "lim_open_files l" fds] fd_refs_alloc_Inr [of ?e 0 "lim_open_files l" fds] al
      by (cases q) auto
    then have "store_ok (fd_refs t) none none (sh_descs ?s) (sh_pipes ?s)" by (intro store_ok_mono [OF st]) simp_all
    moreover have "open_stdio ds t ?s = (r, s')" using Cons.prems(1) ins Some lim al by (simp add: x)
    ultimately show ?thesis using Cons.IH [of t ?s] Cons.prems(2) fits t by (auto)
  qed
qed

text \<open>The shared state before the first process.\<close>

definition fresh :: "limits \<Rightarrow> ('w, 'f) shared \<Rightarrow> bool" where
  "fresh l s \<longleftrightarrow> sh_limits s = l \<and> sh_table s = [] \<and> sh_next_pid s = 1 \<and> sh_descs s = slab_new \<and> sh_pipes s = slab_new \<and>
     sh_spawn s = [] \<and> sh_memory_used s = 0 \<and> sh_stdout s = output_empty \<and> sh_stderr s = output_empty"

lemma fresh_new: "fresh l (k_shared (kernel_new ms ov pgs l out))"
  by (simp add: fresh_def kernel_new_def shared_new_def)

lemma fresh_terminal: "fresh l (k_shared (set_terminal c r K)) = fresh l (k_shared K)"
  by (simp add: fresh_def set_terminal_def)

lemma session_first:
  assumes "fresh l (k_shared K)" "k_procs K = []" "lim_memory l < U64_MAX"
  shows "session_inv l [] (snd (spawn_first program exe argv envp cwd K))"
proof -
  let ?io = "[(KStdin, ''/dev/stdin'', O_RDONLY), (KStdout 1, ''/dev/stdout'', O_WRONLY), (KStdout 2, ''/dev/stderr'', O_WRONLY)]"
  define s1 where "s1 = (k_shared K)\<lparr>sh_next_pid := 2\<rparr>"
  have al: "allocate_pid (k_shared K) = (1, s1)"
    using assms(1) by (simp add: allocate_pid_def s1_def fresh_def sat_add_i32_def)
  have fits: "shared_fits l s1"
    using assms(1,3)
    by (simp add: shared_fits_def fresh_def s1_def output_empty_def live_count_def slab_wf_new slots_slab_new)
  have st: "store_ok none none none (sh_descs s1) (sh_pipes s1)"
    using assms(1) by (simp add: fresh_def s1_def store_ok_def slab_wf_new refs_cover_def ends_cover_def entries_with_def slab_get_new)
  obtain r s2 where io: "open_stdio ?io fdt_new s1 = (r, s2)" by fastforce
  have "fd_refs fdt_new = none" by (simp add: fd_refs_def fdt_new_def fun_eq_iff)
  then have after: "(\<exists>slab. s2 = s1\<lparr>sh_descs := slab\<rparr>) \<and> shared_fits l s2 \<and>
    (case r of Inl e \<Rightarrow> store_ok none none none (sh_descs s2) (sh_pipes s2)
     | Inr t \<Rightarrow> store_ok (fd_refs t) none none (sh_descs s2) (sh_pipes s2) \<and> length t \<le> lim_open_files l)"
    by (intro open_stdio_keeps [OF io _ _ fits]) (use st in \<open>auto simp: fdt_new_def\<close>)
  then have s2: "sh_table s2 = []" "sh_next_pid s2 = 2" "sh_spawn s2 = []" "sh_memory_used s2 = 0"
    using assms(1) by (auto simp: s1_def fresh_def)
  show ?thesis
  proof (cases r)
    case (Inl e)
    have "session_inv l [] (K\<lparr>k_shared := s2\<rparr>)"
      using after s2 assms(2) Inl
      by (simp add: session_inv_def session_fits_def people_def counted_def pids_ok_def spawned_def
          session_refs_def [abs_def] spawn_refs_def)
    then show ?thesis using io Inl by (simp add: spawn_first_def al)
  next
    case (Inr fds)
    define p where "p = \<lparr>sp_task = (task_new 1 fds)\<lparr>t_cwd := cwd\<rparr>, sp_program = program, sp_exe = exe, sp_argv = argv, sp_envp = envp\<rparr>"
    define K1 where "K1 = K\<lparr>k_shared := s2\<lparr>sh_table := sh_table s2 @ [proc_record_new 1 0 1 1 (comm_of argv)]\<rparr>\<rparr>"
    have sp: "t_pid (sp_task p) = 1" "t_fds (sp_task p) = fds" by (simp_all add: p_def task_new_def)
    have "session_fits l [p] K1"
      using after s2 assms(2) Inr
      by (simp add: session_fits_def K1_def sp shared_fits_def live_count_def)
    moreover have "people [p] K1"
      unfolding people_def
      by (intro exI [of _ "[]"] exI [of _ "[1]"])
        (simp add: K1_def assms(2) named_def sp counted_def s2 pids_ok_def alive_pid_def proc_record_new_def is_alive_def spawned_def)
    moreover have "store_ok (session_refs [p] K1) none none (sh_descs (k_shared K1)) (sh_pipes (k_shared K1))"
    proof -
      have "session_refs [p] K1 = fd_refs fds"
        by (simp add: fun_eq_iff session_refs_def K1_def assms(2) spawn_refs_def s2 task_refs_def sp)
      then show ?thesis using after Inr by (simp add: K1_def)
    qed
    ultimately have 1: "session_inv l [p] K1" by (simp add: session_inv_def)
    have "spawn_first program exe argv envp cwd K = start p K1"
      using io Inr by (simp add: spawn_first_def al p_def K1_def)
    moreover obtain e K2 where "start p K1 = (e, K2)" by fastforce
    ultimately show ?thesis using session_start(3) [OF 1] by simp
  qed
qed

section \<open>Sessions\<close>

text \<open>One call of the embedder on its session.\<close>

inductive embedder_call :: "('w, 'f, 'k) engine \<Rightarrow> ('w, 'f, 'k) session \<Rightarrow> ('w, 'f, 'k) session \<Rightarrow> bool" for eng where
  step: "step_session eng b ss = Some (r, ss') \<Longrightarrow> embedder_call eng ss ss'"
| feed: "embedder_call eng ss (write_stdin bs ss)"
| close: "embedder_call eng ss (close_stdin ss)"
| stdout: "embedder_call eng ss (snd (take_stdout ss))"
| stderr: "embedder_call eng ss (snd (take_stderr ss))"

abbreviation embedder_calls where
  "embedder_calls eng \<equiv> (embedder_call eng)\<^sup>*\<^sup>*"

lemma spawn_session_kernel:
  assumes "spawn_session sb out c = Inr ss"
  obtains K i path argv envp stdin where
    "K = kernel_new (sb_mounts sb) (sb_overlay sb) (sb_programs sb) (sb_limits sb) out \<or>
     (\<exists>w h. K = set_terminal w h (kernel_new (sb_mounts sb) (sb_overlay sb) (sb_programs sb) (sb_limits sb) out))"
    "ss_kernel ss = (snd (spawn_first i path argv envp (cm_cwd c) K))
       \<lparr>k_shared := (k_shared (snd (spawn_first i path argv envp (cm_cwd c) K)))\<lparr>sh_stdin := stdin\<rparr>\<rparr>"
  using assms
  by (auto simp: spawn_session_def Let_def split: option.splits prod.splits)
    (metis snd_conv)+

lemma session_outputs:
  assumes "session_inv l ps K" "length (ob_data a) \<le> lim_output l" "length (ob_data b) \<le> lim_output l"
  shows "session_inv l ps (K\<lparr>k_shared := (k_shared K)\<lparr>sh_stdout := a, sh_stderr := b\<rparr>\<rparr>)"
  using assms(2,3) by (intro session_shared [OF assms(1)]) simp_all

lemma session_embedder:
  assumes "session_inv l [] (ss_kernel ss)"
  shows "session_inv l [] (ss_kernel (write_stdin bs ss))" "session_inv l [] (ss_kernel (close_stdin ss))"
    "session_inv l [] (ss_kernel (snd (take_stdout ss)))" "session_inv l [] (ss_kernel (snd (take_stderr ss)))"
    "session_inv l [] (ss_kernel (snd (collect status ss)))"
proof -
  have "shared_fits l (k_shared (ss_kernel ss))" using assms by (simp add: session_inv_def session_fits_def)
  note fits = outputs_fit [OF this]
  note same = session_shared [OF assms]
  show "session_inv l [] (ss_kernel (write_stdin bs ss))" "session_inv l [] (ss_kernel (close_stdin ss))"
    using fits by (auto simp: write_stdin_def close_stdin_def on_stdin_def intro!: same)
  show "session_inv l [] (ss_kernel (snd (take_stdout ss)))" "session_inv l [] (ss_kernel (snd (take_stderr ss)))"
    "session_inv l [] (ss_kernel (snd (collect status ss)))"
    using fits by (auto simp: take_stdout_def take_stderr_def collect_def drain_new_def Let_def intro!: same)
qed

text \<open>Where a step leaves the kernel.\<close>

lemma step_session_cases:
  assumes "step_session eng b ss = Some (r, ss')"
  shows "(\<exists>status. ss' = snd (collect status ss)) \<or>
    (\<exists>sl K. kernel_run eng b (ss_kernel ss) = Some (sl, K) \<and>
      (\<exists>status. ss_kernel ss' \<in> {K, snd (read_clock K), ss_kernel (snd (collect status (ss\<lparr>ss_kernel := K, ss_finished := Some status\<rparr>)))}))"
proof (cases "ss_finished ss")
  case (Some status)
  with assms have "ss' = snd (collect status ss)" by (auto simp: step_session_def collect_def Let_def)
  then show ?thesis by blast
next
  case None
  then obtain sl K where run: "kernel_run eng b (ss_kernel ss) = Some (sl, K)"
    using assms by (auto simp: step_session_def split: option.splits)
  obtain status where st: "sl = Finished status \<or> (\<forall>n. sl \<noteq> Finished n)" by (cases sl) auto
  have "ss_kernel ss' \<in> {K, snd (read_clock K), ss_kernel (snd (collect status (ss\<lparr>ss_kernel := K, ss_finished := Some status\<rparr>)))}"
    using assms st
    by (auto simp: step_session_def None run Let_def split: slice.splits idle.splits prod.splits)
  with run show ?thesis by blast
qed

lemma step_session_inv:
  assumes "session_inv l [] (ss_kernel ss)" "engine_ok eng" "step_session eng b ss = Some (r, ss')"
  shows "session_inv l [] (ss_kernel ss')"
proof -
  have col: "session_inv l [] (ss_kernel (snd (collect status x)))" if "session_inv l [] (ss_kernel x)" for x status
    by (rule session_embedder(5) [OF that])
  from step_session_cases [OF assms(3)] show ?thesis
  proof
    assume "\<exists>status. ss' = snd (collect status ss)"
    then show ?thesis using col [OF assms(1)] by auto
  next
    assume "\<exists>sl K. kernel_run eng b (ss_kernel ss) = Some (sl, K) \<and>
      (\<exists>status. ss_kernel ss' \<in> {K, snd (read_clock K), ss_kernel (snd (collect status (ss\<lparr>ss_kernel := K, ss_finished := Some status\<rparr>)))})"
    then obtain sl K status where run: "kernel_run eng b (ss_kernel ss) = Some (sl, K)"
      and k: "ss_kernel ss' \<in> {K, snd (read_clock K), ss_kernel (snd (collect status (ss\<lparr>ss_kernel := K, ss_finished := Some status\<rparr>)))}"
      by blast
    have "session_inv l [] K" by (rule session.keeps_kernel_run [OF assms(2) run assms(1)])
    then show ?thesis using k session.keeps_clock [of l K] col [of "ss\<lparr>ss_kernel := K, ss_finished := Some status\<rparr>" status] by auto
  qed
qed

lemma spawn_session_inv:
  assumes "spawn_session sb out c = Inr ss" "lim_memory (sb_limits sb) < U64_MAX"
  shows "session_inv (sb_limits sb) [] (ss_kernel ss)"
proof -
  obtain K i path argv envp stdin where K:
    "K = kernel_new (sb_mounts sb) (sb_overlay sb) (sb_programs sb) (sb_limits sb) out \<or>
     (\<exists>w h. K = set_terminal w h (kernel_new (sb_mounts sb) (sb_overlay sb) (sb_programs sb) (sb_limits sb) out))"
    "ss_kernel ss = (snd (spawn_first i path argv envp (cm_cwd c) K))
       \<lparr>k_shared := (k_shared (snd (spawn_first i path argv envp (cm_cwd c) K)))\<lparr>sh_stdin := stdin\<rparr>\<rparr>"
    using spawn_session_kernel [OF assms(1)] by metis
  have "fresh (sb_limits sb) (k_shared K)" "k_procs K = []"
    using K(1) fresh_new by (auto simp: fresh_terminal) (simp_all add: kernel_new_def set_terminal_def)
  then have i: "session_inv (sb_limits sb) [] (snd (spawn_first i path argv envp (cm_cwd c) K))"
    by (rule session_first) (rule assms(2))
  then have "shared_fits (sb_limits sb) (k_shared (snd (spawn_first i path argv envp (cm_cwd c) K)))"
    by (simp add: session_inv_def session_fits_def)
  then show ?thesis unfolding K(2) using outputs_fit by (intro session_shared [OF i]) simp_all
qed

lemma embedder_inv:
  assumes "embedder_calls eng ss ss'" "engine_ok eng" "session_inv l [] (ss_kernel ss)"
  shows "session_inv l [] (ss_kernel ss')"
  using assms(1,3)
proof induction
  case (step y z)
  note y = step.IH [OF step.prems]
  from step.hyps(2) show ?case
    by (cases rule: embedder_call.cases) (auto intro: session_embedder [OF y] step_session_inv [OF y assms(2)])
qed

text \<open>The same for what the read-only mounts show.\<close>

lemma view_embedder:
  assumes "embedder_calls eng ss ss'" "engine_ok eng" "session_view view owns ms fo v (ss_kernel ss)"
  shows "session_view view owns ms fo v (ss_kernel ss')"
  using assms(1,3)
proof induction
  case (step y z)
  have same: "session_view view owns ms fo v (K\<lparr>k_shared := s\<rparr>)"
    if "session_view view owns ms fo v K" "sh_mounts s = sh_mounts (k_shared K)" "o_fops (sh_out s) = o_fops (sh_out (k_shared K))"
      "o_world (sh_out s) = o_world (sh_out (k_shared K))" "sh_descs s = sh_descs (k_shared K)" for K s
    using that by (simp add: session_view_def view_ok_def)
  have collected: "session_view view owns ms fo v (ss_kernel (snd (collect status x)))"
    if "session_view view owns ms fo v (ss_kernel x)" for status x
    using that by (auto simp: collect_def Let_def intro: same)
  have y: "session_view view owns ms fo v (ss_kernel y)" by (rule step.IH [OF step.prems])
  from step.hyps(2) show ?case
  proof (cases rule: embedder_call.cases)
    case (step b r)
    from step_session_cases [OF step] show ?thesis
    proof
      assume "\<exists>status. z = snd (collect status y)"
      then show ?thesis using collected [OF y] by auto
    next
      assume "\<exists>sl K. kernel_run eng b (ss_kernel y) = Some (sl, K) \<and>
        (\<exists>status. ss_kernel z \<in> {K, snd (read_clock K), ss_kernel (snd (collect status (y\<lparr>ss_kernel := K, ss_finished := Some status\<rparr>)))})"
      then obtain sl K status where run: "kernel_run eng b (ss_kernel y) = Some (sl, K)"
        and k: "ss_kernel z \<in> {K, snd (read_clock K), ss_kernel (snd (collect status (y\<lparr>ss_kernel := K, ss_finished := Some status\<rparr>)))}"
        by blast
      have K: "session_view view owns ms fo v K" by (rule view_session.keeps_kernel_run [OF assms(2) run y])
      then show ?thesis
        using k view_session.keeps_clock [OF K] collected [of "y\<lparr>ss_kernel := K, ss_finished := Some status\<rparr>" status] by auto
    qed
  qed (use y in \<open>auto simp: write_stdin_def close_stdin_def on_stdin_def take_stdout_def take_stderr_def
      drain_new_def Let_def intro!: same\<close>)
qed

end
