(* ===== verification/Session_Properties.thy ===== *)
theory Session_Properties
  imports Session_Safety
begin

text \<open>
  The properties of a session: everything the embedder can observe between its calls, whatever
  the guests did.  They are applied to a sandbox with one guest program and one host command.
\<close>

section \<open>A sandbox to apply them to\<close>

definition greet :: "unit host_command" where
  "greet = \<lparr>hc_run = (\<lambda>call w. (Inr (from_stdout [104, 105]), w)), hc_reads_stdin = (\<lambda>_. False)\<rparr>"

definition demo_sandbox :: "(unit, unit, unit) sandbox" where
  "demo_sandbox =
     \<lparr>sb_mounts = [], sb_overlay = overlay_new [(''/bin/true'', 0), (''/usr/bin/greet'', 1)],
      sb_programs = [\<lparr>pe_name = ''true'', pe_kind = GuestProgram (\<lambda>_. Inr (one_guest, ()))\<rparr>,
                     \<lparr>pe_name = ''greet'', pe_kind = HostProgram greet\<rparr>],
      sb_by_name = [(''greet'', 1, ''/usr/bin/greet''), (''true'', 0, ''/bin/true'')],
      sb_limits = limits_default, sb_env = [], sb_cwd = ''/''\<rparr>"

definition demo_engine :: "(unit, unit, unit) engine" where
  "demo_engine k s = Some (Returned, k, s)"

lemma demo_engine_ok: "engine_ok demo_engine"
  by (auto simp: engine_ok_def demo_engine_def intro: guest_run.start)

lemma limits_default_big: "lim_memory (sb_limits demo_sandbox) < U64_MAX" "modest limits_default"
  by (simp_all add: demo_sandbox_def limits_default_def modest_def)

lemma demo_stdio:
  "sh_limits s = limits_default \<Longrightarrow> sh_descs s = slab_new \<Longrightarrow>
   open_stdio [(KStdin, ''/dev/stdin'', O_RDONLY), (KStdout 1, ''/dev/stdout'', O_WRONLY), (KStdout 2, ''/dev/stderr'', O_WRONLY)]
     fdt_new s = (Inr std_fds, s\<lparr>sh_descs := \<lparr>slots = [Some (desc_new KStdin ''/dev/stdin'' O_RDONLY),
       Some (desc_new (KStdout 1) ''/dev/stdout'' O_WRONLY), Some (desc_new (KStdout 2) ''/dev/stderr'' O_WRONLY)], free = []\<rparr>\<rparr>)"
  by (simp add: slab_insert_def slab_new_def sat_mul_u64_def limits_default_def fdt_alloc_def fdt_alloc_from.simps
      fdt_new_def std_fds_def resize_def get_at_def as_i32_def)

lemma demo_spawn:
  "\<exists>ss. spawn_session demo_sandbox still_world (command ''greet'' demo_sandbox) = Inr ss"
  "\<exists>ss. spawn_session demo_sandbox still_world (command ''true'' demo_sandbox) = Inr ss"
proof -
  note eval = spawn_session_def find_program_def command_def demo_sandbox_def kernel_new_def
    spawn_first_def allocate_pid_def demo_stdio shared_new_def start_def get_at_def push_proc_def Let_def
  show "\<exists>ss. spawn_session demo_sandbox still_world (command ''greet'' demo_sandbox) = Inr ss"
    by (simp add: eval del: open_stdio.simps One_nat_def)
  have "lim_memory limits_default = 268435456" by (simp add: limits_default_def)
  then show "\<exists>ss. spawn_session demo_sandbox still_world (command ''true'' demo_sandbox) = Inr ss"
    by (simp add: eval start_guest_def charge_memory_def one_guest_def mem_grow_def sat_add_u64_def sat_mul_u64_def
        del: open_stdio.simps One_nat_def)
qed

section \<open>Limits\<close>

definition guest_bytes :: "('w, 'f, 'k) kernel \<Rightarrow> nat" where
  "guest_bytes K = sum_list (map (\<lambda>p. case pc_body p of GuestBody g _ \<Rightarrow> length (g_mem g) | HostBody _ \<Rightarrow> 0) (k_procs K))"

lemma guest_bytes_held:
  assumes "\<And>p. p \<in> set (k_procs K) \<Longrightarrow> proc_fits l p"
  shows "guest_bytes K \<le> sum_list (map held (k_procs K))"
  unfolding guest_bytes_def
proof (rule sum_list_mono)
  fix p assume "p \<in> set (k_procs K)"
  from assms [OF this] show "(case pc_body p of GuestBody g _ \<Rightarrow> length (g_mem g) | HostBody _ \<Rightarrow> 0) \<le> held p"
    by (auto simp: proc_fits_def split: body.splits)
qed

text \<open>
  C1: A session stays within the limits of its sandbox, over all of its processes together and
  whatever they do: the memories of all the guests together do not exceed what is charged, nor
  that the limit; and so do the bytes each output stream retains, the length of every descriptor
  table, the number of live processes, of open descriptions and of pipes.
\<close>
theorem session_within_limits:
  assumes "spawn_session sb out c = Inr ss" "embedder_calls eng ss ss'" "engine_ok eng"
    and "lim_memory (sb_limits sb) < U64_MAX"
  shows "let K = ss_kernel ss'; s = k_shared K; l = sb_limits sb in
      guest_bytes K \<le> sh_memory_used s \<and> sh_memory_used s \<le> lim_memory l
    \<and> length (ob_data (sh_stdout s)) \<le> lim_output l \<and> length (ob_data (sh_stderr s)) \<le> lim_output l
    \<and> (\<forall>p \<in> set (k_procs K). length (t_fds (c_task (pc_ctx p))) \<le> lim_open_files l)
    \<and> live_count (sh_table s) \<le> max 1 (lim_processes l)
    \<and> slab_len (sh_descs s) \<le> 4 * lim_open_files l \<and> slab_len (sh_pipes s) \<le> lim_open_files l"
proof -
  have "session_inv (sb_limits sb) [] (ss_kernel ss')"
    by (rule embedder_inv [OF assms(2,3) spawn_session_inv [OF assms(1,4)]])
  then have f: "session_fits (sb_limits sb) [] (ss_kernel ss')" by (simp add: session_inv_def)
  then have "guest_bytes (ss_kernel ss') \<le> sh_memory_used (k_shared (ss_kernel ss'))"
    using order_trans [OF guest_bytes_held [of "ss_kernel ss'" "sb_limits sb"]] by (simp add: session_fits_def)
  then show ?thesis
    using f by (auto simp: Let_def session_fits_def shared_fits_def proc_fits_def ctx_fits_def slab_len_def sat_mul_u64_def)
qed

theorem session_within_limits_witness:
  "\<exists>ss. spawn_session demo_sandbox still_world (command ''true'' demo_sandbox) = Inr ss
    \<and> guest_bytes (ss_kernel (write_stdin [10] ss)) \<le> 268435456"
proof -
  obtain ss where ss: "spawn_session demo_sandbox still_world (command ''true'' demo_sandbox) = Inr ss"
    using demo_spawn(2) by blast
  have "embedder_calls demo_engine ss (write_stdin [10] ss)" by (blast intro: embedder_call.feed)
  from session_within_limits [OF ss this demo_engine_ok limits_default_big(1)]
  have "guest_bytes (ss_kernel (write_stdin [10] ss)) \<le> lim_memory (sb_limits demo_sandbox)" by (simp add: Let_def)
  then show ?thesis using ss by (auto simp: demo_sandbox_def limits_default_def)
qed

section \<open>Descriptors\<close>

text \<open>
  C2: While fewer than \<open>i32::MAX\<close> pids have been handed out, every descriptor of every process
  names a live description, and one that is an end of a pipe a live pipe that counts it: nothing
  is freed or reused while a process can still name it.  The limits need only be small enough for
  a reference count; the default ones are.
\<close>
theorem session_descriptors_live:
  assumes "spawn_session sb out c = Inr ss" "embedder_calls eng ss ss'" "engine_ok eng"
    and "lim_memory (sb_limits sb) < U64_MAX" "modest (sb_limits sb)"
    and "sh_next_pid (k_shared (ss_kernel ss')) < I32_MAX"
    and "p \<in> set (k_procs (ss_kernel ss'))" "fdt_get (t_fds (c_task (pc_ctx p))) fd = Inr e"
  shows "live_desc (k_shared (ss_kernel ss')) (fd_desc e)"
proof -
  let ?K = "ss_kernel ss'"
  have "session_inv (sb_limits sb) [] ?K"
    by (rule embedder_inv [OF assms(2,3) spawn_session_inv [OF assms(1,4)]])
  then have st: "store_ok (session_refs [] ?K) none none (sh_descs (k_shared ?K)) (sh_pipes (k_shared ?K))"
    using assms(5,6) by (simp add: session_inv_def trusted_def)
  obtain xs ys where "k_procs ?K = xs @ p # ys" using assms(7) by (meson split_list)
  then have "task_refs (c_task (pc_ctx p)) (fd_desc e) \<le> session_refs [] ?K (fd_desc e)"
    by (simp add: session_refs_def ctx_refs_def)
  moreover have "0 < task_refs (c_task (pc_ctx p)) (fd_desc e)"
    using fd_refs_pos [OF assms(8)] by (simp add: task_refs_def)
  ultimately show ?thesis by (intro store_live_desc [OF st]) simp
qed

lemma demo_procs:
  assumes "spawn_session demo_sandbox still_world (command ''greet'' demo_sandbox) = Inr ss"
  obtains p where "k_procs (ss_kernel ss) = [p]" "t_fds (c_task (pc_ctx p)) = std_fds" "sh_next_pid (k_shared (ss_kernel ss)) = 2"
  using assms
  by (auto simp: spawn_session_def find_program_def command_def demo_sandbox_def kernel_new_def sat_add_i32_def
    spawn_first_def allocate_pid_def demo_stdio shared_new_def start_def get_at_def push_proc_def Let_def task_new_def
    simp del: open_stdio.simps One_nat_def)

theorem session_descriptors_live_witness:
  "\<exists>ss. spawn_session demo_sandbox still_world (command ''greet'' demo_sandbox) = Inr ss
    \<and> live_desc (k_shared (ss_kernel (close_stdin ss))) 2"
proof -
  obtain ss where ss: "spawn_session demo_sandbox still_world (command ''greet'' demo_sandbox) = Inr ss"
    using demo_spawn(1) by blast
  obtain p where p: "k_procs (ss_kernel ss) = [p]" "t_fds (c_task (pc_ctx p)) = std_fds" "sh_next_pid (k_shared (ss_kernel ss)) = 2"
    using demo_procs [OF ss] .
  have calls: "embedder_calls demo_engine ss (close_stdin ss)" by (blast intro: embedder_call.close)
  have "fdt_get (t_fds (c_task (pc_ctx p))) 2 = Inr \<lparr>fd_desc = 2, fd_cloexec = False\<rparr>"
    by (simp add: p(2) std_fds_def fdt_get_def get_slot_def get_at_def)
  from session_descriptors_live [OF ss calls demo_engine_ok limits_default_big(1) _ _ _ this]
  have "live_desc (k_shared (ss_kernel (close_stdin ss))) 2"
    using limits_default_big(2) p by (simp add: demo_sandbox_def close_stdin_def on_stdin_def)
  then show ?thesis using ss by blast
qed

section \<open>Processes\<close>

text \<open>
  C4: While fewer than \<open>i32::MAX\<close> pids have been handed out, the processes of a session, with
  the \<open>vfork\<close> children suspended in them, are never more than the limit, and each child has a
  record of its own in the process table that says it is alive.
\<close>
theorem session_processes:
  assumes "spawn_session sb out c = Inr ss" "embedder_calls eng ss ss'" "engine_ok eng"
    and "lim_memory (sb_limits sb) < U64_MAX" "modest (sb_limits sb)"
    and "sh_next_pid (k_shared (ss_kernel ss')) < I32_MAX"
  shows "let K = ss_kernel ss' in
      length (k_procs K) + length (kids (k_procs K)) \<le> max 1 (lim_processes (sb_limits sb))
    \<and> distinct (kids (k_procs K)) \<and> (\<forall>pid \<in> set (kids (k_procs K)). alive_pid pid (sh_table (k_shared K)))"
proof -
  let ?K = "ss_kernel ss'"
  have i: "session_inv (sb_limits sb) [] ?K"
    by (rule embedder_inv [OF assms(2,3) spawn_session_inv [OF assms(1,4)]])
  then obtain mes where m: "known mes (k_procs ?K)" "counted (mes @ kids (k_procs ?K) @ spawned (k_shared ?K)) (k_shared ?K)"
    using assms(5,6) by (auto simp: session_inv_def trusted_def people_def)
  have "length mes = length (k_procs ?K)" using m(1) by (simp add: known_def list_all2_lengthD)
  moreover have "live_count (sh_table (k_shared ?K)) \<le> max 1 (lim_processes (sb_limits sb))"
    using i by (simp add: session_inv_def session_fits_def shared_fits_def)
  ultimately show ?thesis
    using counted_length [OF m(2)] m(2) by (auto simp: Let_def counted_def)
qed

theorem session_processes_witness:
  "\<exists>ss. spawn_session demo_sandbox still_world (command ''greet'' demo_sandbox) = Inr ss
    \<and> process_count (close_stdin ss) \<le> 64"
proof -
  obtain ss where ss: "spawn_session demo_sandbox still_world (command ''greet'' demo_sandbox) = Inr ss"
    using demo_spawn(1) by blast
  obtain p where p: "sh_next_pid (k_shared (ss_kernel ss)) = 2" using demo_procs [OF ss] by metis
  have calls: "embedder_calls demo_engine ss (close_stdin ss)" by (blast intro: embedder_call.close)
  from session_processes [OF ss calls demo_engine_ok limits_default_big(1)]
  have "length (k_procs (ss_kernel (close_stdin ss))) \<le> max 1 (lim_processes (sb_limits demo_sandbox))"
    using limits_default_big(2) p by (simp add: demo_sandbox_def close_stdin_def on_stdin_def Let_def)
  then show ?thesis using ss by (auto simp: demo_sandbox_def limits_default_def process_count_def processes_def)
qed

section \<open>Read-only mounts\<close>

lemma spawn_session_view:
  assumes "spawn_session sb out c = Inr ss" "view_law view owns (sb_mounts sb) (o_fops out)"
    and "\<And>e. e \<in> set (sb_programs sb) \<Longrightarrow> quiet_program view e"
  shows "session_view view owns (sb_mounts sb) (o_fops out) (view (o_world out)) (ss_kernel ss)"
proof -
  let ?V = "session_view view owns (sb_mounts sb) (o_fops out) (view (o_world out))"
  obtain K i path argv envp stdin where K:
    "K = kernel_new (sb_mounts sb) (sb_overlay sb) (sb_programs sb) (sb_limits sb) out \<or>
     (\<exists>w h. K = set_terminal w h (kernel_new (sb_mounts sb) (sb_overlay sb) (sb_programs sb) (sb_limits sb) out))"
    "ss_kernel ss = (snd (spawn_first i path argv envp (cm_cwd c) K))
       \<lparr>k_shared := (k_shared (snd (spawn_first i path argv envp (cm_cwd c) K)))\<lparr>sh_stdin := stdin\<rparr>\<rparr>"
    using spawn_session_kernel [OF assms(1)] by metis
  have v: "view_ok view owns (sb_mounts sb) (o_fops out) (view (o_world out)) (k_shared K)"
    using K(1) assms(2)
    by (auto simp: view_ok_def kernel_new_def shared_new_def set_terminal_def slab_wf_new owned_files_def)
  have V: "?V (K\<lparr>k_shared := s\<rparr>)" if "view_ok view owns (sb_mounts sb) (o_fops out) (view (o_world out)) s" for s
    using K(1) that assms(3) by (auto simp: session_view_def kernel_new_def set_terminal_def)
  have io: "view_ok view owns (sb_mounts sb) (o_fops out) (view (o_world out)) s'"
    if "open_stdio ds fds s = (r, s')" "\<And>kind path flags. (kind, path, flags) \<in> set ds \<Longrightarrow> kind \<in> {KStdin, KStdout 1, KStdout 2}"
      "view_ok view owns (sb_mounts sb) (o_fops out) (view (o_world out)) s" for ds fds s r s'
    using that
  proof (induction ds arbitrary: fds s)
    case (Cons x ds)
    obtain kind path flags where x: "x = (kind, path, flags)" by (metis prod_cases3)
    have k: "kind \<in> {KStdin, KStdout 1, KStdout 2}" using Cons.prems(2) [of kind path flags] by (simp add: x)
    obtain q slab where ins: "slab_insert (desc_new kind path flags) (sat_mul_u64 (lim_open_files (sh_limits s)) 4) (sh_descs s) = (q, slab)"
      by fastforce
    have wf: "slab_wf (sh_descs s)" using Cons.prems(3) by (simp add: view_ok_def)
    have "view_ok view owns (sb_mounts sb) (o_fops out) (view (o_world out)) (s\<lparr>sh_descs := slab\<rparr>)"
    proof (cases q)
      case None
      then have "slab = sh_descs s" using slab_insert_NoneD [OF wf] ins by blast
      then show ?thesis using Cons.prems(3) by simp
    next
      case (Some key)
      have "slab_get slab = (slab_get (sh_descs s))(key := Some (desc_new kind path flags))"
        using slab_insert_SomeD [OF wf] ins Some by blast
      then have "owned_files owns slab"
        using Cons.prems(3) k by (auto simp: view_ok_def owned_files_def desc_new_def)
      moreover have "slab_wf slab" using slab_wf_insert [OF wf, of "desc_new kind path flags"] ins by (metis snd_conv)
      ultimately show ?thesis using Cons.prems(3) by (simp add: view_ok_def)
    qed
    note later = Cons.IH [OF _ _ this]
    show ?case
    proof (cases q)
      case None
      then show ?thesis using Cons.prems(1) ins \<open>view_ok view owns _ _ _ (s\<lparr>sh_descs := slab\<rparr>)\<close> by (simp add: x)
    next
      case (Some key)
      show ?thesis by (rule later) (use Cons.prems(1,2) ins Some in \<open>auto simp: x\<close>)
    qed
  qed simp
  have "?V (snd (spawn_first i path argv envp (cm_cwd c) K))"
  proof -
    define s1 where "s1 = snd (allocate_pid (k_shared K))"
    obtain r s2 where r: "open_stdio [(KStdin, ''/dev/stdin'', O_RDONLY), (KStdout 1, ''/dev/stdout'', O_WRONLY),
        (KStdout 2, ''/dev/stderr'', O_WRONLY)] fdt_new s1 = (r, s2)" by fastforce
    have s2: "view_ok view owns (sb_mounts sb) (o_fops out) (view (o_world out)) s2"
      by (rule io [OF r]) (use v in \<open>auto simp: s1_def allocate_pid_def view_ok_def\<close>)
    show ?thesis
    proof (cases r)
      case (Inl e)
      then show ?thesis using r V [OF s2]
        by (simp add: spawn_first_def s1_def allocate_pid_def del: open_stdio.simps)
    next
      case (Inr fds)
      have "view_ok view owns (sb_mounts sb) (o_fops out) (view (o_world out)) (s2\<lparr>sh_table := t\<rparr>)" for t
        using s2 by (simp add: view_ok_def)
      from view_start [OF V [OF this] prod.collapse [symmetric]] show ?thesis
        using r Inr by (simp add: spawn_first_def s1_def allocate_pid_def del: open_stdio.simps)
    qed
  qed
  then show ?thesis unfolding K(2) by (simp add: session_view_def view_ok_def)
qed

text \<open>
  C3: What the read-only mounts of a sandbox show does not change while a session runs, by
  anything its guests do, for any \<open>view\<close> of the world that looking, opening for reading,
  reading, the operations of the writable mounts and the embedder's own commands leave alone.
\<close>
theorem session_keeps_read_only:
  assumes "spawn_session sb out c = Inr ss" "embedder_calls eng ss ss'" "engine_ok eng"
    and "view_law view owns (sb_mounts sb) (o_fops out)" "\<And>e. e \<in> set (sb_programs sb) \<Longrightarrow> quiet_program view e"
  shows "view (o_world (sh_out (k_shared (ss_kernel ss')))) = view (o_world out)"
  using view_embedder [OF assms(2,3) spawn_session_view [OF assms(1,4,5)]]
  by (simp add: session_view_def view_ok_def)

definition two_sandbox :: "(two_worlds, two_file, unit) sandbox" where
  "two_sandbox =
     \<lparr>sb_mounts = two_mounts, sb_overlay = overlay_new [(''/bin/true'', 0)],
      sb_programs = [\<lparr>pe_name = ''true'', pe_kind = GuestProgram (\<lambda>_. Inr (one_guest, ()))\<rparr>],
      sb_by_name = [(''true'', 0, ''/bin/true'')], sb_limits = limits_default, sb_env = [], sb_cwd = ''/''\<rparr>"

definition two_world :: "(two_worlds, two_file) outside" where
  "two_world = sh_out (sh two_process)"

theorem session_keeps_read_only_witness:
  "fst (o_world (sh_out (k_shared (ss_kernel (close_stdin
     (case spawn_session two_sandbox two_world (command ''true'' two_sandbox) of Inr ss \<Rightarrow> ss)))))) = mem_new"
proof -
  have "lim_memory limits_default = 268435456" by (simp add: limits_default_def)
  then obtain ss where ss: "spawn_session two_sandbox two_world (command ''true'' two_sandbox) = Inr ss"
    by (simp add: spawn_session_def find_program_def command_def two_sandbox_def kernel_new_def
      spawn_first_def allocate_pid_def demo_stdio shared_new_def start_def get_at_def push_proc_def Let_def
      start_guest_def charge_memory_def one_guest_def mem_grow_def sat_add_u64_def sat_mul_u64_def
      del: open_stdio.simps One_nat_def)
  define eng :: "(two_worlds, two_file, unit) engine" where "eng = (\<lambda>k s. Some (Returned, k, s))"
  have ok: "engine_ok eng" by (auto simp: engine_ok_def eng_def intro: guest_run.start)
  have calls: "embedder_calls eng ss (close_stdin ss)" by (blast intro: embedder_call.close)
  have law: "view_law fst two_owns (sb_mounts two_sandbox) (o_fops two_world)"
    using two_law by (simp add: two_sandbox_def two_world_def two_process_def shared_new_def)
  have "fst (o_world (sh_out (k_shared (ss_kernel (close_stdin ss))))) = fst (o_world two_world)"
    by (rule session_keeps_read_only [OF ss calls ok law]) (simp add: two_sandbox_def quiet_program_def)
  also have "\<dots> = mem_new" by (simp add: two_world_def two_process_def shared_new_def)
  finally show ?thesis by (simp add: ss)
qed

end
