(* ===== verification/Api_Properties.thy ===== *)
theory Api_Properties
  imports Session_Properties
begin

text \<open>
  The library's interface on its own: what \<open>SandboxBuilder::build\<close> accepts and what the sandbox it
  returns is made of, how commands are found by name, the output that the embedder takes from a
  session, and the reading of a wait status.
\<close>

section \<open>The tables of a sandbox\<close>

text \<open>Both tables are searched by name, and every index they hold is one of a program.\<close>

definition tables_fit :: "('w, 'k) tables \<Rightarrow> bool" where
  "tables_fit t \<longleftrightarrow>
     sorted_wrt (<) (map fst (tb_paths t)) \<and> sorted_wrt (<) (map fst (tb_names t)) \<and>
     (\<forall>(path, i) \<in> set (tb_paths t). i < length (tb_entries t)) \<and>
     (\<forall>(name, i, path) \<in> set (tb_names t). i < length (tb_entries t))"

lemma bt_insert_set: "set (bt_insert k v es) \<subseteq> insert (k, v) (set es)"
  by (induction k v es rule: bt_insert.induct) auto

lemma tables_fit_empty: "tables_fit tables_empty"
  by (simp add: tables_fit_def tables_empty_def)

lemma tables_fit_push: "tables_fit t \<Longrightarrow> tables_fit (push_entry name kind t)"
  by (fastforce simp: tables_fit_def push_entry_def)

lemma tables_fit_name:
  assumes "tables_fit t" and "i < length (tb_entries t)"
  shows "tables_fit (name_command i name path t)"
  using assms bt_insert_set [of path i "tb_paths t"] bt_insert_set [of name "(i, path)" "tb_names t"]
  by (fastforce simp: tables_fit_def name_command_def bt_insert_sorted)

lemma name_command_entries [simp]: "tb_entries (name_command i name path t) = tb_entries t"
  by (simp add: name_command_def)

lemma push_entry_entries [simp]:
  "tb_entries (push_entry name kind t) = tb_entries t @ [\<lparr>pe_name = name, pe_kind = kind\<rparr>]"
  by (simp add: push_entry_def)

text \<open>The commands of an image all name the program just pushed.\<close>

abbreviation name_wanted :: "string list option \<Rightarrow> nat \<Rightarrow> (string \<times> string) list \<Rightarrow> ('w, 'k) tables \<Rightarrow> ('w, 'k) tables" where
  "name_wanted wanted i \<equiv>
     fold (\<lambda>(name, path). if (case wanted of Some allowed \<Rightarrow> name \<in> set allowed | None \<Rightarrow> True)
       then name_command i name path else id)"

lemma name_wanted_entries [simp]: "tb_entries (name_wanted wanted i cs t) = tb_entries t"
  by (induction cs arbitrary: t) (auto split: option.splits)

lemma name_wanted_fit:
  "tables_fit t \<Longrightarrow> i < length (tb_entries t) \<Longrightarrow> tables_fit (name_wanted wanted i cs t)"
  by (induction cs arbitrary: t) (auto simp: tables_fit_name split: option.splits)

lemma add_layout_fit: "tables_fit t \<Longrightarrow> tables_fit (add_layout builtin wanted im t)"
  by (simp add: add_layout_def name_wanted_fit tables_fit_push split: option.splits)

lemma add_host_fit: "tables_fit t \<Longrightarrow> tables_fit (add_host h t)"
  by (simp add: add_host_def tables_fit_name tables_fit_push)

lemma build_tables_fit: "tables_fit (build_tables layouts builtin b)"
proof -
  have l: "tables_fit (fold (add_layout builtin wanted) ls t)" if "tables_fit t"
    for wanted ls and t :: "('w, 'k) tables" and builtin
    using that by (induction ls arbitrary: t) (simp_all add: add_layout_fit)
  have h: "tables_fit (fold add_host hs t)" if "tables_fit t" for hs and t :: "('w, 'k) tables"
    using that by (induction hs arbitrary: t) (simp_all add: add_host_fit)
  show ?thesis by (simp add: build_tables_def l h tables_fit_empty)
qed

text \<open>An entry is added for every image the backend has, and for every command of the host.\<close>

lemma add_layout_entries:
  "tb_entries (add_layout builtin wanted im t) =
   tb_entries t @ (case builtin (im_image im) of None \<Rightarrow> []
     | Some program \<Rightarrow> [\<lparr>pe_name = im_image im, pe_kind = GuestProgram program\<rparr>])"
  by (simp add: add_layout_def split: option.splits)

lemma add_host_entries:
  "tb_entries (add_host h t) = tb_entries t @ [\<lparr>pe_name = he_name h, pe_kind = HostProgram (he_command h)\<rparr>]"
  by (simp add: add_host_def)

lemma build_tables_empty:
  "tb_entries (build_tables layouts builtin b) = [] \<longleftrightarrow>
   b_commands b = [] \<and> (\<forall>im \<in> set layouts. builtin (im_image im) = None)"
proof -
  have l: "tb_entries (fold (add_layout builtin wanted) ls t) = [] \<longleftrightarrow>
      tb_entries t = [] \<and> (\<forall>im \<in> set ls. builtin (im_image im) = None)"
    for wanted ls and t :: "('w, 'k) tables" and builtin
    by (induction ls arbitrary: t) (auto simp: add_layout_entries split: option.splits)
  have h: "tb_entries (fold add_host hs t) = [] \<longleftrightarrow> tb_entries t = [] \<and> hs = []" for hs and t :: "('w, 'k) tables"
    by (induction hs arbitrary: t) (auto simp: add_host_entries)
  show ?thesis by (simp add: build_tables_def l h) (auto simp: tables_empty_def)
qed

section \<open>Building\<close>

text \<open>A sandbox that holds together.\<close>

definition sandbox_ok :: "('w, 'f, 'k) sandbox \<Rightarrow> bool" where
  "sandbox_ok sb \<longleftrightarrow>
     sb_programs sb \<noteq> [] \<and> sb_mounts sb \<noteq> [] \<and>
     (\<forall>m \<in> set (sb_mounts sb). good_mount_point (mnt_at m)) \<and>
     sorted_wrt (<) (map fst (sb_by_name sb)) \<and>
     (\<forall>(name, i, path) \<in> set (sb_by_name sb). i < length (sb_programs sb)) \<and>
     (\<forall>path i. overlay_program (sb_overlay sb) path = Some i \<longrightarrow> i < length (sb_programs sb))"

lemma build_ok:
  assumes "build layouts builtin b = Inr sb"
  shows "sandbox_ok sb"
proof -
  let ?t = "build_tables layouts builtin b"
  have good: "\<forall>m \<in> set (b_mounts b). good_mount_point (mnt_at m)" and ne: "b_mounts b \<noteq> []" "tb_entries ?t \<noteq> []"
    and sb: "sb_mounts sb = mounts_new (b_mounts b)" "sb_overlay sb = overlay_new (tb_paths ?t)"
      "sb_programs sb = tb_entries ?t" "sb_by_name sb = tb_names ?t"
    using assms by (auto simp: build_def Let_def find_None_iff split: option.splits if_splits)
  have "mounts_new (b_mounts b) \<noteq> []" using ne(1) mounts_new_set [of "b_mounts b"] by (metis set_empty)
  moreover have "i < length (tb_entries ?t)" if "overlay_program (overlay_new (tb_paths ?t)) path = Some i" for path i
    using that build_tables_fit [of layouts builtin b]
    by (auto simp: overlay_program_def overlay_new_def tables_fit_def dest: map_of_SomeD)
  ultimately show ?thesis using good ne(2) build_tables_fit [of layouts builtin b]
    by (auto simp: sandbox_ok_def sb mounts_new_set tables_fit_def)
qed

lemma find_program_valid:
  assumes "sandbox_ok sb" and "find_program name sb = Some (i, path)"
  shows "i < length (sb_programs sb)"
proof -
  have "\<exists>n. (n, i, path) \<in> set (sb_by_name sb)"
    using assms(2) by (auto simp: find_program_def find_Some_iff in_set_conv_nth split: option.splits dest!: map_of_SomeD)
      (metis length_map nth_map prod.collapse snd_conv)
  then show ?thesis using assms(1) by (auto simp: sandbox_ok_def)
qed


lemma good_mount_point_clean:
  "good_mount_point at \<longleftrightarrow> (\<exists>ps. (\<forall>c \<in> set ps. clean c) \<and> at = join ps)"
proof
  assume "good_mount_point at"
  then show "\<exists>ps. (\<forall>c \<in> set ps. clean c) \<and> at = join ps"
    unfolding good_mount_point_def using normalize_all_clean by blast
next
  assume "\<exists>ps. (\<forall>c \<in> set ps. clean c) \<and> at = join ps"
  then show "good_mount_point at" unfolding good_mount_point_def by (metis normalize_join)
qed

lemma last_host:
  assumes "build_tables layouts builtin (command_at name path c b) = t"
  shows "tb_entries t ! (length (tb_entries t) - 1) = \<lparr>pe_name = name, pe_kind = HostProgram c\<rparr>"
    and "map_of (tb_names t) name = Some (length (tb_entries t) - 1, path)"
    and "map_of (tb_paths t) path = Some (length (tb_entries t) - 1)"
  using assms [symmetric]
  by (simp_all add: build_tables_def command_at_def add_host_def name_command_def push_entry_def bt_insert_map_of)

section \<open>The properties of building\<close>

text \<open>
  C9: a sandbox that builds holds together.  It has a program and a mount; every mount point is
  the joining of clean components, as the resolution of paths relies on; the names are sorted
  without repetition; and every index, by name or by path of the overlay, is that of a program, so
  the lookup that starts a command never misses.
\<close>

theorem build_well_formed:
  assumes "build layouts builtin b = Inr sb"
  shows "sandbox_ok sb \<and> sb_mounts sb = mounts_new (b_mounts b) \<and>
    (\<forall>m \<in> set (b_mounts b). \<exists>ps. (\<forall>c \<in> set ps. clean c) \<and> mnt_at m = join ps) \<and>
    (\<forall>name i path. find_program name sb = Some (i, path) \<longrightarrow> i < length (sb_programs sb))"
proof -
  have ok: "sandbox_ok sb" using build_ok [OF assms] .
  moreover have "sb_mounts sb = mounts_new (b_mounts b)"
    using assms by (auto simp: build_def Let_def split: option.splits if_splits)
  moreover have "\<forall>m \<in> set (b_mounts b). \<exists>ps. (\<forall>c \<in> set ps. clean c) \<and> mnt_at m = join ps"
    using assms good_mount_point_clean
    by (auto simp: build_def Let_def find_None_iff split: option.splits if_splits)
  ultimately show ?thesis using find_program_valid by blast
qed

definition demo_layouts :: "image_layout list" where
  "demo_layouts = [\<lparr>im_image = ''box'', im_commands = [(''ls'', ''/bin/ls''), (''cat'', ''/bin/cat'')]\<rparr>]"

definition demo_backend :: "string \<Rightarrow> (nat \<Rightarrow> load_error + guest \<times> unit) option" where
  "demo_backend name = (if name = ''box'' then Some (\<lambda>_. Inr (one_guest, ())) else None)"

definition demo_builder :: "(unit, unit) builder" where
  "demo_builder = only_programs [''ls''] (mount_ro ''/work'' (empty_vfs no_files) builder_new)"

definition built :: "(unit, unit, unit) sandbox" where
  "built =
     \<lparr>sb_mounts = [\<lparr>mnt_at = ''/work'', mnt_vfs = empty_vfs no_files, mnt_read_only = True\<rparr>],
      sb_overlay = overlay_new [(''/bin/ls'', 0)],
      sb_programs = [\<lparr>pe_name = ''box'', pe_kind = GuestProgram (\<lambda>_. Inr (one_guest, ()))\<rparr>],
      sb_by_name = [(''ls'', 0, ''/bin/ls'')], sb_limits = limits_default, sb_env = b_env (builder_new :: (unit, unit) builder), sb_cwd = ''/''\<rparr>"

lemma work_good: "good_mount_point ''/work''" "\<not> good_mount_point ''work''"
  by code_simp+

lemma demo_builder_fields:
  "b_mounts demo_builder = [\<lparr>mnt_at = ''/work'', mnt_vfs = empty_vfs no_files, mnt_read_only = True\<rparr>]"
  "b_programs demo_builder = Some [''ls'']" "b_commands demo_builder = []" "b_limits demo_builder = limits_default"
  "b_env demo_builder = b_env (builder_new :: (unit, unit) builder)" "b_cwd demo_builder = ''/''"
  by (simp_all add: demo_builder_def only_programs_def mount_ro_def) (simp_all add: builder_new_def)

lemma demo_tables:
  "fold (add_layout demo_backend (Some [''ls''])) demo_layouts tables_empty =
     \<lparr>tb_entries = [\<lparr>pe_name = ''box'', pe_kind = GuestProgram (\<lambda>_. Inr (one_guest, ()))\<rparr>],
      tb_paths = [(''/bin/ls'', 0)], tb_names = [(''ls'', 0, ''/bin/ls'')]\<rparr>"
  by (simp add: demo_layouts_def demo_backend_def add_layout_def push_entry_def name_command_def tables_empty_def)

lemma demo_build: "build demo_layouts demo_backend demo_builder = Inr built"
  by (simp add: build_def demo_builder_fields work_good build_tables_def demo_tables mounts_new_def built_def Let_def)

lemma built_ls: "find_program ''ls'' built = Some (0, ''/bin/ls'')"
  by (simp add: find_program_def built_def)

lemma build_well_formed_witness: "sandbox_ok built \<and> find_program ''ls'' built = Some (0, ''/bin/ls'')"
  using build_well_formed [OF demo_build, THEN conjunct1] built_ls by blast

text \<open>
  C23: building fails in exactly three ways, in this order: the first mount whose point is not
  an absolute normalized path is named; without a mount there is nothing to run on; and without a
  command of the host, and with no image of the layout in the backend, there is nothing to run.
\<close>

theorem build_errors:
  "build layouts builtin b = Inl e \<longleftrightarrow>
    (\<exists>pre m post. b_mounts b = pre @ m # post \<and> (\<forall>x \<in> set pre. good_mount_point (mnt_at x)) \<and>
       \<not> good_mount_point (mnt_at m) \<and> e = BadMountPoint (mnt_at m)) \<or>
    b_mounts b = [] \<and> e = NoMounts \<or>
    b_mounts b \<noteq> [] \<and> (\<forall>m \<in> set (b_mounts b). good_mount_point (mnt_at m)) \<and> b_commands b = [] \<and>
      (\<forall>im \<in> set layouts. builtin (im_image im) = None) \<and> e = NoPrograms"
proof (cases "List.find (\<lambda>m. \<not> good_mount_point (mnt_at m)) (b_mounts b)")
  case None
  then have "\<forall>m \<in> set (b_mounts b). good_mount_point (mnt_at m)" by (auto simp: find_None_iff)
  with None show ?thesis
    by (auto simp: build_def Let_def build_tables_empty)
next
  case (Some m)
  then obtain i where i: "i < length (b_mounts b)" "\<not> good_mount_point (mnt_at (b_mounts b ! i))" "m = b_mounts b ! i"
      "\<forall>j < i. good_mount_point (mnt_at (b_mounts b ! j))"
    by (auto simp: find_Some_iff)
  have first: "pre = take i (b_mounts b) \<and> x = m"
    if "b_mounts b = pre @ x # post" "\<forall>y \<in> set pre. good_mount_point (mnt_at y)" "\<not> good_mount_point (mnt_at x)"
    for pre x post
  proof -
    have "length pre = i"
    proof (rule linorder_cases [of "length pre" i])
      assume "length pre < i"
      with i(4) that show ?thesis by (metis nth_append_length)
    next
      assume "i < length pre"
      with i(2) that show ?thesis by (metis nth_append nth_mem)
    qed simp
    then show ?thesis using that(1) i(3) by (metis append_eq_conv_conj nth_append_length)
  qed
  have split: "b_mounts b = take i (b_mounts b) @ m # drop (Suc i) (b_mounts b)"
    using i(1,3) id_take_nth_drop by blast
  have pre: "\<forall>y \<in> set (take i (b_mounts b)). good_mount_point (mnt_at y)"
    using i(4) by (auto simp: in_set_conv_nth)
  have m: "m \<in> set (b_mounts b)" "\<not> good_mount_point (mnt_at m)" using i by auto
  have "build layouts builtin b = Inl e \<longleftrightarrow> e = BadMountPoint (mnt_at m)"
    using Some by (auto simp: build_def)
  moreover have "b_mounts b \<noteq> []" using i(1) by auto
  ultimately show ?thesis using split pre m first by metis
qed

lemma build_errors_witness:
  "build demo_layouts demo_backend (mount_rw ''work'' (empty_vfs no_files) demo_builder) =
     Inl (BadMountPoint ''work'' :: api_error)"
  unfolding build_errors using work_good
  by (intro disjI1 exI [of _ "b_mounts demo_builder"] exI) 
    (auto simp: demo_builder_def only_programs_def mount_ro_def mount_rw_def builder_new_def)

text \<open>
  C39: a command of the host is found by its name and run at its path, whatever the shipped
  programs and the commands added before it are called: the last one added wins.
\<close>

theorem command_overrides:
  assumes "build layouts builtin (command_at name path c b) = Inr sb"
  shows "\<exists>i. find_program name sb = Some (i, path) \<and> overlay_program (sb_overlay sb) path = Some i \<and>
    get_at (sb_programs sb) i = Some \<lparr>pe_name = name, pe_kind = HostProgram c\<rparr>"
proof -
  let ?t = "build_tables layouts builtin (command_at name path c b)"
  have sb: "sb_programs sb = tb_entries ?t" "sb_by_name sb = tb_names ?t" "sb_overlay sb = overlay_new (tb_paths ?t)"
    "tb_entries ?t \<noteq> []"
    using assms by (auto simp: build_def Let_def split: option.splits if_splits)
  show ?thesis
    using sb(4) last_host [OF refl, of layouts builtin name path c b]
    by (simp add: sb(1-3) find_program_def overlay_program_def overlay_new_def get_at_def)
qed

lemma command_overrides_witness:
  "\<exists>sb i. build demo_layouts demo_backend (command_at ''ls'' ''/usr/bin/ls'' greet demo_builder) = Inr sb \<and>
    find_program ''ls'' sb = Some (i, ''/usr/bin/ls'')"
proof -
  have "\<exists>sb. build demo_layouts demo_backend (command_at ''ls'' ''/usr/bin/ls'' greet demo_builder) = Inr sb"
    by (simp add: build_def demo_builder_fields work_good build_tables_def demo_tables Let_def command_at_def add_host_def)
  then show ?thesis using command_overrides by blast
qed

section \<open>The output of a session\<close>

text \<open>
  What happens to an output stream while a session runs, in any order: the guests write to it, and
  the embedder takes what is new.  The stream promises one thing: what was written, cut at the
  limit.  \<open>stream_run\<close> is the code; \<open>stream_written\<close> and \<open>stream_taken\<close> read a history and what the embedder saw.
\<close>

datatype stream_event = Written bytes | Taken

fun stream_run :: "nat \<Rightarrow> stream_event list \<Rightarrow> output_buffer \<Rightarrow> bytes \<times> output_buffer" where
  "stream_run limit [] b = ([], b)"
| "stream_run limit (Written bs # es) b = stream_run limit es (output_push bs limit b)"
| "stream_run limit (Taken # es) b =
     (let (out, b1) = drain_new b; (rest, b2) = stream_run limit es b1 in (out @ rest, b2))"

fun stream_written :: "stream_event list \<Rightarrow> bytes" where
  "stream_written [] = []"
| "stream_written (Written bs # es) = bs @ stream_written es"
| "stream_written (Taken # es) = stream_written es"

lemma output_push_take:
  assumes "ob_data b = take limit w" and "ob_dropped b = min (length w - limit) U64_MAX"
  shows "ob_data (output_push bs limit b) = take limit (w @ bs) \<and>
    ob_dropped (output_push bs limit b) = min (length (w @ bs) - limit) U64_MAX \<and>
    ob_taken (output_push bs limit b) = ob_taken b"
  using assms by (auto simp: output_push_def Let_def sat_add_u64_def min_def)

lemma stream_run_spec:
  assumes "ob_data b = take limit w" "ob_dropped b = min (length w - limit) U64_MAX" "ob_taken b \<le> length (ob_data b)"
    and "stream_run limit es b = (out, b')"
  shows "ob_data b' = take limit (w @ stream_written es) \<and>
    ob_dropped b' = min (length (w @ stream_written es) - limit) U64_MAX \<and>
    ob_taken b' \<le> length (ob_data b') \<and>
    take (ob_taken b) (ob_data b) @ out = take (ob_taken b') (ob_data b')"
  using assms
proof (induction limit es b arbitrary: w out b' rule: stream_run.induct)
  case (2 limit bs es b)
  have step: "ob_data (output_push bs limit b) = take limit (w @ bs)"
    "ob_dropped (output_push bs limit b) = min (length (w @ bs) - limit) U64_MAX"
    "ob_taken (output_push bs limit b) = ob_taken b"
    using output_push_take [OF "2.prems"(1,2)] by simp_all
  have le: "ob_taken b \<le> length (take limit w)" using "2.prems"(1,3) by simp
  have keep: "take (ob_taken b) (ob_data (output_push bs limit b)) = take (ob_taken b) (ob_data b)"
    unfolding step "2.prems"(1) using le by (simp add: min_def)
  have "ob_taken (output_push bs limit b) \<le> length (ob_data (output_push bs limit b))"
    unfolding step by (rule le_trans [OF le]) simp
  from "2.IH" [OF step(1,2) this "2.prems"(4) [unfolded stream_run.simps]] show ?case
    unfolding step(3) keep stream_written.simps append_assoc .
next
  case (3 limit es b)
  define b1 where "b1 = b\<lparr>ob_taken := length (ob_data b)\<rparr>"
  have d: "drain_new b = (drop (ob_taken b) (ob_data b), b1)" by (simp add: drain_new_def b1_def)
  obtain rest b2 where r: "stream_run limit es b1 = (rest, b2)" by force
  then have out: "out = drop (ob_taken b) (ob_data b) @ rest" "b' = b2"
    using "3.prems"(4) by (auto simp: d)
  have "ob_data b2 = take limit (w @ stream_written es) \<and>
    ob_dropped b2 = min (length (w @ stream_written es) - limit) U64_MAX \<and>
    ob_taken b2 \<le> length (ob_data b2) \<and> ob_data b @ rest = take (ob_taken b2) (ob_data b2)"
  proof -
    have "ob_data b1 = ob_data b" "ob_dropped b1 = ob_dropped b" "ob_taken b1 = length (ob_data b)"
      by (simp_all add: b1_def)
    then show ?thesis
      using "3.IH" [OF refl d [symmetric], of w rest b2] "3.prems"(1,2) r by (metis order_refl take_all)
  qed
  then show ?case unfolding out stream_written.simps by (metis append_assoc append_take_drop_id)
qed auto

text \<open>
  C20: an output stream delivers what was written to it, cut at the limit, whatever the order
  of writes and takes: what the embedder took is a prefix of it, and one more take yields exactly the
  rest; the count of dropped bytes is what did not fit, up to its saturation.
\<close>

theorem output_stream:
  assumes "stream_run limit es output_empty = (out, b)"
  shows "out @ fst (drain_new b) = take limit (stream_written es) \<and>
    ob_data b = take limit (stream_written es) \<and>
    ob_dropped b = min (length (stream_written es) - limit) U64_MAX"
proof -
  have "ob_data b = take limit (stream_written es) \<and>
    ob_dropped b = min (length (stream_written es) - limit) U64_MAX \<and> out = take (ob_taken b) (ob_data b)"
    using stream_run_spec [of output_empty limit "[]" es out b] assms by (simp add: output_empty_def)
  then show ?thesis by (metis append_take_drop_id drain_new_def fst_conv)
qed

lemma output_stream_witness:
  "\<exists>b. stream_run 4 [Written [1, 2, 3], Taken, Written [4, 5], Taken, Written [6]] output_empty = ([1, 2, 3, 4], b) \<and>
    ob_data b = [1, 2, 3, 4] \<and> ob_dropped b = 2"
proof -
  have "\<exists>b. stream_run 4 [Written [1, 2, 3], Taken, Written [4, 5], Taken, Written [6]] output_empty = ([1, 2, 3, 4], b)"
    by (simp add: output_empty_def output_push_def drain_new_def Let_def)
  then obtain b where
    b: "stream_run 4 [Written [1, 2, 3], Taken, Written [4, 5], Taken, Written [6]] output_empty = ([1, 2, 3, 4], b)" ..
  with output_stream [OF b] show ?thesis by simp
qed

section \<open>The end of a session\<close>

text \<open>
  C40: a session that is done stays done.  Stepping it again, under any budget, changes
  nothing and reports the same status and count of dropped bytes, with no output a second time.
\<close>

theorem step_session_done:
  assumes "step_session eng b ss = Some (Inr (Done first), ss1)"
  shows "step_session eng b' ss1 =
    Some (Inr (Done (first\<lparr>out_stdout := [], out_stderr := []\<rparr>)), ss1)"
proof -
  have "ss_finished ss1 = Some (out_status first)"
    using assms
    by (auto simp: step_session_def Let_def collect_def split: option.splits prod.splits slice.splits idle.splits)
  moreover have "collect (out_status first) ss1 = (first\<lparr>out_stdout := [], out_stderr := []\<rparr>, ss1)"
    using assms
    by (auto simp: step_session_def Let_def collect_def split: option.splits prod.splits slice.splits idle.splits)
  ultimately show ?thesis by (simp add: step_session_def)
qed

lemma step_session_done_witness:
  "\<exists>ss o1 ss1. spawn_session demo_sandbox still_world (command ''true'' demo_sandbox) = Inr ss \<and>
    step_session demo_engine budget_unlimited (ss\<lparr>ss_finished := Some 256\<rparr>) = Some (Inr (Done o1), ss1) \<and>
    out_status o1 = 256 \<and>
    step_session demo_engine budget_unlimited ss1 =
      Some (Inr (Done (o1\<lparr>out_stdout := [], out_stderr := []\<rparr>)), ss1)"
proof -
  obtain ss where ss: "spawn_session demo_sandbox still_world (command ''true'' demo_sandbox) = Inr ss"
    using demo_spawn(2) by blast
  obtain o1 ss1 where c: "collect 256 (ss\<lparr>ss_finished := Some 256\<rparr>) = (o1, ss1)" by force
  then have s: "step_session demo_engine budget_unlimited (ss\<lparr>ss_finished := Some 256\<rparr>) = Some (Inr (Done o1), ss1)"
    by (simp add: step_session_def)
  have "out_status o1 = 256" using c by (auto simp: collect_def Let_def)
  with ss s step_session_done [OF s] show ?thesis by blast
qed

section \<open>Running to the end\<close>

text \<open>
  The kernel runs passes over the processes; it stalls at the state after a pass that found processes
  and could not advance one.
\<close>

inductive stalls :: "('w, 'f, 'k) engine \<Rightarrow> ('w, 'f, 'k) kernel \<Rightarrow> ('w, 'f, 'k) kernel \<Rightarrow> bool" for eng where
  here: "past_deadline (start_spawned K) = (False, K1) \<Longrightarrow> run_pass eng 0 False K1 = Some (Inr False, K2) \<Longrightarrow>
     k_procs K2 \<noteq> [] \<Longrightarrow> stalls eng K K2"
| later: "past_deadline (start_spawned K) = (False, K1) \<Longrightarrow> run_pass eng 0 False K1 = Some (Inr True, K2) \<Longrightarrow>
     k_procs K2 \<noteq> [] \<Longrightarrow> stalls eng K2 K3 \<Longrightarrow> stalls eng K K3"

lemma budget_never_spent [simp]: "budget_spent budget_unlimited n K = (False, K)"
  by (simp add: budget_spent_def budget_unlimited_def)

lemma stalls_run_loop:
  "stalls eng K K2 \<Longrightarrow> run_loop eng budget_unlimited n K = (case why_idle K2 of (w, K3) \<Rightarrow> Some (Idle w, K3))"
  by (induction rule: stalls.induct) (simp_all add: run_loop.simps split: prod.splits)

lemma run_loop_stalls:
  assumes "run_loop eng b n K = Some r" and "b = budget_unlimited" "r = (Idle w, K')"
  shows "\<exists>K2. stalls eng K K2 \<and> why_idle K2 = (w, K')"
proof (rule run_loop.raw_induct [where P = "\<lambda>eng b n K r. b = budget_unlimited \<longrightarrow> r = (Idle w, K') \<longrightarrow>
    (\<exists>K2. stalls eng K K2 \<and> why_idle K2 = (w, K'))", OF _ assms(1), rule_format, OF _ assms(2,3)], goal_cases)
  case (1 loop eng b n K r)
  obtain late K1 where pd: "past_deadline (start_spawned K) = (late, K1)" by fastforce
  show ?case
  proof (cases late)
    case True
    then show ?thesis using 1 pd by simp
  next
    case False
    then obtain x K2 where pass: "run_pass eng 0 False K1 = Some (x, K2)"
      using 1 pd by (auto split: option.splits)
    then obtain progressed where x: "x = Inr progressed" "k_procs K2 \<noteq> []"
      using 1 pd False by (cases x) (auto split: if_splits)
    show ?thesis
    proof (cases progressed)
      case True
      then have "loop eng budget_unlimited n K2 = Some (Idle w, K')" using 1 pd False pass x by simp
      then obtain K3 where "stalls eng K2 K3" "why_idle K3 = (w, K')" using 1(1) by blast
      then show ?thesis using stalls.later [of K K1 eng K2] pd False pass x True by auto
    next
      case no: False
      then show ?thesis using stalls.here [of K K1 eng K2] 1 pd False pass x by (auto split: prod.splits)
    qed
  qed
qed

lemma kernel_run_idle:
  "kernel_run eng budget_unlimited K = Some (Idle w, K') \<longleftrightarrow> (\<exists>K2. stalls eng (unpark_all K) K2 \<and> why_idle K2 = (w, K'))"
  using run_loop_stalls [OF _ refl refl] by (auto simp: kernel_run_def stalls_run_loop)

text \<open>Whom a stalled kernel waits for, from the requests its processes left.\<close>

lemma earliest_wake_None: "earliest_wake rs e = None \<longleftrightarrow> e = None \<and> pr_wake_at ` set rs \<subseteq> {None}"
  by (induction rs arbitrary: e) (auto split: option.splits)

definition asked_outside :: "('w, 'f, 'k) kernel \<Rightarrow> bool" where
  "asked_outside K \<longleftrightarrow> sh_vfs_pending (k_shared K) \<or> sh_host_pending (k_shared K)"

definition nobody_to_wait_for :: "('w, 'f, 'k) kernel \<Rightarrow> bool" where
  "nobody_to_wait_for K \<longleftrightarrow> \<not> asked_outside K \<and> pr_wake_at ` set (sh_table (k_shared K)) \<subseteq> {None} \<and>
     \<not> (si_wanted (sh_stdin (k_shared K)) \<and> \<not> si_closed (sh_stdin (k_shared K)))"

lemma why_idle_causes:
  "(\<exists>K'. why_idle K = (IdleVfs, K') \<or> why_idle K = (IdleHost, K')) \<longleftrightarrow> asked_outside K"
  "(\<exists>K'. why_idle K = (Deadlock, K')) \<longleftrightarrow> nobody_to_wait_for K"
  using earliest_wake_None [of "sh_table (k_shared K)" None]
  by (auto simp: why_idle_def asked_outside_def nobody_to_wait_for_def Let_def split: option.splits)

text \<open>The states a command goes through: a wait for a time is stepped again, a wait for input is answered with its end.\<close>

inductive driven :: "('w, 'f, 'k) engine \<Rightarrow> ('w, 'f, 'k) session \<Rightarrow> ('w, 'f, 'k) session \<Rightarrow> bool" for eng where
  start: "driven eng ss ss"
| again: "step_session eng budget_unlimited ss = Some (Inr p, ss1) \<Longrightarrow> p = Yielded \<or> (\<exists>t. p = Waiting (WaitUntil t)) \<Longrightarrow>
     driven eng ss1 ss2 \<Longrightarrow> driven eng ss ss2"
| input: "step_session eng budget_unlimited ss = Some (Inr (Waiting WaitStdin), ss1) \<Longrightarrow>
     driven eng (close_stdin ss1) ss2 \<Longrightarrow> driven eng ss ss2"

definition gives_up :: "('w, 'f, 'k) engine \<Rightarrow> ('w, 'f, 'k) session \<Rightarrow> api_error \<Rightarrow> bool" where
  "gives_up eng ss e \<longleftrightarrow>
     (\<exists>x ss1. step_session eng budget_unlimited ss = Some (x, ss1) \<and>
        (x = Inl e \<or> (x = Inr (Waiting WaitVfs) \<or> x = Inr (Waiting WaitHost)) \<and> e = WouldBlock))"

lemma driven_drive_output: "driven eng ss ss1 \<Longrightarrow> drive_output eng ss = drive_output eng ss1"
  by (induction rule: driven.induct) (auto simp: drive_output.simps)

lemma gives_up_drive_output: "gives_up eng ss e \<Longrightarrow> \<exists>ss1. drive_output eng ss = Some (Inl e, ss1)"
  by (auto simp: gives_up_def drive_output.simps)

lemma drive_output_gives_up:
  assumes "drive_output eng ss = Some r"
  shows "fst r = Inl e \<longrightarrow> (\<exists>ss1. driven eng ss ss1 \<and> gives_up eng ss1 e)"
proof (rule drive_output.raw_induct [where P = "\<lambda>eng ss r. fst r = Inl e \<longrightarrow> (\<exists>ss1. driven eng ss ss1 \<and> gives_up eng ss1 e)",
    OF _ assms], goal_cases)
  case (1 drive eng ss r)
  obtain x s where st: "step_session eng budget_unlimited ss = Some (x, s)"
    using 1(2) by (auto split: option.splits)
  show ?case
  proof (cases "x = Inr Yielded \<or> (\<exists>t. x = Inr (Waiting (WaitUntil t)))")
    case True
    then have "drive eng s = Some r" using 1(2) st by auto
    then show ?thesis using 1(1) True st driven.again [of eng ss _ s] by blast
  next
    case no: False
    show ?thesis
    proof (cases "x = Inr (Waiting WaitStdin)")
      case True
      then have "drive eng (close_stdin s) = Some r" using 1(2) st by auto
      then show ?thesis using 1(1) True st driven.input [of eng ss s] by blast
    next
      case False
      then have "fst r = Inl e \<longrightarrow> gives_up eng ss e"
        using 1(2) st no by (auto simp: gives_up_def split: sum.splits progress.splits wait.splits)
      then show ?thesis using driven.start by blast
    qed
  qed
qed

lemma drive_output_error:
  "(\<exists>ss1. drive_output eng ss = Some (Inl e, ss1)) \<longleftrightarrow> (\<exists>ss1. driven eng ss ss1 \<and> gives_up eng ss1 e)"
  using drive_output_gives_up [of eng ss _ e] driven_drive_output [of eng ss] gives_up_drive_output [of eng _ e]
  by (metis fst_conv)

lemma gives_up_cause:
  "gives_up eng ss e \<longleftrightarrow> ss_finished ss = None \<and>
     (\<exists>K. stalls eng (unpark_all (ss_kernel ss)) K \<and>
        (e = WouldBlock \<and> asked_outside K \<or> e = NoProgress \<and> nobody_to_wait_for K))"
proof -
  have "gives_up eng ss e \<longleftrightarrow> ss_finished ss = None \<and>
     (\<exists>w K'. kernel_run eng budget_unlimited (ss_kernel ss) = Some (Idle w, K') \<and>
        (e = WouldBlock \<and> (w = IdleVfs \<or> w = IdleHost) \<or> e = NoProgress \<and> w = Deadlock))"
    by (auto simp: gives_up_def step_session_def Let_def split: option.splits prod.splits slice.splits idle.splits)
  then show ?thesis unfolding kernel_run_idle using why_idle_causes by (metis prod.exhaust)
qed

text \<open>The first process of a command, and whether it could be started.\<close>

definition command_start :: "('w, 'f, 'k) sandbox \<Rightarrow> ('w, 'f) outside \<Rightarrow> prepared \<Rightarrow> load_error option" where
  "command_start sb out c =
     (case find_program (cm_program c) sb of
        None \<Rightarrow> None
      | Some (i, path) \<Rightarrow>
          fst (spawn_first i path (as_bytes (cm_program c) # map as_bytes (cm_args c))
            (map (\<lambda>(k, v). as_bytes (k @ ''='' @ v)) (cm_env c)) (cm_cwd c)
            (let K0 = kernel_new (sb_mounts sb) (sb_overlay sb) (sb_programs sb) (sb_limits sb) out
             in case cm_terminal c of Some (w, h) \<Rightarrow> set_terminal w h K0 | None \<Rightarrow> K0)))"

lemma spawn_session_errors:
  "spawn_session sb out c = Inl e \<longleftrightarrow>
     e = NoSuchProgram (cm_program c) \<and> find_program (cm_program c) sb = None \<or>
     (\<exists>l. e = LoadFailed l \<and> command_start sb out c = Some l)"
  by (auto simp: spawn_session_def command_start_def Let_def split: option.splits prod.splits)

text \<open>
  C24: \<open>Command::output\<close> fails for its caller in exactly four cases, each with an error of its own: no program
  has the name; the program found cannot be started, with the error of its start; the processes stall and one of
  them has asked a filesystem or a host command to be called again; or they stall when nobody has asked for
  that, nobody sleeps, and nobody waits for input that can still come.  The stall is that of the
  session as it was driven: waits for a time are stepped again, waits for input are answered with its end, and so
  neither is ever reported.
\<close>

theorem command_output_errors:
  "command_output eng sb out c = Some (Inl e) \<longleftrightarrow>
     e = NoSuchProgram (cm_program c) \<and> find_program (cm_program c) sb = None \<or>
     (\<exists>l. e = LoadFailed l \<and> command_start sb out c = Some l) \<or>
     (\<exists>ss ss1 K. spawn_session sb out c = Inr ss \<and> driven eng ss ss1 \<and> ss_finished ss1 = None \<and>
        stalls eng (unpark_all (ss_kernel ss1)) K \<and>
        (e = WouldBlock \<and> asked_outside K \<or> e = NoProgress \<and> nobody_to_wait_for K))"
proof (cases "spawn_session sb out c")
  case (Inl e')
  then show ?thesis using spawn_session_errors [of sb out c e] by (auto simp: command_output_def)
next
  case (Inr ss)
  then have "command_output eng sb out c = Some (Inl e) \<longleftrightarrow> (\<exists>ss1. drive_output eng ss = Some (Inl e, ss1))"
    by (auto simp: command_output_def)
  then show ?thesis using spawn_session_errors [of sb out c e] Inr
    unfolding drive_output_error gives_up_cause by auto
qed

lemma command_output_errors_witness:
  "command_output demo_engine demo_sandbox still_world (command ''sl'' demo_sandbox) =
     Some (Inl (NoSuchProgram ''sl''))"
  unfolding command_output_errors by (simp add: find_program_def demo_sandbox_def command_def)

section \<open>Wait statuses\<close>

text \<open>
  \<open>ExitStatus\<close> reads back what the kernel encodes: a status made from an exit code gives
  the low byte of the code and no signal, one made from a signal gives the signal and no code, and
  the shell's reading separates the two as a shell does.
\<close>

theorem exit_status_roundtrip:
  "exit_code (status_exited c) = Some (c mod 256) \<and> exit_signal (status_exited c) = None \<and>
   shell_code (status_exited c) = c mod 256 \<and> (exit_success (status_exited c) \<longleftrightarrow> c mod 256 = 0) \<and>
   (s mod 128 \<noteq> 0 \<longrightarrow> exit_signal (status_signaled s) = Some (s mod 128) \<and>
     exit_code (status_signaled s) = None \<and> shell_code (status_signaled s) = 128 + s mod 128 \<and>
     \<not> exit_success (status_signaled s))"
proof -
  have "(c mod 256 * 256) mod 128 = 0" by presburger
  moreover have "drop_bit 8 (c mod 256 * 256) = c mod 256" by (simp add: drop_bit_eq_div)
  moreover have "128 + s mod 128 \<le> I32_MAX" "I32_MIN \<le> 128 + s mod 128" by presburger+
  ultimately show ?thesis
    by (simp add: exit_code_def exit_signal_def shell_code_def exit_success_def status_exited_mod
        status_signaled_mod and_127 and_255 sat_add_i32_def Let_def)
qed

lemma exit_status_roundtrip_witness:
  "exit_code (status_exited 259) = Some 3 \<and> exit_signal (status_signaled 9) = Some 9 \<and>
   shell_code (status_signaled 9) = 137"
  using exit_status_roundtrip [of 259 9] by simp

end
