(* ===== verification/Start_Block.thy ===== *)
theory Start_Block
  imports Safety
begin

text \<open>
  The arguments of a new program.  \<open>start_block\<close> (\<open>kernel/syscall.rs\<close>) lays out the argument count,
  the pointers, the auxiliary vector and the strings for the guest to copy to its memory, and
  \<open>execve\<close> reads argument vectors back with \<open>cstr_array\<close> (\<open>kernel/mem.rs\<close>).  The two are
  written independently; here they meet.
\<close>

section \<open>Words and strings in a block\<close>

lemma unat_add_of_nat: "unat b + k < 4294967296 \<Longrightarrow> unat (b + of_nat k) = unat (b :: u32) + k"
proof -
  assume "unat b + k < 4294967296"
  then have "unat (of_nat k :: u32) = k" by (simp add: unat_of_nat)
  moreover from this \<open>unat b + k < 4294967296\<close> have "unat b + unat (of_nat k :: u32) < 2 ^ LENGTH(32)" by simp
  ultimately show ?thesis by (metis unat_add_lem)
qed

lemma length_le32s [simp]: "length (concat (map le32 ws)) = 4 * length ws"
  by (induction ws) simp_all

lemma le32s_nth: "i < length ws \<Longrightarrow> take 4 (drop (4 * i) (concat (map le32 ws) @ r)) = le32 (ws ! i)"
proof (induction ws arbitrary: i)
  case (Cons w ws)
  then show ?case by (cases i) simp_all
qed simp

definition string_at :: "nat \<Rightarrow> bytes list \<Rightarrow> nat" where
  "string_at j xs = sum_list (map (\<lambda>x. length x + 1) (take j xs))"

lemma string_at_simps [simp]:
  "string_at 0 xs = 0" "string_at (Suc j) (x # xs) = length x + 1 + string_at j xs"
  by (simp_all add: string_at_def)

lemma string_offsets_nth:
  "j < length xs \<Longrightarrow> string_offsets at xs ! j = of_nat (at + string_at j xs)"
proof (induction xs arbitrary: at j)
  case (Cons x xs)
  then show ?case by (cases j) (simp_all add: add.assoc)
qed simp

lemma length_string_offsets [simp]: "length (string_offsets at xs) = length xs"
  by (induction xs arbitrary: at) simp_all

lemma block_strings_simps [simp]:
  "block_strings [] = []" "block_strings (x # xs) = x @ 0 # block_strings xs"
  by (simp_all add: block_strings_def)

lemma block_strings_nth:
  "j < length xs \<Longrightarrow> take (Suc (length (xs ! j))) (drop (string_at j xs) (block_strings xs @ r)) = xs ! j @ [0]"
proof (induction xs arbitrary: j)
  case (Cons x xs)
  then show ?case by (cases j) simp_all
qed simp

lemma string_at_bound:
  "j < length xs \<Longrightarrow> string_at j xs + length (xs ! j) < length (block_strings xs)"
proof (induction xs arbitrary: j)
  case (Cons x xs)
  then show ?case by (cases j) (auto simp: add.assoc)
qed simp

section \<open>The reader of argument vectors\<close>

lemma cstr_array_from_reads:
  assumes "\<And>j. j < length xs \<Longrightarrow> mem_u32 m (p + of_nat (4 * j)) = Inr (q j) \<and> q j \<noteq> 0 \<and>
      mem_cstr_bytes_upto m (q j) MAX_ARG_STRLEN = Inr (xs ! j)"
    and "mem_u32 m (p + of_nat (4 * length xs)) = Inr 0"
    and "unat p + 4 * length xs \<le> U32_MAX"
    and "used + sum_list (map (\<lambda>x. length x + 1) xs) \<le> MAX_ARG_TOTAL" and "length out + length xs < MAX_ARGS"
  shows "cstr_array_from m p used out = Inr (out @ xs)"
  using assms
proof (induction xs arbitrary: p used out q)
  case Nil
  then show ?case by (simp add: cstr_array_from.simps)
next
  case (Cons x xs)
  note first = Cons.prems(1) [of 0, simplified]
  have next': "checked_add_u32 p 4 = Some (p + 4)" using Cons.prems(3) by (simp add: checked_add_u32_def)
  have p4: "unat (p + 4) = unat p + 4" using unat_add_of_nat [of p 4] Cons.prems(3) by simp
  have shift: "p + 4 + of_nat (4 * j) = p + of_nat (4 * Suc j)" for j by simp
  have "cstr_array_from m (p + 4) (used + length x + 1) (out @ [x]) = Inr ((out @ [x]) @ xs)"
  proof (rule Cons.IH [where q = "\<lambda>j. q (Suc j)"])
    show "mem_u32 m (p + 4 + of_nat (4 * j)) = Inr (q (Suc j)) \<and> q (Suc j) \<noteq> 0 \<and>
        mem_cstr_bytes_upto m (q (Suc j)) MAX_ARG_STRLEN = Inr (xs ! j)" if "j < length xs" for j
      using Cons.prems(1) [of "Suc j"] that unfolding shift by simp
    show "mem_u32 m (p + 4 + of_nat (4 * length xs)) = Inr 0" using Cons.prems(2) unfolding shift by simp
  qed (use Cons.prems p4 in simp_all)
  with first next' Cons.prems(4,5) show ?case by (simp add: cstr_array_from.simps [of m p])
qed

section \<open>The block in memory\<close>

definition in_memory :: "bytes \<Rightarrow> u32 \<Rightarrow> bytes \<Rightarrow> bool" where
  "in_memory m base block \<longleftrightarrow>
     unat base + length block \<le> length m \<and> length m \<le> 4294967296 \<and>
     take (length block) (drop (unat base) m) = block"

lemma in_memory_part:
  assumes "in_memory m base block" "k + n \<le> length block"
  shows "take n (drop (unat base + k) m) = take n (drop k block)"
proof -
  have "take n (drop k block) = take n (drop k (take (length block) (drop (unat base) m)))"
    using assms(1) by (simp add: in_memory_def)
  also have "\<dots> = take n (drop (unat base + k) m)"
    using assms(2) by (simp add: drop_take add.commute min_def)
  finally show ?thesis by simp
qed

lemma in_memory_u32:
  assumes "in_memory m base (concat (map le32 ws) @ r)" "i < length ws"
  shows "mem_u32 m (base + of_nat (4 * i)) = Inr (ws ! i)"
proof -
  have a: "unat base + 4 * i + 4 \<le> length m" "length m \<le> 4294967296" using assms by (auto simp: in_memory_def)
  then have u: "unat (base + of_nat (4 * i)) = unat base + 4 * i" by (intro unat_add_of_nat) simp
  have "take 4 (drop (unat base + 4 * i) m) = take 4 (drop (4 * i) (concat (map le32 ws) @ r))"
    using assms by (intro in_memory_part) auto
  then have "take 4 (drop (unat base + 4 * i) m) = le32 (ws ! i)" using le32s_nth [OF assms(2)] by simp
  then show ?thesis using a unfolding mem_u32_def mem_slice_if u by simp
qed

lemma in_memory_cstr:
  assumes "in_memory m base (pre @ block_strings xs @ r)" "j < length xs" "0 \<notin> set (xs ! j)" "length (xs ! j) < cap"
  shows "mem_cstr_bytes_upto m (base + of_nat (length pre + string_at j xs)) cap = Inr (xs ! j)"
    and "0 < length pre \<Longrightarrow> base + of_nat (length pre + string_at j xs) \<noteq> 0"
proof -
  let ?k = "length pre + string_at j xs"
  have b: "string_at j xs + length (xs ! j) < length (block_strings xs)" using string_at_bound [OF assms(2)] .
  have a: "unat base + ?k + length (xs ! j) < length m" "length m \<le> 4294967296"
    using assms(1) b by (auto simp: in_memory_def)
  then have u: "unat (base + of_nat ?k) = unat base + ?k" by (intro unat_add_of_nat) simp
  have "take (Suc (length (xs ! j))) (drop (unat base + ?k) m) =
      take (Suc (length (xs ! j))) (drop ?k (pre @ block_strings xs @ r))"
    using assms(1) b by (intro in_memory_part) auto
  also have "\<dots> = xs ! j @ [0]" using block_strings_nth [OF assms(2), of r] by simp
  finally show "mem_cstr_bytes_upto m (base + of_nat ?k) cap = Inr (xs ! j)"
    using assms(3,4) a by (intro mem_cstr_bytes_upto_eq) (simp_all add: u del: of_nat_add of_nat_mult)
  show "0 < length pre \<Longrightarrow> base + of_nat ?k \<noteq> 0"
    using u by (metis add_gr_0 less_irrefl_nat unat_0)
qed

text \<open>What \<open>execve\<close> accepts as one argument vector.\<close>

definition argument_vector :: "bytes list \<Rightarrow> bool" where
  "argument_vector xs \<longleftrightarrow>
     (\<forall>x \<in> set xs. 0 \<notin> set x \<and> length x < MAX_ARG_STRLEN) \<and> length xs < MAX_ARGS \<and>
     sum_list (map (\<lambda>x. length x + 1) xs) \<le> MAX_ARG_TOTAL"


section \<open>The whole block\<close>

lemma length_fill_random: "fill_random n s = (Inr bs, s') \<Longrightarrow> length bs = n"
proof -
  have "length (fst (xorshift_fill n x)) = n" for x
    by (induction n arbitrary: x) (simp_all add: Let_def split: prod.splits, metis fst_conv)
  then show "fill_random n s = (Inr bs, s') \<Longrightarrow> length bs = n"
    by (auto simp: fill_random_def now_since_epoch_def on_shared_def monad_simps Let_def
        split: prod.splits sum.splits if_splits) (metis fst_conv)+
qed

lemma start_block_shape:
  assumes "start_block base s = (Inr block, s')"
  obtains seed where "length seed = 16"
    "block = concat (map le32 (block_words (c_argv (cx s)) (c_envp (cx s)) base)) @ seed @
       block_strings (c_argv (cx s) @ c_envp (cx s)) @ as_bytes (t_exe (c_task (cx s))) @ [0]"
  using assms length_fill_random [of 16 s]
  by (auto simp: start_block_def monad_simps split: prod.splits sum.splits)

lemma block_words_nth:
  fixes argv envp :: "bytes list" and base :: u32
  defines "ws \<equiv> block_words argv envp base" and "at \<equiv> \<lambda>j. 4 * length (block_words argv envp base) + 16 + string_at j (argv @ envp)"
  shows "ws ! 0 = of_nat (length argv)"
    and "j < length argv \<Longrightarrow> ws ! Suc j = base + of_nat (at j)"
    and "ws ! Suc (length argv) = 0"
    and "j < length envp \<Longrightarrow> ws ! (length argv + 2 + j) = base + of_nat (at (length argv + j))"
    and "ws ! (length argv + 2 + length envp) = 0"
    and "length ws = length argv + length envp + 23"
proof -
  define os where "os = string_offsets ((length argv + length envp + 3 + 10 * 2) * 4 + 16) (argv @ envp)"
  define aux where "aux = concat (map (\<lambda>(k, v). [k, v]) (block_auxv base ((length argv + length envp + 3 + 10 * 2) * 4)
      ((length argv + length envp + 3 + 10 * 2) * 4 + 16 + length (block_strings (argv @ envp)))))"
  have ws: "ws = of_nat (length argv) # map (\<lambda>o'. base + o') (take (length argv) os) @
      0 # map (\<lambda>o'. base + o') (drop (length argv) os) @ 0 # aux"
    by (simp add: ws_def block_words_def Let_def os_def aux_def)
  have os: "length os = length argv + length envp" by (simp add: os_def)
  have "length aux = 20" by (simp add: aux_def block_auxv_def)
  then show len: "length ws = length argv + length envp + 23" by (simp add: ws os)
  have nth: "os ! i = of_nat (at i)" if "i < length argv + length envp" for i
    using that string_offsets_nth [of i "argv @ envp"] len
    by (simp add: os_def at_def ws_def [symmetric] algebra_simps del: of_nat_add of_nat_mult)
  show "ws ! 0 = of_nat (length argv)" by (simp add: ws)
  show "ws ! Suc j = base + of_nat (at j)" if "j < length argv"
    using that nth [of j] by (simp add: ws os nth_append)
  show "ws ! Suc (length argv) = 0" by (simp add: ws os nth_append)
  show "ws ! (length argv + 2 + j) = base + of_nat (at (length argv + j))" if "j < length envp"
    using that nth [of "length argv + j"] by (simp add: ws os nth_append)
  show "ws ! (length argv + 2 + length envp) = 0" by (simp add: ws os nth_append)
qed

text \<open>
  C10: what \<open>start_block\<close> lays out for a new program, \<open>execve\<close>'s reader reads back: once the
  guest has the block in its memory, the count is at its start, and the two vectors of pointers that
  follow are those of the arguments and of the environment, string by string.
\<close>

theorem start_block_roundtrip:
  assumes "start_block base s = (Inr block, s')" and "in_memory m base block"
    and "argument_vector (c_argv (cx s))" and "argument_vector (c_envp (cx s))"
  shows "mem_u32 m base = Inr (of_nat (length (c_argv (cx s)))) \<and>
    mem_cstr_array m (base + of_nat (4 * 1)) = Inr (c_argv (cx s)) \<and>
    mem_cstr_array m (base + of_nat (4 * (length (c_argv (cx s)) + 2))) = Inr (c_envp (cx s))"
proof -
  define argv envp where "argv = c_argv (cx s)" and "envp = c_envp (cx s)"
  define ws where "ws = block_words argv envp base"
  obtain seed r where seed: "length seed = 16" and
    block: "block = concat (map le32 ws) @ seed @ block_strings (argv @ envp) @ r"
    using start_block_shape [OF assms(1)] by (metis argv_def envp_def ws_def)
  define at where "at = (\<lambda>j. 4 * length ws + 16 + string_at j (argv @ envp))"
  have at: "4 * length ws + 16 + string_at j (argv @ envp) = at j" for j by (simp add: at_def)
  note nth = block_words_nth [where argv = argv and envp = envp and base = base, folded ws_def, unfolded at]
  have word: "mem_u32 m (base + of_nat (4 * i)) = Inr (ws ! i)" if "i < length ws" for i
    using in_memory_u32 [OF _ that] assms(2) block by blast
  have str: "mem_cstr_bytes_upto m (base + of_nat (at j)) MAX_ARG_STRLEN = Inr ((argv @ envp) ! j) \<and> base + of_nat (at j) \<noteq> 0"
    if "j < length (argv @ envp)" for j
  proof -
    have "in_memory m base ((concat (map le32 ws) @ seed) @ block_strings (argv @ envp) @ r)"
      using assms(2) block by simp
    moreover have "(argv @ envp) ! j \<in> set (argv @ envp)" using that by (rule nth_mem)
    then have "0 \<notin> set ((argv @ envp) ! j)" "length ((argv @ envp) ! j) < MAX_ARG_STRLEN"
      using assms(3,4) by (auto simp: argument_vector_def argv_def envp_def)
    ultimately show ?thesis
      using in_memory_cstr [of m base "concat (map le32 ws) @ seed" "argv @ envp" r j MAX_ARG_STRLEN] that seed
      by (simp add: at_def del: of_nat_add of_nat_mult)
  qed
  have fits: "unat base + 4 * length ws < 4294967296"
    using assms(2) seed by (simp add: in_memory_def block)
  have shift: "base + of_nat (4 * k) + of_nat (4 * j) = base + of_nat (4 * (k + j))" for k j by simp
  have vec: "mem_cstr_array m (base + of_nat (4 * k)) = Inr xs"
    if "argument_vector xs" "0 < k" "k + length xs < length ws" "ws ! (k + length xs) = 0"
      "\<And>j. j < length xs \<Longrightarrow> ws ! (k + j) = base + of_nat (at (h + j)) \<and> h + j < length (argv @ envp) \<and>
        (argv @ envp) ! (h + j) = xs ! j" for k xs h
  proof -
    have u: "unat (base + of_nat (4 * k)) = unat base + 4 * k"
      using fits that(3) by (intro unat_add_of_nat) simp
    have "cstr_array_from m (base + of_nat (4 * k)) 0 [] = Inr ([] @ xs)"
    proof (rule cstr_array_from_reads [where q = "\<lambda>j. base + of_nat (at (h + j))"])
      show "mem_u32 m (base + of_nat (4 * k) + of_nat (4 * j)) = Inr (base + of_nat (at (h + j))) \<and>
          base + of_nat (at (h + j)) \<noteq> 0 \<and>
          mem_cstr_bytes_upto m (base + of_nat (at (h + j))) MAX_ARG_STRLEN = Inr (xs ! j)" if "j < length xs" for j
        unfolding shift using word [of "k + j"] str [of "h + j"] that \<open>k + length xs < length ws\<close>
          \<open>j < length xs \<Longrightarrow> ws ! (k + j) = _ \<and> _\<close> by simp
      show "mem_u32 m (base + of_nat (4 * k) + of_nat (4 * length xs)) = Inr 0"
        unfolding shift using word [of "k + length xs"] that(3,4) by simp
      show "unat (base + of_nat (4 * k)) + 4 * length xs \<le> U32_MAX"
        unfolding u using fits that(3) by simp
    qed (use that(1) in \<open>simp_all add: argument_vector_def\<close>)
    moreover have "base + of_nat (4 * k) \<noteq> 0" using u that(2) by (metis add_gr_0 less_irrefl_nat mult_pos_pos unat_0 zero_less_numeral)
    ultimately show ?thesis by (simp add: mem_cstr_array_def)
  qed
  have a: "argument_vector argv" and e: "argument_vector envp" using assms(3,4) by (simp_all add: argv_def envp_def)
  have "mem_u32 m base = Inr (of_nat (length argv))" using word [of 0] nth(1,6) by simp
  moreover have "mem_cstr_array m (base + of_nat (4 * 1)) = Inr argv"
    by (rule vec [OF a, where h = 0]) (use nth in \<open>auto simp: nth_append\<close>)
  moreover have "mem_cstr_array m (base + of_nat (4 * (length argv + 2))) = Inr envp"
    by (rule vec [OF e, where h = "length argv"]) (use nth in \<open>auto simp: nth_append\<close>)
  ultimately show ?thesis by (simp only: argv_def envp_def)
qed


definition ls_process :: "(unit, unit) st" where
  "ls_process = one_process\<lparr>cx := one_ctx\<lparr>c_argv := [[108, 115], [47]], c_envp := [[65, 61]]\<rparr>\<rparr>"

lemma start_block_total: "\<exists>block s'. start_block base s = (Inr block, s')"
  by (simp add: start_block_def fill_random_def now_since_epoch_def on_shared_def monad_simps Let_def split: prod.splits)

lemma start_block_roundtrip_witness:
  "\<exists>block s' m. start_block 16 ls_process = (Inr block, s') \<and> in_memory m 16 block \<and> mem_u32 m 16 = Inr 2 \<and>
    mem_cstr_array m 20 = Inr [[108, 115], [47]] \<and> mem_cstr_array m 32 = Inr [[65, 61]]"
proof -
  obtain block s' where b: "start_block 16 ls_process = (Inr block, s')" using start_block_total by blast
  have argv: "c_argv (cx ls_process) = [[108, 115], [47]]" "c_envp (cx ls_process) = [[65, 61]]"
    and exe: "t_exe (c_task (cx ls_process)) = []"
    by (simp_all add: ls_process_def one_ctx_def task_new_def)
  obtain seed where "length seed = 16"
    "block = concat (map le32 (block_words [[108, 115], [47]] [[65, 61]] 16)) @ seed @
       block_strings [[108, 115], [47], [65, 61]] @ as_bytes [] @ [0]"
    using start_block_shape [OF b] unfolding argv exe by auto
  then have len: "length block \<le> 1000"
    using block_words_nth(6) [of "[[108, 115], [47]]" "[[65, 61]]" 16] by (simp add: as_bytes_def)
  then have m: "in_memory (replicate 16 0 @ block) 16 block" by (simp add: in_memory_def)
  have "argument_vector [[108, 115], [47]]" "argument_vector [[65, 61]]" by (simp_all add: argument_vector_def)
  then show ?thesis using start_block_roundtrip [OF b m] b m unfolding argv
    by (intro exI [of _ block] exI [of _ s'] exI [of _ "replicate 16 0 @ block"]) simp
qed

end
