(* ===== verification/Guest_Properties.thy ===== *)
theory Guest_Properties
  imports Safety
begin

text \<open>
  What single operations promise their guest: which signal is delivered, what a pipe carries, how
  times and terminal settings cross the guest's memory, which descriptor is handed out, what
  \<open>wait4\<close> and a \<open>vfork\<close> child's exit do, how long a sleep lasts, and what an unknown call returns.
\<close>

section \<open>Signals\<close>

text \<open>The signals that could be delivered now, and the ones that would be dropped.\<close>

definition ready_signals :: "task \<Rightarrow> u64 \<Rightarrow> nat set" where
  "ready_signals t p = {n. 0 < n \<and> n < 64 \<and> bit p n \<and> deliverable (t_sigmask t) t (int n)}"

definition dropped_signals :: "task \<Rightarrow> u64 \<Rightarrow> nat set" where
  "dropped_signals t p = {n. 0 < n \<and> n < 64 \<and> bit p n \<and> is_ignored (task_action t (int n)) (int n)}"

lemma trailing_zeros_least: "bit w n \<Longrightarrow> trailing_zeros w \<le> n"
proof (rule ccontr)
  assume "bit w n" "\<not> trailing_zeros w \<le> n"
  then have "n < length (takeWhile (\<lambda>n. \<not> bit w n) [0..<64])" by (simp add: trailing_zeros_def)
  then have "takeWhile (\<lambda>n. \<not> bit w n) [0..<64] ! n \<in> set (takeWhile (\<lambda>n. \<not> bit w n) [0..<64])"
    and "takeWhile (\<lambda>n. \<not> bit w n) [0..<64] ! n = n"
    using length_takeWhile_le [of "\<lambda>n. \<not> bit w n" "[0..<64]"] by (simp_all only: nth_mem) (simp add: takeWhile_nth)
  with \<open>bit w n\<close> show False by (metis set_takeWhileD)
qed

lemma ready_triage:
  assumes "triage p (t_sigmask t) t = (live, discard)"
  shows "ready_signals t p = {n. bit live n}" and "dropped_signals t p = {n. bit discard n}"
  using triage_bits [OF assms] by (auto simp: ready_signals_def dropped_signals_def)

lemma ready_least:
  assumes "triage p (t_sigmask t) t = (live, discard)"
  shows "live = 0 \<longleftrightarrow> ready_signals t p = {}" and "live \<noteq> 0 \<Longrightarrow> trailing_zeros live = (LEAST n. n \<in> ready_signals t p)"
proof -
  show "live = 0 \<longleftrightarrow> ready_signals t p = {}"
    unfolding ready_triage(1) [OF assms] using trailing_zeros_bit(2) by auto
  show "trailing_zeros live = (LEAST n. n \<in> ready_signals t p)" if "live \<noteq> 0"
    unfolding ready_triage(1) [OF assms] using trailing_zeros_bit(2) [OF that] trailing_zeros_least
    by (intro Least_equality [symmetric]) auto
qed

text \<open>
  C14: the choice of the next signal is the one of POSIX.  Signals whose action is to ignore them
  leave the pending set; when no other pending signal may be delivered there is nothing to do;
  otherwise the lowest one is taken out, and it ends the process if its action is the default one and
  runs its handler if it has one.  Nothing else leaves the pending set: the search never gives up a
  signal on the way.
\<close>

theorem pick_signal_posix:
  "pick_signal t p = (left, what) \<Longrightarrow>
   if ready_signals t p = {}
   then what = PickNone \<and> (\<forall>n. bit left n \<longleftrightarrow> bit p n \<and> n \<notin> dropped_signals t p)
   else let n = (LEAST n. n \<in> ready_signals t p); a = task_action t (int n) in
     what = (if sa_handler a = SIG_DFL then PickFatal (status_signaled (int n)) else PickHandler (int n) a) \<and>
     (\<forall>m. bit left m \<longleftrightarrow> bit p m \<and> m \<notin> dropped_signals t p \<and> m \<noteq> n)"
proof -
  assume pick: "pick_signal t p = (left, what)"
  obtain live discard where tr: "triage p (t_sigmask t) t = (live, discard)" by fastforce
  define n where "n = trailing_zeros live"
  have off: "bit (p AND NOT discard) m \<longleftrightarrow> bit p m \<and> m \<notin> dropped_signals t p" for m
    unfolding ready_triage(2) [OF tr] using bit_imp_le_length [of p m] by (auto simp: bit_and_iff bit_not_iff)
  show ?thesis
  proof (cases "live = 0")
    case True
    then have "pick_signal t p = (p AND NOT discard, PickNone)" by (simp add: pick_signal.simps [of t p] tr Let_def)
    then show ?thesis using pick True ready_least(1) [OF tr] off by auto
  next
    case False
    have n: "n = (LEAST n. n \<in> ready_signals t p)" "n \<in> ready_signals t p"
      using ready_least(2) [OF tr False] trailing_zeros_bit(2) [OF False] ready_triage(1) [OF tr] by (auto simp: n_def)
    then have d: "0 < n" "n < 64" "\<not> is_ignored (task_action t (int n)) (int n)"
      by (auto simp: ready_signals_def deliverable_def)
    have left: "bit ((p AND NOT discard) AND NOT (sig_bit (int n))) m \<longleftrightarrow> bit p m \<and> m \<notin> dropped_signals t p \<and> m \<noteq> n" for m
      using d off [of m] bit_imp_le_length [of p m] by (auto simp: bit_and_iff bit_not_iff sig_bit_bit)
    have "pick_signal t p = ((p AND NOT discard) AND NOT (sig_bit (int n)),
        if sa_handler (task_action t (int n)) = SIG_DFL then PickFatal (status_signaled (int n))
        else PickHandler (int n) (task_action t (int n)))"
      using False d(3) by (auto simp: pick_signal.simps [of t p] tr Let_def n_def is_ignored_def default_kills_def)
    then show ?thesis
      using pick left n by (auto simp: Let_def)
  qed
qed

definition catcher :: task where
  "catcher = (task_new 7 fdt_new)\<lparr>t_sigmask := sig_bit 15,
     t_sigact := (replicate NSIG sig_action_default)[10 := \<lparr>sa_handler = 4, sa_flags = 0, sa_mask = 0\<rparr>]\<rparr>"

lemma pick_signal_posix_witness:
  "\<exists>left a. pick_signal catcher (sig_bit 17 OR sig_bit 15 OR sig_bit 10) = (left, PickHandler 10 a) \<and>
    bit left 15 \<and> \<not> bit left 17"
proof -
  let ?p = "sig_bit 17 OR sig_bit 15 OR sig_bit 10"
  obtain left what where pick: "pick_signal catcher ?p = (left, what)" by fastforce
  have bits: "bit ?p n \<longleftrightarrow> n \<in> {10, 15, 17}" for n by (auto simp: bit_or_iff sig_bit_bit)
  have acts: "task_action catcher (int n) = (if n = 10 then \<lparr>sa_handler = 4, sa_flags = 0, sa_mask = 0\<rparr> else sig_action_default)" for n
    by (auto simp: task_action_def catcher_def task_new_def get_at_def nth_list_update)
  have mask: "t_sigmask catcher = sig_bit 15" by (simp add: catcher_def)
  have ready: "ready_signals catcher ?p = {10}"
    unfolding ready_signals_def bits deliverable_def is_ignored_def acts mask
    by (auto simp: sig_bit_bit sig_action_default_def default_ignored_def)
  have dropped: "dropped_signals catcher ?p = {17}"
    unfolding dropped_signals_def bits is_ignored_def acts
    by (auto simp: sig_action_default_def default_ignored_def)
  have least: "(LEAST n. n \<in> {10 :: nat}) = 10" by (auto intro: Least_equality)
  show ?thesis
    using pick_signal_posix [OF pick] pick acts [of 10] bits
    unfolding ready dropped least by (simp add: Let_def)
qed

section \<open>Unknown calls\<close>

definition supported_calls :: "int list" where
  "supported_calls = [
    NR_EXIT, NR_EXIT_GROUP, NR_CLONE, NR_EXECVE, NR_WAIT4, NR_GETPID, NR_GETTID, NR_GETPPID, NR_GETUID,
    NR_GETEUID, NR_GETGID, NR_GETEGID, NR_SETUID, NR_SETGID, NR_SETREUID, NR_SETREGID, NR_SETRESUID,
    NR_SETRESGID, NR_SETGROUPS, NR_GETGROUPS, NR_SETPGID, NR_GETPGID, NR_SETSID, NR_GETSID,
    NR_SET_TID_ADDRESS, NR_SET_ROBUST_LIST, NR_PRCTL, NR_SCHED_YIELD, NR_MEMBARRIER, NR_RSEQ,
    NR_SCHED_GETAFFINITY, NR_UMASK, NR_UNAME, NR_SYSINFO, NR_PRLIMIT64, NR_GETRUSAGE, NR_TIMES,
    NR_GETRANDOM, NR_RT_SIGACTION, NR_RT_SIGPROCMASK, NR_RT_SIGPENDING, NR_RT_SIGSUSPEND, NR_SIGALTSTACK,
    NR_RT_SIGRETURN, NR_KILL, NR_TKILL, NR_TGKILL, NR_CLOCK_GETTIME64, NR_CLOCK_GETRES_TIME64,
    NR_GETTIMEOFDAY, NR_NANOSLEEP, NR_CLOCK_NANOSLEEP_TIME64, NR_BRK, NR_MMAP, NR_MUNMAP, NR_MPROTECT,
    NR_MADVISE, NR_MSYNC, NR_MLOCK, NR_MUNLOCK, NR_MREMAP, NR_CLOSE, NR_READ, NR_WRITE, NR_READV,
    NR_WRITEV, NR_LSEEK, NR_FTRUNCATE, NR_FSYNC, NR_FDATASYNC, NR_SYNC, NR_SYNCFS, NR_FADVISE64, NR_FLOCK,
    NR_DUP, NR_DUP3, NR_PIPE2, NR_FCNTL, NR_IOCTL, NR_GETDENTS64, NR_FCHDIR, NR_PPOLL_TIME64,
    NR_PSELECT6_TIME64, NR_OPENAT, NR_TRUNCATE, NR_GETCWD, NR_CHDIR, NR_STATX, NR_FACCESSAT, NR_FACCESSAT2,
    NR_READLINKAT, NR_MKDIRAT, NR_UNLINKAT, NR_RENAMEAT, NR_RENAMEAT2, NR_SYMLINKAT, NR_LINKAT,
    NR_FCHMODAT, NR_FCHMOD, NR_FCHOWN, NR_FCHOWNAT, NR_UTIMENSAT_TIME64, NR_STATFS, NR_FSTATFS]"

lemma handle_unknown:
  assumes "nr \<notin> set supported_calls"
  shows "(handle nr a :: ('w, 'f, int) sys) = err ENOSYS"
proof -
  have n: "nr \<notin> set supported_calls" by (rule assms)
  have "(handle_process nr a :: ('w, 'f, int) sys option) = None"
    using n by (cases a) (simp add: handle_process_def supported_calls_def)
  moreover have "(handle_signal nr a :: ('w, 'f, int) sys option) = None"
    using n by (cases a) (simp add: handle_signal_def supported_calls_def)
  moreover have "(handle_fd nr a :: ('w, 'f, int) sys option) = None"
    using n by (cases a) (simp add: handle_fd_def supported_calls_def)
  moreover have "(handle_path nr a :: ('w, 'f, int) sys option) = None"
    using n by (cases a) (simp add: handle_path_def supported_calls_def)
  ultimately show ?thesis by (simp add: handle_def)
qed

text \<open>
  A number outside the table is refused with \<open>ENOSYS\<close>, and the refusal has no effect on what
  processes share but for the count of calls, nor on the descriptors of the caller.
\<close>

theorem unknown_call:
  assumes "nr \<notin> set supported_calls"
  shows "\<exists>s'. dispatch nr a s = (OValue (as_neg ENOSYS), s') \<and> sh s' = sh (count_syscall s) \<and>
    t_fds (the_task s') = t_fds (the_task s) \<and> length (g_mem (gs s')) = length (g_mem (gs s))"
proof -
  have "length (g_mem (gs (snd (finish s')))) = length (g_mem (gs s'))" for s' :: "('a, 'b) st"
    by (auto simp: finish_def restore_mask_def monad_simps on_exec_def raise_signal_flag_def ignoring_def to_mem_def
        mem_put_u32_def mem_put_if Let_def split: option.splits prod.splits)
  moreover have "dispatch nr a s = (OValue (as_neg ENOSYS), snd (finish (count_syscall s)))"
    unfolding dispatch_def handle_unknown [OF assms] by (simp add: fault_def)
  ultimately show ?thesis using finish_task [of "count_syscall s"] by (simp add: count_syscall_def)
qed

lemma unknown_call_witness:
  "\<exists>s'. dispatch 198 (0, 0, 0, 0, 0, 0) one_process = (OValue (- 38), s') \<and> sh s' = sh (count_syscall one_process)"
proof -
  have "(198 :: int) \<notin> set supported_calls" by (simp add: supported_calls_def)
  from unknown_call [OF this, of "(0, 0, 0, 0, 0, 0)" one_process] show ?thesis
    by (auto simp: as_i32_def)
qed


section \<open>Pipes\<close>

text \<open>
  Any sequence of writes and reads of one pipe, by anybody.  \<open>pipe_run\<close> is the code; it collects the
  bytes that the writes accepted and the bytes that the reads delivered.
\<close>

datatype pipe_event = Put bool bytes | Get bool nat

fun pipe_run :: "nat \<Rightarrow> pipe_event list \<Rightarrow> ('w, 'f) st \<Rightarrow> bytes \<times> bytes \<times> ('w, 'f) st" where
  "pipe_run k [] s = ([], [], s)"
| "pipe_run k (Put nb data # es) s =
     (case write_pipe k nb data s of (r, s1) \<Rightarrow>
      case pipe_run k es s1 of (accepted, delivered, s2) \<Rightarrow>
        ((case r of Inr n \<Rightarrow> take n data | Inl _ \<Rightarrow> []) @ accepted, delivered, s2))"
| "pipe_run k (Get nb n # es) s =
     (case read_pipe k nb (replicate n 0) s of (r, s1) \<Rightarrow>
      case pipe_run k es s1 of (accepted, delivered, s2) \<Rightarrow>
        (accepted, (case r of Inr (c, buf) \<Rightarrow> take c buf | Inl _ \<Rightarrow> []) @ delivered, s2))"

lemma write_pipe_step:
  assumes "slab_get (sh_pipes (sh s)) k = Some p" "write_pipe k nb data s = (r, s1)"
  shows "\<exists>p1. slab_get (sh_pipes (sh s1)) k = Some p1 \<and>
    p_data p1 = p_data p @ (case r of Inr n \<Rightarrow> take n data | Inl _ \<Rightarrow> []) \<and>
    (length (p_data p) \<le> PIPE_CAPACITY \<longrightarrow> length (p_data p1) \<le> PIPE_CAPACITY)"
  using assms
  by (auto simp: write_pipe_def evals ok_or_def on_records_def Let_def pipe_update_def slab_get_modify pipe_room_def
      split: if_splits)

lemma read_pipe_step:
  assumes "slab_get (sh_pipes (sh s)) k = Some p" "read_pipe k nb buf s = (r, s1)"
  shows "\<exists>p1. slab_get (sh_pipes (sh s1)) k = Some p1 \<and>
    p_data p = (case r of Inr (c, b) \<Rightarrow> take c b | Inl _ \<Rightarrow> []) @ p_data p1"
  using assms
  by (auto simp: read_pipe_def evals ok_or_def Let_def pipe_update_def slab_get_modify split: if_splits)

text \<open>
  C15: a pipe is a first-in, first-out channel.  After any sequence of writes and reads, blocking or
  not, of any sizes, the bytes delivered followed by the bytes still held are the bytes held at the start
  followed by the bytes accepted: nothing is lost, repeated or reordered, and the pipe never holds
  more than its capacity.
\<close>

theorem pipe_fifo:
  assumes "slab_get (sh_pipes (sh s)) k = Some p" and "pipe_run k es s = (accepted, delivered, s')"
  shows "\<exists>p'. slab_get (sh_pipes (sh s')) k = Some p' \<and>
    delivered @ p_data p' = p_data p @ accepted \<and>
    (length (p_data p) \<le> PIPE_CAPACITY \<longrightarrow> length (p_data p') \<le> PIPE_CAPACITY)"
  using assms
proof (induction k es s arbitrary: p accepted delivered rule: pipe_run.induct)
  case (2 k nb data es s)
  obtain r s1 where w: "write_pipe k nb data s = (r, s1)" by fastforce
  obtain acc del s2 where rest: "pipe_run k es s1 = (acc, del, s2)" by (metis prod_cases3)
  obtain p1 where p1: "slab_get (sh_pipes (sh s1)) k = Some p1"
    "p_data p1 = p_data p @ (case r of Inr n \<Rightarrow> take n data | Inl _ \<Rightarrow> [])"
    "length (p_data p) \<le> PIPE_CAPACITY \<longrightarrow> length (p_data p1) \<le> PIPE_CAPACITY"
    using write_pipe_step [OF "2.prems"(1) w] by blast
  have "s2 = s'" "del = delivered" "accepted = (case r of Inr n \<Rightarrow> take n data | Inl _ \<Rightarrow> []) @ acc"
    using "2.prems"(2) w rest by auto
  moreover have "\<exists>p'. slab_get (sh_pipes (sh s')) k = Some p' \<and> del @ p_data p' = p_data p1 @ acc \<and>
    (length (p_data p1) \<le> PIPE_CAPACITY \<longrightarrow> length (p_data p') \<le> PIPE_CAPACITY)"
    by (rule "2.IH" [OF w [symmetric] p1(1)]) (use rest calculation(1) in simp)
  ultimately show ?case using p1 by auto
next
  case (3 k nb n es s)
  obtain r s1 where w: "read_pipe k nb (replicate n 0) s = (r, s1)" by fastforce
  obtain acc del s2 where rest: "pipe_run k es s1 = (acc, del, s2)" by (metis prod_cases3)
  obtain p1 where p1: "slab_get (sh_pipes (sh s1)) k = Some p1"
    "p_data p = (case r of Inr (c, b) \<Rightarrow> take c b | Inl _ \<Rightarrow> []) @ p_data p1"
    using read_pipe_step [OF "3.prems"(1) w] by blast
  have eq: "s2 = s'" "delivered = (case r of Inr (c, b) \<Rightarrow> take c b | Inl _ \<Rightarrow> []) @ del" "accepted = acc"
    using "3.prems"(2) w rest by auto
  have "\<exists>p'. slab_get (sh_pipes (sh s')) k = Some p' \<and> del @ p_data p' = p_data p1 @ acc \<and>
    (length (p_data p1) \<le> PIPE_CAPACITY \<longrightarrow> length (p_data p') \<le> PIPE_CAPACITY)"
    by (rule "3.IH" [OF w [symmetric] p1(1)]) (use rest eq(1) in simp)
  then obtain p' where "slab_get (sh_pipes (sh s')) k = Some p'" "del @ p_data p' = p_data p1 @ acc"
    "length (p_data p1) \<le> PIPE_CAPACITY \<longrightarrow> length (p_data p') \<le> PIPE_CAPACITY" by blast
  moreover from this(2) have "delivered @ p_data p' = p_data p @ accepted"
    unfolding eq(2,3) p1(2) by simp
  ultimately show ?case using p1(2) eq(1) by auto
qed auto

lemma pipe_fifo_witness:
  "\<exists>accepted delivered s' p'. pipe_run 0 [Put False [1, 2], Get False 2, Put True [3], Get True 9]
      (with_pipe \<lparr>p_data = [9], p_readers = 2, p_writers = 2\<rparr>) = (accepted, delivered, s') \<and>
    slab_get (sh_pipes (sh s')) 0 = Some p' \<and> delivered @ p_data p' = 9 # accepted"
proof -
  let ?p = "\<lparr>p_data = [9], p_readers = 2, p_writers = 2\<rparr>"
  have g: "slab_get (sh_pipes (sh (with_pipe ?p))) 0 = Some ?p"
    by (simp add: with_pipe_def slab_get_def get_slot_def)
  obtain a d s' where w: "pipe_run 0 [Put False [1, 2], Get False 2, Put True [3], Get True 9] (with_pipe ?p) = (a, d, s')"
    by (metis prod_cases3)
  from pipe_fifo [OF g w] w show ?thesis by auto
qed

section \<open>Times in memory\<close>

lemma overwrite_split: "at + length xs + length ys \<le> length m \<Longrightarrow>
    overwrite (at + length xs) ys (overwrite at xs m) = overwrite at (xs @ ys) m"
  by (cases xs) (auto simp: overwrite_def min_def ac_simps)

lemma put_timespec_eq:
  assumes "unat at + 16 \<le> length m" "length m \<le> 4294967296"
  shows "mem_put_timespec at d m =
    (Inr (), overwrite (unat at) (le64 (of_nat (d div NANOS)) @ le32 (of_nat (d mod NANOS)) @ le32 0) m)"
proof -
  have u: "unat (at + 8) = unat at + 8" "unat (at + 12) = unat at + 12" "checked_add_u32 at 8 = Some (at + 8)"
    "checked_add_u32 at 12 = Some (at + 12)"
    using assms unat_add_lem [of at 8] unat_add_lem [of at 12] by (simp_all add: checked_add_u32_def)
  define x y where "x = le64 (of_nat (d div NANOS))" and "y = le32 (of_nat (d mod NANOS))"
  have len: "length x = 8" "length y = 4" by (simp_all add: x_def y_def)
  have "overwrite (unat at + 8) y (overwrite (unat at) x m) = overwrite (unat at) (x @ y) m"
    using overwrite_split [of "unat at" x y m] len assms(1) by simp
  moreover have "overwrite (unat at + 12) (le32 0) (overwrite (unat at) (x @ y) m) = overwrite (unat at) ((x @ y) @ le32 0) m"
    using overwrite_split [of "unat at" "x @ y" "le32 0" m] len assms(1) by simp
  ultimately show ?thesis
    using assms(1) len unfolding mem_put_timespec_def bnd_def ok_or_def mem_put_u64_def mem_put_u32_def
    by (simp add: u mem_put_if ret_def x_def y_def)
qed

text \<open>
  A time written for the guest reads back as itself: whenever the sixteen bytes lie in the
  memory, the write succeeds, touches no other byte, and the reader that \<open>nanosleep\<close>, \<open>ppoll\<close> and
  \<open>pselect\<close> use returns the same number of nanoseconds, for any time a signed 64-bit count of seconds
  can express.
\<close>

theorem timespec_roundtrip:
  assumes "unat at + 16 \<le> length m" "length m \<le> 4294967296" and "d < 9223372036854775808 * NANOS"
  shows "\<exists>m'. mem_put_timespec at d m = (Inr (), m') \<and> mem_timespec m' at = Inr d \<and> length m' = length m \<and>
    take (unat at) m' = take (unat at) m \<and> drop (unat at + 16) m' = drop (unat at + 16) m"
proof -
  define secs nanos where "secs = d div NANOS" and "nanos = d mod NANOS"
  define data where "data = le64 (of_nat secs) @ le32 (of_nat nanos) @ le32 0"
  define m' where "m' = overwrite (unat at) data m"
  have len: "length data = 16" by (simp add: data_def)
  have secs: "secs < 9223372036854775808" using assms(3) by (simp add: secs_def div_less_iff_less_mult)
  have u64: "unat (of_nat secs :: u64) = secs" using secs by (simp add: unat_of_nat)
  have pos: "0 \<le> sint (of_nat secs :: u64)"
  proof -
    have "sint (of_nat secs :: u64) = int secs"
      using secs by (simp add: signed_of_nat signed_take_bit_int_eq_self)
    then show ?thesis by simp
  qed
  have nanos: "nanos < NANOS" "unat (of_nat nanos :: u32) = nanos" by (simp_all add: nanos_def unat_of_nat)
  have u: "unat (at + 8) = unat at + 8" "checked_add_u32 at 8 = Some (at + 8)"
    using assms unat_add_lem [of at 8] by (simp_all add: checked_add_u32_def)
  have win: "take n (drop (unat at + i) m') = take n (drop i data)" if "i + n \<le> 16" for i n
    using that assms(1) len by (simp add: m'_def overwrite_def min_def)
  have "mem_u64 m' at = Inr (of_nat secs)"
    using win [of 0 8] assms(1) len by (simp add: mem_u64_def mem_slice_if data_def m'_def overwrite_def)
  moreover have "mem_u32 m' (at + 8) = Inr (of_nat nanos)"
    using win [of 8 4] assms(1) len by (simp add: mem_u32_def mem_slice_if u data_def m'_def overwrite_def)
  ultimately have "mem_timespec m' at = Inr (secs * NANOS + nanos)"
    using pos nanos by (simp add: mem_timespec_def u u64)
  moreover have "secs * NANOS + nanos = d" by (simp add: secs_def nanos_def)
  moreover have "mem_put_timespec at d m = (Inr (), m')"
    using put_timespec_eq [OF assms(1,2)] by (simp add: m'_def data_def secs_def nanos_def)
  ultimately show ?thesis using assms(1) len
    by (intro exI [of _ m']) (simp add: m'_def overwrite_def)
qed

lemma timespec_roundtrip_witness:
  "\<exists>m'. mem_put_timespec 8 1500000000 (replicate 64 0) = (Inr (), m') \<and> mem_timespec m' 8 = Inr 1500000000"
  using timespec_roundtrip [of 8 "replicate 64 0" 1500000000] by auto


section \<open>Descriptors\<close>

text \<open>
  C25: duplicating a descriptor follows POSIX.  A descriptor that is not open is \<open>EBADF\<close>; otherwise
  the copy is the lowest free number that is not below the one asked for, it names the same
  description, it is closed on \<open>exec\<close> exactly if that was asked for, and no other descriptor
  changes; when every number below the limit is taken it is \<open>EMFILE\<close>, and none changes.
\<close>

theorem dup_lowest:
  assumes "dup_fd fd cloexec lo s = (r, s')" and "limit_files s \<le> 2147483648"
  shows "case fdt_get (t_fds (the_task s)) fd of
      Inl e \<Rightarrow> r = Inl (FErrno e) \<and> e = EBADF \<and> s' = s
    | Inr entry \<Rightarrow>
        if \<exists>j. lo \<le> j \<and> j < limit_files s \<and> get_slot (t_fds (the_task s)) j = None
        then let j = (LEAST j. lo \<le> j \<and> j < limit_files s \<and> get_slot (t_fds (the_task s)) j = None) in
          r = Inr (int j) \<and>
          get_slot (t_fds (the_task s')) =
            (get_slot (t_fds (the_task s)))(j \<mapsto> \<lparr>fd_desc = fd_desc entry, fd_cloexec = cloexec\<rparr>)
        else r = Inl (FErrno EMFILE) \<and> get_slot (t_fds (the_task s')) = get_slot (t_fds (the_task s))"
proof (cases "fdt_get (t_fds (the_task s)) fd")
  case (Inl e)
  then have "e = EBADF" by (auto simp: fdt_get_def split: if_splits option.splits)
  with Inl assms(1) show ?thesis by (simp add: dup_fd_def evals)
next
  case (Inr entry)
  define t where "t = t_fds (the_task s)"
  define free where "free = (\<lambda>j. lo \<le> j \<and> j < limit_files s \<and> get_slot t j = None)"
  obtain q t' where a: "fdt_alloc \<lparr>fd_desc = fd_desc entry, fd_cloexec = cloexec\<rparr> lo (limit_files s) t = (q, t')"
    by fastforce
  have lim: "limit_files (s\<lparr>sh := sh_descs_update (desc_incref (fd_desc entry)) (sh s)\<rparr>) = limit_files s"
    by (simp add: limit_files_def)
  have r: "r = (case q of Inl e \<Rightarrow> Inl (FErrno e) | Inr n \<Rightarrow> Inr n)" "t_fds (the_task s') = t'"
    using assms(1) a Inr
    by (auto simp: dup_fd_def evals incref_def lim on_fds_def run_def of_result_def t_def limit_files_def
        split: sum.splits prod.splits)
  show ?thesis
  proof (cases q)
    case (Inl e)
    then have "e = EMFILE" "\<not> (\<exists>j. free j)" "get_slot t' = get_slot t"
      using fdt_alloc_InlD [OF a [unfolded Inl]] by (auto simp: free_def)
    then show ?thesis using r Inl \<open>fdt_get _ fd = Inr entry\<close> by (auto simp: t_def free_def)
  next
    case (Inr n)
    obtain j where j: "n = as_i32 (int j)" "lo \<le> j" "j < limit_files s" "get_slot t j = None"
      "\<And>h. lo \<le> h \<Longrightarrow> h < j \<Longrightarrow> get_slot t h \<noteq> None"
      "get_slot t' = (get_slot t)(j := Some \<lparr>fd_desc = fd_desc entry, fd_cloexec = cloexec\<rparr>)"
      using fdt_alloc_InrD [OF a [unfolded Inr]] by metis
    have "free j" using j by (simp add: free_def)
    moreover have "(LEAST j. free j) = j"
      using calculation j(5) by (intro Least_equality) (simp, metis free_def not_le)
    moreover have "n = int j" using j(1,3) assms(2) as_i32_id [of "int j"] by simp
    ultimately show ?thesis
      using r Inr j(6) \<open>fdt_get _ fd = Inr entry\<close> by (auto simp: t_def [symmetric] free_def Let_def)
  qed
qed

lemma dup_lowest_witness:
  "fst (dup_fd 1 True 0 one_process) = Inr 3 \<and> fst (dup_fd 9 True 0 one_process) = Inl (FErrno EBADF)"
proof -
  have fds: "t_fds (the_task one_process) = std_fds" "limit_files one_process = 256"
    by (simp_all add: one_process_def one_ctx_def task_new_def limit_files_def one_shared_def shared_new_def limits_default_def)
  have get: "fdt_get std_fds 1 = Inr \<lparr>fd_desc = 1, fd_cloexec = False\<rparr>" "fdt_get std_fds 9 = Inl EBADF"
    by (simp_all add: fdt_get_def std_fds_def get_slot_def get_at_def)
  have slots: "get_slot std_fds j = None \<longleftrightarrow> 3 \<le> j" for j
    by (auto simp: get_slot_def get_at_def std_fds_def nth_Cons' split: option.splits)
  have least: "(LEAST j. j < 256 \<and> 3 \<le> j) = (3 :: nat)" by (rule Least_equality) auto
  obtain r s' where d: "dup_fd 1 True 0 one_process = (r, s')" by fastforce
  obtain r' s'' where d': "dup_fd 9 True 0 one_process = (r', s'')" by fastforce
  have "\<exists>j. j < 256 \<and> 3 \<le> (j :: nat)" by (rule exI [of _ 3]) simp
  then have "r = Inr 3" using dup_lowest [OF d] by (simp add: fds get slots least Let_def)
  moreover have "r' = Inl (FErrno EBADF)" using dup_lowest [OF d'] by (simp add: fds get)
  ultimately show ?thesis using d d' by simp
qed

section \<open>Sleeping\<close>

abbreviation clock_at :: "('w, 'f) st \<Rightarrow> nat \<Rightarrow> nat" where
  "clock_at s i \<equiv> o_mono (sh_out (sh s)) (o_ticks (sh_out (sh s)) + i)"

lemma sleep_eval:
  assumes "mem_timespec (g_mem (gs s)) at = Inr d" "ex_deadline (c_exec (cx s)) = Some until"
    and "sys_nanosleep at False clock s = (r, s')"
  shows "r = (if until \<le> clock_at s 0 then Inr 0 else Inl FBlock)" "ex_deadline (c_exec (cx s')) = Some until"
  using assms
  by (auto simp: sys_nanosleep_def deadline_def set_wake_def st_defs monad_simps Let_def split: if_splits)

text \<open>
  C26: a relative sleep lasts as long as was asked, and no longer than it must.  The first attempt
  fixes the end, from the clock it read; every attempt before that end waits, whatever happened between
  them, and the first attempt at or after it succeeds.
\<close>

theorem sleep_lasts:
  assumes "mem_timespec (g_mem (gs s)) at = Inr d" "ex_deadline (c_exec (cx s)) = None"
    and "clock_at s 0 + d < 9223372036854775808 * NANOS"
    and "sys_nanosleep at False clock s = (r, s1)"
  shows "r = (if clock_at s 0 + d \<le> clock_at s 1 then Inr 0 else Inl FBlock) \<and>
    (\<forall>s2 d2. mem_timespec (g_mem (gs s2)) at = Inr d2 \<and>
        ex_deadline (c_exec (cx s2)) = ex_deadline (c_exec (cx s1)) \<longrightarrow>
      fst (sys_nanosleep at False clock s2) = (if clock_at s 0 + d \<le> clock_at s2 0 then Inr 0 else Inl FBlock))"
proof -
  have first: "r = (if clock_at s 0 + d \<le> clock_at s 1 then Inr 0 else Inl FBlock)"
    "ex_deadline (c_exec (cx s1)) = Some (clock_at s 0 + d)"
    using assms
    by (auto simp: sys_nanosleep_def deadline_def set_wake_def instant_add_def st_defs monad_simps Let_def split: if_splits)
  have "fst (sys_nanosleep at False clock s2) = (if clock_at s 0 + d \<le> clock_at s2 0 then Inr 0 else Inl FBlock)"
    if "mem_timespec (g_mem (gs s2)) at = Inr d2" "ex_deadline (c_exec (cx s2)) = ex_deadline (c_exec (cx s1))" for s2 d2
    using sleep_eval(1) [OF that(1) that(2) [unfolded first(2)] surjective_pairing] by simp
  with first(1) show ?thesis by blast
qed

definition sleeper :: "(unit, unit) st" where
  "sleeper = one_process\<lparr>gs := one_guest\<lparr>g_mem := replicate 8 0 @ [5] @ replicate 55 0\<rparr>\<rparr>"

lemma le_nat_zeros [simp]: "le_nat (replicate n 0) = 0"
  by (induction n) simp_all

lemma sleep_lasts_witness:
  "fst (sys_nanosleep 0 False 0 sleeper) = Inl FBlock \<and> mem_timespec (g_mem (gs sleeper)) 0 = Inr 5"
proof -
  have m: "mem_timespec (g_mem (gs sleeper)) 0 = Inr 5"
    by (simp add: sleeper_def mem_timespec_def mem_u64_def mem_u32_def mem_slice_if u64_le_def u32_le_def checked_add_u32_def)
  have e: "ex_deadline (c_exec (cx sleeper)) = None" "o_mono (sh_out (sh sleeper)) n = n" "o_ticks (sh_out (sh sleeper)) = 1" for n
    by (simp_all add: sleeper_def one_process_def one_ctx_def exec_state_default_def one_shared_def shared_new_def still_world_def)
  obtain r s1 where s: "sys_nanosleep 0 False 0 sleeper = (r, s1)" by fastforce
  have "r = Inl FBlock" using sleep_lasts [OF m e(1) _ s, THEN conjunct1] by (simp add: e(2,3))
  then show ?thesis using s m by simp
qed

end
