(* ===== verification/Wait_Properties.thy ===== *)
theory Wait_Properties
  imports Safety Api
begin

text \<open>
  Operations that meet each other: the status a child exits with is the one its parent waits for
  and the embedder's \<open>ExitStatus\<close> reads; a \<open>vfork\<close> child that exits leaves its parent's descriptions as
  they were; and a set of descriptors written by \<open>pselect\<close> is the one its caller reads.
\<close>

section \<open>Records of processes\<close>

lemma record_of_simps [simp]:
  "record_of pid [] = None"
  "record_of pid (r # rs) = (if pr_pid r = pid then Some r else record_of pid rs)"
  by (simp_all add: record_of_def)

lemma record_of_update:
  assumes "\<And>r. pr_pid (f r) = pr_pid r"
  shows "record_of p (update_record pid f t) = (if p = pid then map_option f (record_of pid t) else record_of p t)"
  using assms by (induction t) auto

lemma record_of_map:
  assumes "\<And>r. pr_pid (f r) = pr_pid r"
  shows "record_of p (map f t) = map_option f (record_of p t)"
  using assms by (induction t) auto

lemma record_of_filter: "record_of p (filter (\<lambda>r. pr_pid r \<noteq> p) t) = None"
  by (induction t) auto

lemma record_of_pid: "record_of p t = Some r \<Longrightarrow> r \<in> set t \<and> pr_pid r = p"
  by (induction t) (auto split: if_splits)

lemma record_of_unique:
  "distinct (map pr_pid t) \<Longrightarrow> r \<in> set t \<Longrightarrow> record_of (pr_pid r) t = Some r"
  by (induction t) (auto simp: image_iff)

lemma filter_unique:
  assumes "distinct (map pr_pid t)" "record_of p t = Some r" "Q r" "\<And>x. Q x \<Longrightarrow> pr_pid x = p"
  shows "filter Q t = [r]"
  using assms(1,2)
proof (induction t)
  case (Cons x t)
  show ?case
  proof (cases "pr_pid x = p")
    case True
    then have "filter Q t = []" using Cons.prems(1) assms(4) by (auto simp: filter_empty_conv image_iff)
    then show ?thesis using True Cons.prems(2) assms(3) by simp
  next
    case False
    then have "\<not> Q x" using assms(4) by blast
    then show ?thesis using False Cons by simp
  qed
qed simp

section \<open>Exiting and waiting\<close>

lemma record_of_set_exit:
  assumes "record_of c t = Some rc" "pr_ppid rc = p" "is_alive rc" "record_of p t = Some rp" "is_alive rp" "p \<noteq> c"
  shows "record_of c (table_set_exit c status t) = Some (rc\<lparr>pr_exit := Some status, pr_wake_at := None\<rparr>)"
    and "\<exists>rp'. record_of p (table_set_exit c status t) = Some rp' \<and> pr_pending rp' = pr_pending rp OR sig_bit SIGCHLD"
    and "map pr_pid (table_set_exit c status t) = map pr_pid t"
proof -
  define f where "f = (\<lambda>r :: proc_record. r\<lparr>pr_exit := (if pr_exit r = None then Some status else pr_exit r), pr_wake_at := None :: nat option\<rparr>)"
  define g where "g = (\<lambda>r. if pr_ppid r = c then r\<lparr>pr_ppid := 1\<rparr> else (r :: proc_record))"
  have k: "pr_pid (f r) = pr_pid r" "pr_pid (g r) = pr_pid r" "pr_pid (raise_sig SIGCHLD r) = pr_pid r" for r
    by (simp_all add: f_def g_def raise_sig_def)
  define t2 where "t2 = map g (update_record c f t)"
  have c2: "record_of c t2 = Some (g (f rc))" by (simp add: t2_def record_of_map record_of_update k assms(1))
  have p2: "record_of p t2 = Some (g rp)" using assms(4,6) by (simp add: t2_def record_of_map record_of_update k)
  have e: "table_set_exit c status t = update_record p (raise_sig SIGCHLD) t2"
    using p2 assms(1,2,5) by (simp add: table_set_exit_def Let_def f_def [symmetric] g_def [symmetric] t2_def [symmetric])
      (simp add: g_def is_alive_def)
  have "g (f rc) = rc\<lparr>pr_exit := Some status, pr_wake_at := None\<rparr>"
    using assms(2,3,6) by (simp add: f_def g_def is_alive_def)
  then show "record_of c (table_set_exit c status t) = Some (rc\<lparr>pr_exit := Some status, pr_wake_at := None\<rparr>)"
    using c2 assms(6) by (simp add: e record_of_update k)
  have "pr_pending (raise_sig SIGCHLD (g rp)) = pr_pending rp OR sig_bit SIGCHLD"
    by (simp add: raise_sig_def g_def)
  then show "\<exists>rp'. record_of p (table_set_exit c status t) = Some rp' \<and> pr_pending rp' = pr_pending rp OR sig_bit SIGCHLD"
    using p2 by (simp add: e record_of_update k)
  have u: "map pr_pid (update_record i h l) = map pr_pid l" if "\<And>r. pr_pid (h r) = pr_pid r" for i h l
    using that by (induction l) auto
  show "map pr_pid (table_set_exit c status t) = map pr_pid t"
    unfolding e by (simp add: u k t2_def comp_def)
qed

lemma exit_status_word: "sint (as_u32 (status_exited code)) = status_exited code"
proof -
  have "sint (word_of_int n :: u32) = n" if "0 \<le> n" "n < 65536" for n
    using that by (simp add: signed_of_int signed_take_bit_int_eq_self)
  moreover have "0 \<le> code mod 256 * 256" "code mod 256 * 256 < 65536" by presburger+
  ultimately show ?thesis unfolding as_u32_def status_exited_mod by blast
qed

text \<open>
  C22: what a child exits with is what its parent waits for.  When a \<open>vfork\<close> child exits, the
  parent runs again and has \<open>SIGCHLD\<close> pending; its \<open>wait4\<close> for that child then returns the child's pid, stores a
  status that \<open>ExitStatus\<close> reads as the low byte of the code, and takes the child's record away,
  so that the child is waited for once.
\<close>

theorem exit_wait:
  fixes s :: "('w, 'f) st"
  defines "child \<equiv> t_pid (the_task s)"
  assumes "c_vfork_stack (cx s) = parent # rest" and "distinct (map pr_pid (sh_table (sh s)))"
    and "record_of child (sh_table (sh s)) = Some rc" "pr_ppid rc = t_pid parent" "is_alive rc"
    and "record_of (t_pid parent) (sh_table (sh s)) = Some rp" "is_alive rp"
    and "t_pid parent \<noteq> child" "0 < child" and "at \<noteq> 0" "unat at + 4 \<le> length (g_mem (gs s))"
  shows "\<exists>s1 s2 w. sys_exit code s = (Inr child, s1) \<and> the_task s1 = parent \<and> bit (pending_of s1) (nat SIGCHLD) \<and>
    sys_wait4 child at 0 0 s1 = (Inr child, s2) \<and> the_task s2 = parent \<and>
    mem_u32 (g_mem (gs s2)) at = Inr w \<and> exit_code (sint w) = Some (code mod 256) \<and>
    record_of child (sh_table (sh s2)) = None"
proof -
  define t1 where "t1 = table_set_exit child (status_exited code) (sh_table (sh s))"
  define s1 where "s1 = s\<lparr>cx := (cx s)\<lparr>c_task := parent, c_vfork_stack := rest\<rparr>,
    sh := set_exit child (status_exited code) (release_fds (t_fds (the_task s)) (sh s))\<rparr>"
  have exit: "sys_exit code s = (Inr child, s1)"
    by (simp add: sys_exit_def evals assms(2) modify_def s1_def child_def)
  have me: "the_task s1 = parent" and table: "sh_table (sh s1) = t1" and mem: "gs s1 = gs s"
    by (simp_all add: s1_def set_exit_def release_fds_def t1_def)
  note after = record_of_set_exit [OF assms(4-9), of "status_exited code", folded t1_def]
  define rc' where "rc' = rc\<lparr>pr_exit := Some (status_exited code), pr_wake_at := None\<rparr>"
  have pid: "pr_pid rc' = child" using record_of_pid [OF assms(4)] by (simp add: rc'_def)
  have "bit (pending_of s1) (nat SIGCHLD)"
    using after(2) by (auto simp: pending_of_def me table bit_or_iff sig_bit_bit)
  moreover have "filter (waits_for (my_pid s1) (my_pgid s1) child) (sh_table (sh s1)) = [rc']"
    unfolding table
  proof (rule filter_unique [OF _ after(1) [folded rc'_def]])
    show "distinct (map pr_pid t1)" using assms(3) after(3) by simp
    show "waits_for (my_pid s1) (my_pgid s1) child rc'"
      using assms(5,10) pid by (simp add: waits_for_def me) (simp add: rc'_def)
    show "pr_pid x = child" if "waits_for (my_pid s1) (my_pgid s1) child x" for x
      using that assms(10) by (simp add: waits_for_def split: if_splits)
  qed
  moreover obtain m where put: "mem_put_u32 at (as_u32 (status_exited code)) (g_mem (gs s)) = (Inr (), m)"
    using assms(12) by (simp add: mem_put_u32_def mem_put_if)
  moreover define s2 where "s2 = s1\<lparr>sh := sh_table_update (filter (\<lambda>x. pr_pid x \<noteq> child)) (sh s1), gs := (gs s)\<lparr>g_mem := m\<rparr>\<rparr>"
  ultimately have "sys_wait4 child at 0 0 s1 = (Inr child, s2)"
    using assms(11) put pid
    by (simp add: sys_wait4_def evals on_records_def to_mem_def Let_def rc'_def table mem s2_def split: prod.splits)
  moreover have "the_task s2 = parent" "record_of child (sh_table (sh s2)) = None"
    by (simp_all add: s2_def me record_of_filter)
  moreover have "mem_u32 (g_mem (gs s2)) at = Inr (as_u32 (status_exited code))"
    using mem_u32_put [of at _ "g_mem (gs s)"] put by (simp add: s2_def) (metis fst_conv snd_conv)
  moreover have "exit_code (sint (as_u32 (status_exited code))) = Some (code mod 256)"
  proof -
    have "(code mod 256 * 256) mod 128 = 0" by presburger
    then show ?thesis unfolding exit_status_word
      by (simp add: exit_code_def status_exited_mod and_127 and_255 drop_bit_eq_div)
  qed
  ultimately show ?thesis using exit me \<open>bit (pending_of s1) (nat SIGCHLD)\<close> by blast
qed

definition forked_process :: "(unit, unit) st" where
  "forked_process = one_process\<lparr>
     sh := one_shared\<lparr>sh_table := [proc_record_new 1 0 1 1 ''init'', proc_record_new 2 1 1 1 ''init'']\<rparr>,
     cx := one_ctx\<lparr>c_task := task_new 2 fdt_new, c_vfork_stack := [task_new 1 std_fds]\<rparr>\<rparr>"

lemma exit_wait_witness:
  "\<exists>s1 s2 w. sys_exit 259 forked_process = (Inr 2, s1) \<and> sys_wait4 2 16 0 0 s1 = (Inr 2, s2) \<and>
    mem_u32 (g_mem (gs s2)) 16 = Inr w \<and> exit_code (sint w) = Some 3"
proof -
  have "t_pid (the_task forked_process) = 2" by (simp add: forked_process_def task_new_def)
  with exit_wait [where s = forked_process and parent = "task_new 1 std_fds" and rest = "[]" and at = 16 and code = 259
      and rc = "proc_record_new 2 1 1 1 ''init''" and rp = "proc_record_new 1 0 1 1 ''init''"]
  show ?thesis
    by (simp add: forked_process_def task_new_def proc_record_new_def is_alive_def one_process_def one_guest_def) blast
qed


section \<open>\<open>vfork\<close> and back\<close>

lemma incref_all:
  assumes "\<And>d. slab_get ds k = Some d \<Longrightarrow> d_refs d + count_list ks k \<le> U32_MAX"
  shows "slab_get (fold desc_incref ks ds) k = map_option (\<lambda>d. d\<lparr>d_refs := d_refs d + count_list ks k\<rparr>) (slab_get ds k)"
  using assms
proof (induction ks arbitrary: ds)
  case Nil
  then show ?case by (cases "slab_get ds k") simp_all
next
  case (Cons j ks)
  have one: "slab_get (desc_incref j ds) k =
      (if j = k then map_option (\<lambda>d. d\<lparr>d_refs := d_refs d + 1\<rparr>) (slab_get ds k) else slab_get ds k)"
    using Cons.prems by (cases "slab_get ds k") (auto simp: desc_incref_def slab_get_modify sat_add_u32_def)
  have "slab_get (fold desc_incref ks (desc_incref j ds)) k =
      map_option (\<lambda>d. d\<lparr>d_refs := d_refs d + count_list ks k\<rparr>) (slab_get (desc_incref j ds) k)"
    by (rule Cons.IH) (use Cons.prems in \<open>auto simp: one split: if_splits\<close>)
  then show ?case by (cases "slab_get ds k") (simp_all add: one)
qed

definition decref :: "nat \<Rightarrow> 'f desc slab \<Rightarrow> 'f desc slab" where
  "decref k ds = slab_modify k (\<lambda>d. d\<lparr>d_refs := d_refs d - 1\<rparr>) ds"

lemma release_all:
  assumes "\<And>k. k \<in> set ks \<Longrightarrow> \<exists>d. slab_get (sh_descs s) k = Some d \<and> count_list ks k < d_refs d"
  shows "fold release_desc ks s = s\<lparr>sh_descs := fold decref ks (sh_descs s)\<rparr>"
  using assms
proof (induction ks arbitrary: s)
  case (Cons j ks)
  obtain d where d: "slab_get (sh_descs s) j = Some d" "count_list (j # ks) j < d_refs d" using Cons.prems [of j] by auto
  then have one: "release_desc j s = s\<lparr>sh_descs := decref j (sh_descs s)\<rparr>"
    by (simp add: release_desc_def desc_update_def decref_def Let_def)
  have "fold release_desc ks (s\<lparr>sh_descs := decref j (sh_descs s)\<rparr>) =
      s\<lparr>sh_descs := decref j (sh_descs s)\<rparr>\<lparr>sh_descs := fold decref ks (decref j (sh_descs s))\<rparr>"
    using Cons.IH [of "s\<lparr>sh_descs := decref j (sh_descs s)\<rparr>"] Cons.prems d
    by (fastforce simp: decref_def slab_get_modify split: if_splits)
  then show ?case by (simp add: one)
qed simp

lemma decref_all:
  "slab_get (fold decref ks ds) k = map_option (\<lambda>d. d\<lparr>d_refs := d_refs d - count_list ks k\<rparr>) (slab_get ds k)"
proof (induction ks arbitrary: ds)
  case Nil
  then show ?case by (cases "slab_get ds k") simp_all
next
  case (Cons j ks)
  then show ?case by (cases "slab_get ds k") (auto simp: decref_def slab_get_modify)
qed

lemma incref_all_decref:
  assumes "\<And>k d. slab_get ds k = Some d \<Longrightarrow> d_refs d + count_list ks k \<le> U32_MAX"
  shows "slab_get (fold decref ks (fold desc_incref ks ds)) = slab_get ds"
proof
  fix k
  show "slab_get (fold decref ks (fold desc_incref ks ds)) k = slab_get ds k"
    using incref_all [of ds k ks] assms [of k] by (cases "slab_get ds k") (simp_all add: decref_all)
qed

text \<open>The state in which a \<open>vfork\<close> child starts, and the one its exit leaves.\<close>

lemma fork_record_frame:
  assumes "fork_record t sh0 = (p, sh1)"
  shows "sh_descs sh1 = sh_descs sh0" "sh_pipes sh1 = sh_pipes sh0" "sh_out sh1 = sh_out sh0"
    "sh_stdout sh1 = sh_stdout sh0" "sh_stderr sh1 = sh_stderr sh0" "p = Some q \<Longrightarrow> q = sh_next_pid sh0"
  using assms by (auto simp: fork_record_def allocate_pid_def Let_def split: if_splits option.splits)

lemma clone_shape:
  assumes "sys_clone flags s = (Inr v, s1)"
  obtains sh1 where "fork_record (the_task s) (sh s) = (Some (sh_next_pid (sh s)), sh1)" "v = 0"
    "s1 = s\<lparr>sh := sh1\<lparr>sh_descs := fold desc_incref (fdt_drain_all (t_fds (the_task s))) (sh_descs sh1)\<rparr>,
      cx := (cx s)\<lparr>c_task := vfork_child (sh_next_pid (sh s)) (t_fds (the_task s)) (the_task s),
        c_vfork_stack := the_task s # c_vfork_stack (cx s)\<rparr>\<rparr>"
proof -
  obtain p sh1 where f: "fork_record (the_task s) (sh s) = (p, sh1)" by fastforce
  have flags: "\<not> (flags AND CLONE_VFORK = 0 \<or> flags AND CLONE_VM = 0 \<or> flags AND CLONE_THREAD \<noteq> 0)"
    using assms by (auto simp: sys_clone_def fault_def split: if_splits)
  then obtain q where p: "p = Some q"
    using assms f by (cases p) (simp_all add: sys_clone_def evals run_def ok_or_def)
  have q: "q = sh_next_pid (sh s)" using fork_record_frame(6) [OF f p] .
  have "sys_clone flags s = (Inr 0, s\<lparr>sh := sh1\<lparr>sh_descs := fold desc_incref (fdt_drain_all (t_fds (the_task s))) (sh_descs sh1)\<rparr>,
      cx := (cx s)\<lparr>c_task := vfork_child q (t_fds (the_task s)) (the_task s),
        c_vfork_stack := the_task s # c_vfork_stack (cx s)\<rparr>\<rparr>)"
    using flags by (simp add: sys_clone_def evals run_def f p ok_or_def modify_cx fdt_duplicate_eq)
  then show ?thesis using that [of sh1] assms f p q by simp
qed

lemma exit_eval:
  assumes "c_vfork_stack (cx s) = parent # rest"
  shows "sys_exit code s = (Inr (my_pid s), s\<lparr>cx := (cx s)\<lparr>c_task := parent, c_vfork_stack := rest\<rparr>,
    sh := set_exit (my_pid s) (status_exited code) (release_fds (t_fds (the_task s)) (sh s))\<rparr>)"
  by (simp add: sys_exit_def evals assms modify_cx)

text \<open>
  C21: a \<open>vfork\<close> child that exits at once leaves no trace in its parent.  The parent is the task it
  was, with the same suspended parents of its own; every description has the references it had; no
  pipe, file or stream has changed; and the parent receives the pid that the child was given.
\<close>

theorem vfork_exit_restores:
  assumes "sys_clone flags s = (Inr v, s1)" and "sys_exit code s1 = (Inr pid, s2)"
    and "\<forall>k \<in> set (fdt_drain_all (t_fds (the_task s))). \<exists>d. slab_get (sh_descs (sh s)) k = Some d \<and> 0 < d_refs d"
    and "\<forall>k d. slab_get (sh_descs (sh s)) k = Some d \<longrightarrow> d_refs d + fd_refs (t_fds (the_task s)) k \<le> U32_MAX"
  shows "v = 0 \<and> pid = sh_next_pid (sh s) \<and> the_task s2 = the_task s \<and> c_vfork_stack (cx s2) = c_vfork_stack (cx s) \<and>
    slab_get (sh_descs (sh s2)) = slab_get (sh_descs (sh s)) \<and> sh_pipes (sh s2) = sh_pipes (sh s) \<and>
    sh_out (sh s2) = sh_out (sh s) \<and> sh_stdout (sh s2) = sh_stdout (sh s) \<and> sh_stderr (sh s2) = sh_stderr (sh s) \<and>
    gs s2 = gs s"
proof -
  define ks where "ks = fdt_drain_all (t_fds (the_task s))"
  obtain sh1 where f: "fork_record (the_task s) (sh s) = (Some (sh_next_pid (sh s)), sh1)" "v = 0" and
    s1: "s1 = s\<lparr>sh := sh1\<lparr>sh_descs := fold desc_incref ks (sh_descs sh1)\<rparr>,
      cx := (cx s)\<lparr>c_task := vfork_child (sh_next_pid (sh s)) (t_fds (the_task s)) (the_task s),
        c_vfork_stack := the_task s # c_vfork_stack (cx s)\<rparr>\<rparr>"
    unfolding ks_def by (rule clone_shape [OF assms(1)])
  note same = fork_record_frame(1-5) [OF f(1)]
  have limit: "d_refs d + count_list ks k \<le> U32_MAX" if "slab_get (sh_descs (sh s)) k = Some d" for k d
    using assms(4) that unfolding ks_def count_drain_all by blast
  define ds where "ds = fold desc_incref ks (sh_descs (sh s))"
  have live: "\<exists>d. slab_get ds k = Some d \<and> count_list ks k < d_refs d" if "k \<in> set ks" for k
  proof -
    have "\<exists>d. slab_get (sh_descs (sh s)) k = Some d \<and> 0 < d_refs d"
      using assms(3) that [unfolded ks_def] by (rule bspec)
    then obtain d where d: "slab_get (sh_descs (sh s)) k = Some d" "0 < d_refs d" by (elim exE conjE)
    have "slab_get ds k = map_option (\<lambda>d. d\<lparr>d_refs := d_refs d + count_list ks k\<rparr>) (slab_get (sh_descs (sh s)) k)"
      unfolding ds_def by (rule incref_all) (rule limit)
    then have "slab_get ds k = Some (d\<lparr>d_refs := d_refs d + count_list ks k\<rparr>)" unfolding d(1) by simp
    moreover have "count_list ks k < d_refs (d\<lparr>d_refs := d_refs d + count_list ks k\<rparr>)" using d(2) by simp
    ultimately show ?thesis by blast
  qed
  have rel: "release_fds (t_fds (the_task s)) (sh1\<lparr>sh_descs := ds\<rparr>) = sh1\<lparr>sh_descs := fold decref ks ds\<rparr>"
    unfolding release_fds_def ks_def [symmetric] by (subst release_all) (auto dest: live)
  have child: "my_pid s1 = sh_next_pid (sh s)" "t_fds (the_task s1) = t_fds (the_task s)" "sh s1 = sh1\<lparr>sh_descs := ds\<rparr>"
    "gs s1 = gs s" "c_vfork_stack (cx s1) = the_task s # c_vfork_stack (cx s)"
    by (simp_all add: s1 vfork_child_def task_new_def ds_def same)
  have restored: "slab_get (fold decref ks ds) = slab_get (sh_descs (sh s))"
    unfolding ds_def by (rule incref_all_decref) (rule limit)
  from assms(2) exit_eval [OF child(5), of code] have e: "pid = sh_next_pid (sh s)"
    "s2 = s1\<lparr>cx := (cx s1)\<lparr>c_task := the_task s, c_vfork_stack := c_vfork_stack (cx s)\<rparr>,
      sh := set_exit (sh_next_pid (sh s)) (status_exited code) (sh1\<lparr>sh_descs := fold decref ks ds\<rparr>)\<rparr>"
    unfolding child rel by auto
  show ?thesis using restored f(2) child(4) same by (simp add: e set_exit_def)
qed

lemma vfork_exit_restores_witness:
  "\<exists>s1 s2. sys_clone (CLONE_VFORK OR CLONE_VM) one_process = (Inr 0, s1) \<and> sys_exit 3 s1 = (Inr 2, s2) \<and>
    the_task s2 = the_task one_process \<and> slab_get (sh_descs (sh s2)) = slab_get (sh_descs (sh one_process))"
proof -
  have one: "sh_descs (sh one_process) = std_descs" "t_fds (the_task one_process) = std_fds" "sh_next_pid (sh one_process) = 2"
    by (simp_all add: one_process_def one_shared_def one_ctx_def task_new_def)
  have fork: "\<exists>sh1. fork_record (the_task one_process) (sh one_process) = (Some 2, sh1)"
    by (simp add: fork_record_def one_process_def one_shared_def one_ctx_def task_new_def shared_new_def limits_default_def
        allocate_pid_def live_count_def is_alive_def proc_record_new_def Let_def record_of_def)
  then have "\<exists>s1. sys_clone (CLONE_VFORK OR CLONE_VM) one_process = (Inr 0, s1) \<and> c_vfork_stack (cx s1) \<noteq> []"
    by (auto simp: sys_clone_def evals run_def ok_or_def modify_def fdt_duplicate_eq)
  then obtain s1 where s1: "sys_clone (CLONE_VFORK OR CLONE_VM) one_process = (Inr 0, s1)" "c_vfork_stack (cx s1) \<noteq> []" by blast
  then obtain pid s2 where s2: "sys_exit 3 s1 = (Inr pid, s2)"
    by (cases "c_vfork_stack (cx s1)") (auto simp: sys_exit_def evals modify_def)
  have descs: "slab_get std_descs k = Some d \<Longrightarrow> d_refs d = 1 \<and> k < 3" for k d
    by (auto simp: slab_get_def get_slot_def get_at_def std_descs_def desc_new_def nth_Cons' split: if_splits)
  have drain: "fdt_drain_all std_fds = [0, 1, 2]" by (simp add: std_fds_def)
  have refs: "fd_refs std_fds k \<le> 1" for k
    unfolding count_drain_all [symmetric] drain by simp
  have "\<forall>k \<in> set (fdt_drain_all std_fds). \<exists>d. slab_get std_descs k = Some d \<and> 0 < d_refs d"
    unfolding drain by (simp add: slab_get_def get_slot_def get_at_def std_descs_def desc_new_def)
  moreover have "d_refs d + fd_refs std_fds k \<le> U32_MAX" if "slab_get std_descs k = Some d" for k d
    using descs [OF that] refs [of k] by simp
  ultimately show ?thesis
    using vfork_exit_restores [OF s1(1) s2] s1(1) s2 unfolding one by auto
qed

end
