(* ===== verification/Schedule_Properties.thy ===== *)
theory Schedule_Properties
  imports Session_Properties
begin

text \<open>
  Properties of the scheduler: a session past its wall clock ends at the next step, whatever its
  guests do; a pass over the processes ends if each of its steps does; a \<open>longjmp\<close> takes a guest
  back to the stack its \<open>setjmp\<close> saved.
\<close>

section \<open>Ending everything\<close>

lemma length_finish_process:
  "i < length (k_procs K) \<Longrightarrow> length (k_procs (finish_process i status K)) = length (k_procs K) - 1"
  by (auto simp: finish_process_def get_at_def remove_at_def Let_def split: prod.splits)

lemma finish_process_exit:
  assumes "i < length (k_procs K)"
  shows "k_exit K = Some v \<Longrightarrow> k_exit (finish_process i status K) = Some v"
    and "k_exit K = None \<Longrightarrow> k_exit (finish_process i status K) = None \<or> k_exit (finish_process i status K) = Some status"
    and "length (k_procs K) = 1 \<Longrightarrow> k_exit (finish_process i status K) \<noteq> None"
  using assms by (auto simp: finish_process_def get_at_def remove_at_def Let_def split: prod.splits)

lemma kill_procs_empty:
  "k_procs (kill_procs (length (k_procs K)) status K) = []"
proof (induction "length (k_procs K)" arbitrary: K)
  case 0
  then show ?case by simp
next
  case (Suc n)
  then have "length (k_procs (finish_process 0 status K)) = n"
    using length_finish_process [of 0 K status] by (cases "k_procs K") simp_all
  then show ?case using Suc(1) [of "finish_process 0 status K"] by (simp flip: Suc(2))
qed

lemma kill_procs_exit:
  "n \<le> length (k_procs K) \<Longrightarrow>
   k_exit (kill_procs n status K) = (case k_exit K of Some v \<Rightarrow> Some v | None \<Rightarrow> k_exit (kill_procs n status K)) \<and>
   (k_exit K = None \<longrightarrow> k_exit (kill_procs n status K) \<in> {None, Some status})"
proof (induction n arbitrary: K)
  case 0
  then show ?case by (simp split: option.splits)
next
  case (Suc n)
  then have pos: "0 < length (k_procs K)" by linarith
  then have "n \<le> length (k_procs (finish_process 0 status K))"
    using length_finish_process [OF pos, of status] Suc.prems by linarith
  note ih = Suc.IH [OF this]
  note f = finish_process_exit [OF pos]
  show ?case
  proof (cases "k_exit K")
    case (Some v)
    then show ?thesis using ih f(1) by simp
  next
    case None
    then show ?thesis using ih f(2) [OF None, of status] by (auto split: option.splits)
  qed
qed

lemma kill_all_ends:
  "k_procs (kill_all status K) = []"
  "k_exit (kill_all status K) = Some (case k_exit K of Some v \<Rightarrow> v | None \<Rightarrow> status)"
proof -
  show "k_procs (kill_all status K) = []" by (simp add: kill_all_def Let_def kill_procs_empty)
  show "k_exit (kill_all status K) = Some (case k_exit K of Some v \<Rightarrow> v | None \<Rightarrow> status)"
    using kill_procs_exit [of "length (k_procs K)" K status]
    by (auto simp: kill_all_def Let_def or_exit_def split: option.splits)
qed

text \<open>What the check of the wall clock looks at; starting the spawned processes leaves it alone.\<close>

definition clock_face :: "('w, 'f) shared \<Rightarrow> limits \<times> nat \<times> (nat \<Rightarrow> nat) \<times> nat" where
  "clock_face s = (sh_limits s, sh_started s, o_mono (sh_out s), o_ticks (sh_out s))"

lemma clock_face_simps [simp]:
  "clock_face (set_exit pid status s) = clock_face s"
  "clock_face (release_memory n s) = clock_face s"
  "clock_face (s\<lparr>sh_spawn := xs\<rparr>) = clock_face s"
  "clock_face (s\<lparr>sh_descs := ds\<rparr>) = clock_face s"
  by (simp_all add: clock_face_def set_exit_def release_memory_def)

lemma clock_face_close_kind [simp]: "clock_face (close_kind k s) = clock_face s"
  by (simp add: clock_face_def close_kind_def close_file_def collect_pipe_def pipe_update_def
      split: desc_kind.splits prod.splits option.splits)

lemma clock_face_release_desc [simp]: "clock_face (release_desc k s) = clock_face s"
  by (simp add: release_desc_def desc_update_def Let_def split: option.split)

lemma clock_face_release [simp]: "clock_face (release_fds t s) = clock_face s"
proof -
  have "clock_face (fold release_desc ks s) = clock_face s" for ks
    by (induction ks arbitrary: s) simp_all
  then show ?thesis by (simp add: release_fds_def)
qed

lemma clock_face_charge: "charge_memory n s = (b, s') \<Longrightarrow> clock_face s' = clock_face s"
  by (auto simp: charge_memory_def clock_face_def Let_def split: if_splits)

lemma start_guest_keeps:
  assumes "start_guest c g k K = (r, K')"
  shows "clock_face (k_shared K') = clock_face (k_shared K) \<and> k_exit K' = k_exit K \<and> (\<exists>ps. k_procs K' = k_procs K @ ps)"
proof (cases "charge_memory (sat_add_u64 (length (g_mem g)) (sat_mul_u64 ASYNCIFY_PAGES PAGE)) (k_shared K)")
  case (Pair b s)
  then show ?thesis using assms clock_face_charge [OF Pair]
    by (auto simp: start_guest_def push_proc_def abandon_def Let_def split: bool.splits prod.splits option.splits)
qed

lemma start_keeps:
  assumes "start sp K = (r, K')"
  shows "clock_face (k_shared K') = clock_face (k_shared K) \<and> k_exit K' = k_exit K \<and> (\<exists>ps. k_procs K' = k_procs K @ ps)"
  using assms
  by (auto simp: start_def push_proc_def abandon_def Let_def dest: start_guest_keeps
      split: option.splits program_kind.splits sum.splits prod.splits)

lemma start_pending_keeps:
  "clock_face (k_shared (start_pending sps K)) = clock_face (k_shared K) \<and> k_exit (start_pending sps K) = k_exit K \<and>
   (\<exists>ps. k_procs (start_pending sps K) = k_procs K @ ps)"
proof (induction sps arbitrary: K)
  case (Cons sp sps)
  obtain r K1 where st: "start sp K = (r, K1)" by fastforce
  note keeps = start_keeps [OF st]
  show ?case
  proof (cases r)
    case None
    then show ?thesis using keeps Cons.IH [of K1] st by auto
  next
    case (Some e)
    then show ?thesis using keeps st
        Cons.IH [of "K1\<lparr>k_shared := set_exit (t_pid (sp_task sp)) (status_exited 126) (k_shared K1)\<rparr>"] by auto
  qed
qed simp

lemma start_spawned_keeps:
  "clock_face (k_shared (start_spawned K)) = clock_face (k_shared K)"
  "k_exit (start_spawned K) = k_exit K"
  "\<exists>ps. k_procs (start_spawned K) = k_procs K @ ps"
  using start_pending_keeps [of "sh_spawn (k_shared K)" "K\<lparr>k_shared := (k_shared K)\<lparr>sh_spawn := []\<rparr>\<rparr>"]
  by (simp_all add: start_spawned_def)

text \<open>Whether the wall clock of a session has run out at a time: an end past the last instant never comes.\<close>

definition out_of_clock :: "('w, 'f) shared \<Rightarrow> nat \<Rightarrow> bool" where
  "out_of_clock s t \<longleftrightarrow>
     (\<exists>d. lim_wall_clock (sh_limits s) = Some d \<and> sh_started s + d < 9223372036854775808 * NANOS \<and> sh_started s + d \<le> t)"

lemma past_deadline_exact:
  assumes "past_deadline K = (late, K')"
  shows "late \<longleftrightarrow> out_of_clock (k_shared K) (o_mono (sh_out (k_shared K)) (o_ticks (sh_out (k_shared K))))"
    and "k_procs K' = k_procs K" "k_exit K' = k_exit K"
  using assms
  by (auto simp: past_deadline_def wall_clock_deadline_def out_of_clock_def instant_add_def read_clock_def Let_def
      split: option.splits if_splits)

lemma out_of_clock_cong:
  "clock_face s = clock_face s' \<Longrightarrow> out_of_clock s = out_of_clock s' \<and> o_mono (sh_out s) = o_mono (sh_out s') \<and>
     o_ticks (sh_out s) = o_ticks (sh_out s')"
  by (simp add: clock_face_def out_of_clock_def fun_eq_iff)

text \<open>A pass that begins with a guest that has to be entered and never gives control back.\<close>

lemma endless_pass:
  assumes "k_procs K = p # ps" "pc_body p = GuestBody g k" "pc_resume p = Fresh \<or> pc_resume p = Rewind" "\<not> pc_parked p"
    and "\<And>k st. eng k st = None"
  shows "run_pass eng 0 progressed K = None"
  using assms
  by (auto simp: run_pass.simps [of eng 0] step_process_def get_at_def step_guest_def enter_guest_def Let_def)

text \<open>
  C11: the wall clock of a session is kept.  If, when the session is stepped, the time since it was started has
  reached its limit, the step ends it, for any engine and any budget, even if no guest would ever return: no
  process is left, the session is done, and it reports the status of its first process if that had
  ended, and that of a process killed by \<open>SIGKILL\<close> otherwise.  A moment earlier, or without a limit, the
  guests are entered: a step whose first guest never returns does not end.
\<close>

theorem deadline_ends_session:
  assumes "ss_finished ss = None" and s: "s = k_shared (ss_kernel ss)"
    and t: "t = o_mono (sh_out s) (o_ticks (sh_out s))"
  shows "((\<exists>d. lim_wall_clock (sh_limits s) = Some d \<and> sh_started s + d < 9223372036854775808 * NANOS \<and> sh_started s + d \<le> t) \<longrightarrow>
     (\<exists>o' ss'. step_session eng b ss = Some (Inr (Done o'), ss') \<and> k_procs (ss_kernel ss') = [] \<and>
        ss_finished ss' = Some (out_status o') \<and>
        out_status o' = (case k_exit (ss_kernel ss) of Some v \<Rightarrow> v | None \<Rightarrow> status_signaled SIGKILL) \<and>
        (k_exit (ss_kernel ss) = None \<longrightarrow> exit_signal (out_status o') = Some SIGKILL \<and> shell_code (out_status o') = 137))) \<and>
   ((\<forall>d. lim_wall_clock (sh_limits s) = Some d \<longrightarrow> t < sh_started s + d) \<and> (\<forall>k st. eng k st = None) \<and>
     k_procs (ss_kernel ss) = p # ps \<and> pc_body p = GuestBody g k \<and> (pc_resume p = Fresh \<or> pc_resume p = Rewind) \<longrightarrow>
     step_session eng b ss = None)"
proof -
  define K where "K = start_spawned (unpark_all (ss_kernel ss))"
  obtain late K1 where late: "past_deadline K = (late, K1)" by fastforce
  have "clock_face (k_shared K) = clock_face s"
    using start_spawned_keeps(1) [of "unpark_all (ss_kernel ss)"] by (simp add: K_def s unpark_all_def)
  then have exact: "late \<longleftrightarrow> out_of_clock s t"
    using past_deadline_exact(1) [OF late] out_of_clock_cong [of "k_shared K" s] by (simp add: t)
  have exit: "k_exit K1 = k_exit (ss_kernel ss)"
    using past_deadline_exact(3) [OF late] start_spawned_keeps(2) [of "unpark_all (ss_kernel ss)"]
    by (simp add: K_def unpark_all_def)
  define st where "st = (case k_exit (ss_kernel ss) of Some v \<Rightarrow> v | None \<Rightarrow> status_signaled SIGKILL)"
  have ends: "\<exists>o' ss'. step_session eng b ss = Some (Inr (Done o'), ss') \<and> out_status o' = st \<and>
      ss_finished ss' = Some st \<and> k_procs (ss_kernel ss') = []" if "out_of_clock s t"
  proof -
    have "kernel_run eng b (ss_kernel ss) = Some (Finished st, kill_all (status_signaled SIGKILL) K1)"
      using that exact exit late
      by (simp add: kernel_run_def run_loop.simps K_def [symmetric] or_exit_def kill_all_ends st_def)
    then show ?thesis using assms(1) by (simp add: step_session_def collect_def Let_def kill_all_ends(1))
  qed
  have sig: "exit_signal (status_signaled SIGKILL) = Some SIGKILL" "shell_code (status_signaled SIGKILL) = 137"
    by (simp_all add: exit_signal_def shell_code_def status_signaled_def sat_add_i32_def Let_def)
  have endless: "step_session eng b ss = None"
    if "\<forall>d. lim_wall_clock (sh_limits s) = Some d \<longrightarrow> t < sh_started s + d" "\<forall>k st. eng k st = None"
      "k_procs (ss_kernel ss) = p # ps" "pc_body p = GuestBody g k" "pc_resume p = Fresh \<or> pc_resume p = Rewind"
  proof -
    note h = that
    have "\<not> late" using that(1) exact by (force simp: out_of_clock_def)
    moreover obtain qs where "k_procs K1 = p\<lparr>pc_parked := False\<rparr> # qs"
      using past_deadline_exact(2) [OF late] start_spawned_keeps(3) [of "unpark_all (ss_kernel ss)"] h(3)
      by (auto simp: K_def unpark_all_def)
    then have "run_pass eng 0 False K1 = None"
      by (rule endless_pass) (use h in auto)
    ultimately have "kernel_run eng b (ss_kernel ss) = None"
      using late by (simp add: kernel_run_def run_loop.simps K_def [symmetric])
    then show ?thesis using assms(1) by (simp add: step_session_def)
  qed
  show ?thesis using ends sig endless unfolding out_of_clock_def st_def by (intro conjI impI) (force split: option.splits)+
qed

section \<open>A pass ends\<close>

lemma length_put [simp]:
  "length (k_procs (put_guest i p k s K)) = length (k_procs K)"
  "length (k_procs (put_host i p h s K)) = length (k_procs K)"
  "length (k_procs (park i K)) = length (k_procs K)"
  by (auto simp: put_guest_def put_host_def park_def split: option.splits)

lemma length_start:
  "start sp K = (r, K') \<Longrightarrow> length (k_procs K') \<le> Suc (length (k_procs K))"
  by (auto simp: start_def start_guest_def push_proc_def abandon_def Let_def
      split: option.splits program_kind.splits sum.splits prod.splits bool.splits)

lemma length_reinsert:
  "length (case rev ps of [] \<Rightarrow> []
     | new # others \<Rightarrow> (let qs = rev others; j = min i (length qs) in take j qs @ [new] @ drop j qs)) = length ps"
  by (cases ps rule: rev_cases) (simp_all add: Let_def)

lemma length_replace:
  assumes "i < length (k_procs K)" "replace_instance i K = (r, K')"
  shows "length (k_procs K') \<le> length (k_procs K)"
proof (cases "c_exec_request (pc_ctx (k_procs K ! i))")
  case None
  then show ?thesis using assms by (auto simp: replace_instance_def get_at_def)
next
  case (Some sp)
  define K1 where "K1 = K\<lparr>k_procs := remove_at i (k_procs K), k_shared := release_memory
    (sat_add_u64 (pc_charged (k_procs K ! i)) (ex_grown (c_exec (pc_ctx (k_procs K ! i))))) (k_shared K)\<rparr>"
  obtain e K2 where start: "start sp K1 = (e, K2)" by fastforce
  have "length (k_procs K1) = length (k_procs K) - 1" using assms(1) by (simp add: K1_def remove_at_def)
  then have K2: "length (k_procs K2) \<le> length (k_procs K)" using length_start [OF start] assms(1) by linarith
  show ?thesis
    using assms Some start K2 by (cases e) (auto simp: replace_instance_def get_at_def K1_def [symmetric] length_reinsert)
    
qed

lemma length_after_return:
  assumes "after_return i K = (r, K')"
  shows "length (k_procs K') \<le> length (k_procs K)"
proof (cases "get_at (k_procs K) i")
  case None
  then show ?thesis using assms by (simp add: after_return_def)
next
  case (Some p)
  then have i: "i < length (k_procs K)" by (simp add: get_at_Some_iff)
  have "length (k_procs K') \<le> length (k_procs L)" if "replace_instance i L = (r, K')" "length (k_procs L) = length (k_procs K)" for L
    using length_replace [OF _ that(1)] i that(2) by simp
  then show ?thesis using assms Some
    by (fastforce simp: after_return_def Let_def split: option.splits suspension.splits body.splits prod.splits)
qed

lemma length_step_process:
  assumes "step_process eng i K = Some (r, K')"
  shows "length (k_procs K') \<le> length (k_procs K)"
proof -
  have enter: "length (k_procs K') \<le> length (k_procs K)"
    if "enter_guest eng i p k s K = Some (r, K')" for p k s
    using that by (auto simp: enter_guest_def Let_def split: option.splits prod.splits run_exit.splits dest!: length_after_return)
  have flush: "length (k_procs K') \<le> length (k_procs K)" if "flush_output i p h s K = (r, K')" for p h s
    using that by (auto simp: flush_output_def split: phase.splits prod.splits bool.splits if_splits)
  have cmd: "length (k_procs K') \<le> length (k_procs K)" if "run_command i p h buf s K = (r, K')" for p h buf s
    using that by (auto simp: run_command_def Let_def split: sum.splits prod.splits if_splits dest: flush)
  show ?thesis
    using assms
    by (auto simp: step_process_def step_host_def step_guest_def Let_def get_at_Some_iff
        split: option.splits if_splits body.splits phase.splits resume.splits prod.splits outcome.splits bool.splits
        dest: flush cmd enter dest!: length_replace [rotated])
qed


text \<open>No command of the host reads its standard input, nor would one that a process may become.\<close>

definition no_reader :: "('w, 'k) proc \<Rightarrow> bool" where
  "no_reader p \<longleftrightarrow> (case pc_body p of HostBody h \<Rightarrow> \<not> hp_reads_stdin h | GuestBody _ _ \<Rightarrow> True)"

definition no_readers :: "('w, 'f, 'k) kernel \<Rightarrow> bool" where
  "no_readers K \<longleftrightarrow> (\<forall>p \<in> set (k_procs K). no_reader p) \<and>
     (\<forall>e \<in> set (k_programs K). case pe_kind e of HostProgram c \<Rightarrow> \<forall>argv. \<not> hc_reads_stdin c argv | GuestProgram _ \<Rightarrow> True)"

lemma no_readers_update:
  "no_readers K \<Longrightarrow> no_reader q \<Longrightarrow> no_readers (K\<lparr>k_shared := s, k_procs := (k_procs K)[i := q]\<rparr>)"
  by (auto simp: no_readers_def dest!: subsetD [OF set_update_subset_insert])

lemma no_readers_put [simp]:
  "no_readers K \<Longrightarrow> no_readers (put_guest i p k s K)"
  "no_readers K \<Longrightarrow> \<not> hp_reads_stdin h \<Longrightarrow> no_readers (put_host i p h s K)"
  by (auto simp: put_guest_def put_host_def no_reader_def intro!: no_readers_update)

lemma no_readers_fewer:
  "no_readers K \<Longrightarrow> set (k_procs K') \<subseteq> set (k_procs K) \<Longrightarrow> k_programs K' = k_programs K \<Longrightarrow> no_readers K'"
  by (auto simp: no_readers_def)

lemma remove_at_subset: "set (remove_at i xs) \<subseteq> set xs"
  by (auto simp: remove_at_def dest: in_set_takeD in_set_dropD)

lemma no_readers_park: "no_readers K \<Longrightarrow> no_readers (park i K)"
  by (auto simp: park_def get_at_Some_iff no_readers_def no_reader_def split: option.splits
      dest!: subsetD [OF set_update_subset_insert])

lemma no_readers_finish: "no_readers K \<Longrightarrow> no_readers (finish_process i status K)"
proof (erule no_readers_fewer)
  show "set (k_procs (finish_process i status K)) \<subseteq> set (k_procs K)"
    using remove_at_subset [of i "k_procs K"] by (auto simp: finish_process_def Let_def split: option.splits prod.splits)
  show "k_programs (finish_process i status K) = k_programs K"
    by (simp add: finish_process_def Let_def split: option.splits prod.splits)
qed

lemma no_readers_at: "no_readers K \<Longrightarrow> get_at (k_procs K) i = Some p \<Longrightarrow> no_reader p"
  by (metis get_at_Some_iff no_readers_def nth_mem)

lemma no_readers_push: "no_readers K \<Longrightarrow> no_reader p \<Longrightarrow> no_readers (push_proc p K)"
  by (auto simp: push_proc_def no_readers_def)

lemma no_readers_shared: "no_readers K \<Longrightarrow> no_readers (K\<lparr>k_shared := s\<rparr>)"
  by (auto simp: no_readers_def)

lemma no_readers_start:
  assumes "no_readers K" "start sp K = (r, K')"
  shows "no_readers K'"
proof -
  have "\<not> hc_reads_stdin c argv" if "get_at (k_programs K) i = Some e" "pe_kind e = HostProgram c" for i e c argv
  proof -
    have "e \<in> set (k_programs K)" using that(1) by (metis get_at_Some_iff nth_mem)
    then have "case pe_kind e of HostProgram c \<Rightarrow> \<forall>argv. \<not> hc_reads_stdin c argv | GuestProgram _ \<Rightarrow> True"
      using assms(1) unfolding no_readers_def by blast
    then show ?thesis using that(2) by simp
  qed
  then show ?thesis using assms
    by (auto simp: start_def start_guest_def abandon_def no_reader_def Let_def
        split: option.splits program_kind.splits sum.splits prod.splits bool.splits
        intro!: no_readers_push no_readers_shared)
qed

definition reinsert :: "nat \<Rightarrow> 'a list \<Rightarrow> 'a list" where
  "reinsert i ps = (case rev ps of [] \<Rightarrow> []
     | new # others \<Rightarrow> (let qs = rev others; j = min i (length qs) in take j qs @ [new] @ drop j qs))"

lemma set_reinsert: "set (reinsert i ps) \<subseteq> set ps"
  by (cases ps rule: rev_cases) (auto simp: reinsert_def Let_def dest: in_set_takeD in_set_dropD)

lemma no_readers_replace:
  assumes "no_readers K" "replace_instance i K = (r, K')"
  shows "no_readers K'"
proof (cases "get_at (k_procs K) i")
  case None
  then show ?thesis using assms by (simp add: replace_instance_def)
next
  case p: (Some p)
  show ?thesis
  proof (cases "c_exec_request (pc_ctx p)")
    case None
    then show ?thesis using assms p by (simp add: replace_instance_def)
  next
    case (Some sp)
    define K1 where "K1 = K\<lparr>k_procs := remove_at i (k_procs K),
      k_shared := release_memory (sat_add_u64 (pc_charged p) (ex_grown (c_exec (pc_ctx p)))) (k_shared K)\<rparr>"
    obtain e K2 where start: "start sp K1 = (e, K2)" by fastforce
    have "no_readers K1"
      by (rule no_readers_fewer [OF assms(1)]) (simp_all add: K1_def remove_at_subset)
    then have K2: "no_readers K2" by (rule no_readers_start [OF _ start])
    show ?thesis
    proof (cases e)
      case None
      then have "K' = K2\<lparr>k_procs := reinsert i (k_procs K2)\<rparr>"
        using assms(2) p Some start by (simp add: replace_instance_def K1_def [symmetric] reinsert_def)
      then show ?thesis by (intro no_readers_fewer [OF K2]) (simp_all add: set_reinsert)
    next
      case (Some _)
      then show ?thesis
        using assms(2) p \<open>c_exec_request _ = _\<close> start K2
        by (auto simp: replace_instance_def K1_def [symmetric] intro: no_readers_shared)
    qed
  qed
qed

lemma no_readers_after_return:
  assumes "no_readers K" "after_return i K = (r, K')"
  shows "no_readers K'"
proof (cases "get_at (k_procs K) i")
  case None
  then show ?thesis using assms by (simp add: after_return_def)
next
  case p: (Some p)
  have upd: "no_readers (K\<lparr>k_procs := (k_procs K)[i := p\<lparr>pc_ctx := c, pc_body := GuestBody g k, pc_resume := q\<rparr>]\<rparr>)" for c g k q
    using no_readers_update [OF assms(1), where s = "k_shared K" and i = i
      and q = "p\<lparr>pc_ctx := c, pc_body := GuestBody g k, pc_resume := q\<rparr>"] by (simp add: no_reader_def)
  have upd2: "no_readers (K\<lparr>k_procs := (k_procs K)[i := p\<lparr>pc_ctx := c, pc_body := GuestBody g k\<rparr>]\<rparr>)" for c g k
    using upd [of "pc_resume p"] by simp
  show ?thesis
  proof (cases "ex_suspension (c_exec (pc_ctx p))")
    case None
    then show ?thesis using assms p by (simp add: after_return_def)
  next
    case (Some why)
    then show ?thesis
      using assms(2) p upd upd2 no_readers_replace [OF upd2] assms(1)
      by (cases "pc_body p"; cases why) (auto simp: after_return_def Let_def split: option.splits prod.splits)
  qed
qed

lemma no_readers_step:
  assumes "no_readers K" "step_process eng i K = Some (r, K')"
  shows "no_readers K'"
proof -
  have enter: "no_readers K'" if "enter_guest eng i p k s K = Some (r, K')" for p k s
    using that assms(1)
    by (auto simp: enter_guest_def Let_def split: option.splits prod.splits run_exit.splits dest!: no_readers_after_return [rotated])
  have flush: "no_readers K'" if "flush_output i p h s K = (r, K')" "\<not> hp_reads_stdin h" for p h s
    using that assms(1) by (auto simp: flush_output_def split: phase.splits prod.splits bool.splits if_splits)
  have cmd: "no_readers K'" if "run_command i p h buf s K = (r, K')" "\<not> hp_reads_stdin h" for p h buf s
    using that assms(1) by (auto simp: run_command_def Let_def split: sum.splits prod.splits if_splits dest!: flush)
  have host: "\<not> hp_reads_stdin h" if "get_at (k_procs K) i = Some p" "pc_body p = HostBody h" for p h
    using no_readers_at [OF assms(1) that(1)] that(2) by (simp add: no_reader_def)
  show ?thesis
    using assms
    by (auto simp: step_process_def step_host_def step_guest_def Let_def
        split: option.splits if_splits body.splits phase.splits resume.splits prod.splits outcome.splits bool.splits
        dest: host dest!: flush [OF _ host] cmd [OF _ host] enter no_readers_replace [rotated])
qed


lemma step_process_total:
  assumes "\<And>k s. eng k s \<noteq> None" "no_readers K"
  shows "step_process eng i K \<noteq> None"
proof -
  have enter: "enter_guest eng i p k s K \<noteq> None" for p k s
    using assms(1) [of k s] by (auto simp: enter_guest_def Let_def split: option.splits prod.splits run_exit.splits)
  show ?thesis
    using enter no_readers_at [OF assms(2), where i = i]
    by (auto simp: step_process_def step_host_def step_guest_def Let_def no_reader_def
        split: option.splits body.splits phase.splits resume.splits prod.splits outcome.splits)
qed

text \<open>
  C13: a pass over the processes ends.  If the engine returns from every guest it enters, and no
  command of the host reads its standard input, the pass ends whatever the processes do: each of its
  steps moves on to the next process or takes one away, \<open>execve\<close> never adds one, and a new process
  waits for the next pass.
\<close>

theorem run_pass_ends:
  assumes "\<And>k s. eng k s \<noteq> None" and "no_readers K"
  shows "\<exists>r K'. run_pass eng i progressed K = Some (r, K') \<and> no_readers K'"
  using assms(2)
proof (induction "length (k_procs K) - i" arbitrary: K i progressed rule: less_induct)
  case less
  show ?case
  proof (cases "length (k_procs K) \<le> i")
    case True
    then show ?thesis using less.prems by (simp add: run_pass.simps)
  next
    case False
    obtain st K1 where step: "step_process eng i K = Some (st, K1)"
      using step_process_total [where eng = eng and i = i, OF assms(1) less.prems] by auto
    define K2 where "K2 = (if waits_outside K K1 then park i K1 else K1)"
    have K2: "no_readers K2" "length (k_procs K2) \<le> length (k_procs K)"
      using no_readers_step [OF less.prems step] length_step_process [OF step] by (auto simp: K2_def no_readers_park)
    have eq: "run_pass eng i progressed K =
        (case st of
           Ran \<Rightarrow> run_pass eng (i + 1) True K2
         | Stuck \<Rightarrow> run_pass eng (i + 1) progressed K2
         | Replaced \<Rightarrow> run_pass eng (i + 1) True K2
         | Ended status \<Rightarrow>
             (case k_exit (finish_process i status K2) of
                Some v \<Rightarrow> Some (Inl v, finish_process i status K2)
              | None \<Rightarrow> run_pass eng i True (finish_process i status K2)))"
      unfolding run_pass.simps [of eng i progressed K] K2_def using False step
      by (cases st) (simp_all add: Let_def split del: if_split)
    have further: "\<exists>r K'. run_pass eng (i + 1) q K2 = Some (r, K') \<and> no_readers K'" for q
      using K2 False by (intro less.hyps) auto
    have fewer: "\<exists>r K'. run_pass eng i True (finish_process i status K2) = Some (r, K') \<and> no_readers K'" for status
    proof (cases "i < length (k_procs K2)")
      case True
      then have "length (k_procs (finish_process i status K2)) - i < length (k_procs K) - i"
        using length_finish_process [OF True, of status] K2(2) False by linarith
      then show ?thesis by (rule less.hyps) (rule no_readers_finish [OF K2(1)])
    next
      case less': False
      then have "finish_process i status K2 = K2" by (simp add: finish_process_def get_at_def)
      then show ?thesis using less' K2(1) by (simp add: run_pass.simps)
    qed
    show ?thesis
      unfolding eq using further fewer no_readers_finish [OF K2(1)]
      by (auto split: proc_step.splits option.splits)
  qed
qed

lemma demo_no_readers:
  assumes "spawn_session demo_sandbox still_world (command ''greet'' demo_sandbox) = Inr ss"
  shows "no_readers (ss_kernel ss)"
  using assms
  by (auto simp: spawn_session_def find_program_def command_def demo_sandbox_def kernel_new_def
    spawn_first_def allocate_pid_def demo_stdio shared_new_def start_def get_at_def push_proc_def Let_def
    no_readers_def no_reader_def greet_def
    simp del: One_nat_def open_stdio.simps split: prod.splits)

lemma run_pass_ends_witness:
  "\<exists>ss r K'. spawn_session demo_sandbox still_world (command ''greet'' demo_sandbox) = Inr ss \<and>
    run_pass demo_engine 0 False (ss_kernel ss) = Some (r, K')"
proof -
  obtain ss where ss: "spawn_session demo_sandbox still_world (command ''greet'' demo_sandbox) = Inr ss"
    using demo_spawn(1) by blast
  have "demo_engine k s \<noteq> None" for k s by (simp add: demo_engine_def)
  from run_pass_ends [where eng = demo_engine, OF this demo_no_readers [OF ss]] ss show ?thesis by blast
qed

text \<open>The same session, with no time at all.\<close>

definition out_of_time :: "(unit, unit, unit) session \<Rightarrow> (unit, unit, unit) session" where
  "out_of_time ss = ss\<lparr>ss_kernel := (ss_kernel ss)\<lparr>k_shared := (k_shared (ss_kernel ss))
     \<lparr>sh_limits := limits_default\<lparr>lim_wall_clock := Some 0\<rparr>\<rparr>\<rparr>\<rparr>"

lemma demo_late:
  assumes "spawn_session demo_sandbox still_world (command ''greet'' demo_sandbox) = Inr ss"
  shows "ss_finished (out_of_time ss) = None" "k_exit (ss_kernel (out_of_time ss)) = None"
    "sh_started (k_shared (ss_kernel (out_of_time ss))) = 0"
    "o_mono (sh_out (k_shared (ss_kernel (out_of_time ss)))) (o_ticks (sh_out (k_shared (ss_kernel (out_of_time ss))))) = 1"
  using assms
  by (auto simp: spawn_session_def find_program_def command_def demo_sandbox_def kernel_new_def
    spawn_first_def allocate_pid_def demo_stdio shared_new_def start_def get_at_def push_proc_def Let_def
    out_of_time_def still_world_def
    simp del: One_nat_def open_stdio.simps split: prod.splits)

lemma deadline_ends_session_witness:
  "\<exists>ss o' ss'. spawn_session demo_sandbox still_world (command ''greet'' demo_sandbox) = Inr ss \<and>
    step_session demo_engine budget_unlimited (out_of_time ss) = Some (Inr (Done o'), ss') \<and>
    exit_signal (out_status o') = Some 9 \<and> k_procs (ss_kernel ss') = []"
proof -
  obtain ss where ss: "spawn_session demo_sandbox still_world (command ''greet'' demo_sandbox) = Inr ss"
    using demo_spawn(1) by blast
  note d = deadline_ends_session [OF demo_late(1) [OF ss] refl refl, of demo_engine budget_unlimited]
  have "lim_wall_clock (sh_limits (k_shared (ss_kernel (out_of_time ss)))) = Some 0" by (simp add: out_of_time_def)
  with d [THEN conjunct1] demo_late(2-4) [OF ss] ss show ?thesis by auto
qed

section \<open>\<open>setjmp\<close> and \<open>longjmp\<close>\<close>

lemma read_asyncify_stack_range:
  "unat data + length (read_asyncify_stack m data) \<le> max (unat data) (length m)"
  "read_asyncify_stack m data = take (length (read_asyncify_stack m data)) (drop (unat data) m)"
  by (auto simp: read_asyncify_stack_def get_range_def Let_def split: option.splits if_splits)

text \<open>
  C12: a \<open>longjmp\<close> takes the guest back to its \<open>setjmp\<close>.  When the guest unwound for a \<open>setjmp\<close>, its
  saved stack is kept with the jump buffer; when it later unwinds for a \<open>longjmp\<close> to that buffer, whatever
  it did in between, the same bytes are where they were, no other byte of its memory changes, and the rewind that
  follows makes the call return the value passed to \<open>longjmp\<close>, with the stack pointer the \<open>setjmp\<close> had.
\<close>

theorem longjmp_returns:
  assumes "get_at (k_procs K) i = Some p" "pc_body p = GuestBody g k"
    and "ex_suspension (c_exec (pc_ctx p)) = Some (Setjmp env sp)"
    and "after_return i K = (st1, K1)" "get_at (k_procs K1) i = Some p1"
    and "get_at (k_procs K2) i = Some q" "pc_body q = GuestBody g2 k2"
    and "ex_suspension (c_exec (pc_ctx q)) = Some (Longjmp env v)"
    and "ex_jmp_bufs (c_exec (pc_ctx q)) env = ex_jmp_bufs (c_exec (pc_ctx p1)) env"
    and "ex_asyncify_data (c_exec (pc_ctx q)) = ex_asyncify_data (c_exec (pc_ctx p))"
    and "length (g_mem g) \<le> length (g_mem g2)" "unat (ex_asyncify_data (c_exec (pc_ctx p))) \<le> length (g_mem g)"
  shows "\<exists>K3 r g3 data saved. after_return i K2 = (Ran, K3) \<and> get_at (k_procs K3) i = Some r \<and>
    pc_resume r = Rewind \<and> pc_body r = GuestBody g3 k2 \<and>
    data = unat (ex_asyncify_data (c_exec (pc_ctx p))) \<and>
    saved = read_asyncify_stack (g_mem g) (ex_asyncify_data (c_exec (pc_ctx p))) \<and>
    g_mem g3 = take data (g_mem g2) @ saved @ drop (data + length saved) (g_mem g2) \<and>
    (\<forall>s. fst (finish_rewind (rewind_with None \<lparr>sh = s, cx = pc_ctx r, gs = g3\<rparr>)) = v \<and>
      (sp \<noteq> 0 \<longrightarrow> g_sp (gs (snd (finish_rewind (rewind_with None \<lparr>sh = s, cx = pc_ctx r, gs = g3\<rparr>)))) = sp))"
proof -
  define data saved where "data = ex_asyncify_data (c_exec (pc_ctx p))" and "saved = read_asyncify_stack (g_mem g) data"
  have i: "i < length (k_procs K)" "i < length (k_procs K2)" using assms(1,6) by (simp_all add: get_at_Some_iff)
  have buf: "ex_jmp_bufs (c_exec (pc_ctx q)) env = Some (saved, sp)"
  proof -
    have "\<exists>b. K1 = K\<lparr>k_procs := (k_procs K)[i := p\<lparr>pc_ctx := (pc_ctx p)\<lparr>c_exec := (c_exec (pc_ctx p))
        \<lparr>ex_suspension := None, ex_jmp_bufs := (ex_jmp_bufs (c_exec (pc_ctx p)))(env \<mapsto> (saved, sp)),
         ex_resume_value := 0, ex_resume_sp := sp\<rparr>\<rparr>, pc_body := b, pc_resume := Rewind\<rparr>]\<rparr>"
      using assms(1-4) by (auto simp: after_return_def Let_def saved_def data_def)
    then show ?thesis using assms(5,9) i(1) by (auto simp: get_at_Some_iff)
  qed
  have fits: "unat data + length saved \<le> length (g_mem g2)"
    using read_asyncify_stack_range(1) [of data "g_mem g"] assms(11,12) by (simp add: saved_def data_def)
  define m where "m = overwrite (unat data) saved (g_mem g2)"
  have w: "write_asyncify_stack (g_mem g2) data saved = Some m"
    using fits by (simp add: write_asyncify_stack_def get_range_def Let_def m_def)
  define e where "e = (c_exec (pc_ctx q))\<lparr>ex_suspension := None, ex_resume_value := v, ex_resume_sp := sp\<rparr>"
  define r where "r = q\<lparr>pc_ctx := (pc_ctx q)\<lparr>c_exec := e\<rparr>, pc_body := GuestBody (g2\<lparr>g_mode := AsyNormal, g_mem := m\<rparr>) k2,
    pc_resume := Rewind\<rparr>"
  have "after_return i K2 = (Ran, K2\<lparr>k_procs := (k_procs K2)[i := r]\<rparr>)"
    using assms(6-8,10) buf w by (simp add: after_return_def Let_def data_def r_def e_def)
  moreover have "get_at ((k_procs K2)[i := r]) i = Some r" using i(2) by (simp add: get_at_Some_iff)
  ultimately show ?thesis
    by (intro exI [of _ "K2\<lparr>k_procs := (k_procs K2)[i := r]\<rparr>"] exI [of _ r] exI [of _ "g2\<lparr>g_mode := AsyNormal, g_mem := m\<rparr>"]
        exI [of _ "unat data"] exI [of _ saved])
      (simp add: r_def e_def m_def overwrite_def finish_rewind_def rewind_with_def Let_def data_def saved_def)
qed


definition jumping :: "suspension \<Rightarrow> (u32 \<Rightarrow> (bytes \<times> u32) option) \<Rightarrow> (unit, unit, unit) kernel" where
  "jumping why bufs =
     \<lparr>k_shared = one_shared, k_programs = [],
      k_procs = [\<lparr>pc_ctx = one_ctx\<lparr>c_exec := exec_state_default\<lparr>ex_suspension := Some why, ex_jmp_bufs := bufs\<rparr>\<rparr>,
        pc_body = GuestBody one_guest (), pc_resume = Fresh, pc_charged = 0, pc_parked = False\<rparr>],
      k_exit = None\<rparr>"

lemma longjmp_returns_witness:
  "\<exists>K1 p1 K3 r. after_return 0 (jumping (Setjmp 16 48) (\<lambda>_. None)) = (Ran, K1) \<and> get_at (k_procs K1) 0 = Some p1 \<and>
    after_return 0 (jumping (Longjmp 16 7) (ex_jmp_bufs (c_exec (pc_ctx p1)))) = (Ran, K3) \<and>
    get_at (k_procs K3) 0 = Some r \<and> pc_resume r = Rewind"
proof -
  let ?K = "jumping (Setjmp 16 48) (\<lambda>_. None)"
  have "\<exists>K1 p1. after_return 0 ?K = (Ran, K1) \<and> get_at (k_procs K1) 0 = Some p1"
    by (simp add: after_return_def jumping_def Let_def)
  then obtain K1 p1 where K1: "after_return 0 ?K = (Ran, K1)" "get_at (k_procs K1) 0 = Some p1" by blast
  let ?K2 = "jumping (Longjmp 16 7) (ex_jmp_bufs (c_exec (pc_ctx p1)))"
  have p: "get_at (k_procs ?K) 0 = Some (k_procs ?K ! 0)" "get_at (k_procs ?K2) 0 = Some (k_procs ?K2 ! 0)"
    by (simp_all add: jumping_def)
  have mem: "unat (ex_asyncify_data exec_state_default) \<le> length (g_mem one_guest)"
    by (simp add: exec_state_default_def one_guest_def)
  from longjmp_returns [OF p(1) _ _ K1 p(2), of one_guest "()" 16 48 one_guest "()" 7] mem
  show ?thesis using K1 by (auto simp: jumping_def)
qed

end
