(* ===== verification/Host_Vfs.thy ===== *)
theory Host_Vfs
  imports Paths
begin

text \<open>
  A directory of the host as a filesystem (\<open>vfs/host.rs\<close>), on Unix.  What the code calls of
  \<open>std::fs\<close> and \<open>std::io\<close> is the record \<open>host_fs\<close> of functions on the world; a path of the host is a
  string, and an open \<open>fs::File\<close> a handle.
\<close>

section \<open>Errors of the host\<close>

datatype io_kind =
    NotFound_Kind | PermissionDenied | AlreadyExists | InvalidInput | InvalidData | Unsupported | WouldBlock_Kind
  | BrokenPipe | IsADirectory | NotADirectory | DirectoryNotEmpty | ReadOnlyFilesystem | StorageFull | FileTooLarge
  | TooManyLinks | InvalidFilename | Interrupted | OtherKind

record io_error =
  ie_kind :: io_kind
  ie_raw :: "int option"

text \<open>The portable kind first, and the raw number on Linux only, whose numbers are the guest's.\<close>

definition from_io :: "bool \<Rightarrow> io_error \<Rightarrow> errno" where
  "from_io linux e =
     (case ie_kind e of
        NotFound_Kind \<Rightarrow> ENOENT
      | PermissionDenied \<Rightarrow> EACCES
      | AlreadyExists \<Rightarrow> EEXIST
      | InvalidInput \<Rightarrow> EINVAL
      | InvalidData \<Rightarrow> EINVAL
      | Unsupported \<Rightarrow> ENOSYS
      | WouldBlock_Kind \<Rightarrow> EAGAIN
      | BrokenPipe \<Rightarrow> EPIPE
      | IsADirectory \<Rightarrow> EISDIR
      | NotADirectory \<Rightarrow> ENOTDIR
      | DirectoryNotEmpty \<Rightarrow> ENOTEMPTY
      | ReadOnlyFilesystem \<Rightarrow> EROFS
      | StorageFull \<Rightarrow> ENOSPC
      | FileTooLarge \<Rightarrow> EFBIG
      | TooManyLinks \<Rightarrow> EMLINK
      | InvalidFilename \<Rightarrow> ENAMETOOLONG
      | Interrupted \<Rightarrow> EINTR
      | OtherKind \<Rightarrow>
          if linux then (case ie_raw e of Some n \<Rightarrow> if 0 < n then Errno n else EIO | None \<Rightarrow> EIO) else EIO)"

section \<open>The host\<close>

record host_meta =
  hm_dir :: bool
  hm_symlink :: bool
  hm_len :: u64
  hm_mode :: u32
  hm_ino :: u64
  hm_modified :: "nat option"

record host_dirent =
  hd_name :: string
  hd_type :: "(bool \<times> bool) option"
  hd_meta :: "host_meta option"

record ('w, 'f) host_fs =
  hf_linux :: bool
  hf_open :: "string \<Rightarrow> open_options \<Rightarrow> 'w \<Rightarrow> (io_error + 'f) \<times> 'w"
  hf_metadata :: "string \<Rightarrow> 'w \<Rightarrow> (io_error + host_meta) \<times> 'w"
  hf_symlink_metadata :: "string \<Rightarrow> 'w \<Rightarrow> (io_error + host_meta) \<times> 'w"
  hf_read_dir :: "string \<Rightarrow> 'w \<Rightarrow> (io_error + (io_error + host_dirent) list) \<times> 'w"
  hf_create_dir :: "string \<Rightarrow> 'w \<Rightarrow> (io_error + unit) \<times> 'w"
  hf_remove_file :: "string \<Rightarrow> 'w \<Rightarrow> (io_error + unit) \<times> 'w"
  hf_remove_dir :: "string \<Rightarrow> 'w \<Rightarrow> (io_error + unit) \<times> 'w"
  hf_rename :: "string \<Rightarrow> string \<Rightarrow> 'w \<Rightarrow> (io_error + unit) \<times> 'w"
  hf_symlink :: "string \<Rightarrow> string \<Rightarrow> 'w \<Rightarrow> (io_error + unit) \<times> 'w"
  hf_read_link :: "string \<Rightarrow> 'w \<Rightarrow> (io_error + string) \<times> 'w"
  hf_set_permissions :: "string \<Rightarrow> u32 \<Rightarrow> 'w \<Rightarrow> (io_error + unit) \<times> 'w"
  hf_read :: "bytes \<Rightarrow> 'f \<Rightarrow> 'w \<Rightarrow> (io_error + nat) \<times> bytes \<times> 'f \<times> 'w"
  hf_write :: "bytes \<Rightarrow> 'f \<Rightarrow> 'w \<Rightarrow> (io_error + nat) \<times> 'f \<times> 'w"
  hf_seek :: "seek_from \<Rightarrow> 'f \<Rightarrow> 'w \<Rightarrow> (io_error + u64) \<times> 'f \<times> 'w"
  hf_file_metadata :: "'f \<Rightarrow> 'w \<Rightarrow> (io_error + host_meta) \<times> 'w"
  hf_set_len :: "u64 \<Rightarrow> 'f \<Rightarrow> 'w \<Rightarrow> (io_error + unit) \<times> 'f \<times> 'w"
  hf_flush :: "'f \<Rightarrow> 'w \<Rightarrow> (io_error + unit) \<times> 'f \<times> 'w"

text \<open>\<open>map_err(|e| Errno::from_io(&e))\<close>.\<close>

definition io :: "('w, 'f) host_fs \<Rightarrow> io_error + 'a \<Rightarrow> 'a vfs_result" where
  "io fs r = (case r of Inl e \<Rightarrow> Inl (from_io (hf_linux fs) e) | Inr a \<Rightarrow> Inr a)"

section \<open>Paths of the host\<close>

text \<open>\<open>PathBuf::push\<close> of a name without a separator.\<close>

definition path_push :: "string \<Rightarrow> string \<Rightarrow> string" where
  "path_push out c = (if out = [] \<or> last out = CHR ''/'' then out @ c else out @ CHR ''/'' # c)"

definition plain_name :: "string \<Rightarrow> bool" where
  "plain_name c \<longleftrightarrow> \<not> (c = ''.'' \<or> c = ''..'' \<or> CHR 0x00 \<in> set c)"

fun push_all :: "string \<Rightarrow> string list \<Rightarrow> string vfs_result" where
  "push_all out [] = Inr out"
| "push_all out (c # cs) = (if plain_name c then push_all (path_push out c) cs else Inl EINVAL)"

definition host_resolve :: "string \<Rightarrow> string \<Rightarrow> string vfs_result" where
  "host_resolve root path = push_all root (filter (\<lambda>c. c \<noteq> []) (split_on (CHR ''/'') path))"

definition host_new :: "('w, 'f) host_fs \<Rightarrow> string \<Rightarrow> 'w \<Rightarrow> string vfs_result \<times> 'w" where
  "host_new fs root w =
     (case hf_metadata fs root w of
        (Inl e, w1) \<Rightarrow> (Inl (from_io (hf_linux fs) e), w1)
      | (Inr m, w1) \<Rightarrow> (if \<not> hm_dir m then Inl ENOTDIR else Inr root, w1))"

section \<open>Metadata\<close>

definition type_of_bits :: "bool \<times> bool \<Rightarrow> file_type" where
  "type_of_bits t = (case t of (is_dir, is_link) \<Rightarrow> if is_dir then Dir else if is_link then Symlink else File)"

definition stat_of :: "host_meta \<Rightarrow> stat" where
  "stat_of m =
     \<lparr>st_type = type_of_bits (hm_dir m, hm_symlink m), st_size = hm_len m, st_mode = hm_mode m AND 4095,
      st_ino = hm_ino m,
      st_mtime = (case hm_modified m of Some d \<Rightarrow> (as_i64 (int (d div 1000000000)), of_nat (d mod 1000000000)) | None \<Rightarrow> (0, 0)),
      st_nlink = 1\<rparr>"

definition dir_entry_of :: "host_dirent \<Rightarrow> dir_entry" where
  "dir_entry_of d =
     \<lparr>de_name = hd_name d, de_type = map_option type_of_bits (hd_type d),
      de_ino = (case hd_meta d of Some m \<Rightarrow> hm_ino m | None \<Rightarrow> 0)\<rparr>"

text \<open>The first entry that cannot be read fails the listing.\<close>

fun collect_entries :: "('w, 'f) host_fs \<Rightarrow> (io_error + host_dirent) list \<Rightarrow> dir_entry list vfs_result" where
  "collect_entries fs [] = Inr []"
| "collect_entries fs (Inl e # es) = Inl (from_io (hf_linux fs) e)"
| "collect_entries fs (Inr d # es) =
     (case collect_entries fs es of Inl e \<Rightarrow> Inl e | Inr ds \<Rightarrow> Inr (dir_entry_of d # ds))"

section \<open>The filesystem\<close>

text \<open>An operation on a resolved path.\<close>

definition at_path ::
  "string \<Rightarrow> string \<Rightarrow> (string \<Rightarrow> 'w \<Rightarrow> 'a vfs_result \<times> 'w) \<Rightarrow> 'w \<Rightarrow> 'a vfs_result \<times> 'w" where
  "at_path root path f w = (case host_resolve root path of Inl e \<Rightarrow> (Inl e, w) | Inr full \<Rightarrow> f full w)"

definition std_options :: "open_options \<Rightarrow> open_options" where
  "std_options o' =
     o'\<lparr>oo_truncate := oo_truncate o' \<and> oo_write o', oo_create := oo_create o' \<and> \<not> oo_create_new o'\<rparr>"

definition host_open :: "('w, 'f) host_fs \<Rightarrow> string \<Rightarrow> string \<Rightarrow> open_options \<Rightarrow> 'w \<Rightarrow> 'f vfs_result \<times> 'w" where
  "host_open fs root path o' =
     at_path root path (\<lambda>full w. let (r, w1) = hf_open fs full (std_options o') w in (io fs r, w1))"

definition host_stat :: "('w, 'f) host_fs \<Rightarrow> string \<Rightarrow> string \<Rightarrow> bool \<Rightarrow> 'w \<Rightarrow> stat vfs_result \<times> 'w" where
  "host_stat fs root path follow =
     at_path root path (\<lambda>full w.
       let (r, w1) = (if follow then hf_metadata fs full w else hf_symlink_metadata fs full w)
       in (case io fs r of Inl e \<Rightarrow> Inl e | Inr m \<Rightarrow> Inr (stat_of m), w1))"

definition host_readdir :: "('w, 'f) host_fs \<Rightarrow> string \<Rightarrow> string \<Rightarrow> 'w \<Rightarrow> dir_entry list vfs_result \<times> 'w" where
  "host_readdir fs root path =
     at_path root path (\<lambda>full w.
       let (r, w1) = hf_read_dir fs full w
       in (case io fs r of Inl e \<Rightarrow> Inl e | Inr es \<Rightarrow> collect_entries fs es, w1))"

text \<open>The operations whose result is the host's.\<close>

definition host_op ::
  "('w, 'f) host_fs \<Rightarrow> string \<Rightarrow> string \<Rightarrow> (string \<Rightarrow> 'w \<Rightarrow> (io_error + 'a) \<times> 'w) \<Rightarrow> 'w \<Rightarrow> 'a vfs_result \<times> 'w" where
  "host_op fs root path f = at_path root path (\<lambda>full w. let (r, w1) = f full w in (io fs r, w1))"

definition host_mkdir :: "('w, 'f) host_fs \<Rightarrow> string \<Rightarrow> string \<Rightarrow> u32 \<Rightarrow> 'w \<Rightarrow> unit vfs_result \<times> 'w" where
  "host_mkdir fs root path md = host_op fs root path (hf_create_dir fs)"

definition host_unlink :: "('w, 'f) host_fs \<Rightarrow> string \<Rightarrow> string \<Rightarrow> 'w \<Rightarrow> unit vfs_result \<times> 'w" where
  "host_unlink fs root path = host_op fs root path (hf_remove_file fs)"

definition host_rmdir :: "('w, 'f) host_fs \<Rightarrow> string \<Rightarrow> string \<Rightarrow> 'w \<Rightarrow> unit vfs_result \<times> 'w" where
  "host_rmdir fs root path = host_op fs root path (hf_remove_dir fs)"

definition host_rename :: "('w, 'f) host_fs \<Rightarrow> string \<Rightarrow> string \<Rightarrow> string \<Rightarrow> 'w \<Rightarrow> unit vfs_result \<times> 'w" where
  "host_rename fs root from to w =
     (case host_resolve root from of
        Inl e \<Rightarrow> (Inl e, w)
      | Inr a \<Rightarrow> host_op fs root to (hf_rename fs a) w)"

definition host_symlink :: "('w, 'f) host_fs \<Rightarrow> string \<Rightarrow> string \<Rightarrow> string \<Rightarrow> 'w \<Rightarrow> unit vfs_result \<times> 'w" where
  "host_symlink fs root target link = host_op fs root link (hf_symlink fs target)"

definition host_readlink :: "('w, 'f) host_fs \<Rightarrow> string \<Rightarrow> string \<Rightarrow> 'w \<Rightarrow> string vfs_result \<times> 'w" where
  "host_readlink fs root path = host_op fs root path (hf_read_link fs)"

definition host_set_mode :: "('w, 'f) host_fs \<Rightarrow> string \<Rightarrow> string \<Rightarrow> u32 \<Rightarrow> 'w \<Rightarrow> unit vfs_result \<times> 'w" where
  "host_set_mode fs root path md = host_op fs root path (\<lambda>full. hf_set_permissions fs full md)"

section \<open>Open files\<close>

definition host_read :: "('w, 'f) host_fs \<Rightarrow> bytes \<Rightarrow> 'f \<Rightarrow> 'w \<Rightarrow> nat vfs_result \<times> bytes \<times> 'f \<times> 'w" where
  "host_read fs buf f w = (let (r, b, f1, w1) = hf_read fs buf f w in (io fs r, b, f1, w1))"

definition host_write :: "('w, 'f) host_fs \<Rightarrow> bytes \<Rightarrow> 'f \<Rightarrow> 'w \<Rightarrow> nat vfs_result \<times> 'f \<times> 'w" where
  "host_write fs data f w = (let (r, f1, w1) = hf_write fs data f w in (io fs r, f1, w1))"

definition host_seek :: "('w, 'f) host_fs \<Rightarrow> seek_from \<Rightarrow> 'f \<Rightarrow> 'w \<Rightarrow> u64 vfs_result \<times> 'f \<times> 'w" where
  "host_seek fs from f w = (let (r, f1, w1) = hf_seek fs from f w in (io fs r, f1, w1))"

definition host_file_stat :: "('w, 'f) host_fs \<Rightarrow> 'f \<Rightarrow> 'w \<Rightarrow> stat vfs_result \<times> 'w" where
  "host_file_stat fs f w =
     (let (r, w1) = hf_file_metadata fs f w
      in (case io fs r of Inl e \<Rightarrow> Inl e | Inr m \<Rightarrow> Inr (stat_of m), w1))"

definition host_set_len :: "('w, 'f) host_fs \<Rightarrow> u64 \<Rightarrow> 'f \<Rightarrow> 'w \<Rightarrow> unit vfs_result \<times> 'f \<times> 'w" where
  "host_set_len fs len f w = (let (r, f1, w1) = hf_set_len fs len f w in (io fs r, f1, w1))"

definition host_close :: "('w, 'f) host_fs \<Rightarrow> 'f \<Rightarrow> 'w \<Rightarrow> unit vfs_result \<times> 'f \<times> 'w" where
  "host_close fs f w = (let (r, f1, w1) = hf_flush fs f w in (io fs r, f1, w1))"

definition host_file_ops :: "('w, 'f) host_fs \<Rightarrow> ('w, 'f) file_ops" where
  "host_file_ops fs =
     \<lparr>fo_read = host_read fs, fo_write = host_write fs, fo_seek = host_seek fs, fo_stat = host_file_stat fs,
      fo_set_len = host_set_len fs, fo_close = host_close fs\<rparr>"

definition host_vfs :: "('w, 'f) host_fs \<Rightarrow> string \<Rightarrow> ('w, 'f) vfs" where
  "host_vfs fs root =
     (vfs_defaults (host_file_ops fs) (host_open fs root) (host_stat fs root) (host_readdir fs root))
       \<lparr>v_mkdir := host_mkdir fs root, v_unlink := host_unlink fs root, v_rmdir := host_rmdir fs root,
        v_rename := host_rename fs root, v_symlink := host_symlink fs root, v_readlink := host_readlink fs root,
        v_has_symlinks := True, v_set_mode := host_set_mode fs root\<rparr>"

end
