(* ===== verification/Host_Properties.thy ===== *)
theory Host_Properties
  imports Host_Vfs Sys_File
begin

text \<open>
  Which paths of the host a mounted directory hands to it: the root and plain names below it.  A symbolic link of
  the host is followed by the host itself, so the kernel has to resolve links before it opens
  (\<open>Host_Links\<close>); it does not when it is asked not to follow the last one.
\<close>

section \<open>Paths\<close>

definition host_name :: "string \<Rightarrow> bool" where
  "host_name c \<longleftrightarrow> clean c \<and> CHR 0x00 \<notin> set c"

definition below :: "string \<Rightarrow> string \<Rightarrow> bool" where
  "below root full \<longleftrightarrow> (\<exists>names. (\<forall>c \<in> set names. host_name c) \<and> full = foldl path_push root names)"

lemma push_all_Inr: "push_all out cs = Inr full \<longleftrightarrow> (\<forall>c \<in> set cs. plain_name c) \<and> full = foldl path_push out cs"
  by (induction cs arbitrary: out) auto

lemma push_all_Inl: "push_all out cs = Inl e \<longleftrightarrow> (\<exists>c \<in> set cs. \<not> plain_name c) \<and> e = EINVAL"
  by (induction cs arbitrary: out) auto

lemma split_on_names: "c \<in> set (split_on (CHR ''/'') path) \<Longrightarrow> CHR ''/'' \<notin> set c"
  by (rule split_on_no_sep)

lemma host_resolve_below: "host_resolve root path = Inr full \<Longrightarrow> below root full"
proof -
  assume r: "host_resolve root path = Inr full"
  define cs where "cs = filter (\<lambda>c. c \<noteq> []) (split_on (CHR ''/'') path)"
  have "\<forall>c \<in> set cs. plain_name c" and full: "full = foldl path_push root cs"
    using r unfolding host_resolve_def cs_def [symmetric] push_all_Inr by blast+
  moreover have "c \<noteq> [] \<and> CHR ''/'' \<notin> set c" if "c \<in> set cs" for c
    using that by (auto simp: cs_def dest: split_on_names)
  ultimately have "\<forall>c \<in> set cs. host_name c" by (auto simp: host_name_def clean_def plain_name_def)
  with full show ?thesis unfolding below_def by blast
qed

lemma host_resolve_refused: "host_resolve root path = Inl e \<Longrightarrow> e = EINVAL"
  by (simp add: host_resolve_def push_all_Inl)

section \<open>Confinement\<close>

text \<open>Two hosts that cannot be told apart below a directory.\<close>

definition agree_below :: "string \<Rightarrow> ('w, 'f) host_fs \<Rightarrow> ('w, 'f) host_fs \<Rightarrow> bool" where
  "agree_below root a b \<longleftrightarrow>
     hf_linux a = hf_linux b \<and> hf_read a = hf_read b \<and> hf_write a = hf_write b \<and> hf_seek a = hf_seek b \<and>
     hf_file_metadata a = hf_file_metadata b \<and> hf_set_len a = hf_set_len b \<and> hf_flush a = hf_flush b \<and>
     (\<forall>p. below root p \<longrightarrow>
        hf_open a p = hf_open b p \<and> hf_metadata a p = hf_metadata b p \<and>
        hf_symlink_metadata a p = hf_symlink_metadata b p \<and> hf_read_dir a p = hf_read_dir b p \<and>
        hf_create_dir a p = hf_create_dir b p \<and> hf_remove_file a p = hf_remove_file b p \<and>
        hf_remove_dir a p = hf_remove_dir b p \<and> hf_read_link a p = hf_read_link b p \<and>
        hf_set_permissions a p = hf_set_permissions b p \<and>
        (\<forall>t. hf_symlink a t p = hf_symlink b t p) \<and>
        (\<forall>q. below root q \<longrightarrow> hf_rename a q p = hf_rename b q p))"

lemma at_path_cong:
  "(\<And>full. below root full \<Longrightarrow> f full = g full) \<Longrightarrow> at_path root path f = at_path root path g"
  by (rule ext) (auto simp: at_path_def split: sum.splits dest: host_resolve_below)

lemma io_cong: "hf_linux a = hf_linux b \<Longrightarrow> io a r = io b r"
  by (simp add: io_def split: sum.splits)

lemma collect_entries_cong: "hf_linux a = hf_linux b \<Longrightarrow> collect_entries a es = collect_entries b es"
  by (induction es rule: collect_entries.induct) (auto split: sum.splits)

lemma host_op_cong:
  "hf_linux a = hf_linux b \<Longrightarrow> (\<And>full. below root full \<Longrightarrow> f full = g full) \<Longrightarrow> host_op a root path f = host_op b root path g"
  unfolding host_op_def by (rule at_path_cong) (simp add: io_cong [of a b])

lemma host_files_cong:
  assumes "agree_below root a b" and "hf_linux a = hf_linux b"
  shows "host_file_ops a = host_file_ops b"
  using assms
  by (simp add: agree_below_def host_file_ops_def fun_eq_iff io_def host_read_def host_write_def host_seek_def
      host_file_stat_def host_set_len_def host_close_def split: prod.splits sum.splits)

text \<open>
  The host is asked about nothing but the root and plain names below it: two hosts that agree on those paths,
  and on what an open file does, give the same filesystem, operation for operation.  No path that a guest can
  write, with \<open>.\<close>, \<open>..\<close>, empty components or NUL in it, makes the kernel name anything else; what the host finds
  behind a link at such a name is the subject of \<open>Host_Links\<close>.
\<close>

lemma host_names_confined:
  assumes "agree_below root a b"
  shows "host_vfs a root = host_vfs b root \<and> host_file_ops a = host_file_ops b"
proof -
  have l: "hf_linux a = hf_linux b" using assms by (simp add: agree_below_def)
  note at = assms [unfolded agree_below_def, THEN conjunct2, THEN conjunct2, THEN conjunct2, THEN conjunct2,
      THEN conjunct2, THEN conjunct2, THEN conjunct2, rule_format]
  have files: "host_file_ops a = host_file_ops b"
    using assms l by (rule host_files_cong)
  have "host_open a root = host_open b root"
    unfolding host_open_def by (intro ext fun_cong [OF at_path_cong]) (use at in \<open>simp add: io_def l split: prod.splits sum.splits\<close>)
  moreover have "host_stat a root = host_stat b root"
    unfolding host_stat_def by (intro ext fun_cong [OF at_path_cong]) (use at in \<open>simp add: io_def l split: prod.splits sum.splits\<close>)
  moreover have "host_readdir a root = host_readdir b root"
    unfolding host_readdir_def
    by (intro ext fun_cong [OF at_path_cong]) (use at in \<open>simp add: io_def l collect_entries_cong [OF l] split: prod.splits sum.splits\<close>)
  moreover have "host_mkdir a root = host_mkdir b root" "host_unlink a root = host_unlink b root"
    "host_rmdir a root = host_rmdir b root" "host_symlink a root = host_symlink b root"
    "host_readlink a root = host_readlink b root" "host_set_mode a root = host_set_mode b root"
    unfolding host_mkdir_def host_unlink_def host_rmdir_def host_symlink_def host_readlink_def host_set_mode_def
    by (intro ext fun_cong [OF host_op_cong] l, use at in simp)+
  moreover have "host_rename a root = host_rename b root"
  proof (intro ext)
    fix src dst w
    show "host_rename a root src dst w = host_rename b root src dst w"
    proof (cases "host_resolve root src")
      case (Inr q)
      then have "below root q" by (rule host_resolve_below)
      then have "host_op a root dst (hf_rename a q) = host_op b root dst (hf_rename b q)"
        by (intro host_op_cong l) (use at in blast)
      then show ?thesis by (simp add: host_rename_def Inr)
    qed (simp add: host_rename_def)
  qed
  ultimately show ?thesis using files by (simp add: host_vfs_def)
qed

text \<open>Two hosts with a file \<open>/etc/passwd\<close> in one of them.\<close>

definition demo_meta :: host_meta where
  "demo_meta = \<lparr>hm_dir = False, hm_symlink = False, hm_len = 3, hm_mode = 420, hm_ino = 7, hm_modified = None\<rparr>"

definition demo_host :: "string list \<Rightarrow> (unit, string) host_fs" where
  "demo_host there =
     (let gone = \<lparr>ie_kind = NotFound_Kind, ie_raw = Some 2\<rparr>;
          refused = \<lparr>ie_kind = Unsupported, ie_raw = None\<rparr>;
          meta = (\<lambda>p w. (if p \<in> set there then Inr demo_meta else Inl gone, w))
      in \<lparr>hf_linux = True,
          hf_open = (\<lambda>p o' w. (if p \<in> set there then Inr p else Inl gone, w)),
          hf_metadata = meta, hf_symlink_metadata = meta,
          hf_read_dir = (\<lambda>p w. (Inl gone, w)), hf_create_dir = (\<lambda>p w. (Inl refused, w)),
          hf_remove_file = (\<lambda>p w. (Inl refused, w)), hf_remove_dir = (\<lambda>p w. (Inl refused, w)),
          hf_rename = (\<lambda>p q w. (Inl refused, w)), hf_symlink = (\<lambda>p q w. (Inl refused, w)),
          hf_read_link = (\<lambda>p w. (Inl gone, w)), hf_set_permissions = (\<lambda>p md w. (Inl refused, w)),
          hf_read = (\<lambda>buf f w. (Inr 0, buf, f, w)), hf_write = (\<lambda>data f w. (Inr (length data), f, w)),
          hf_seek = (\<lambda>to f w. (Inr 0, f, w)), hf_file_metadata = (\<lambda>f w. (Inr demo_meta, w)),
          hf_set_len = (\<lambda>len f w. (Inr (), f, w)), hf_flush = (\<lambda>f w. (Inr (), f, w))\<rparr>)"

lemma below_prefix: "below root full \<Longrightarrow> take (length root) full = root"
proof -
  have "take (length root) (foldl path_push out names) = root" if "take (length root) out = root" for out names
    using that
  proof (induction names arbitrary: out)
    case (Cons c names)
    have "length root \<le> length out" using Cons.prems by (metis length_take min.absorb_iff2 min.commute)
    then have "take (length root) (path_push out c) = root" using Cons.prems by (simp add: path_push_def)
    then show ?case using Cons.IH by simp
  qed simp
  then show "below root full \<Longrightarrow> take (length root) full = root" by (auto simp: below_def)
qed

lemma demo_agree: "agree_below ''/srv'' (demo_host [''/srv/a'']) (demo_host [''/srv/a'', ''/etc/passwd''])"
proof -
  have "p \<noteq> ''/etc/passwd''" if "below ''/srv'' p" for p using below_prefix [OF that] by auto
  then show ?thesis by (simp add: agree_below_def demo_host_def Let_def)
qed

lemma demo_hosts_same:
  "host_vfs (demo_host [''/srv/a'']) ''/srv'' = host_vfs (demo_host [''/srv/a'', ''/etc/passwd'']) ''/srv'' \<and>
   hf_open (demo_host [''/srv/a'']) ''/etc/passwd'' \<noteq> hf_open (demo_host [''/srv/a'', ''/etc/passwd'']) ''/etc/passwd''"
  using host_names_confined [OF demo_agree] by (simp add: demo_host_def Let_def fun_eq_iff)

section \<open>Links that the kernel is asked not to follow\<close>

text \<open>
  Opening what a resolution with \<open>O_NOFOLLOW\<close> found asks the filesystem to follow it: whatever
  the host says about the link itself, the file that the host finds behind it is opened.
\<close>

lemma nofollow_opens_link:
  assumes v: "sh_vfs (sh s) i = Some (host_vfs fs root)"
    and reading: "\<not> wants_write flags" "flags AND O_DIRECTORY = 0"
    and path: "host_resolve root rel = Inr full"
    and target: "hf_metadata fs full (o_world (sh_out (sh s))) = (Inr m, w1)" "\<not> hm_dir m"
    and opened: "hf_open fs full (std_options (open_flags flags md (t_umask (the_task s)))) w1 = (Inr f, w2)"
  shows "fst (open_mounted i rel guest flags md s) = Inr (KFile f i False, guest)"
proof -
  have "host_stat fs root rel True (o_world (sh_out (sh s))) = (Inr (stat_of m), w1)"
    using target by (simp add: host_stat_def at_path_def path io_def)
  moreover have "host_open fs root rel (open_flags flags md (t_umask (the_task s))) w1 = (Inr f, w2)"
    using opened by (simp add: host_open_def at_path_def path io_def)
  moreover have "st_type (stat_of m) \<noteq> Dir" using target by (simp add: stat_of_def type_of_bits_def)
  ultimately show ?thesis
    using v reading
    by (simp add: open_mounted_def get_vfs_def ok_or_def world_op_def run_def bnd_def gets_def ret_def vfs_call_def
        or_vfs_fault_def Let_def host_vfs_def vfs_defaults_def)
qed

end
