(* ===== verification/Host_Links.thy ===== *)
theory Host_Links
  imports Host_Properties
begin

text \<open>
  Symbolic links in a mounted directory of the host.  The host follows the links on a path by itself, to
  wherever they lead, so a mount is as tight as the resolution before it: the paths handed to the host must have no
  link in them.  Here two hosts that differ only behind links, above and beside the directory are
  shown to look the same to a guest, and where that fails.
\<close>

section \<open>Links on a path of the host\<close>

definition host_at :: "string \<Rightarrow> string list \<Rightarrow> string" where
  "host_at root cs = foldl path_push root cs"

definition linked :: "('w, 'f) host_fs \<Rightarrow> string \<Rightarrow> 'w \<Rightarrow> string list \<Rightarrow> bool" where
  "linked h root w cs \<longleftrightarrow>
     (\<exists>m. fst (hf_symlink_metadata h (host_at root cs) w) = Inr m \<and> st_type (stat_of m) = Symlink)"

text \<open>No component but the last is a link, so that the host reaches the entry itself.\<close>

definition straight :: "('w, 'f) host_fs \<Rightarrow> string \<Rightarrow> 'w \<Rightarrow> string list \<Rightarrow> bool" where
  "straight h root w cs \<longleftrightarrow> (\<forall>n. 0 < n \<and> n < length cs \<longrightarrow> \<not> linked h root w (take n cs))"

definition same_entry :: "('w, 'f) host_fs \<Rightarrow> ('w, 'f) host_fs \<Rightarrow> string \<Rightarrow> 'w \<Rightarrow> bool" where
  "same_entry a b p w \<longleftrightarrow>
     hf_symlink_metadata a p w = hf_symlink_metadata b p w \<and> hf_read_link a p w = hf_read_link b p w \<and>
     hf_create_dir a p w = hf_create_dir b p w \<and> hf_remove_file a p w = hf_remove_file b p w \<and>
     hf_remove_dir a p w = hf_remove_dir b p w \<and> (\<forall>t. hf_symlink a t p w = hf_symlink b t p w)"

definition same_target :: "('w, 'f) host_fs \<Rightarrow> ('w, 'f) host_fs \<Rightarrow> string \<Rightarrow> 'w \<Rightarrow> bool" where
  "same_target a b p w \<longleftrightarrow>
     (\<forall>o'. hf_open a p o' w = hf_open b p o' w) \<and> hf_metadata a p w = hf_metadata b p w \<and>
     hf_read_dir a p w = hf_read_dir b p w \<and> (\<forall>md. hf_set_permissions a p md w = hf_set_permissions b p md w)"

text \<open>
  Two hosts that have the same directory, and the same entries below it, whatever is behind links or elsewhere.
\<close>

definition same_inside :: "string \<Rightarrow> ('w, 'f) host_fs \<Rightarrow> ('w, 'f) host_fs \<Rightarrow> bool" where
  "same_inside root a b \<longleftrightarrow>
     hf_linux a = hf_linux b \<and>
     (\<forall>cs w. (\<forall>c \<in> set cs. host_name c) \<longrightarrow> straight a root w cs \<longrightarrow>
        same_entry a b (host_at root cs) w \<and>
        (cs = [] \<or> \<not> linked a root w cs \<longrightarrow> same_target a b (host_at root cs) w) \<and>
        (\<forall>ds. (\<forall>c \<in> set ds. host_name c) \<longrightarrow> straight a root w ds \<longrightarrow>
           hf_rename a (host_at root cs) (host_at root ds) w = hf_rename b (host_at root cs) (host_at root ds) w))"

text \<open>Asking about an entry changes nothing, and a link can be read.\<close>

definition steady_host :: "('w, 'f) host_fs \<Rightarrow> bool" where
  "steady_host h \<longleftrightarrow>
     (\<forall>p w. snd (hf_symlink_metadata h p w) = w \<and> snd (hf_metadata h p w) = w \<and> snd (hf_read_link h p w) = w \<and>
        (\<forall>m. fst (hf_symlink_metadata h p w) = Inr m \<longrightarrow> st_type (stat_of m) = Symlink \<longrightarrow>
           (\<exists>t. fst (hf_read_link h p w) = Inr t)))"

definition steady_mounts :: "('w, 'f) mounts \<Rightarrow> bool" where
  "steady_mounts ms \<longleftrightarrow> (\<forall>m \<in> set ms. \<forall>p w. snd (v_stat (mnt_vfs m) p False w) = w \<and> snd (v_readlink (mnt_vfs m) p w) = w)"

lemma host_resolve_join:
  assumes "\<forall>c \<in> set cs. clean c"
  shows "host_resolve root (join cs) =
    (if \<forall>c \<in> set cs. host_name c then Inr (host_at root cs) else Inl EINVAL)"
proof -
  have "\<forall>c \<in> set cs. CHR ''/'' \<notin> set c" using assms by (auto simp: clean_def)
  then have parts: "filter (\<lambda>c. c \<noteq> []) (split_on (CHR ''/'') (join cs)) = cs"
  proof (cases "cs = []")
    case False
    then have "split_on (CHR ''/'') (join cs) = [] # cs"
      by (rule split_on_join [OF \<open>\<forall>c \<in> set cs. CHR ''/'' \<notin> set c\<close>])
    moreover have "filter (\<lambda>c. c \<noteq> []) cs = cs" using assms by (auto simp: clean_def filter_id_conv)
    ultimately show ?thesis by simp
  qed simp
  have "plain_name c \<longleftrightarrow> host_name c" if "c \<in> set cs" for c
    using that assms by (auto simp: plain_name_def host_name_def clean_def)
  then show ?thesis
    using push_all_Inr [of root cs "host_at root cs"] push_all_Inl [of root cs EINVAL]
    unfolding host_resolve_def parts by (auto simp: host_at_def)
qed

section \<open>A mount of the host among others\<close>

definition with_host :: "('w, 'f) host_fs \<Rightarrow> string \<Rightarrow> string \<Rightarrow> bool \<Rightarrow> nat \<Rightarrow> ('w, 'f) resolver \<Rightarrow> ('w, 'f) resolver" where
  "with_host h root at ro j r =
     r\<lparr>r_mounts := (r_mounts r)[j := \<lparr>mnt_at = at, mnt_vfs = host_vfs h root, mnt_read_only = ro\<rparr>]\<rparr>"

lemma mounts_find_from_cong:
  "map mnt_at ms = map mnt_at ms' \<Longrightarrow> mounts_find_from k ms g = mounts_find_from k ms' g"
proof (induction ms arbitrary: ms' k)
  case (Cons m ms)
  then obtain m' ns where "ms' = m' # ns" "mnt_at m = mnt_at m'" "map mnt_at ms = map mnt_at ns" by (cases ms') auto
  then show ?case using Cons.IH [of ns] by (simp split: option.split)
qed simp

lemma children_of_cong: "map mnt_at ms = map mnt_at ms' \<Longrightarrow> children_of ms g = children_of ms' g"
proof -
  assume "map mnt_at ms = map mnt_at ms'"
  moreover have "children_of ms g = List.map_filter (child_name g) (map mnt_at ms)" for ms :: "('w, 'f) mounts"
    unfolding children_of_def by (induction ms) (simp_all add: map_filter_simps split: option.split)
  ultimately show ?thesis by metis
qed

lemma with_host_points:
  "map mnt_at (r_mounts (with_host a root at ro j r)) = map mnt_at (r_mounts (with_host b root at ro j r))"
  by (simp add: with_host_def map_update)

lemma with_host_finds:
  "mounts_find (r_mounts (with_host a root at ro j r)) g = mounts_find (r_mounts (with_host b root at ro j r)) g"
  "is_mount_parent (with_host a root at ro j r) g = is_mount_parent (with_host b root at ro j r) g"
  unfolding mounts_find_def is_mount_parent_def
  using mounts_find_from_cong [OF with_host_points [of a root at ro j r b]]
    children_of_cong [OF with_host_points [of a root at ro j r b]] by simp_all

lemma with_host_get:
  "i \<noteq> j \<Longrightarrow> mounts_get (r_mounts (with_host h root at ro j r)) i = mounts_get (r_mounts r) i"
  "j < length (r_mounts r) \<Longrightarrow>
     mounts_get (r_mounts (with_host h root at ro j r)) j = Some \<lparr>mnt_at = at, mnt_vfs = host_vfs h root, mnt_read_only = ro\<rparr>"
  "r_overlay (with_host h root at ro j r) = r_overlay r"
  by (simp_all add: mounts_get_def get_at_def with_host_def)

lemma covers_longer:
  assumes "covers at (join cs)" "cs \<noteq> []"
  shows "covers at (join (cs @ ds))"
proof (cases "ds = []")
  case False
  obtain q where "join ds = CHR ''/'' # q" using join_starts [of ds] by blast
  then have "join (cs @ ds) = join cs @ CHR ''/'' # q" using False assms(2) by (simp add: join_append)
  then show ?thesis using assms(1) by (auto simp: covers_def)
qed (use assms in simp)

lemma covers_own: "cs \<noteq> [] \<or> ds = [] \<Longrightarrow> covers (join cs) (join (cs @ ds))"
  by (cases "ds = []") (auto simp: covers_def join_append join_def neq_Nil_conv)

text \<open>A mount that owns a path owns every shorter one below its mount point.\<close>

lemma mounts_find_shorter:
  assumes f: "mounts_find ms (join (ats @ rs)) = Some (j, rel)" and at: "mnt_at (ms ! j) = join ats"
    and c: "\<forall>c \<in> set (ats @ rs). clean c" and n: "0 < n" "n \<le> length rs"
  shows "mounts_find ms (join (ats @ take n rs)) = Some (j, join (take n rs))"
proof -
  note F = mounts_find_SomeD [OF f]
  have ne: "ats @ take n rs \<noteq> []" using n by auto
  have cov: "covers (mnt_at (ms ! j)) (join (ats @ take n rs))"
  proof (cases "ats = []")
    case True
    then show ?thesis by (simp add: at covers_def)
  next
    case False
    then show ?thesis unfolding at by (intro covers_own) simp
  qed
  have longer: "covers p (join (ats @ take n rs)) \<Longrightarrow> covers p (join (ats @ rs))" for p
    using covers_longer [OF _ ne, of p "drop n rs"] by simp
  obtain i rel' where i: "mounts_find ms (join (ats @ take n rs)) = Some (i, rel')"
    using cov F(1) mounts_find_None_iff [of ms "join (ats @ take n rs)"] by (metis nth_mem option.exhaust surj_pair)
  note I = mounts_find_SomeD [OF i]
  have "\<not> i < j" using F(3) longer [OF I(2)] by blast
  moreover have "\<not> j < i" using I(3) cov by blast
  ultimately have ij: "i = j" by simp
  have "\<forall>c \<in> set (ats @ take n rs). clean c" "\<forall>c \<in> set ats. clean c" using c by (auto dest: in_set_takeD)
  then obtain qs where "ats @ take n rs = ats @ qs" "rel' = join qs"
    using mounts_find_relative [OF i, of ats] at ij by auto
  then show ?thesis using i ij by simp
qed

section \<open>Two hosts, one walk\<close>

text \<open>
  The host has no link where the kernel does not look for one: at the path of a program or of a device, and, when
  the last link is not to be followed, at a directory of programs.
\<close>

definition unshadowed :: "('w, 'f) host_fs \<Rightarrow> string \<Rightarrow> string list \<Rightarrow> bool \<Rightarrow> overlay \<Rightarrow> bool" where
  "unshadowed h root ats f ov \<longleftrightarrow>
     (\<forall>cs w. overlay_program ov (join (ats @ cs)) \<noteq> None \<or> device_of (join (ats @ cs)) \<noteq> None \<or>
        \<not> f \<and> overlay_is_dir ov (join (ats @ cs)) \<longrightarrow> \<not> linked h root w cs)"

definition twins ::
  "('w, 'f) host_fs \<Rightarrow> ('w, 'f) host_fs \<Rightarrow> string \<Rightarrow> string list \<Rightarrow> bool \<Rightarrow> nat \<Rightarrow> ('w, 'f) resolver \<Rightarrow> bool" where
  "twins a b root ats f j r \<longleftrightarrow>
     same_inside root a b \<and> steady_host a \<and> steady_mounts (r_mounts r) \<and> j < length (r_mounts r) \<and>
     (\<forall>c \<in> set ats. clean c) \<and> unshadowed a root ats f (r_overlay r)"

lemma host_stat_entry:
  assumes "\<forall>c \<in> set cs. host_name c"
  shows "host_stat h root (join cs) False w =
    (case hf_symlink_metadata h (host_at root cs) w of (x, w1) \<Rightarrow>
       (case io h x of Inl e \<Rightarrow> Inl e | Inr m \<Rightarrow> Inr (stat_of m), w1))"
  using assms by (simp add: host_stat_def at_path_def host_resolve_join host_name_def)

lemma no_link_not_linked:
  assumes t: "twins a b root ats f j r" and A: "A = with_host a root (join ats) ro j r"
    and no: "no_link A who w (ats @ cs)" and cs: "\<forall>c \<in> set cs. host_name c"
    and found: "mounts_find (r_mounts A) (join (ats @ cs)) = Some (j, join cs)"
  shows "\<not> linked a root w cs"
proof
  assume l: "linked a root w cs"
  then have plain: "overlay_program (r_overlay A) (join (ats @ cs)) = None" "device_of (join (ats @ cs)) = None"
    using t l unfolding twins_def unshadowed_def A with_host_get(3) by blast+
  have get: "mounts_get (r_mounts A) j = Some \<lparr>mnt_at = join ats, mnt_vfs = host_vfs a root, mnt_read_only = ro\<rparr>"
    using t by (simp add: A with_host_get(2) twins_def)
  obtain m where m: "fst (hf_symlink_metadata a (host_at root cs) w) = Inr m" "st_type (stat_of m) = Symlink"
    using l by (auto simp: linked_def)
  have steady: "snd (hf_symlink_metadata a (host_at root cs) w) = w" "\<exists>t. fst (hf_read_link a (host_at root cs) w) = Inr t"
    using t m unfolding twins_def steady_host_def by blast+
  then obtain t' w' where rl: "hf_read_link a (host_at root cs) w = (Inr t', w')" by (metis prod.collapse)
  have sm: "hf_symlink_metadata a (host_at root cs) w = (Inr m, w)" using m(1) steady(1) by (metis prod.collapse)
  have "host_stat a root (join cs) False w = (Inr (stat_of m), w)"
    using host_stat_entry [OF cs, of a root w] sm by (simp add: io_def)
  moreover have "host_readlink a root (join cs) w = (Inr t', w')"
    using cs rl by (simp add: host_readlink_def host_op_def at_path_def host_resolve_join host_name_def io_def)
  ultimately have "fst (symlink_target A who (join (ats @ cs)) w) \<noteq> Inr None"
    using plain get found m(2)
    by (simp add: symlink_target_def host_vfs_def vfs_defaults_def split: option.split)
  then show False using no by (simp add: no_link_def)
qed

lemma walked_straight:
  assumes t: "twins a b root ats f j r" and A: "A = with_host a root (join ats) ro j r"
    and c: "\<forall>c \<in> set (ats @ rs). clean c" and names: "\<forall>c \<in> set rs. host_name c"
    and found: "mounts_find (r_mounts A) (join (ats @ rs)) = Some (j, join rs)"
    and no: "\<forall>n. 0 < n \<and> n < length (ats @ rs) \<longrightarrow> no_link A who w (take n (ats @ rs))"
  shows "straight a root w rs"
  unfolding straight_def
proof (intro allI impI)
  fix n assume n: "0 < n \<and> n < length rs"
  have "mnt_at (r_mounts A ! j) = join ats" using t by (simp add: A with_host_def twins_def)
  then have "mounts_find (r_mounts A) (join (ats @ take n rs)) = Some (j, join (take n rs))"
    using mounts_find_shorter [OF found _ c, of n] n by simp
  moreover have "no_link A who w (ats @ take n rs)" using no [rule_format, of "length ats + n"] n by simp
  ultimately show "\<not> linked a root w (take n rs)"
    using names by (intro no_link_not_linked [OF t A]) (auto dest: in_set_takeD)
qed

lemma io_twins: "twins a b root ats f j r \<Longrightarrow> io a x = io b x"
  by (rule io_cong) (simp add: twins_def same_inside_def)

lemma twins_entry:
  assumes "twins a b root ats f j r" "\<forall>c \<in> set rs. host_name c" "straight a root w rs"
  shows "same_entry a b (host_at root rs) w" "rs = [] \<or> \<not> linked a root w rs \<Longrightarrow> same_target a b (host_at root rs) w"
  using assms unfolding twins_def same_inside_def by blast+

lemma rename_agrees:
  assumes t: "twins a b root ats f j r" and c: "\<forall>c \<in> set rs. clean c" "\<forall>c \<in> set ds. clean c"
    and st: "\<forall>c \<in> set rs. host_name c \<Longrightarrow> straight a root w rs" "\<forall>c \<in> set ds. host_name c \<Longrightarrow> straight a root w ds"
  shows "host_rename a root (join rs) (join ds) w = host_rename b root (join rs) (join ds) w"
proof (cases "(\<forall>c \<in> set rs. host_name c) \<and> (\<forall>c \<in> set ds. host_name c)")
  case True
  then have "hf_rename a (host_at root rs) (host_at root ds) w = hf_rename b (host_at root rs) (host_at root ds) w"
    using t st unfolding twins_def same_inside_def by blast
  then show ?thesis using True
    by (simp add: host_rename_def host_op_def at_path_def host_resolve_join [OF c(1)] host_resolve_join [OF c(2)] io_twins [OF t])
next
  case False
  then have "host_resolve root (join rs) = Inl EINVAL \<or> host_resolve root (join ds) = Inl EINVAL"
    using host_resolve_join [OF c(1), of root] host_resolve_join [OF c(2), of root] by metis
  then show ?thesis by (auto simp: host_rename_def host_op_def at_path_def split: sum.split)
qed

text \<open>What the two filesystems do with an entry, and with what it leads to.\<close>

definition same_entry_ops :: "('w, 'f) host_fs \<Rightarrow> ('w, 'f) host_fs \<Rightarrow> string \<Rightarrow> string \<Rightarrow> 'w \<Rightarrow> bool" where
  "same_entry_ops a b root rel w \<longleftrightarrow>
     host_stat a root rel False w = host_stat b root rel False w \<and> host_readlink a root rel w = host_readlink b root rel w \<and>
     (\<forall>md. host_mkdir a root rel md w = host_mkdir b root rel md w) \<and> host_unlink a root rel w = host_unlink b root rel w \<and>
     host_rmdir a root rel w = host_rmdir b root rel w \<and> (\<forall>t. host_symlink a root t rel w = host_symlink b root t rel w)"

definition same_target_ops :: "('w, 'f) host_fs \<Rightarrow> ('w, 'f) host_fs \<Rightarrow> string \<Rightarrow> string \<Rightarrow> 'w \<Rightarrow> bool" where
  "same_target_ops a b root rel w \<longleftrightarrow>
     (\<forall>o'. host_open a root rel o' w = host_open b root rel o' w) \<and>
     host_stat a root rel True w = host_stat b root rel True w \<and> host_readdir a root rel w = host_readdir b root rel w \<and>
     (\<forall>md. host_set_mode a root rel md w = host_set_mode b root rel md w)"

lemmas host_ops_defs = host_stat_def host_readlink_def host_mkdir_def host_unlink_def host_rmdir_def host_symlink_def
  host_open_def host_readdir_def host_set_mode_def host_op_def at_path_def

lemma entry_ops_agree:
  assumes t: "twins a b root ats f j r" and c: "\<forall>c \<in> set rs. clean c"
    and st: "\<forall>c \<in> set rs. host_name c \<Longrightarrow> straight a root w rs"
  shows "same_entry_ops a b root (join rs) w"
proof (cases "\<forall>c \<in> set rs. host_name c")
  case True
  then show ?thesis using twins_entry(1) [OF t True st]
    by (simp add: same_entry_ops_def same_entry_def host_ops_defs host_resolve_join [OF c] io_twins [OF t])
next
  case False
  then have "host_resolve root (join rs) = Inl EINVAL" using host_resolve_join [OF c, of root] by presburger
  then show ?thesis by (simp add: same_entry_ops_def host_ops_defs)
qed

lemma target_ops_agree:
  assumes t: "twins a b root ats f j r" and c: "\<forall>c \<in> set rs. clean c"
    and st: "\<forall>c \<in> set rs. host_name c \<Longrightarrow> straight a root w rs \<and> (rs = [] \<or> \<not> linked a root w rs)"
  shows "same_target_ops a b root (join rs) w"
proof (cases "\<forall>c \<in> set rs. host_name c")
  case True
  have l: "collect_entries a = collect_entries b"
    by (intro ext collect_entries_cong) (use t in \<open>simp add: twins_def same_inside_def\<close>)
  have "same_target a b (host_at root rs) w" using twins_entry(2) [OF t True] st [OF True] by blast
  then show ?thesis using True unfolding same_target_ops_def host_ops_defs l
    by (simp add: same_target_def host_resolve_join [OF c] io_twins [OF t])
next
  case False
  then have "host_resolve root (join rs) = Inl EINVAL" using host_resolve_join [OF c, of root] by presburger
  then show ?thesis by (simp add: same_target_ops_def host_ops_defs)
qed

lemma host_looks_steady:
  assumes "steady_host a"
  shows "snd (host_stat a root rel fl w) = w" "snd (host_readlink a root rel w) = w"
  using assms by (auto simp: host_ops_defs steady_host_def split: prod.split sum.split) (metis snd_conv)+

lemma walked_in_host:
  assumes t: "twins a b root ats f j r" and A: "A = with_host a root (join ats) ro j r"
    and c: "\<forall>c \<in> set hs. clean c" and found: "mounts_find (r_mounts A) (join hs) = Some (j, rel)"
    and no: "\<forall>n. 0 < n \<and> n < length hs \<longrightarrow> no_link A who w (take n hs)"
  shows "\<exists>rs. hs = ats @ rs \<and> rel = join rs \<and> (\<forall>c \<in> set rs. clean c) \<and>
    ((\<forall>c \<in> set rs. host_name c) \<longrightarrow> straight a root w rs)"
proof -
  have "mnt_at (r_mounts A ! j) = join ats" "\<forall>c \<in> set ats. clean c" using t by (simp_all add: A with_host_def twins_def)
  then obtain rs where rs: "hs = ats @ rs" "rel = join rs" using mounts_find_relative [OF found c] by blast
  moreover have "straight a root w rs" if "\<forall>c \<in> set rs. host_name c"
    using walked_straight [OF t A _ that, of who w] c found no by (simp add: rs)
  ultimately show ?thesis using c by auto
qed

lemma link_agrees:
  assumes t: "twins a b root ats f j r" and A: "A = with_host a root (join ats) ro j r"
    and B: "B = with_host b root (join ats) ro j r" and c: "\<forall>c \<in> set hs. clean c"
    and no: "\<forall>n. 0 < n \<and> n < length hs \<longrightarrow> no_link A who w (take n hs)"
  shows "symlink_target A who (join hs) w = symlink_target B who (join hs) w \<and> snd (symlink_target A who (join hs) w) = w"
proof -
  have same: "r_overlay A = r_overlay B" "mounts_find (r_mounts B) g = mounts_find (r_mounts A) g" for g
    by (simp_all add: A B with_host_get(3) with_host_finds(1) [of b root "join ats" ro j r g a])
  show ?thesis
  proof (cases "mounts_find (r_mounts A) (join hs)")
    case None
    then show ?thesis by (simp add: symlink_target_def same split: option.split)
  next
    case (Some p)
    obtain i rel where p: "p = (i, rel)" by fastforce
    show ?thesis
    proof (cases "i = j")
      case False
      have get: "mounts_get (r_mounts A) i = mounts_get (r_mounts r) i" "mounts_get (r_mounts B) i = mounts_get (r_mounts r) i"
        using False by (simp_all add: A B with_host_get(1))
      have "snd (v_stat (mnt_vfs m) rel False w) = w \<and> snd (v_readlink (mnt_vfs m) rel w) = w"
        if "mounts_get (r_mounts r) i = Some m" for m
        using t that by (auto simp: twins_def steady_mounts_def mounts_get_def get_at_Some_iff)
      then show ?thesis using Some p get
        by (auto simp: symlink_target_def same split: option.split prod.split sum.split)
    next
      case True
      have "j < length (r_mounts r)" using t by (simp add: twins_def)
      note get = with_host_get(2) [OF this, of a root "join ats" ro, folded A] with_host_get(2) [OF this, of b root "join ats" ro, folded B]
      obtain rs where rs: "hs = ats @ rs" "rel = join rs" "\<forall>c \<in> set rs. clean c"
          "(\<forall>c \<in> set rs. host_name c) \<longrightarrow> straight a root w rs"
        using walked_in_host [OF t A c, of rel who w] Some p True no by auto
      have ops: "host_stat b root rel False w = host_stat a root rel False w" "host_readlink b root rel w = host_readlink a root rel w"
        using entry_ops_agree [OF t rs(3), of w] rs(2,4) by (simp_all add: same_entry_ops_def)
      have steady: "snd (host_stat a root rel False w) = w" "snd (host_readlink a root rel w) = w"
        using host_looks_steady [of a root rel] t by (simp_all add: twins_def)
      obtain x where x: "host_stat a root rel False w = (x, w)" using steady(1) by (metis prod.collapse)
      obtain y where y: "host_readlink a root rel w = (y, w)" using steady(2) by (metis prod.collapse)
      show ?thesis using Some p True get ops x y
        by (auto simp: symlink_target_def same host_vfs_def vfs_defaults_def split: option.split sum.split)
    qed
  qed
qed

text \<open>The components before the place the walk has come to are no links, nor is the last one when it is followed.\<close>

definition walked :: "('w, 'f) resolver \<Rightarrow> who \<Rightarrow> bool \<Rightarrow> 'w \<Rightarrow> nat \<Rightarrow> string list \<Rightarrow> bool" where
  "walked A who f w index ps \<longleftrightarrow> (\<forall>n. 0 < n \<and> n \<le> index \<and> (n < length ps \<or> f) \<longrightarrow> no_link A who w (take n ps))"

lemma walked_not_linked:
  assumes t: "twins a b root ats f j r" and A: "A = with_host a root (join ats) ro j r"
    and found: "mounts_find (r_mounts A) (join (ats @ rs)) = Some (j, join rs)" and names: "\<forall>c \<in> set rs. host_name c"
    and w: "walked A who f w (length (ats @ rs)) (ats @ rs)" and ne: "ats @ rs \<noteq> []"
    and last: "f \<or> overlay_is_dir (r_overlay r) (join (ats @ rs))"
  shows "\<not> linked a root w rs"
proof (cases f)
  case True
  then have "no_link A who w (ats @ rs)"
    using w [unfolded walked_def, rule_format, of "length (ats @ rs)"] ne by simp
  then show ?thesis by (rule no_link_not_linked [OF t A _ names found])
next
  case False
  then show ?thesis using last t by (auto simp: twins_def unshadowed_def)
qed

lemma classify_agrees:
  assumes t: "twins a b root ats f j r" and A: "A = with_host a root (join ats) ro j r"
    and B: "B = with_host b root (join ats) ro j r" and c: "\<forall>c \<in> set ps. clean c"
    and w: "walked A who f w (length ps) ps"
  shows "classify_final A who (join ps) w = classify_final B who (join ps) w \<and>
    (\<forall>rel g w'. classify_final A who (join ps) w = (Inr (Mounted j rel g), w') \<longrightarrow> w' = w)"
proof -
  have same: "r_overlay A = r_overlay r" "r_overlay B = r_overlay r" "mounts_find (r_mounts B) g = mounts_find (r_mounts A) g"
    "is_mount_parent B g = is_mount_parent A g" for g
    by (simp_all add: A B with_host_get(3) with_host_finds [of b root "join ats" ro j r g a])
  have before: "\<forall>n. 0 < n \<and> n < length ps \<longrightarrow> no_link A who w (take n ps)" using w by (simp add: walked_def)
  show ?thesis
  proof (cases "mounts_find (r_mounts A) (join ps)")
    case None
    then show ?thesis
      by (auto simp: classify_final_def same split: option.split dest!: proc_node_cases)
  next
    case (Some p)
    obtain i rel where p: "p = (i, rel)" by fastforce
    show ?thesis
    proof (cases "i = j")
      case False
      then have "mounts_get (r_mounts A) i = mounts_get (r_mounts r) i" "mounts_get (r_mounts B) i = mounts_get (r_mounts r) i"
        by (simp_all add: A B with_host_get(1))
      then show ?thesis using Some p False
        by (auto simp: classify_final_def same split: option.split prod.split sum.split dest!: proc_node_cases)
    next
      case True
      have "j < length (r_mounts r)" using t by (simp add: twins_def)
      note get = with_host_get(2) [OF this, of a root "join ats" ro, folded A] with_host_get(2) [OF this, of b root "join ats" ro, folded B]
      obtain rs where rs: "ps = ats @ rs" "rel = join rs" "\<forall>c \<in> set rs. clean c"
          "(\<forall>c \<in> set rs. host_name c) \<longrightarrow> straight a root w rs"
        using walked_in_host [OF t A c _ before, of rel] Some p True by auto
      have ops: "host_stat b root rel True w = host_stat a root rel True w"
        if "overlay_is_dir (r_overlay r) (join ps)" "join ps \<noteq> ''/''"
      proof -
        have ne: "ats @ rs \<noteq> []" using that(2) rs(1) by auto
        have "same_target_ops a b root (join rs) w"
          using rs walked_not_linked [OF t A, of rs who w] Some p True w that ne by (intro target_ops_agree [OF t]) auto
        then show ?thesis by (simp add: same_target_ops_def rs)
      qed
      obtain x where x: "host_stat a root rel True w = (x, w)"
        using host_looks_steady(1) [of a root rel True w] t by (metis prod.collapse twins_def)
      show ?thesis
      proof (cases "join ps \<noteq> ''/'' \<and> overlay_is_dir (r_overlay r) (join ps)")
        case dir: True
        then have y: "host_stat b root rel True w = (x, w)" using ops x by simp
        show ?thesis using Some p True get x y dir
          by (auto simp: classify_final_def same host_vfs_def vfs_defaults_def split: option.split sum.split dest!: proc_node_cases)
      next
        case False
        then show ?thesis using Some p True
          by (auto simp: classify_final_def same split: option.split dest!: proc_node_cases)
      qed
    qed
  qed
qed

text \<open>The end of a walk: the same for both hosts, and, in a mount, reached by components that are no links.\<close>

definition walk_ends ::
  "('w, 'f) resolver \<Rightarrow> ('w, 'f) resolver \<Rightarrow> who \<Rightarrow> bool \<Rightarrow> 'w \<Rightarrow> node vfs_result \<times> 'w \<Rightarrow> node vfs_result \<times> 'w \<Rightarrow> bool" where
  "walk_ends A B who f w x y \<longleftrightarrow> x = y \<and>
     (\<forall>i rel g w'. x = (Inr (Mounted i rel g), w') \<longrightarrow>
        (\<exists>ps. (\<forall>c \<in> set ps. clean c) \<and> walked A who f w (length ps) ps \<and> classify_final A who (join ps) w = x))"

lemma walk_agrees:
  assumes t: "twins a b root ats f j r" and A: "A = with_host a root (join ats) ro j r"
    and c: "\<forall>c \<in> set parts. clean c" and w: "walked A who f w index parts"
    and B: "B = with_host b root (join ats) ro j r"
  shows "walk_ends A B who f w (resolve_from A who f parts index hops w) (resolve_from B who f parts index hops w)"
  using t A c w
proof (induction A who f parts index hops w rule: resolve_from.induct)
  case (1 A who f parts index hops w)
  note eqA = resolve_from.simps [of A who f parts index hops w]
    and eqB = resolve_from.simps [of B who f parts index hops w]
  note t = "1.prems"(1) and A = "1.prems"(2) and c = "1.prems"(3) and w = "1.prems"(4)
  have full: "walked A who f w (length parts) parts" if "length parts \<le> index"
    using w that by (simp add: walked_def)
  show ?case
  proof (cases "length parts \<le> index")
    case True
    then have "resolve_from A who f parts index hops w = classify_final A who (join parts) w"
      "resolve_from B who f parts index hops w = classify_final B who (join parts) w"
      by (simp_all add: eqA eqB)
    then show ?thesis
      using classify_agrees [OF t A B c full [OF True]] c full [OF True] unfolding walk_ends_def by auto
  next
    case False
    let ?here = "take (index + 1) parts"
    have here: "length ?here = index + 1" using False by simp
    have cl: "\<forall>c \<in> set ?here. clean c" using c by (auto dest: in_set_takeD)
    have before: "\<forall>n. 0 < n \<and> n < length ?here \<longrightarrow> no_link A who w (take n ?here)"
      using w False by (auto simp: walked_def here min_def)
    have step: "walked A who f w (index + 1) parts" if "no_link A who w ?here \<or> \<not> f \<and> length parts \<le> index + 1"
      using w that unfolding walked_def by (metis add.commute le_Suc_eq linorder_not_less plus_1_eq_Suc)
    show ?thesis
    proof (cases "\<not> length parts \<le> index + 1 \<or> f")
      case True
      obtain x w1 where st: "symlink_target A who (join ?here) w = (x, w1)" by fastforce
      have agree: "symlink_target B who (join ?here) w = (x, w1)" "w1 = w"
        using link_agrees [OF t A B cl before] st by (metis, metis snd_conv)
      show ?thesis
      proof (cases x)
        case (Inl e)
        then have "resolve_from A who f parts index hops w = (Inl e, w1)" "resolve_from B who f parts index hops w = (Inl e, w1)"
          using False True st agree by (auto simp: eqA eqB Let_def)
        then show ?thesis by (simp add: walk_ends_def)
      next
        case (Inr y)
        show ?thesis
        proof (cases y)
          case None
          have rec: "resolve_from A who f parts index hops w = resolve_from A who f parts (index + 1) hops w1"
            "resolve_from B who f parts index hops w = resolve_from B who f parts (index + 1) hops w1"
            using False True st agree Inr None by (auto simp: eqA eqB Let_def)
          have "walked A who f w1 (index + 1) parts" using step st Inr None agree(2) by (simp add: no_link_def)
          from "1.IH"(1) [OF False refl refl refl True st [symmetric] Inr None t A c this]
          show ?thesis unfolding rec agree(2) .
        next
          case (Some tg)
          show ?thesis
          proof (cases "MAX_HOPS < hops + 1")
            case h: True
            then have "resolve_from A who f parts index hops w = (Inl ELOOP, w1)" "resolve_from B who f parts index hops w = (Inl ELOOP, w1)"
              using False True st agree Inr Some by (auto simp: eqA eqB Let_def)
            then show ?thesis by (simp add: walk_ends_def)
          next
            case h: False
            define rb where "rb = (if starts_with ''/'' tg then normalize ''/'' tg
              else normalize (join (take index parts)) tg)"
            have rec: "resolve_from A who f parts index hops w = resolve_from A who f (rb @ drop (index + 1) parts) 0 (hops + 1) w1"
              "resolve_from B who f parts index hops w = resolve_from B who f (rb @ drop (index + 1) parts) 0 (hops + 1) w1"
              using False True st agree Inr Some h by (auto simp: eqA eqB Let_def rb_def)
            have cr: "\<forall>c \<in> set (rb @ drop (index + 1) parts). clean c"
              using c by (auto simp: rb_def dest: normalize_clean in_set_dropD split: if_splits)
            have "walked A who f w1 0 (rb @ drop (index + 1) parts)" by (simp add: walked_def)
            from "1.IH"(2) [OF False refl refl refl True st [symmetric] Inr Some h refl refl rb_def t A cr this]
            show ?thesis unfolding rec agree(2) .
          qed
        qed
      qed
    next
      case nf: False
      show ?thesis
      proof (cases "virtual_link who (join ?here)")
        case None
        have rec: "resolve_from A who f parts index hops w = resolve_from A who f parts (index + 1) hops w"
          "resolve_from B who f parts index hops w = resolve_from B who f parts (index + 1) hops w"
          unfolding eqA eqB using False nf None by simp_all
        have "walked A who f w (index + 1) parts" using step nf by simp
        from "1.IH"(3) [OF False refl refl refl nf None t A c this]
        show ?thesis unfolding rec .
      next
        case (Some tg)
        then have "resolve_from A who f parts index hops w = (Inr (VirtualLink tg), w)"
          "resolve_from B who f parts index hops w = (Inr (VirtualLink tg), w)"
          unfolding eqA eqB using False nf by simp_all
        then show ?thesis by (simp add: walk_ends_def)
      qed
    qed
  qed
qed

section \<open>Confinement\<close>

text \<open>Where a resolution arrived in the mount of the host.\<close>

lemma arrived:
  assumes t: "twins a b root ats f j r" and A: "A = with_host a root (join ats) ro j r"
    and B: "B = with_host b root (join ats) ro j r" and r: "resolve A who base path f w = (Inr (Mounted j rel g), w')"
  shows "w' = w \<and> (\<exists>rs. rel = join rs \<and> (\<forall>c \<in> set rs. clean c) \<and>
    ((\<forall>c \<in> set rs. host_name c) \<longrightarrow> straight a root w rs \<and> (f \<longrightarrow> rs = [] \<or> \<not> linked a root w rs)))"
proof -
  have "resolve_from A who f (normalize base path) 0 0 w = (Inr (Mounted j rel g), w')"
    using r by (simp add: resolve_def split: if_splits)
  moreover have "walked A who f w 0 (normalize base path)" by (simp add: walked_def)
  ultimately obtain ps where ps: "\<forall>c \<in> set ps. clean c" "walked A who f w (length ps) ps"
    "classify_final A who (join ps) w = (Inr (Mounted j rel g), w')"
    using walk_agrees [OF t A normalize_all_clean _ B, of who w 0 base path 0] unfolding walk_ends_def by (metis (no_types, lifting))
  have w: "w' = w" using classify_agrees [OF t A B ps(1,2)] ps(3) by blast
  have found: "mounts_find (r_mounts A) (join ps) = Some (j, rel)" using classify_final_Mounted [OF ps(3)] by simp
  have "\<forall>n. 0 < n \<and> n < length ps \<longrightarrow> no_link A who w (take n ps)" using ps(2) by (simp add: walked_def)
  then obtain rs where rs: "ps = ats @ rs" "rel = join rs" "\<forall>c \<in> set rs. clean c"
      "(\<forall>c \<in> set rs. host_name c) \<longrightarrow> straight a root w rs"
    using walked_in_host [OF t A ps(1) found] by blast
  have "\<not> linked a root w rs" if "\<forall>c \<in> set rs. host_name c" f "ats @ rs \<noteq> []"
    using walked_not_linked [OF t A _ that(1) _ that(3), of who w] found ps(2) rs(1,2) that(2) by simp
  with w rs show ?thesis by blast
qed

text \<open>
  C19: a mounted directory of the host shows nothing of what lies outside it, links included.  Take two hosts that have the
  same entries below the directory and may differ in everything else, above it, beside it and behind its symbolic
  links.  Every path a process may give resolves alike on both, to an entry that the host reaches without following a
  link; what is done with the entry itself (its metadata, reading the link, making, linking, removing, renaming) is the same,
  and when the resolution followed the last link, so is what is done with what it names (opening, listing, its metadata and
  mode).  Asking about entries must not change them, links must be readable, and the host must not have a link where the
  kernel does not look for one: at the path of a program or a device, or, for a resolution that does not follow the last
  link, at a directory of programs.
\<close>

theorem host_confined:
  assumes "same_inside root a b" "steady_host a" "steady_mounts (r_mounts r)" "j < length (r_mounts r)"
    and "\<forall>c \<in> set ats. clean c" "unshadowed a root ats f (r_overlay r)"
    and A: "A = with_host a root (join ats) ro j r" and B: "B = with_host b root (join ats) ro j r"
  shows "resolve A who base path f w = resolve B who base path f w \<and>
    (\<forall>rel g w'. resolve A who base path f w = (Inr (Mounted j rel g), w') \<longrightarrow>
       w' = w \<and> same_entry_ops a b root rel w \<and> (f \<longrightarrow> same_target_ops a b root rel w) \<and>
       (\<forall>base2 path2 rel2 g2. resolve A who base2 path2 f w = (Inr (Mounted j rel2 g2), w) \<longrightarrow>
          host_rename a root rel rel2 w = host_rename b root rel rel2 w))"
proof (intro conjI allI impI)
  have t: "twins a b root ats f j r" using assms(1-6) by (simp add: twins_def)
  have "walked A who f w 0 (normalize base path)" by (simp add: walked_def)
  then have "resolve_from A who f (normalize base path) 0 0 w = resolve_from B who f (normalize base path) 0 0 w"
    using walk_agrees [OF t A normalize_all_clean _ B, of who w 0 base path 0] unfolding walk_ends_def by blast
  then show "resolve A who base path f w = resolve B who base path f w" by (simp add: resolve_def)
  fix rel g w'
  assume r: "resolve A who base path f w = (Inr (Mounted j rel g), w')"
  note here = arrived [OF t A B r]
  show "w' = w" using here by blast
  show "same_entry_ops a b root rel w" using here entry_ops_agree [OF t] by blast
  show "same_target_ops a b root rel w" if f using here that target_ops_agree [OF t] by blast
  fix base2 path2 rel2 g2
  assume "resolve A who base2 path2 f w = (Inr (Mounted j rel2 g2), w)"
  note there = arrived [OF t A B this]
  show "host_rename a root rel rel2 w = host_rename b root rel rel2 w"
    using here there rename_agrees [OF t] by blast
qed

text \<open>Two hosts with a link \<open>/srv/l\<close> to \<open>/etc/passwd\<close>, which one of them has; each follows it when it opens.\<close>

definition link_meta :: host_meta where
  "link_meta = demo_meta\<lparr>hm_symlink := True\<rparr>"

definition linked_host :: "string \<Rightarrow> string \<Rightarrow> string list \<Rightarrow> (unit, string) host_fs" where
  "linked_host link target there =
     (let h = demo_host there; to = (\<lambda>p. if p = link then target else p)
      in h\<lparr>hf_symlink_metadata := (\<lambda>p w. if p = link then (Inr link_meta, w) else hf_symlink_metadata h p w),
           hf_read_link := (\<lambda>p w. if p = link then (Inr target, w) else hf_read_link h p w),
           hf_metadata := (\<lambda>p. hf_metadata h (to p)), hf_open := (\<lambda>p. hf_open h (to p))\<rparr>)"

lemma host_at_below: "\<exists>q. host_at root cs = root @ q"
proof (induction cs rule: rev_induct)
  case (snoc c cs)
  then show ?case by (auto simp: host_at_def path_push_def)
qed (simp add: host_at_def)

lemma linked_linked_host: "linked (linked_host link target there) root w cs \<longleftrightarrow> host_at root cs = link"
  by (simp add: linked_def linked_host_def demo_host_def stat_of_def type_of_bits_def link_meta_def demo_meta_def Let_def)

lemma linked_host_steady: "steady_host (linked_host link target there)"
  by (simp add: steady_host_def linked_host_def demo_host_def stat_of_def type_of_bits_def demo_meta_def Let_def)

lemma linked_hosts_same:
  "same_inside ''/srv'' (linked_host ''/srv/l'' ''/etc/passwd'' [''/srv/a'', ''/etc/passwd''])
     (linked_host ''/srv/l'' ''/etc/passwd'' [''/srv/a''])"
proof -
  have "host_at ''/srv'' cs \<noteq> ''/etc/passwd''" for cs using host_at_below [of "''/srv''" cs] by auto
  moreover have "host_at ''/srv'' [] \<noteq> ''/srv/l''" by (simp add: host_at_def)
  ultimately show ?thesis
    by (auto simp: same_inside_def same_entry_def same_target_def linked_linked_host)
      (simp_all add: linked_host_def demo_host_def Let_def)
qed

definition link_resolver :: "(unit, string) resolver" where
  "link_resolver = \<lparr>r_overlay = overlay_new [],
     r_mounts = [\<lparr>mnt_at = ''/mnt'', mnt_vfs = host_vfs (demo_host []) ''/srv'', mnt_read_only = True\<rparr>]\<rparr>"

lemma link_resolver_ready:
  "steady_mounts (r_mounts link_resolver)" "0 < length (r_mounts link_resolver)"
  "\<forall>c \<in> set [''mnt'']. clean c" "unshadowed h root [''mnt''] True (r_overlay link_resolver)"
  "join [''mnt''] = ''/mnt''"
proof -
  have "steady_host (demo_host [])" by (simp add: steady_host_def demo_host_def Let_def)
  note host_looks_steady [OF this]
  then show "steady_mounts (r_mounts link_resolver)"
    by (simp add: steady_mounts_def link_resolver_def host_vfs_def vfs_defaults_def)
  have "device_of (join ([''mnt''] @ cs)) = None" "overlay_program (overlay_new []) (join ([''mnt''] @ cs)) = None" for cs
    by (simp_all add: join_def device_of_def overlay_new_def overlay_program_def)
  then show "unshadowed h root [''mnt''] True (r_overlay link_resolver)"
    unfolding unshadowed_def link_resolver_def by simp
qed (simp_all add: link_resolver_def clean_def join_def)

lemma host_confined_witness:
  "let a = linked_host ''/srv/l'' ''/etc/passwd'' [''/srv/a'', ''/etc/passwd''];
       b = linked_host ''/srv/l'' ''/etc/passwd'' [''/srv/a'']
   in host_open a ''/srv'' ''/l'' \<noteq> host_open b ''/srv'' ''/l'' \<and>
     resolve (with_host a ''/srv'' ''/mnt'' True 0 link_resolver) example_who ''/'' ''mnt/l'' True () =
     resolve (with_host b ''/srv'' ''/mnt'' True 0 link_resolver) example_who ''/'' ''mnt/l'' True ()"
proof -
  define a where "a = linked_host ''/srv/l'' ''/etc/passwd'' [''/srv/a'', ''/etc/passwd'']"
  define b where "b = linked_host ''/srv/l'' ''/etc/passwd'' [''/srv/a'']"
  have "host_resolve ''/srv'' ''/l'' = Inr ''/srv/l''" by code_simp
  then have "isl (fst (host_open b ''/srv'' ''/l'' o' ()))" "\<not> isl (fst (host_open a ''/srv'' ''/l'' o' ()))" for o'
    by (simp_all add: host_open_def at_path_def a_def b_def linked_host_def demo_host_def io_def Let_def)
  then have "host_open a ''/srv'' ''/l'' \<noteq> host_open b ''/srv'' ''/l''" by metis
  moreover have "resolve (with_host a ''/srv'' ''/mnt'' True 0 link_resolver) example_who ''/'' ''mnt/l'' True () =
     resolve (with_host b ''/srv'' ''/mnt'' True 0 link_resolver) example_who ''/'' ''mnt/l'' True ()"
    using host_confined [OF linked_hosts_same linked_host_steady link_resolver_ready(1-4) refl refl,
        of True example_who "''/''" "''mnt/l''" "()"]
    unfolding a_def b_def link_resolver_ready(5) by blast
  ultimately show ?thesis unfolding a_def b_def Let_def by blast
qed

section \<open>Links that the kernel does not look for\<close>

text \<open>
  C38: a link at the path of a program or a device is not seen.  When a directory of the host mounted at the root has a
  symbolic link where the kernel has a program or a device, a path that goes on behind it resolves, with the last link
  followed, to a path of the host with that link in it, whatever the link names; opening it asks the host to follow
  the link.  So a mount does not confine a guest when its directory has a link at such a place.
\<close>

theorem shadowed_link_followed:
  assumes mounts: "r_mounts r = [\<lparr>mnt_at = ''/'', mnt_vfs = host_vfs h root, mnt_read_only = ro\<rparr>]"
    and shadow: "overlay_program (r_overlay r) (join ds) \<noteq> None \<or> device_of (join ds) \<noteq> None"
    and link: "linked h root w ds" "virtual_link who (join ds) = None" "ds \<noteq> []" "cs \<noteq> []"
    and names: "\<forall>c \<in> set (ds @ cs). host_name c"
    and others: "\<forall>n. 0 < n \<and> n \<le> length (ds @ cs) \<and> n \<noteq> length ds \<longrightarrow> virtual_link who (join (take n (ds @ cs))) = None \<and>
      (\<exists>m. hf_symlink_metadata h (host_at root (take n (ds @ cs))) w = (Inr m, w) \<and> st_type (stat_of m) \<noteq> Symlink)"
    and plain: "overlay_program (r_overlay r) (join (ds @ cs)) = None" "device_of (join (ds @ cs)) = None"
      "proc_node who (join (ds @ cs)) = None" "\<not> overlay_is_dir (r_overlay r) (join (ds @ cs))"
    and path: "length path \<le> MAX_STR" "normalize base path = ds @ cs"
  shows "resolve r who base path True w = (Inr (Mounted 0 (join (ds @ cs)) (join (ds @ cs))), w) \<and>
    \<not> straight h root w (ds @ cs) \<and>
    host_open h root (join (ds @ cs)) o' w =
      (let (x, w1) = hf_open h (host_at root (ds @ cs)) (std_options o') w in (io h x, w1))"
proof -
  have found: "mounts_find (r_mounts r) g = Some (0, g)" for g by (simp add: mounts mounts_find_def)
  have get: "mounts_get (r_mounts r) 0 = Some \<lparr>mnt_at = ''/'', mnt_vfs = host_vfs h root, mnt_read_only = ro\<rparr>"
    by (simp add: mounts mounts_get_def)
  have "no_link r who w (take n (ds @ cs))" if n: "0 < n" "n \<le> length (ds @ cs)" for n
  proof (cases "n = length ds")
    case True
    then show ?thesis using shadow link(2) by (simp add: no_link_def symlink_target_def)
  next
    case False
    then obtain m where m: "virtual_link who (join (take n (ds @ cs))) = None" "st_type (stat_of m) \<noteq> Symlink"
      "hf_symlink_metadata h (host_at root (take n (ds @ cs))) w = (Inr m, w)"
      using others n by blast
    have "\<forall>c \<in> set (take n (ds @ cs)). host_name c" using names by (meson in_set_takeD)
    from host_stat_entry [OF this, of h root w] m(3)
    have "host_stat h root (join (take n (ds @ cs))) False w = (Inr (stat_of m), w)" by (simp add: io_def)
    then show ?thesis using m(1,2) get
      by (simp add: no_link_def symlink_target_def found host_vfs_def vfs_defaults_def)
  qed
  then have "link_free r who w (ds @ cs)" by (simp add: link_free_def)
  then have "resolve r who base path True w = classify_final r who (join (ds @ cs)) w"
    using path by (simp add: resolve_def resolve_from_link_free)
  moreover have "classify_final r who (join (ds @ cs)) w = (Inr (Mounted 0 (join (ds @ cs)) (join (ds @ cs))), w)"
    using plain by (simp add: classify_final_def found)
  moreover have "\<not> straight h root w (ds @ cs)"
    using link by (auto simp: straight_def intro!: exI [of _ "length ds"])
  moreover have "\<forall>c \<in> set (ds @ cs). clean c" using names by (auto simp: host_name_def)
  then have "host_resolve root (join (ds @ cs)) = Inr (host_at root (ds @ cs))"
    using host_resolve_join [of "ds @ cs" root] names by simp
  ultimately show ?thesis by (simp add: host_open_def at_path_def)
qed

text \<open>A host whose \<open>/srv/dev/null\<close> is a link to its own root, mounted by the tool's \<open>--dir\<close>.\<close>

definition escape_host :: "(unit, string) host_fs" where
  "escape_host = linked_host ''/srv/dev/null'' ''/'' [''/srv/dev'', ''/srv/dev/null/passwd'']"

lemma shadowed_link_followed_witness:
  "resolve \<lparr>r_overlay = overlay_new [], r_mounts = [\<lparr>mnt_at = ''/'', mnt_vfs = host_vfs escape_host ''/srv'', mnt_read_only = False\<rparr>]\<rparr>
     example_who ''/'' ''/dev/null/passwd'' True () = (Inr (Mounted 0 ''/dev/null/passwd'' ''/dev/null/passwd''), ())"
proof -
  define r where "r = \<lparr>r_overlay = overlay_new [],
    r_mounts = [\<lparr>mnt_at = ''/'', mnt_vfs = host_vfs escape_host ''/srv'', mnt_read_only = False\<rparr>]\<rparr>"
  let ?ds = "[''dev'', ''null'']" and ?cs = "[''passwd'']"
  have link: "linked escape_host ''/srv'' () ?ds"
    unfolding escape_host_def linked_linked_host by code_simp
  have names: "\<forall>c \<in> set (?ds @ ?cs). host_name c" by code_simp
  have "\<exists>m. hf_symlink_metadata escape_host (host_at ''/srv'' p) () = (Inr m, ()) \<and> st_type (stat_of m) \<noteq> Symlink"
    if "p = [''dev''] \<or> p = [''dev'', ''null'', ''passwd'']" for p
    using that by (auto simp: escape_host_def linked_host_def demo_host_def host_at_def path_push_def Let_def demo_meta_def
        stat_of_def type_of_bits_def)
  moreover have "virtual_link example_who (join p) = None" if "p = [''dev''] \<or> p = [''dev'', ''null'', ''passwd'']" for p
    using that by (elim disjE; hypsubst; code_simp)
  ultimately have one: "virtual_link example_who (join (take n (?ds @ ?cs))) = None \<and>
      (\<exists>m. hf_symlink_metadata escape_host (host_at ''/srv'' (take n (?ds @ ?cs))) () = (Inr m, ()) \<and> st_type (stat_of m) \<noteq> Symlink)"
    if "take n (?ds @ ?cs) = [''dev''] \<or> take n (?ds @ ?cs) = [''dev'', ''null'', ''passwd'']" for n
    using that by metis
  have "take n (?ds @ ?cs) = [''dev''] \<or> take n (?ds @ ?cs) = [''dev'', ''null'', ''passwd'']"
    if "0 < n" "n \<le> length (?ds @ ?cs)" "n \<noteq> length ?ds" for n
  proof -
    have "n = 1 \<or> n = 3" using that by (simp, linarith)
    then show ?thesis by auto
  qed
  then have others: "\<forall>n. 0 < n \<and> n \<le> length (?ds @ ?cs) \<and> n \<noteq> length ?ds \<longrightarrow>
      virtual_link example_who (join (take n (?ds @ ?cs))) = None \<and>
      (\<exists>m. hf_symlink_metadata escape_host (host_at ''/srv'' (take n (?ds @ ?cs))) () = (Inr m, ()) \<and> st_type (stat_of m) \<noteq> Symlink)"
    using one by blast
  have j: "join (?ds @ ?cs) = ''/dev/null/passwd''" by code_simp
  have "device_of (join ?ds) \<noteq> None" by code_simp
  then have shadow: "overlay_program (r_overlay r) (join ?ds) \<noteq> None \<or> device_of (join ?ds) \<noteq> None" by blast
  have virtual: "virtual_link example_who (join ?ds) = None" by code_simp
  have plain: "overlay_program (r_overlay r) (join (?ds @ ?cs)) = None" "device_of (join (?ds @ ?cs)) = None"
    "proc_node example_who (join (?ds @ ?cs)) = None" "\<not> overlay_is_dir (r_overlay r) (join (?ds @ ?cs))"
    unfolding r_def j by code_simp+
  have path: "length ''/dev/null/passwd'' \<le> MAX_STR" "normalize ''/'' ''/dev/null/passwd'' = ?ds @ ?cs"
    by code_simp+
  have "r_mounts r = [\<lparr>mnt_at = ''/'', mnt_vfs = host_vfs escape_host ''/srv'', mnt_read_only = False\<rparr>]" by (simp add: r_def)
  from shadowed_link_followed [OF this shadow link virtual _ _ names others plain path, THEN conjunct1]
  show ?thesis unfolding j r_def by blast
qed

end
