(* ===== verification/Mem_Tree.thy ===== *)
theory Mem_Tree
  imports Mem_Vfs Paths "HOL-Library.Sublist"
begin

text \<open>
  The tree of \<open>vfs/mem.rs\<close> as a function from paths to what is there, and the filesystem's
  operations as updates of it.
\<close>

section \<open>The embedder's helpers\<close>

definition with_file :: "string \<Rightarrow> bytes \<Rightarrow> mem_world \<Rightarrow> mem_world" where
  "with_file path contents w = snd (write_file path contents w)"

definition with_dir :: "string \<Rightarrow> mem_world \<Rightarrow> mem_world" where
  "with_dir path w = snd (mkdir_all path w)"

text \<open>Every file below a node, with its path, in the order of the entries.\<close>

fun collect_node :: "mem_world \<Rightarrow> mem_node \<Rightarrow> string \<Rightarrow> (string \<times> bytes) list"
  and collect_list :: "mem_world \<Rightarrow> (string \<times> mem_node) list \<Rightarrow> string \<Rightarrow> (string \<times> bytes) list" where
  "collect_node w (NDir es) pre = collect_list w es pre"
| "collect_node w (NFile b) pre = [(pre, heap_get w b)]"
| "collect_node w (NLink target) pre = [(pre, as_bytes target)]"
| "collect_list w [] pre = []"
| "collect_list w (e # es) pre =
     collect_node w (snd e) (pre @ ''/'' @ fst e) @ collect_list w es pre"

definition snapshot :: "mem_world \<Rightarrow> (string \<times> bytes) list" where
  "snapshot w = sort_key fst (collect_node w (mw_root w) [])"

section \<open>Paths and their last component\<close>

definition leaf :: "string \<Rightarrow> string" where "leaf path = snd (split_parent path)"

definition above :: "string \<Rightarrow> string list" where "above path = path_parts (fst (split_parent path))"

lemma path_parts_no_sep: "CHR ''/'' \<notin> set c \<Longrightarrow> path_parts c = (if c = [] then [] else [c])"
  by (simp add: path_parts_def split_on_single)

lemma path_parts_append: "path_parts (a @ CHR ''/'' # b) = path_parts a @ path_parts b"
  by (simp add: path_parts_def split_on_append)

lemma path_parts_leaf: "leaf path \<noteq> [] \<Longrightarrow> path_parts path = above path @ [leaf path]"
proof (cases "rfind (CHR ''/'') path")
  case None
  then have "CHR ''/'' \<notin> set path" by (simp add: rfind_None_iff)
  moreover assume "leaf path \<noteq> []"
  moreover have "path_parts ''/'' = []" by (simp add: path_parts_def)
  ultimately show ?thesis
    by (simp add: above_def leaf_def split_parent_def None path_parts_no_sep)
next
  case (Some i)
  assume ne: "leaf path \<noteq> []"
  define name where "name = drop (Suc i) path"
  have i: "i < length path" "path ! i = CHR ''/''" "CHR ''/'' \<notin> set name"
    using rfind_SomeD [OF Some] by (auto simp: name_def)
  have p: "path = take i path @ CHR ''/'' # name" using i id_take_nth_drop [of i path] by (simp add: name_def)
  have l: "leaf path = name" using Some by (cases i) (simp_all add: leaf_def split_parent_def name_def)
  have "path_parts path = path_parts (take i path) @ path_parts name"
    using path_parts_append [of "take i path" name] p by simp
  moreover have "above path = path_parts (take i path)"
    using Some by (cases i) (simp_all add: above_def split_parent_def path_parts_def)
  ultimately show ?thesis using ne i by (simp add: l path_parts_no_sep)
qed

section \<open>What a tree holds\<close>

datatype shape = SDir | SFile nat | SLink string

fun shape_of :: "mem_node \<Rightarrow> shape" where
  "shape_of (NDir _) = SDir"
| "shape_of (NFile b) = SFile b"
| "shape_of (NLink t) = SLink t"

definition look :: "mem_node \<Rightarrow> string list \<Rightarrow> shape option" where
  "look n ps = map_option shape_of (node_find n ps)"

lemma look_simps [simp]:
  "look n [] = Some (shape_of n)"
  "look (NDir es) (p # ps) = (case map_of es p of Some c \<Rightarrow> look c ps | None \<Rightarrow> None)"
  "look (NFile b) (p # ps) = None"
  "look (NLink t) (p # ps) = None"
  by (simp_all add: look_def split: option.splits)

lemma node_find_append:
  "node_find n (ps @ qs) = (case node_find n ps of Some c \<Rightarrow> node_find c qs | None \<Rightarrow> None)"
  by (induction n ps rule: node_find.induct) (auto split: option.splits)

lemma look_below: "node_find n ps = Some c \<Longrightarrow> look n (ps @ qs) = look c qs"
  by (simp add: look_def node_find_append)

lemma look_SDir: "look n ps = Some SDir \<longleftrightarrow> (\<exists>es. node_find n ps = Some (NDir es))"
  by (auto simp: look_def elim: shape_of.elims)

lemma look_SFile: "look n ps = Some (SFile b) \<longleftrightarrow> node_find n ps = Some (NFile b)"
  by (auto simp: look_def elim: shape_of.elims)

lemma look_SLink: "look n ps = Some (SLink t) \<longleftrightarrow> node_find n ps = Some (NLink t)"
  by (auto simp: look_def elim: shape_of.elims)

lemma look_None: "look n ps = None \<longleftrightarrow> node_find n ps = None"
  by (simp add: look_def)

text \<open>Replacing the entries of a directory changes what is below it, and nothing else.\<close>

lemma look_write:
  assumes "node_find n ps = Some (NDir es)"
  shows "look (node_write ps (NDir es') n) qs =
    (case strip_prefix ps qs of
       Some (x # rs) \<Rightarrow> (case map_of es' x of Some c \<Rightarrow> look c rs | None \<Rightarrow> None)
     | _ \<Rightarrow> look n qs)"
  using assms
proof (induction ps arbitrary: n qs)
  case Nil
  then show ?case by (cases qs) simp_all
next
  case (Cons p ps)
  then obtain fs c where n: "n = NDir fs" "map_of fs p = Some c" "node_find c ps = Some (NDir es)"
    by (cases n) (auto split: option.splits)
  show ?case
  proof (cases qs)
    case Nil
    then show ?thesis by (simp add: n)
  next
    case (Cons q qs')
    then show ?thesis using Cons.IH [OF n(3), of qs'] n(2)
      by (auto simp: n(1) bt_insert_map_of split: option.splits list.splits)
  qed
qed

lemma strip_prefix_cat [simp]: "strip_prefix ps (ps @ qs) = Some qs"
  by (induction ps) simp_all

lemma strip_prefix_Some: "strip_prefix ps qs = Some rs \<longleftrightarrow> qs = ps @ rs"
  by (induction ps qs rule: strip_prefix.induct) auto

lemma prefix_snoc_strip:
  "prefix (ps @ [x]) qs \<longleftrightarrow> (\<exists>rs. strip_prefix ps qs = Some (x # rs))"
  by (auto simp: prefix_def strip_prefix_Some)

lemma look_child:
  "node_find n ps = Some (NDir es) \<Longrightarrow> look n (ps @ x # rs) = (case map_of es x of Some c \<Rightarrow> look c rs | None \<Rightarrow> None)"
  by (simp add: look_below)

lemma look_insert:
  assumes "node_find n ps = Some (NDir es)"
  shows "look (node_write ps (NDir (bt_insert x c es)) n) qs =
    (if prefix (ps @ [x]) qs then look c (drop (Suc (length ps)) qs) else look n qs)"
  by (auto simp: look_write [OF assms] prefix_snoc_strip bt_insert_map_of strip_prefix_Some look_child [OF assms]
      split: option.splits list.splits)

lemma look_remove:
  assumes "node_find n ps = Some (NDir es)"
  shows "look (node_write ps (NDir (bt_remove x es)) n) qs = (if prefix (ps @ [x]) qs then None else look n qs)"
  by (auto simp: look_write [OF assms] prefix_snoc_strip bt_remove_map_of strip_prefix_Some look_child [OF assms]
      split: option.splits list.splits)

lemma look_up: "look n (ps @ x # rs) \<noteq> None \<Longrightarrow> look n ps = Some SDir"
  by (cases "node_find n ps") (auto simp: look_def node_find_append split: option.splits elim: node_find.elims)

lemma look_no_child: "look n ps \<noteq> Some SDir \<Longrightarrow> look n (ps @ x # rs) = None"
  using look_up by blast

section \<open>The invariant\<close>

text \<open>
  Keys of a directory are in order and so distinct, and no two paths hold the same file: there are
  no hard links.
\<close>

definition keys_sorted :: "mem_node \<Rightarrow> bool" where
  "keys_sorted n \<longleftrightarrow> (\<forall>ps es. node_find n ps = Some (NDir es) \<longrightarrow> sorted_wrt (<) (map fst es))"

definition tree_ok :: "mem_world \<Rightarrow> bool" where
  "tree_ok w \<longleftrightarrow>
     look (mw_root w) [] = Some SDir \<and> keys_sorted (mw_root w) \<and>
     (\<forall>ps b. look (mw_root w) ps = Some (SFile b) \<longrightarrow> b < length (mw_heap w)) \<and>
     (\<forall>ps qs b. look (mw_root w) ps = Some (SFile b) \<longrightarrow> look (mw_root w) qs = Some (SFile b) \<longrightarrow> ps = qs)"

lemma tree_okD:
  assumes "tree_ok w"
  shows "look (mw_root w) [] = Some SDir" "keys_sorted (mw_root w)"
    "look (mw_root w) ps = Some (SFile b) \<Longrightarrow> b < length (mw_heap w)"
    "look (mw_root w) ps = Some (SFile b) \<Longrightarrow> look (mw_root w) qs = Some (SFile b) \<Longrightarrow> ps = qs"
  using assms by (auto simp: tree_ok_def)

lemma keys_sorted_dir:
  "keys_sorted (NDir es) \<longleftrightarrow> sorted_wrt (<) (map fst es) \<and> (\<forall>x c. map_of es x = Some c \<longrightarrow> keys_sorted c)"
proof
  assume k: "keys_sorted (NDir es)"
  have "keys_sorted c" if "map_of es x = Some c" for x c
    unfolding keys_sorted_def
  proof (intro allI impI)
    fix ps fs assume "node_find c ps = Some (NDir fs)"
    then have "node_find (NDir es) (x # ps) = Some (NDir fs)" using that by simp
    then show "sorted_wrt (<) (map fst fs)" using k unfolding keys_sorted_def by blast
  qed
  moreover have "node_find (NDir es) [] = Some (NDir es)" by simp
  then have "sorted_wrt (<) (map fst es)" using k unfolding keys_sorted_def by blast
  ultimately show "sorted_wrt (<) (map fst es) \<and> (\<forall>x c. map_of es x = Some c \<longrightarrow> keys_sorted c)" by blast
next
  assume k: "sorted_wrt (<) (map fst es) \<and> (\<forall>x c. map_of es x = Some c \<longrightarrow> keys_sorted c)"
  show "keys_sorted (NDir es)" unfolding keys_sorted_def
  proof (intro allI impI)
    fix ps fs assume f: "node_find (NDir es) ps = Some (NDir fs)"
    show "sorted_wrt (<) (map fst fs)"
    proof (cases ps)
      case Nil
      with f k show ?thesis by simp
    next
      case (Cons x rs)
      with f obtain c where "map_of es x = Some c" "node_find c rs = Some (NDir fs)" by (auto split: option.splits)
      with k show ?thesis unfolding keys_sorted_def by blast
    qed
  qed
qed

lemma keys_sorted_leaf [simp]: "keys_sorted (NFile b)" "keys_sorted (NLink t)" "keys_sorted (NDir [])"
proof -
  have "node_find (NFile b) ps \<noteq> Some (NDir es)" "node_find (NLink t) ps \<noteq> Some (NDir es)" for ps es
    by (cases ps; simp)+
  then show "keys_sorted (NFile b)" "keys_sorted (NLink t)" by (simp_all add: keys_sorted_def)
  show "keys_sorted (NDir [])" by (simp add: keys_sorted_dir)
qed

lemma keys_sorted_find: "keys_sorted n \<Longrightarrow> node_find n ps = Some c \<Longrightarrow> keys_sorted c"
proof (induction ps arbitrary: n)
  case (Cons p ps)
  then show ?case by (cases n) (auto simp: keys_sorted_dir split: option.splits)
qed simp

lemma keys_sorted_write:
  assumes "node_find n ps = Some (NDir es)" "keys_sorted n" "keys_sorted (NDir es')"
  shows "keys_sorted (node_write ps (NDir es') n)"
  using assms
proof (induction ps arbitrary: n)
  case (Cons p ps)
  then obtain fs c where n: "n = NDir fs" "map_of fs p = Some c" "node_find c ps = Some (NDir es)"
    by (cases n) (auto split: option.splits)
  with Cons show ?case by (auto simp: keys_sorted_dir bt_insert_map_of bt_insert_sorted)
qed simp

lemma keys_sorted_insert: "keys_sorted (NDir es) \<Longrightarrow> keys_sorted c \<Longrightarrow> keys_sorted (NDir (bt_insert x c es))"
  by (auto simp: keys_sorted_dir bt_insert_map_of bt_insert_sorted)

lemma keys_sorted_remove: "keys_sorted (NDir es) \<Longrightarrow> keys_sorted (NDir (bt_remove x es))"
  by (auto simp: keys_sorted_dir bt_remove_map_of bt_remove_sorted split: if_splits)

section \<open>The specification\<close>

text \<open>A filesystem is what each list of names leads to.\<close>

datatype content = Directory | Contents bytes | LinkTo string

type_synonym tree = "string list \<Rightarrow> content option"

fun content_of :: "mem_world \<Rightarrow> shape \<Rightarrow> content" where
  "content_of w SDir = Directory"
| "content_of w (SFile b) = Contents (heap_get w b)"
| "content_of w (SLink t) = LinkTo t"

definition tree_of :: "mem_world \<Rightarrow> tree" where
  "tree_of w ps = map_option (content_of w) (look (mw_root w) ps)"

definition at_leaf :: "string \<Rightarrow> string list" where
  "at_leaf path = above path @ [leaf path]"

definition tree_dir :: "tree \<Rightarrow> string list \<Rightarrow> unit vfs_result" where
  "tree_dir t ps = (case t ps of Some Directory \<Rightarrow> Inr () | Some _ \<Rightarrow> Inl ENOTDIR | None \<Rightarrow> Inl ENOENT)"

definition tree_add :: "string \<Rightarrow> content \<Rightarrow> tree \<Rightarrow> unit vfs_result \<times> tree" where
  "tree_add path c t =
     (if leaf path = [] \<or> t (at_leaf path) \<noteq> None then (Inl EEXIST, t)
      else case tree_dir t (above path) of
        Inl e \<Rightarrow> (Inl e, t)
      | Inr _ \<Rightarrow> (Inr (), t(at_leaf path := Some c)))"

definition tree_unlink :: "string \<Rightarrow> tree \<Rightarrow> unit vfs_result \<times> tree" where
  "tree_unlink path t =
     (case tree_dir t (above path) of
        Inl e \<Rightarrow> (Inl e, t)
      | Inr _ \<Rightarrow>
          (case t (at_leaf path) of
             None \<Rightarrow> (Inl ENOENT, t)
           | Some Directory \<Rightarrow> (Inl EISDIR, t)
           | Some _ \<Rightarrow> (Inr (), t(at_leaf path := None))))"

definition tree_rmdir :: "string \<Rightarrow> tree \<Rightarrow> unit vfs_result \<times> tree" where
  "tree_rmdir path t =
     (case tree_dir t (above path) of
        Inl e \<Rightarrow> (Inl e, t)
      | Inr _ \<Rightarrow>
          (case t (at_leaf path) of
             None \<Rightarrow> (Inl ENOENT, t)
           | Some Directory \<Rightarrow>
               if \<forall>x. t (at_leaf path @ [x]) = None then (Inr (), t(at_leaf path := None))
               else (Inl ENOTEMPTY, t)
           | Some _ \<Rightarrow> (Inl ENOTDIR, t)))"

text \<open>A rename moves what is at and below a path, and replaces whatever the new path led to.\<close>

definition tree_without :: "string list \<Rightarrow> tree \<Rightarrow> tree" where
  "tree_without ps t = (\<lambda>q. if prefix ps q then None else t q)"

definition tree_rename :: "string \<Rightarrow> string \<Rightarrow> tree \<Rightarrow> unit vfs_result \<times> tree" where
  "tree_rename old new t =
     (if leaf old = [] \<or> leaf new = [] then (Inl EINVAL, t)
      else case tree_dir t (above old) of
        Inl e \<Rightarrow> (Inl e, t)
      | Inr _ \<Rightarrow>
          if t (at_leaf old) = None then (Inl ENOENT, t)
          else case tree_dir (tree_without (at_leaf old) t) (above new) of
            Inl e \<Rightarrow> (Inl e, t)
          | Inr _ \<Rightarrow>
              (Inr (), \<lambda>q. if prefix (at_leaf new) q then t (at_leaf old @ drop (length (at_leaf new)) q)
                         else tree_without (at_leaf old) t q))"

definition tree_open :: "string \<Rightarrow> open_options \<Rightarrow> tree \<Rightarrow> unit vfs_result \<times> tree" where
  "tree_open path opts t =
     (if leaf path = [] then (Inl EISDIR, t)
      else case t (at_leaf path) of
        Some Directory \<Rightarrow> (Inl EISDIR, t)
      | Some (LinkTo _) \<Rightarrow> (Inl ELOOP, t)
      | Some (Contents _) \<Rightarrow>
          if oo_create_new opts then (Inl EEXIST, t)
          else (Inr (), if oo_truncate opts \<and> oo_write opts then t(at_leaf path := Some (Contents [])) else t)
      | None \<Rightarrow>
          if \<not> oo_create opts \<and> \<not> oo_create_new opts then (Inl ENOENT, t)
          else case tree_dir t (above path) of
            Inl e \<Rightarrow> (Inl e, t)
          | Inr _ \<Rightarrow> (Inr (), t(at_leaf path := Some (Contents []))))"

fun tree_dirs :: "string list \<Rightarrow> string list \<Rightarrow> tree \<Rightarrow> tree" where
  "tree_dirs made [] t = t"
| "tree_dirs made (p # ps) t =
     (if t made = Some Directory
      then tree_dirs (made @ [p]) ps (if t (made @ [p]) = None then t(made @ [p] := Some Directory) else t)
      else t)"

definition tree_mkdir_all :: "string \<Rightarrow> tree \<Rightarrow> unit vfs_result \<times> tree" where
  "tree_mkdir_all path t = (Inr (), tree_dirs [] (path_parts path) t)"

text \<open>Setting the length of an open file, which is at some of the paths, or at none once it is unlinked.\<close>

definition tree_set_len :: "bool \<Rightarrow> (string list \<Rightarrow> bool) \<Rightarrow> nat \<Rightarrow> tree \<Rightarrow> unit vfs_result \<times> tree" where
  "tree_set_len rw at n t =
     (if \<not> rw then (Inl EBADF, t)
      else (Inr (), \<lambda>p. case t p of
          Some (Contents d) \<Rightarrow> if at p then Some (Contents (take n d @ replicate (n - length d) 0)) else t p
        | c \<Rightarrow> c))"

definition tree_write_file :: "string \<Rightarrow> bytes \<Rightarrow> tree \<Rightarrow> unit vfs_result \<times> tree" where
  "tree_write_file path contents t =
     (if leaf path = [] then (Inl EISDIR, t)
      else let t1 = tree_dirs [] (above path) t in
        case tree_dir t1 (above path) of
          Inl e \<Rightarrow> (Inl e, t1)
        | Inr _ \<Rightarrow>
            (case t1 (at_leaf path) of
               Some Directory \<Rightarrow> (Inl EISDIR, t1)
             | Some (LinkTo _) \<Rightarrow> (Inl EISDIR, t1)
             | _ \<Rightarrow> (Inr (), t1(at_leaf path := Some (Contents contents)))))"

end
