(* ===== verification/Mem_Refine.thy ===== *)
theory Mem_Refine
  imports Mem_Tree
begin

text \<open>The operations of \<open>vfs/mem.rs\<close> refine the updates of \<open>Mem_Tree\<close>.\<close>

section \<open>Changes of the tree and of a file\<close>

lemma dir_mut_at:
  "dir_mut n (fst (split_parent path)) =
     (case node_find n (above path) of Some (NDir es) \<Rightarrow> Inr es | Some _ \<Rightarrow> Inl ENOTDIR | None \<Rightarrow> Inl ENOENT)"
  by (simp add: dir_mut_def find_def above_def)

lemma tree_dir_at:
  "tree_dir (tree_of w) (above path) = (case dir_mut (mw_root w) (fst (split_parent path)) of Inl e \<Rightarrow> Inl e | Inr _ \<Rightarrow> Inr ())"
  by (auto simp: tree_dir_def tree_of_def look_def dir_mut_at split: option.splits mem_node.splits)

lemma dir_mut_Inr: "dir_mut n (fst (split_parent path)) = Inr es \<longleftrightarrow> node_find n (above path) = Some (NDir es)"
  by (auto simp: dir_mut_at split: option.splits mem_node.splits)

lemma dir_set_at: "dir_set (fst (split_parent path)) es n = node_write (above path) (NDir es) n"
  by (simp add: dir_set_def above_def)

lemma leaf_found: "leaf path \<noteq> [] \<Longrightarrow> find n path = node_find n (at_leaf path)"
  by (simp add: find_def at_leaf_def path_parts_leaf)

lemma entry_at:
  "node_find n (above path) = Some (NDir es) \<Longrightarrow> node_find n (at_leaf path) = map_of es (leaf path)"
  by (simp add: at_leaf_def node_find_append split: option.splits)

lemma tree_at: "tree_of w ps = map_option (content_of w) (map_option shape_of (node_find (mw_root w) ps))"
  by (simp add: tree_of_def look_def)

lemma at_leaf_ne [simp]: "at_leaf path \<noteq> []"
  by (simp add: at_leaf_def)

definition childless :: "mem_node \<Rightarrow> bool" where
  "childless c \<longleftrightarrow> (\<forall>es. c = NDir es \<longrightarrow> es = [])"

lemma childless_look: "childless c \<Longrightarrow> look c (x # rs) = None"
  by (cases c) (auto simp: childless_def)

lemma prefix_below: "prefix ps qs \<Longrightarrow> qs \<noteq> ps \<Longrightarrow> \<exists>x rs. qs = ps @ x # rs"
  by (metis append_Nil2 neq_Nil_conv prefix_def)

lemma look_put:
  assumes "node_find n (above path) = Some (NDir es)" "childless c" "look n (at_leaf path) \<noteq> Some SDir"
  shows "look (node_write (above path) (NDir (bt_insert (leaf path) c es)) n) = (look n)(at_leaf path := Some (shape_of c))"
proof
  fix qs
  show "look (node_write (above path) (NDir (bt_insert (leaf path) c es)) n) qs = ((look n)(at_leaf path := Some (shape_of c))) qs"
  proof (cases "prefix (at_leaf path) qs \<and> qs \<noteq> at_leaf path")
    case True
    then obtain x rs where q: "qs = at_leaf path @ x # rs" using prefix_below by blast
    have "look n qs = None" using look_no_child [OF assms(3)] q by simp
    then show ?thesis using assms(2) q
      by (simp add: look_insert [OF assms(1)] childless_look at_leaf_def)
  qed (auto simp: look_insert [OF assms(1)] at_leaf_def)
qed

lemma look_take:
  assumes "node_find n (above path) = Some (NDir es)" "\<And>c. map_of es (leaf path) = Some c \<Longrightarrow> childless c"
  shows "look (node_write (above path) (NDir (bt_remove (leaf path) es)) n) = (look n)(at_leaf path := None)"
proof
  fix qs
  show "look (node_write (above path) (NDir (bt_remove (leaf path) es)) n) qs = ((look n)(at_leaf path := None)) qs"
  proof (cases "prefix (at_leaf path) qs \<and> qs \<noteq> at_leaf path")
    case True
    then obtain x rs where q: "qs = at_leaf path @ x # rs" using prefix_below by blast
    have "look n qs = None"
      using assms(2) childless_look by (auto simp: q at_leaf_def look_child [OF assms(1)] split: option.splits)
    then show ?thesis using q by (simp add: look_remove [OF assms(1)] at_leaf_def)
  qed (auto simp: look_remove [OF assms(1)] at_leaf_def)
qed

text \<open>What keeps the invariant: moving files, a new file, new contents.\<close>

lemma tree_ok_moved:
  assumes "tree_ok w" "look root [] = Some SDir" "keys_sorted root"
    and "\<And>q b. look root q = Some (SFile b) \<Longrightarrow> look (mw_root w) (src q) = Some (SFile b)"
    and "inj_on src {q. \<exists>b. look root q = Some (SFile b)}"
  shows "tree_ok (w\<lparr>mw_root := root\<rparr>)"
proof -
  have "p = q" if "look root p = Some (SFile b)" "look root q = Some (SFile b)" for p q b
  proof -
    have "src p = src q" using tree_okD(4) [OF assms(1) assms(4) [OF that(1)] assms(4) [OF that(2)]] .
    then show ?thesis using assms(5) that unfolding inj_on_def by blast
  qed
  then show ?thesis using assms(2,3) tree_okD(3) [OF assms(1) assms(4)] unfolding tree_ok_def by auto
qed

lemma tree_ok_upd:
  assumes "tree_ok w" "keys_sorted root" "look root = (look (mw_root w))(p := s)" "p \<noteq> []" "\<And>b. s \<noteq> Some (SFile b)"
  shows "tree_ok (w\<lparr>mw_root := root\<rparr>)"
    and "tree_of (w\<lparr>mw_root := root\<rparr>) = (tree_of w)(p := map_option (content_of w) s)"
proof -
  show "tree_ok (w\<lparr>mw_root := root\<rparr>)"
  proof (rule tree_ok_moved [where src = "\<lambda>q. q"])
    show "look root [] = Some SDir" using assms(3,4) tree_okD(1) [OF assms(1)] by (simp del: look_simps)
    show "look (mw_root w) q = Some (SFile b)" if "look root q = Some (SFile b)" for q b
      using that assms(3) assms(5) [of b] by (simp del: look_simps split: if_splits)
  qed (simp_all add: assms)
  have "content_of (w\<lparr>mw_root := root\<rparr>) = content_of w"
    by (rule ext, rename_tac x, case_tac x) (simp_all add: heap_get_def)
  then show "tree_of (w\<lparr>mw_root := root\<rparr>) = (tree_of w)(p := map_option (content_of w) s)"
    using assms(3) by (intro ext) (simp add: tree_of_def del: look_simps)
qed

lemma content_of_eq:
  "(\<And>b. s = SFile b \<Longrightarrow> heap_get w b = heap_get w' b) \<Longrightarrow> content_of w s = content_of w' s"
  by (cases s) simp_all

lemma tree_ok_new:
  assumes "tree_ok w" "keys_sorted root" "p \<noteq> []"
    and "look root = (look (mw_root w))(p := Some (SFile (length (mw_heap w))))"
  shows "tree_ok (w\<lparr>mw_root := root, mw_heap := mw_heap w @ [d]\<rparr>)"
    and "tree_of (w\<lparr>mw_root := root, mw_heap := mw_heap w @ [d]\<rparr>) = (tree_of w)(p := Some (Contents d))"
proof -
  let ?w = "w\<lparr>mw_root := root, mw_heap := mw_heap w @ [d]\<rparr>"
  note old = tree_okD(3) [OF assms(1)]
  show "tree_ok ?w"
    unfolding tree_ok_def
  proof (intro conjI allI impI)
    show "look (mw_root ?w) [] = Some SDir" using assms(3,4) tree_okD(1) [OF assms(1)] by (simp del: look_simps)
    show "keys_sorted (mw_root ?w)" using assms(2) by simp
    show "b < length (mw_heap ?w)" if "look (mw_root ?w) ps = Some (SFile b)" for ps b
      using that assms(4) old [of ps b] by (auto simp del: look_simps split: if_splits)
    show "ps = qs" if "look (mw_root ?w) ps = Some (SFile b)" "look (mw_root ?w) qs = Some (SFile b)" for ps qs b
      using that assms(4) old [of ps b] old [of qs b] tree_okD(4) [OF assms(1), of ps b qs]
      by (auto simp del: look_simps split: if_splits)
  qed
  have "heap_get ?w b = heap_get w b" if "b < length (mw_heap w)" for b
    using that by (simp add: heap_get_def get_at_def nth_append)
  moreover have "heap_get ?w (length (mw_heap w)) = d" by (simp add: heap_get_def get_at_def)
  ultimately show "tree_of ?w = (tree_of w)(p := Some (Contents d))"
    using assms(4) old
    by (auto simp: tree_of_def fun_eq_iff simp del: look_simps intro!: content_of_eq option.map_cong0 split: option.splits)
qed

lemma tree_ok_store:
  assumes "tree_ok w" "look (mw_root w) p = Some (SFile b)"
  shows "tree_ok (w\<lparr>mw_heap := (mw_heap w)[b := d]\<rparr>)"
    and "tree_of (w\<lparr>mw_heap := (mw_heap w)[b := d]\<rparr>) = (tree_of w)(p := Some (Contents d))"
proof -
  let ?w = "w\<lparr>mw_heap := (mw_heap w)[b := d]\<rparr>"
  show "tree_ok ?w" using assms(1) unfolding tree_ok_def by simp
  have "b < length (mw_heap w)" by (rule tree_okD(3) [OF assms])
  then have b: "heap_get ?w b = d" by (simp add: heap_get_def get_at_def)
  have "heap_get ?w c = heap_get w c" if "c \<noteq> b" for c
    using that by (simp add: heap_get_def get_at_def)
  moreover have "c \<noteq> b" if "look (mw_root w) q = Some (SFile c)" "q \<noteq> p" for q c
    using that assms(2) tree_okD(4) [OF assms(1)] by blast
  ultimately show "tree_of ?w = (tree_of w)(p := Some (Contents d))"
    using assms(2) b
    by (auto simp: tree_of_def fun_eq_iff simp del: look_simps intro!: content_of_eq option.map_cong0 split: option.splits)
qed

section \<open>Operations\<close>

definition refines_at ::
  "(mem_world \<Rightarrow> 'a vfs_result \<times> mem_world) \<Rightarrow> (tree \<Rightarrow> unit vfs_result \<times> tree) \<Rightarrow> mem_world \<Rightarrow> bool" where
  "refines_at f g w \<longleftrightarrow>
     (case f w of (r, w') \<Rightarrow> tree_ok w' \<and>
        g (tree_of w) = (case r of Inl e \<Rightarrow> Inl e | Inr _ \<Rightarrow> Inr (), tree_of w'))"

lemma refines_same: "tree_ok w \<Longrightarrow> f w = (Inl e, w) \<Longrightarrow> g (tree_of w) = (Inl e, tree_of w) \<Longrightarrow> refines_at f g w"
  by (simp add: refines_at_def)

lemma sorted_at:
  assumes "tree_ok w" "node_find (mw_root w) ps = Some (NDir es)"
  shows "keys_sorted (NDir es)"
  by (rule keys_sorted_find [OF tree_okD(2) [OF assms(1)] assms(2)])

text \<open>A new entry without children under a free name.\<close>

lemma add_refines:
  assumes "tree_ok w" "childless c" "keys_sorted c" "\<And>b. c \<noteq> NFile b"
    and f: "f w = (if leaf path = [] then (Inl EEXIST, w)
      else if find (mw_root w) path \<noteq> None then (Inl EEXIST, w)
      else case dir_mut (mw_root w) (fst (split_parent path)) of
        Inl e \<Rightarrow> (Inl e, w)
      | Inr es \<Rightarrow> (Inr (), w\<lparr>mw_root := dir_set (fst (split_parent path)) (bt_insert (leaf path) c es) (mw_root w)\<rparr>))"
  shows "refines_at f (tree_add path (content_of w (shape_of c))) w"
proof (cases "leaf path = [] \<or> node_find (mw_root w) (at_leaf path) \<noteq> None")
  case True
  then show ?thesis using assms(1)
    by (auto simp: f leaf_found tree_add_def tree_at intro!: refines_same)
next
  case False
  show ?thesis
  proof (cases "dir_mut (mw_root w) (fst (split_parent path))")
    case (Inl e)
    then show ?thesis using assms(1) False
      by (intro refines_same) (auto simp: f leaf_found tree_add_def tree_at [of w "at_leaf path"] tree_dir_at)
  next
    case (Inr es)
    then have es: "node_find (mw_root w) (above path) = Some (NDir es)" by (simp add: dir_mut_Inr)
    define root where "root = node_write (above path) (NDir (bt_insert (leaf path) c es)) (mw_root w)"
    have l: "look root = (look (mw_root w))(at_leaf path := Some (shape_of c))"
      unfolding root_def using False by (intro look_put es assms(2)) (simp add: look_def)
    have k: "keys_sorted root"
      unfolding root_def by (intro keys_sorted_write [OF es] tree_okD(2) keys_sorted_insert sorted_at [OF _ es] assms)
    have s: "Some (shape_of c) \<noteq> Some (SFile b)" for b using assms(4) by (cases c) auto
    note upd = tree_ok_upd [OF assms(1) k l at_leaf_ne s]
    have "f w = (Inr (), w\<lparr>mw_root := root\<rparr>)"
      using False Inr by (simp add: f leaf_found dir_set_at root_def)
    moreover have "tree_add path (content_of w (shape_of c)) (tree_of w) =
        (Inr (), (tree_of w)(at_leaf path := Some (content_of w (shape_of c))))"
      using False Inr by (simp add: tree_add_def tree_dir_at tree_at [of w "at_leaf path"])
    ultimately show ?thesis using upd by (simp add: refines_at_def)
  qed
qed

lemma mkdir_refines: "tree_ok w \<Longrightarrow> refines_at (mem_mkdir path md) (tree_add path Directory) w"
  using add_refines [of w "NDir []" "mem_mkdir path md" path, simplified]
  unfolding mem_mkdir_def Let_def leaf_def split_beta by (simp add: childless_def)

lemma symlink_refines: "tree_ok w \<Longrightarrow> refines_at (mem_symlink target path) (tree_add path (LinkTo target)) w"
  using add_refines [of w "NLink target" "mem_symlink target path" path, simplified]
  unfolding mem_symlink_def Let_def leaf_def split_beta by (simp add: childless_def)

text \<open>An entry without children goes.\<close>

lemma take_refines:
  assumes "tree_ok w" "node_find (mw_root w) (above path) = Some (NDir es)"
    and "\<And>c. map_of es (leaf path) = Some c \<Longrightarrow> childless c"
    and "root = dir_set (fst (split_parent path)) (bt_remove (leaf path) es) (mw_root w)"
  shows "tree_ok (w\<lparr>mw_root := root\<rparr>)" "tree_of (w\<lparr>mw_root := root\<rparr>) = (tree_of w)(at_leaf path := None)"
proof -
  have l: "look root = (look (mw_root w))(at_leaf path := None)"
    unfolding assms(4) dir_set_at by (rule look_take [OF assms(2,3)])
  have k: "keys_sorted root"
    unfolding assms(4) dir_set_at
    by (intro keys_sorted_write [OF assms(2)] tree_okD(2) keys_sorted_remove sorted_at [OF _ assms(2)] assms(1))
  show "tree_ok (w\<lparr>mw_root := root\<rparr>)" "tree_of (w\<lparr>mw_root := root\<rparr>) = (tree_of w)(at_leaf path := None)"
    using tree_ok_upd [OF assms(1) k l at_leaf_ne] by simp_all
qed

lemma unlink_refines:
  assumes ok: "tree_ok w"
  shows "refines_at (mem_unlink path) (tree_unlink path) w"
proof (cases "dir_mut (mw_root w) (fst (split_parent path))")
  case (Inl e)
  then show ?thesis using ok
    by (simp add: refines_at_def mem_unlink_def tree_unlink_def tree_dir_at split_beta)
next
  case (Inr es)
  then have es: "node_find (mw_root w) (above path) = Some (NDir es)" by (simp add: dir_mut_Inr)
  have t: "tree_of w (at_leaf path) = map_option (content_of w) (map_option shape_of (map_of es (leaf path)))"
    by (simp add: tree_at entry_at [OF es])
  show ?thesis
  proof (cases "\<exists>c. map_of es (leaf path) = Some c \<and> (\<forall>fs. c \<noteq> NDir fs)")
    case True
    then obtain c where c: "map_of es (leaf path) = Some c" "\<And>fs. c \<noteq> NDir fs" by blast
    then have "\<And>c'. map_of es (leaf path) = Some c' \<Longrightarrow> childless c'" by (simp add: childless_def)
    note take = take_refines [OF ok es this refl]
    show ?thesis using ok Inr take t c
      by (cases c) (simp_all add: refines_at_def mem_unlink_def tree_unlink_def tree_dir_at split_beta leaf_def)
  next
    case False
    then show ?thesis using ok Inr t
      by (auto simp: refines_at_def mem_unlink_def tree_unlink_def tree_dir_at split_beta leaf_def
          split: option.splits mem_node.splits)
  qed
qed

lemma empty_dir_at:
  assumes "node_find n ps = Some (NDir es)"
  shows "(\<forall>x. look n (ps @ [x]) = None) \<longleftrightarrow> es = []"
proof -
  have "look n (ps @ [x]) = map_option shape_of (map_of es x)" for x
    by (simp add: look_child [OF assms] split: option.splits)
  then show ?thesis
    by (cases es) (auto dest: spec [of _ "fst (hd es)"])
qed

lemma rmdir_refines:
  assumes ok: "tree_ok w"
  shows "refines_at (mem_rmdir path) (tree_rmdir path) w"
proof (cases "dir_mut (mw_root w) (fst (split_parent path))")
  case (Inl e)
  then show ?thesis using ok
    by (simp add: refines_at_def mem_rmdir_def tree_rmdir_def tree_dir_at split_beta)
next
  case (Inr es)
  then have es: "node_find (mw_root w) (above path) = Some (NDir es)" by (simp add: dir_mut_Inr)
  have t: "tree_of w (at_leaf path) = map_option (content_of w) (map_option shape_of (map_of es (leaf path)))"
    by (simp add: tree_at entry_at [OF es])
  show ?thesis
  proof (cases "\<exists>fs. map_of es (leaf path) = Some (NDir fs)")
    case True
    then obtain fs where fs: "map_of es (leaf path) = Some (NDir fs)" by blast
    then have "node_find (mw_root w) (at_leaf path) = Some (NDir fs)" by (simp add: entry_at [OF es])
    note e = empty_dir_at [OF this]
    have "(\<forall>x. tree_of w (at_leaf path @ [x]) = None) \<longleftrightarrow> fs = []" using e by (simp add: tree_of_def)
    moreover have "childless c" if "fs = []" "map_of es (leaf path) = Some c" for c
      using that fs by (auto simp: childless_def)
    note take = take_refines [OF ok es this refl]
    ultimately show ?thesis using ok Inr take t fs
      by (auto simp: refines_at_def mem_rmdir_def tree_rmdir_def tree_dir_at split_beta leaf_def)
  next
    case False
    then show ?thesis using ok Inr t
      by (auto simp: refines_at_def mem_rmdir_def tree_rmdir_def tree_dir_at split_beta leaf_def
          split: option.splits mem_node.splits)
  qed
qed

text \<open>Moving a node: what is at and below the old path appears at and below the new one.\<close>

lemma without_root: "look (mw_root w) [] = Some SDir \<Longrightarrow> tree_without (at_leaf old) t [] = t []"
  by (simp add: tree_without_def at_leaf_def)

lemma tree_of_cong: "look (mw_root w) = look (mw_root w') \<Longrightarrow> mw_heap w = mw_heap w' \<Longrightarrow> tree_of w = tree_of w'"
  by (rule ext) (auto simp: tree_of_def heap_get_def simp del: look_simps intro!: content_of_eq option.map_cong0)

lemma tree_of_same_heap:
  "mw_heap w' = mw_heap w \<Longrightarrow> tree_of w' q = map_option (content_of w) (look (mw_root w') q)"
  by (auto simp: tree_of_def heap_get_def simp del: look_simps intro!: content_of_eq option.map_cong0)

lemma look_removed:
  assumes "node_find n (above path) = Some (NDir es)"
  shows "look (dir_set (fst (split_parent path)) (bt_remove (leaf path) es) n) q =
    (if prefix (at_leaf path) q then None else look n q)"
  by (simp add: dir_set_at look_remove [OF assms] at_leaf_def)

lemma look_inserted:
  assumes "node_find n (above path) = Some (NDir es)"
  shows "look (dir_set (fst (split_parent path)) (bt_insert (leaf path) c es) n) q =
    (if prefix (at_leaf path) q then look c (drop (length (at_leaf path)) q) else look n q)"
  by (simp add: dir_set_at look_insert [OF assms] at_leaf_def)

lemma keys_sorted_removed:
  assumes "node_find n (above path) = Some (NDir es)" "keys_sorted n"
  shows "keys_sorted (dir_set (fst (split_parent path)) (bt_remove (leaf path) es) n)"
  unfolding dir_set_at by (rule keys_sorted_write [OF assms keys_sorted_remove [OF keys_sorted_find [OF assms(2,1)]]])

lemma keys_sorted_inserted:
  assumes "node_find n (above path) = Some (NDir es)" "keys_sorted n" "keys_sorted c"
  shows "keys_sorted (dir_set (fst (split_parent path)) (bt_insert (leaf path) c es) n)"
  unfolding dir_set_at
  by (rule keys_sorted_write [OF assms(1,2) keys_sorted_insert [OF keys_sorted_find [OF assms(2,1)] assms(3)]])

lemma moved_ok:
  assumes ok: "tree_ok w" and look1: "\<And>q. look root1 q = (if prefix (at_leaf old) q then None else look (mw_root w) q)"
    and k1: "keys_sorted root1" and n: "node_find (mw_root w) (at_leaf old) = Some n"
    and es': "node_find root1 (above new) = Some (NDir es')"
    and root2: "root2 = dir_set (fst (split_parent new)) (bt_insert (leaf new) n es') root1"
  shows "tree_ok (w\<lparr>mw_root := root2\<rparr>)"
    and "tree_of (w\<lparr>mw_root := root2\<rparr>) =
      (\<lambda>q. if prefix (at_leaf new) q then tree_of w (at_leaf old @ drop (length (at_leaf new)) q)
           else tree_without (at_leaf old) (tree_of w) q)"
proof -
  have kn: "keys_sorted n" by (rule keys_sorted_find [OF tree_okD(2) [OF ok] n])
  have look2: "look root2 q =
      (if prefix (at_leaf new) q then look (mw_root w) (at_leaf old @ drop (length (at_leaf new)) q) else look root1 q)" for q
    unfolding root2 by (simp add: look_inserted [OF es'] look_below [OF n])
  define src where "src q = (if prefix (at_leaf new) q then at_leaf old @ drop (length (at_leaf new)) q else q)" for q
  show "tree_ok (w\<lparr>mw_root := root2\<rparr>)"
  proof (rule tree_ok_moved [OF ok, where src = src])
    show "look root2 [] = Some SDir"
      using tree_okD(1) [OF ok] by (simp add: look2 look1 at_leaf_def del: look_simps)
    show "keys_sorted root2" unfolding root2 by (rule keys_sorted_inserted [OF es' k1 kn])
    show "look (mw_root w) (src q) = Some (SFile b)" if "look root2 q = Some (SFile b)" for q b
      using that by (simp add: look2 look1 src_def del: look_simps split: if_splits)
    show "inj_on src {q. \<exists>b. look root2 q = Some (SFile b)}"
      by (auto simp: inj_on_def look2 look1 src_def prefix_def simp del: look_simps split: if_splits)
        (metis same_append_eq)
  qed
  show "tree_of (w\<lparr>mw_root := root2\<rparr>) =
      (\<lambda>q. if prefix (at_leaf new) q then tree_of w (at_leaf old @ drop (length (at_leaf new)) q)
           else tree_without (at_leaf old) (tree_of w) q)"
    by (rule ext) (simp add: tree_of_same_heap [of "w\<lparr>mw_root := root2\<rparr>" w] look2 look1 tree_without_def
        tree_of_def [of w] del: look_simps)
qed

lemma restored_ok:
  assumes ok: "tree_ok w" and look1: "\<And>q. look root1 q = (if prefix (at_leaf old) q then None else look (mw_root w) q)"
    and k1: "keys_sorted root1" and n: "node_find (mw_root w) (at_leaf old) = Some n"
    and es: "node_find root1 (above old) = Some (NDir es)"
    and root2: "root2 = dir_set (fst (split_parent old)) (bt_insert (leaf old) n es) root1"
  shows "tree_ok (w\<lparr>mw_root := root2\<rparr>)" "tree_of (w\<lparr>mw_root := root2\<rparr>) = tree_of w"
proof -
  have look2: "look root2 = look (mw_root w)"
    unfolding root2
    by (rule ext) (auto simp: look_inserted [OF es] look_below [OF n, symmetric] look1 prefix_def simp del: look_simps)
  have "keys_sorted root2"
    unfolding root2 by (rule keys_sorted_inserted [OF es k1 keys_sorted_find [OF tree_okD(2) [OF ok] n]])
  then show "tree_ok (w\<lparr>mw_root := root2\<rparr>)" using ok look2 unfolding tree_ok_def by simp
  show "tree_of (w\<lparr>mw_root := root2\<rparr>) = tree_of w" using look2 by (intro tree_of_cong) simp_all
qed

lemma rename_found:
  assumes ok: "tree_ok w" and names: "leaf old \<noteq> []" "leaf new \<noteq> []"
    and d: "dir_mut (mw_root w) (fst (split_parent old)) = Inr es" and c: "map_of es (leaf old) = Some n"
  shows "refines_at (mem_rename old new) (tree_rename old new) w"
proof -
  have es: "node_find (mw_root w) (above old) = Some (NDir es)" using d by (simp add: dir_mut_Inr)
  have n: "node_find (mw_root w) (at_leaf old) = Some n" using c by (simp add: entry_at [OF es])
  define root1 where "root1 = dir_set (fst (split_parent old)) (bt_remove (leaf old) es) (mw_root w)"
  have look1: "look root1 q = (if prefix (at_leaf old) q then None else look (mw_root w) q)" for q
    unfolding root1_def by (rule look_removed [OF es])
  have k1: "keys_sorted root1" unfolding root1_def by (rule keys_sorted_removed [OF es tree_okD(2) [OF ok]])
  have "tree_of (w\<lparr>mw_root := root1\<rparr>) = tree_without (at_leaf old) (tree_of w)"
    by (rule ext) (simp add: tree_of_same_heap [of "w\<lparr>mw_root := root1\<rparr>" w] look1 tree_without_def
        tree_of_def [of w] del: look_simps)
  then have td: "tree_dir (tree_without (at_leaf old) (tree_of w)) (above new) =
      (case dir_mut root1 (fst (split_parent new)) of Inl e \<Rightarrow> Inl e | Inr _ \<Rightarrow> Inr ())"
    using tree_dir_at [of "w\<lparr>mw_root := root1\<rparr>" new] by simp
  obtain y where there: "tree_of w (at_leaf old) = Some y" by (simp add: tree_at n)
  show ?thesis
  proof (cases "dir_mut root1 (fst (split_parent new))")
    case (Inr es')
    then have es': "node_find root1 (above new) = Some (NDir es')" by (simp add: dir_mut_Inr)
    note m = moved_ok [OF ok look1 k1 n es' refl]
    have "mem_rename old new w =
        (Inr (), w\<lparr>mw_root := dir_set (fst (split_parent new)) (bt_insert (leaf new) n es') root1\<rparr>)"
      using names c d Inr unfolding mem_rename_def leaf_def split_beta Let_def root1_def by simp
    then show ?thesis using names there td Inr d m by (simp add: refines_at_def tree_rename_def tree_dir_at)
  next
    case (Inl e)
    have "look root1 (above old) = Some SDir" using es by (simp add: look1 look_SDir at_leaf_def prefix_def)
    then obtain es1 where es1: "node_find root1 (above old) = Some (NDir es1)" by (auto simp: look_SDir)
    note m = restored_ok [OF ok look1 k1 n es1 refl]
    have "mem_rename old new w =
        (Inl e, w\<lparr>mw_root := dir_set (fst (split_parent old)) (bt_insert (leaf old) n es1) root1\<rparr>)"
      using names c d Inl es1 dir_mut_Inr [of root1 old es1]
      unfolding mem_rename_def leaf_def split_beta Let_def root1_def by simp
    then show ?thesis using names there td Inl d m by (simp add: refines_at_def tree_rename_def tree_dir_at)
  qed
qed

lemma rename_refines:
  assumes ok: "tree_ok w"
  shows "refines_at (mem_rename old new) (tree_rename old new) w"
proof (cases "leaf old = [] \<or> leaf new = []")
  case True
  then show ?thesis using ok
    by (auto simp: refines_at_def mem_rename_def tree_rename_def leaf_def split_beta)
next
  case names: False
  show ?thesis
  proof (cases "dir_mut (mw_root w) (fst (split_parent old))")
    case (Inl e)
    then show ?thesis using ok names
      by (auto simp: refines_at_def mem_rename_def tree_rename_def tree_dir_at leaf_def split_beta)
  next
    case (Inr es)
    then have "node_find (mw_root w) (above old) = Some (NDir es)" by (simp add: dir_mut_Inr)
    then have t: "tree_of w (at_leaf old) = map_option (content_of w) (map_option shape_of (map_of es (leaf old)))"
      by (simp add: tree_at entry_at)
    show ?thesis
    proof (cases "map_of es (leaf old)")
      case None
      then show ?thesis using ok names Inr t
        by (simp add: refines_at_def mem_rename_def tree_rename_def tree_dir_at leaf_def split_beta)
    next
      case (Some n)
      then show ?thesis using names Inr by (intro rename_found [OF ok]) simp_all
    qed
  qed
qed

text \<open>Opening, which may create or empty a file.\<close>

lemma new_file_refines:
  assumes ok: "tree_ok w" and es: "node_find (mw_root w) (above path) = Some (NDir es)"
    and free: "look (mw_root w) (at_leaf path) \<noteq> Some SDir"
    and root: "root = dir_set (fst (split_parent path)) (bt_insert (leaf path) (NFile (length (mw_heap w))) es) (mw_root w)"
  shows "tree_ok (w\<lparr>mw_root := root, mw_heap := mw_heap w @ [d]\<rparr>)"
    and "tree_of (w\<lparr>mw_root := root, mw_heap := mw_heap w @ [d]\<rparr>) = (tree_of w)(at_leaf path := Some (Contents d))"
proof -
  have l: "look root = (look (mw_root w))(at_leaf path := Some (SFile (length (mw_heap w))))"
    using look_put [OF es _ free, of "NFile (length (mw_heap w))"] by (simp add: root dir_set_at childless_def)
  have k: "keys_sorted root" unfolding root by (rule keys_sorted_inserted [OF es tree_okD(2) [OF ok]]) simp
  show "tree_ok (w\<lparr>mw_root := root, mw_heap := mw_heap w @ [d]\<rparr>)"
    and "tree_of (w\<lparr>mw_root := root, mw_heap := mw_heap w @ [d]\<rparr>) = (tree_of w)(at_leaf path := Some (Contents d))"
    using tree_ok_new [OF ok k at_leaf_ne l] by simp_all
qed

lemma open_refines:
  assumes ok: "tree_ok w"
  shows "refines_at (mem_open path opts) (tree_open path opts) w"
proof (cases "leaf path = []")
  case True
  then show ?thesis using ok by (simp add: refines_at_def mem_open_def tree_open_def leaf_def split_beta Let_def)
next
  case name: False
  have f: "find (mw_root w) path = node_find (mw_root w) (at_leaf path)" using name by (rule leaf_found)
  show ?thesis
  proof (cases "node_find (mw_root w) (at_leaf path)")
    case None
    then have t: "tree_of w (at_leaf path) = None" by (simp add: tree_at)
    show ?thesis
    proof (cases "dir_mut (mw_root w) (fst (split_parent path))")
      case (Inl e)
      then show ?thesis using ok name f t None
        by (simp add: refines_at_def mem_open_def tree_open_def tree_dir_at leaf_def split_beta Let_def)
    next
      case (Inr es)
      then have es: "node_find (mw_root w) (above path) = Some (NDir es)" by (simp add: dir_mut_Inr)
      have "look (mw_root w) (at_leaf path) \<noteq> Some SDir" using None by (simp add: look_def)
      note new = new_file_refines [OF ok es this refl, of "[]"]
      show ?thesis using ok name f t None Inr new
        unfolding mem_open_def leaf_def split_beta Let_def
        by (simp add: refines_at_def tree_open_def tree_dir_at leaf_def)
    qed
  next
    case (Some n)
    have t: "tree_of w (at_leaf path) = Some (content_of w (shape_of n))" using Some by (simp add: tree_at)
    show ?thesis
    proof (cases n)
      case (NFile b)
      then have "look (mw_root w) (at_leaf path) = Some (SFile b)" using Some by (simp add: look_def)
      note store = tree_ok_store [OF ok this, of "[]"]
      show ?thesis using ok name f t Some NFile store
        unfolding mem_open_def leaf_def split_beta Let_def
        by (simp add: refines_at_def tree_open_def leaf_def)
    qed (use ok name f t Some in \<open>simp_all add: refines_at_def mem_open_def tree_open_def leaf_def split_beta Let_def\<close>)
  qed
qed

text \<open>The missing directories of a path, and whole files.\<close>

lemma look_make_dirs:
  "look (make_dirs_at ps n) q = look n q \<or> look n q = None \<and> look (make_dirs_at ps n) q = Some SDir"
proof (induction ps n arbitrary: q rule: make_dirs_at.induct)
  case (2 p ps es)
  show ?case
  proof (cases q)
    case (Cons x r)
    show ?thesis
    proof (cases "x = p")
      case True
      then show ?thesis using Cons 2 [of r]
        by (cases r) (auto simp: bt_insert_map_of split: option.splits)
    qed (simp add: Cons bt_insert_map_of)
  qed simp
qed auto

lemma keys_sorted_make_dirs: "keys_sorted n \<Longrightarrow> keys_sorted (make_dirs_at ps n)"
proof (induction ps n rule: make_dirs_at.induct)
  case (2 p ps es)
  then have "keys_sorted (case map_of es p of Some c \<Rightarrow> c | None \<Rightarrow> NDir [])"
    by (auto simp: keys_sorted_dir split: option.splits)
  with 2 show ?case by (simp add: keys_sorted_insert)
qed auto

lemma tree_dirs_shift:
  "tree_dirs (p # made) ps t = (\<lambda>q. case q of [] \<Rightarrow> t [] | x # r \<Rightarrow>
     if x = p then tree_dirs made ps (\<lambda>r. t (p # r)) r else t q)"
proof (induction ps arbitrary: made t)
  case Nil
  then show ?case by (auto split: list.splits)
next
  case (Cons y ps)
  have "(\<lambda>r. (t(p # made @ [y] := v)) (p # r)) = (\<lambda>r. t (p # r))(made @ [y] := v)" for v
    by (rule ext) simp
  then show ?case using Cons [of "made @ [y]"] by (auto simp: fun_eq_iff fun_upd_def split: list.splits)
qed

lemma tree_make_dirs:
  "(\<lambda>q. map_option (content_of w) (look (make_dirs_at ps n) q)) = tree_dirs [] ps (\<lambda>q. map_option (content_of w) (look n q))"
proof (induction ps n rule: make_dirs_at.induct)
  case (2 p ps es)
  define c where "c = (case map_of es p of Some c \<Rightarrow> c | None \<Rightarrow> NDir [])"
  define t where "t = (\<lambda>q. map_option (content_of w) (look (NDir es) q))"
  define t1 where "t1 = (if t [p] = None then t([p] := Some Directory) else t)"
  have c: "t1 (p # r) = map_option (content_of w) (look c r)" for r
    by (cases r) (auto simp: t1_def t_def c_def split: option.splits)
  have ih: "tree_dirs [] ps (\<lambda>r. t1 (p # r)) = (\<lambda>r. map_option (content_of w) (look (make_dirs_at ps c) r))"
    using 2 [folded c_def] by (simp add: c)
  have m: "make_dirs_at (p # ps) (NDir es) = NDir (bt_insert p (make_dirs_at ps c) es)" by (simp add: c_def)
  have d: "tree_dirs [] (p # ps) t = tree_dirs [p] ps t1" by (simp add: t1_def t_def)
  show ?case
    unfolding t_def [symmetric] m d tree_dirs_shift ih
  proof
    fix q
    show "map_option (content_of w) (look (NDir (bt_insert p (make_dirs_at ps c) es)) q) =
        (case q of [] \<Rightarrow> t1 [] | x # r \<Rightarrow>
           if x = p then map_option (content_of w) (look (make_dirs_at ps c) r) else t1 q)"
    proof (cases q)
      case Nil
      then show ?thesis by (simp add: t1_def t_def)
    next
      case (Cons x r)
      then show ?thesis by (simp add: bt_insert_map_of) (simp add: t1_def t_def)
    qed
  qed
qed auto

lemma make_dirs_ok:
  assumes ok: "tree_ok w"
  shows "tree_ok (w\<lparr>mw_root := make_dirs_at ps (mw_root w)\<rparr>)"
    and "tree_of (w\<lparr>mw_root := make_dirs_at ps (mw_root w)\<rparr>) = tree_dirs [] ps (tree_of w)"
proof -
  let ?r = "make_dirs_at ps (mw_root w)"
  have same: "look ?r q = look (mw_root w) q" if "look ?r q = Some (SFile b)" for q b
    using look_make_dirs [of ps "mw_root w" q] that by auto
  show "tree_ok (w\<lparr>mw_root := ?r\<rparr>)"
  proof (rule tree_ok_moved [OF ok, where src = "\<lambda>q. q"])
    show "look ?r [] = Some SDir"
      using look_make_dirs [of ps "mw_root w" "[]"] tree_okD(1) [OF ok] by (simp del: look_simps)
    show "keys_sorted ?r" by (rule keys_sorted_make_dirs [OF tree_okD(2) [OF ok]])
    show "look (mw_root w) q = Some (SFile b)" if "look ?r q = Some (SFile b)" for q b
      using that same [OF that] by simp
  qed simp
  show "tree_of (w\<lparr>mw_root := ?r\<rparr>) = tree_dirs [] ps (tree_of w)"
    using tree_make_dirs [of w ps "mw_root w"]
    by (simp add: fun_eq_iff tree_of_same_heap [of "w\<lparr>mw_root := ?r\<rparr>" w] tree_of_def [of w, abs_def])
qed

lemma mkdir_all_refines: "tree_ok w \<Longrightarrow> refines_at (mkdir_all path) (tree_mkdir_all path) w"
  using make_dirs_ok [of w "path_parts path"]
  by (simp add: refines_at_def mkdir_all_def tree_mkdir_all_def make_dirs_def)

lemma write_file_refines:
  assumes ok: "tree_ok w"
  shows "refines_at (write_file path contents) (tree_write_file path contents) w"
proof (cases "leaf path = []")
  case True
  then show ?thesis using ok by (simp add: refines_at_def write_file_def tree_write_file_def leaf_def split_beta Let_def)
next
  case name: False
  define w1 where "w1 = w\<lparr>mw_root := make_dirs (fst (split_parent path)) (mw_root w)\<rparr>"
  have w1: "w1 = w\<lparr>mw_root := make_dirs_at (above path) (mw_root w)\<rparr>" by (simp add: w1_def make_dirs_def above_def)
  have ok1: "tree_ok w1" and t1: "tree_dirs [] (above path) (tree_of w) = tree_of w1"
    using make_dirs_ok [OF ok, of "above path"] by (simp_all add: w1)
  have wf: "write_file path contents w =
      (case dir_mut (mw_root w1) (fst (split_parent path)) of
         Inl e \<Rightarrow> (Inl e, w1)
       | Inr es \<Rightarrow>
           (case map_of es (leaf path) of
              Some (NFile b) \<Rightarrow> (Inr (), w1\<lparr>mw_heap := (mw_heap w1)[b := contents]\<rparr>)
            | Some _ \<Rightarrow> (Inl EISDIR, w1)
            | None \<Rightarrow>
                (Inr (), w1\<lparr>mw_root := dir_set (fst (split_parent path))
                              (bt_insert (leaf path) (NFile (length (mw_heap w1))) es) (mw_root w1),
                            mw_heap := mw_heap w1 @ [contents]\<rparr>)))"
    using name unfolding write_file_def w1_def leaf_def split_beta Let_def
    by (simp split: sum.splits option.splits mem_node.splits)
  show ?thesis
  proof (cases "dir_mut (mw_root w1) (fst (split_parent path))")
    case (Inl e)
    then show ?thesis using ok1 name
      by (simp add: refines_at_def wf tree_write_file_def t1 tree_dir_at Let_def)
  next
    case (Inr es)
    then have es: "node_find (mw_root w1) (above path) = Some (NDir es)" by (simp add: dir_mut_Inr)
    have t: "tree_of w1 (at_leaf path) = map_option (content_of w1) (map_option shape_of (map_of es (leaf path)))"
      by (simp add: tree_at entry_at [OF es])
    have l: "look (mw_root w1) (at_leaf path) = map_option shape_of (map_of es (leaf path))"
      by (simp add: look_def entry_at [OF es])
    show ?thesis
    proof (cases "map_of es (leaf path)")
      case None
      then have "look (mw_root w1) (at_leaf path) \<noteq> Some SDir" using l by simp
      note new = new_file_refines [OF ok1 es this refl, of contents]
      show ?thesis using name Inr t None new
        by (simp add: refines_at_def wf tree_write_file_def t1 tree_dir_at Let_def)
    next
      case (Some n)
      show ?thesis
      proof (cases n)
        case (NFile b)
        then have "look (mw_root w1) (at_leaf path) = Some (SFile b)" using l Some by simp
        note store = tree_ok_store [OF ok1 this, of contents]
        show ?thesis using name Inr t Some NFile store
          by (simp add: refines_at_def wf tree_write_file_def t1 tree_dir_at Let_def)
      qed (use ok1 name Inr t Some in \<open>simp_all add: refines_at_def wf tree_write_file_def t1 tree_dir_at Let_def\<close>)
    qed
  qed
qed

end
