(* ===== verification/Mem_Properties.thy ===== *)
theory Mem_Properties
  imports Mem_Refine
begin

text \<open>What the in-memory filesystem promises: its operations are updates of a map from paths.\<close>

section \<open>Looking\<close>

definition tree_read :: "string \<Rightarrow> tree \<Rightarrow> bytes vfs_result" where
  "tree_read path t =
     (case t (path_parts path) of
        Some (Contents d) \<Rightarrow> Inr d | Some Directory \<Rightarrow> Inl EISDIR | _ \<Rightarrow> Inl ENOENT)"

definition tree_link :: "string \<Rightarrow> tree \<Rightarrow> string vfs_result" where
  "tree_link path t =
     (case t (path_parts path) of Some (LinkTo l) \<Rightarrow> Inr l | Some _ \<Rightarrow> Inl EINVAL | None \<Rightarrow> Inl ENOENT)"

definition tree_stat :: "string \<Rightarrow> tree \<Rightarrow> stat vfs_result" where
  "tree_stat path t =
     (case t (path_parts path) of
        Some Directory \<Rightarrow> Inr stat_dir
      | Some (Contents d) \<Rightarrow> Inr (stat_file (of_nat (length d)))
      | Some (LinkTo l) \<Rightarrow> Inr (stat_symlink (of_nat (length l)))
      | None \<Rightarrow> Inl ENOENT)"

definition type_of_content :: "content \<Rightarrow> file_type" where
  "type_of_content c = (case c of Directory \<Rightarrow> Dir | Contents _ \<Rightarrow> File | LinkTo _ \<Rightarrow> Symlink)"

lemma found: "tree_of w (path_parts path) = map_option (content_of w) (map_option shape_of (find (mw_root w) path))"
  by (simp add: tree_at find_def)

lemma read_file_tree: "read_file path w = tree_read path (tree_of w)"
  by (auto simp: read_file_def tree_read_def found split: option.splits mem_node.splits)

lemma readlink_tree: "mem_readlink path w = (tree_link path (tree_of w), w)"
  by (auto simp: mem_readlink_def tree_link_def found split: option.splits mem_node.splits)

lemma stat_tree: "mem_stat path False w = (tree_stat path (tree_of w), w)"
  by (auto simp: mem_stat_def tree_stat_def found node_stat_def split: option.splits mem_node.splits)

lemma readdir_tree:
  assumes ok: "tree_ok w"
  shows "case mem_readdir path w of (r, w') \<Rightarrow> w' = w \<and>
    (case r of
       Inl e \<Rightarrow> tree_dir (tree_of w) (path_parts path) = Inl e
     | Inr ds \<Rightarrow> tree_dir (tree_of w) (path_parts path) = Inr () \<and> sorted_wrt (<) (map de_name ds) \<and>
         (\<lambda>x. map_option type_of_content (tree_of w (path_parts path @ [x]))) =
           (\<lambda>x. map_of (map (\<lambda>d. (de_name d, the (de_type d))) ds) x))"
proof (cases "find (mw_root w) path")
  case None
  then show ?thesis by (simp add: mem_readdir_def tree_dir_def found)
next
  case (Some n)
  show ?thesis
  proof (cases n)
    case (NDir es)
    define ds :: "dir_entry list" where "ds = map (\<lambda>(name, n). \<lparr>de_name = name,
       de_type = Some (case n of NDir _ \<Rightarrow> Dir | NFile _ \<Rightarrow> File | NLink _ \<Rightarrow> Symlink), de_ino = 0\<rparr>) es"
    have f: "node_find (mw_root w) (path_parts path) = Some (NDir es)" using Some NDir by (simp add: find_def)
    have k: "sorted_wrt (<) (map fst es)"
      using sorted_at [OF ok f] by (simp add: keys_sorted_dir)
    have names: "map de_name ds = map fst es" by (auto simp: ds_def)
    have "map_option type_of_content (tree_of w (path_parts path @ [x])) =
        map_of (map (\<lambda>d. (de_name d, the (de_type d))) ds) x" for x
    proof -
      have "tree_of w (path_parts path @ [x]) = map_option (content_of w) (map_option shape_of (map_of es x))"
        by (simp add: tree_at node_find_append f split: option.splits)
      moreover have "map_of (map (\<lambda>d. (de_name d, the (de_type d))) ds) x =
          map_option (\<lambda>n. type_of_content (content_of w (shape_of n))) (map_of es x)"
        unfolding ds_def by (induction es) (auto simp: type_of_content_def split: mem_node.splits)
      ultimately show ?thesis by (simp add: option.map_comp comp_def)
    qed
    then show ?thesis using Some NDir k names
      by (simp add: mem_readdir_def tree_dir_def found ds_def [symmetric] fun_eq_iff)
  qed (use Some in \<open>simp_all add: mem_readdir_def tree_dir_def found\<close>)
qed

section \<open>Open files\<close>

text \<open>The file a handle is open on.\<close>

definition opened_at :: "mem_world \<Rightarrow> mem_file \<Rightarrow> string list \<Rightarrow> bool" where
  "opened_at w f p \<longleftrightarrow> look (mw_root w) p = Some (SFile (mf_data f))"

lemma open_opened:
  assumes "mem_open path opts w = (Inr f, w')"
  shows "opened_at w' f (at_leaf path)"
proof -
  have name: "leaf path \<noteq> []" using assms by (auto simp: mem_open_def leaf_def split_beta Let_def)
  note f = leaf_found [OF name, of "mw_root w"]
  show ?thesis
  proof (cases "node_find (mw_root w) (at_leaf path)")
    case None
    then obtain es where "dir_mut (mw_root w) (fst (split_parent path)) = Inr es"
      using assms name f by (auto simp: mem_open_def leaf_def split_beta Let_def split: if_splits sum.splits)
    moreover from this have es: "node_find (mw_root w) (above path) = Some (NDir es)" by (simp add: dir_mut_Inr)
    ultimately show ?thesis using assms name f None look_inserted [OF es, of "NFile (length (mw_heap w))" "at_leaf path"]
      by (auto simp: mem_open_def leaf_def split_beta Let_def opened_at_def split: if_splits)
  next
    case (Some n)
    then obtain b where "n = NFile b"
      using assms name f by (cases n) (auto simp: mem_open_def leaf_def split_beta Let_def)
    then show ?thesis using assms name f Some
      by (auto simp: mem_open_def leaf_def split_beta Let_def opened_at_def look_SFile split: if_splits)
  qed
qed

definition spliced :: "nat \<Rightarrow> bytes \<Rightarrow> bytes \<Rightarrow> bytes" where
  "spliced start bs d = take start d @ replicate (start - length d) 0 @ bs @ drop (start + length bs) d"

lemma spliced_overwrite:
  "overwrite start bs (if length d < start + length bs then resize (start + length bs) 0 d else d) = spliced start bs d"
  by (auto simp: overwrite_def resize_def spliced_def min_def)

lemma mem_write_eval:
  assumes "mf_writable f" "heap_get w (mf_data f) = d" "(if mf_append f then length d else mf_pos f) = start"
    and "start + length bs < 2 ^ 63"
  shows "mem_write bs f w = (Inr (length bs), f\<lparr>mf_pos := start + length bs\<rparr>,
    w\<lparr>mw_heap := (mw_heap w)[mf_data f := spliced start bs d]\<rparr>)"
proof -
  have "sat_add_u64 start (length bs) = start + length bs" using assms(4) by (simp add: sat_add_u64_def)
  then show ?thesis using assms(1)
    unfolding mem_write_def assms(2) Let_def assms(3) spliced_overwrite [symmetric]
    by (simp add: get_range_def)
qed

lemma length_spliced: "length (spliced start bs d) = max (start + length bs) (length d)"
  by (simp add: spliced_def)

text \<open>Setting the length, through a handle whose file may be in the tree or not any more.\<close>

definition set_len_at :: "mem_file \<Rightarrow> u64 \<Rightarrow> mem_world \<Rightarrow> unit vfs_result \<times> mem_world" where
  "set_len_at f n w = (case mem_set_len n f w of (r, _, w') \<Rightarrow> (r, w'))"

lemma tree_ok_store_elsewhere:
  assumes "tree_ok w" "\<forall>p. look (mw_root w) p \<noteq> Some (SFile b)"
  shows "tree_ok (w\<lparr>mw_heap := (mw_heap w)[b := d]\<rparr>)" "tree_of (w\<lparr>mw_heap := (mw_heap w)[b := d]\<rparr>) = tree_of w"
proof -
  let ?w = "w\<lparr>mw_heap := (mw_heap w)[b := d]\<rparr>"
  show "tree_ok ?w" using assms(1) unfolding tree_ok_def by simp
  have "content_of ?w s = content_of w s" if "look (mw_root w) p = Some s" for p s
  proof (rule content_of_eq)
    fix c assume "s = SFile c"
    then have "c \<noteq> b" using that assms(2) by blast
    then show "heap_get ?w c = heap_get w c" by (simp add: heap_get_def get_at_def)
  qed
  note c = this
  show "tree_of ?w = tree_of w"
  proof
    fix q
    show "tree_of ?w q = tree_of w q"
      by (cases "look (mw_root w) q") (simp_all add: tree_of_def c del: look_simps)
  qed
qed

lemma set_len_refines:
  assumes ok: "tree_ok w"
  shows "refines_at (set_len_at f n) (tree_set_len (mf_writable f) (opened_at w f) (unat n)) w"
proof (cases "mf_writable f")
  case False
  then show ?thesis using ok by (simp add: refines_at_def set_len_at_def mem_set_len_def tree_set_len_def)
next
  case True
  define d where "d = resize (unat n) 0 (heap_get w (mf_data f))"
  have s: "set_len_at f n w = (Inr (), w\<lparr>mw_heap := (mw_heap w)[mf_data f := d]\<rparr>)"
    using True by (simp add: set_len_at_def mem_set_len_def d_def)
  show ?thesis
  proof (cases "\<exists>p. opened_at w f p")
    case at: True
    then obtain p where p: "look (mw_root w) p = Some (SFile (mf_data f))" by (auto simp: opened_at_def)
    have only: "opened_at w f q \<longleftrightarrow> q = p" for q
      using p tree_okD(4) [OF ok p] unfolding opened_at_def by blast
    have "tree_of w p = Some (Contents (heap_get w (mf_data f)))" using p by (simp add: tree_of_def)
    then have "snd (tree_set_len True (opened_at w f) (unat n) (tree_of w)) = (tree_of w)(p := Some (Contents d))"
      by (simp add: tree_set_len_def only fun_eq_iff d_def resize_def split: option.split content.split)
    then show ?thesis using tree_ok_store [OF ok p, of d] True by (simp add: refines_at_def s tree_set_len_def)
  next
    case False
    then have "snd (tree_set_len True (opened_at w f) (unat n) (tree_of w)) = tree_of w"
      by (simp add: tree_set_len_def fun_eq_iff split: option.split content.split)
    moreover have "\<forall>p. look (mw_root w) p \<noteq> Some (SFile (mf_data f))" using False by (simp add: opened_at_def)
    ultimately show ?thesis using tree_ok_store_elsewhere [OF ok, of "mf_data f" d] True
      by (simp add: refines_at_def s tree_set_len_def)
  qed
qed

section \<open>Properties\<close>

lemma tree_ok_empty: "tree_ok mem_new"
proof -
  have "look (NDir []) ps = Some (SFile b) \<longleftrightarrow> False" for ps b by (cases ps) simp_all
  then show ?thesis by (simp add: tree_ok_def mem_new_def del: look_simps(2-))
qed

lemma with_file_ok: "tree_ok w \<Longrightarrow> tree_ok (with_file path contents w)"
  using write_file_refines [of w path contents] by (auto simp: refines_at_def with_file_def)

text \<open>A world with a file and an empty directory in \<open>/a\<close>.\<close>

definition demo_world :: mem_world where
  "demo_world = snd (mem_mkdir ''/a/e'' 0 (with_file ''/a/f'' [1, 2, 3] mem_new))"

lemma demo_world_ok: "tree_ok demo_world"
  using mkdir_refines [OF with_file_ok [OF tree_ok_empty], of "''/a/e''" 0 "''/a/f''" "[1, 2, 3]"]
  by (auto simp: refines_at_def demo_world_def)

text \<open>
  C16: the operations of the in-memory filesystem that change the tree (making a directory, or all that are missing
  along a path, a symbolic link, removing a file or a directory, renaming, opening, which creates and empties files,
  replacing a whole file, setting the length of an open one) are updates of the map from
  paths to contents: from a state that satisfies the invariant (directories in key order, no file
  under two paths, every file within the heap) each gives the result of its update, errors included,
  leads to the state the update describes, and keeps the invariant.  An entry is added only under a free
  name of an existing directory, only an empty directory is removed, a rename moves everything
  at and below the old path and leaves the tree as it was when it fails, and a file whose length is set is
  cut or filled with zeros, at its path and nowhere else.
\<close>

theorem mem_fs_refines:
  assumes "tree_ok w"
  shows "refines_at (mem_mkdir path md) (tree_add path Directory) w \<and>
    refines_at (mkdir_all path) (tree_mkdir_all path) w \<and>
    refines_at (mem_symlink target path) (tree_add path (LinkTo target)) w \<and>
    refines_at (mem_unlink path) (tree_unlink path) w \<and>
    refines_at (mem_rmdir path) (tree_rmdir path) w \<and>
    refines_at (mem_rename path new) (tree_rename path new) w \<and>
    refines_at (mem_open path opts) (tree_open path opts) w \<and>
    refines_at (write_file path contents) (tree_write_file path contents) w \<and>
    refines_at (set_len_at f n) (tree_set_len (mf_writable f) (opened_at w f) (unat n)) w"
  using assms
  by (simp add: mkdir_refines mkdir_all_refines symlink_refines unlink_refines rmdir_refines rename_refines open_refines
      write_file_refines set_len_refines)

lemma mem_fs_refines_witness:
  "refines_at (mem_rename ''/a'' ''/b'') (tree_rename ''/a'' ''/b'') demo_world \<and>
   fst (mem_rename ''/a'' ''/b'' demo_world) = Inr () \<and>
   read_file ''/b/f'' (snd (mem_rename ''/a'' ''/b'' demo_world)) = Inr [1, 2, 3] \<and>
   fst (mem_rmdir ''/a'' demo_world) = Inl ENOTEMPTY"
proof -
  have "fst (mem_rename ''/a'' ''/b'' demo_world) = Inr ()" by code_simp
  moreover have "read_file ''/b/f'' (snd (mem_rename ''/a'' ''/b'' demo_world)) = Inr [1, 2, 3]" by code_simp
  moreover have "fst (mem_rmdir ''/a'' demo_world) = Inl ENOTEMPTY" by code_simp
  ultimately show ?thesis using mem_fs_refines [OF demo_world_ok, of "''/a''" 0 "[]" "''/b''"] by blast
qed

text \<open>
  C18: what the in-memory filesystem shows is what the map of paths holds: the contents, the target of a link,
  the metadata (of the link itself), and, for a directory, one entry for each name below it, in order,
  with its type; looking changes nothing.
\<close>

theorem mem_fs_shows:
  assumes "tree_ok w"
  shows "read_file path w = tree_read path (tree_of w) \<and>
    mem_readlink path w = (tree_link path (tree_of w), w) \<and>
    mem_stat path False w = (tree_stat path (tree_of w), w) \<and>
    (case mem_readdir path w of (r, w') \<Rightarrow> w' = w \<and>
       (case r of
          Inl e \<Rightarrow> tree_dir (tree_of w) (path_parts path) = Inl e
        | Inr ds \<Rightarrow> tree_dir (tree_of w) (path_parts path) = Inr () \<and> sorted_wrt (<) (map de_name ds) \<and>
            (\<lambda>x. map_option type_of_content (tree_of w (path_parts path @ [x]))) =
              (\<lambda>x. map_of (map (\<lambda>d. (de_name d, the (de_type d))) ds) x)))"
  using readdir_tree [OF assms] by (simp add: read_file_tree readlink_tree stat_tree)

lemma mem_fs_shows_witness:
  "(case mem_readdir ''/a'' demo_world of (r, w') \<Rightarrow> r = Inr
      [\<lparr>de_name = ''e'', de_type = Some Dir, de_ino = 0\<rparr>, \<lparr>de_name = ''f'', de_type = Some File, de_ino = 0\<rparr>]) \<and>
   read_file ''/a/f'' demo_world = tree_read ''/a/f'' (tree_of demo_world)"
proof -
  have "fst (mem_readdir ''/a'' demo_world) = Inr
      [\<lparr>de_name = ''e'', de_type = Some Dir, de_ino = 0\<rparr>, \<lparr>de_name = ''f'', de_type = Some File, de_ino = 0\<rparr>]"
    by code_simp
  then show ?thesis using mem_fs_shows [OF demo_world_ok, of "''/a/f''"] by (auto simp: split_beta)
qed

text \<open>
  C17: a write through an open handle replaces the bytes of its file from the position (the end, when
  appending) on, fills a gap with zeros and touches no other path; seeking back and reading as many
  bytes gives what was written.
\<close>

theorem mem_write_read:
  assumes "tree_ok w" "opened_at w f p" "tree_of w p = Some (Contents d)" "mf_writable f"
    and "start = (if mf_append f then length d else mf_pos f)" "start + length bs < 2 ^ 63"
  shows "\<exists>f1 w1. mem_write bs f w = (Inr (length bs), f1, w1) \<and>
    tree_ok w1 \<and> opened_at w1 f1 p \<and> tree_of w1 = (tree_of w)(p := Some (Contents (spliced start bs d))) \<and>
    (\<exists>f2. mem_seek (SeekStart (of_nat start)) f1 w1 = (Inr (of_nat start), f2, w1) \<and>
      mem_read (replicate (length bs) 0) f2 w1 = (Inr (length bs), bs, f2\<lparr>mf_pos := start + length bs\<rparr>, w1))"
proof -
  define b where "b = mf_data f"
  define w1 where "w1 = w\<lparr>mw_heap := (mw_heap w)[b := spliced start bs d]\<rparr>"
  define f1 where "f1 = f\<lparr>mf_pos := start + length bs\<rparr>"
  have at: "look (mw_root w) p = Some (SFile b)" using assms(2) by (simp add: opened_at_def b_def)
  have d: "heap_get w b = d" using assms(3) at by (simp add: tree_of_def)
  have l: "b < length (mw_heap w)" by (rule tree_okD(3) [OF assms(1) at])
  have wr: "mem_write bs f w = (Inr (length bs), f1, w1)"
    using mem_write_eval [of f w d start bs] assms(4,5,6) d by (simp add: f1_def w1_def b_def)
  note store = tree_ok_store [OF assms(1) at, of "spliced start bs d", folded w1_def]
  have h: "heap_get w1 b = spliced start bs d" using l by (simp add: w1_def heap_get_def get_at_def)
  have u: "unat (of_nat start :: u64) = start" using assms(6) by (simp add: unat_of_nat take_bit_nat_eq_self)
  have sk: "mem_seek (SeekStart (of_nat start)) f1 w1 = (Inr (of_nat start), f1\<lparr>mf_pos := start\<rparr>, w1)"
    using assms(6) u by (simp add: mem_seek_def Let_def as_i64_def as_u64_def uint_nat)
  have "drop (min start (length (spliced start bs d))) (spliced start bs d) = bs @ drop (start + length bs) d"
    by (auto simp: spliced_def min_def)
  then have rd: "mem_read (replicate (length bs) 0) (f1\<lparr>mf_pos := start\<rparr>) w1 =
      (Inr (length bs), bs, f1\<lparr>mf_pos := start + length bs\<rparr>, w1)"
    using h assms(6) by (simp add: mem_read_def Let_def f1_def b_def sat_add_u64_def length_spliced)
  have o': "opened_at w1 f1 p" using assms(2) by (simp add: opened_at_def w1_def f1_def)
  show ?thesis using wr store o' sk rd
    by (intro exI [of _ f1] exI [of _ w1] conjI exI [of _ "f1\<lparr>mf_pos := start\<rparr>"]) simp_all
qed

lemma mem_write_read_witness:
  "\<exists>f1 w1. mem_write [9, 8] \<lparr>mf_data = 0, mf_pos = 5, mf_append = False, mf_writable = True\<rparr> demo_world = (Inr 2, f1, w1) \<and>
     read_file ''/a/f'' w1 = Inr [1, 2, 3, 0, 0, 9, 8]"
proof -
  let ?f = "\<lparr>mf_data = 0, mf_pos = 5, mf_append = False, mf_writable = True\<rparr>"
  have o': "opened_at demo_world ?f [''a'', ''f'']" unfolding opened_at_def by code_simp
  have c: "tree_of demo_world [''a'', ''f''] = Some (Contents [1, 2, 3])" by code_simp
  have p: "path_parts ''/a/f'' = [''a'', ''f'']" by code_simp
  have "5 + length [9, 8] < (2 :: nat) ^ 63" by simp
  then obtain f1 w1 where "mem_write [9, 8] ?f demo_world = (Inr (length [9 :: u8, 8]), f1, w1)" "tree_ok w1"
    "tree_of w1 = (tree_of demo_world)([''a'', ''f''] := Some (Contents (spliced 5 [9, 8] [1, 2, 3])))"
    using mem_write_read [OF demo_world_ok o' c, where start = 5 and bs = "[9, 8]"] by auto
  moreover have "spliced 5 [9, 8] [1, 2, 3] = [1, 2, 3, 0, 0, 9, 8]" by code_simp
  ultimately show ?thesis by (intro exI [of _ f1] exI [of _ w1] conjI) (simp_all add: read_file_tree tree_read_def p)
qed

end
