(* ===== verification/Engines.thy ===== *)
theory Engines
  imports Dispatch Engine
begin

text \<open>
  The two engines (\<open>engine/interp.rs\<close>, \<open>engine/aot.rs\<close>): how they find and load programs, make an
  instance, give the scheduler and the imports its memory and registers, and name its traps.
  wasmi and the compiled images with the runtime of \<open>wasm2c\<close> are the records \<open>wasmi\<close> and
  \<open>c_runtime\<close> of functions on their own state \<open>'h\<close>.  The compiled images exist on wasm32 only,
  where addresses have 32 bits.
\<close>

section \<open>The interfaces\<close>

record 'h instance_ops =
  in_mem :: "'h \<Rightarrow> bytes"
  in_mem_size :: "'h \<Rightarrow> u64"
  in_mem_grow :: "u64 \<Rightarrow> 'h \<Rightarrow> u64 option \<times> 'h"
  in_stack_pointer :: "'h \<Rightarrow> u32"
  in_set_stack_pointer :: "u32 \<Rightarrow> 'h \<Rightarrow> 'h"
  in_run_start :: "'h \<Rightarrow> run_exit \<times> 'h"
  in_start_unwind :: "u32 \<Rightarrow> 'h \<Rightarrow> 'h"
  in_stop_unwind :: "'h \<Rightarrow> 'h"
  in_start_rewind :: "u32 \<Rightarrow> 'h \<Rightarrow> 'h"
  in_stop_rewind :: "'h \<Rightarrow> 'h"

record 'h suspend_ops =
  su_mem :: "'h \<Rightarrow> bytes"
  su_mem_grow :: "u64 \<Rightarrow> 'h \<Rightarrow> u64 option \<times> 'h"
  su_stack_pointer :: "'h \<Rightarrow> u32"
  su_set_stack_pointer :: "u32 \<Rightarrow> 'h \<Rightarrow> 'h"
  su_start_unwind :: "u32 \<Rightarrow> 'h \<Rightarrow> 'h"
  su_stop_rewind :: "'h \<Rightarrow> 'h"

text \<open>Where programs come from; the defaults of the trait refuse everything.\<close>

record ('p) backend =
  ba_builtin :: "string \<Rightarrow> 'p option"
  ba_load :: "string \<Rightarrow> bytes \<Rightarrow> load_error + 'p"
  ba_builtin_names :: "string list"

definition backend_defaults :: "(string \<Rightarrow> 'p option) \<Rightarrow> 'p backend" where
  "backend_defaults builtin = \<lparr>ba_builtin = builtin, ba_load = (\<lambda>name bs. Inl NotWasm), ba_builtin_names = []\<rparr>"

definition no_backend :: "'p backend" where
  "no_backend = backend_defaults (\<lambda>name. None)"

definition default_backend :: "'p backend option \<Rightarrow> 'p backend option \<Rightarrow> 'p backend" where
  "default_backend aot interp =
     (case aot of Some b \<Rightarrow> b | None \<Rightarrow> (case interp of Some b \<Rightarrow> b | None \<Rightarrow> no_backend))"

section \<open>The interpreter\<close>

datatype wm_val = I32 u32 | OtherVal

datatype wm_extern = WMemory nat | WFunc nat | WGlobal nat | WTable

record ('m, 'h) wasmi =
  wm_module :: "bytes \<Rightarrow> string + 'm"
  wm_new_store :: 'h
  wm_instantiate_and_start :: "'m \<Rightarrow> 'h \<Rightarrow> (string + nat) \<times> 'h"
  wm_export :: "nat \<Rightarrow> 'h \<Rightarrow> string \<Rightarrow> wm_extern option"
  wm_mem_data :: "nat \<Rightarrow> 'h \<Rightarrow> bytes"
  wm_mem_grow :: "nat \<Rightarrow> u64 \<Rightarrow> 'h \<Rightarrow> (string + u64) \<times> 'h"
  wm_global_get :: "nat \<Rightarrow> 'h \<Rightarrow> wm_val"
  wm_global_set :: "nat \<Rightarrow> wm_val \<Rightarrow> 'h \<Rightarrow> (string + unit) \<times> 'h"
  wm_call :: "nat \<Rightarrow> wm_val list \<Rightarrow> 'h \<Rightarrow> (string + unit) \<times> 'h"

definition into_memory :: "wm_extern \<Rightarrow> nat option" where
  "into_memory e = (case e of WMemory i \<Rightarrow> Some i | _ \<Rightarrow> None)"

definition into_func :: "wm_extern \<Rightarrow> nat option" where
  "into_func e = (case e of WFunc i \<Rightarrow> Some i | _ \<Rightarrow> None)"

definition into_global :: "wm_extern \<Rightarrow> nat option" where
  "into_global e = (case e of WGlobal i \<Rightarrow> Some i | _ \<Rightarrow> None)"

definition wm_i32 :: "wm_val \<Rightarrow> u32 option" where
  "wm_i32 v = (case v of I32 w \<Rightarrow> Some w | OtherVal \<Rightarrow> None)"

record asyncify =
  as_start_unwind :: nat
  as_stop_unwind :: nat
  as_start_rewind :: nat
  as_stop_rewind :: nat

text \<open>What the store carries for the imports, filled in once the instance exists.\<close>

record store_data =
  da_memory :: "nat option"
  da_stack_pointer :: "nat option"
  da_asyncify :: "asyncify option"

record interp_instance =
  ii_memory :: nat
  ii_start :: nat
  ii_asyncify :: asyncify
  ii_stack_pointer :: "nat option"

definition interp_load :: "('m, 'h) wasmi \<Rightarrow> bytes \<Rightarrow> load_error + 'm" where
  "interp_load wm bs =
     (if \<not> starts_with [0, 97, 115, 109] bs then Inl NotWasm
      else case wm_module wm bs of Inl text \<Rightarrow> Inl (EngineError text) | Inr m \<Rightarrow> Inr m)"

definition image_bytes :: "(string \<times> bytes) list \<Rightarrow> string \<Rightarrow> bytes option" where
  "image_bytes images name = map_option snd (List.find (\<lambda>(image, _). image = name) images)"

definition interp_builtin :: "('m, 'h) wasmi \<Rightarrow> (string \<times> bytes) list \<Rightarrow> string \<Rightarrow> 'm option" where
  "interp_builtin wm images name =
     (case image_bytes images name of
        None \<Rightarrow> None
      | Some bs \<Rightarrow> (case interp_load wm bs of Inl _ \<Rightarrow> None | Inr m \<Rightarrow> Some m))"

definition interp_backend ::
  "('m, 'h) wasmi \<Rightarrow> (string \<times> bytes) list \<Rightarrow> string list \<Rightarrow> 'm backend" where
  "interp_backend wm images layout =
     \<lparr>ba_builtin = interp_builtin wm images, ba_load = (\<lambda>_. interp_load wm), ba_builtin_names = layout\<rparr>"

definition wm_get ::
  "('m, 'h) wasmi \<Rightarrow> nat \<Rightarrow> 'h \<Rightarrow> (wm_extern \<Rightarrow> nat option) \<Rightarrow> string \<Rightarrow> load_error + nat" where
  "wm_get wm i h kind name =
     (case Option.bind (wm_export wm i h name) kind of None \<Rightarrow> Inl (MissingExport name) | Some x \<Rightarrow> Inr x)"

definition interp_instantiate ::
  "('m, 'h) wasmi \<Rightarrow> 'm \<Rightarrow> (load_error + interp_instance \<times> store_data) \<times> 'h" where
  "interp_instantiate wm m =
     (case wm_instantiate_and_start wm m (wm_new_store wm) of
        (Inl text, h) \<Rightarrow> (Inl (EngineError text), h)
      | (Inr i, h) \<Rightarrow>
          (case wm_get wm i h into_memory ''memory'' of Inl e \<Rightarrow> (Inl e, h) | Inr memory \<Rightarrow>
           case wm_get wm i h into_func ''_start'' of Inl e \<Rightarrow> (Inl e, h) | Inr start \<Rightarrow>
           case wm_get wm i h into_func ''asyncify_start_unwind'' of Inl e \<Rightarrow> (Inl e, h) | Inr su \<Rightarrow>
           case wm_get wm i h into_func ''asyncify_stop_unwind'' of Inl e \<Rightarrow> (Inl e, h) | Inr pu \<Rightarrow>
           case wm_get wm i h into_func ''asyncify_start_rewind'' of Inl e \<Rightarrow> (Inl e, h) | Inr sr \<Rightarrow>
           case wm_get wm i h into_func ''asyncify_stop_rewind'' of Inl e \<Rightarrow> (Inl e, h) | Inr pr \<Rightarrow>
             let asy = \<lparr>as_start_unwind = su, as_stop_unwind = pu, as_start_rewind = sr, as_stop_rewind = pr\<rparr>;
                 sp = Option.bind (wm_export wm i h ''__stack_pointer'') into_global
             in (Inr (\<lparr>ii_memory = memory, ii_start = start, ii_asyncify = asy, ii_stack_pointer = sp\<rparr>,
                      \<lparr>da_memory = Some memory, da_stack_pointer = sp, da_asyncify = Some asy\<rparr>), h)))"

text \<open>\<open>.ok()\<close>, and \<open>let _ =\<close>.\<close>

definition to_option :: "'e + 'a \<Rightarrow> 'a option" where
  "to_option r = (case r of Inl _ \<Rightarrow> None | Inr a \<Rightarrow> Some a)"

definition wm_get_sp :: "('m, 'h) wasmi \<Rightarrow> nat option \<Rightarrow> 'h \<Rightarrow> u32" where
  "wm_get_sp wm sp h =
     (case sp of Some g \<Rightarrow> (case wm_i32 (wm_global_get wm g h) of Some v \<Rightarrow> v | None \<Rightarrow> 0) | None \<Rightarrow> 0)"

definition wm_set_sp :: "('m, 'h) wasmi \<Rightarrow> nat option \<Rightarrow> u32 \<Rightarrow> 'h \<Rightarrow> 'h" where
  "wm_set_sp wm sp v h = (case sp of Some g \<Rightarrow> snd (wm_global_set wm g (I32 v) h) | None \<Rightarrow> h)"

definition interp_run_start :: "('m, 'h) wasmi \<Rightarrow> nat \<Rightarrow> 'h \<Rightarrow> run_exit \<times> 'h" where
  "interp_run_start wm start h =
     (case wm_call wm start [] h of (Inr _, h1) \<Rightarrow> (Returned, h1) | (Inl text, h1) \<Rightarrow> (Trap (classify text), h1))"

definition interp_grow :: "('m, 'h) wasmi \<Rightarrow> nat \<Rightarrow> u64 \<Rightarrow> 'h \<Rightarrow> u64 option \<times> 'h" where
  "interp_grow wm memory pages h = (case wm_mem_grow wm memory pages h of (r, h1) \<Rightarrow> (to_option r, h1))"

definition interp_instance_ops :: "('m, 'h) wasmi \<Rightarrow> interp_instance \<Rightarrow> 'h instance_ops" where
  "interp_instance_ops wm ii =
     \<lparr>in_mem = wm_mem_data wm (ii_memory ii),
      in_mem_size = (\<lambda>h. of_nat (length (wm_mem_data wm (ii_memory ii) h))),
      in_mem_grow = interp_grow wm (ii_memory ii),
      in_stack_pointer = wm_get_sp wm (ii_stack_pointer ii),
      in_set_stack_pointer = wm_set_sp wm (ii_stack_pointer ii),
      in_run_start = interp_run_start wm (ii_start ii),
      in_start_unwind = (\<lambda>data h. snd (wm_call wm (as_start_unwind (ii_asyncify ii)) [I32 data] h)),
      in_stop_unwind = (\<lambda>h. snd (wm_call wm (as_stop_unwind (ii_asyncify ii)) [] h)),
      in_start_rewind = (\<lambda>data h. snd (wm_call wm (as_start_rewind (ii_asyncify ii)) [I32 data] h)),
      in_stop_rewind = (\<lambda>h. snd (wm_call wm (as_stop_rewind (ii_asyncify ii)) [] h))\<rparr>"

definition caller_suspend :: "('m, 'h) wasmi \<Rightarrow> store_data \<Rightarrow> 'h suspend_ops" where
  "caller_suspend wm d =
     \<lparr>su_mem = (\<lambda>h. case da_memory d of Some memory \<Rightarrow> wm_mem_data wm memory h | None \<Rightarrow> []),
      su_mem_grow = (\<lambda>pages h. case da_memory d of Some memory \<Rightarrow> interp_grow wm memory pages h | None \<Rightarrow> (None, h)),
      su_stack_pointer = wm_get_sp wm (da_stack_pointer d),
      su_set_stack_pointer = wm_set_sp wm (da_stack_pointer d),
      su_start_unwind = (\<lambda>data h. case da_asyncify d of
          Some asy \<Rightarrow> snd (wm_call wm (as_start_unwind asy) [I32 data] h) | None \<Rightarrow> h),
      su_stop_rewind = (\<lambda>h. case da_asyncify d of
          Some asy \<Rightarrow> snd (wm_call wm (as_stop_rewind asy) [] h) | None \<Rightarrow> h)\<rparr>"

section \<open>Compiled images\<close>

record 'h c_image =
  ci_name :: bytes
  ci_inst_size :: u32
  ci_free_inst :: "nat \<Rightarrow> 'h \<Rightarrow> 'h"
  ci_memory :: "nat \<Rightarrow> 'h \<Rightarrow> nat"
  ci_stack_pointer :: "nat \<Rightarrow> 'h \<Rightarrow> nat"
  ci_start_unwind :: "nat \<Rightarrow> u32 \<Rightarrow> 'h \<Rightarrow> 'h"
  ci_stop_unwind :: "nat \<Rightarrow> 'h \<Rightarrow> 'h"
  ci_start_rewind :: "nat \<Rightarrow> u32 \<Rightarrow> 'h \<Rightarrow> 'h"
  ci_stop_rewind :: "nat \<Rightarrow> 'h \<Rightarrow> 'h"

record 'h c_runtime =
  cr_images :: "'h c_image list option"
  cr_instantiate :: "'h c_image \<Rightarrow> nat \<Rightarrow> 'h \<Rightarrow> int \<times> 'h"
  cr_run_start :: "'h c_image \<Rightarrow> nat \<Rightarrow> 'h \<Rightarrow> int \<times> 'h"
  cr_trap_class :: "int \<Rightarrow> int"
  cr_mem_data :: "nat \<Rightarrow> 'h \<Rightarrow> nat"
  cr_mem_size :: "nat \<Rightarrow> 'h \<Rightarrow> u64"
  cr_mem_grow :: "nat \<Rightarrow> u64 \<Rightarrow> 'h \<Rightarrow> u64 \<times> 'h"
  cr_bytes :: "nat \<Rightarrow> nat \<Rightarrow> 'h \<Rightarrow> bytes"
  cr_load :: "nat \<Rightarrow> 'h \<Rightarrow> u32"
  cr_store :: "nat \<Rightarrow> u32 \<Rightarrow> 'h \<Rightarrow> 'h"
  cr_alloc_zeroed :: "nat \<Rightarrow> 'h \<Rightarrow> nat option \<times> 'h"
  cr_dealloc :: "nat \<Rightarrow> nat \<Rightarrow> 'h \<Rightarrow> 'h"

definition image_name :: "'h c_image \<Rightarrow> string" where
  "image_name im = (if utf8_lossy (ci_name im) = ci_name im then from_utf8_lossy (ci_name im) else ''?'')"

definition aot_images :: "'h c_runtime \<Rightarrow> 'h c_image list" where
  "aot_images rt = (case cr_images rt of None \<Rightarrow> [] | Some images \<Rightarrow> images)"

definition aot_backend :: "'h c_runtime \<Rightarrow> 'h c_image backend" where
  "aot_backend rt =
     (backend_defaults (\<lambda>name. List.find (\<lambda>im. image_name im = name) (aot_images rt)))
       \<lparr>ba_builtin_names := map image_name (aot_images rt)\<rparr>"

text \<open>\<open>Layout::from_size_align(size, 16)\<close>: rounded up to 16 it may not pass \<open>isize::MAX\<close>.\<close>

definition instance_layout :: "'h c_image \<Rightarrow> nat option" where
  "instance_layout im =
     (let len = max (unat (ci_inst_size im)) 16 in if len \<le> 2 ^ 31 - 16 then Some len else None)"

definition aot_new :: "'h c_runtime \<Rightarrow> 'h c_image \<Rightarrow> 'h \<Rightarrow> (load_error + nat) \<times> 'h" where
  "aot_new rt im h =
     (case instance_layout im of
        None \<Rightarrow> (Inl (EngineError ''bad instance layout''), h)
      | Some len \<Rightarrow>
          (case cr_alloc_zeroed rt len h of
             (None, h1) \<Rightarrow> (Inl OutOfMemory, h1)
           | (Some inst, h1) \<Rightarrow>
               (case cr_instantiate rt im inst h1 of
                  (code, h2) \<Rightarrow>
                    if code \<noteq> 0 then
                      (Inl (if trap_kind_of (cr_trap_class rt) code = Some OutOfBounds then OutOfMemory
                            else EngineError ''the program trapped while starting up''),
                       cr_dealloc rt inst len h2)
                    else (Inr inst, h2))))"

definition aot_drop :: "'h c_runtime \<Rightarrow> 'h c_image \<Rightarrow> nat \<Rightarrow> 'h \<Rightarrow> 'h" where
  "aot_drop rt im inst h =
     (case instance_layout im of
        None \<Rightarrow> h
      | Some len \<Rightarrow> cr_dealloc rt inst len (ci_free_inst im inst h))"

definition raw_mem :: "'h c_runtime \<Rightarrow> nat \<Rightarrow> 'h \<Rightarrow> bytes" where
  "raw_mem rt memory h = cr_bytes rt (cr_mem_data rt memory h) (unat (ucast (cr_mem_size rt memory h) :: u32)) h"

text \<open>The largest number is the refusal.\<close>

definition aot_grow :: "'h c_runtime \<Rightarrow> nat \<Rightarrow> u64 \<Rightarrow> 'h \<Rightarrow> u64 option \<times> 'h" where
  "aot_grow rt memory pages h =
     (case cr_mem_grow rt memory pages h of (previous, h1) \<Rightarrow> (if previous = - 1 then None else Some previous, h1))"

definition aot_run_start :: "'h c_runtime \<Rightarrow> 'h c_image \<Rightarrow> nat \<Rightarrow> 'h \<Rightarrow> run_exit \<times> 'h" where
  "aot_run_start rt im inst h =
     (case cr_run_start rt im inst h of
        (code, h1) \<Rightarrow> (case trap_kind_of (cr_trap_class rt) code of None \<Rightarrow> Returned | Some kind \<Rightarrow> Trap kind, h1))"

definition aot_instance_ops :: "'h c_runtime \<Rightarrow> 'h c_image \<Rightarrow> nat \<Rightarrow> 'h instance_ops" where
  "aot_instance_ops rt im inst =
     \<lparr>in_mem = (\<lambda>h. raw_mem rt (ci_memory im inst h) h),
      in_mem_size = (\<lambda>h. cr_mem_size rt (ci_memory im inst h) h),
      in_mem_grow = (\<lambda>pages h. aot_grow rt (ci_memory im inst h) pages h),
      in_stack_pointer = (\<lambda>h. cr_load rt (ci_stack_pointer im inst h) h),
      in_set_stack_pointer = (\<lambda>v h. cr_store rt (ci_stack_pointer im inst h) v h),
      in_run_start = aot_run_start rt im inst,
      in_start_unwind = ci_start_unwind im inst, in_stop_unwind = ci_stop_unwind im inst,
      in_start_rewind = ci_start_rewind im inst, in_stop_rewind = ci_stop_rewind im inst\<rparr>"

definition aot_suspend :: "'h c_runtime \<Rightarrow> 'h c_image \<Rightarrow> nat \<Rightarrow> 'h suspend_ops" where
  "aot_suspend rt im inst =
     \<lparr>su_mem = (\<lambda>h. raw_mem rt (ci_memory im inst h) h),
      su_mem_grow = (\<lambda>pages h. aot_grow rt (ci_memory im inst h) pages h),
      su_stack_pointer = (\<lambda>h. cr_load rt (ci_stack_pointer im inst h) h),
      su_set_stack_pointer = (\<lambda>v h. cr_store rt (ci_stack_pointer im inst h) v h),
      su_start_unwind = ci_start_unwind im inst, su_stop_rewind = ci_stop_rewind im inst\<rparr>"

section \<open>The imports\<close>

text \<open>The six imports: by their name, with the arguments of their type, in the interpreter; and by their symbol.\<close>

definition interp_import :: "string \<Rightarrow> u32 list \<Rightarrow> (('w, 'f) st \<Rightarrow> u32 option \<times> ('w, 'f) st) option" where
  "interp_import name args =
     (case args of
        [a] \<Rightarrow>
          if name = ''setjmp'' then Some (\<lambda>s. let (r, s1) = setjmp_entry a s in (Some r, s1))
          else if name = ''init'' then Some (\<lambda>s. (None, init_entry a s))
          else if name = ''sigfetch'' then Some (\<lambda>s. let (r, s1) = sigfetch_entry a s in (Some r, s1))
          else None
      | [a, b] \<Rightarrow>
          if name = ''syscall'' then Some (\<lambda>s. let (r, s1) = syscall_entry a b s in (Some r, s1))
          else if name = ''longjmp'' then Some (\<lambda>s. (None, longjmp_entry a (sint b) s))
          else if name = ''args'' then Some (\<lambda>s. let (r, s1) = args_entry a b s in (Some r, s1))
          else None
      | _ \<Rightarrow> None)"

definition rs_syscall :: "u32 \<Rightarrow> u32 \<Rightarrow> ('w, 'f) st \<Rightarrow> u32 \<times> ('w, 'f) st" where
  "rs_syscall number args = syscall_entry number args"

definition rs_setjmp :: "u32 \<Rightarrow> ('w, 'f) st \<Rightarrow> u32 \<times> ('w, 'f) st" where
  "rs_setjmp jmp_buf = setjmp_entry jmp_buf"

definition rs_longjmp :: "u32 \<Rightarrow> u32 \<Rightarrow> ('w, 'f) st \<Rightarrow> ('w, 'f) st" where
  "rs_longjmp jmp_buf v = longjmp_entry jmp_buf (sint v)"

definition rs_init :: "u32 \<Rightarrow> ('w, 'f) st \<Rightarrow> ('w, 'f) st" where
  "rs_init signal_flag = init_entry signal_flag"

definition rs_args :: "u32 \<Rightarrow> u32 \<Rightarrow> ('w, 'f) st \<Rightarrow> u32 \<times> ('w, 'f) st" where
  "rs_args buffer capacity = args_entry buffer capacity"

definition rs_sigfetch :: "u32 \<Rightarrow> ('w, 'f) st \<Rightarrow> u32 \<times> ('w, 'f) st" where
  "rs_sigfetch out = sigfetch_entry out"

end
