(* ===== verification/Engine_Properties.thy ===== *)
theory Engine_Properties
  imports Engines
begin

text \<open>
  What the compiled engine owes the allocator: the storage of the instances that are alive is held, and
  no other.  The allocator and the runtime of \<open>wasm2c\<close> are arguments; what is assumed of them is that
  an allocated block is a new one, and that a block given back with its own size is gone.  What a program
  allocates for itself (its memory, its tables) is the business of its image.
\<close>

section \<open>Storage\<close>

definition allocates :: "'h c_runtime \<Rightarrow> ('h \<Rightarrow> (nat \<times> nat) set) \<Rightarrow> bool" where
  "allocates rt blocks \<longleftrightarrow>
     (\<forall>len h. case cr_alloc_zeroed rt len h of
        (Some a, h') \<Rightarrow> a \<notin> fst ` blocks h \<and> blocks h' = insert (a, len) (blocks h)
      | (None, h') \<Rightarrow> blocks h' = blocks h) \<and>
     (\<forall>a len h. (a, len) \<in> blocks h \<longrightarrow> blocks (cr_dealloc rt a len h) = blocks h - {(a, len)})"

text \<open>The programs themselves take no block of the engine's and give none back.\<close>

definition leaves_blocks :: "'h c_runtime \<Rightarrow> ('h \<Rightarrow> (nat \<times> nat) set) \<Rightarrow> 'h c_image \<Rightarrow> bool" where
  "leaves_blocks rt blocks im \<longleftrightarrow>
     (\<forall>inst h. blocks (snd (cr_instantiate rt im inst h)) = blocks h \<and>
        blocks (snd (cr_run_start rt im inst h)) = blocks h \<and> blocks (ci_free_inst im inst h) = blocks h)"

text \<open>
  What an embedder does with compiled images: it launches one, enters an instance, and drops an instance; the
  instances it holds are listed.
\<close>

datatype 'h image_use = Launch "'h c_image" | Enter nat | Discard nat

fun use_images ::
  "'h c_runtime \<Rightarrow> 'h image_use list \<Rightarrow> ('h c_image \<times> nat) list \<Rightarrow> 'h \<Rightarrow> ('h c_image \<times> nat) list \<times> 'h" where
  "use_images rt [] held h = (held, h)"
| "use_images rt (Launch im # us) held h =
     (case aot_new rt im h of
        (Inl e, h1) \<Rightarrow> use_images rt us held h1
      | (Inr inst, h1) \<Rightarrow> use_images rt us (held @ [(im, inst)]) h1)"
| "use_images rt (Enter i # us) held h =
     (case get_at held i of
        None \<Rightarrow> use_images rt us held h
      | Some (im, inst) \<Rightarrow> use_images rt us held (snd (in_run_start (aot_instance_ops rt im inst) h)))"
| "use_images rt (Discard i # us) held h =
     (case get_at held i of
        None \<Rightarrow> use_images rt us held h
      | Some (im, inst) \<Rightarrow> use_images rt us (take i held @ drop (Suc i) held) (aot_drop rt im inst h))"

definition storage :: "('h c_image \<times> nat) list \<Rightarrow> (nat \<times> nat) set" where
  "storage held = (\<lambda>(im, inst). (inst, the (instance_layout im))) ` set held"

definition holds :: "'h c_runtime \<Rightarrow> ('h \<Rightarrow> (nat \<times> nat) set) \<Rightarrow> (nat \<times> nat) set \<Rightarrow> ('h c_image \<times> nat) list \<Rightarrow> 'h \<Rightarrow> bool" where
  "holds rt blocks other held h \<longleftrightarrow>
     blocks h = other \<union> storage held \<and> fst ` other \<inter> snd ` set held = {} \<and> distinct (map snd held) \<and>
     (\<forall>(im, inst) \<in> set held. instance_layout im \<noteq> None \<and> leaves_blocks rt blocks im)"

lemma holds_launched:
  assumes "allocates rt blocks" "leaves_blocks rt blocks im" "holds rt blocks other held h" "aot_new rt im h = (Inr inst, h1)"
  shows "holds rt blocks other (held @ [(im, inst)]) h1"
proof -
  obtain len ha where l: "instance_layout im = Some len" "cr_alloc_zeroed rt len h = (Some inst, ha)" "h1 = snd (cr_instantiate rt im inst ha)"
    using assms(4) by (auto simp: aot_new_def split: option.splits prod.splits if_splits)
  have a: "inst \<notin> fst ` blocks h" "blocks ha = insert (inst, len) (blocks h)"
    using assms(1) [unfolded allocates_def, THEN conjunct1, rule_format, of h len] l(2) by simp_all
  have "fst ` storage held = snd ` set held" by (force simp: storage_def)
  then have "inst \<notin> fst ` other" "inst \<notin> snd ` set held"
    using a(1) assms(3) by (auto simp: holds_def image_Un)
  moreover have "blocks h1 = insert (inst, len) (blocks h)" using a(2) l(3) assms(2) by (simp add: leaves_blocks_def)
  ultimately show ?thesis using assms(2,3) l(1) by (auto simp: holds_def storage_def)
qed

lemma holds_failed:
  fixes blocks :: "'h \<Rightarrow> (nat \<times> nat) set"
  assumes "allocates rt blocks" "leaves_blocks rt blocks im" "aot_new rt im h = (Inl e, h1)"
  shows "blocks h1 = blocks h"
proof (cases "instance_layout im")
  case None
  then show ?thesis using assms(3) by (simp add: aot_new_def)
next
  case (Some len)
  obtain r ha where al: "cr_alloc_zeroed rt len h = (r, ha)" by fastforce
  note alloc = assms(1) [unfolded allocates_def, THEN conjunct1, rule_format, of h len, unfolded al prod.case]
  show ?thesis
  proof (cases r)
    case None
    then show ?thesis using assms(3) Some al alloc by (simp add: aot_new_def)
  next
    case (Some inst)
    then have a: "(inst, len) \<notin> blocks h" "blocks ha = insert (inst, len) (blocks h)" using alloc by force+
    have "h1 = cr_dealloc rt inst len (snd (cr_instantiate rt im inst ha))"
      using assms(3) \<open>instance_layout im = Some len\<close> al Some by (auto simp: aot_new_def split: prod.splits if_splits)
    moreover have "blocks (snd (cr_instantiate rt im inst ha)) = insert (inst, len) (blocks h)"
      using a(2) assms(2) by (simp add: leaves_blocks_def)
    ultimately show ?thesis using assms(1) a(1) by (simp add: allocates_def)
  qed
qed

lemma holds_discarded:
  assumes "allocates rt blocks" "holds rt blocks other held h" "i < length held" "held ! i = (im, inst)"
  shows "holds rt blocks other (take i held @ drop (Suc i) held) (aot_drop rt im inst h)"
proof -
  define xs ys where "xs = take i held" and "ys = drop (Suc i) held"
  have held: "held = xs @ (im, inst) # ys"
    using id_take_nth_drop [OF assms(3)] assms(4) by (simp add: xs_def ys_def)
  obtain len where len: "instance_layout im = Some len" using assms(2) by (auto simp: holds_def held)
  have drop: "blocks (aot_drop rt im inst h) = blocks h - {(inst, len)}"
  proof -
    have "leaves_blocks rt blocks im" "(inst, len) \<in> blocks h"
      using assms(2) len by (auto simp: holds_def held storage_def)
    then show ?thesis using assms(1) len by (simp add: aot_drop_def allocates_def leaves_blocks_def)
  qed
  have "(inst, len) \<notin> other \<union> storage (xs @ ys)"
  proof -
    have "inst \<notin> fst ` other" "inst \<notin> snd ` set (xs @ ys)" using assms(2) by (auto simp: holds_def held)
    moreover have "fst ` storage (xs @ ys) = snd ` set (xs @ ys)" by (force simp: storage_def)
    ultimately show ?thesis by force
  qed
  moreover have "blocks h = insert (inst, len) (other \<union> storage (xs @ ys))"
    using assms(2) len by (auto simp: holds_def held storage_def)
  ultimately have "blocks (aot_drop rt im inst h) = other \<union> storage (xs @ ys)" using drop by simp
  then show ?thesis using assms(2) unfolding xs_def [symmetric] ys_def [symmetric] by (auto simp: holds_def held)
qed

lemma use_images_holds:
  assumes "allocates rt blocks" "\<forall>im. Launch im \<in> set us \<longrightarrow> leaves_blocks rt blocks im" "holds rt blocks other held h"
    and "use_images rt us held h = (held', h')"
  shows "holds rt blocks other held' h'"
  using assms
proof (induction rt us held h rule: use_images.induct)
  case (2 rt im us held h)
  note alloc = "2.prems"(1) and holds = "2.prems"(3)
  obtain r h1 where new: "aot_new rt im h = (r, h1)" by fastforce
  have im: "leaves_blocks rt blocks im" and us: "\<forall>im. Launch im \<in> set us \<longrightarrow> leaves_blocks rt blocks im"
    using "2.prems"(2) by simp_all
  show ?case
  proof (cases r)
    case (Inl e)
    then have "holds rt blocks other held h1"
      using holds holds_failed [OF alloc im, of h e h1] new by (simp add: holds_def)
    then show ?thesis using "2.IH"(1) [OF new [symmetric] Inl alloc us] "2.prems"(4) Inl new by simp
  next
    case (Inr inst)
    then have "holds rt blocks other (held @ [(im, inst)]) h1"
      using holds_launched [OF alloc im holds] new by simp
    then show ?thesis using "2.IH"(2) [OF new [symmetric] Inr alloc us] "2.prems"(4) Inr new by simp
  qed
next
  case (3 rt i us held h)
  note alloc = "3.prems"(1) and holds = "3.prems"(3)
  have us: "\<forall>im. Launch im \<in> set us \<longrightarrow> leaves_blocks rt blocks im" using "3.prems"(2) by simp
  show ?case
  proof (cases "get_at held i")
    case None
    then show ?thesis using "3.IH"(1) [OF None alloc us holds] "3.prems"(4) by simp
  next
    case (Some p)
    obtain im inst where p: "p = (im, inst)" by fastforce
    have "p \<in> set held" using Some by (metis get_at_Some_iff nth_mem)
    then have "leaves_blocks rt blocks im" using holds p by (auto simp: holds_def)
    then have "blocks (snd (in_run_start (aot_instance_ops rt im inst) h)) = blocks h"
      by (simp add: aot_instance_ops_def aot_run_start_def leaves_blocks_def split_beta)
    then have "holds rt blocks other held (snd (in_run_start (aot_instance_ops rt im inst) h))"
      using holds by (simp add: holds_def)
    then show ?thesis using "3.IH"(2) [OF Some p [symmetric] alloc us] "3.prems"(4) Some p by simp
  qed
next
  case (4 rt i us held h)
  note alloc = "4.prems"(1) and holds = "4.prems"(3)
  have us: "\<forall>im. Launch im \<in> set us \<longrightarrow> leaves_blocks rt blocks im" using "4.prems"(2) by simp
  show ?case
  proof (cases "get_at held i")
    case None
    then show ?thesis using "4.IH"(1) [OF None alloc us holds] "4.prems"(4) by simp
  next
    case (Some p)
    obtain im inst where p: "p = (im, inst)" by fastforce
    then have "i < length held" "held ! i = (im, inst)" using Some by (simp_all add: get_at_Some_iff)
    note holds_discarded [OF alloc holds this]
    then show ?thesis using "4.IH"(2) [OF Some p [symmetric] alloc us] "4.prems"(4) Some p by simp
  qed
qed simp

text \<open>
  C37: compiled images leak no storage, and give each block back once, with its own size.  However an embedder
  launches images, enters their instances and drops them, the blocks allocated are those there were before and one
  for each instance it still holds, of the size of its image: a launch that fails, because the size is
  unusable, the memory is out or the program traps while starting, leaves no block behind, and no two
  instances share one.
\<close>

theorem image_storage:
  assumes "allocates rt blocks" "\<forall>im. Launch im \<in> set us \<longrightarrow> leaves_blocks rt blocks im"
    and "use_images rt us [] h = (held, h')"
  shows "blocks h' = blocks h \<union> {(inst, len) |im inst len. (im, inst) \<in> set held \<and> instance_layout im = Some len} \<and>
    distinct (map snd held) \<and> fst ` blocks h \<inter> snd ` set held = {}"
proof -
  have "holds rt blocks (blocks h) [] h" by (simp add: holds_def storage_def)
  from use_images_holds [OF assms(1,2) this assms(3)]
  have H: "holds rt blocks (blocks h) held h'" .
  have "storage held = {(inst, len) |im inst len. (im, inst) \<in> set held \<and> instance_layout im = Some len}"
  proof (intro set_eqI iffI)
    fix x assume "x \<in> storage held"
    then obtain im inst where x: "(im, inst) \<in> set held" "x = (inst, the (instance_layout im))"
      unfolding storage_def by auto
    then have "instance_layout im = Some (the (instance_layout im))" using H by (auto simp: holds_def)
    with x show "x \<in> {(inst, len) |im inst len. (im, inst) \<in> set held \<and> instance_layout im = Some len}" by blast
  next
    fix x assume "x \<in> {(inst, len) |im inst len. (im, inst) \<in> set held \<and> instance_layout im = Some len}"
    then obtain im inst len where "(im, inst) \<in> set held" "instance_layout im = Some len" "x = (inst, len)" by blast
    then show "x \<in> storage held" unfolding storage_def by (intro image_eqI [of _ _ "(im, inst)"]) simp_all
  qed
  with H show ?thesis by (simp add: holds_def)
qed

text \<open>A runtime whose state is the list of its blocks, with an image that starts and one that traps.\<close>

definition next_block :: "(nat \<times> nat) list \<Rightarrow> nat" where
  "next_block h = Suc (foldr (\<lambda>(a, _). max a) h 0)"

definition list_runtime :: "(nat \<times> nat) list c_runtime" where
  "list_runtime =
     \<lparr>cr_images = None,
      cr_instantiate = (\<lambda>im inst h. (if ci_name im = [] then 1 else 0, h)),
      cr_run_start = (\<lambda>im inst h. (0, h)), cr_trap_class = (\<lambda>c. c),
      cr_mem_data = (\<lambda>_ _. 0), cr_mem_size = (\<lambda>_ _. 0), cr_mem_grow = (\<lambda>_ _ h. (0, h)), cr_bytes = (\<lambda>_ _ _. []),
      cr_load = (\<lambda>_ _. 0), cr_store = (\<lambda>_ _ h. h),
      cr_alloc_zeroed = (\<lambda>len h. (Some (next_block h), (next_block h, len) # h)),
      cr_dealloc = (\<lambda>a len h. removeAll (a, len) h)\<rparr>"

definition list_image :: "bytes \<Rightarrow> (nat \<times> nat) list c_image" where
  "list_image name =
     \<lparr>ci_name = name, ci_inst_size = 100, ci_free_inst = (\<lambda>_ h. h), ci_memory = (\<lambda>_ _. 0), ci_stack_pointer = (\<lambda>_ _. 0),
      ci_start_unwind = (\<lambda>_ _ h. h), ci_stop_unwind = (\<lambda>_ h. h), ci_start_rewind = (\<lambda>_ _ h. h), ci_stop_rewind = (\<lambda>_ h. h)\<rparr>"

lemma list_runtime_allocates: "allocates list_runtime set"
proof -
  have "a \<in> set (map fst h) \<Longrightarrow> a < next_block h" for a h
    by (induction h) (auto simp: next_block_def less_Suc_eq_le le_max_iff_disj simp del: set_map)
  then have "next_block h \<notin> set (map fst h)" for h by blast
  then have "next_block h \<notin> fst ` set h" for h by simp
  then show ?thesis by (simp add: allocates_def list_runtime_def)
qed

lemma list_launch:
  "aot_new list_runtime (list_image name) h =
     (if name = [] then (Inl OutOfMemory, removeAll (next_block h, 100) h) else (Inr (next_block h), (next_block h, 100) # h))"
  by (simp add: aot_new_def instance_layout_def list_runtime_def list_image_def trap_kind_of_def)

lemma list_discard: "aot_drop list_runtime (list_image name) inst h = removeAll (inst, 100) h"
  by (simp add: aot_drop_def instance_layout_def list_runtime_def list_image_def)

lemma list_enter: "snd (in_run_start (aot_instance_ops list_runtime (list_image name) inst) h) = h"
  by (simp add: aot_instance_ops_def aot_run_start_def list_runtime_def)

lemma image_storage_witness:
  "(case use_images list_runtime [Launch (list_image [1]), Launch (list_image []), Launch (list_image [2]), Enter 0, Discard 0] [] [] of
     (held, h') \<Rightarrow> map snd held = [2] \<and> set h' = {(2, 100)})"
proof -
  define us where "us = [Launch (list_image [1]), Launch (list_image []), Launch (list_image [2]), Enter 0, Discard 0]"
  obtain held h' where u: "use_images list_runtime us [] [] = (held, h')" by fastforce
  then have held: "held = [(list_image [2], 2)]"
    by (auto simp: us_def list_launch list_discard list_enter get_at_def next_block_def numeral_2_eq_2)
  have "\<forall>im. Launch im \<in> set us \<longrightarrow> leaves_blocks list_runtime set im"
    by (auto simp: us_def leaves_blocks_def list_runtime_def list_image_def)
  from image_storage [OF list_runtime_allocates this u]
  have "set h' = {(2, 100)}" by (simp add: held instance_layout_def list_image_def)
  then show ?thesis using u held unfolding us_def by simp
qed

end
