(* ===== verification/Retry.thy ===== *)
theory Retry
  imports Kernel_Frame Concrete
begin

text \<open>
  A call that waits is tried again from the start when there is something for it.  What the guest and
  the other processes can see of the state, \<open>visible\<close>, is what it was before the first try.
\<close>

section \<open>What can be seen\<close>

text \<open>A description without the host's handle of its file.\<close>

definition desc_shape :: "'f desc \<Rightarrow> unit desc" where
  "desc_shape d = \<lparr>d_kind = map_desc_kind (\<lambda>_. ()) (d_kind d), d_path = d_path d, d_flags = d_flags d, d_refs = d_refs d\<rparr>"

text \<open>
  Left out: the filesystems and their handles, which see each try; the clocks; the time a wait
  ends, which the first try fixes; that standard input is asked for; and the count of calls.
  The signal mask is the one in force once the wait is over.
\<close>

definition visible_cx :: "ctx \<Rightarrow> ctx" where
  "visible_cx c = (restore_mask c)\<lparr>c_exec := (c_exec c)\<lparr>ex_deadline := None, ex_mask_to_restore := None\<rparr>\<rparr>"

definition visible_table :: "proc_record list \<Rightarrow> proc_record list" where
  "visible_table = map (pr_wake_at_update (\<lambda>_. None))"

definition visible_descs :: "'f desc slab \<Rightarrow> nat \<Rightarrow> unit desc option" where
  "visible_descs ds k = map_option desc_shape (slab_get ds k)"

definition visible :: "('w, 'f) st \<Rightarrow>
  guest \<times> ctx \<times> (nat \<Rightarrow> unit desc option) \<times> proc_record list \<times> (bytes \<times> bool) \<times> pipe slab \<times> int \<times> spawn list \<times>
  output_buffer \<times> output_buffer \<times> nat \<times> terminal option \<times> u64 \<times> ('w, 'f) mounts \<times> overlay \<times> limits" where
  "visible s =
     (gs s, visible_cx (cx s), visible_descs (sh_descs (sh s)), visible_table (sh_table (sh s)),
      (si_data (sh_stdin (sh s)), si_closed (sh_stdin (sh s))), sh_pipes (sh s), sh_next_pid (sh s), sh_spawn (sh s),
      sh_stdout (sh s), sh_stderr (sh s), sh_memory_used (sh s), sh_terminal (sh s), o_rng (sh_out (sh s)),
      sh_mounts (sh s), sh_overlay (sh s), sh_limits (sh s))"

section \<open>Waiting\<close>

text \<open>\<open>waits P m\<close>: a run of \<open>m\<close> from \<open>P\<close> that ends in \<open>FBlock\<close> ends in \<open>P\<close>.  \<open>never m\<close>: no run does.\<close>

definition waits :: "('s \<Rightarrow> bool) \<Rightarrow> ('s, 'a) sysm \<Rightarrow> bool" where
  "waits P m \<longleftrightarrow> (\<forall>s s'. P s \<longrightarrow> m s = (Inl FBlock, s') \<longrightarrow> P s')"

definition never :: "('s, 'a) sysm \<Rightarrow> bool" where
  "never m \<longleftrightarrow> (\<forall>s s'. m s \<noteq> (Inl FBlock, s'))"

named_theorems never_rules
named_theorems waits_rules

lemma neverI: "(\<And>s. fst (m s) \<noteq> Inl FBlock) \<Longrightarrow> never m"
  unfolding never_def by (metis fst_conv)

lemma neverD: "never m \<Longrightarrow> fst (m s) \<noteq> Inl FBlock"
  by (metis never_def prod.collapse)

lemma never_bnd [never_rules]: "never m \<Longrightarrow> (\<And>a. never (f a)) \<Longrightarrow> never (bnd m f)"
  unfolding never_def bnd_def by (fastforce split: prod.splits sum.splits)

lemma never_simple [never_rules]:
  "never (ret a)" "never (err e)" "never (gets g)" "never (modify h)"
  "never (run r)" "never (of_result x)" "never (ok_or e y)"
  by (auto simp: never_def ret_def fault_def gets_def modify_def run_def of_result_def ok_or_def
      split: prod.splits sum.splits option.splits)

lemma never_if [never_rules]: "(c \<Longrightarrow> never m) \<Longrightarrow> (\<not> c \<Longrightarrow> never n) \<Longrightarrow> never (if c then m else n)"
  by simp

lemma never_cases [never_rules]:
  "never m \<Longrightarrow> (\<And>a. never (f a)) \<Longrightarrow> never (case x of None \<Rightarrow> m | Some a \<Rightarrow> f a)"
  "(\<And>e. never (g e)) \<Longrightarrow> (\<And>a. never (h a)) \<Longrightarrow> never (case y of Inl e \<Rightarrow> g e | Inr a \<Rightarrow> h a)"
  "(\<And>a b. never (k a b)) \<Longrightarrow> never (case z of (a, b) \<Rightarrow> k a b)"
  "never m \<Longrightarrow> (\<And>a as. never (l a as)) \<Longrightarrow> never (case v of [] \<Rightarrow> m | a # as \<Rightarrow> l a as)"
  by (auto split: option.splits sum.splits prod.splits list.splits)

lemma never_kind [never_rules]:
  assumes "\<And>f m c. never (k1 f m c)" "\<And>e p. never (k2 e p)" "\<And>d p. never (k3 d p)"
    "\<And>k. never (k4 k)" "\<And>k. never (k5 k)" "never k6" "\<And>n. never (k7 n)" "never k8" "never k9" "never k10"
  shows "never (case d of KFile f m c \<Rightarrow> k1 f m c | KDir e p \<Rightarrow> k2 e p | KMemory x p \<Rightarrow> k3 x p
    | KPipeRead k \<Rightarrow> k4 k | KPipeWrite k \<Rightarrow> k5 k | KStdin \<Rightarrow> k6 | KStdout n \<Rightarrow> k7 n
    | KNull \<Rightarrow> k8 | KZero \<Rightarrow> k9 | KRandom \<Rightarrow> k10)"
  by (cases d) (simp_all add: assms)

lemma never_fault [never_rules]: "f \<noteq> FBlock \<Longrightarrow> never (fault f)"
  by (simp add: never_def fault_def)

lemma never_caught [never_rules]:
  assumes "never m" "\<And>f. f \<noteq> FBlock \<Longrightarrow> never (g f)" "\<And>a. never (h a)"
  shows "never (catching m (\<lambda>r. case r of Inl f \<Rightarrow> g f | Inr a \<Rightarrow> h a))"
proof (rule neverI)
  fix s
  obtain r s1 where m: "m s = (r, s1)" by fastforce
  then have "r \<noteq> Inl FBlock" using assms(1) by (auto simp: never_def)
  then show "fst (catching m (\<lambda>r. case r of Inl f \<Rightarrow> g f | Inr a \<Rightarrow> h a) s) \<noteq> Inl FBlock"
    using m assms(2,3) by (cases r) (auto simp: catching_def dest: neverD)
qed

lemma never_ignoring [never_rules]: "never (ignoring m)"
  by (rule neverI) (simp add: ignoring_def catching_def ret_def split: prod.splits)

lemma never_to_mem [never_rules]: "never m \<Longrightarrow> never (to_mem m)"
  unfolding never_def to_mem_def by (auto split: prod.splits)

lemma never_mem [never_rules]:
  "never (mem_put at data)" "never (mem_put_u8 at v1)" "never (mem_put_u16 at v2)" "never (mem_put_u32 at v3)"
  "never (mem_put_u64 at v4)" "never (mem_zero at len)"
  using mem_put_not_block
  by (auto intro!: neverI simp: mem_put_u8_def mem_put_u16_def mem_put_u32_def mem_put_u64_def mem_zero_def)

lemma never_timespec [never_rules]: "never (mem_put_timespec at d)"
  unfolding mem_put_timespec_def by (intro never_rules)

lemma never_revents [never_rules]: "never (put_revents rs)"
  by (induction rs rule: put_revents.induct) (auto intro!: never_rules)

lemma never_words [never_rules]: "never (put_words at vs wis)"
  by (induction wis) (auto intro!: never_rules)

lemma never_fd_set [never_rules]: "never (write_fd_set at vs)"
  unfolding write_fd_set_def by (intro never_rules)

lemma never_kernel [never_rules]:
  "never (on_shared f1)" "never (on_task f2)" "never (on_exec f3)" "never (on_records f4)" "never (from_mem f5)"
  "never (world_op f6)" "never now" "never now_since_epoch" "never elapsed" "never (get_fd n)" "never (get_desc k)"
  "never (on_fds f7)" "never (get_vfs i)" "never (get_record pid)" "never (file_op k h oper)"
  unfolding on_shared_def on_task_def on_exec_def on_records_def from_mem_def world_op_def now_def now_since_epoch_def
    elapsed_def get_fd_def get_desc_def on_fds_def get_vfs_def get_record_def file_op_def
  by (intro never_rules)+

lemma waits_keeps [waits_rules]: "keeps P m \<Longrightarrow> waits P m"
  unfolding waits_def keeps_def by (metis snd_conv)

lemma waits_never: "never m \<Longrightarrow> waits P m"
  by (simp add: waits_def never_def)

lemma waits_first: "keeps P m \<Longrightarrow> (\<And>a. waits P (f a)) \<Longrightarrow> waits P (bnd m f)"
  unfolding waits_def keeps_def bnd_def by (fastforce split: prod.splits sum.splits)

lemma waits_then: "waits P m \<Longrightarrow> (\<And>a. never (f a)) \<Longrightarrow> waits P (bnd m f)"
  unfolding waits_def never_def bnd_def by (fastforce split: prod.splits sum.splits)

lemma waits_if: "(c \<Longrightarrow> waits P m) \<Longrightarrow> (\<not> c \<Longrightarrow> waits P n) \<Longrightarrow> waits P (if c then m else n)"
  by simp

lemma waits_block: "waits P (fault f)"
  by (simp add: waits_def fault_def)

lemma waits_cases:
  "waits P m \<Longrightarrow> (\<And>a. waits P (f a)) \<Longrightarrow> waits P (case x of None \<Rightarrow> m | Some a \<Rightarrow> f a)"
  "(\<And>e. waits P (g e)) \<Longrightarrow> (\<And>a. waits P (h a)) \<Longrightarrow> waits P (case y of Inl e \<Rightarrow> g e | Inr a \<Rightarrow> h a)"
  "(\<And>a b. waits P (k a b)) \<Longrightarrow> waits P (case z of (a, b) \<Rightarrow> k a b)"
  by (auto split: option.splits sum.splits prod.splits)

lemma waits_kind:
  assumes "\<And>f m c. waits P (k1 f m c)" "\<And>e p. waits P (k2 e p)" "\<And>d p. waits P (k3 d p)"
    "\<And>k. waits P (k4 k)" "\<And>k. waits P (k5 k)" "waits P k6" "\<And>n. waits P (k7 n)"
    "waits P k8" "waits P k9" "waits P k10"
  shows "waits P (case d of KFile f m c \<Rightarrow> k1 f m c | KDir e p \<Rightarrow> k2 e p | KMemory x p \<Rightarrow> k3 x p
    | KPipeRead k \<Rightarrow> k4 k | KPipeWrite k \<Rightarrow> k5 k | KStdin \<Rightarrow> k6 | KStdout n \<Rightarrow> k7 n
    | KNull \<Rightarrow> k8 | KZero \<Rightarrow> k9 | KRandom \<Rightarrow> k10)"
  by (cases d) (simp_all add: assms)

lemma waits_node:
  assumes "\<And>i g. waits P (k1 i g)" "\<And>d. waits P (k2 d)" "\<And>g. waits P (k3 g)"
    "\<And>i r g. waits P (k4 i r g)" "\<And>g. waits P (k5 g)" "\<And>t. waits P (k6 t)"
  shows "waits P (case n of Program i g \<Rightarrow> k1 i g | Device d \<Rightarrow> k2 d | Synth g \<Rightarrow> k3 g
    | Mounted i r g \<Rightarrow> k4 i r g | VirtualDir g \<Rightarrow> k5 g | VirtualLink t \<Rightarrow> k6 t)"
  by (cases n) (simp_all add: assms)

section \<open>What a try may change\<close>

abbreviation sees where "sees v \<equiv> (\<lambda>s. visible s = v)"

lemma sees_modify: "(\<And>s. visible (f s) = visible s) \<Longrightarrow> keeps (sees v) (modify f)"
  by (rule keepsI) (simp add: modify_def)

lemma sees_run: "(\<And>s. visible (snd (f s)) = visible s) \<Longrightarrow> keeps (sees v) (run f)"
  by (intro keeps_run) simp

lemma sees_pending: "keeps (sees v) (on_shared (sh_vfs_pending_update f))"
  unfolding on_shared_def by (rule sees_modify) (simp add: visible_def)

lemma sees_wanted: "keeps (sees v) (on_shared (sh_stdin_update (si_wanted_update f)))"
  unfolding on_shared_def by (rule sees_modify) (simp add: visible_def)

lemma sees_world: "keeps (sees v) (world_op f)"
  unfolding world_op_def by (rule sees_run) (simp add: visible_def Let_def split: prod.splits)

lemma shape_set_file: "desc_shape (set_file f d) = desc_shape d"
  by (auto simp: desc_shape_def set_file_def split: desc_kind.splits)

lemma sees_file_op: "keeps (sees v) (file_op k f oper)"
  unfolding file_op_def
  by (rule sees_run) (auto simp: visible_def Let_def desc_update_def visible_descs_def fun_eq_iff slab_get_modify
      option.map_comp comp_def shape_set_file split: prod.splits)

lemma sees_now: "keeps (sees v) now" "keeps (sees v) now_since_epoch"
  unfolding now_def now_since_epoch_def by (rule sees_run; simp add: visible_def Let_def)+

lemma visible_cx_exec:
  "(\<And>e. ex_mask_to_restore (f e) = ex_mask_to_restore e) \<Longrightarrow>
   (\<And>e. (f e)\<lparr>ex_deadline := None, ex_mask_to_restore := None\<rparr> = e\<lparr>ex_deadline := None, ex_mask_to_restore := None\<rparr>) \<Longrightarrow>
   visible_cx (c_exec_update f c) = visible_cx c"
  by (simp add: visible_cx_def restore_mask_def split: option.splits)

lemma sees_deadline_set: "keeps (sees v) (on_exec (ex_deadline_update f))"
  unfolding on_exec_def by (rule sees_modify) (simp add: visible_def visible_cx_exec)

lemma sees_set_wake: "keeps (sees v) (set_wake t)"
proof -
  have "visible_table (update_record pid (pr_wake_at_update f) rs) = visible_table rs" for pid f rs
    by (induction rs) (simp_all add: visible_table_def)
  then show ?thesis
    unfolding set_wake_def on_records_def on_shared_def
    by (intro keeps_rules sees_modify) (simp add: visible_def)
qed

lemma sees_sigsuspend:
  "keeps (sees v) (bnd (gets (\<lambda>s. t_sigmask (the_task s))) (\<lambda>cur.
     thn (on_exec (ex_mask_to_restore_update (\<lambda>old. if old = None then Some cur else old)))
         (on_task (t_sigmask_update (\<lambda>_. m)))))"
  by (rule keepsI)
    (auto simp: st_defs monad_simps visible_def visible_cx_def restore_mask_def split: option.splits)

lemma sees_vfs_fault: "keeps (sees v) (vfs_fault e)"
  unfolding vfs_fault_def by (intro keeps_rules sees_pending)

lemma sees_or_vfs_fault: "keeps (sees v) (or_vfs_fault r)"
  unfolding or_vfs_fault_def by (intro keeps_rules sees_vfs_fault)

lemma sees_vfs_call: "keeps (sees v) (vfs_call f)"
  unfolding vfs_call_def by (intro keeps_rules sees_world sees_or_vfs_fault)

lemmas sees_rules = keeps_rules keeps_kernel_reads sees_pending sees_wanted sees_world sees_file_op sees_now
  sees_deadline_set sees_set_wake sees_vfs_fault sees_or_vfs_fault sees_vfs_call

lemma sees_elapsed: "keeps (sees v) elapsed"
  unfolding elapsed_def by (intro sees_rules)

lemma sees_deadline: "keeps (sees v) (deadline d)"
  unfolding deadline_def by (intro sees_rules)

lemma sees_resolve: "keeps (sees v) (sys_resolve dirfd path follow)"
  unfolding sys_resolve_def by (intro sees_rules)

lemma sees_timeout: "keeps (sees v) (timeout_until at)"
  unfolding timeout_until_def by (intro sees_rules sees_deadline)

lemma sees_poll_entries: "keeps (sees v) (poll_entries at n i)"
  by (induction n arbitrary: i) (auto intro!: sees_rules)

lemma sees_proc_content: "keeps (sees v) (proc_content guest)"
  unfolding proc_content_def by (intro sees_rules sees_elapsed)

section \<open>Calls that never wait\<close>

lemma never_elapsed [never_rules]: "never (deadline d)" "never (fill_random n)" "never raise_signal_flag"
  unfolding deadline_def fill_random_def raise_signal_flag_def by (intro never_rules; simp)+

lemma never_output [never_rules]: "never (read_memory k data pos staging)"
  unfolding read_memory_def Let_def by (intro never_rules)

lemma never_process:
  "never (sys_exit code)" "never (sys_clone flags)" "never sys_getppid" "never (sys_setpgid n g)" "never (sys_getpgid n)"
  "never sys_setsid" "never (sys_getsid n)" "never (sys_sched_getaffinity a)" "never (sys_umask a)" "never (sys_uname a)"
  "never (sys_sysinfo a)" "never (sys_prlimit i a)" "never (sys_times a)" "never (sys_getrandom a b)"
  "never (finish_exec pg guest argv envp)"
  unfolding sys_exit_def sys_clone_def sys_getppid_def sys_setpgid_def sys_getpgid_def sys_setsid_def sys_getsid_def
    sys_sched_getaffinity_def sys_umask_def sys_uname_def sys_sysinfo_def sys_prlimit_def sys_times_def sys_getrandom_def
    finish_exec_def Let_def
  by (intro never_rules; simp)+

lemma never_signal:
  "never (sys_sigaction n a b)" "never (sys_sigprocmask n a b)" "never (sys_sigpending a)" "never (sys_kill n g)"
  "never (sys_clock_gettime n a)" "never (sys_clock_getres a)" "never (sys_gettimeofday a)" "never (sys_brk a)"
  unfolding sys_sigaction_def sys_sigprocmask_def sys_sigpending_def sys_kill_def sys_clock_gettime_def
    sys_clock_getres_def sys_gettimeofday_def sys_brk_def acquire_def charge_def grow_def add_grown_def Let_def
  by (intro never_rules; simp)+

lemma never_descriptor [never_rules]: "never (insert_desc d)" "never (alloc_fd k c)" "never insert_pipe" "never (incref k)"
  unfolding insert_desc_def alloc_fd_def insert_pipe_def incref_def by (intro never_rules; simp)+

lemma never_fd:
  "never (sys_close fd)" "never (dup_fd fd c lo)" "never (sys_dup3 a b flags)" "never (sys_pipe2 at flags)"
  "never (sys_fcntl fd cmd arg)" "never (sys_ioctl fd req arg)" "never (sys_getdents fd at cap)" "never (sys_fchdir fd)"
  unfolding sys_close_def dup_fd_def sys_dup3_def sys_pipe2_def sys_fcntl_def sys_ioctl_def terminal_ioctl_def
    sys_getdents_def sys_fchdir_def Let_def
  by (intro never_rules; simp)+

lemma never_path:
  "never (write_statx at st path rdev)" "never (sys_getcwd a b)" "never (sys_statfs a)" "never (install_desc d c)"
  unfolding write_statx_def sys_getcwd_def sys_statfs_def install_desc_def
  by (intro never_rules; simp)+

section \<open>Calls that wait\<close>

lemma sees_on_mount: "keeps (sees v) (on_mount i oper)"
  unfolding on_mount_def by (intro sees_rules)

lemma sees_probe: "keeps (sees v) (probe_node node follow)"
  unfolding probe_node_def by (intro sees_rules)

lemma sees_creating: "keeps (sees v) m \<Longrightarrow> keeps (sees v) (creating m oper)"
  unfolding creating_def by (intro sees_rules sees_on_mount)

lemma sees_paths:
  "keeps (sees v) (sys_faccessat dirfd at flags)" "keeps (sees v) (sys_utimensat dirfd at flags)"
  "keeps (sees v) (sys_mkdirat dirfd at md)" "keeps (sees v) (sys_unlinkat dirfd at flags)"
  "keeps (sees v) (sys_renameat fd1 at1 fd2 at2)" "keeps (sees v) (sys_symlinkat at dirfd at2)"
  "keeps (sees v) (sys_fchmodat dirfd at md)" "keeps (sees v) (sys_truncate at len)"
  unfolding sys_faccessat_def sys_utimensat_def sys_mkdirat_def sys_unlinkat_def sys_renameat_def sys_symlinkat_def
    sys_fchmodat_def sys_truncate_def Let_def
  by (intro sees_rules sees_resolve sees_probe sees_on_mount sees_creating)+

lemma sees_ftruncate: "keeps (sees v) (sys_ftruncate fd len)"
  unfolding sys_ftruncate_def by (intro sees_rules)

lemma sees_stat: "keeps (sees v) (stat_node node path follow)" "keeps (sees v) (stat_desc k d)"
  unfolding stat_node_def stat_desc_def Let_def by (intro sees_rules sees_proc_content)+

lemma sees_open: "keeps (sees v) (open_node node flags md)"
  unfolding open_node_def open_mounted_def Let_def by (intro sees_rules sees_proc_content)

lemma waits_openat: "waits (sees v) (sys_openat dirfd at flags md)"
  unfolding sys_openat_def Let_def
  by (rule waits_first, intro sees_rules, rule waits_first, intro sees_resolve, rule waits_first, intro sees_open,
      rule waits_never, intro never_rules never_fd never_path)

lemma waits_statx: "waits (sees v) (sys_statx dirfd at flags buffer)"
  unfolding sys_statx_def Let_def
  by (rule waits_first, intro sees_rules, rule waits_first, intro sees_rules sees_stat sees_resolve,
      rule waits_never, intro never_rules never_path)

lemma waits_chdir: "waits (sees v) (sys_chdir at)"
  unfolding sys_chdir_def
  by (rule waits_first, intro sees_rules, rule waits_first, intro sees_resolve, rule waits_first, intro sees_rules,
      rule waits_never, intro never_rules)

lemma waits_readlink: "waits (sees v) (sys_readlinkat dirfd at buf cap)"
  unfolding sys_readlinkat_def Let_def
  by (rule waits_first, intro sees_rules, rule waits_first, intro sees_resolve, rule waits_first, intro sees_rules,
      rule waits_never, intro never_rules)

lemma waits_lseek: "waits (sees v) (sys_lseek fd offset whence)"
  unfolding sys_lseek_def
  by (rule waits_first, intro sees_rules, rule waits_first, intro sees_rules, rule waits_then, rule waits_kind)
    ((rule waits_never, intro never_rules; fail) | (rule waits_keeps, intro sees_rules; fail) | (intro never_rules; fail))+

lemma waits_read_stdin: "waits (sees v) (read_stdin nb staging)"
  unfolding read_stdin_def Let_def
  by (rule waits_first, intro sees_rules, intro waits_if)
    ((rule waits_never, intro never_rules; fail) | (rule waits_keeps, intro sees_rules; fail) | rule waits_cases)+

lemma waits_read_pipe: "waits (sees v) (read_pipe k nb staging)"
  unfolding read_pipe_def Let_def
  by (rule waits_first, intro sees_rules, intro waits_if)
    (rule waits_block | (rule waits_never, intro never_rules; fail))+

lemma waits_read_bytes: "waits (sees v) (read_bytes fd staging)"
  unfolding read_bytes_def Let_def file_read_def
  by (intro waits_if, rule waits_never, intro never_rules,
      rule waits_first, intro sees_rules, rule waits_first, intro sees_rules, intro waits_if, rule waits_never,
      intro never_rules, rule waits_kind)
    (rule waits_read_stdin waits_read_pipe | (rule waits_never, intro never_rules; fail) |
     (rule waits_keeps, intro sees_rules; fail))+

lemma waits_read: "waits (sees v) (sys_read fd at len)"
  unfolding sys_read_def
  by (intro waits_if, rule waits_never, intro never_rules, rule waits_then, rule waits_read_bytes, intro never_rules)

lemma waits_write_pipe: "waits (sees v) (write_pipe k nb data)"
  unfolding write_pipe_def Let_def
  by (rule waits_first, intro sees_rules, intro waits_if)
    ((rule waits_block) | (rule waits_never, intro never_rules))+

lemma waits_write_bytes: "waits (sees v) (write_bytes fd data)"
  unfolding write_bytes_def Let_def
  by (rule waits_first, intro sees_rules, rule waits_first, intro sees_rules, intro waits_if, rule waits_never,
      intro never_rules, rule waits_kind)
    (rule waits_write_pipe | (rule waits_never, intro never_rules; fail) | (rule waits_keeps, intro sees_rules; fail))+

lemma waits_write: "waits (sees v) (sys_write fd at len)"
  unfolding sys_write_def
  by (rule waits_first, intro sees_rules, rule waits_then, rule waits_write_bytes, intro never_rules)

lemma waits_nanosleep: "waits (sees v) (sys_nanosleep at ab clock)"
  unfolding sys_nanosleep_def by (rule waits_keeps, intro sees_rules sees_deadline sees_elapsed)

lemma waits_sigsuspend: "waits (sees v) (sys_sigsuspend at)"
proof -
  have "waits (sees v) (bnd (bnd (gets (\<lambda>s. t_sigmask (the_task s))) (\<lambda>cur.
     thn (on_exec (ex_mask_to_restore_update (\<lambda>old. if old = None then Some cur else old)))
         (on_task (t_sigmask_update (\<lambda>_. m))))) (\<lambda>_. bnd (gets interrupted) (\<lambda>i. if i then err EINTR else fault FBlock)))" for m
    by (rule waits_first, rule sees_sigsuspend, rule waits_keeps, intro sees_rules)
  then show ?thesis unfolding sys_sigsuspend_def bnd_assoc
    by (intro waits_first [OF keeps_kernel_reads(3)])
qed

lemma waits_wait4: "waits (sees v) (sys_wait4 which status opts usage)"
  unfolding sys_wait4_def
  by (rule waits_first, intro sees_rules, intro waits_if waits_cases)
    ((rule waits_block) | (rule waits_never, intro never_rules))+

lemma waits_ppoll: "waits (sees v) (sys_ppoll at count timeout)"
  unfolding sys_ppoll_def Let_def
  by (rule waits_first, intro sees_timeout, rule waits_first, intro sees_poll_entries, intro waits_if,
      rule waits_never, intro never_rules, intro waits_cases, rule waits_keeps, intro sees_rules,
      rule waits_first, intro sees_rules, intro waits_if, rule waits_keeps, intro sees_rules, rule waits_never,
      intro never_rules)

lemma waits_pselect: "waits (sees v) (sys_pselect n a b c timeout)"
  unfolding sys_pselect_def Let_def
  by ((rule waits_first, intro sees_rules sees_timeout)+, intro waits_if,
      rule waits_never, intro never_rules, intro waits_cases, rule waits_block,
      rule waits_first, intro sees_rules, intro waits_if, rule waits_keeps, intro sees_rules, rule waits_never,
      intro never_rules)

lemma waits_execve: "waits (sees v) (sys_execve path argv envp)"
  unfolding sys_execve_def Let_def
  by ((rule waits_never, intro never_rules never_process; fail) | (rule waits_first, (intro sees_rules sees_resolve; fail)) |
      rule waits_if waits_cases waits_node)+

section \<open>Vectors\<close>

text \<open>
  The first call of a vector that does not end it has moved a positive count, and after that none
  waits.  A file reports no more than it was given: \<open>honest\<close>.
\<close>

definition honest :: "('w, 'f) file_ops \<Rightarrow> bool" where
  "honest fo \<longleftrightarrow> (\<forall>buf f w n. fst (fo_read fo buf f w) = Inr n \<longrightarrow> n \<le> length buf) \<and>
     (\<forall>data f w n. fst (fo_write fo data f w) = Inr n \<longrightarrow> n \<le> length data)"

abbreviation steady where
  "steady fo m \<equiv> (\<lambda>s. o_fops (sh_out (sh s)) = fo \<and> length (g_mem (gs s)) = m)"

lemma steady_shared:
  "keeps (steady fo m) (on_shared (sh_stdin_update f1))" "keeps (steady fo m) (on_shared (pipe_update k f2))"
  "keeps (steady fo m) (on_shared (sh_vfs_pending_update f3))"
  "keeps (steady fo m) (on_shared (sh_out_update (o_rng_update f4)))" "keeps (steady fo m) (on_shared (desc_update k f5))"
  "keeps (steady fo m) (on_records f6)" "keeps (steady fo m) (run (\<lambda>s. let (n, s') = write_output w d (sh s) in (n, s\<lparr>sh := s'\<rparr>)))"
  unfolding on_shared_def on_records_def pipe_update_def desc_update_def
  by (rule keepsI; simp add: modify_def run_def write_output_def Let_def)+

lemma steady_now: "keeps (steady fo m) now_since_epoch" "keeps (steady fo m) (file_op k f oper)"
  unfolding now_since_epoch_def file_op_def
  by (rule keeps_run; simp add: Let_def desc_update_def split: prod.splits)+

lemma steady_put: "keeps (steady fo m) (to_mem (mem_put at bs))"
  by (rule keepsI) (simp add: to_mem_def case_prod_beta mem_writes_length)

lemmas steady_rules = keeps_rules keeps_kernel_reads steady_shared steady_now

lemma steady_pipe: "keeps (steady fo m) (read_pipe k nb buf)" "keeps (steady fo m) (write_pipe k nb bs)"
  "keeps (steady fo m) (read_stdin nb buf)" "keeps (steady fo m) (or_vfs_fault r)" "keeps (steady fo m) (fill_random n)"
  "keeps (steady fo m) (read_memory k d pos buf)"
  unfolding read_pipe_def write_pipe_def read_stdin_def or_vfs_fault_def vfs_fault_def fill_random_def read_memory_def Let_def
  by (intro steady_rules)+

lemma take_line_length: "length (fst (take_line n d)) \<le> n"
  by (induction n d rule: take_line.induct) (auto split: prod.splits)

lemmas gives_rules = gives_simple gives_after

lemma gives_if: "(c \<Longrightarrow> gives P Q m1) \<Longrightarrow> (\<not> c \<Longrightarrow> gives P Q m2) \<Longrightarrow> gives P Q (if c then m1 else m2)"
  by simp

abbreviation within where "within n \<equiv> (\<lambda>r. fst r \<le> (n::nat))"

lemma gives_reads:
  "gives (steady fo m) (within (length buf)) (read_stdin nb buf)"
  "gives (steady fo m) (within (length buf)) (read_pipe k nb buf)"
  "gives (steady fo m) (within (length buf)) (read_memory k data pos buf)"
  unfolding read_stdin_def read_pipe_def read_memory_def Let_def case_prod_beta
  by (intro gives_rules gives_if steady_rules; simp add: take_line_length)+

lemma gives_vfs_fault: "gives (steady fo m) (\<lambda>_. False) (vfs_fault e)"
  unfolding vfs_fault_def by (intro gives_if gives_rules steady_shared)

lemma gives_or_vfs_fault: "(\<And>a. r = Inr a \<Longrightarrow> Q a) \<Longrightarrow> gives (steady fo m) Q (or_vfs_fault r)"
  using gives_vfs_fault [of fo m] unfolding or_vfs_fault_def
  by (cases r) (auto simp: ret_def gives_def gives_at_def)

lemma gives_read_file:
  fixes fo :: "('w, 'f) file_ops"
  assumes "honest fo"
  shows "gives (steady fo m) (within (length buf))
    (bnd (file_read k f buf) (\<lambda>(r, b). bnd (or_vfs_fault r) (\<lambda>n. ret (n, b))))"
proof (rule gives_bnd)
  have k: "keeps (steady fo m) (file_read k f buf)"
    unfolding file_read_def by (rule steady_now)
  show "gives (steady fo m) (\<lambda>(r, b). \<forall>n. r = Inr n \<longrightarrow> n \<le> length buf) (file_read k f buf)"
  proof (rule gives_of_at)
    fix s :: "('w, 'f) st"
    obtain r b f' w' where "fo_read (o_fops (sh_out (sh s))) buf f (o_world (sh_out (sh s))) = (r, b, f', w')"
      by (metis prod_cases4)
    then have "fst (file_read k f buf s) = Inr (r, fit buf b)"
      and "o_fops (sh_out (sh s)) = fo \<Longrightarrow> r = Inr n \<Longrightarrow> n \<le> length buf" for n
      using assms by (auto simp: file_read_def file_op_def run_def Let_def read_into_def honest_def) (metis fst_conv)
    then show "gives_at s (steady fo m) (\<lambda>(r, b). \<forall>n. r = Inr n \<longrightarrow> n \<le> length buf) (file_read k f buf)"
      using keepsD [OF k, where s = s] by (auto simp: gives_at_def)
  qed
next
  fix x :: "nat vfs_result \<times> bytes"
  assume "case x of (r, b) \<Rightarrow> \<forall>n. r = Inr n \<longrightarrow> n \<le> length buf"
  moreover have "gives (steady fo m) (within (length buf)) (bnd (or_vfs_fault (Inl e)) (\<lambda>n. ret (n, b)))" for e b
    unfolding or_vfs_fault_def by (simp, rule gives_bnd, rule gives_vfs_fault, simp)
  moreover have "gives (steady fo m) (within (length buf)) (ret (n, b))" if "n \<le> length buf" for n and b :: bytes
    using that by (simp add: gives_simple)
  ultimately show "gives (steady fo m) (within (length buf)) (case x of (r, b) \<Rightarrow> bnd (or_vfs_fault r) (\<lambda>n. ret (n, b)))"
    by (cases x; cases "fst x") (simp_all add: or_vfs_fault_def bnd_ret)
qed

lemma gives_kind:
  assumes "\<And>f m c. gives P Q (k1 f m c)" "\<And>e p. gives P Q (k2 e p)" "\<And>d p. gives P Q (k3 d p)"
    "\<And>k. gives P Q (k4 k)" "\<And>k. gives P Q (k5 k)" "gives P Q k6" "\<And>n. gives P Q (k7 n)"
    "gives P Q k8" "gives P Q k9" "gives P Q k10"
  shows "gives P Q (case d of KFile f m c \<Rightarrow> k1 f m c | KDir e p \<Rightarrow> k2 e p | KMemory x p \<Rightarrow> k3 x p
    | KPipeRead k \<Rightarrow> k4 k | KPipeWrite k \<Rightarrow> k5 k | KStdin \<Rightarrow> k6 | KStdout n \<Rightarrow> k7 n
    | KNull \<Rightarrow> k8 | KZero \<Rightarrow> k9 | KRandom \<Rightarrow> k10)"
  by (cases d) (simp_all add: assms)

lemma gives_read_bytes: "honest fo \<Longrightarrow> gives (steady fo m) (within (length buf)) (read_bytes fd buf)"
  unfolding read_bytes_def Let_def
  by (intro gives_if gives_rules gives_kind gives_reads gives_read_file steady_rules steady_pipe; simp)

lemma gives_read: "honest fo \<Longrightarrow> gives (steady fo m) (\<lambda>got. 0 \<le> got) (sys_read fd at len)"
  unfolding sys_read_def
  by (intro gives_if gives_simple, simp, rule gives_bnd, erule gives_read_bytes)
    (auto simp: case_prod_beta as_i32_id intro!: gives_rules steady_put)

lemma gives_file_write:
  fixes fo :: "('w, 'f) file_ops"
  assumes "honest fo"
  shows "gives (steady fo m) (\<lambda>n. n \<le> length data) (bnd (file_op k f (\<lambda>fo f w. fo_write fo data f w)) or_vfs_fault)"
proof (rule gives_bnd)
  show "gives (steady fo m) (\<lambda>r. \<forall>n. r = Inr n \<longrightarrow> n \<le> length data) (file_op k f (\<lambda>fo f w. fo_write fo data f w))"
  proof (rule gives_of_at)
    fix s :: "('w, 'f) st"
    obtain r f' w' where "fo_write (o_fops (sh_out (sh s))) data f (o_world (sh_out (sh s))) = (r, f', w')"
      by (metis prod_cases3)
    then have "fst (file_op k f (\<lambda>fo f w. fo_write fo data f w) s) = Inr r"
      and "o_fops (sh_out (sh s)) = fo \<Longrightarrow> r = Inr n \<Longrightarrow> n \<le> length data" for n
      using assms by (auto simp: file_op_def run_def Let_def honest_def) (metis fst_conv)
    then show "gives_at s (steady fo m) (\<lambda>r. \<forall>n. r = Inr n \<longrightarrow> n \<le> length data)
        (file_op k f (\<lambda>fo f w. fo_write fo data f w))"
      using keepsD [OF steady_now(2) [of fo m k f "\<lambda>fo f w. fo_write fo data f w"], of s] by (simp add: gives_at_def)
  qed
  show "gives (steady fo m) (\<lambda>n. n \<le> length data) (or_vfs_fault r)" if "\<forall>n. r = Inr n \<longrightarrow> n \<le> length data" for r
    using that by (simp add: gives_or_vfs_fault)
qed

lemma gives_write_bytes: "honest fo \<Longrightarrow> gives (steady fo m) (\<lambda>n. n \<le> length data) (write_bytes fd data)"
  unfolding write_bytes_def write_pipe_def Let_def
  by (intro gives_if gives_rules gives_kind gives_file_write steady_rules; simp?)
    (auto simp: gives_def gives_at_def run_def write_output_def Let_def)

lemma gives_write:
  assumes "honest fo" "m < 2147483648"
  shows "gives (steady fo m) (\<lambda>got. 0 \<le> got) (sys_write fd at len)"
  unfolding sys_write_def
proof (rule gives_bnd)
  show "gives (steady fo m) (\<lambda>d. length d \<le> m) (from_mem (\<lambda>m. mem_bytes m at len))"
    by (auto simp: gives_def gives_at_def st_defs monad_simps mem_bytes_def mem_slice_def Let_def get_range_def
      split: sum.splits if_splits option.splits)
  show "gives (steady fo m) (\<lambda>got. 0 \<le> got) (bnd (write_bytes fd d) (\<lambda>n. ret (as_i32 (int n))))"
    if "length d \<le> m" for d
    using assms that by (intro gives_bnd [OF gives_write_bytes] gives_simple) (auto simp: as_i32_id)
qed

text \<open>Once a vector has moved something it does not wait.\<close>

lemma vec_moved:
  assumes "honest fo" "m < 2147483648" "0 < acc" "steady fo m s"
  shows "fst (sys_vec rd fd vec n i acc s) \<noteq> Inl FBlock"
  using assms(3,4)
proof (induction n arbitrary: i acc s)
  case (Suc n)
  let ?io = "\<lambda>at len. if rd then sys_read fd at len else sys_write fd at len"
  have io: "gives_at s (steady fo m) (\<lambda>got. 0 \<le> got) (?io at len)" for at len
    using gives_read [OF assms(1)] gives_write [OF assms(1,2)] by (auto intro: gives_at_gives)
  have step: "fst (catching (?io at len) (\<lambda>r. case r of
      Inr got \<Rightarrow> (let acc1 = sat_add_i32 acc got in if as_u32 got < len then ret acc1 else sys_vec rd fd vec n (i + 1) acc1)
    | Inl f \<Rightarrow> if 0 < acc then ret acc else fault f) s) \<noteq> Inl FBlock" for at len
  proof -
    obtain r s1 where r: "?io at len s = (r, s1)" by fastforce
    then have s1: "steady fo m s1" and got: "\<And>got. r = Inr got \<Longrightarrow> 0 \<le> got"
      using io [of at len] Suc.prems(2) by (auto simp: gives_at_def)
    show ?thesis
    proof (cases r)
      case (Inr got)
      then have "0 < sat_add_i32 acc got" using got Suc.prems(1) by (simp add: sat_add_i32_def)
      then show ?thesis using r Inr Suc.IH [OF _ s1] by (auto simp: catching_def Let_def ret_def)
    qed (use r Suc.prems(1) in \<open>simp add: catching_def ret_def\<close>)
  qed
  show ?case
    using step Suc.IH [OF Suc.prems] by (auto simp: from_mem_def monad_simps split: sum.splits)
qed (simp add: ret_def)

lemma waits_vec:
  assumes "honest (o_fops (sh_out (sh s)))" "length (g_mem (gs s)) < 2147483648"
    and "sys_vec rd fd vec n i 0 s = (Inl FBlock, s')"
  shows "visible s' = visible s"
  using assms(3)
proof (induction n arbitrary: i)
  case (Suc n)
  let ?io = "\<lambda>at len. if rd then sys_read fd at len else sys_write fd at len"
  let ?m = "length (g_mem (gs s))" and ?fo = "o_fops (sh_out (sh s))"
  show ?case
  proof (cases "\<exists>at len. len \<noteq> 0 \<and> mem_u32 (g_mem (gs s)) (vec + i * 8) = Inr at \<and> mem_u32 (g_mem (gs s)) (vec + i * 8 + 4) = Inr len")
    case False
    then show ?thesis using Suc by (auto simp: from_mem_def monad_simps split: sum.splits if_splits)
  next
    case True
    then obtain at len where at: "len \<noteq> 0" "mem_u32 (g_mem (gs s)) (vec + i * 8) = Inr at"
      "mem_u32 (g_mem (gs s)) (vec + i * 8 + 4) = Inr len" by blast
    obtain r s1 where r: "?io at len s = (r, s1)" by fastforce
    have io: "gives_at s (steady ?fo ?m) (\<lambda>got. 0 \<le> got) (?io at len)"
      using gives_read [OF assms(1)] gives_write [OF assms(1,2)] by (auto intro: gives_at_gives)
    show ?thesis
    proof (cases r)
      case (Inl f)
      then have "?io at len s = (Inl FBlock, s')"
        using r at Suc.prems by (auto simp: from_mem_def monad_simps)
      then show ?thesis
        using waits_read [of "visible s"] waits_write [of "visible s"] unfolding waits_def by (metis (full_types))
    next
      case (Inr got)
      then have "0 \<le> got" "steady ?fo ?m s1" using io r by (auto simp: gives_at_def)
      moreover have "\<not> as_u32 got < len" and "sys_vec rd fd vec n (i + 1) (sat_add_i32 0 got) s1 = (Inl FBlock, s')"
        using r Inr at Suc.prems by (auto simp: from_mem_def monad_simps Let_def split: if_splits)
      moreover have "got \<noteq> 0" using \<open>\<not> as_u32 got < len\<close> at(1) by (auto simp: as_u32_def word_gt_0)
      ultimately show ?thesis
        using vec_moved [OF assms(1,2), of "sat_add_i32 0 got" s1 rd fd vec n "i + 1"] by (simp add: sat_add_i32_def)
    qed
  qed
qed (simp add: ret_def)

section \<open>The table\<close>

lemmas waiting = waits_openat waits_statx waits_chdir waits_readlink waits_lseek waits_read waits_write
  waits_nanosleep waits_sigsuspend waits_wait4 waits_ppoll waits_pselect waits_execve
  waits_keeps [OF sees_ftruncate] waits_keeps [OF sees_paths(1)] waits_keeps [OF sees_paths(2)]
  waits_keeps [OF sees_paths(3)] waits_keeps [OF sees_paths(4)] waits_keeps [OF sees_paths(5)]
  waits_keeps [OF sees_paths(6)] waits_keeps [OF sees_paths(7)] waits_keeps [OF sees_paths(8)]

lemmas never_waiting = never_process [THEN waits_never] never_signal [THEN waits_never] never_fd [THEN waits_never]
  never_path [THEN waits_never] never_simple [THEN waits_never]

lemma waits_tables:
  "handle_process nr a = Some m \<Longrightarrow> waits (sees v) m"
  "handle_signal nr a = Some m \<Longrightarrow> nr \<noteq> NR_MMAP \<Longrightarrow> waits (sees v) m"
  "handle_fd nr a = Some m \<Longrightarrow> nr \<noteq> NR_READV \<Longrightarrow> nr \<noteq> NR_WRITEV \<Longrightarrow> waits (sees v) m"
  "handle_path nr a = Some m \<Longrightarrow> waits (sees v) m"
proof -
  have simple: "waits (sees v) (err e)" "waits (sees v) (thn (to_mem (mem_zero at k)) (ret n))" for e at k n
    by (intro waits_never never_rules; simp)+
  show "handle_process nr a = Some m \<Longrightarrow> waits (sees v) m"
    by (cases a) (auto simp: handle_process_def split: if_splits intro: simple waiting never_waiting)
  show "handle_signal nr a = Some m \<Longrightarrow> nr \<noteq> NR_MMAP \<Longrightarrow> waits (sees v) m"
    by (cases a) (auto simp: handle_signal_def split: if_splits intro: simple waiting never_waiting)
  show "handle_fd nr a = Some m \<Longrightarrow> nr \<noteq> NR_READV \<Longrightarrow> nr \<noteq> NR_WRITEV \<Longrightarrow> waits (sees v) m"
    by (cases a) (auto simp: handle_fd_def split: if_splits intro: simple waiting never_waiting)
  show "handle_path nr a = Some m \<Longrightarrow> waits (sees v) m"
    by (cases a) (auto simp: handle_path_def split: if_splits intro: simple waiting never_waiting)
qed

lemma handle_vec:
  "nr = NR_READV \<or> nr = NR_WRITEV \<Longrightarrow>
   \<exists>fd vec n. (handle nr a :: ('w, 'f, int) sys) = sys_vec (nr = NR_READV) fd vec n 0 0"
  by (cases a) (auto simp: handle_simps)

lemma waits_other:
  assumes "nr \<noteq> NR_MMAP" "nr \<noteq> NR_READV" "nr \<noteq> NR_WRITEV"
  shows "waits (sees v) (handle nr a :: ('w, 'f, int) sys)"
proof -
  have "waits (sees v) (err ENOSYS :: ('w, 'f, int) sys)" by (rule waits_block)
  then show ?thesis
    unfolding handle_def using waits_tables [of nr a _ v] assms by (simp split: option.split)
qed

lemma waits_handle:
  assumes "honest (o_fops (sh_out (sh s)))" "length (g_mem (gs s)) < 2147483648" "nr \<noteq> NR_MMAP"
    and "handle nr a s = (Inl FBlock, s')"
  shows "visible s' = visible s"
proof (cases "nr = NR_READV \<or> nr = NR_WRITEV")
  case True
  show ?thesis
    using handle_vec [OF True, of a] waits_vec [OF assms(1,2)] assms(4) by metis
next
  case False
  then have "waits (sees (visible s)) (handle nr a)" using waits_other [OF assms(3)] by simp
  then show ?thesis using assms(4) unfolding waits_def by blast
qed

text \<open>
  C30: a system call that waits is not seen.  Whatever the call (but \<open>mmap\<close>), if it comes back as one that
  waits, then memory, registers, descriptors and their positions, pipes, the process table, the
  signal mask, standard input and output, and the accounting are what they were before it; the call
  can be made again from its start as if it had never been tried.  Files must not report more bytes than they
  were given, and memory must be below 2 GiB, where a count does not turn negative.
\<close>

theorem waiting_unseen:
  assumes "honest (o_fops (sh_out (sh s)))" "length (g_mem (gs s)) < 2147483648" "nr \<noteq> NR_MMAP"
    and "dispatch nr a s = (OBlocked, s')"
  shows "visible s' = visible s"
proof -
  have "handle nr a (count_syscall s) = (Inl FBlock, s')"
    using assms(4) by (auto simp: dispatch_def split: prod.splits sum.splits fault.splits if_splits)
  then have "visible s' = visible (count_syscall s)"
    using assms(1-3) by (intro waits_handle) (simp_all add: count_syscall_def)
  then show ?thesis by (simp add: count_syscall_def visible_def)
qed

lemma waiting_unseen_witness:
  "visible (snd (dispatch NR_READ (0, 16, 4, 0, 0, 0) one_process)) = visible one_process \<and>
   si_wanted (sh_stdin (sh (snd (dispatch NR_READ (0, 16, 4, 0, 0, 0) one_process))))"
proof -
  let ?s = "snd (dispatch NR_READ (0, 16, 4, 0, 0, 0) one_process)" and ?s0 = "count_syscall one_process"
  let ?s1 = "sh_update (sh_stdin_update (si_wanted_update (\<lambda>_. True))) ?s0"
  have fd: "fdt_get (t_fds (the_task ?s0)) 0 = Inr \<lparr>fd_desc = 0, fd_cloexec = False\<rparr>"
    and desc: "slab_get (sh_descs (sh ?s0)) 0 = Some (desc_new KStdin ''/dev/stdin'' O_RDONLY)"
    and empty: "si_data (sh_stdin (sh ?s0)) = []" "\<not> si_closed (sh_stdin (sh ?s0))"
    and quiet: "\<not> interrupted ?s1"
    by (simp_all add: count_syscall_def one_process_def one_ctx_def task_new_def std_fds_def fdt_get_def get_slot_def
        get_at_def one_shared_def std_descs_def shared_new_def slab_get_def stdin_empty_def interrupted_def
        proc_record_new_def record_of_def pending_of_def live_signals_def triage_def)
  have "readable (desc_new KStdin ''/dev/stdin'' O_RDONLY :: unit desc)"
    "\<not> is_nonblocking (desc_new KStdin ''/dev/stdin'' O_RDONLY :: unit desc)"
    by (simp_all add: readable_def is_nonblocking_def desc_new_def)
  then have read: "sys_read 0 16 4 ?s0 = (Inl FBlock, ?s1)"
    using fd desc empty
    by (simp add: sys_read_def read_bytes_def read_stdin_def st_defs monad_simps Let_def desc_new_def)
  have handle: "handle NR_READ (0, 16, 4, 0, 0, 0) ?s0 = (Inl FBlock, ?s1)"
    unfolding read [symmetric] by (simp add: handle_simps)
  have e: "dispatch NR_READ (0, 16, 4, 0, 0, 0) one_process = (OBlocked, ?s1)"
    unfolding dispatch_def handle prod.case sum.case fault.case if_not_P [OF quiet] by (rule refl)
  have w: "si_wanted (sh_stdin (sh ?s1))" by simp
  have "honest (o_fops (sh_out (sh one_process)))" "length (g_mem (gs one_process)) < 2147483648"
    by (simp_all add: honest_def one_process_def one_shared_def shared_new_def still_world_def still_files_def one_guest_def)
  from waiting_unseen [OF this _ e] w show ?thesis unfolding e by simp
qed

end
