(* ===== verification/Trace.thy ===== *)
theory Trace
  imports Dispatch Concrete
begin

text \<open>
  The rest of \<open>nr.rs\<close>: the numbers the dispatcher does not match on, and the name of each number
  (\<open>nr::name\<close>); and the lines the kernel prints with them when \<open>WASMUX_TRACE\<close> is set (\<open>dispatch\<close> of
  \<open>kernel/syscall.rs\<close>, \<open>imports::unwind\<close> of \<open>kernel/mod.rs\<close>).
\<close>

section \<open>Numbers nobody handles\<close>

abbreviation (input) NR_ACCT :: int where "NR_ACCT \<equiv> 89"
abbreviation (input) NR_ADD_KEY :: int where "NR_ADD_KEY \<equiv> 217"
abbreviation (input) NR_ADJTIMEX :: int where "NR_ADJTIMEX \<equiv> 171"
abbreviation (input) NR_ARCH_SPECIFIC_SYSCALL :: int where "NR_ARCH_SPECIFIC_SYSCALL \<equiv> 244"
abbreviation (input) NR_BPF :: int where "NR_BPF \<equiv> 280"
abbreviation (input) NR_CAPGET :: int where "NR_CAPGET \<equiv> 90"
abbreviation (input) NR_CAPSET :: int where "NR_CAPSET \<equiv> 91"
abbreviation (input) NR_CHROOT :: int where "NR_CHROOT \<equiv> 51"
abbreviation (input) NR_CLOCK_ADJTIME64 :: int where "NR_CLOCK_ADJTIME64 \<equiv> 405"
abbreviation (input) NR_CLOCK_SETTIME64 :: int where "NR_CLOCK_SETTIME64 \<equiv> 404"
abbreviation (input) NR_CLONE3 :: int where "NR_CLONE3 \<equiv> 435"
abbreviation (input) NR_CLOSE_RANGE :: int where "NR_CLOSE_RANGE \<equiv> 436"
abbreviation (input) NR_COPY_FILE_RANGE :: int where "NR_COPY_FILE_RANGE \<equiv> 285"
abbreviation (input) NR_DELETE_MODULE :: int where "NR_DELETE_MODULE \<equiv> 106"
abbreviation (input) NR_EPOLL_CREATE1 :: int where "NR_EPOLL_CREATE1 \<equiv> 20"
abbreviation (input) NR_EPOLL_CTL :: int where "NR_EPOLL_CTL \<equiv> 21"
abbreviation (input) NR_EPOLL_PWAIT :: int where "NR_EPOLL_PWAIT \<equiv> 22"
abbreviation (input) NR_EPOLL_PWAIT2 :: int where "NR_EPOLL_PWAIT2 \<equiv> 441"
abbreviation (input) NR_EVENTFD2 :: int where "NR_EVENTFD2 \<equiv> 19"
abbreviation (input) NR_EXECVEAT :: int where "NR_EXECVEAT \<equiv> 281"
abbreviation (input) NR_FALLOCATE :: int where "NR_FALLOCATE \<equiv> 47"
abbreviation (input) NR_FANOTIFY_INIT :: int where "NR_FANOTIFY_INIT \<equiv> 262"
abbreviation (input) NR_FANOTIFY_MARK :: int where "NR_FANOTIFY_MARK \<equiv> 263"
abbreviation (input) NR_FGETXATTR :: int where "NR_FGETXATTR \<equiv> 10"
abbreviation (input) NR_FINIT_MODULE :: int where "NR_FINIT_MODULE \<equiv> 273"
abbreviation (input) NR_FLISTXATTR :: int where "NR_FLISTXATTR \<equiv> 13"
abbreviation (input) NR_FREMOVEXATTR :: int where "NR_FREMOVEXATTR \<equiv> 16"
abbreviation (input) NR_FSCONFIG :: int where "NR_FSCONFIG \<equiv> 431"
abbreviation (input) NR_FSETXATTR :: int where "NR_FSETXATTR \<equiv> 7"
abbreviation (input) NR_FSMOUNT :: int where "NR_FSMOUNT \<equiv> 432"
abbreviation (input) NR_FSOPEN :: int where "NR_FSOPEN \<equiv> 430"
abbreviation (input) NR_FSPICK :: int where "NR_FSPICK \<equiv> 433"
abbreviation (input) NR_FUTEX_TIME64 :: int where "NR_FUTEX_TIME64 \<equiv> 422"
abbreviation (input) NR_FUTEX_WAITV :: int where "NR_FUTEX_WAITV \<equiv> 449"
abbreviation (input) NR_GET_MEMPOLICY :: int where "NR_GET_MEMPOLICY \<equiv> 236"
abbreviation (input) NR_GET_ROBUST_LIST :: int where "NR_GET_ROBUST_LIST \<equiv> 100"
abbreviation (input) NR_GETCPU :: int where "NR_GETCPU \<equiv> 168"
abbreviation (input) NR_GETITIMER :: int where "NR_GETITIMER \<equiv> 102"
abbreviation (input) NR_GETPRIORITY :: int where "NR_GETPRIORITY \<equiv> 141"
abbreviation (input) NR_GETRESGID :: int where "NR_GETRESGID \<equiv> 150"
abbreviation (input) NR_GETRESUID :: int where "NR_GETRESUID \<equiv> 148"
abbreviation (input) NR_GETRLIMIT :: int where "NR_GETRLIMIT \<equiv> 163"
abbreviation (input) NR_GETXATTR :: int where "NR_GETXATTR \<equiv> 8"
abbreviation (input) NR_INIT_MODULE :: int where "NR_INIT_MODULE \<equiv> 105"
abbreviation (input) NR_INOTIFY_ADD_WATCH :: int where "NR_INOTIFY_ADD_WATCH \<equiv> 27"
abbreviation (input) NR_INOTIFY_INIT1 :: int where "NR_INOTIFY_INIT1 \<equiv> 26"
abbreviation (input) NR_INOTIFY_RM_WATCH :: int where "NR_INOTIFY_RM_WATCH \<equiv> 28"
abbreviation (input) NR_IO_CANCEL :: int where "NR_IO_CANCEL \<equiv> 3"
abbreviation (input) NR_IO_DESTROY :: int where "NR_IO_DESTROY \<equiv> 1"
abbreviation (input) NR_IO_GETEVENTS :: int where "NR_IO_GETEVENTS \<equiv> 4"
abbreviation (input) NR_IO_PGETEVENTS_TIME64 :: int where "NR_IO_PGETEVENTS_TIME64 \<equiv> 416"
abbreviation (input) NR_IO_SETUP :: int where "NR_IO_SETUP \<equiv> 0"
abbreviation (input) NR_IO_SUBMIT :: int where "NR_IO_SUBMIT \<equiv> 2"
abbreviation (input) NR_IO_URING_ENTER :: int where "NR_IO_URING_ENTER \<equiv> 426"
abbreviation (input) NR_IO_URING_REGISTER :: int where "NR_IO_URING_REGISTER \<equiv> 427"
abbreviation (input) NR_IO_URING_SETUP :: int where "NR_IO_URING_SETUP \<equiv> 425"
abbreviation (input) NR_IOPRIO_GET :: int where "NR_IOPRIO_GET \<equiv> 31"
abbreviation (input) NR_IOPRIO_SET :: int where "NR_IOPRIO_SET \<equiv> 30"
abbreviation (input) NR_KCMP :: int where "NR_KCMP \<equiv> 272"
abbreviation (input) NR_KEXEC_FILE_LOAD :: int where "NR_KEXEC_FILE_LOAD \<equiv> 294"
abbreviation (input) NR_KEXEC_LOAD :: int where "NR_KEXEC_LOAD \<equiv> 104"
abbreviation (input) NR_KEYCTL :: int where "NR_KEYCTL \<equiv> 219"
abbreviation (input) NR_LANDLOCK_ADD_RULE :: int where "NR_LANDLOCK_ADD_RULE \<equiv> 445"
abbreviation (input) NR_LANDLOCK_CREATE_RULESET :: int where "NR_LANDLOCK_CREATE_RULESET \<equiv> 444"
abbreviation (input) NR_LANDLOCK_RESTRICT_SELF :: int where "NR_LANDLOCK_RESTRICT_SELF \<equiv> 446"
abbreviation (input) NR_LGETXATTR :: int where "NR_LGETXATTR \<equiv> 9"
abbreviation (input) NR_LISTXATTR :: int where "NR_LISTXATTR \<equiv> 11"
abbreviation (input) NR_LLISTXATTR :: int where "NR_LLISTXATTR \<equiv> 12"
abbreviation (input) NR_LOOKUP_DCOOKIE :: int where "NR_LOOKUP_DCOOKIE \<equiv> 18"
abbreviation (input) NR_LREMOVEXATTR :: int where "NR_LREMOVEXATTR \<equiv> 15"
abbreviation (input) NR_LSETXATTR :: int where "NR_LSETXATTR \<equiv> 6"
abbreviation (input) NR_MBIND :: int where "NR_MBIND \<equiv> 235"
abbreviation (input) NR_MEMFD_CREATE :: int where "NR_MEMFD_CREATE \<equiv> 279"
abbreviation (input) NR_MEMFD_SECRET :: int where "NR_MEMFD_SECRET \<equiv> 447"
abbreviation (input) NR_MIGRATE_PAGES :: int where "NR_MIGRATE_PAGES \<equiv> 238"
abbreviation (input) NR_MINCORE :: int where "NR_MINCORE \<equiv> 232"
abbreviation (input) NR_MKNODAT :: int where "NR_MKNODAT \<equiv> 33"
abbreviation (input) NR_MLOCK2 :: int where "NR_MLOCK2 \<equiv> 284"
abbreviation (input) NR_MLOCKALL :: int where "NR_MLOCKALL \<equiv> 230"
abbreviation (input) NR_MOUNT :: int where "NR_MOUNT \<equiv> 40"
abbreviation (input) NR_MOUNT_SETATTR :: int where "NR_MOUNT_SETATTR \<equiv> 442"
abbreviation (input) NR_MOVE_MOUNT :: int where "NR_MOVE_MOUNT \<equiv> 429"
abbreviation (input) NR_MOVE_PAGES :: int where "NR_MOVE_PAGES \<equiv> 239"
abbreviation (input) NR_MQ_GETSETATTR :: int where "NR_MQ_GETSETATTR \<equiv> 185"
abbreviation (input) NR_MQ_NOTIFY :: int where "NR_MQ_NOTIFY \<equiv> 184"
abbreviation (input) NR_MQ_OPEN :: int where "NR_MQ_OPEN \<equiv> 180"
abbreviation (input) NR_MQ_TIMEDRECEIVE_TIME64 :: int where "NR_MQ_TIMEDRECEIVE_TIME64 \<equiv> 419"
abbreviation (input) NR_MQ_TIMEDSEND_TIME64 :: int where "NR_MQ_TIMEDSEND_TIME64 \<equiv> 418"
abbreviation (input) NR_MQ_UNLINK :: int where "NR_MQ_UNLINK \<equiv> 181"
abbreviation (input) NR_MSGCTL :: int where "NR_MSGCTL \<equiv> 187"
abbreviation (input) NR_MSGGET :: int where "NR_MSGGET \<equiv> 186"
abbreviation (input) NR_MSGRCV :: int where "NR_MSGRCV \<equiv> 188"
abbreviation (input) NR_MSGSND :: int where "NR_MSGSND \<equiv> 189"
abbreviation (input) NR_MUNLOCKALL :: int where "NR_MUNLOCKALL \<equiv> 231"
abbreviation (input) NR_NAME_TO_HANDLE_AT :: int where "NR_NAME_TO_HANDLE_AT \<equiv> 264"
abbreviation (input) NR_NFSSERVCTL :: int where "NR_NFSSERVCTL \<equiv> 42"
abbreviation (input) NR_OPEN_BY_HANDLE_AT :: int where "NR_OPEN_BY_HANDLE_AT \<equiv> 265"
abbreviation (input) NR_OPEN_TREE :: int where "NR_OPEN_TREE \<equiv> 428"
abbreviation (input) NR_OPENAT2 :: int where "NR_OPENAT2 \<equiv> 437"
abbreviation (input) NR_PERF_EVENT_OPEN :: int where "NR_PERF_EVENT_OPEN \<equiv> 241"
abbreviation (input) NR_PERSONALITY :: int where "NR_PERSONALITY \<equiv> 92"
abbreviation (input) NR_PIDFD_GETFD :: int where "NR_PIDFD_GETFD \<equiv> 438"
abbreviation (input) NR_PIDFD_OPEN :: int where "NR_PIDFD_OPEN \<equiv> 434"
abbreviation (input) NR_PIDFD_SEND_SIGNAL :: int where "NR_PIDFD_SEND_SIGNAL \<equiv> 424"
abbreviation (input) NR_PIVOT_ROOT :: int where "NR_PIVOT_ROOT \<equiv> 41"
abbreviation (input) NR_PKEY_ALLOC :: int where "NR_PKEY_ALLOC \<equiv> 289"
abbreviation (input) NR_PKEY_FREE :: int where "NR_PKEY_FREE \<equiv> 290"
abbreviation (input) NR_PKEY_MPROTECT :: int where "NR_PKEY_MPROTECT \<equiv> 288"
abbreviation (input) NR_PREAD64 :: int where "NR_PREAD64 \<equiv> 67"
abbreviation (input) NR_PREADV :: int where "NR_PREADV \<equiv> 69"
abbreviation (input) NR_PREADV2 :: int where "NR_PREADV2 \<equiv> 286"
abbreviation (input) NR_PROCESS_MADVISE :: int where "NR_PROCESS_MADVISE \<equiv> 440"
abbreviation (input) NR_PROCESS_MRELEASE :: int where "NR_PROCESS_MRELEASE \<equiv> 448"
abbreviation (input) NR_PROCESS_VM_READV :: int where "NR_PROCESS_VM_READV \<equiv> 270"
abbreviation (input) NR_PROCESS_VM_WRITEV :: int where "NR_PROCESS_VM_WRITEV \<equiv> 271"
abbreviation (input) NR_PTRACE :: int where "NR_PTRACE \<equiv> 117"
abbreviation (input) NR_PWRITE64 :: int where "NR_PWRITE64 \<equiv> 68"
abbreviation (input) NR_PWRITEV :: int where "NR_PWRITEV \<equiv> 70"
abbreviation (input) NR_PWRITEV2 :: int where "NR_PWRITEV2 \<equiv> 287"
abbreviation (input) NR_QUOTACTL :: int where "NR_QUOTACTL \<equiv> 60"
abbreviation (input) NR_QUOTACTL_FD :: int where "NR_QUOTACTL_FD \<equiv> 443"
abbreviation (input) NR_READAHEAD :: int where "NR_READAHEAD \<equiv> 213"
abbreviation (input) NR_REBOOT :: int where "NR_REBOOT \<equiv> 142"
abbreviation (input) NR_RECVMMSG_TIME64 :: int where "NR_RECVMMSG_TIME64 \<equiv> 417"
abbreviation (input) NR_REMAP_FILE_PAGES :: int where "NR_REMAP_FILE_PAGES \<equiv> 234"
abbreviation (input) NR_REMOVEXATTR :: int where "NR_REMOVEXATTR \<equiv> 14"
abbreviation (input) NR_REQUEST_KEY :: int where "NR_REQUEST_KEY \<equiv> 218"
abbreviation (input) NR_RESTART_SYSCALL :: int where "NR_RESTART_SYSCALL \<equiv> 128"
abbreviation (input) NR_RT_SIGQUEUEINFO :: int where "NR_RT_SIGQUEUEINFO \<equiv> 138"
abbreviation (input) NR_RT_SIGTIMEDWAIT_TIME64 :: int where "NR_RT_SIGTIMEDWAIT_TIME64 \<equiv> 421"
abbreviation (input) NR_RT_TGSIGQUEUEINFO :: int where "NR_RT_TGSIGQUEUEINFO \<equiv> 240"
abbreviation (input) NR_SCHED_GET_PRIORITY_MAX :: int where "NR_SCHED_GET_PRIORITY_MAX \<equiv> 125"
abbreviation (input) NR_SCHED_GET_PRIORITY_MIN :: int where "NR_SCHED_GET_PRIORITY_MIN \<equiv> 126"
abbreviation (input) NR_SCHED_GETATTR :: int where "NR_SCHED_GETATTR \<equiv> 275"
abbreviation (input) NR_SCHED_GETPARAM :: int where "NR_SCHED_GETPARAM \<equiv> 121"
abbreviation (input) NR_SCHED_GETSCHEDULER :: int where "NR_SCHED_GETSCHEDULER \<equiv> 120"
abbreviation (input) NR_SCHED_RR_GET_INTERVAL_TIME64 :: int where "NR_SCHED_RR_GET_INTERVAL_TIME64 \<equiv> 423"
abbreviation (input) NR_SCHED_SETAFFINITY :: int where "NR_SCHED_SETAFFINITY \<equiv> 122"
abbreviation (input) NR_SCHED_SETATTR :: int where "NR_SCHED_SETATTR \<equiv> 274"
abbreviation (input) NR_SCHED_SETPARAM :: int where "NR_SCHED_SETPARAM \<equiv> 118"
abbreviation (input) NR_SCHED_SETSCHEDULER :: int where "NR_SCHED_SETSCHEDULER \<equiv> 119"
abbreviation (input) NR_SECCOMP :: int where "NR_SECCOMP \<equiv> 277"
abbreviation (input) NR_SEMCTL :: int where "NR_SEMCTL \<equiv> 191"
abbreviation (input) NR_SEMGET :: int where "NR_SEMGET \<equiv> 190"
abbreviation (input) NR_SEMOP :: int where "NR_SEMOP \<equiv> 193"
abbreviation (input) NR_SEMTIMEDOP_TIME64 :: int where "NR_SEMTIMEDOP_TIME64 \<equiv> 420"
abbreviation (input) NR_SENDFILE :: int where "NR_SENDFILE \<equiv> 71"
abbreviation (input) NR_SENDMMSG :: int where "NR_SENDMMSG \<equiv> 269"
abbreviation (input) NR_SET_MEMPOLICY :: int where "NR_SET_MEMPOLICY \<equiv> 237"
abbreviation (input) NR_SET_MEMPOLICY_HOME_NODE :: int where "NR_SET_MEMPOLICY_HOME_NODE \<equiv> 450"
abbreviation (input) NR_SETDOMAINNAME :: int where "NR_SETDOMAINNAME \<equiv> 162"
abbreviation (input) NR_SETFSGID :: int where "NR_SETFSGID \<equiv> 152"
abbreviation (input) NR_SETFSUID :: int where "NR_SETFSUID \<equiv> 151"
abbreviation (input) NR_SETHOSTNAME :: int where "NR_SETHOSTNAME \<equiv> 161"
abbreviation (input) NR_SETITIMER :: int where "NR_SETITIMER \<equiv> 103"
abbreviation (input) NR_SETNS :: int where "NR_SETNS \<equiv> 268"
abbreviation (input) NR_SETPRIORITY :: int where "NR_SETPRIORITY \<equiv> 140"
abbreviation (input) NR_SETRLIMIT :: int where "NR_SETRLIMIT \<equiv> 164"
abbreviation (input) NR_SETTIMEOFDAY :: int where "NR_SETTIMEOFDAY \<equiv> 170"
abbreviation (input) NR_SETXATTR :: int where "NR_SETXATTR \<equiv> 5"
abbreviation (input) NR_SHMAT :: int where "NR_SHMAT \<equiv> 196"
abbreviation (input) NR_SHMCTL :: int where "NR_SHMCTL \<equiv> 195"
abbreviation (input) NR_SHMDT :: int where "NR_SHMDT \<equiv> 197"
abbreviation (input) NR_SHMGET :: int where "NR_SHMGET \<equiv> 194"
abbreviation (input) NR_SIGNALFD4 :: int where "NR_SIGNALFD4 \<equiv> 74"
abbreviation (input) NR_SPLICE :: int where "NR_SPLICE \<equiv> 76"
abbreviation (input) NR_SWAPOFF :: int where "NR_SWAPOFF \<equiv> 225"
abbreviation (input) NR_SWAPON :: int where "NR_SWAPON \<equiv> 224"
abbreviation (input) NR_SYNC_FILE_RANGE :: int where "NR_SYNC_FILE_RANGE \<equiv> 84"
abbreviation (input) NR_SYNC_FILE_RANGE2 :: int where "NR_SYNC_FILE_RANGE2 \<equiv> 84"
abbreviation (input) NR_SYSLOG :: int where "NR_SYSLOG \<equiv> 116"
abbreviation (input) NR_TEE :: int where "NR_TEE \<equiv> 77"
abbreviation (input) NR_TIMER_CREATE :: int where "NR_TIMER_CREATE \<equiv> 107"
abbreviation (input) NR_TIMER_DELETE :: int where "NR_TIMER_DELETE \<equiv> 111"
abbreviation (input) NR_TIMER_GETOVERRUN :: int where "NR_TIMER_GETOVERRUN \<equiv> 109"
abbreviation (input) NR_TIMER_GETTIME :: int where "NR_TIMER_GETTIME \<equiv> 108"
abbreviation (input) NR_TIMER_GETTIME64 :: int where "NR_TIMER_GETTIME64 \<equiv> 408"
abbreviation (input) NR_TIMER_SETTIME :: int where "NR_TIMER_SETTIME \<equiv> 110"
abbreviation (input) NR_TIMER_SETTIME64 :: int where "NR_TIMER_SETTIME64 \<equiv> 409"
abbreviation (input) NR_TIMERFD_CREATE :: int where "NR_TIMERFD_CREATE \<equiv> 85"
abbreviation (input) NR_TIMERFD_GETTIME64 :: int where "NR_TIMERFD_GETTIME64 \<equiv> 410"
abbreviation (input) NR_TIMERFD_SETTIME64 :: int where "NR_TIMERFD_SETTIME64 \<equiv> 411"
abbreviation (input) NR_UMOUNT2 :: int where "NR_UMOUNT2 \<equiv> 39"
abbreviation (input) NR_UNSHARE :: int where "NR_UNSHARE \<equiv> 97"
abbreviation (input) NR_USERFAULTFD :: int where "NR_USERFAULTFD \<equiv> 282"
abbreviation (input) NR_VHANGUP :: int where "NR_VHANGUP \<equiv> 58"
abbreviation (input) NR_VMSPLICE :: int where "NR_VMSPLICE \<equiv> 75"
abbreviation (input) NR_WAITID :: int where "NR_WAITID \<equiv> 95"

section \<open>Names\<close>

definition nr_names1 :: "(int \<times> string) list" where
  "nr_names1 =
    [(0, ''io_setup''), (1, ''io_destroy''), (2, ''io_submit''), (3, ''io_cancel''), (4, ''io_getevents''),
     (5, ''setxattr''), (6, ''lsetxattr''), (7, ''fsetxattr''), (8, ''getxattr''), (9, ''lgetxattr''),
     (10, ''fgetxattr''), (11, ''listxattr''), (12, ''llistxattr''), (13, ''flistxattr''),
     (14, ''removexattr''), (15, ''lremovexattr''), (16, ''fremovexattr''), (17, ''getcwd''),
     (18, ''lookup_dcookie''), (19, ''eventfd2''), (20, ''epoll_create1''), (21, ''epoll_ctl''),
     (22, ''epoll_pwait''), (23, ''dup''), (24, ''dup3''), (25, ''fcntl''), (26, ''inotify_init1''),
     (27, ''inotify_add_watch''), (28, ''inotify_rm_watch''), (29, ''ioctl''), (30, ''ioprio_set''),
     (31, ''ioprio_get''), (32, ''flock''), (33, ''mknodat''), (34, ''mkdirat''), (35, ''unlinkat''),
     (36, ''symlinkat''), (37, ''linkat''), (38, ''renameat''), (39, ''umount2''), (40, ''mount''),
     (41, ''pivot_root''), (42, ''nfsservctl''), (43, ''statfs''), (44, ''fstatfs''), (45, ''truncate''),
     (46, ''ftruncate''), (47, ''fallocate''), (48, ''faccessat''), (49, ''chdir''), (50, ''fchdir''),
     (51, ''chroot''), (52, ''fchmod''), (53, ''fchmodat''), (54, ''fchownat''), (55, ''fchown''),
     (56, ''openat''), (57, ''close''), (58, ''vhangup''), (59, ''pipe2''), (60, ''quotactl''),
     (61, ''getdents64''), (62, ''lseek''), (63, ''read''), (64, ''write''), (65, ''readv''), (66, ''writev''),
     (67, ''pread64''), (68, ''pwrite64''), (69, ''preadv''), (70, ''pwritev''), (71, ''sendfile''),
     (74, ''signalfd4''), (75, ''vmsplice''), (76, ''splice''), (77, ''tee''), (78, ''readlinkat''),
     (79, ''newfstatat''), (80, ''fstat''), (81, ''sync''), (82, ''fsync''), (83, ''fdatasync''),
     (84, ''sync_file_range''), (85, ''timerfd_create''), (89, ''acct''), (90, ''capget''), (91, ''capset''),
     (92, ''personality''), (93, ''exit''), (94, ''exit_group''), (95, ''waitid''), (96, ''set_tid_address''),
     (97, ''unshare''), (99, ''set_robust_list''), (100, ''get_robust_list''), (101, ''nanosleep''),
     (102, ''getitimer''), (103, ''setitimer''), (104, ''kexec_load''), (105, ''init_module''),
     (106, ''delete_module''), (107, ''timer_create''), (108, ''timer_gettime''), (109, ''timer_getoverrun''),
     (110, ''timer_settime''), (111, ''timer_delete''), (116, ''syslog''), (117, ''ptrace''),
     (118, ''sched_setparam''), (119, ''sched_setscheduler''), (120, ''sched_getscheduler''),
     (121, ''sched_getparam''), (122, ''sched_setaffinity''), (123, ''sched_getaffinity''),
     (124, ''sched_yield''), (125, ''sched_get_priority_max''), (126, ''sched_get_priority_min''),
     (128, ''restart_syscall''), (129, ''kill''), (130, ''tkill''), (131, ''tgkill''), (132, ''sigaltstack''),
     (133, ''rt_sigsuspend''), (134, ''rt_sigaction''), (135, ''rt_sigprocmask''), (136, ''rt_sigpending''),
     (138, ''rt_sigqueueinfo''), (139, ''rt_sigreturn''), (140, ''setpriority''), (141, ''getpriority''),
     (142, ''reboot''), (143, ''setregid''), (144, ''setgid''), (145, ''setreuid''), (146, ''setuid''),
     (147, ''setresuid''), (148, ''getresuid''), (149, ''setresgid''), (150, ''getresgid''),
     (151, ''setfsuid''), (152, ''setfsgid''), (153, ''times''), (154, ''setpgid''), (155, ''getpgid''),
     (156, ''getsid''), (157, ''setsid''), (158, ''getgroups''), (159, ''setgroups''), (160, ''uname''),
     (161, ''sethostname'')]"

definition nr_names2 :: "(int \<times> string) list" where
  "nr_names2 =
    [(162, ''setdomainname''), (163, ''getrlimit''), (164, ''setrlimit''), (165, ''getrusage''),
     (166, ''umask''), (167, ''prctl''), (168, ''getcpu''), (169, ''gettimeofday''), (170, ''settimeofday''),
     (171, ''adjtimex''), (172, ''getpid''), (173, ''getppid''), (174, ''getuid''), (175, ''geteuid''),
     (176, ''getgid''), (177, ''getegid''), (178, ''gettid''), (179, ''sysinfo''), (180, ''mq_open''),
     (181, ''mq_unlink''), (184, ''mq_notify''), (185, ''mq_getsetattr''), (186, ''msgget''),
     (187, ''msgctl''), (188, ''msgrcv''), (189, ''msgsnd''), (190, ''semget''), (191, ''semctl''),
     (193, ''semop''), (194, ''shmget''), (195, ''shmctl''), (196, ''shmat''), (197, ''shmdt''),
     (198, ''socket''), (199, ''socketpair''), (200, ''bind''), (201, ''listen''), (202, ''accept''),
     (203, ''connect''), (204, ''getsockname''), (205, ''getpeername''), (206, ''sendto''),
     (207, ''recvfrom''), (208, ''setsockopt''), (209, ''getsockopt''), (210, ''shutdown''),
     (211, ''sendmsg''), (212, ''recvmsg''), (213, ''readahead''), (214, ''brk''), (215, ''munmap''),
     (216, ''mremap''), (217, ''add_key''), (218, ''request_key''), (219, ''keyctl''), (220, ''clone''),
     (221, ''execve''), (222, ''mmap''), (223, ''fadvise64''), (224, ''swapon''), (225, ''swapoff''),
     (226, ''mprotect''), (227, ''msync''), (228, ''mlock''), (229, ''munlock''), (230, ''mlockall''),
     (231, ''munlockall''), (232, ''mincore''), (233, ''madvise''), (234, ''remap_file_pages''),
     (235, ''mbind''), (236, ''get_mempolicy''), (237, ''set_mempolicy''), (238, ''migrate_pages''),
     (239, ''move_pages''), (240, ''rt_tgsigqueueinfo''), (241, ''perf_event_open''), (242, ''accept4''),
     (244, ''arch_specific_syscall''), (260, ''wait4''), (261, ''prlimit64''), (262, ''fanotify_init''),
     (263, ''fanotify_mark''), (264, ''name_to_handle_at''), (265, ''open_by_handle_at''), (267, ''syncfs''),
     (268, ''setns''), (269, ''sendmmsg''), (270, ''process_vm_readv''), (271, ''process_vm_writev''),
     (272, ''kcmp''), (273, ''finit_module''), (274, ''sched_setattr''), (275, ''sched_getattr''),
     (276, ''renameat2''), (277, ''seccomp''), (278, ''getrandom''), (279, ''memfd_create''), (280, ''bpf''),
     (281, ''execveat''), (282, ''userfaultfd''), (283, ''membarrier''), (284, ''mlock2''),
     (285, ''copy_file_range''), (286, ''preadv2''), (287, ''pwritev2''), (288, ''pkey_mprotect''),
     (289, ''pkey_alloc''), (290, ''pkey_free''), (291, ''statx''), (293, ''rseq''),
     (294, ''kexec_file_load''), (403, ''clock_gettime64''), (404, ''clock_settime64''),
     (405, ''clock_adjtime64''), (406, ''clock_getres_time64''), (407, ''clock_nanosleep_time64''),
     (408, ''timer_gettime64''), (409, ''timer_settime64''), (410, ''timerfd_gettime64''),
     (411, ''timerfd_settime64''), (412, ''utimensat_time64''), (413, ''pselect6_time64''),
     (414, ''ppoll_time64''), (416, ''io_pgetevents_time64''), (417, ''recvmmsg_time64''),
     (418, ''mq_timedsend_time64''), (419, ''mq_timedreceive_time64''), (420, ''semtimedop_time64''),
     (421, ''rt_sigtimedwait_time64''), (422, ''futex_time64''), (423, ''sched_rr_get_interval_time64''),
     (424, ''pidfd_send_signal''), (425, ''io_uring_setup''), (426, ''io_uring_enter''),
     (427, ''io_uring_register''), (428, ''open_tree''), (429, ''move_mount''), (430, ''fsopen''),
     (431, ''fsconfig''), (432, ''fsmount''), (433, ''fspick''), (434, ''pidfd_open''), (435, ''clone3''),
     (436, ''close_range''), (437, ''openat2''), (438, ''pidfd_getfd''), (439, ''faccessat2''),
     (440, ''process_madvise''), (441, ''epoll_pwait2'')]"

definition nr_names3 :: "(int \<times> string) list" where
  "nr_names3 =
    [(442, ''mount_setattr''), (443, ''quotactl_fd''), (444, ''landlock_create_ruleset''),
     (445, ''landlock_add_rule''), (446, ''landlock_restrict_self''), (447, ''memfd_secret''),
     (448, ''process_mrelease''), (449, ''futex_waitv''), (450, ''set_mempolicy_home_node'')]"

definition nr_arms :: "(int \<times> string) list" where
  "nr_arms = nr_names1 @ nr_names2 @ nr_names3"

definition nr_name :: "int \<Rightarrow> string" where
  "nr_name n = (case map_of nr_arms n of Some name \<Rightarrow> name | None \<Rightarrow> ''?'')"

section \<open>Lines\<close>

text \<open>\<open>{:#x}\<close>, which shows a negative number by its two's complement.\<close>

definition hex_digit :: "nat \<Rightarrow> char" where
  "hex_digit d = char_of (if d < 10 then 48 + d else 87 + d)"

fun show_hex :: "nat \<Rightarrow> string" where
  "show_hex n = (if n < 16 then [hex_digit n] else show_hex (n div 16) @ [hex_digit (n mod 16)])"

declare show_hex.simps [simp del]

definition hex32 :: "u32 \<Rightarrow> string" where
  "hex32 w = ''0x'' @ show_hex (unat w)"

definition trace_prefix :: "int \<Rightarrow> string" where
  "trace_prefix pid = ''[wasmux '' @ show_int pid @ ''] ''"

definition trace_call :: "int \<Rightarrow> int \<Rightarrow> args \<Rightarrow> string" where
  "trace_call pid number a = (case a of (a0, a1, a2, _) \<Rightarrow>
     trace_prefix pid @ nr_name number @ ''('' @ hex32 a0 @ '', '' @ hex32 a1 @ '', '' @ hex32 a2 @ '')'')"

definition trace_unwind :: "int \<Rightarrow> suspension \<Rightarrow> string" where
  "trace_unwind pid why =
     trace_prefix pid @ ''unwind: '' @
     (case why of
        Setjmp env sp \<Rightarrow> ''setjmp '' @ hex32 env
      | Longjmp env v \<Rightarrow> ''longjmp '' @ hex32 env @ '' -> '' @ show_int v
      | SysBlocked number a \<Rightarrow> ''block in '' @ nr_name number
      | SysExit status \<Rightarrow> ''exit '' @ hex32 (of_int status)
      | SysExec \<Rightarrow> ''exec'')"

section \<open>The table and the names\<close>

text \<open>The arms are in increasing order, so that each is reached.\<close>

lemma nr_arms_increasing: "successively (<) (map fst nr_arms)"
  by (simp add: nr_arms_def nr_names1_def nr_names2_def nr_names3_def)

lemma nr_name_arm: "(n, name) \<in> set nr_arms \<Longrightarrow> nr_name n = name"
proof -
  have "sorted_wrt (<) (map fst nr_arms)"
    using nr_arms_increasing successively_conv_sorted_wrt [of "(<) :: int \<Rightarrow> _"] by (auto simp: transp_def)
  then have "distinct (map fst nr_arms)" by (simp add: strict_sorted_iff)
  then show "(n, name) \<in> set nr_arms \<Longrightarrow> nr_name n = name" by (simp add: nr_name_def)
qed

lemma nr_name_unknown: "nr_name n = ''?'' \<longleftrightarrow> n \<notin> set (map fst nr_arms)"
proof -
  have "''?'' \<notin> set (map snd nr_arms)"
    by (simp add: nr_arms_def nr_names1_def nr_names2_def nr_names3_def)
  then have "map_of nr_arms n \<noteq> Some ''?''" by (metis map_of_SomeD in_set_zipE zip_map_fst_snd)
  moreover have "map_of nr_arms n = None \<longleftrightarrow> n \<notin> set (map fst nr_arms)"
    by (simp add: map_of_eq_None_iff)
  ultimately show ?thesis by (auto simp: nr_name_def split: option.splits)
qed

lemma unnamed_unhandled:
  assumes "nr_name nr = ''?''"
  shows "(handle nr a :: ('w, 'f, int) sys) = err ENOSYS"
proof -
  obtain a0 a1 a2 a3 a4 a5 where a: "a = (a0, a1, a2, a3, a4, a5)" by (metis prod_cases6)
  have "nr \<notin> set (map fst nr_arms)" using assms by (simp add: nr_name_unknown)
  then have "(handle_process nr a :: ('w, 'f, int) sys option) = None" "(handle_signal nr a :: ('w, 'f, int) sys option) = None"
    "(handle_fd nr a :: ('w, 'f, int) sys option) = None" "(handle_path nr a :: ('w, 'f, int) sys option) = None"
    by (simp_all add: a handle_process_def handle_signal_def handle_fd_def handle_path_def
        nr_arms_def nr_names1_def nr_names2_def nr_names3_def)
  then show ?thesis by (simp add: handle_def)
qed

text \<open>ASCII letters in lower case.\<close>

definition lower :: "char \<Rightarrow> char" where
  "lower c = (let n = of_char c :: nat in if 65 \<le> n \<and> n \<le> 90 then char_of (n + 32) else c)"

text \<open>The constants in the order of their numbers, but for \<open>SYNC_FILE_RANGE2\<close>, a second one for 84.\<close>

definition nr_constants :: "(string \<times> int) list" where
  "nr_constants =
    [(''IO_SETUP'', NR_IO_SETUP), (''IO_DESTROY'', NR_IO_DESTROY), (''IO_SUBMIT'', NR_IO_SUBMIT),
     (''IO_CANCEL'', NR_IO_CANCEL), (''IO_GETEVENTS'', NR_IO_GETEVENTS), (''SETXATTR'', NR_SETXATTR),
     (''LSETXATTR'', NR_LSETXATTR), (''FSETXATTR'', NR_FSETXATTR), (''GETXATTR'', NR_GETXATTR),
     (''LGETXATTR'', NR_LGETXATTR), (''FGETXATTR'', NR_FGETXATTR), (''LISTXATTR'', NR_LISTXATTR),
     (''LLISTXATTR'', NR_LLISTXATTR), (''FLISTXATTR'', NR_FLISTXATTR), (''REMOVEXATTR'', NR_REMOVEXATTR),
     (''LREMOVEXATTR'', NR_LREMOVEXATTR), (''FREMOVEXATTR'', NR_FREMOVEXATTR), (''GETCWD'', NR_GETCWD),
     (''LOOKUP_DCOOKIE'', NR_LOOKUP_DCOOKIE), (''EVENTFD2'', NR_EVENTFD2),
     (''EPOLL_CREATE1'', NR_EPOLL_CREATE1), (''EPOLL_CTL'', NR_EPOLL_CTL), (''EPOLL_PWAIT'', NR_EPOLL_PWAIT),
     (''DUP'', NR_DUP), (''DUP3'', NR_DUP3), (''FCNTL'', NR_FCNTL), (''INOTIFY_INIT1'', NR_INOTIFY_INIT1),
     (''INOTIFY_ADD_WATCH'', NR_INOTIFY_ADD_WATCH), (''INOTIFY_RM_WATCH'', NR_INOTIFY_RM_WATCH),
     (''IOCTL'', NR_IOCTL), (''IOPRIO_SET'', NR_IOPRIO_SET), (''IOPRIO_GET'', NR_IOPRIO_GET),
     (''FLOCK'', NR_FLOCK), (''MKNODAT'', NR_MKNODAT), (''MKDIRAT'', NR_MKDIRAT), (''UNLINKAT'', NR_UNLINKAT),
     (''SYMLINKAT'', NR_SYMLINKAT), (''LINKAT'', NR_LINKAT), (''RENAMEAT'', NR_RENAMEAT),
     (''UMOUNT2'', NR_UMOUNT2), (''MOUNT'', NR_MOUNT), (''PIVOT_ROOT'', NR_PIVOT_ROOT),
     (''NFSSERVCTL'', NR_NFSSERVCTL), (''STATFS'', NR_STATFS), (''FSTATFS'', NR_FSTATFS),
     (''TRUNCATE'', NR_TRUNCATE), (''FTRUNCATE'', NR_FTRUNCATE), (''FALLOCATE'', NR_FALLOCATE),
     (''FACCESSAT'', NR_FACCESSAT), (''CHDIR'', NR_CHDIR), (''FCHDIR'', NR_FCHDIR), (''CHROOT'', NR_CHROOT),
     (''FCHMOD'', NR_FCHMOD), (''FCHMODAT'', NR_FCHMODAT), (''FCHOWNAT'', NR_FCHOWNAT),
     (''FCHOWN'', NR_FCHOWN), (''OPENAT'', NR_OPENAT), (''CLOSE'', NR_CLOSE), (''VHANGUP'', NR_VHANGUP),
     (''PIPE2'', NR_PIPE2), (''QUOTACTL'', NR_QUOTACTL), (''GETDENTS64'', NR_GETDENTS64),
     (''LSEEK'', NR_LSEEK), (''READ'', NR_READ), (''WRITE'', NR_WRITE), (''READV'', NR_READV),
     (''WRITEV'', NR_WRITEV), (''PREAD64'', NR_PREAD64), (''PWRITE64'', NR_PWRITE64), (''PREADV'', NR_PREADV),
     (''PWRITEV'', NR_PWRITEV), (''SENDFILE'', NR_SENDFILE), (''SIGNALFD4'', NR_SIGNALFD4),
     (''VMSPLICE'', NR_VMSPLICE), (''SPLICE'', NR_SPLICE), (''TEE'', NR_TEE), (''READLINKAT'', NR_READLINKAT),
     (''NEWFSTATAT'', NR_NEWFSTATAT), (''FSTAT'', NR_FSTAT), (''SYNC'', NR_SYNC), (''FSYNC'', NR_FSYNC),
     (''FDATASYNC'', NR_FDATASYNC), (''SYNC_FILE_RANGE'', NR_SYNC_FILE_RANGE),
     (''TIMERFD_CREATE'', NR_TIMERFD_CREATE), (''ACCT'', NR_ACCT), (''CAPGET'', NR_CAPGET),
     (''CAPSET'', NR_CAPSET), (''PERSONALITY'', NR_PERSONALITY), (''EXIT'', NR_EXIT),
     (''EXIT_GROUP'', NR_EXIT_GROUP), (''WAITID'', NR_WAITID), (''SET_TID_ADDRESS'', NR_SET_TID_ADDRESS),
     (''UNSHARE'', NR_UNSHARE), (''SET_ROBUST_LIST'', NR_SET_ROBUST_LIST),
     (''GET_ROBUST_LIST'', NR_GET_ROBUST_LIST), (''NANOSLEEP'', NR_NANOSLEEP), (''GETITIMER'', NR_GETITIMER),
     (''SETITIMER'', NR_SETITIMER), (''KEXEC_LOAD'', NR_KEXEC_LOAD), (''INIT_MODULE'', NR_INIT_MODULE),
     (''DELETE_MODULE'', NR_DELETE_MODULE), (''TIMER_CREATE'', NR_TIMER_CREATE),
     (''TIMER_GETTIME'', NR_TIMER_GETTIME), (''TIMER_GETOVERRUN'', NR_TIMER_GETOVERRUN),
     (''TIMER_SETTIME'', NR_TIMER_SETTIME), (''TIMER_DELETE'', NR_TIMER_DELETE), (''SYSLOG'', NR_SYSLOG),
     (''PTRACE'', NR_PTRACE), (''SCHED_SETPARAM'', NR_SCHED_SETPARAM),
     (''SCHED_SETSCHEDULER'', NR_SCHED_SETSCHEDULER), (''SCHED_GETSCHEDULER'', NR_SCHED_GETSCHEDULER),
     (''SCHED_GETPARAM'', NR_SCHED_GETPARAM), (''SCHED_SETAFFINITY'', NR_SCHED_SETAFFINITY),
     (''SCHED_GETAFFINITY'', NR_SCHED_GETAFFINITY), (''SCHED_YIELD'', NR_SCHED_YIELD),
     (''SCHED_GET_PRIORITY_MAX'', NR_SCHED_GET_PRIORITY_MAX),
     (''SCHED_GET_PRIORITY_MIN'', NR_SCHED_GET_PRIORITY_MIN), (''RESTART_SYSCALL'', NR_RESTART_SYSCALL),
     (''KILL'', NR_KILL), (''TKILL'', NR_TKILL), (''TGKILL'', NR_TGKILL), (''SIGALTSTACK'', NR_SIGALTSTACK),
     (''RT_SIGSUSPEND'', NR_RT_SIGSUSPEND), (''RT_SIGACTION'', NR_RT_SIGACTION),
     (''RT_SIGPROCMASK'', NR_RT_SIGPROCMASK), (''RT_SIGPENDING'', NR_RT_SIGPENDING),
     (''RT_SIGQUEUEINFO'', NR_RT_SIGQUEUEINFO), (''RT_SIGRETURN'', NR_RT_SIGRETURN),
     (''SETPRIORITY'', NR_SETPRIORITY), (''GETPRIORITY'', NR_GETPRIORITY), (''REBOOT'', NR_REBOOT),
     (''SETREGID'', NR_SETREGID), (''SETGID'', NR_SETGID), (''SETREUID'', NR_SETREUID),
     (''SETUID'', NR_SETUID), (''SETRESUID'', NR_SETRESUID), (''GETRESUID'', NR_GETRESUID),
     (''SETRESGID'', NR_SETRESGID), (''GETRESGID'', NR_GETRESGID), (''SETFSUID'', NR_SETFSUID),
     (''SETFSGID'', NR_SETFSGID), (''TIMES'', NR_TIMES), (''SETPGID'', NR_SETPGID), (''GETPGID'', NR_GETPGID),
     (''GETSID'', NR_GETSID), (''SETSID'', NR_SETSID), (''GETGROUPS'', NR_GETGROUPS),
     (''SETGROUPS'', NR_SETGROUPS), (''UNAME'', NR_UNAME), (''SETHOSTNAME'', NR_SETHOSTNAME),
     (''SETDOMAINNAME'', NR_SETDOMAINNAME), (''GETRLIMIT'', NR_GETRLIMIT), (''SETRLIMIT'', NR_SETRLIMIT),
     (''GETRUSAGE'', NR_GETRUSAGE), (''UMASK'', NR_UMASK), (''PRCTL'', NR_PRCTL), (''GETCPU'', NR_GETCPU),
     (''GETTIMEOFDAY'', NR_GETTIMEOFDAY), (''SETTIMEOFDAY'', NR_SETTIMEOFDAY), (''ADJTIMEX'', NR_ADJTIMEX),
     (''GETPID'', NR_GETPID), (''GETPPID'', NR_GETPPID), (''GETUID'', NR_GETUID), (''GETEUID'', NR_GETEUID),
     (''GETGID'', NR_GETGID), (''GETEGID'', NR_GETEGID), (''GETTID'', NR_GETTID), (''SYSINFO'', NR_SYSINFO),
     (''MQ_OPEN'', NR_MQ_OPEN), (''MQ_UNLINK'', NR_MQ_UNLINK), (''MQ_NOTIFY'', NR_MQ_NOTIFY),
     (''MQ_GETSETATTR'', NR_MQ_GETSETATTR), (''MSGGET'', NR_MSGGET), (''MSGCTL'', NR_MSGCTL),
     (''MSGRCV'', NR_MSGRCV), (''MSGSND'', NR_MSGSND), (''SEMGET'', NR_SEMGET), (''SEMCTL'', NR_SEMCTL),
     (''SEMOP'', NR_SEMOP), (''SHMGET'', NR_SHMGET), (''SHMCTL'', NR_SHMCTL), (''SHMAT'', NR_SHMAT),
     (''SHMDT'', NR_SHMDT), (''SOCKET'', NR_SOCKET), (''SOCKETPAIR'', NR_SOCKETPAIR), (''BIND'', NR_BIND),
     (''LISTEN'', NR_LISTEN), (''ACCEPT'', NR_ACCEPT), (''CONNECT'', NR_CONNECT),
     (''GETSOCKNAME'', NR_GETSOCKNAME), (''GETPEERNAME'', NR_GETPEERNAME), (''SENDTO'', NR_SENDTO),
     (''RECVFROM'', NR_RECVFROM), (''SETSOCKOPT'', NR_SETSOCKOPT), (''GETSOCKOPT'', NR_GETSOCKOPT),
     (''SHUTDOWN'', NR_SHUTDOWN), (''SENDMSG'', NR_SENDMSG), (''RECVMSG'', NR_RECVMSG),
     (''READAHEAD'', NR_READAHEAD), (''BRK'', NR_BRK), (''MUNMAP'', NR_MUNMAP), (''MREMAP'', NR_MREMAP),
     (''ADD_KEY'', NR_ADD_KEY), (''REQUEST_KEY'', NR_REQUEST_KEY), (''KEYCTL'', NR_KEYCTL),
     (''CLONE'', NR_CLONE), (''EXECVE'', NR_EXECVE), (''MMAP'', NR_MMAP), (''FADVISE64'', NR_FADVISE64),
     (''SWAPON'', NR_SWAPON), (''SWAPOFF'', NR_SWAPOFF), (''MPROTECT'', NR_MPROTECT), (''MSYNC'', NR_MSYNC),
     (''MLOCK'', NR_MLOCK), (''MUNLOCK'', NR_MUNLOCK), (''MLOCKALL'', NR_MLOCKALL),
     (''MUNLOCKALL'', NR_MUNLOCKALL), (''MINCORE'', NR_MINCORE), (''MADVISE'', NR_MADVISE),
     (''REMAP_FILE_PAGES'', NR_REMAP_FILE_PAGES), (''MBIND'', NR_MBIND), (''GET_MEMPOLICY'', NR_GET_MEMPOLICY),
     (''SET_MEMPOLICY'', NR_SET_MEMPOLICY), (''MIGRATE_PAGES'', NR_MIGRATE_PAGES),
     (''MOVE_PAGES'', NR_MOVE_PAGES), (''RT_TGSIGQUEUEINFO'', NR_RT_TGSIGQUEUEINFO),
     (''PERF_EVENT_OPEN'', NR_PERF_EVENT_OPEN), (''ACCEPT4'', NR_ACCEPT4),
     (''ARCH_SPECIFIC_SYSCALL'', NR_ARCH_SPECIFIC_SYSCALL), (''WAIT4'', NR_WAIT4),
     (''PRLIMIT64'', NR_PRLIMIT64), (''FANOTIFY_INIT'', NR_FANOTIFY_INIT),
     (''FANOTIFY_MARK'', NR_FANOTIFY_MARK), (''NAME_TO_HANDLE_AT'', NR_NAME_TO_HANDLE_AT),
     (''OPEN_BY_HANDLE_AT'', NR_OPEN_BY_HANDLE_AT), (''SYNCFS'', NR_SYNCFS), (''SETNS'', NR_SETNS),
     (''SENDMMSG'', NR_SENDMMSG), (''PROCESS_VM_READV'', NR_PROCESS_VM_READV),
     (''PROCESS_VM_WRITEV'', NR_PROCESS_VM_WRITEV), (''KCMP'', NR_KCMP), (''FINIT_MODULE'', NR_FINIT_MODULE),
     (''SCHED_SETATTR'', NR_SCHED_SETATTR), (''SCHED_GETATTR'', NR_SCHED_GETATTR),
     (''RENAMEAT2'', NR_RENAMEAT2), (''SECCOMP'', NR_SECCOMP), (''GETRANDOM'', NR_GETRANDOM),
     (''MEMFD_CREATE'', NR_MEMFD_CREATE), (''BPF'', NR_BPF), (''EXECVEAT'', NR_EXECVEAT),
     (''USERFAULTFD'', NR_USERFAULTFD), (''MEMBARRIER'', NR_MEMBARRIER), (''MLOCK2'', NR_MLOCK2),
     (''COPY_FILE_RANGE'', NR_COPY_FILE_RANGE), (''PREADV2'', NR_PREADV2), (''PWRITEV2'', NR_PWRITEV2),
     (''PKEY_MPROTECT'', NR_PKEY_MPROTECT), (''PKEY_ALLOC'', NR_PKEY_ALLOC), (''PKEY_FREE'', NR_PKEY_FREE),
     (''STATX'', NR_STATX), (''RSEQ'', NR_RSEQ), (''KEXEC_FILE_LOAD'', NR_KEXEC_FILE_LOAD),
     (''CLOCK_GETTIME64'', NR_CLOCK_GETTIME64), (''CLOCK_SETTIME64'', NR_CLOCK_SETTIME64),
     (''CLOCK_ADJTIME64'', NR_CLOCK_ADJTIME64), (''CLOCK_GETRES_TIME64'', NR_CLOCK_GETRES_TIME64),
     (''CLOCK_NANOSLEEP_TIME64'', NR_CLOCK_NANOSLEEP_TIME64), (''TIMER_GETTIME64'', NR_TIMER_GETTIME64),
     (''TIMER_SETTIME64'', NR_TIMER_SETTIME64), (''TIMERFD_GETTIME64'', NR_TIMERFD_GETTIME64),
     (''TIMERFD_SETTIME64'', NR_TIMERFD_SETTIME64), (''UTIMENSAT_TIME64'', NR_UTIMENSAT_TIME64),
     (''PSELECT6_TIME64'', NR_PSELECT6_TIME64), (''PPOLL_TIME64'', NR_PPOLL_TIME64),
     (''IO_PGETEVENTS_TIME64'', NR_IO_PGETEVENTS_TIME64), (''RECVMMSG_TIME64'', NR_RECVMMSG_TIME64),
     (''MQ_TIMEDSEND_TIME64'', NR_MQ_TIMEDSEND_TIME64),
     (''MQ_TIMEDRECEIVE_TIME64'', NR_MQ_TIMEDRECEIVE_TIME64), (''SEMTIMEDOP_TIME64'', NR_SEMTIMEDOP_TIME64),
     (''RT_SIGTIMEDWAIT_TIME64'', NR_RT_SIGTIMEDWAIT_TIME64), (''FUTEX_TIME64'', NR_FUTEX_TIME64),
     (''SCHED_RR_GET_INTERVAL_TIME64'', NR_SCHED_RR_GET_INTERVAL_TIME64),
     (''PIDFD_SEND_SIGNAL'', NR_PIDFD_SEND_SIGNAL), (''IO_URING_SETUP'', NR_IO_URING_SETUP),
     (''IO_URING_ENTER'', NR_IO_URING_ENTER), (''IO_URING_REGISTER'', NR_IO_URING_REGISTER),
     (''OPEN_TREE'', NR_OPEN_TREE), (''MOVE_MOUNT'', NR_MOVE_MOUNT), (''FSOPEN'', NR_FSOPEN),
     (''FSCONFIG'', NR_FSCONFIG), (''FSMOUNT'', NR_FSMOUNT), (''FSPICK'', NR_FSPICK),
     (''PIDFD_OPEN'', NR_PIDFD_OPEN), (''CLONE3'', NR_CLONE3), (''CLOSE_RANGE'', NR_CLOSE_RANGE),
     (''OPENAT2'', NR_OPENAT2), (''PIDFD_GETFD'', NR_PIDFD_GETFD), (''FACCESSAT2'', NR_FACCESSAT2),
     (''PROCESS_MADVISE'', NR_PROCESS_MADVISE), (''EPOLL_PWAIT2'', NR_EPOLL_PWAIT2),
     (''MOUNT_SETATTR'', NR_MOUNT_SETATTR), (''QUOTACTL_FD'', NR_QUOTACTL_FD),
     (''LANDLOCK_CREATE_RULESET'', NR_LANDLOCK_CREATE_RULESET), (''LANDLOCK_ADD_RULE'', NR_LANDLOCK_ADD_RULE),
     (''LANDLOCK_RESTRICT_SELF'', NR_LANDLOCK_RESTRICT_SELF), (''MEMFD_SECRET'', NR_MEMFD_SECRET),
     (''PROCESS_MRELEASE'', NR_PROCESS_MRELEASE), (''FUTEX_WAITV'', NR_FUTEX_WAITV),
     (''SET_MEMPOLICY_HOME_NODE'', NR_SET_MEMPOLICY_HOME_NODE)]"

lemma lower_letters:
  "map lower ''ABCDEFGHIJKLMNOPQRSTUVWXYZ_0123456789'' = ''abcdefghijklmnopqrstuvwxyz_0123456789''"
  by code_simp

lemma arms_of_constants: "nr_arms = map (\<lambda>(c, n). (n, map lower c)) nr_constants"
  using lower_letters by (simp add: nr_arms_def nr_names1_def nr_names2_def nr_names3_def nr_constants_def)

text \<open>
  C36: the two generated tables of \<open>nr.rs\<close> fit together and fit the dispatcher.  The names are the
  identifiers of the constants in lower case, each under the number of its constant, and every one of them is found;
  and a number without a name is not implemented: the call returns \<open>ENOSYS\<close>, and the
  line traced for it shows a question mark.
\<close>

theorem names_fit_dispatch:
  "nr_arms = map (\<lambda>(c, n). (n, map lower c)) nr_constants \<and> map (nr_name \<circ> fst) nr_arms = map snd nr_arms \<and>
   (nr_name nr = ''?'' \<longrightarrow>
     fst (dispatch nr a s) = OValue (as_neg ENOSYS) \<and>
     (\<exists>rest. trace_call pid nr a = trace_prefix pid @ ''?('' @ rest))"
proof (intro conjI)
  show "nr_arms = map (\<lambda>(c, n). (n, map lower c)) nr_constants" by (rule arms_of_constants)
  show "map (nr_name \<circ> fst) nr_arms = map snd nr_arms" by (auto intro: nr_name_arm)
  show "nr_name nr = ''?'' \<longrightarrow> fst (dispatch nr a s) = OValue (as_neg ENOSYS) \<and>
      (\<exists>rest. trace_call pid nr a = trace_prefix pid @ ''?('' @ rest)"
    by (auto simp: dispatch_def unnamed_unhandled fault_def trace_call_def split: prod.splits)
qed

lemma names_fit_dispatch_witness:
  "fst (dispatch 243 (255, 1, 2, 0, 0, 0) one_process) = OValue (- 38) \<and>
   trace_call 7 243 (255, 1, 2, 0, 0, 0) = ''[wasmux 7] ?(0xff, 0x1, 0x2)''"
proof -
  have n: "nr_name 243 = ''?''"
    by (simp add: nr_name_unknown nr_arms_def nr_names1_def nr_names2_def nr_names3_def)
  have "trace_call 7 243 (255, 1, 2, 0, 0, 0) = ''[wasmux 7] ?(0xff, 0x1, 0x2)''"
    by code_simp
  moreover have "fst (dispatch 243 (255, 1, 2, 0, 0, 0) one_process) = OValue (as_neg ENOSYS)"
    using names_fit_dispatch [THEN conjunct2, THEN conjunct2, rule_format, OF n] by blast
  ultimately show ?thesis by (simp add: as_i32_def)
qed

end
