(* ===== verification/Shelves.thy ===== *)
theory Shelves
  imports Concrete
begin

text \<open>
  Filesystems side by side, each on its own part of the world: any number of in-memory ones on the
  shelves of \<open>shelf_world\<close>, and two of different kinds over a pair.  A mount table of several
  \<open>MemVfs::new()\<close> and \<open>HostVfs\<close> is made of these.
\<close>

section \<open>Shelves\<close>

type_synonym shelf_world = "nat \<Rightarrow> mem_world"
type_synonym shelf_file = "nat \<times> mem_file"

definition on_shelf :: "nat \<Rightarrow> (mem_world, mem_file) vfs \<Rightarrow> (shelf_world, shelf_file) vfs" where
  "on_shelf i = part_vfs (\<lambda>w. w i) (\<lambda>a w. w(i := a)) (Pair i)"

definition shelf_part :: "(mem_file \<Rightarrow> mem_world \<Rightarrow> 'r \<times> mem_file \<times> mem_world) \<Rightarrow>
    shelf_file \<Rightarrow> shelf_world \<Rightarrow> 'r \<times> shelf_file \<times> shelf_world" where
  "shelf_part m f w = (case f of (i, g) \<Rightarrow> (case m g (w i) of (r, g', a) \<Rightarrow> (r, (i, g'), w(i := a))))"

definition shelf_files :: "(shelf_world, shelf_file) file_ops" where
  "shelf_files =
     \<lparr>fo_read = (\<lambda>b f w. case shelf_part (\<lambda>g a. case mem_read b g a of (r, b', g', a') \<Rightarrow> ((r, b'), g', a')) f w of
                 ((r, b'), f', w') \<Rightarrow> (r, b', f', w')),
      fo_write = (\<lambda>b. shelf_part (mem_write b)), fo_seek = (\<lambda>p. shelf_part (mem_seek p)),
      fo_stat = (\<lambda>f w. case shelf_part (\<lambda>g a. case mem_file_stat g a of (r, a') \<Rightarrow> (r, g, a')) f w of
                 (r, f', w') \<Rightarrow> (r, w')),
      fo_set_len = (\<lambda>n. shelf_part (mem_set_len n)), fo_close = (\<lambda>f w. (Inr (), f, w))\<rparr>"

section \<open>Two kinds of files\<close>

definition sum_part ::
  "('f \<Rightarrow> 'a \<Rightarrow> 'r \<times> 'f \<times> 'a) \<Rightarrow> ('g \<Rightarrow> 'b \<Rightarrow> 'r \<times> 'g \<times> 'b) \<Rightarrow> 'f + 'g \<Rightarrow> 'a \<times> 'b \<Rightarrow> 'r \<times> ('f + 'g) \<times> ('a \<times> 'b)" where
  "sum_part m n f w =
     (case f of
        Inl x \<Rightarrow> (case m x (fst w) of (r, x', a) \<Rightarrow> (r, Inl x', (a, snd w)))
      | Inr y \<Rightarrow> (case n y (snd w) of (r, y', b) \<Rightarrow> (r, Inr y', (fst w, b))))"

definition sum_files :: "('a, 'f) file_ops \<Rightarrow> ('b, 'g) file_ops \<Rightarrow> ('a \<times> 'b, 'f + 'g) file_ops" where
  "sum_files p q =
     \<lparr>fo_read = (\<lambda>b f w.
        case sum_part (\<lambda>x a. case fo_read p b x a of (r, b', x', a') \<Rightarrow> ((r, b'), x', a'))
               (\<lambda>y c. case fo_read q b y c of (r, b', y', c') \<Rightarrow> ((r, b'), y', c')) f w of
          ((r, b'), f', w') \<Rightarrow> (r, b', f', w')),
      fo_write = (\<lambda>b. sum_part (fo_write p b) (fo_write q b)),
      fo_seek = (\<lambda>s. sum_part (fo_seek p s) (fo_seek q s)),
      fo_stat = (\<lambda>f w.
        case sum_part (\<lambda>x a. case fo_stat p x a of (r, a') \<Rightarrow> (r, x, a'))
               (\<lambda>y c. case fo_stat q y c of (r, c') \<Rightarrow> (r, y, c')) f w of
          (r, f', w') \<Rightarrow> (r, w')),
      fo_set_len = (\<lambda>n. sum_part (fo_set_len p n) (fo_set_len q n)),
      fo_close = (\<lambda>f. sum_part (fo_close p) (fo_close q) f)\<rparr>"

abbreviation qt :: string where "qt \<equiv> [CHR 0x22]"
abbreviation sq :: string where "sq \<equiv> [CHR 0x27]"
abbreviation bs :: string where "bs \<equiv> [CHR 0x5C]"
abbreviation nl :: string where "nl \<equiv> [CHR 0x0A]"

end
