(* ===== verification/Corpus.thy ===== *)
theory Corpus
  imports Api Shelves Mem_Tree
begin

text \<open>
  The behaviour corpus (\<open>corpus.rs\<close>): the table of cases, the sandbox each case runs in, and the
  runner.  Each of the five in-memory filesystems has a world of its own, a shelf of the world of
  the run; the state outside at the start of each case (clock, seed) is an argument, as are the
  engine, the shipped programs and the \<open>Debug\<close> of strings.
\<close>

section \<open>The cases\<close>

record corpus_case =
  cs_name :: string
  cs_script :: string
  cs_stdout :: string
  cs_status :: int

definition passing :: "string \<Rightarrow> string \<Rightarrow> string \<Rightarrow> corpus_case" where
  "passing name script stdout =
     \<lparr>cs_name = name, cs_script = script, cs_stdout = stdout, cs_status = 0\<rparr>"

definition failing :: "string \<Rightarrow> string \<Rightarrow> string \<Rightarrow> int \<Rightarrow> corpus_case" where
  "failing name script stdout status =
     \<lparr>cs_name = name, cs_script = script, cs_stdout = stdout, cs_status = status\<rparr>"

definition cases_shell_itself :: "corpus_case list" where
  "cases_shell_itself =
    [passing ''echo'' ''echo hello'' ''hello'',
     passing ''arithmetic'' ''echo $((6 * 7))'' ''42'',
     passing ''variables'' (''x=hello; echo '' @ qt @ ''${x}-world'' @ qt @ '' ${#x}'') ''hello-world 5'',
     passing ''quoting'' (''echo '' @ sq @ ''a  b'' @ sq @ '' '' @ qt @ ''c  d'' @ qt) ''a  b c  d'',
     passing ''command substitution'' (''echo '' @ qt @ ''$(echo nested $(echo deep))'' @ qt) ''nested deep'',
     passing ''for loop'' (''for i in 1 2 3; do printf '' @ sq @ ''%s'' @ sq @ '' $i; done'') ''123'',
     passing ''while loop'' ''i=0; while [ $i -lt 3 ]; do i=$((i+1)); done; echo $i'' ''3'',
     passing ''if else'' ''if [ 1 -eq 1 ]; then echo yes; else echo no; fi'' ''yes'',
     passing ''case'' (''case abc in a*'' @ '') echo matched;; *'' @ '') echo no;; esac'') ''matched'',
     passing ''functions'' (''f() { echo '' @ qt @ ''got $1'' @ qt @ ''; return 3; }; f arg; echo $?'') (''got arg'' @ nl @ ''3''),
     passing ''subshell'' ''(cd /tmp && pwd); pwd'' (''/tmp'' @ nl @ ''/''),
     passing ''and or'' ''true && echo a; false || echo b'' (''a'' @ nl @ ''b''),
     passing ''here document'' (''cat <<EOF'' @ nl @ ''line one'' @ nl @ ''line two'' @ nl @ ''EOF'') (''line one'' @ nl @ ''line two'')]"

definition cases_pipelines_and_redirection :: "corpus_case list" where
  "cases_pipelines_and_redirection =
    [passing ''pipeline'' (''echo one two three | tr '' @ sq @ '' '' @ sq @ '' '' @ sq @ bs @ ''n'' @ sq @ '' | wc -l'') ''3'',
     passing ''long pipeline'' (''seq 1 20 | grep -v 5 | sort -rn | head -3 | tr '' @ sq @ bs @ ''n'' @ sq @ '' '' @ sq @ '' '' @ sq) ''20 19 18'',
     passing ''redirect out and in'' ''echo saved > /tmp/f; cat < /tmp/f'' ''saved'',
     passing ''append'' ''echo one > /tmp/g; echo two >> /tmp/g; cat /tmp/g'' (''one'' @ nl @ ''two''),
     passing ''stderr redirect'' (''sh -c '' @ sq @ ''echo oo'' @ ''ps >&2'' @ sq @ '' 2>/tmp/e; cat /tmp/e'') (''oo'' @ ''ps''),
     passing ''dev null'' ''echo hidden > /dev/null; echo shown'' ''shown'',
     passing ''exec redirect'' (''exec 3</etc/hosts; read -r line <&3; echo '' @ qt @ ''$line'' @ qt @ ''; exec 3<&-'') ''127.0.0.1 localhost'']"

definition cases_exit_status :: "corpus_case list" where
  "cases_exit_status =
    [failing ''false'' ''false'' '''' 1,
     failing ''explicit exit'' ''exit 7'' '''' 7,
     failing ''child status'' (''sh -c '' @ sq @ ''exit 5'' @ sq @ ''; echo $?'') ''5'' 0,
     failing ''command not found'' ''/nonexistent 2>/dev/null; exit $?'' '''' 127]"

definition cases_signals :: "corpus_case list" where
  "cases_signals =
    [passing ''trap and kill'' (''trap '' @ sq @ ''echo caught'' @ sq @ '' TERM; kill -TERM $$; echo after'') (''caught'' @ nl @ ''after''),
     passing ''ignored signal'' (''sh -c '' @ sq @ ''trap '' @ qt @ qt @ '' INT; kill -INT $$; echo survived'' @ sq) ''survived'',
     failing ''killed child'' (''sh -c '' @ sq @ ''kill -9 $$'' @ sq @ '' 2>/dev/null; echo $?'') (''Killed'' @ nl @ ''137'') 0]"

definition cases_processes :: "corpus_case list" where
  "cases_processes =
    [passing ''background and wait'' ''sleep 0 & wait; echo done'' ''done'',
     passing ''pipe writer exits first'' (''yes | head -3 | tr '' @ sq @ bs @ ''n'' @ sq @ '' '' @ sq @ '' '' @ sq) ''y y y'',
     passing ''proc self exe'' ''readlink /proc/self/exe'' ''/bin/sh'',
     passing ''many processes'' ''for i in $(seq 1 20); do true; done; echo ok'' ''ok'']"

definition cases_filesystem :: "corpus_case list" where
  "cases_filesystem =
    [passing ''read a mounted file'' ''cat /data/hello.txt'' ''from the host'',
     passing ''write and read back'' ''echo written > /data/new.txt; cat /data/new.txt'' ''written'',
     passing ''mkdir and remove'' ''mkdir -p /data/a/b && test -d /data/a/b && rmdir /data/a/b && echo ok'' ''ok'',
     passing ''find'' (''mkdir -p /tmp/t && touch /tmp/t/x /tmp/t/y && find /tmp/t -type f | sort | tr '' @ sq @ bs @ ''n'' @ sq @ '' '' @ sq @ '' '' @ sq) ''/tmp/t/x /tmp/t/y'',
     passing ''ls a directory'' (''ls /data | sort | tr '' @ sq @ bs @ ''n'' @ sq @ '' '' @ sq @ '' '' @ sq) ''hello.txt sub'',
     passing ''read only mount'' ''echo no > /ro/x 2>/dev/null; echo $?'' ''1'',
     passing ''read only readable'' ''cat /ro/fixed.txt'' ''immutable'',
     passing ''rename'' ''echo v > /tmp/a1; mv /tmp/a1 /tmp/a2; cat /tmp/a2'' ''v'',
     passing ''stat size'' (''printf '' @ sq @ ''12345'' @ sq @ '' > /tmp/s; wc -c < /tmp/s'') ''5'',
     passing ''cwd'' ''cd /data && pwd'' ''/data'']"

definition cases_isolation :: "corpus_case list" where
  "cases_isolation =
    [passing ''dot dot cannot escape'' ''cat ../../../etc/passwd 2>/dev/null; echo $?'' ''1'',
     passing ''programs are not readable'' ''wc -c < /bin/busybox'' ''0'']"

definition cases_tools :: "corpus_case list" where
  "cases_tools =
    [passing ''sed'' (''echo abcabc | sed '' @ sq @ ''s/b/B/g'' @ sq) ''aBcaBc'',
     passing ''awk'' (''echo '' @ sq @ ''3 4'' @ sq @ '' | awk '' @ sq @ ''{print $1 * $2}'' @ sq) ''12'',
     passing ''grep'' (''printf '' @ sq @ ''a'' @ bs @ ''nbb'' @ bs @ ''nccc'' @ bs @ ''n'' @ sq @ '' | grep -c b'') ''1'',
     passing ''sort and uniq'' (''printf '' @ sq @ ''b'' @ bs @ ''na'' @ bs @ ''nb'' @ bs @ ''n'' @ sq @ '' | sort | uniq -c | tr -s '' @ sq @ '' '' @ sq @ '' | tr '' @ sq @ bs @ ''n'' @ sq @ '' '' @ sq @ '' '' @ sq) '' 1 a  2 b'',
     passing ''cut'' (''echo '' @ sq @ ''a:b:c'' @ sq @ '' | cut -d: -f2'') ''b'',
     passing ''head and tail'' ''seq 1 10 | tail -2 | head -1'' ''9'',
     passing ''wc'' (''printf '' @ sq @ ''a b'' @ bs @ ''nc'' @ bs @ ''n'' @ sq @ '' | wc -w'') ''3'',
     passing ''basename and dirname'' ''echo $(basename /a/b/c) $(dirname /a/b/c)'' ''c /a/b'',
     passing ''tar round trip'' ''mkdir -p /tmp/tt && echo packed > /tmp/tt/f && tar cf /tmp/p.tar -C /tmp/tt f && rm /tmp/tt/f && tar xf /tmp/p.tar -C /tmp/tt && cat /tmp/tt/f'' ''packed'',
     passing ''gzip round trip'' ''echo compressed | gzip | gunzip'' ''compressed'',
     passing ''jq'' (''echo '' @ sq @ ''{'' @ qt @ ''items'' @ qt @ '':[1,2,3]}'' @ sq @ '' | jq -c '' @ sq @ ''[.items[] | . * 2]'' @ sq) ''[2,4,6]'',
     passing ''jq reading a file'' (''jq -r '' @ sq @ ''.name'' @ sq @ '' /data/sub/obj.json'') ''wasmux'',
     passing ''shell into jq'' (''seq 1 4 | jq -s '' @ sq @ ''add'' @ sq) ''10'']"

definition cases_environment :: "corpus_case list" where
  "cases_environment =
    [passing ''environment'' ''echo $WASMUX_TEST'' ''set-by-the-host'',
     passing ''env passes through'' (''sh -c '' @ sq @ ''echo $WASMUX_TEST'' @ sq) ''set-by-the-host'',
     passing ''uname'' ''uname -s'' ''Linux'',
     passing ''shebang script'' (''printf '' @ sq @ ''#!/bin/sh'' @ bs @ ''necho from-a-script'' @ bs @ ''n'' @ sq @ '' > /tmp/x.sh; chmod +x /tmp/x.sh; /tmp/x.sh'') ''from-a-script'']"

definition corpus_cases :: "corpus_case list" where
  "corpus_cases =
     cases_shell_itself @ cases_pipelines_and_redirection @ cases_exit_status @ cases_signals @ cases_processes @ cases_filesystem @ cases_isolation @ cases_tools @ cases_environment"

section \<open>The sandbox\<close>

definition corpus_data :: mem_world where
  "corpus_data =
     with_file ''/sub/obj.json''
       (as_bytes (''{'' @ qt @ ''name'' @ qt @ '':'' @ qt @ ''wasmux'' @ qt @ '','' @ qt @ ''n'' @ qt @ '':1}''))
       (with_file ''/hello.txt'' (as_bytes (''from the host'' @ nl)) mem_new)"

definition corpus_readonly :: mem_world where
  "corpus_readonly = with_file ''/fixed.txt'' (as_bytes (''immutable'' @ nl)) mem_new"

definition corpus_etc :: mem_world where
  "corpus_etc = with_file ''/hosts'' (as_bytes (''127.0.0.1 localhost'' @ nl)) mem_new"

definition corpus_world :: shelf_world where
  "corpus_world i = (if i = 2 then corpus_data else if i = 3 then corpus_etc else if i = 4 then corpus_readonly else mem_new)"

definition corpus_builder :: "(shelf_world, shelf_file) builder" where
  "corpus_builder =
     builder_env ''WASMUX_TEST'' ''set-by-the-host''
     (mount_ro ''/ro'' (on_shelf 4 mem_vfs)
     (mount_rw ''/etc'' (on_shelf 3 mem_vfs)
     (mount_rw ''/data'' (on_shelf 2 mem_vfs)
     (mount_rw ''/tmp'' (on_shelf 1 mem_vfs)
     (mount_rw ''/'' (on_shelf 0 mem_vfs) builder_new)))))"

definition corpus_sandbox ::
  "image_layout list \<Rightarrow> (string \<Rightarrow> (nat \<Rightarrow> load_error + guest \<times> 'k) option) \<Rightarrow>
   api_error + (shelf_world, shelf_file, 'k) sandbox" where
  "corpus_sandbox layouts builtin = build layouts builtin corpus_builder"

definition corpus_outside :: "(shelf_world, shelf_file) outside \<Rightarrow> (shelf_world, shelf_file) outside" where
  "corpus_outside out = out\<lparr>o_world := corpus_world, o_fops := shelf_files\<rparr>"

section \<open>The runner\<close>

record corpus_report =
  rp_passed :: nat
  rp_failures :: "string list"

definition report_total :: "corpus_report \<Rightarrow> nat" where
  "report_total r = sat_add_u64 (rp_passed r) (length (rp_failures r))"

definition report_clean :: "corpus_report \<Rightarrow> bool" where
  "report_clean r \<longleftrightarrow> rp_failures r = []"

definition add_failure :: "string \<Rightarrow> corpus_report \<Rightarrow> corpus_report" where
  "add_failure f r = r\<lparr>rp_failures := rp_failures r @ [f]\<rparr>"

definition show_mismatch :: "(string \<Rightarrow> string) \<Rightarrow> corpus_case \<Rightarrow> string \<Rightarrow> int \<Rightarrow> string \<Rightarrow> string" where
  "show_mismatch quote c stdout status stderr =
     cs_name c @ nl @ ''    script:   '' @ cs_script c @
     nl @ ''    expected: '' @ quote (cs_stdout c) @ '' (status '' @ show_int (cs_status c) @ '')'' @
     nl @ ''    actual:   '' @ quote stdout @ '' (status '' @ show_int status @ '')'' @
     nl @ ''    stderr:   '' @ stderr"

definition judge :: "(string \<Rightarrow> string) \<Rightarrow> corpus_case \<Rightarrow> api_error + cmd_output \<Rightarrow> corpus_report \<Rightarrow> corpus_report" where
  "judge quote c result r =
     (case result of
        Inr out \<Rightarrow>
          (let stdout = trim_end (stdout_string out); status = shell_code (out_status out) in
           if stdout = cs_stdout c \<and> status = cs_status c then r\<lparr>rp_passed := sat_add_u64 (rp_passed r) 1\<rparr>
           else add_failure (show_mismatch quote c stdout status (trim_end (stderr_string out))) r)
      | Inl e \<Rightarrow>
          add_failure (cs_name c @ nl @ ''    script: '' @ cs_script c @ nl @ ''    error:  '' @ show_error quote e) r)"

text \<open>A case whose command does not end keeps the run from ending.\<close>

fun corpus_loop ::
  "(shelf_world, shelf_file, 'k) engine \<Rightarrow> image_layout list \<Rightarrow>
   (string \<Rightarrow> (nat \<Rightarrow> load_error + guest \<times> 'k) option) \<Rightarrow> (string \<Rightarrow> string) \<Rightarrow>
   (corpus_case \<times> (shelf_world, shelf_file) outside) list \<Rightarrow> corpus_report \<Rightarrow> corpus_report option" where
  "corpus_loop eng layouts builtin quote [] r = Some r"
| "corpus_loop eng layouts builtin quote ((c, out) # rest) r =
     (case corpus_sandbox layouts builtin of
        Inl e \<Rightarrow>
          corpus_loop eng layouts builtin quote rest
            (add_failure (cs_name c @ nl @ ''    sandbox: '' @ show_error quote e) r)
      | Inr sb \<Rightarrow>
          (case command_output eng sb (corpus_outside out) (shell (cs_script c) sb) of
             None \<Rightarrow> None
           | Some result \<Rightarrow> corpus_loop eng layouts builtin quote rest (judge quote c result r)))"

definition corpus_run ::
  "(shelf_world, shelf_file, 'k) engine \<Rightarrow> image_layout list \<Rightarrow>
   (string \<Rightarrow> (nat \<Rightarrow> load_error + guest \<times> 'k) option) \<Rightarrow> (string \<Rightarrow> string) \<Rightarrow>
   (shelf_world, shelf_file) outside list \<Rightarrow> corpus_report option" where
  "corpus_run eng layouts builtin quote outs =
     corpus_loop eng layouts builtin quote (zip corpus_cases outs) \<lparr>rp_passed = 0, rp_failures = []\<rparr>"

section \<open>The verdict\<close>

text \<open>A case is met: its sandbox builds, and its command ends with the output and the status it names.\<close>

definition case_met ::
  "(shelf_world, shelf_file, 'k) engine \<Rightarrow> image_layout list \<Rightarrow>
   (string \<Rightarrow> (nat \<Rightarrow> load_error + guest \<times> 'k) option) \<Rightarrow>
   corpus_case \<times> (shelf_world, shelf_file) outside \<Rightarrow> bool" where
  "case_met eng layouts builtin = (\<lambda>(c, out).
     \<exists>sb o'. corpus_sandbox layouts builtin = Inr sb \<and>
       command_output eng sb (corpus_outside out) (shell (cs_script c) sb) = Some (Inr o') \<and>
       trim_end (stdout_string o') = cs_stdout c \<and> shell_code (out_status o') = cs_status c)"

lemma judge_met:
  assumes "rp_passed r < 18446744073709551615"
  shows "rp_passed (judge quote c res r) + length (rp_failures (judge quote c res r)) = Suc (rp_passed r + length (rp_failures r))"
    and "rp_passed (judge quote c res r) \<le> Suc (rp_passed r)"
    and "rp_failures (judge quote c res r) = [] \<longleftrightarrow> rp_failures r = [] \<and>
      (\<exists>o'. res = Inr o' \<and> trim_end (stdout_string o') = cs_stdout c \<and> shell_code (out_status o') = cs_status c)"
  using assms by (auto simp: judge_def add_failure_def Let_def sat_add_u64_def split: sum.splits)

lemma corpus_loop_verdict:
  assumes "corpus_loop eng layouts builtin quote todo r = Some r'"
    and "rp_passed r + length todo < 18446744073709551615"
  shows "rp_passed r' + length (rp_failures r') = rp_passed r + length (rp_failures r) + length todo \<and>
    rp_passed r' \<le> rp_passed r + length todo \<and>
    (rp_failures r' = [] \<longleftrightarrow> rp_failures r = [] \<and> list_all (case_met eng layouts builtin) todo)"
  using assms
proof (induction todo arbitrary: r)
  case (Cons x todo)
  obtain c out where x: "x = (c, out)" by fastforce
  show ?case
  proof (cases "corpus_sandbox layouts builtin")
    case (Inl e)
    then have "corpus_loop eng layouts builtin quote todo
        (add_failure (cs_name c @ nl @ ''    sandbox: '' @ show_error quote e) r) = Some r'"
      using Cons.prems(1) by (simp add: x)
    from Cons.IH [OF this] Cons.prems(2) show ?thesis by (auto simp: add_failure_def case_met_def x Inl)
  next
    case (Inr sb)
    then obtain res where res: "command_output eng sb (corpus_outside out) (shell (cs_script c) sb) = Some res"
      and rest: "corpus_loop eng layouts builtin quote todo (judge quote c res r) = Some r'"
      using Cons.prems(1) by (auto simp: x split: option.splits)
    have p: "rp_passed r < 18446744073709551615" using Cons.prems(2) by simp
    note j = judge_met [OF p, of quote c res]
    have "rp_passed (judge quote c res r) + length todo < 18446744073709551615"
      using j(2) Cons.prems(2) by simp
    from Cons.IH [OF rest this] j show ?thesis by (auto simp: case_met_def x Inr res)
  qed
qed simp

lemma corpus_cases_length: "length corpus_cases = 60"
  by (simp add: corpus_cases_def cases_shell_itself_def cases_pipelines_and_redirection_def cases_exit_status_def
      cases_signals_def cases_processes_def cases_filesystem_def cases_isolation_def cases_tools_def cases_environment_def)

text \<open>
  C33: the report of a corpus run is its verdict.  If every command ends, the run ends with
  every one of the 60 cases counted once, passed or failed; it is clean exactly when every case
  met what it names (output up to trailing white space, and status), and then all 60 are passed.
\<close>

theorem corpus_verdict:
  assumes "corpus_run eng layouts builtin quote outs = Some r" "length outs = 60"
  shows "report_total r = 60 \<and> (report_clean r \<longleftrightarrow> rp_passed r = 60) \<and>
    (report_clean r \<longleftrightarrow> list_all (case_met eng layouts builtin) (zip corpus_cases outs))"
proof -
  have "length (zip corpus_cases outs) = 60" using assms(2) by (simp add: corpus_cases_length)
  with corpus_loop_verdict [OF assms(1) [unfolded corpus_run_def]] show ?thesis
    by (auto simp: report_total_def report_clean_def sat_add_u64_def)
qed

definition no_programs_report :: corpus_report where
  "no_programs_report = \<lparr>rp_passed = 0,
     rp_failures = map (\<lambda>c. cs_name c @ nl @ ''    sandbox: '' @ show_error id NoPrograms) corpus_cases\<rparr>"

definition idle_engine :: "(shelf_world, shelf_file, unit) engine" where
  "idle_engine k s = Some (Returned, k, s)"

definition idle_outside :: "(shelf_world, shelf_file) outside" where
  "idle_outside =
     \<lparr>o_world = corpus_world, o_fops = shelf_files, o_mono = (\<lambda>n. n), o_wall = (\<lambda>n. n), o_ticks = 0, o_rng = 1,
      o_hash = (\<lambda>_. 0), o_show_secs = (\<lambda>_. ''0'')\<rparr>"

lemma no_programs_sandbox: "corpus_sandbox [] (\<lambda>_. None) = Inl NoPrograms"
proof -
  have "good_mount_point m" if "m \<in> {''/'', ''/tmp'', ''/data'', ''/etc'', ''/ro''}" for m
    using that by (auto simp: good_mount_point_def; code_simp)
  then show ?thesis
    by (simp add: corpus_sandbox_def build_def corpus_builder_def builder_env_def mount_ro_def mount_rw_def
        builder_new_def build_tables_def tables_empty_def)
qed

lemma no_programs_loop:
  "corpus_loop eng [] (\<lambda>_. None) quote todo r =
     Some (r\<lparr>rp_failures := rp_failures r @ map (\<lambda>(c, _). cs_name c @ nl @ ''    sandbox: '' @ show_error quote NoPrograms) todo\<rparr>)"
  by (induction todo arbitrary: r) (auto simp: no_programs_sandbox add_failure_def split: prod.splits)

lemma corpus_verdict_witness:
  "corpus_run idle_engine [] (\<lambda>_. None) id (replicate 60 idle_outside) = Some no_programs_report \<and>
   report_total no_programs_report = 60 \<and> \<not> report_clean no_programs_report"
proof -
  have "zip corpus_cases (replicate 60 idle_outside) = map (\<lambda>c. (c, idle_outside)) corpus_cases"
    by (simp add: corpus_cases_length zip_replicate2 flip: corpus_cases_length)
  then have run: "corpus_run idle_engine [] (\<lambda>_. None) id (replicate 60 idle_outside) = Some no_programs_report"
    by (simp add: corpus_run_def no_programs_loop no_programs_report_def comp_def)
  from corpus_verdict [OF this] show ?thesis using run by (simp add: no_programs_report_def)
qed

end
