(* ===== verification/Bench.thy ===== *)
theory Bench
  imports Corpus
begin

text \<open>
  The two other binaries: the runner of the corpus (\<open>wasmux-corpus.rs\<close>) and the benchmark
  (\<open>wasmux-bench.rs\<close>).  The time each run takes is an argument, and so are how a duration is shown in
  milliseconds and the \<open>Debug\<close> of an error; a panic is a value of the left.
\<close>

section \<open>The corpus runner\<close>

definition backend_name :: "bool \<Rightarrow> string" where
  "backend_name wasm32 = (if wasm32 then ''compiled in (wasm2c)'' else ''interpreter (wasmi)'')"

definition corpus_main :: "bool \<Rightarrow> corpus_report \<Rightarrow> string \<times> nat" where
  "corpus_main wasm32 r =
     (let first = ''corpus on '' @ backend_name wasm32 @ '': '' @ show_nat (rp_passed r) @ ''/'' @
            show_nat (report_total r) @ '' passed'' @ nl
      in if report_clean r then (first, 0)
         else (first @ nl @ concat (map (\<lambda>f. f @ nl @ nl) (rp_failures r)) @
                 show_nat (length (rp_failures r)) @ '' case(s) failed'' @ nl, 1))"

section \<open>The benchmark\<close>

record bench =
  be_name :: string
  be_script :: string
  be_runs :: nat

definition benches :: "bench list" where
  "benches =
    [\<lparr>be_name = ''startup (true)'', be_script = ''true'', be_runs = 20\<rparr>,
     \<lparr>be_name = ''echo'', be_script = ''echo hello'', be_runs = 20\<rparr>,
     \<lparr>be_name = ''spawn 20 processes'', be_script = ''for i in $(seq 1 20); do /bin/true; done'', be_runs = 5\<rparr>,
     \<lparr>be_name = ''pipeline, 4 stages, 2k lines'', be_script = ''seq 1 2000 | grep 7 | sort -r | wc -l'', be_runs = 5\<rparr>,
     \<lparr>be_name = ''sed over 5k lines'', be_script = ''seq 1 5000 | sed '' @ sq @ ''s/[0-9]*/n/'' @ sq @ '' | tail -1'', be_runs = 5\<rparr>,
     \<lparr>be_name = ''awk sum to 20k'', be_script = ''awk '' @ sq @ ''BEGIN{s=0; for(i=0;i<20000;i++) s+=i; print s}'' @ sq, be_runs = 5\<rparr>,
     \<lparr>be_name = ''jq over 2k numbers'', be_script = ''seq 1 2000 | jq -s '' @ sq @ ''add'' @ sq, be_runs = 5\<rparr>,
     \<lparr>be_name = ''write and read 1 MiB'', be_script = ''dd if=/dev/zero bs=1024 count=1024 2>/dev/null > /tmp/b; wc -c < /tmp/b'', be_runs = 5\<rparr>,
     \<lparr>be_name = ''find over 200 files'', be_script = ''mkdir -p /tmp/d && for i in $(seq 1 200); do echo x > /tmp/d/f$i; done && find /tmp/d -type f | wc -l'', be_runs = 3\<rparr>]"

definition bench_builder :: "(shelf_world, shelf_file) builder" where
  "bench_builder = mount_rw ''/tmp'' (on_shelf 1 mem_vfs) (mount_rw ''/'' (on_shelf 0 mem_vfs) builder_new)"

definition bench_outside :: "(shelf_world, shelf_file) outside \<Rightarrow> (shelf_world, shelf_file) outside" where
  "bench_outside out = out\<lparr>o_world := (\<lambda>_. mem_new), o_fops := shelf_files\<rparr>"

text \<open>Whatever the session waits for, its input is closed and it is stepped again.\<close>

partial_function (option) bench_drive ::
  "('w, 'f, 'k) engine \<Rightarrow> (api_error \<Rightarrow> string) \<Rightarrow> ('w, 'f, 'k) session \<Rightarrow> ((string + cmd_output) \<times> ('w, 'f, 'k) session) option" where
  "bench_drive eng debug ss =
     (case step_session eng budget_unlimited ss of
        None \<Rightarrow> None
      | Some (Inl e, ss1) \<Rightarrow> Some (Inl (''step: '' @ debug e), ss1)
      | Some (Inr p, ss1) \<Rightarrow>
          (case p of
             Done o' \<Rightarrow> Some (Inr o', ss1)
           | Yielded \<Rightarrow> bench_drive eng debug ss1
           | Waiting w \<Rightarrow> bench_drive eng debug (close_stdin ss1)))"

definition bench_once ::
  "(shelf_world, shelf_file, 'k) engine \<Rightarrow> image_layout list \<Rightarrow>
   (string \<Rightarrow> (nat \<Rightarrow> load_error + guest \<times> 'k) option) \<Rightarrow> (api_error \<Rightarrow> string) \<Rightarrow> bench \<Rightarrow>
   (shelf_world, shelf_file) outside \<Rightarrow> (string + nat) option" where
  "bench_once eng layouts builtin debug b out =
     (case build layouts builtin bench_builder of
        Inl e \<Rightarrow> Some (Inl (''the sandbox should build: '' @ debug e))
      | Inr sb \<Rightarrow>
          (case spawn_session sb (bench_outside out) (shell (be_script b) sb) of
             Inl e \<Rightarrow> Some (Inl (''spawn: '' @ debug e))
           | Inr ss \<Rightarrow>
               (case bench_drive eng debug ss of
                  None \<Rightarrow> None
                | Some (Inl m, ss1) \<Rightarrow> Some (Inl m)
                | Some (Inr o', ss1) \<Rightarrow>
                    if exit_success (out_status o') then Some (Inr (syscall_count ss1))
                    else Some (Inl (be_name b @ '' failed: '' @ stderr_string o')))))"

text \<open>The runs of one workload, each on the state outside at its start and with the time it took.\<close>

fun bench_runs ::
  "(shelf_world, shelf_file, 'k) engine \<Rightarrow> image_layout list \<Rightarrow>
   (string \<Rightarrow> (nat \<Rightarrow> load_error + guest \<times> 'k) option) \<Rightarrow> (api_error \<Rightarrow> string) \<Rightarrow> bench \<Rightarrow>
   ((shelf_world, shelf_file) outside \<times> nat) list \<Rightarrow> nat list \<times> nat \<Rightarrow> (string + nat list \<times> nat) option" where
  "bench_runs eng layouts builtin debug b [] acc = Some (Inr acc)"
| "bench_runs eng layouts builtin debug b ((out, took) # rest) acc =
     (case bench_once eng layouts builtin debug b out of
        None \<Rightarrow> None
      | Some (Inl m) \<Rightarrow> Some (Inl m)
      | Some (Inr syscalls) \<Rightarrow> bench_runs eng layouts builtin debug b rest (fst acc @ [took], syscalls))"

definition median_time :: "nat list \<Rightarrow> nat" where
  "median_time ts = (let s = sort ts in if length s div 2 < length s then s ! (length s div 2) else 0)"

definition best_time :: "nat list \<Rightarrow> nat" where
  "best_time ts = (case sort ts of [] \<Rightarrow> 0 | t # _ \<Rightarrow> t)"

definition pad_right :: "nat \<Rightarrow> string \<Rightarrow> string" where
  "pad_right n s = s @ replicate (n - length s) (CHR '' '')"

definition pad_left :: "nat \<Rightarrow> string \<Rightarrow> string" where
  "pad_left n s = replicate (n - length s) (CHR '' '') @ s"

definition bench_line :: "(nat \<Rightarrow> string) \<Rightarrow> bench \<Rightarrow> nat list \<times> nat \<Rightarrow> string" where
  "bench_line show_ms b r =
     pad_right 32 (be_name b) @ '' '' @ pad_left 9 (show_ms (median_time (fst r))) @ ''ms '' @
     pad_left 9 (show_ms (best_time (fst r))) @ ''ms '' @ pad_left 12 (show_nat (snd r)) @ nl"

text \<open>\<open>runs b\<close> gives the runs of a workload; a \<open>Duration\<close> saturates at 64 bits of seconds.\<close>

fun bench_loop ::
  "(shelf_world, shelf_file, 'k) engine \<Rightarrow> image_layout list \<Rightarrow>
   (string \<Rightarrow> (nat \<Rightarrow> load_error + guest \<times> 'k) option) \<Rightarrow> (api_error \<Rightarrow> string) \<Rightarrow> (nat \<Rightarrow> string) \<Rightarrow>
   (bench \<times> ((shelf_world, shelf_file) outside \<times> nat) list) list \<Rightarrow> string \<times> nat \<Rightarrow> (string + string \<times> nat) option" where
  "bench_loop eng layouts builtin debug show_ms [] acc = Some (Inr acc)"
| "bench_loop eng layouts builtin debug show_ms ((b, runs) # rest) acc =
     (case bench_runs eng layouts builtin debug b runs ([], 0) of
        None \<Rightarrow> None
      | Some (Inl m) \<Rightarrow> Some (Inl m)
      | Some (Inr r) \<Rightarrow>
          bench_loop eng layouts builtin debug show_ms rest
            (fst acc @ bench_line show_ms b r,
             min (18446744073709551615 * NANOS + (NANOS - 1)) (snd acc + median_time (fst r))))"

definition bench_rule :: string where
  "bench_rule = replicate 68 (CHR ''-'') @ nl"

definition bench_main ::
  "(shelf_world, shelf_file, 'k) engine \<Rightarrow> image_layout list \<Rightarrow>
   (string \<Rightarrow> (nat \<Rightarrow> load_error + guest \<times> 'k) option) \<Rightarrow> (api_error \<Rightarrow> string) \<Rightarrow> (nat \<Rightarrow> string) \<Rightarrow> bool \<Rightarrow>
   (bench \<Rightarrow> ((shelf_world, shelf_file) outside \<times> nat) list) \<Rightarrow> (string + string) option" where
  "bench_main eng layouts builtin debug show_ms wasm32 runs =
     (let head = ''wasmux benchmark: '' @ backend_name wasm32 @ nl @ nl @
            pad_right 32 ''workload'' @ '' '' @ pad_left 10 ''median'' @ '' '' @ pad_left 10 ''best'' @ '' '' @
            pad_left 12 ''syscalls'' @ nl @ bench_rule
      in (case bench_loop eng layouts builtin debug show_ms (map (\<lambda>b. (b, take (be_runs b) (runs b))) benches) (head, 0) of
            None \<Rightarrow> None
          | Some (Inl m) \<Rightarrow> Some (Inl m)
          | Some (Inr (lines, whole)) \<Rightarrow>
              Some (Inr (lines @ bench_rule @ pad_right 32 ''total (median)'' @ '' '' @ pad_left 9 (show_ms whole) @ ''ms'' @ nl))))"

end
