(* ===== verification/Cli.thy ===== *)
theory Cli
  imports Api Shelves Host_Vfs
begin

text \<open>
  The command-line tool (\<open>crates/wasmux-cli\<close>): its options, the sandbox it builds, the loop that
  drives a session (\<open>main.rs\<close>), and the terminal it keeps in step with the guest's (\<open>tty.rs\<close>).  The
  process around it is an argument: what each read of standard input gives, whether the ends are
  terminals, the settings \<open>tcgetattr\<close> reports and what \<open>tcsetattr\<close> leaves in force.  The in-memory filesystems
  and the host's directory are parts of one world.
\<close>

section \<open>Options\<close>

definition usage :: string where
  "usage =
     ''wasmux: run POSIX programs in a sandbox'' @ nl @
     nl @
     ''usage:'' @ nl @
     ''    wasmux [options] [command [args...]]      run a command (default: sh)'' @ nl @
     ''    wasmux [options] -c <script>              run a shell script'' @ nl @
     ''    wasmux --programs                         list the programs that are available'' @ nl @
     nl @
     ''options:'' @ nl @
     ''    -d, --dir <path>       mount this host directory at / (default: an empty memory filesystem)'' @ nl @
     ''        --ro <path>        mount this host directory read-only at /ro'' @ nl @
     ''    -c <script>            run a shell script'' @ nl @
     ''    -e, --env K=V          set an environment variable (repeatable)'' @ nl @
     ''        --memory <MiB>     total guest memory limit (default 256)'' @ nl @
     ''        --timeout <secs>   wall-clock limit for the whole run (default 60)'' @ nl @
     ''        --stream           write output as it appears rather than at the end'' @ nl @
     ''                           (always on for a shell typed at a terminal)'' @ nl @
     ''        --stats            print syscalls and elapsed time to stderr'' @ nl @
     ''    -h, --help             this text'' @ nl @
     nl @
     ''Standard input is passed through, so `echo hi | wasmux -c '' @ sq @ ''tr a-z A-Z'' @ sq @ ''` works.'' @ nl @
     ''With no command and a terminal on both ends, this is an interactive shell: a real prompt,'' @ nl @
     ''history and line editing, ended with Ctrl-D or `exit`.'' @ nl"

record options =
  op_dir :: "string option"
  op_ro :: "string option"
  op_script :: "string option"
  op_env :: "(string \<times> string) list"
  op_memory :: nat
  op_timeout :: nat
  op_stream :: bool
  op_stats :: bool
  op_list :: bool
  op_command :: "string list"

definition options_default :: options where
  "options_default =
     \<lparr>op_dir = None, op_ro = None, op_script = None, op_env = [], op_memory = 256, op_timeout = 60,
      op_stream = False, op_stats = False, op_list = False, op_command = []\<rparr>"

datatype parsed = Show_Help | Run_With options

text \<open>\<open>s.parse::<u64>()\<close>: an optional plus sign, at least one digit, and a value in range.\<close>

definition parse_u64 :: "string \<Rightarrow> nat option" where
  "parse_u64 s =
     (case (case s of c # cs \<Rightarrow> if c = CHR ''+'' then parse_nat cs else parse_nat s | [] \<Rightarrow> None) of
        Some n \<Rightarrow> if n < 18446744073709551616 then Some n else None
      | None \<Rightarrow> None)"

definition split_once :: "'a \<Rightarrow> 'a list \<Rightarrow> ('a list \<times> 'a list) option" where
  "split_once x xs =
     (if x \<in> set xs then Some (takeWhile (\<lambda>y. y \<noteq> x) xs, tl (dropWhile (\<lambda>y. y \<noteq> x) xs)) else None)"

text \<open>The loop over the arguments; the first that is not an option is the command, with all the rest.\<close>

fun parse_args :: "string list \<Rightarrow> options \<Rightarrow> string + parsed" where
  "parse_args [] o' = Inr (Run_With o')"
| "parse_args (arg # args) o' =
     (if arg = ''-h'' \<or> arg = ''--help'' then Inr Show_Help
      else if arg = ''--programs'' then parse_args args (o'\<lparr>op_list := True\<rparr>)
      else if arg = ''-d'' \<or> arg = ''--dir'' then
        (case args of [] \<Rightarrow> Inl ''--dir needs a path'' | v # rest \<Rightarrow> parse_args rest (o'\<lparr>op_dir := Some v\<rparr>))
      else if arg = ''--ro'' then
        (case args of [] \<Rightarrow> Inl ''--ro needs a path'' | v # rest \<Rightarrow> parse_args rest (o'\<lparr>op_ro := Some v\<rparr>))
      else if arg = ''-c'' then
        (case args of [] \<Rightarrow> Inl ''-c needs a script'' | v # rest \<Rightarrow> parse_args rest (o'\<lparr>op_script := Some v\<rparr>))
      else if arg = ''-e'' \<or> arg = ''--env'' then
        (case args of
           [] \<Rightarrow> Inl ''--env needs KEY=VALUE''
         | v # rest \<Rightarrow>
             (case split_once (CHR ''='') v of
                None \<Rightarrow> Inl ''--env needs KEY=VALUE''
              | Some kv \<Rightarrow> parse_args rest (o'\<lparr>op_env := op_env o' @ [kv]\<rparr>)))
      else if arg = ''--memory'' then
        (case args of
           [] \<Rightarrow> Inl ''--memory needs a number''
         | v # rest \<Rightarrow>
             (case parse_u64 v of
                None \<Rightarrow> Inl ''--memory needs a number''
              | Some n \<Rightarrow> parse_args rest (o'\<lparr>op_memory := n\<rparr>)))
      else if arg = ''--timeout'' then
        (case args of
           [] \<Rightarrow> Inl ''--timeout needs a number''
         | v # rest \<Rightarrow>
             (case parse_u64 v of
                None \<Rightarrow> Inl ''--timeout needs a number''
              | Some n \<Rightarrow> parse_args rest (o'\<lparr>op_timeout := n\<rparr>)))
      else if arg = ''--stream'' then parse_args args (o'\<lparr>op_stream := True\<rparr>)
      else if arg = ''--stats'' then parse_args args (o'\<lparr>op_stats := True\<rparr>)
      else Inr (Run_With (o'\<lparr>op_command := op_command o' @ arg # args\<rparr>)))"

section \<open>The sandbox\<close>

type_synonym 'h cli_world = "shelf_world \<times> 'h"
type_synonym 'g cli_file = "shelf_file + 'g"

definition mem_part :: "nat \<Rightarrow> ('h cli_world, 'g cli_file) vfs" where
  "mem_part i = part_vfs fst put_left Inl (on_shelf i mem_vfs)"

definition host_part :: "('h, 'g) host_fs \<Rightarrow> string \<Rightarrow> ('h cli_world, 'g cli_file) vfs" where
  "host_part fs root = part_vfs snd put_right Inr (host_vfs fs root)"

definition cli_outside ::
  "('h, 'g) host_fs \<Rightarrow> 'h \<Rightarrow> ('h cli_world, 'g cli_file) outside \<Rightarrow> ('h cli_world, 'g cli_file) outside" where
  "cli_outside fs h out =
     out\<lparr>o_world := (\<lambda>_. mem_new, h), o_fops := sum_files shelf_files (host_file_ops fs)\<rparr>"

definition cli_limits :: "options \<Rightarrow> limits" where
  "cli_limits o' = limits_default
     \<lparr>lim_memory := sat_mul_u64 (op_memory o') 1048576,
      lim_memory_per_process := sat_mul_u64 (op_memory o') 1048576 div 4,
      lim_wall_clock := Some (op_timeout o' * NANOS)\<rparr>"

definition show_errno :: "errno \<Rightarrow> string" where
  "show_errno e = errno_name e @ '' ('' @ show_int (case e of Errno n \<Rightarrow> n) @ '')''"

definition open_host :: "('h, 'g) host_fs \<Rightarrow> string \<Rightarrow> 'h \<Rightarrow> (string + ('h cli_world, 'g cli_file) vfs) \<times> 'h" where
  "open_host fs path h =
     (case host_new fs path h of
        (Inl e, h1) \<Rightarrow> (Inl (path @ '': '' @ show_errno e), h1)
      | (Inr root, h1) \<Rightarrow> (Inr (host_part fs root), h1))"

definition cli_builder ::
  "('h, 'g) host_fs \<Rightarrow> options \<Rightarrow> 'h \<Rightarrow> (string + ('h cli_world, 'g cli_file) builder) \<times> 'h" where
  "cli_builder fs o' h =
     (let b0 = mount_rw ''/tmp'' (mem_part 0) (with_limits (cli_limits o') builder_new);
          (r, h1) = (case op_dir o' of
             Some path \<Rightarrow>
               (case open_host fs path h of
                  (Inl m, h1) \<Rightarrow> (Inl m, h1) | (Inr v, h1) \<Rightarrow> (Inr (mount_rw ''/'' v b0), h1))
           | None \<Rightarrow> (Inr (mount_rw ''/'' (mem_part 1) b0), h))
      in case r of
           Inl m \<Rightarrow> (Inl m, h1)
         | Inr b1 \<Rightarrow>
             (let (r2, h2) = (case op_ro o' of
                Some path \<Rightarrow>
                  (case open_host fs path h1 of
                     (Inl m, h2) \<Rightarrow> (Inl m, h2) | (Inr v, h2) \<Rightarrow> (Inr (mount_ro ''/ro'' v b1), h2))
              | None \<Rightarrow> (Inr b1, h1))
              in case r2 of
                   Inl m \<Rightarrow> (Inl m, h2)
                 | Inr b2 \<Rightarrow> (Inr (fold (\<lambda>(k, v). builder_env k v) (op_env o') b2), h2)))"

text \<open>\<open>{:<12}\<close>: at least twelve columns.\<close>

definition pad12 :: "string \<Rightarrow> string" where
  "pad12 s = s @ replicate (12 - length s) (CHR '' '')"

definition list_programs :: "('w, 'f, 'k) sandbox \<Rightarrow> string" where
  "list_programs sb = concat (map (\<lambda>p. pad12 (pi_name p) @ '' '' @ pi_path p @ nl) (programs sb))"

section \<open>The terminal\<close>

record host_termios =
  ht_iflag :: u32
  ht_oflag :: u32
  ht_cflag :: u32
  ht_lflag :: u32
  ht_cc :: "nat \<Rightarrow> u8"

text \<open>The constants of the host's \<open>libc\<close>, and what is in force after a \<open>tcsetattr\<close>.\<close>

record libc_tty =
  lt_icanon :: u32
  lt_echo :: u32
  lt_echonl :: u32
  lt_isig :: u32
  lt_vmin :: nat
  lt_vtime :: nat
  lt_set :: "host_termios \<Rightarrow> host_termios \<Rightarrow> host_termios"

record cli_io =
  ci_input :: "(unit + bytes) list"
  ci_out :: bytes
  ci_err :: bytes
  ci_termios :: "host_termios option"

definition tcsetattr :: "libc_tty \<Rightarrow> host_termios \<Rightarrow> cli_io \<Rightarrow> cli_io" where
  "tcsetattr lt new ci = ci\<lparr>ci_termios := map_option (\<lambda>cur. lt_set lt cur new) (ci_termios ci)\<rparr>"

definition tty_size :: "(u16 \<times> u16) option \<Rightarrow> (u16 \<times> u16) option" where
  "tty_size ws = (case ws of None \<Rightarrow> None | Some (w, h) \<Rightarrow> if w = 0 then None else Some (w, h))"

record host_terminal =
  hx_original :: host_termios
  hx_applied :: "(bool \<times> bool) option"

definition host_take :: "cli_io \<Rightarrow> host_terminal option" where
  "host_take ci = map_option (\<lambda>t. \<lparr>hx_original = t, hx_applied = None\<rparr>) (ci_termios ci)"

definition mirrored :: "libc_tty \<Rightarrow> bool \<Rightarrow> bool \<Rightarrow> host_termios \<Rightarrow> host_termios" where
  "mirrored lt raw signals t =
     (let t1 = (if raw then
                  t\<lparr>ht_lflag := ht_lflag t AND NOT (lt_icanon lt OR lt_echo lt OR lt_echonl lt),
                    ht_cc := (ht_cc t)(lt_vmin lt := 1, lt_vtime lt := 0)\<rparr>
                else t)
      in if \<not> signals then t1\<lparr>ht_lflag := ht_lflag t1 AND NOT (lt_isig lt)\<rparr> else t1)"

definition mirror :: "libc_tty \<Rightarrow> bool \<Rightarrow> bool \<Rightarrow> host_terminal \<Rightarrow> cli_io \<Rightarrow> host_terminal \<times> cli_io" where
  "mirror lt raw signals h ci =
     (if hx_applied h = Some (raw, signals) then (h, ci)
      else (h\<lparr>hx_applied := Some (raw, signals)\<rparr>, tcsetattr lt (mirrored lt raw signals (hx_original h)) ci))"

definition host_drop :: "libc_tty \<Rightarrow> host_terminal option \<Rightarrow> cli_io \<Rightarrow> cli_io" where
  "host_drop lt host ci =
     (case host of
        None \<Rightarrow> ci
      | Some h \<Rightarrow> if hx_applied h \<noteq> None then tcsetattr lt (hx_original h) ci else ci)"

definition follow ::
  "libc_tty \<Rightarrow> host_terminal option \<Rightarrow> ('w, 'f, 'k) session \<Rightarrow> cli_io \<Rightarrow> host_terminal option \<times> cli_io" where
  "follow lt host ss ci =
     (case host of
        None \<Rightarrow> (None, ci)
      | Some h \<Rightarrow> (let (h', ci') = mirror lt (session_raw ss) (session_signals ss) h ci in (Some h', ci')))"

section \<open>Driving a session\<close>

definition print_out :: "bytes \<Rightarrow> cli_io \<Rightarrow> cli_io" where
  "print_out d ci = ci\<lparr>ci_out := ci_out ci @ d\<rparr>"

definition print_err :: "bytes \<Rightarrow> cli_io \<Rightarrow> cli_io" where
  "print_err d ci = ci\<lparr>ci_err := ci_err ci @ d\<rparr>"

definition stream_output :: "('w, 'f, 'k) session \<Rightarrow> cli_io \<Rightarrow> ('w, 'f, 'k) session \<times> cli_io" where
  "stream_output ss ci =
     (let (out, ss1) = take_stdout ss; (er, ss2) = take_stderr ss1 in (ss2, print_err er (print_out out ci)))"

text \<open>A read of standard input, into a chunk of 8192 bytes.\<close>

definition read_input :: "cli_io \<Rightarrow> (unit + bytes) \<times> cli_io" where
  "read_input ci =
     (case ci_input ci of
        [] \<Rightarrow> (Inr [], ci)
      | r # rest \<Rightarrow>
          (case r of
             Inl e \<Rightarrow> (Inl e, ci\<lparr>ci_input := rest\<rparr>)
           | Inr d \<Rightarrow>
               (Inr (take 8192 d), ci\<lparr>ci_input := (if 8192 < length d then Inr (drop 8192 d) # rest else rest)\<rparr>)))"

definition answer_stdin :: "('w, 'f, 'k) session \<Rightarrow> cli_io \<Rightarrow> ('w, 'f, 'k) session \<times> cli_io" where
  "answer_stdin ss ci =
     (let (r, io1) = read_input ci in
      (case r of
         Inl e \<Rightarrow> close_stdin ss
       | Inr d \<Rightarrow> if d = [] then close_stdin ss else write_stdin d ss, io1))"

definition cannot_wait :: string where
  "cannot_wait = ''something asked to be awaited, which this command cannot do''"

partial_function (option) drive ::
  "('w, 'f, 'k) engine \<Rightarrow> libc_tty \<Rightarrow> (string \<Rightarrow> string) \<Rightarrow> bool \<Rightarrow> ('w, 'f, 'k) session \<Rightarrow> host_terminal option \<Rightarrow>
   cli_io \<Rightarrow> ((string + cmd_output) \<times> ('w, 'f, 'k) session \<times> host_terminal option \<times> cli_io) option" where
  "drive eng lt quote stream ss host ci =
     (case step_session eng (budget_syscalls 20000) ss of
        None \<Rightarrow> None
      | Some (Inl e, ss1) \<Rightarrow> Some (Inl (show_error quote e), ss1, host, ci)
      | Some (Inr p, ss1) \<Rightarrow>
          (let (host1, io1) = follow lt host ss1 ci;
               (ss2, io2) = (if stream then stream_output ss1 io1 else (ss1, io1))
           in (case p of
                 Done o' \<Rightarrow> Some (Inr o', ss2, host1, io2)
               | Yielded \<Rightarrow> drive eng lt quote stream ss2 host1 io2
               | Waiting w \<Rightarrow>
                   (case w of
                      WaitStdin \<Rightarrow> (let (ss3, io3) = answer_stdin ss2 io2 in drive eng lt quote stream ss3 host1 io3)
                    | WaitUntil t \<Rightarrow> drive eng lt quote stream ss2 host1 io2
                    | WaitVfs \<Rightarrow> Some (Inl cannot_wait, ss2, host1, io2)
                    | WaitHost \<Rightarrow> Some (Inl cannot_wait, ss2, host1, io2)))))"

section \<open>A run\<close>

text \<open>What the tool finds around it: the ends of standard input and output, and the answer of \<open>TIOCGWINSZ\<close>.\<close>

record cli_ends =
  ce_stdin_tty :: bool
  ce_stdout_tty :: bool
  ce_winsize :: "(u16 \<times> u16) option"

definition conversational :: "options \<Rightarrow> cli_ends \<Rightarrow> bool" where
  "conversational o' ends \<longleftrightarrow>
     op_script o' = None \<and> op_command o' = [] \<and> ce_stdin_tty ends \<and> ce_stdout_tty ends"

definition cli_terminal :: "options \<Rightarrow> cli_ends \<Rightarrow> (u16 \<times> u16) option" where
  "cli_terminal o' ends = (if conversational o' ends then tty_size (ce_winsize ends) else None)"

definition cli_prepared :: "options \<Rightarrow> cli_ends \<Rightarrow> ('w, 'f, 'k) sandbox \<Rightarrow> prepared" where
  "cli_prepared o' ends sb =
     (let c = (case (op_script o', op_command o') of
                 (Some text, _) \<Rightarrow> shell text sb
               | (None, program # rest) \<Rightarrow> cmd_args rest (command program sb)
               | (None, []) \<Rightarrow> command ''sh'' sb);
          c1 = interactive_stdin c
      in (case cli_terminal o' ends of Some (w, h) \<Rightarrow> cmd_terminal w h c1 | None \<Rightarrow> c1))"

definition stats_line :: "string \<Rightarrow> ('w, 'f, 'k) session \<Rightarrow> cmd_output \<Rightarrow> string" where
  "stats_line secs ss o' =
     ''wasmux: '' @ show_nat (syscall_count ss) @ '' syscalls in '' @ secs @ ''s'' @
     (if truncated o' then '', '' @ show_nat (out_dropped o') @ '' bytes dropped'' else []) @ nl"

definition exit_byte :: "int \<Rightarrow> nat" where
  "exit_byte status = nat (max 0 (min 255 (shell_code status)))"

definition finish_output ::
  "options \<Rightarrow> bool \<Rightarrow> string \<Rightarrow> ('w, 'f, 'k) session \<Rightarrow> cmd_output \<Rightarrow> cli_io \<Rightarrow> cli_io" where
  "finish_output o' stream secs ss out ci =
     (let io1 = (if op_stats o' then print_err (as_bytes (stats_line secs ss out)) ci else ci)
      in if stream then io1 else print_err (out_stderr out) (print_out (out_stdout out) io1))"

definition cli_session ::
  "('w, 'f, 'k) engine \<Rightarrow> libc_tty \<Rightarrow> (string \<Rightarrow> string) \<Rightarrow> string \<Rightarrow> options \<Rightarrow> cli_ends \<Rightarrow>
   ('w, 'f, 'k) sandbox \<Rightarrow> ('w, 'f) outside \<Rightarrow> cli_io \<Rightarrow> ((string + nat) \<times> cli_io) option" where
  "cli_session eng lt quote secs o' ends sb out ci =
     (let stream = (op_stream o' \<or> conversational o' ends)
      in (case spawn_session sb out (cli_prepared o' ends sb) of
            Inl e \<Rightarrow> Some (Inl (show_error quote e), ci)
          | Inr ss \<Rightarrow>
              (let host = (case cli_terminal o' ends of None \<Rightarrow> None | Some _ \<Rightarrow> host_take ci)
               in (case drive eng lt quote stream ss host ci of
                     None \<Rightarrow> None
                   | Some (Inl m, ss1, host1, io1) \<Rightarrow> Some (Inl m, host_drop lt host1 io1)
                   | Some (Inr result, ss1, host1, io1) \<Rightarrow>
                       Some (Inr (exit_byte (out_status result)),
                         host_drop lt host1 (finish_output o' stream secs ss1 result io1))))))"

definition cli_run ::
  "('h cli_world, 'g cli_file, 'k) engine \<Rightarrow> image_layout list \<Rightarrow>
   (string \<Rightarrow> (nat \<Rightarrow> load_error + guest \<times> 'k) option) \<Rightarrow> ('h, 'g) host_fs \<Rightarrow> libc_tty \<Rightarrow> (string \<Rightarrow> string) \<Rightarrow> string \<Rightarrow>
   ('h cli_world, 'g cli_file) outside \<Rightarrow> 'h \<Rightarrow> cli_ends \<Rightarrow> string list \<Rightarrow> cli_io \<Rightarrow>
   ((string + nat) \<times> cli_io) option" where
  "cli_run eng layouts builtin fs lt quote secs out h ends args ci =
     (case parse_args args options_default of
        Inl m \<Rightarrow> Some (Inl m, ci)
      | Inr Show_Help \<Rightarrow> Some (Inr 0, print_out (as_bytes usage) ci)
      | Inr (Run_With o') \<Rightarrow>
          (case cli_builder fs o' h of
             (Inl m, _) \<Rightarrow> Some (Inl m, ci)
           | (Inr b, h1) \<Rightarrow>
               (case build layouts builtin b of
                  Inl e \<Rightarrow> Some (Inl (show_error quote e), ci)
                | Inr sb \<Rightarrow>
                    if op_list o' then Some (Inr 0, print_out (as_bytes (list_programs sb)) ci)
                    else cli_session eng lt quote secs o' ends sb (cli_outside fs h1 out) ci)))"

text \<open>\<open>main\<close>: the exit code, and the message of a failure.\<close>

definition cli_main ::
  "('h cli_world, 'g cli_file, 'k) engine \<Rightarrow> image_layout list \<Rightarrow>
   (string \<Rightarrow> (nat \<Rightarrow> load_error + guest \<times> 'k) option) \<Rightarrow> ('h, 'g) host_fs \<Rightarrow> libc_tty \<Rightarrow> (string \<Rightarrow> string) \<Rightarrow> string \<Rightarrow>
   ('h cli_world, 'g cli_file) outside \<Rightarrow> 'h \<Rightarrow> cli_ends \<Rightarrow> string list \<Rightarrow> cli_io \<Rightarrow> (nat \<times> cli_io) option" where
  "cli_main eng layouts builtin fs lt quote secs out h ends args ci =
     (case cli_run eng layouts builtin fs lt quote secs out h ends args ci of
        None \<Rightarrow> None
      | Some (Inr code, io1) \<Rightarrow> Some (code, io1)
      | Some (Inl m, io1) \<Rightarrow> Some (2, print_err (as_bytes (''wasmux: '' @ m @ nl)) io1))"

end
