(* ===== verification/Cli_Properties.thy ===== *)
theory Cli_Properties
  imports Cli Host_Properties
begin

text \<open>
  Properties of the command-line tool: its options read back from what a caller writes, the
  terminal is as it was found on every way out, and what streaming shows of the last step.
\<close>

section \<open>Options\<close>

text \<open>The command line a caller writes for a set of options.\<close>

definition opt_words :: "string \<Rightarrow> string option \<Rightarrow> string list" where
  "opt_words flag v = (case v of None \<Rightarrow> [] | Some s \<Rightarrow> [flag, s])"

definition write_args :: "options \<Rightarrow> string list" where
  "write_args o' =
     opt_words ''--dir'' (op_dir o') @ opt_words ''--ro'' (op_ro o') @ opt_words ''-c'' (op_script o') @
     concat (map (\<lambda>(k, v). [''-e'', k @ ''='' @ v]) (op_env o')) @
     [''--memory'', show_nat (op_memory o'), ''--timeout'', show_nat (op_timeout o')] @
     (if op_stream o' then [''--stream''] else []) @ (if op_stats o' then [''--stats''] else []) @
     (if op_list o' then [''--programs''] else []) @ op_command o'"

definition option_words :: "string list" where
  "option_words = [''-h'', ''--help'', ''--programs'', ''-d'', ''--dir'', ''--ro'', ''-c'', ''-e'', ''--env'',
     ''--memory'', ''--timeout'', ''--stream'', ''--stats'']"

lemma split_once_joined: "x \<notin> set k \<Longrightarrow> split_once x (k @ x # v) = Some (k, v)"
proof -
  assume "x \<notin> set k"
  then have "takeWhile (\<lambda>y. y \<noteq> x) (k @ x # v) = k" "dropWhile (\<lambda>y. y \<noteq> x) (k @ x # v) = x # v"
    by (induction k) auto
  then show ?thesis by (simp add: split_once_def)
qed

lemma parse_u64_shown: "n < 18446744073709551616 \<Longrightarrow> parse_u64 (show_nat n) = Some n"
proof -
  assume n: "n < 18446744073709551616"
  obtain c cs where s: "show_nat n = c # cs" by (cases "show_nat n") auto
  have "digit_val c \<noteq> None" using show_nat_digits [of c n] by (simp add: s)
  then have "c \<noteq> CHR ''+''" by (auto simp: digit_val_def)
  moreover have "parse_nat (show_nat n) = Some n" by (simp add: parse_nat_def parse_digits_show_nat)
  ultimately show ?thesis using n by (simp add: parse_u64_def s)
qed

lemma parse_env:
  "\<forall>(k, v) \<in> set env. CHR ''='' \<notin> set k \<Longrightarrow>
   parse_args (concat (map (\<lambda>(k, v). [''-e'', k @ ''='' @ v]) env) @ rest) o' = parse_args rest (o'\<lparr>op_env := op_env o' @ env\<rparr>)"
proof (induction env arbitrary: o')
  case (Cons kv env)
  obtain k v where kv: "kv = (k, v)" by fastforce
  have "split_once (CHR ''='') (k @ ''='' @ v) = Some (k, v)"
    using Cons.prems by (simp add: kv split_once_joined)
  with Cons.IH [of "o'\<lparr>op_env := op_env o' @ [(k, v)]\<rparr>"] Cons.prems show ?case by (simp add: kv)
qed simp

lemma parse_command:
  "words = [] \<or> hd words \<notin> set option_words \<Longrightarrow>
   parse_args words o' = Inr (Run_With (o'\<lparr>op_command := op_command o' @ words\<rparr>))"
  by (cases words) (simp_all add: option_words_def)

text \<open>
  C35: the options of the tool read back.  A command line written from a set of options (the keys
  of the environment without an equals sign, the numbers of 64 bits, and a command that is not itself an
  option) parses to that set, whatever the values are: a path or a script may look like an option.
\<close>

theorem options_roundtrip:
  assumes "\<forall>(k, v) \<in> set (op_env o'). CHR ''='' \<notin> set k"
    and "op_memory o' < 18446744073709551616" "op_timeout o' < 18446744073709551616"
    and "op_command o' = [] \<or> hd (op_command o') \<notin> set option_words"
  shows "parse_args (write_args o') options_default = Inr (Run_With o')"
proof -
  let ?rest = "(if op_stream o' then [''--stream''] else []) @ (if op_stats o' then [''--stats''] else []) @
     (if op_list o' then [''--programs''] else []) @ op_command o'"
  have flags: "parse_args ?rest d = Inr (Run_With (d\<lparr>op_stream := op_stream d \<or> op_stream o', op_stats := op_stats d \<or> op_stats o',
      op_list := op_list d \<or> op_list o', op_command := op_command d @ op_command o'\<rparr>))" for d
    by (simp add: parse_command [OF assms(4)])
  have opts: "parse_args (opt_words ''--dir'' a @ xs) d = parse_args xs (d\<lparr>op_dir := (case a of None \<Rightarrow> op_dir d | _ \<Rightarrow> a)\<rparr>)"
    "parse_args (opt_words ''--ro'' a @ xs) d = parse_args xs (d\<lparr>op_ro := (case a of None \<Rightarrow> op_ro d | _ \<Rightarrow> a)\<rparr>)"
    "parse_args (opt_words ''-c'' a @ xs) d = parse_args xs (d\<lparr>op_script := (case a of None \<Rightarrow> op_script d | _ \<Rightarrow> a)\<rparr>)" for a xs d
    by (simp_all add: opt_words_def split: option.splits)
  show ?thesis
    unfolding write_args_def opts parse_env [OF assms(1)]
    by (simp add: parse_u64_shown assms(2,3) flags options_default_def split: option.splits)
qed

lemma options_roundtrip_witness:
  "parse_args (write_args (options_default\<lparr>op_dir := Some ''--help'', op_env := [(''A'', ''b=c'')], op_stats := True,
     op_command := [''ls'', ''-h'']\<rparr>)) options_default =
   Inr (Run_With (options_default\<lparr>op_dir := Some ''--help'', op_env := [(''A'', ''b=c'')], op_stats := True,
     op_command := [''ls'', ''-h'']\<rparr>))"
  by (rule options_roundtrip) (simp_all add: options_default_def option_words_def)

section \<open>The terminal\<close>

text \<open>
  While the session runs, the terminal has the settings it was found with, changed to what the guest
  last asked for.
\<close>

definition in_step :: "libc_tty \<Rightarrow> host_termios option \<Rightarrow> host_terminal option \<Rightarrow> cli_io \<Rightarrow> bool" where
  "in_step lt found host ci =
     (case host of
        None \<Rightarrow> ci_termios ci = found
      | Some h \<Rightarrow> found = Some (hx_original h) \<and>
          ci_termios ci = Some (case hx_applied h of
             None \<Rightarrow> hx_original h | Some (raw, signals) \<Rightarrow> mirrored lt raw signals (hx_original h)))"

definition sets_terminal :: "libc_tty \<Rightarrow> bool" where
  "sets_terminal lt \<longleftrightarrow> (\<forall>cur new. lt_set lt cur new = new)"

lemma in_step_io: "ci_termios ci' = ci_termios ci \<Longrightarrow> in_step lt found host ci' = in_step lt found host ci"
  by (simp add: in_step_def split: option.splits)

lemma in_step_follow:
  "sets_terminal lt \<Longrightarrow> in_step lt found host ci \<Longrightarrow> follow lt host ss ci = (host', ci') \<Longrightarrow> in_step lt found host' ci'"
  by (auto simp: follow_def mirror_def in_step_def tcsetattr_def sets_terminal_def split: option.splits prod.splits if_splits)

lemma in_step_drop: "sets_terminal lt \<Longrightarrow> in_step lt found host ci \<Longrightarrow> ci_termios (host_drop lt host ci) = found"
  by (auto simp: host_drop_def in_step_def tcsetattr_def sets_terminal_def split: option.splits)

lemma termios_unchanged:
  "ci_termios (print_out d ci) = ci_termios ci" "ci_termios (print_err d ci) = ci_termios ci"
  "ci_termios (snd (stream_output ss ci)) = ci_termios ci" "ci_termios (snd (answer_stdin ss ci)) = ci_termios ci"
  "ci_termios (finish_output o' stream secs ss out ci) = ci_termios ci"
  by (simp_all add: print_out_def print_err_def stream_output_def answer_stdin_def read_input_def finish_output_def Let_def
      split: prod.splits list.splits sum.splits)

lemma drive_in_step:
  assumes "drive eng lt quote stream ss host ci = Some r" "sets_terminal lt" "in_step lt found host ci"
  shows "in_step lt found (fst (snd (snd r))) (snd (snd (snd r)))"
proof -
  let ?P = "\<lambda>eng lt quote stream ss host ci r. sets_terminal lt \<longrightarrow> in_step lt found host ci \<longrightarrow>
      in_step lt found (fst (snd (snd r))) (snd (snd (snd r)))"
  have "?P eng lt quote stream ss host ci r"
  proof (rule drive.raw_induct [where P = ?P, OF _ assms(1)])
    fix dr and eng' :: "('a, 'b, 'c) engine" and lt' quote' stream' ss' host' ci' r'
    assume ih: "\<And>eng lt quote stream ss host ci r. dr eng lt quote stream ss host ci = Some r \<Longrightarrow> ?P eng lt quote stream ss host ci r"
      and r: "(case step_session eng' (budget_syscalls 20000) ss' of
        None \<Rightarrow> None
      | Some (Inl e, ss1) \<Rightarrow> Some (Inl (show_error quote' e), ss1, host', ci')
      | Some (Inr p, ss1) \<Rightarrow>
          (let (host1, ci1) = follow lt' host' ss1 ci';
               (ss2, ci2) = (if stream' then stream_output ss1 ci1 else (ss1, ci1))
           in (case p of
                 Done o' \<Rightarrow> Some (Inr o', ss2, host1, ci2)
               | Yielded \<Rightarrow> dr eng' lt' quote' stream' ss2 host1 ci2
               | Waiting w \<Rightarrow>
                   (case w of
                      WaitVfs \<Rightarrow> Some (Inl cannot_wait, ss2, host1, ci2)
                    | WaitHost \<Rightarrow> Some (Inl cannot_wait, ss2, host1, ci2)
                    | WaitStdin \<Rightarrow> (let (ss3, ci3) = answer_stdin ss2 ci2 in dr eng' lt' quote' stream' ss3 host1 ci3)
                    | WaitUntil t \<Rightarrow> dr eng' lt' quote' stream' ss2 host1 ci2)))) = Some r'"
    show "?P eng' lt' quote' stream' ss' host' ci' r'"
    proof (intro impI)
      assume s: "sets_terminal lt'" and i: "in_step lt' found host' ci'"
      show "in_step lt' found (fst (snd (snd r'))) (snd (snd (snd r')))"
      proof (cases "step_session eng' (budget_syscalls 20000) ss'")
        case None
        then show ?thesis using r by simp
      next
        case (Some st)
        obtain res ss1 where st: "st = (res, ss1)" by fastforce
        show ?thesis
        proof (cases res)
          case (Inl e)
          then show ?thesis using r Some st i by auto
        next
          case (Inr p)
          obtain host1 ci1 where f: "follow lt' host' ss1 ci' = (host1, ci1)" by fastforce
          obtain ss2 ci2 where o: "(if stream' then stream_output ss1 ci1 else (ss1, ci1)) = (ss2, ci2)" by fastforce
          have "ci_termios ci2 = ci_termios ci1"
            using o termios_unchanged(3) [of ss1 ci1] by (auto split: if_splits)
          then have i2: "in_step lt' found host1 ci2"
            using in_step_follow [OF s i f] in_step_io by metis
          obtain ss3 ci3 where a: "answer_stdin ss2 ci2 = (ss3, ci3)" by fastforce
          have i3: "in_step lt' found host1 ci3"
            using i2 in_step_io termios_unchanged(4) [of ss2 ci2] unfolding a by (metis snd_conv)
          show ?thesis
            using r s i2 i3 ih unfolding Some st Inr
            by (simp add: f o a Let_def split: progress.splits wait.splits) (blast | force)+
        qed
      qed
    qed
  qed
  then show ?thesis using assms(2,3) by simp
qed

text \<open>
  C31: the terminal is put back.  Whatever the arguments, and however the run ends (help, a mistake in the
  options, a sandbox that does not build, a session that fails or finishes), if the tool ends, the settings of its
  terminal are those it started with, where \<open>tcsetattr\<close> sets what it is given; and its exit code is a byte.
\<close>

theorem terminal_put_back:
  assumes "cli_main eng layouts builtin fs lt quote secs out h ends args ci = Some (code, ci')" "sets_terminal lt"
  shows "ci_termios ci' = ci_termios ci \<and> code < 256"
proof -
  have session: "ci_termios ci1 = ci_termios ci \<and> (\<forall>c. r = Inr c \<longrightarrow> c < 256)"
    if run: "cli_session eng lt quote secs o' ends sb out' ci = Some (r, ci1)" for o' sb out' r ci1
  proof (cases "spawn_session sb out' (cli_prepared o' ends sb)")
    case (Inl e)
    then show ?thesis using run by (auto simp: cli_session_def)
  next
    case (Inr ss)
    let ?host = "case cli_terminal o' ends of None \<Rightarrow> None | Some _ \<Rightarrow> host_take ci"
    let ?stream = "op_stream o' \<or> conversational o' ends"
    have start: "in_step lt (ci_termios ci) ?host ci"
      by (auto simp: in_step_def host_take_def split: option.splits)
    obtain d ss1 host1 ci2 where d: "drive eng lt quote ?stream ss ?host ci = Some (d, ss1, host1, ci2)"
      using run Inr by (auto simp: cli_session_def Let_def split: option.splits)
    have i: "in_step lt (ci_termios ci) host1 ci2"
      using drive_in_step [OF d assms(2) start] by simp
    have "in_step lt (ci_termios ci) host1 (finish_output o' ?stream secs ss1 x ci2)" for x
      using i by (simp add: in_step_io [OF termios_unchanged(5)])
    note drop = in_step_drop [OF assms(2) i] in_step_drop [OF assms(2) this]
    show ?thesis
      using run Inr d drop by (cases d) (auto simp: cli_session_def Let_def exit_byte_def)
  qed
  obtain r ci1 where r: "cli_run eng layouts builtin fs lt quote secs out h ends args ci = Some (r, ci1)"
    and c: "(code, ci') = (case r of Inr c \<Rightarrow> (c, ci1) | Inl m \<Rightarrow> (2, print_err (as_bytes (''wasmux: '' @ m @ nl)) ci1))"
    using assms(1) by (auto simp: cli_main_def split: option.splits sum.splits)
  have "ci_termios ci1 = ci_termios ci \<and> (\<forall>c. r = Inr c \<longrightarrow> c < 256)"
    using r session by (auto simp: cli_run_def termios_unchanged split: sum.splits parsed.splits prod.splits if_splits)
  then show ?thesis using c by (auto simp: termios_unchanged split: sum.splits)
qed

definition quiet_engine :: "('w, 'f, unit) engine" where
  "quiet_engine k s = Some (Returned, k, s)"

definition linux_tty :: libc_tty where
  "linux_tty = \<lparr>lt_icanon = 2, lt_echo = 8, lt_echonl = 64, lt_isig = 1, lt_vmin = 6, lt_vtime = 5, lt_set = (\<lambda>_ new. new)\<rparr>"

definition cooked :: host_termios where
  "cooked = \<lparr>ht_iflag = 1280, ht_oflag = 5, ht_cflag = 191, ht_lflag = 35387, ht_cc = (\<lambda>_. 0)\<rparr>"

definition keyboard :: cli_io where
  "keyboard = \<lparr>ci_input = [], ci_out = [], ci_err = [], ci_termios = Some cooked\<rparr>"

definition bare_outside :: "(unit cli_world, string cli_file) outside" where
  "bare_outside =
     \<lparr>o_world = (\<lambda>_. mem_new, ()), o_fops = sum_files shelf_files (host_file_ops (demo_host [])), o_mono = (\<lambda>n. n),
      o_wall = (\<lambda>n. n), o_ticks = 0, o_rng = 1, o_hash = (\<lambda>_. 0), o_show_secs = (\<lambda>_. ''0'')\<rparr>"

lemma terminal_put_back_witness:
  "\<exists>ci'. cli_main quiet_engine [] (\<lambda>_. None) (demo_host []) linux_tty id ''0.0'' bare_outside ()
     \<lparr>ce_stdin_tty = True, ce_stdout_tty = True, ce_winsize = Some (80, 24)\<rparr> [''--dir'', ''/gone'', ''sh''] keyboard = Some (2, ci') \<and>
   ci_termios ci' = Some cooked \<and> ci_err ci' = as_bytes (''wasmux: /gone: ENOENT (2)'' @ nl)"
proof -
  let ?err = "print_err (as_bytes (''wasmux: /gone: ENOENT (2)'' @ nl)) keyboard"
  have show2: "show_errno ENOENT = ''ENOENT (2)''"
    by code_simp
  have run: "cli_main quiet_engine [] (\<lambda>_. None) (demo_host []) linux_tty id ''0.0'' bare_outside ()
     \<lparr>ce_stdin_tty = True, ce_stdout_tty = True, ce_winsize = Some (80, 24)\<rparr> [''--dir'', ''/gone'', ''sh''] keyboard = Some (2, ?err)"
    by (simp add: cli_main_def cli_run_def options_default_def cli_builder_def open_host_def host_new_def demo_host_def
        from_io_def show2 Let_def)
  from terminal_put_back [OF run] have "ci_termios ?err = ci_termios keyboard"
    by (simp add: sets_terminal_def linux_tty_def)
  with run show ?thesis by (auto simp: keyboard_def print_err_def)
qed

section \<open>Streaming\<close>

lemma collected_empty:
  assumes "step_session eng b ss = Some (Inr (Done o'), ss1)"
  shows "ob_data (sh_stdout (k_shared (ss_kernel ss1))) = []" "ob_data (sh_stderr (k_shared (ss_kernel ss1))) = []"
  using assms
  by (auto simp: step_session_def Let_def collect_def split: option.splits prod.splits slice.splits idle.splits)

lemma stream_empty:
  assumes "ob_data (sh_stdout (k_shared (ss_kernel ss))) = []" "ob_data (sh_stderr (k_shared (ss_kernel ss))) = []"
  shows "snd (stream_output ss ci) = ci"
  using assms by (simp add: stream_output_def take_stdout_def take_stderr_def drain_new_def print_out_def print_err_def Let_def)

text \<open>
  C32: a streamed run loses the output of its last step.  The step that finishes a session hands over
  what is left of the output with its result; the streaming loop then takes the rest, of which
  there is none, and the end of the run does not print the result of a streamed session.  The same session
  without streaming prints all of it.
\<close>

theorem streaming_drops_last:
  assumes "step_session eng (budget_syscalls 20000) ss = Some (Inr (Done o'), ss1)"
  shows "(\<exists>ss2. drive eng lt quote True ss None ci = Some (Inr o', ss2, None, ci) \<and>
      ci_out (finish_output opts True secs ss2 o' ci) = ci_out ci) \<and>
    drive eng lt quote False ss None ci = Some (Inr o', ss1, None, ci) \<and>
      ci_out (finish_output opts False secs ss1 o' ci) = ci_out ci @ out_stdout o'"
proof -
  have "drive eng lt quote True ss None ci = Some (Inr o', fst (stream_output ss1 ci), None, ci)"
    using stream_empty [OF collected_empty [OF assms], of ci] assms
    by (subst drive.simps) (auto simp: follow_def Let_def split: prod.splits)
  then have "\<exists>ss2. drive eng lt quote True ss None ci = Some (Inr o', ss2, None, ci) \<and>
      ci_out (finish_output opts True secs ss2 o' ci) = ci_out ci"
    by (simp add: finish_output_def print_err_def)
  moreover have "drive eng lt quote False ss None ci = Some (Inr o', ss1, None, ci) \<and>
      ci_out (finish_output opts False secs ss1 o' ci) = ci_out ci @ out_stdout o'"
    using assms by (subst drive.simps) (simp add: follow_def finish_output_def print_out_def print_err_def Let_def)
  ultimately show ?thesis by blast
qed

definition spoken :: "(unit, unit, unit) session" where
  "spoken = (let K = kernel_new [] (overlay_new []) [] limits_default still_world in
     \<lparr>ss_kernel = K\<lparr>k_shared := (k_shared K)\<lparr>sh_stdout := \<lparr>ob_data = [104, 105, 10], ob_dropped = 0, ob_taken = 0\<rparr>\<rparr>\<rparr>,
      ss_finished = None\<rparr>)"

definition said :: cmd_output where
  "said = \<lparr>out_status = 0, out_stdout = [104, 105, 10], out_stderr = [], out_dropped = 0\<rparr>"

lemma spoken_ends: "\<exists>ss1. step_session quiet_engine (budget_syscalls 20000) spoken = Some (Inr (Done said), ss1)"
  by (simp add: spoken_def step_session_def kernel_run_def run_loop.simps run_pass.simps kernel_new_def shared_new_def
      unpark_all_def start_spawned_def past_deadline_def wall_clock_deadline_def read_clock_def instant_add_def
      limits_default_def still_world_def or_exit_def collect_def output_empty_def sat_add_u64_def said_def Let_def)

lemma streaming_drops_last_witness:
  "\<exists>ss1 ss2. out_stdout said = [104, 105, 10] \<and>
    drive quiet_engine linux_tty id True spoken None keyboard = Some (Inr said, ss2, None, keyboard) \<and>
    ci_out (finish_output options_default True ''0.0'' ss2 said keyboard) = [] \<and>
    drive quiet_engine linux_tty id False spoken None keyboard = Some (Inr said, ss1, None, keyboard) \<and>
    ci_out (finish_output options_default False ''0.0'' ss1 said keyboard) = [104, 105, 10]"
proof -
  obtain ss1 where "step_session quiet_engine (budget_syscalls 20000) spoken = Some (Inr (Done said), ss1)"
    using spoken_ends by blast
  from streaming_drops_last [OF this, of linux_tty id keyboard options_default "''0.0''"]
  show ?thesis by (simp add: said_def) (auto simp: keyboard_def)
qed

end
