(* ===== verification/Build_Script.thy ===== *)
theory Build_Script
  imports Cli
begin

text \<open>
  The build script (\<open>build.rs\<close>): the layout of the shipped programs, read from the \<open>.commands\<close> files
  of \<open>bin/\<close>, the Rust text generated from it, and what the linker is told.  The directory and the
  environment of the build are arguments; so is the \<open>Debug\<close> of a string.  \<open>programs.rs\<close>
  includes the generated text: its \<open>LAYOUT\<close> is \<open>build_layout\<close>.
\<close>

section \<open>The layout\<close>

text \<open>\<open>str::lines\<close>: an end of line is a newline, or a carriage return and a newline.\<close>

definition strip_cr :: "string \<Rightarrow> string" where
  "strip_cr l = (if l \<noteq> [] \<and> last l = CHR 0x0D then butlast l else l)"

fun lines_from :: "string \<Rightarrow> string \<Rightarrow> string list" where
  "lines_from acc [] = (if acc = [] then [] else [acc])"
| "lines_from acc (c # s) =
     (if c = CHR 0x0A then strip_cr acc # lines_from [] s else lines_from (acc @ [c]) s)"

definition str_lines :: "string \<Rightarrow> string list" where
  "str_lines s = lines_from [] s"

text \<open>A line is a name, a tab and a path, and anything after a second tab; other lines are passed over.\<close>

definition command_line :: "string \<Rightarrow> (string \<times> string) option" where
  "command_line l =
     (case split_on (CHR 0x09) l of
        name # path # _ \<Rightarrow> if name = [] \<or> \<not> starts_with ''/'' path then None else Some (name, path)
      | _ \<Rightarrow> None)"

definition file_commands :: "string \<Rightarrow> (string \<times> string) list" where
  "file_commands txt = List.map_filter command_line (str_lines txt)"

record bin_dir =
  bd_path :: string
  bd_exists :: "string \<Rightarrow> bool"
  bd_read :: "string \<Rightarrow> string option"

definition images :: "string list" where
  "images = [''busybox'', ''jq'']"

definition image_layout_of :: "bin_dir \<Rightarrow> string \<Rightarrow> image_layout option" where
  "image_layout_of bd img =
     (if \<not> bd_exists bd (img @ ''.commands'') \<or> \<not> bd_exists bd (img @ ''.wasm'') then None
      else Some \<lparr>im_image = img,
        im_commands = file_commands (case bd_read bd (img @ ''.commands'') of Some t \<Rightarrow> t | None \<Rightarrow> [])\<rparr>)"

definition build_layout :: "bin_dir \<Rightarrow> image_layout list" where
  "build_layout bd = List.map_filter (image_layout_of bd) images"

section \<open>The generated text\<close>

definition layout_text :: "(string \<Rightarrow> string) \<Rightarrow> image_layout \<Rightarrow> string" where
  "layout_text quote im =
     ''    Layout { image: '' @ quote (im_image im) @ '', commands: &['' @ nl @
     concat (map (\<lambda>(name, path).
       ''        Command { name: '' @ quote name @ '', path: '' @ quote path @ '' },'' @ nl) (im_commands im)) @
     ''    ] },'' @ nl"

definition image_text :: "(string \<Rightarrow> string) \<Rightarrow> bin_dir \<Rightarrow> string \<Rightarrow> string" where
  "image_text quote bd img =
     (if bd_exists bd (img @ ''.wasm'')
      then ''    ('' @ quote img @ '', include_bytes!('' @ quote (bd_path bd @ ''/'' @ img @ ''.wasm'') @ '')),'' @ nl
      else [])"

definition generated :: "(string \<Rightarrow> string) \<Rightarrow> bin_dir \<Rightarrow> string" where
  "generated quote bd =
     ''// Generated by build.rs from bin/. Do not edit.'' @ nl @
     ''pub(crate) static LAYOUT: &[Layout] = &['' @ nl @
     concat (map (layout_text quote) (build_layout bd)) @ ''];'' @ nl @ nl @
     ''#[cfg(feature = '' @ qt @ ''interp'' @ qt @ '')]'' @ nl @
     ''pub(crate) static IMAGES: &[(&str, &[u8])] = &['' @ nl @
     concat (map (image_text quote bd) images) @ ''];'' @ nl"

section \<open>The compiled-in programs\<close>

definition archive_name :: string where
  "archive_name = ''libwasmux-images.a''"

text \<open>The directory of the archive, if there is one, and the warning when the variable points nowhere.\<close>

definition find_archive :: "string option \<Rightarrow> (string \<Rightarrow> bool) \<Rightarrow> bin_dir \<Rightarrow> string option \<times> string list" where
  "find_archive env file_exists bd =
     (case env of
        Some dir \<Rightarrow>
          if file_exists (dir @ ''/'' @ archive_name) then (Some dir, [])
          else (None, [''cargo:warning=wasmux: WASMUX_ARCHIVE_DIR is set to '' @ dir @
                 '' but there is no libwasmux-images.a there.''])
      | None \<Rightarrow> (if bd_exists bd archive_name then Some (bd_path bd) else None, []))"

definition no_archive_warning :: string where
  "no_archive_warning =
     ''cargo:warning=wasmux: no libwasmux-images.a, so the compiled-in backend is '' @
     ''unavailable and the interpreter will run the programs instead '' @ map char_of [0xE2, 0x80, 0x94 :: nat] @
     '' correct, about ten times slower on compute. The archive is not distributed with '' @
     ''this crate (it would combine GPL-2.0-only and Apache-2.0 code in one '' @
     ''binary; see THIRD-PARTY.md). To use one: build it with '' @
     ''`toolchain/build-archive.sh` in a wasmux checkout and set '' @
     ''WASMUX_ARCHIVE_DIR to the directory holding it. Or keep the `interp` '' @
     ''feature on and ignore this.''"

definition link_directives :: "string \<Rightarrow> bool \<Rightarrow> string option \<Rightarrow> (string \<Rightarrow> bool) \<Rightarrow> bin_dir \<Rightarrow> string list" where
  "link_directives target has_aot env file_exists bd =
     (if target = ''wasm32'' \<and> has_aot then
        (case find_archive env file_exists bd of
           (Some path, warnings) \<Rightarrow>
             warnings @ [''cargo:rustc-link-search=native='' @ path, ''cargo:rustc-link-lib=static=wasmux-images'',
               ''cargo:rustc-cfg=wasmux_aot_linked'']
         | (None, warnings) \<Rightarrow> warnings @ [no_archive_warning])
      else [])"

definition build_script :: "(string \<Rightarrow> string) \<Rightarrow> string \<Rightarrow> bool \<Rightarrow> string option \<Rightarrow> (string \<Rightarrow> bool) \<Rightarrow> bin_dir \<Rightarrow>
    string \<times> string list" where
  "build_script quote target has_aot env file_exists bd =
     (generated quote bd,
      [''cargo:rerun-if-changed='' @ bd_path bd, ''cargo:rerun-if-env-changed=WASMUX_ARCHIVE_DIR''] @
      link_directives target has_aot env file_exists bd)"

section \<open>The layout and the sandbox\<close>

text \<open>The text of a \<open>.commands\<close> file.\<close>

definition write_commands :: "(string \<times> string) list \<Rightarrow> string" where
  "write_commands cs = concat (map (\<lambda>(name, path). name @ [CHR 0x09] @ path @ nl) cs)"

definition good_command :: "string \<times> string \<Rightarrow> bool" where
  "good_command = (\<lambda>(name, path). name \<noteq> [] \<and> {CHR 0x09, CHR 0x0A} \<inter> set (name @ path) = {} \<and>
     starts_with ''/'' path \<and> last path \<noteq> CHR 0x0D)"

lemma lines_from_line: "CHR 0x0A \<notin> set l \<Longrightarrow> lines_from acc (l @ CHR 0x0A # s) = strip_cr (acc @ l) # lines_from [] s"
  by (induction l arbitrary: acc) auto

lemma split_on_none: "x \<notin> set l \<Longrightarrow> split_on x l = [l]"
  by (induction l) auto

lemma split_on_one: "x \<notin> set l \<Longrightarrow> split_on x (l @ x # r) = l # split_on x r"
  by (induction l) auto

lemma command_line_written: "good_command (name, path) \<Longrightarrow> command_line (name @ [CHR 0x09] @ path) = Some (name, path)"
  by (auto simp: good_command_def command_line_def split_on_one split_on_none)

lemma file_commands_written: "list_all good_command cs \<Longrightarrow> file_commands (write_commands cs) = cs"
proof (induction cs)
  case (Cons c cs)
  obtain name path where c: "c = (name, path)" by fastforce
  have g: "good_command (name, path)" using Cons.prems c by simp
  then have l: "CHR 0x0A \<notin> set (name @ [CHR 0x09] @ path)" and cr: "strip_cr (name @ [CHR 0x09] @ path) = name @ [CHR 0x09] @ path"
    by (auto simp: good_command_def strip_cr_def)
  have "write_commands (c # cs) = (name @ [CHR 0x09] @ path) @ CHR 0x0A # write_commands cs"
    by (simp add: write_commands_def c)
  then have "str_lines (write_commands (c # cs)) = (name @ [CHR 0x09] @ path) # str_lines (write_commands cs)"
    using lines_from_line [OF l, of "[]"] cr by (simp add: str_lines_def)
  then show ?case
    using Cons command_line_written [OF g] by (simp add: file_commands_def map_filter_simps c)
qed (simp add: file_commands_def write_commands_def str_lines_def map_filter_simps)

lemma map_filter_mem: "x \<in> set (List.map_filter f xs) \<Longrightarrow> \<exists>y \<in> set xs. f y = Some x"
  by (auto simp: List.map_filter_def)

definition absolute_name :: "string \<Rightarrow> string \<Rightarrow> bool" where
  "absolute_name name path \<longleftrightarrow> name \<noteq> [] \<and> starts_with ''/'' path"

lemma layout_good:
  assumes "im \<in> set (build_layout bd)" "(name, path) \<in> set (im_commands im)"
  shows "absolute_name name path"
proof -
  obtain img where "image_layout_of bd img = Some im"
    using map_filter_mem assms(1) unfolding build_layout_def by metis
  then obtain contents where "(name, path) \<in> set (file_commands contents)"
    using assms(2) by (auto simp: image_layout_of_def split: if_splits)
  then obtain l where "command_line l = Some (name, path)"
    using map_filter_mem unfolding file_commands_def by metis
  then show ?thesis by (auto simp: command_line_def absolute_name_def split: list.splits if_splits)
qed

lemma bt_insert_mem: "x \<in> set (bt_insert k v es) \<Longrightarrow> x = (k, v) \<or> x \<in> set es"
  by (induction k v es rule: bt_insert.induct) (auto split: if_splits)

definition names_absolute :: "('w, 'k) tables \<Rightarrow> bool" where
  "names_absolute t \<longleftrightarrow> (\<forall>(name, _, path) \<in> set (tb_names t). absolute_name name path)"

lemma add_layout_names:
  assumes "names_absolute t" "\<And>name path. (name, path) \<in> set (im_commands im) \<Longrightarrow> absolute_name name path"
  shows "names_absolute (add_layout builtin wanted im t)"
proof (cases "builtin (im_image im)")
  case (Some program)
  have "names_absolute (fold (\<lambda>(name, path). if (case wanted of Some allowed \<Rightarrow> name \<in> set allowed | None \<Rightarrow> True)
      then name_command i name path else id) cs t')"
    if "names_absolute t'" "\<And>name path. (name, path) \<in> set cs \<Longrightarrow> absolute_name name path" for cs i and t' :: "('a, 'b) tables"
    using that
  proof (induction cs arbitrary: t')
    case (Cons c cs)
    obtain name path where c: "c = (name, path)" by fastforce
    have "names_absolute (name_command i name path t')"
      using Cons.prems c by (auto simp: name_command_def names_absolute_def dest!: bt_insert_mem)
    then show ?case using Cons c by simp
  qed simp
  moreover have "names_absolute (push_entry (im_image im) (GuestProgram program) t)"
    using assms(1) by (simp add: push_entry_def names_absolute_def)
  ultimately show ?thesis using Some assms(2) by (simp add: add_layout_def)
qed (use assms in \<open>simp add: add_layout_def\<close>)

lemma shipped_names: "names_absolute (fold (add_layout builtin wanted) (build_layout bd) tables_empty)"
proof -
  have "names_absolute (fold (add_layout builtin wanted) ims t)"
    if "names_absolute t" "set ims \<subseteq> set (build_layout bd)" for ims and t :: "('a, 'b) tables"
    using that by (induction ims arbitrary: t) (auto intro!: add_layout_names dest: layout_good)
  from this [of tables_empty "build_layout bd"] show ?thesis by (simp add: tables_empty_def names_absolute_def)
qed

text \<open>
  C34: from the \<open>.commands\<close> files to the sandbox.  The script reads back the commands a file lists
  (names and absolute paths, without tabs and ends of line); and whatever the files of the build hold, every
  program of a sandbox built without host commands has a name and an absolute path.
\<close>

theorem shipped_commands:
  assumes "list_all good_command cs" "build (build_layout bd) builtin b = Inr sb" "b_commands b = []"
  shows "file_commands (write_commands cs) = cs \<and>
    list_all (\<lambda>p. absolute_name (pi_name p) (pi_path p)) (programs sb)"
proof -
  have "sb_by_name sb = tb_names (build_tables (build_layout bd) builtin b)"
    using assms(2) by (auto simp: build_def Let_def split: option.splits if_splits)
  then have "\<forall>(name, _, path) \<in> set (sb_by_name sb). absolute_name name path"
    using shipped_names [of builtin "b_programs b" bd] assms(3) by (simp add: build_tables_def names_absolute_def)
  then show ?thesis
    using file_commands_written [OF assms(1)] by (auto simp: programs_def list_all_iff)
qed

definition demo_bin :: bin_dir where
  "demo_bin = \<lparr>bd_path = ''bin'', bd_exists = (\<lambda>f. f \<in> {''jq.commands'', ''jq.wasm''}),
     bd_read = (\<lambda>_. Some (write_commands [(''jq'', ''/usr/bin/jq''), (''bad'', ''no/path'')]))\<rparr>"

definition demo_jq :: "string \<Rightarrow> (nat \<Rightarrow> load_error + guest \<times> unit) option" where
  "demo_jq name = (if name = ''jq'' then Some (\<lambda>_. Inr (one_guest, ())) else None)"

definition jq_builder :: "(shelf_world, shelf_file) builder" where
  "jq_builder = mount_rw ''/'' (on_shelf 0 mem_vfs) builder_new"

lemma demo_bin_layout: "build_layout demo_bin = [\<lparr>im_image = ''jq'', im_commands = [(''jq'', ''/usr/bin/jq'')]\<rparr>]"
  by code_simp

lemma shipped_commands_witness:
  "\<exists>sb. build (build_layout demo_bin) demo_jq jq_builder = Inr sb \<and>
     programs sb = [\<lparr>pi_name = ''jq'', pi_path = ''/usr/bin/jq''\<rparr>] \<and>
     list_all (\<lambda>p. absolute_name (pi_name p) (pi_path p)) (programs sb) \<and>
     file_commands (write_commands [(''jq'', ''/usr/bin/jq'')]) = [(''jq'', ''/usr/bin/jq'')]"
proof -
  have "good_mount_point ''/''" by code_simp
  then obtain sb where sb: "build (build_layout demo_bin) demo_jq jq_builder = Inr sb"
    and names: "sb_by_name sb = [(''jq'', 0, ''/usr/bin/jq'')]"
    by (simp add: demo_bin_layout build_def jq_builder_def mount_rw_def builder_new_def build_tables_def add_layout_def
        demo_jq_def push_entry_def name_command_def tables_empty_def Let_def)
  have "list_all good_command [(''jq'', ''/usr/bin/jq'')]" by (simp add: good_command_def)
  from shipped_commands [OF this sb] sb names show ?thesis
    by (simp add: jq_builder_def mount_rw_def builder_new_def programs_def)
qed

end
