(* ===== verification/Spec2Isabelle.thy ===== *)
theory Spec2Isabelle
  imports Safety Session_Properties Api_Properties Start_Block Guest_Properties Wait_Properties Schedule_Properties
    Host_Links Mem_Properties Engine_Properties Retry Trace Corpus Bench Cli_Properties Build_Script
begin

text \<open>
  A model of wasmux, the Linux personality kernel of \<open>src/crates/wasmux/src\<close>.

  wasmux runs programs compiled to WebAssembly as Linux processes inside the module that embeds
  it.  The embedder builds a \<open>Sandbox\<close> (\<open>lib.rs\<close>), starts a \<open>Session\<close> with a command, and steps
  it; the scheduler (\<open>kernel/mod.rs\<close>) advances one process after the other through the engine, a
  guest calls back through six imports, and the system calls (\<open>kernel/syscall.rs\<close>) act on the
  state the processes share.  The command-line tool of \<open>src/crates/wasmux-cli\<close> is such an embedder.

  The parts and their theories, in the order they import each other.

  \<^item> \<open>Prelude\<close>: lists read and written by index as Rust does, saturating and wrapping arithmetic at
    its width (\<open>usize\<close> is taken at 64 bits), little-endian words.  \<open>Rust_Str\<close>: what the code uses of
    \<open>str\<close> and \<open>BTreeMap\<close>.  \<open>Sys_Monad\<close>: state passing with faults, and the rules for invariants of it.
  \<^item> \<open>Abi\<close> (\<open>abi.rs\<close>, \<open>errno.rs\<close>, \<open>nr.rs\<close>), \<open>Slab\<close> (\<open>slab.rs\<close>, an interface as a locale), \<open>Guest_Mem\<close>
    (\<open>kernel/mem.rs\<close>), \<open>Fds\<close> (\<open>kernel/fd.rs\<close>), \<open>Tasks\<close> (\<open>kernel/task.rs\<close>), \<open>Tty\<close> (\<open>kernel/tty.rs\<close>).
  \<^item> \<open>Vfs\<close> (\<open>vfs/mod.rs\<close>: a filesystem is a record of functions on a world of type \<open>'w\<close>, an open
    file a value of type \<open>'f\<close>), \<open>Mem_Vfs\<close> (\<open>vfs/mem.rs\<close>), \<open>Host_Vfs\<close> (\<open>vfs/host.rs\<close>), \<open>Paths\<close>
    (\<open>kernel/path.rs\<close>), \<open>Shelves\<close> (several filesystems over one world).
  \<^item> \<open>Kernel_State\<close> (the records \<open>Shared\<close> and \<open>Ctx\<close> of \<open>kernel/mod.rs\<close> and their methods), \<open>Sys_Core\<close>,
    \<open>Sys_IO\<close>, \<open>Sys_Poll\<close>, \<open>Sys_Proc\<close>, \<open>Sys_File\<close> (\<open>kernel/syscall.rs\<close>, one definition per system call),
    \<open>Dispatch\<close> (the table of calls, and the imports of \<open>kernel/mod.rs\<close>), \<open>Trace\<close> (the names of the
    calls, and the lines traced with them).
  \<^item> \<open>Engine\<close> (\<open>engine/mod.rs\<close>, \<open>host.rs\<close>), \<open>Engines\<close> (\<open>engine/interp.rs\<close>, \<open>engine/aot.rs\<close>),
    \<open>Scheduler\<close> (\<open>Kernel\<close> of \<open>kernel/mod.rs\<close>), \<open>Api\<close> (\<open>lib.rs\<close>).
  \<^item> Around the library: \<open>Build_Script\<close> (\<open>build.rs\<close>, whose output is the layout \<open>Api\<close> takes),
    \<open>Corpus\<close> (\<open>corpus.rs\<close>), \<open>Cli\<close> (\<open>main.rs\<close> and \<open>tty.rs\<close> of the tool), \<open>Bench\<close> (its other two
    binaries).
  \<^item> \<open>Kernel_Frame\<close> and \<open>Kernel_Steps\<close>: the locales that carry an invariant through every system
    call and import, from a list of primitive effects.  They are interpreted by \<open>Refs\<close> (every
    reference to a description is counted), \<open>Limits\<close>, \<open>Read_Only\<close> and \<open>Census\<close> (who is alive).
  \<^item> \<open>Session_Frame\<close>: the locale that carries an invariant of the state of one process through the
    scheduler, interpreted by \<open>Session_State\<close>, \<open>Session_Moves\<close> and \<open>Session_Safety\<close> (limits, census and
    references over all processes) and by \<open>Session_View\<close> (read-only mounts).
  \<^item> \<open>Safety\<close> and \<open>Session_Properties\<close> hold the properties of one guest and of a whole session,
    applied to the concrete sessions of \<open>Concrete\<close> and \<open>Session_Properties\<close>.
  \<^item> \<open>Retry\<close>: a call that waits, followed to the point where it does; nothing has been seen of it.
  \<^item> \<open>Mem_Tree\<close>, \<open>Mem_Refine\<close> and \<open>Mem_Properties\<close>: the in-memory filesystem refines a map from paths to
    contents.  \<open>Host_Properties\<close> and \<open>Host_Links\<close>: a mounted directory of the host shows nothing outside
    itself, symbolic links included, and what that rests on: the walk of a path does not look for a link
    where the kernel has a program or a device.
  \<^item> \<open>Engine_Properties\<close>: the storage of compiled images is allocated and given back once.
    \<open>Guest_Properties\<close>, \<open>Wait_Properties\<close>, \<open>Start_Block\<close>, \<open>Schedule_Properties\<close>, \<open>Api_Properties\<close>,
    \<open>Cli_Properties\<close>: what single operations, and operations that meet each other,
    promise.

  What is a parameter.  The engine is a function that runs an instance to the end of its
  \<open>_start\<close>; \<open>engine_ok\<close> says that a guest acts through stores to its memory and calls of the imports
  only.  The filesystems, the clock, the random seed and hash of \<open>outside\<close>, the generated layout
  of the shipped programs and the backend are arguments.  The two engines of the code are
  instances of it, over wasmi and over compiled images with the runtime of \<open>wasm2c\<close>, which are
  arguments in turn (the records \<open>wasmi\<close> and \<open>c_runtime\<close>).  Of the host, \<open>std::fs\<close> is the record
  \<open>host_fs\<close>, \<open>tcsetattr\<close> the record \<open>libc_tty\<close>, and what standard input gives a list.

  Bounds.  \<open>usize\<close> has 64 bits, and 32 in \<open>Engines\<close> for compiled images, which exist on wasm32 only.
  The only fuel is the code's own: the budget of a step, \<open>MAX_HOPS\<close> for symbolic links, the limits of
  \<open>Limits\<close>.

  Termination.  What the code cannot promise to end is a \<open>partial_function\<close> into \<open>option\<close>: a guest
  that loops, a host command reading an endless file, the run loop itself, and the loops of an
  embedder around it.  Everything else is total.

  Not modelled.  The arms for hosts other than Unix; the locks, which never fail on one thread; the
  sleep of an embedder that waits, as the clock is an argument; writing traces to the standard
  error; the constants of \<open>abi.rs\<close> that no code reads; the tests; and the guest's side of the
  repository (the C library, its port and the images built in \<open>toolchain\<close> and \<open>bin\<close>), which is not
  Rust.
\<close>

end
